(* ===== verification/Prelude.thy ===== *)
theory Prelude
  imports Main "HOL-Library.Word"
begin

text \<open>
  Shared vocabulary of the development: the machine types of the Go code, the outcome of a
  Go call (a value, an error or a run-time panic), the theorem collections the components
  share, and generic facts about lists, powers of two and bytes.

  Go's \<open>int\<close> is the 64-bit integer of the target; indices, lengths and byte counts that
  the code keeps far from the 64-bit bounds are \<open>int\<close> or \<open>nat\<close>; every other sized integer
  is a word of its width.
\<close>

unbundle bit_operations_syntax

named_theorems go_simps \<open>unfolding rules for Go calls and their outcomes\<close>

section \<open>Machine types\<close>

type_synonym byte = "8 word"
type_synonym u8 = "8 word"
type_synonym u16 = "16 word"
type_synonym u32 = "32 word"
type_synonym u64 = "64 word"
type_synonym bytes = "byte list"

text \<open>\<open>time.Duration\<close> and \<open>time.Time\<close> as nanosecond counts.\<close>

type_synonym duration = int
type_synonym time = int

section \<open>Outcomes of Go calls\<close>

text \<open>
  A Go function with an \<open>error\<close> result returns either a value or an error; an index out of
  range, a nil dereference or a bad argument to the standard library panics.
\<close>

datatype ('e, 'a) outcome = Ok 'a | Err 'e | Panic

fun bind_outcome :: "('e, 'a) outcome \<Rightarrow> ('a \<Rightarrow> ('e, 'b) outcome) \<Rightarrow> ('e, 'b) outcome" where
  "bind_outcome (Ok x) f = f x"
| "bind_outcome (Err e) f = Err e"
| "bind_outcome Panic f = Panic"

lemma bind_outcome_Ok_conv [go_simps]:
  "bind_outcome r f = Ok y \<longleftrightarrow> (\<exists>x. r = Ok x \<and> f x = Ok y)"
  by (cases r) auto

lemma bind_outcome_Panic_conv [go_simps]:
  "bind_outcome r f = Panic \<longleftrightarrow> r = Panic \<or> (\<exists>x. r = Ok x \<and> f x = Panic)"
  by (cases r) auto

section \<open>Powers of two\<close>

lemma pow2_pos [simp]: "0 < (2::nat) ^ n"
  by simp

lemma pow2_split: "i \<le> j \<Longrightarrow> (2::nat) ^ j = 2 ^ i * 2 ^ (j - i)"
  by (simp flip: power_add)

section \<open>Lists\<close>

lemma take_drop_append_middle:
  "length xs = n \<Longrightarrow> length ys = k \<Longrightarrow> take k (drop n (xs @ ys @ zs)) = ys"
  by simp

lemma list_all2_same_map: "list_all2 P xs (map f xs) \<longleftrightarrow> (\<forall>x\<in>set xs. P x (f x))"
  by (induction xs) auto

lemma length_filter_update:
  "i < length xs \<Longrightarrow> length (filter P (xs[i := x])) + (if P (xs ! i) then 1 else 0)
     = length (filter P xs) + (if P x then 1 else 0)"
proof (induction xs arbitrary: i)
  case (Cons y ys)
  then show ?case by (cases i) (auto split: if_splits)
qed simp

lemma length_filter_remove:
  "i < length xs \<Longrightarrow> length (filter P (take i xs @ drop (Suc i) xs)) + (if P (xs ! i) then 1 else 0)
     = length (filter P xs)"
  by (subst (3) id_take_nth_drop [of i xs]) auto

end
