(* ===== verification/Go_Float.thy ===== *)
theory Go_Float
  imports Prelude
begin

text \<open>
  IEEE-754 binary floating point as Go's \<open>float32\<close> and \<open>float64\<close> have it: a value is its
  bit pattern (\<open>math.Float64bits\<close>), an operation decodes its operands to a sign, an integer
  significand and an exponent, computes exactly, and rounds once to nearest, ties to even.
  Every operation computes, on both formats.  A NaN result is the quiet NaN; the payload of a
  NaN operand is not tracked.
\<close>

section \<open>Formats and decoding\<close>

record fp_format =
  ebits :: nat
  fbits :: nat

definition f64 :: fp_format where
  "f64 = \<lparr>ebits = 11, fbits = 52\<rparr>"

definition f32 :: fp_format where
  "f32 = \<lparr>ebits = 8, fbits = 23\<rparr>"

text \<open>\<open>FFin s m e\<close> is the number \<open>(-1)^s * m * 2^e\<close>.\<close>

datatype fp = FNaN | FInf bool | FFin bool nat int

text \<open>The exponent of the last place of the subnormal numbers.\<close>

definition emin :: "fp_format \<Rightarrow> int" where
  "emin f = 2 - 2 ^ (ebits f - 1) - int (fbits f)"

definition inf_mag :: "fp_format \<Rightarrow> nat" where
  "inf_mag f = (2 ^ ebits f - 1) * 2 ^ fbits f"

definition sign_unit :: "fp_format \<Rightarrow> nat" where
  "sign_unit f = 2 ^ (ebits f + fbits f)"

definition decode_mag :: "fp_format \<Rightarrow> bool \<Rightarrow> nat \<Rightarrow> fp" where
  "decode_mag f s n =
     (let e = n div 2 ^ fbits f; m = n mod 2 ^ fbits f
      in if 2 ^ ebits f - 1 \<le> e then (if m = 0 then FInf s else FNaN)
         else if e = 0 then FFin s m (emin f)
         else FFin s (2 ^ fbits f + m) (emin f + int e - 1))"

definition fp_decode :: "fp_format \<Rightarrow> nat \<Rightarrow> fp" where
  "fp_decode f n = decode_mag f (sign_unit f \<le> n) (n mod sign_unit f)"

section \<open>Rounding and encoding\<close>

fun bitlen :: "nat \<Rightarrow> nat" where
  "bitlen n = (if n = 0 then 0 else Suc (bitlen (n div 2)))"

declare bitlen.simps [simp del]

text \<open>Shift right by \<open>k\<close>, rounding to nearest, ties to even.\<close>

definition rshift_rne :: "nat \<Rightarrow> nat \<Rightarrow> nat" where
  "rshift_rne m k =
     (let q = m div 2 ^ k; r = m mod 2 ^ k
      in if 2 ^ k < 2 * r \<or> (2 * r = 2 ^ k \<and> odd q) then q + 1 else q)"

text \<open>The exponent of the last place of the rounded result of \<open>m * 2^e\<close>.\<close>

definition last_place :: "fp_format \<Rightarrow> nat \<Rightarrow> int \<Rightarrow> int" where
  "last_place f m e = max (e + int (bitlen m) - int (fbits f) - 1) (emin f)"

text \<open>
  The magnitude (biased exponent and fraction, as one number) of \<open>m * 2^e\<close> rounded.  A carry
  out of the significand moves into the exponent by itself.
\<close>

definition fp_round :: "fp_format \<Rightarrow> nat \<Rightarrow> int \<Rightarrow> nat" where
  "fp_round f m e =
     (if m = 0 then 0
      else let t = last_place f m e;
               q = (if t \<le> e then m * 2 ^ nat (e - t) else rshift_rne m (nat (t - e)))
           in min (nat (t - emin f) * 2 ^ fbits f + q) (inf_mag f))"

definition fp_encode :: "fp_format \<Rightarrow> fp \<Rightarrow> nat" where
  "fp_encode f x = (case x of
       FNaN \<Rightarrow> inf_mag f + 2 ^ (fbits f - 1)
     | FInf s \<Rightarrow> (if s then sign_unit f else 0) + inf_mag f
     | FFin s m e \<Rightarrow> (if s then sign_unit f else 0) + fp_round f m e)"

section \<open>Arithmetic\<close>

fun fp_mul :: "fp \<Rightarrow> fp \<Rightarrow> fp" where
  "fp_mul FNaN y = FNaN"
| "fp_mul x FNaN = FNaN"
| "fp_mul (FInf s) (FInf t) = FInf (s \<noteq> t)"
| "fp_mul (FInf s) (FFin t m e) = (if m = 0 then FNaN else FInf (s \<noteq> t))"
| "fp_mul (FFin s m e) (FInf t) = (if m = 0 then FNaN else FInf (s \<noteq> t))"
| "fp_mul (FFin s m e) (FFin t n d) = FFin (s \<noteq> t) (m * n) (e + d)"

definition signed_mag :: "bool \<Rightarrow> nat \<Rightarrow> int" where
  "signed_mag s m = (if s then - int m else int m)"

fun fp_add :: "fp \<Rightarrow> fp \<Rightarrow> fp" where
  "fp_add FNaN y = FNaN"
| "fp_add x FNaN = FNaN"
| "fp_add (FInf s) (FInf t) = (if s = t then FInf s else FNaN)"
| "fp_add (FInf s) (FFin t m e) = FInf s"
| "fp_add (FFin s m e) (FInf t) = FInf t"
| "fp_add (FFin s m e) (FFin t n d) =
     (let k = min e d;
          a = signed_mag s m * 2 ^ nat (e - k) + signed_mag t n * 2 ^ nat (d - k)
      in if a = 0 then FFin (s \<and> t) 0 k else FFin (a < 0) (nat \<bar>a\<bar>) k)"

fun fp_neg :: "fp \<Rightarrow> fp" where
  "fp_neg FNaN = FNaN"
| "fp_neg (FInf s) = FInf (\<not> s)"
| "fp_neg (FFin s m e) = FFin (\<not> s) m e"

text \<open>
  Division computes a quotient of at least \<open>fbits + 3\<close> bits and keeps the remainder as a
  sticky last bit, so that rounding it equals rounding the exact quotient.
\<close>

fun fp_div :: "fp_format \<Rightarrow> fp \<Rightarrow> fp \<Rightarrow> fp" where
  "fp_div f FNaN y = FNaN"
| "fp_div f x FNaN = FNaN"
| "fp_div f (FInf s) (FInf t) = FNaN"
| "fp_div f (FInf s) (FFin t n d) = FInf (s \<noteq> t)"
| "fp_div f (FFin s m e) (FInf t) = FFin (s \<noteq> t) 0 0"
| "fp_div f (FFin s m e) (FFin t n d) =
     (if n = 0 then (if m = 0 then FNaN else FInf (s \<noteq> t))
      else let k = fbits f + 3 + bitlen n; q = (m * 2 ^ k) div n; r = (m * 2 ^ k) mod n
           in FFin (s \<noteq> t) (2 * q + (if r = 0 then 0 else 1)) (e - d - int k - 1))"

fun fp_eq :: "fp \<Rightarrow> fp \<Rightarrow> bool" where
  "fp_eq (FInf s) (FInf t) = (s = t)"
| "fp_eq (FFin s m e) (FFin t n d) =
     (let k = min e d in signed_mag s m * 2 ^ nat (e - k) = signed_mag t n * 2 ^ nat (d - k))"
| "fp_eq x y = False"

definition fp_of_int :: "int \<Rightarrow> fp" where
  "fp_of_int i = FFin (i < 0) (nat \<bar>i\<bar>) 0"

text \<open>Truncation towards zero; \<open>None\<close> for NaN and the infinities.\<close>

fun fp_trunc :: "fp \<Rightarrow> int option" where
  "fp_trunc (FFin s m e) =
     Some (signed_mag s (if 0 \<le> e then m * 2 ^ nat e else m div 2 ^ nat (- e)))"
| "fp_trunc x = None"

section \<open>The Go operations on bit patterns\<close>

definition f64_dec :: "u64 \<Rightarrow> fp" where
  "f64_dec w = fp_decode f64 (unat w)"

definition f64_enc :: "fp \<Rightarrow> u64" where
  "f64_enc x = word_of_nat (fp_encode f64 x)"

definition f32_dec :: "u32 \<Rightarrow> fp" where
  "f32_dec w = fp_decode f32 (unat w)"

definition f32_enc :: "fp \<Rightarrow> u32" where
  "f32_enc x = word_of_nat (fp_encode f32 x)"

definition f64_mul :: "u64 \<Rightarrow> u64 \<Rightarrow> u64" where
  "f64_mul a b = f64_enc (fp_mul (f64_dec a) (f64_dec b))"

definition f64_add :: "u64 \<Rightarrow> u64 \<Rightarrow> u64" where
  "f64_add a b = f64_enc (fp_add (f64_dec a) (f64_dec b))"

definition f64_sub :: "u64 \<Rightarrow> u64 \<Rightarrow> u64" where
  "f64_sub a b = f64_enc (fp_add (f64_dec a) (fp_neg (f64_dec b)))"

definition f64_div :: "u64 \<Rightarrow> u64 \<Rightarrow> u64" where
  "f64_div a b = f64_enc (fp_div f64 (f64_dec a) (f64_dec b))"

definition f64_eq :: "u64 \<Rightarrow> u64 \<Rightarrow> bool" where
  "f64_eq a b = fp_eq (f64_dec a) (f64_dec b)"

definition f64_of_int :: "int \<Rightarrow> u64" where
  "f64_of_int i = f64_enc (fp_of_int i)"

definition f64_of_f32 :: "u32 \<Rightarrow> u64" where
  "f64_of_f32 w = f64_enc (f32_dec w)"

definition f32_of_f64 :: "u64 \<Rightarrow> u32" where
  "f32_of_f64 w = f32_enc (f64_dec w)"

abbreviation f64_one :: u64 where "f64_one \<equiv> 0x3FF0000000000000"
abbreviation f64_zero :: u64 where "f64_zero \<equiv> 0"

section \<open>Bit lengths\<close>

lemma bitlen_0 [simp]: "bitlen 0 = 0"
  by (simp add: bitlen.simps)

lemma bitlen_numeral:
  "bitlen (numeral Num.One) = 1" "bitlen (Suc 0) = 1"
  "bitlen (numeral (Num.Bit0 n)) = Suc (bitlen (numeral n))"
  "bitlen (numeral (Num.Bit1 n)) = Suc (bitlen (numeral n))"
  by (subst bitlen.simps; simp)+

lemma bitlen_eq_0 [simp]: "bitlen n = 0 \<longleftrightarrow> n = 0"
  by (subst bitlen.simps) simp

lemma bitlen_upper: "n < 2 ^ bitlen n"
proof (induction n rule: bitlen.induct)
  case (1 n)
  then show ?case by (cases "n = 0") (auto simp: bitlen.simps [of n])
qed

lemma bitlen_lower: "0 < n \<Longrightarrow> 2 ^ bitlen n \<le> 2 * n"
proof (induction n rule: bitlen.induct)
  case (1 n)
  then show ?case
    by (cases "n div 2 = 0") (auto simp: bitlen.simps [of n])
qed

lemma bitlen_le: "n < 2 ^ k \<Longrightarrow> bitlen n \<le> k"
proof (cases "n = 0")
  case False
  assume "n < 2 ^ k"
  with False have "(2::nat) ^ bitlen n < 2 ^ Suc k"
    using bitlen_lower [of n] by simp
  then have "bitlen n < Suc k" by (rule power_less_imp_less_exp [rotated]) simp
  then show ?thesis by simp
qed simp

lemma bitlen_ge: "2 ^ k \<le> n \<Longrightarrow> Suc k \<le> bitlen n"
proof -
  assume "2 ^ k \<le> n"
  then have "(2::nat) ^ k < 2 ^ bitlen n" using bitlen_upper [of n] by linarith
  then show ?thesis by simp
qed

lemma bitlen_mult_pow2: "0 < m \<Longrightarrow> bitlen (m * 2 ^ k) = bitlen m + k"
proof (induction k)
  case (Suc k)
  then show ?case by (subst bitlen.simps) (simp add: mult.assoc mult.left_commute)
qed simp

section \<open>Canonical numbers\<close>

definition fmt_ok :: "fp_format \<Rightarrow> bool" where
  "fmt_ok f \<longleftrightarrow> 2 \<le> ebits f \<and> 1 \<le> fbits f"

lemma fmt_ok_f64 [simp]: "fmt_ok f64" and fmt_ok_f32 [simp]: "fmt_ok f32"
  by (simp_all add: fmt_ok_def f64_def f32_def)

text \<open>The finite numbers of a format, each with its one significand and exponent.\<close>

definition canonical :: "fp_format \<Rightarrow> nat \<Rightarrow> int \<Rightarrow> bool" where
  "canonical f m t \<longleftrightarrow> m < 2 ^ (fbits f + 1) \<and> emin f \<le> t \<and> (2 ^ fbits f \<le> m \<or> t = emin f)
     \<and> t - emin f + 1 < 2 ^ ebits f - 1"

definition mag_of :: "fp_format \<Rightarrow> nat \<Rightarrow> int \<Rightarrow> nat" where
  "mag_of f m t = nat (t - emin f) * 2 ^ fbits f + m"

text \<open>The decoding, over the two fields of the magnitude.\<close>

definition decode_fields :: "fp_format \<Rightarrow> bool \<Rightarrow> nat \<Rightarrow> nat \<Rightarrow> fp" where
  "decode_fields f s e m =
     (if 2 ^ ebits f - 1 \<le> e then (if m = 0 then FInf s else FNaN)
      else if e = 0 then FFin s m (emin f)
      else FFin s (2 ^ fbits f + m) (emin f + int e - 1))"

lemma decode_mag_fields:
  "r < 2 ^ fbits f \<Longrightarrow> decode_mag f s (e * 2 ^ fbits f + r) = decode_fields f s e r"
  by (simp add: decode_mag_def decode_fields_def Let_def)

lemma fields_exist:
  fixes n :: nat
  obtains e r where "n = e * 2 ^ fbits f + r" "r < 2 ^ fbits f"
  by (metis div_mult_mod_eq mod_less_divisor pow2_pos)

lemma exp_range_int: "\<not> 2 ^ b - 1 \<le> (e::nat) \<longleftrightarrow> int e < 2 ^ b - 1"
proof -
  have "int (2 ^ b - 1) = 2 ^ b - 1" by (simp add: of_nat_diff)
  then show ?thesis by (metis linorder_not_le of_nat_less_iff)
qed

lemma exp_range_ok: "fmt_ok f \<Longrightarrow> (1::int) < 2 ^ ebits f - 1"
proof -
  assume "fmt_ok f"
  then have "(2::int) ^ 2 \<le> 2 ^ ebits f" by (intro power_increasing) (auto simp: fmt_ok_def)
  then show ?thesis by simp
qed

lemma decode_mag_of:
  assumes ok: "fmt_ok f" and c: "canonical f m t"
  shows "decode_mag f s (mag_of f m t) = FFin s m t"
proof (cases "2 ^ fbits f \<le> m")
  case True
  define k where "k = nat (t - emin f)"
  define r where "r = m - 2 ^ fbits f"
  from c True have m: "m = 2 ^ fbits f + r" and r: "r < 2 ^ fbits f"
    by (auto simp: canonical_def r_def)
  have M: "mag_of f m t = (k + 1) * 2 ^ fbits f + r"
    by (simp add: mag_of_def m k_def)
  have t: "t = emin f + int k" using c by (simp add: k_def canonical_def)
  have "\<not> 2 ^ ebits f - 1 \<le> k + 1"
    unfolding exp_range_int using c by (simp add: canonical_def t)
  then show ?thesis
    unfolding M decode_mag_fields [OF r] by (simp add: decode_fields_def m t)
next
  case False
  with c have t: "t = emin f" by (simp add: canonical_def)
  have M: "mag_of f m t = 0 * 2 ^ fbits f + m" by (simp add: mag_of_def t)
  have r: "m < 2 ^ fbits f" using False by simp
  have "\<not> 2 ^ ebits f - 1 \<le> (0::nat)"
    unfolding exp_range_int using exp_range_ok [OF ok] by simp
  then show ?thesis
    unfolding M decode_mag_fields [OF r] by (simp add: decode_fields_def t)
qed

lemma decode_mag_canonical:
  assumes ok: "fmt_ok f" and d: "decode_mag f s n = FFin s' m t"
  shows "s' = s \<and> canonical f m t \<and> mag_of f m t = n"
proof -
  obtain e r where n: "n = e * 2 ^ fbits f + r" and r: "r < 2 ^ fbits f" by (rule fields_exist)
  have d: "decode_fields f s e r = FFin s' m t" using d unfolding n decode_mag_fields [OF r] .
  then have e: "int e < 2 ^ ebits f - 1"
    by (auto simp: decode_fields_def simp flip: exp_range_int split: if_splits)
  show ?thesis
  proof (cases "e = 0")
    case True
    then show ?thesis
      using d e r n exp_range_ok [OF ok]
      by (auto simp: decode_fields_def canonical_def mag_of_def split: if_splits)
  next
    case False
    then obtain k where k: "e = Suc k" by (cases e) auto
    from d e have "s' = s" "m = 2 ^ fbits f + r" "t = emin f + int k"
      by (auto simp: decode_fields_def k split: if_splits)
    then show ?thesis using e r n by (simp add: canonical_def mag_of_def k)
  qed
qed

section \<open>Exact rounding\<close>

lemma rshift_rne_exact [simp]: "rshift_rne (a * 2 ^ k) k = a"
  by (simp add: rshift_rne_def)

text \<open>Rounding a number the format holds gives that number, however it is written.\<close>

lemma mag_of_less_inf:
  assumes "canonical f m t" shows "mag_of f m t < inf_mag f"
proof -
  define k where "k = nat (t - emin f)"
  have k: "int k + 1 < 2 ^ ebits f - 1" using assms by (simp add: canonical_def k_def)
  have "int (k + 2) \<le> int (2 ^ ebits f - 1)" using k by (simp add: of_nat_diff)
  then have k2: "k + 2 \<le> 2 ^ ebits f - 1" by (simp only: of_nat_le_iff)
  have "mag_of f m t < k * 2 ^ fbits f + 2 * 2 ^ fbits f"
    using assms by (simp add: mag_of_def k_def canonical_def)
  also have "\<dots> = (k + 2) * 2 ^ fbits f" by (simp add: algebra_simps)
  also have "\<dots> \<le> inf_mag f" unfolding inf_mag_def using k2 by (rule mult_right_mono) simp
  finally show ?thesis .
qed

lemma last_place_canonical:
  assumes "canonical f m t" "0 < m"
  shows "last_place f m t = t"
proof (cases "2 ^ fbits f \<le> m")
  case True
  then have "bitlen m = fbits f + 1"
    using assms bitlen_ge [OF True] bitlen_le [of m "fbits f + 1"] by (simp add: canonical_def)
  then show ?thesis using assms by (simp add: last_place_def canonical_def)
next
  case False
  then have "bitlen m \<le> fbits f" by (intro bitlen_le) simp
  then show ?thesis using False assms by (simp add: last_place_def canonical_def)
qed

lemma last_place_scale:
  "0 < m \<Longrightarrow> last_place f (m * 2 ^ k) (e - int k) = last_place f m e"
  by (simp add: last_place_def bitlen_mult_pow2)

lemma fp_round_scaled:
  assumes c: "canonical f m t"
  shows "fp_round f (m * 2 ^ k) (t - int k) = mag_of f m t"
proof (cases "m = 0")
  case True
  then have "t = emin f" using c by (auto simp: canonical_def)
  then show ?thesis using True by (simp add: fp_round_def mag_of_def)
next
  case False
  then have lp: "last_place f (m * 2 ^ k) (t - int k) = t"
    using c by (simp add: last_place_scale last_place_canonical)
  have q: "(if t \<le> t - int k then m * 2 ^ k * 2 ^ nat (t - int k - t)
            else rshift_rne (m * 2 ^ k) (nat (t - (t - int k)))) = m"
    by auto
  show ?thesis
    using mag_of_less_inf [OF c] False unfolding fp_round_def lp Let_def q by (simp add: mag_of_def)
qed

lemma fp_round_canonical: "canonical f m t \<Longrightarrow> fp_round f m t = mag_of f m t"
  using fp_round_scaled [of f m t 0] by simp

lemma decode_encode_FFin:
  assumes "fmt_ok f" and "canonical f m t" and "fp_round f n e = mag_of f m t"
  shows "fp_decode f (fp_encode f (FFin s n e)) = FFin s m t"
proof -
  have "inf_mag f \<le> sign_unit f"
    by (simp add: inf_mag_def sign_unit_def power_add)
  then have "mag_of f m t < sign_unit f" using mag_of_less_inf [OF assms(2)] by simp
  then show ?thesis
    using assms by (simp add: fp_decode_def fp_encode_def decode_mag_of)
qed

text \<open>An integer below \<open>2 ^ (fbits + 1)\<close> is a number of the format.\<close>

lemma canonical_normalise:
  assumes "0 < m" "m < 2 ^ (fbits f + 1)" "emin f \<le> e" "e - emin f + 1 < 2 ^ ebits f - 1"
  shows "canonical f (m * 2 ^ nat (e - last_place f m e)) (last_place f m e)"
    and "last_place f m e \<le> e"
proof -
  have b: "bitlen m \<le> fbits f + 1" using assms(2) by (rule bitlen_le)
  let ?t = "last_place f m e"
  show le: "?t \<le> e" using b assms(3) by (simp add: last_place_def)
  have ge: "e + int (bitlen m) - int (fbits f) - 1 \<le> ?t" "emin f \<le> ?t"
    by (simp_all add: last_place_def)
  have bl: "bitlen (m * 2 ^ nat (e - ?t)) = bitlen m + nat (e - ?t)"
    using assms(1) by (rule bitlen_mult_pow2)
  have "bitlen m + nat (e - ?t) \<le> fbits f + 1" using ge le by linarith
  then have "m * 2 ^ nat (e - ?t) < 2 ^ (fbits f + 1)"
    using bitlen_upper [of "m * 2 ^ nat (e - ?t)"] unfolding bl
    by (meson one_less_numeral_iff order_less_le_trans power_increasing semiring_norm(76) less_imp_le one_le_numeral)
  moreover have "2 ^ fbits f \<le> m * 2 ^ nat (e - ?t) \<or> ?t = emin f"
  proof (cases "?t = emin f")
    case False
    then have "?t = e + int (bitlen m) - int (fbits f) - 1"
      by (simp add: last_place_def max_def split: if_splits)
    then have "bitlen m + nat (e - ?t) = Suc (fbits f)" using le by linarith
    then have "2 * 2 ^ fbits f \<le> 2 * (m * 2 ^ nat (e - ?t))"
      using bitlen_lower [of "m * 2 ^ nat (e - ?t)"] assms(1) unfolding bl by simp
    then show ?thesis by simp
  qed simp
  ultimately show "canonical f (m * 2 ^ nat (e - ?t)) ?t"
    using ge le assms(4) by (auto simp: canonical_def)
qed

lemma fp_round_normalise:
  assumes "0 < m" "m < 2 ^ (fbits f + 1)" "emin f \<le> e" "e - emin f + 1 < 2 ^ ebits f - 1"
  shows "fp_round f m e = mag_of f (m * 2 ^ nat (e - last_place f m e)) (last_place f m e)"
  using mag_of_less_inf [OF canonical_normalise(1) [OF assms]] canonical_normalise(2) [OF assms] assms(1)
  by (simp add: fp_round_def mag_of_def Let_def)


section \<open>Integers and the two formats\<close>

lemmas float_consts = f64_def f32_def emin_def inf_mag_def sign_unit_def

lemma encode_decode:
  assumes ok: "fmt_ok f" and n: "n < 2 * sign_unit f" and nan: "fp_decode f n \<noteq> FNaN"
  shows "fp_encode f (fp_decode f n) = n"
proof -
  let ?s = "sign_unit f \<le> n" and ?g = "n mod sign_unit f"
  have split: "n = (if ?s then sign_unit f else 0) + ?g"
    using n by (cases ?s) (auto simp: mod_if)
  obtain e r where g: "?g = e * 2 ^ fbits f + r" and r: "r < 2 ^ fbits f" by (rule fields_exist)
  show ?thesis
  proof (cases "fp_decode f n")
    case (FFin s m t)
    then have "s = ?s" "canonical f m t" "mag_of f m t = ?g"
      using decode_mag_canonical [OF ok, of ?s ?g s m t] by (auto simp: fp_decode_def)
    then show ?thesis using split FFin by (simp add: fp_encode_def fp_round_canonical)
  next
    case (FInf s)
    then have "decode_fields f ?s e r = FInf s"
      by (simp add: fp_decode_def g decode_mag_fields [OF r])
    then have s: "s = ?s" and r0: "r = 0" and e: "2 ^ ebits f - 1 \<le> e"
      by (auto simp: decode_fields_def split: if_splits)
    have "e * 2 ^ fbits f < 2 ^ ebits f * 2 ^ fbits f"
      using r0 g by (metis add.right_neutral mod_less_divisor pow2_pos power_add sign_unit_def)
    then have "e = 2 ^ ebits f - 1" using e by simp
    then have "?g = inf_mag f" using g r0 by (simp add: inf_mag_def)
    then show ?thesis using split s FInf by (simp add: fp_encode_def)
  qed (use nan in simp)
qed

lemma f64_enc_dec: "f64_dec w \<noteq> FNaN \<Longrightarrow> f64_enc (f64_dec w) = w"
proof -
  assume "f64_dec w \<noteq> FNaN"
  moreover have "unat w < 2 * sign_unit f64"
    proof -
    have "unat w < 2 ^ LENGTH(64)" by (rule unsigned_less)
    then show ?thesis by (simp add: float_consts)
  qed
  ultimately show ?thesis by (simp add: f64_dec_def f64_enc_def encode_decode)
qed

lemma f32_enc_dec: "f32_dec w \<noteq> FNaN \<Longrightarrow> f32_enc (f32_dec w) = w"
proof -
  assume "f32_dec w \<noteq> FNaN"
  moreover have "unat w < 2 * sign_unit f32"
    proof -
    have "unat w < 2 ^ LENGTH(32)" by (rule unsigned_less)
    then show ?thesis by (simp add: float_consts)
  qed
  ultimately show ?thesis by (simp add: f32_dec_def f32_enc_def encode_decode)
qed

lemma encode_bound: "fp_round f m e \<le> inf_mag f"
  by (simp add: fp_round_def Let_def)

lemma f64_dec_enc_FFin:
  assumes "canonical f64 m t" and "fp_round f64 n e = mag_of f64 m t"
  shows "f64_dec (f64_enc (FFin s n e)) = FFin s m t"
proof -
  have "fp_encode f64 (FFin s n e) < 2 ^ 64"
    using encode_bound [of f64 n e] by (simp add: fp_encode_def float_consts)
  then have "unat (f64_enc (FFin s n e)) = fp_encode f64 (FFin s n e)"
    by (simp add: f64_enc_def unat_of_nat)
  then show ?thesis using assms by (simp add: f64_dec_def decode_encode_FFin)
qed

text \<open>Every integer below \<open>2^53\<close> in magnitude survives \<open>float64(i)\<close> and back.\<close>

lemma f64_of_int_exact:
  assumes "\<bar>i\<bar> < 2 ^ 53"
  shows "fp_trunc (f64_dec (f64_of_int i)) = Some i"
proof (cases "i = 0")
  case True
  have "canonical f64 0 (emin f64)" by (simp add: canonical_def float_consts)
  moreover have "fp_round f64 0 0 = mag_of f64 0 (emin f64)"
    by (simp add: fp_round_def mag_of_def)
  ultimately have "f64_dec (f64_of_int i) = FFin False 0 (emin f64)"
    using True by (simp add: f64_of_int_def fp_of_int_def f64_dec_enc_FFin)
  then show ?thesis using True by (simp add: signed_mag_def)
next
  case False
  let ?m = "nat \<bar>i\<bar>" and ?t = "last_place f64 (nat \<bar>i\<bar>) 0"
  have m: "0 < ?m" "?m < 2 ^ (fbits f64 + 1)"
    using False assms by (auto simp: f64_def nat_less_iff)
  have e: "emin f64 \<le> 0" "0 - emin f64 + 1 < 2 ^ ebits f64 - 1" by (simp_all add: float_consts)
  have "f64_dec (f64_of_int i) = FFin (i < 0) (?m * 2 ^ nat (0 - ?t)) ?t"
    unfolding f64_of_int_def fp_of_int_def
    by (rule f64_dec_enc_FFin [OF canonical_normalise(1) [OF m e] fp_round_normalise [OF m e]])
  moreover have "?t \<le> 0" by (rule canonical_normalise(2) [OF m e])
  ultimately show ?thesis by (cases "?t = 0") (auto simp: signed_mag_def)
qed

text \<open>Scaling by \<open>1.0\<close> returns the operand, for every operand that is not NaN.\<close>

lemma f64_dec_one: "f64_dec f64_one = FFin False (2 ^ 52) (-52)"
  by (simp add: f64_dec_def fp_decode_def decode_mag_def float_consts)

lemma f64_dec_canonical:
  assumes "f64_dec w = FFin s m t" shows "canonical f64 m t"
  using assms decode_mag_canonical [OF fmt_ok_f64] by (auto simp: f64_dec_def fp_decode_def)

lemma f32_dec_canonical:
  assumes "f32_dec w = FFin s m t" shows "canonical f32 m t"
  using assms decode_mag_canonical [OF fmt_ok_f32] by (auto simp: f32_dec_def fp_decode_def)

lemma f64_mul_one:
  assumes "f64_dec w \<noteq> FNaN" shows "f64_mul w f64_one = w"
proof (cases "f64_dec w")
  case (FFin s m t)
  have "fp_round f64 (m * 2 ^ 52) (t - int 52) = fp_round f64 m t"
    using f64_dec_canonical [OF FFin] by (simp only: fp_round_scaled fp_round_canonical)
  then have "f64_mul w f64_one = f64_enc (FFin s m t)"
    by (simp add: f64_mul_def FFin f64_dec_one f64_enc_def fp_encode_def)
  then show ?thesis using f64_enc_dec [OF assms] FFin by simp
next
  case (FInf s)
  then show ?thesis using f64_enc_dec [OF assms] by (simp add: f64_mul_def f64_dec_one)
qed (use assms in simp)

text \<open>A \<open>float32\<close> widened to \<open>float64\<close> and narrowed again is unchanged.\<close>

lemma f64_dec_enc_FInf: "f64_dec (f64_enc (FInf s)) = FInf s"
  by (cases s) (simp_all add: f64_dec_def f64_enc_def fp_encode_def fp_decode_def decode_mag_def float_consts)

lemma f32_widen_narrow:
  assumes "f32_dec w \<noteq> FNaN" shows "f32_of_f64 (f64_of_f32 w) = w"
proof (cases "f32_dec w")
  case (FFin s m t)
  have c: "canonical f32 m t" by (rule f32_dec_canonical [OF FFin])
  show ?thesis
  proof (cases "m = 0")
    case True
    have "f64_dec (f64_enc (FFin s 0 t)) = FFin s 0 (emin f64)"
      by (rule f64_dec_enc_FFin) (simp_all add: canonical_def fp_round_def mag_of_def float_consts)
    then have "f32_of_f64 (f64_of_f32 w) = f32_enc (FFin s 0 (emin f64))"
      by (simp add: f32_of_f64_def f64_of_f32_def FFin True)
    also have "\<dots> = f32_enc (FFin s m t)" by (simp add: f32_enc_def fp_encode_def fp_round_def True)
    finally show ?thesis using f32_enc_dec [OF assms] FFin by simp
  next
    case False
    let ?t = "last_place f64 m t"
    have m: "0 < m" "m < 2 ^ (fbits f64 + 1)" "emin f64 \<le> t" "t - emin f64 + 1 < 2 ^ ebits f64 - 1"
      using False c by (auto simp: canonical_def float_consts)
    have d: "f64_dec (f64_enc (FFin s m t)) = FFin s (m * 2 ^ nat (t - ?t)) ?t"
      by (rule f64_dec_enc_FFin [OF canonical_normalise(1) [OF m] fp_round_normalise [OF m]])
    have "?t = t - int (nat (t - ?t))" using canonical_normalise(2) [OF m] by simp
    then have "fp_round f32 (m * 2 ^ nat (t - ?t)) ?t = mag_of f32 m t"
      using fp_round_scaled [OF c, of "nat (t - ?t)"] by simp
    then have "f32_of_f64 (f64_of_f32 w) = f32_enc (FFin s m t)"
      by (simp add: f32_of_f64_def f64_of_f32_def FFin d f32_enc_def fp_encode_def
          fp_round_canonical [OF c])
    then show ?thesis using f32_enc_dec [OF assms] FFin by simp
  qed
next
  case (FInf s)
  then show ?thesis
    using f32_enc_dec [OF assms] by (simp add: f32_of_f64_def f64_of_f32_def f64_dec_enc_FInf)
qed (use assms in simp)

lemmas float_eval = float_consts decode_mag_def fp_decode_def bitlen_numeral rshift_rne_def
  last_place_def fp_round_def fp_encode_def signed_mag_def fp_of_int_def f64_dec_def f64_enc_def
  f32_dec_def f32_enc_def f64_mul_def f64_add_def f64_sub_def f64_div_def f64_eq_def f64_of_int_def
  f64_of_f32_def f32_of_f64_def

end
