(* ===== verification/Go_Error.thy ===== *)
theory Go_Error
  imports Prelude
begin

text \<open>
  Errors: the sentinels of \<open>internal/domain/errors.go\<close> with their texts, the wrapping that
  \<open>fmt.Errorf\<close> does, and the library errors the adapters tell apart.  The text of an error is
  modelled because the adapters classify errors by it.
\<close>

section \<open>Sentinel errors\<close>

datatype device_error =
    DeviceIDRequired
  | DeviceNameRequired
  | ProtocolRequired
  | NoTagsDefined
  | PollIntervalTooShort
  | UNSPrefixRequired

fun device_error_text :: "device_error \<Rightarrow> string" where
  "device_error_text DeviceIDRequired = ''device ID is required''"
| "device_error_text DeviceNameRequired = ''device name is required''"
| "device_error_text ProtocolRequired = ''protocol is required''"
| "device_error_text NoTagsDefined = ''at least one tag must be defined''"
| "device_error_text PollIntervalTooShort = ''poll interval must be at least 100ms''"
| "device_error_text UNSPrefixRequired = ''UNS prefix is required''"

datatype connection_error =
    ConnectionFailed
  | ConnectionTimeout
  | ConnectionClosed
  | ConnectionReset
  | MaxRetriesExceeded
  | CircuitBreakerOpen
  | PoolExhausted
  | InvalidSlaveID

fun connection_error_text :: "connection_error \<Rightarrow> string" where
  "connection_error_text ConnectionFailed = ''connection failed''"
| "connection_error_text ConnectionTimeout = ''connection timeout''"
| "connection_error_text ConnectionClosed = ''connection closed''"
| "connection_error_text ConnectionReset = ''connection reset by peer''"
| "connection_error_text MaxRetriesExceeded = ''maximum retry attempts exceeded''"
| "connection_error_text CircuitBreakerOpen = ''circuit breaker is open''"
| "connection_error_text PoolExhausted = ''connection pool exhausted''"
| "connection_error_text InvalidSlaveID = ''invalid slave ID''"

datatype rw_error =
    ReadFailed
  | WriteFailed
  | InvalidAddress
  | InvalidDataLength
  | InvalidDataType
  | InvalidRegisterType

fun rw_error_text :: "rw_error \<Rightarrow> string" where
  "rw_error_text ReadFailed = ''read operation failed''"
| "rw_error_text WriteFailed = ''write operation failed''"
| "rw_error_text InvalidAddress = ''invalid register address''"
| "rw_error_text InvalidDataLength = ''invalid data length''"
| "rw_error_text InvalidDataType = ''invalid data type''"
| "rw_error_text InvalidRegisterType = ''invalid register type''"

datatype modbus_error =
    ModbusIllegalFunction
  | ModbusIllegalAddress
  | ModbusIllegalValue
  | ModbusDeviceFailure
  | ModbusAcknowledge
  | ModbusBusy
  | ModbusNegativeAck
  | ModbusMemoryParityError
  | ModbusGatewayPathUnavailable
  | ModbusGatewayTargetFailed
  | ModbusProtocolLimit
  | InvalidRegisterCount

fun modbus_error_text :: "modbus_error \<Rightarrow> string" where
  "modbus_error_text ModbusIllegalFunction = ''modbus: illegal function''"
| "modbus_error_text ModbusIllegalAddress = ''modbus: illegal data address''"
| "modbus_error_text ModbusIllegalValue = ''modbus: illegal data value''"
| "modbus_error_text ModbusDeviceFailure = ''modbus: slave device failure''"
| "modbus_error_text ModbusAcknowledge = ''modbus: acknowledge - long operation in progress''"
| "modbus_error_text ModbusBusy = ''modbus: slave device busy''"
| "modbus_error_text ModbusNegativeAck = ''modbus: negative acknowledge''"
| "modbus_error_text ModbusMemoryParityError = ''modbus: memory parity error''"
| "modbus_error_text ModbusGatewayPathUnavailable = ''modbus: gateway path unavailable''"
| "modbus_error_text ModbusGatewayTargetFailed = ''modbus: gateway target device failed to respond''"
| "modbus_error_text ModbusProtocolLimit = ''modbus: protocol limit exceeded''"
| "modbus_error_text InvalidRegisterCount = ''modbus: invalid register count''"

datatype mqtt_error =
    MQTTConnectionFailed
  | MQTTPublishFailed
  | MQTTNotConnected
  | MQTTSubscribeFailed

fun mqtt_error_text :: "mqtt_error \<Rightarrow> string" where
  "mqtt_error_text MQTTConnectionFailed = ''MQTT connection failed''"
| "mqtt_error_text MQTTPublishFailed = ''MQTT publish failed''"
| "mqtt_error_text MQTTNotConnected = ''MQTT client not connected''"
| "mqtt_error_text MQTTSubscribeFailed = ''MQTT subscribe failed''"

datatype opcua_error =
    OPCUAInvalidNodeID
  | OPCUASubscriptionFailed
  | OPCUABadStatus
  | OPCUASecurityFailed
  | OPCUASessionExpired
  | OPCUABrowseFailed
  | OPCUANodeNotFound
  | OPCUAAccessDenied
  | OPCUAWriteNotPermitted

fun opcua_error_text :: "opcua_error \<Rightarrow> string" where
  "opcua_error_text OPCUAInvalidNodeID = ''opcua: invalid node ID''"
| "opcua_error_text OPCUASubscriptionFailed = ''opcua: subscription failed''"
| "opcua_error_text OPCUABadStatus = ''opcua: bad status code''"
| "opcua_error_text OPCUASecurityFailed = ''opcua: security negotiation failed''"
| "opcua_error_text OPCUASessionExpired = ''opcua: session expired''"
| "opcua_error_text OPCUABrowseFailed = ''opcua: browse failed''"
| "opcua_error_text OPCUANodeNotFound = ''opcua: node not found''"
| "opcua_error_text OPCUAAccessDenied = ''opcua: access denied''"
| "opcua_error_text OPCUAWriteNotPermitted = ''opcua: write not permitted''"

datatype s7_error =
    S7ConnectionFailed
  | S7InvalidAddress
  | S7InvalidDBNumber
  | S7InvalidArea
  | S7InvalidOffset
  | S7ReadFailed
  | S7WriteFailed
  | S7CPUError
  | S7PDUSizeMismatch
  | S7ItemNotAvailable
  | S7AddressOutOfRange
  | S7WriteDataSizeMismatch
  | S7ObjectNotExist
  | S7HardwareFault
  | S7AccessingNotAllowed

fun s7_error_text :: "s7_error \<Rightarrow> string" where
  "s7_error_text S7ConnectionFailed = ''s7: connection failed''"
| "s7_error_text S7InvalidAddress = ''s7: invalid address format''"
| "s7_error_text S7InvalidDBNumber = ''s7: invalid data block number''"
| "s7_error_text S7InvalidArea = ''s7: invalid memory area''"
| "s7_error_text S7InvalidOffset = ''s7: invalid offset''"
| "s7_error_text S7ReadFailed = ''s7: read operation failed''"
| "s7_error_text S7WriteFailed = ''s7: write operation failed''"
| "s7_error_text S7CPUError = ''s7: CPU error''"
| "s7_error_text S7PDUSizeMismatch = ''s7: PDU size mismatch''"
| "s7_error_text S7ItemNotAvailable = ''s7: item not available''"
| "s7_error_text S7AddressOutOfRange = ''s7: address out of range''"
| "s7_error_text S7WriteDataSizeMismatch = ''s7: write data size mismatch''"
| "s7_error_text S7ObjectNotExist = ''s7: object does not exist''"
| "s7_error_text S7HardwareFault = ''s7: hardware fault''"
| "s7_error_text S7AccessingNotAllowed = ''s7: accessing not allowed''"

datatype write_error =
    TagNotWritable
  | InvalidWriteValue
  | WriteTimeout

fun write_error_text :: "write_error \<Rightarrow> string" where
  "write_error_text TagNotWritable = ''tag is not writable''"
| "write_error_text InvalidWriteValue = ''invalid value for write operation''"
| "write_error_text WriteTimeout = ''write operation timed out''"

datatype service_error =
    ServiceNotStarted
  | ServiceStopped
  | ServiceOverloaded
  | DeviceNotFound
  | DeviceExists
  | TagNotFound
  | InvalidConfig
  | ProtocolNotSupported

fun service_error_text :: "service_error \<Rightarrow> string" where
  "service_error_text ServiceNotStarted = ''service not started''"
| "service_error_text ServiceStopped = ''service has been stopped''"
| "service_error_text ServiceOverloaded = ''service overloaded - brownout mode active''"
| "service_error_text DeviceNotFound = ''device not found''"
| "service_error_text DeviceExists = ''device already exists''"
| "service_error_text TagNotFound = ''tag not found''"
| "service_error_text InvalidConfig = ''invalid configuration''"
| "service_error_text ProtocolNotSupported = ''protocol not supported''"

text \<open>One constructor for each \<open>var\<close> block of the file.\<close>

datatype sentinel =
    DeviceErr device_error
  | ConnectionErr connection_error
  | RwErr rw_error
  | ModbusErr modbus_error
  | MqttErr mqtt_error
  | OpcuaErr opcua_error
  | S7Err s7_error
  | WriteErr write_error
  | ServiceErr service_error

fun sentinel_text :: "sentinel \<Rightarrow> string" where
  "sentinel_text (DeviceErr e) = device_error_text e"
| "sentinel_text (ConnectionErr e) = connection_error_text e"
| "sentinel_text (RwErr e) = rw_error_text e"
| "sentinel_text (ModbusErr e) = modbus_error_text e"
| "sentinel_text (MqttErr e) = mqtt_error_text e"
| "sentinel_text (OpcuaErr e) = opcua_error_text e"
| "sentinel_text (S7Err e) = s7_error_text e"
| "sentinel_text (WriteErr e) = write_error_text e"
| "sentinel_text (ServiceErr e) = service_error_text e"

section \<open>Error values\<close>

text \<open>
  \<open>Wrap e s\<close> is \<open>fmt.Errorf("%w...", e, ...)\<close>: it unwraps to \<open>e\<close> and its text is the text of
  \<open>e\<close> followed by \<open>s\<close>; \<open>WrapPre s e\<close> has the text before the wrapped error.  \<open>Plain s\<close> is
  an error that wraps nothing.  \<open>NetErr b s\<close> is a value of a type that implements \<open>net.Error\<close>,
  with \<open>b\<close> its \<open>Timeout()\<close>.  The two errors of the circuit breaker package are compared by
  identity.
\<close>

datatype err =
    Sentinel sentinel
  | Wrap err string
  | WrapPre string err
  | Plain string
  | NetErr bool string
  | IoEOF
  | IoUnexpectedEOF
  | CtxCanceled
  | CtxDeadlineExceeded
  | BreakerOpenState
  | BreakerTooManyRequests

type_synonym 'a res = "(err, 'a) outcome"

fun err_text :: "err \<Rightarrow> string" where
  "err_text (Sentinel s) = sentinel_text s"
| "err_text (Wrap e s) = err_text e @ s"
| "err_text (WrapPre s e) = s @ err_text e"
| "err_text (Plain s) = s"
| "err_text (NetErr b s) = s"
| "err_text IoEOF = ''EOF''"
| "err_text IoUnexpectedEOF = ''unexpected EOF''"
| "err_text CtxCanceled = ''context canceled''"
| "err_text CtxDeadlineExceeded = ''context deadline exceeded''"
| "err_text BreakerOpenState = ''circuit breaker is open''"
| "err_text BreakerTooManyRequests = ''too many requests''"

text \<open>The sentinels under their names in the source.\<close>

abbreviation ErrDeviceIDRequired :: err where "ErrDeviceIDRequired \<equiv> Sentinel (DeviceErr DeviceIDRequired)"
abbreviation ErrDeviceNameRequired :: err where "ErrDeviceNameRequired \<equiv> Sentinel (DeviceErr DeviceNameRequired)"
abbreviation ErrProtocolRequired :: err where "ErrProtocolRequired \<equiv> Sentinel (DeviceErr ProtocolRequired)"
abbreviation ErrNoTagsDefined :: err where "ErrNoTagsDefined \<equiv> Sentinel (DeviceErr NoTagsDefined)"
abbreviation ErrPollIntervalTooShort :: err where "ErrPollIntervalTooShort \<equiv> Sentinel (DeviceErr PollIntervalTooShort)"
abbreviation ErrUNSPrefixRequired :: err where "ErrUNSPrefixRequired \<equiv> Sentinel (DeviceErr UNSPrefixRequired)"
abbreviation ErrConnectionFailed :: err where "ErrConnectionFailed \<equiv> Sentinel (ConnectionErr ConnectionFailed)"
abbreviation ErrConnectionTimeout :: err where "ErrConnectionTimeout \<equiv> Sentinel (ConnectionErr ConnectionTimeout)"
abbreviation ErrConnectionClosed :: err where "ErrConnectionClosed \<equiv> Sentinel (ConnectionErr ConnectionClosed)"
abbreviation ErrConnectionReset :: err where "ErrConnectionReset \<equiv> Sentinel (ConnectionErr ConnectionReset)"
abbreviation ErrMaxRetriesExceeded :: err where "ErrMaxRetriesExceeded \<equiv> Sentinel (ConnectionErr MaxRetriesExceeded)"
abbreviation ErrCircuitBreakerOpen :: err where "ErrCircuitBreakerOpen \<equiv> Sentinel (ConnectionErr CircuitBreakerOpen)"
abbreviation ErrPoolExhausted :: err where "ErrPoolExhausted \<equiv> Sentinel (ConnectionErr PoolExhausted)"
abbreviation ErrInvalidSlaveID :: err where "ErrInvalidSlaveID \<equiv> Sentinel (ConnectionErr InvalidSlaveID)"
abbreviation ErrReadFailed :: err where "ErrReadFailed \<equiv> Sentinel (RwErr ReadFailed)"
abbreviation ErrWriteFailed :: err where "ErrWriteFailed \<equiv> Sentinel (RwErr WriteFailed)"
abbreviation ErrInvalidAddress :: err where "ErrInvalidAddress \<equiv> Sentinel (RwErr InvalidAddress)"
abbreviation ErrInvalidDataLength :: err where "ErrInvalidDataLength \<equiv> Sentinel (RwErr InvalidDataLength)"
abbreviation ErrInvalidDataType :: err where "ErrInvalidDataType \<equiv> Sentinel (RwErr InvalidDataType)"
abbreviation ErrInvalidRegisterType :: err where "ErrInvalidRegisterType \<equiv> Sentinel (RwErr InvalidRegisterType)"
abbreviation ErrModbusIllegalFunction :: err where "ErrModbusIllegalFunction \<equiv> Sentinel (ModbusErr ModbusIllegalFunction)"
abbreviation ErrModbusIllegalAddress :: err where "ErrModbusIllegalAddress \<equiv> Sentinel (ModbusErr ModbusIllegalAddress)"
abbreviation ErrModbusIllegalValue :: err where "ErrModbusIllegalValue \<equiv> Sentinel (ModbusErr ModbusIllegalValue)"
abbreviation ErrModbusDeviceFailure :: err where "ErrModbusDeviceFailure \<equiv> Sentinel (ModbusErr ModbusDeviceFailure)"
abbreviation ErrModbusAcknowledge :: err where "ErrModbusAcknowledge \<equiv> Sentinel (ModbusErr ModbusAcknowledge)"
abbreviation ErrModbusBusy :: err where "ErrModbusBusy \<equiv> Sentinel (ModbusErr ModbusBusy)"
abbreviation ErrModbusNegativeAck :: err where "ErrModbusNegativeAck \<equiv> Sentinel (ModbusErr ModbusNegativeAck)"
abbreviation ErrModbusMemoryParityError :: err where "ErrModbusMemoryParityError \<equiv> Sentinel (ModbusErr ModbusMemoryParityError)"
abbreviation ErrModbusGatewayPathUnavailable :: err where "ErrModbusGatewayPathUnavailable \<equiv> Sentinel (ModbusErr ModbusGatewayPathUnavailable)"
abbreviation ErrModbusGatewayTargetFailed :: err where "ErrModbusGatewayTargetFailed \<equiv> Sentinel (ModbusErr ModbusGatewayTargetFailed)"
abbreviation ErrModbusProtocolLimit :: err where "ErrModbusProtocolLimit \<equiv> Sentinel (ModbusErr ModbusProtocolLimit)"
abbreviation ErrInvalidRegisterCount :: err where "ErrInvalidRegisterCount \<equiv> Sentinel (ModbusErr InvalidRegisterCount)"
abbreviation ErrMQTTConnectionFailed :: err where "ErrMQTTConnectionFailed \<equiv> Sentinel (MqttErr MQTTConnectionFailed)"
abbreviation ErrMQTTPublishFailed :: err where "ErrMQTTPublishFailed \<equiv> Sentinel (MqttErr MQTTPublishFailed)"
abbreviation ErrMQTTNotConnected :: err where "ErrMQTTNotConnected \<equiv> Sentinel (MqttErr MQTTNotConnected)"
abbreviation ErrMQTTSubscribeFailed :: err where "ErrMQTTSubscribeFailed \<equiv> Sentinel (MqttErr MQTTSubscribeFailed)"
abbreviation ErrOPCUAInvalidNodeID :: err where "ErrOPCUAInvalidNodeID \<equiv> Sentinel (OpcuaErr OPCUAInvalidNodeID)"
abbreviation ErrOPCUASubscriptionFailed :: err where "ErrOPCUASubscriptionFailed \<equiv> Sentinel (OpcuaErr OPCUASubscriptionFailed)"
abbreviation ErrOPCUABadStatus :: err where "ErrOPCUABadStatus \<equiv> Sentinel (OpcuaErr OPCUABadStatus)"
abbreviation ErrOPCUASecurityFailed :: err where "ErrOPCUASecurityFailed \<equiv> Sentinel (OpcuaErr OPCUASecurityFailed)"
abbreviation ErrOPCUASessionExpired :: err where "ErrOPCUASessionExpired \<equiv> Sentinel (OpcuaErr OPCUASessionExpired)"
abbreviation ErrOPCUABrowseFailed :: err where "ErrOPCUABrowseFailed \<equiv> Sentinel (OpcuaErr OPCUABrowseFailed)"
abbreviation ErrOPCUANodeNotFound :: err where "ErrOPCUANodeNotFound \<equiv> Sentinel (OpcuaErr OPCUANodeNotFound)"
abbreviation ErrOPCUAAccessDenied :: err where "ErrOPCUAAccessDenied \<equiv> Sentinel (OpcuaErr OPCUAAccessDenied)"
abbreviation ErrOPCUAWriteNotPermitted :: err where "ErrOPCUAWriteNotPermitted \<equiv> Sentinel (OpcuaErr OPCUAWriteNotPermitted)"
abbreviation ErrS7ConnectionFailed :: err where "ErrS7ConnectionFailed \<equiv> Sentinel (S7Err S7ConnectionFailed)"
abbreviation ErrS7InvalidAddress :: err where "ErrS7InvalidAddress \<equiv> Sentinel (S7Err S7InvalidAddress)"
abbreviation ErrS7InvalidDBNumber :: err where "ErrS7InvalidDBNumber \<equiv> Sentinel (S7Err S7InvalidDBNumber)"
abbreviation ErrS7InvalidArea :: err where "ErrS7InvalidArea \<equiv> Sentinel (S7Err S7InvalidArea)"
abbreviation ErrS7InvalidOffset :: err where "ErrS7InvalidOffset \<equiv> Sentinel (S7Err S7InvalidOffset)"
abbreviation ErrS7ReadFailed :: err where "ErrS7ReadFailed \<equiv> Sentinel (S7Err S7ReadFailed)"
abbreviation ErrS7WriteFailed :: err where "ErrS7WriteFailed \<equiv> Sentinel (S7Err S7WriteFailed)"
abbreviation ErrS7CPUError :: err where "ErrS7CPUError \<equiv> Sentinel (S7Err S7CPUError)"
abbreviation ErrS7PDUSizeMismatch :: err where "ErrS7PDUSizeMismatch \<equiv> Sentinel (S7Err S7PDUSizeMismatch)"
abbreviation ErrS7ItemNotAvailable :: err where "ErrS7ItemNotAvailable \<equiv> Sentinel (S7Err S7ItemNotAvailable)"
abbreviation ErrS7AddressOutOfRange :: err where "ErrS7AddressOutOfRange \<equiv> Sentinel (S7Err S7AddressOutOfRange)"
abbreviation ErrS7WriteDataSizeMismatch :: err where "ErrS7WriteDataSizeMismatch \<equiv> Sentinel (S7Err S7WriteDataSizeMismatch)"
abbreviation ErrS7ObjectNotExist :: err where "ErrS7ObjectNotExist \<equiv> Sentinel (S7Err S7ObjectNotExist)"
abbreviation ErrS7HardwareFault :: err where "ErrS7HardwareFault \<equiv> Sentinel (S7Err S7HardwareFault)"
abbreviation ErrS7AccessingNotAllowed :: err where "ErrS7AccessingNotAllowed \<equiv> Sentinel (S7Err S7AccessingNotAllowed)"
abbreviation ErrTagNotWritable :: err where "ErrTagNotWritable \<equiv> Sentinel (WriteErr TagNotWritable)"
abbreviation ErrInvalidWriteValue :: err where "ErrInvalidWriteValue \<equiv> Sentinel (WriteErr InvalidWriteValue)"
abbreviation ErrWriteTimeout :: err where "ErrWriteTimeout \<equiv> Sentinel (WriteErr WriteTimeout)"
abbreviation ErrServiceNotStarted :: err where "ErrServiceNotStarted \<equiv> Sentinel (ServiceErr ServiceNotStarted)"
abbreviation ErrServiceStopped :: err where "ErrServiceStopped \<equiv> Sentinel (ServiceErr ServiceStopped)"
abbreviation ErrServiceOverloaded :: err where "ErrServiceOverloaded \<equiv> Sentinel (ServiceErr ServiceOverloaded)"
abbreviation ErrDeviceNotFound :: err where "ErrDeviceNotFound \<equiv> Sentinel (ServiceErr DeviceNotFound)"
abbreviation ErrDeviceExists :: err where "ErrDeviceExists \<equiv> Sentinel (ServiceErr DeviceExists)"
abbreviation ErrTagNotFound :: err where "ErrTagNotFound \<equiv> Sentinel (ServiceErr TagNotFound)"
abbreviation ErrInvalidConfig :: err where "ErrInvalidConfig \<equiv> Sentinel (ServiceErr InvalidConfig)"
abbreviation ErrProtocolNotSupported :: err where "ErrProtocolNotSupported \<equiv> Sentinel (ServiceErr ProtocolNotSupported)"

text \<open>\<open>fmt.Errorf("%w: %v", a, b)\<close>: wraps \<open>a\<close>, keeps only the text of \<open>b\<close>.\<close>

abbreviation wrap_v :: "err \<Rightarrow> err \<Rightarrow> err" where
  "wrap_v a b \<equiv> Wrap a ('': '' @ err_text b)"

text \<open>\<open>errors.Is\<close>.\<close>

fun errors_is :: "err \<Rightarrow> err \<Rightarrow> bool" where
  "errors_is (Wrap e s) t = (Wrap e s = t \<or> errors_is e t)"
| "errors_is (WrapPre s e) t = (WrapPre s e = t \<or> errors_is e t)"
| "errors_is e t = (e = t)"

text \<open>
  The type assertion \<open>err.(net.Error)\<close> looks at the outermost value only; it gives the
  \<open>Timeout()\<close> of the error.  \<open>context.DeadlineExceeded\<close> implements the interface.
\<close>

fun as_net_error :: "err \<Rightarrow> bool option" where
  "as_net_error (NetErr b s) = Some b"
| "as_net_error CtxDeadlineExceeded = Some True"
| "as_net_error e = None"

section \<open>Modbus exception codes\<close>

definition ModbusExceptionToError :: "byte \<Rightarrow> err" where
  "ModbusExceptionToError code =
     (if code = 0x01 then ErrModbusIllegalFunction
       else if code = 0x02 then ErrModbusIllegalAddress
       else if code = 0x03 then ErrModbusIllegalValue
       else if code = 0x04 then ErrModbusDeviceFailure
       else if code = 0x05 then ErrModbusAcknowledge
       else if code = 0x06 then ErrModbusBusy
       else if code = 0x07 then ErrModbusNegativeAck
       else if code = 0x08 then ErrModbusMemoryParityError
       else if code = 0x0A then ErrModbusGatewayPathUnavailable
       else if code = 0x0B then ErrModbusGatewayTargetFailed
       else ErrReadFailed)"

section \<open>Text helpers of the standard library\<close>

fun show_nat :: "nat \<Rightarrow> string" where
  "show_nat n = (if n < 10 then [char_of (48 + n)] else show_nat (n div 10) @ [char_of (48 + n mod 10)])"

declare show_nat.simps [simp del]

definition show_int :: "int \<Rightarrow> string" where
  "show_int i = (if i < 0 then CHR ''-'' # show_nat (nat (- i)) else show_nat (nat i))"

text \<open>One character of \<open>strings.ToLower\<close>.\<close>

definition to_lower :: "char \<Rightarrow> char" where
  "to_lower c = (let n = (of_char c :: nat) in if 65 \<le> n \<and> n \<le> 90 then char_of (n + 32) else c)"

text \<open>\<open>strings.HasPrefix\<close> and \<open>strings.Contains\<close>.\<close>

fun has_prefix :: "string \<Rightarrow> string \<Rightarrow> bool" where
  "has_prefix s [] = True"
| "has_prefix [] (c # cs) = False"
| "has_prefix (x # xs) (c # cs) = (x = c \<and> has_prefix xs cs)"

fun contains_sub :: "string \<Rightarrow> string \<Rightarrow> bool" where
  "contains_sub [] p = (p = [])"
| "contains_sub (x # xs) p = (has_prefix (x # xs) p \<or> contains_sub xs p)"

lemma has_prefix_iff: "has_prefix s p \<longleftrightarrow> (\<exists>zs. s = p @ zs)"
  by (induction s p rule: has_prefix.induct) auto

lemma contains_sub_iff: "contains_sub s p \<longleftrightarrow> (\<exists>ys zs. s = ys @ p @ zs)"
proof (induction s)
  case (Cons x xs)
  show ?case
  proof
    assume "contains_sub (x # xs) p"
    then show "\<exists>ys zs. x # xs = ys @ p @ zs"
      using Cons.IH by (auto simp: has_prefix_iff) (metis append_Cons append_Nil)+
  next
    assume "\<exists>ys zs. x # xs = ys @ p @ zs"
    then obtain ys zs where eq: "x # xs = ys @ p @ zs" by blast
    show "contains_sub (x # xs) p"
    proof (cases ys)
      case Nil
      then have "has_prefix (x # xs) p" using eq by (simp add: has_prefix_iff)
      then show ?thesis by simp
    next
      case (Cons y ys')
      then show ?thesis using eq Cons.IH by auto
    qed
  qed
qed auto

lemma contains_sub_append1: "contains_sub s p \<Longrightarrow> contains_sub (s @ t) p"
  by (auto simp: contains_sub_iff) (metis append.assoc)

lemma contains_sub_append2: "contains_sub t p \<Longrightarrow> contains_sub (s @ t) p"
  by (auto simp: contains_sub_iff) (metis append.assoc)

lemma errors_is_refl [simp]: "errors_is e e"
  by (cases e) auto

end
