(* ===== verification/Go_Value.thy ===== *)
theory Go_Value
  imports Go_Float Go_Error
begin

text \<open>
  Dynamic values (\<open>interface{}\<close>) and the type switches of
  \<open>internal/adapter/modbus/conversion.go\<close> that turn them into a Go number.  Signed integers
  are words read by \<open>sint\<close>, floats are their bit patterns.
\<close>

section \<open>Dynamic values\<close>

datatype goval =
    VNil
  | VBool bool
  | VInt u64 | VInt8 u8 | VInt16 u16 | VInt32 u32 | VInt64 u64
  | VUint u64 | VUint8 u8 | VUint16 u16 | VUint32 u32 | VUint64 u64
  | VFloat32 u32 | VFloat64 u64
  | VString string
  | VList "goval list"
  | VObject "(string \<times> goval) list"

text \<open>
  Converting a float that is out of the integer type's range gives an implementation-dependent
  value in Go: two functions of the target.
\<close>

record arch =
  oob_i64 :: "u64 \<Rightarrow> u64"
  oob_u64 :: "u64 \<Rightarrow> u64"

definition fp_to_i64 :: "arch \<Rightarrow> fp \<Rightarrow> u64" where
  "fp_to_i64 ar x = (case fp_trunc x of
       None \<Rightarrow> oob_i64 ar (f64_enc x)
     | Some i \<Rightarrow> if - (2 ^ 63) \<le> i \<and> i < 2 ^ 63 then word_of_int i else oob_i64 ar (f64_enc x))"

definition fp_to_u64 :: "arch \<Rightarrow> fp \<Rightarrow> u64" where
  "fp_to_u64 ar x = (case fp_trunc x of
       None \<Rightarrow> oob_u64 ar (f64_enc x)
     | Some i \<Rightarrow> if 0 \<le> i \<and> i < 2 ^ 64 then word_of_int i else oob_u64 ar (f64_enc x))"

definition fp_nonzero :: "fp \<Rightarrow> bool" where
  "fp_nonzero x \<longleftrightarrow> \<not> fp_eq x (FFin False 0 0)"

section \<open>The type switches\<close>

text \<open>Each returns the value and the \<open>ok\<close> flag.\<close>

fun toBool :: "goval \<Rightarrow> bool \<times> bool" where
  "toBool (VBool b) = (b, True)"
| "toBool (VInt v) = (v \<noteq> 0, True)"
| "toBool (VInt8 v) = (v \<noteq> 0, True)"
| "toBool (VInt16 v) = (v \<noteq> 0, True)"
| "toBool (VInt32 v) = (v \<noteq> 0, True)"
| "toBool (VInt64 v) = (v \<noteq> 0, True)"
| "toBool (VUint v) = (v \<noteq> 0, True)"
| "toBool (VUint8 v) = (v \<noteq> 0, True)"
| "toBool (VUint16 v) = (v \<noteq> 0, True)"
| "toBool (VUint32 v) = (v \<noteq> 0, True)"
| "toBool (VUint64 v) = (v \<noteq> 0, True)"
| "toBool (VFloat32 v) = (fp_nonzero (f32_dec v), True)"
| "toBool (VFloat64 v) = (fp_nonzero (f64_dec v), True)"
| "toBool _ = (False, False)"

fun toInt64 :: "arch \<Rightarrow> goval \<Rightarrow> u64 \<times> bool" where
  "toInt64 ar (VInt v) = (v, True)"
| "toInt64 ar (VInt8 v) = (word_of_int (sint v), True)"
| "toInt64 ar (VInt16 v) = (word_of_int (sint v), True)"
| "toInt64 ar (VInt32 v) = (word_of_int (sint v), True)"
| "toInt64 ar (VInt64 v) = (v, True)"
| "toInt64 ar (VUint v) = (v, True)"
| "toInt64 ar (VUint8 v) = (word_of_int (uint v), True)"
| "toInt64 ar (VUint16 v) = (word_of_int (uint v), True)"
| "toInt64 ar (VUint32 v) = (word_of_int (uint v), True)"
| "toInt64 ar (VUint64 v) = (v, True)"
| "toInt64 ar (VFloat32 v) = (fp_to_i64 ar (f32_dec v), True)"
| "toInt64 ar (VFloat64 v) = (fp_to_i64 ar (f64_dec v), True)"
| "toInt64 ar _ = (0, False)"

fun toUint64 :: "arch \<Rightarrow> goval \<Rightarrow> u64 \<times> bool" where
  "toUint64 ar (VInt v) = (v, True)"
| "toUint64 ar (VInt8 v) = (word_of_int (sint v), True)"
| "toUint64 ar (VInt16 v) = (word_of_int (sint v), True)"
| "toUint64 ar (VInt32 v) = (word_of_int (sint v), True)"
| "toUint64 ar (VInt64 v) = (v, True)"
| "toUint64 ar (VUint v) = (v, True)"
| "toUint64 ar (VUint8 v) = (word_of_int (uint v), True)"
| "toUint64 ar (VUint16 v) = (word_of_int (uint v), True)"
| "toUint64 ar (VUint32 v) = (word_of_int (uint v), True)"
| "toUint64 ar (VUint64 v) = (v, True)"
| "toUint64 ar (VFloat32 v) = (fp_to_u64 ar (f32_dec v), True)"
| "toUint64 ar (VFloat64 v) = (fp_to_u64 ar (f64_dec v), True)"
| "toUint64 ar _ = (0, False)"

fun toFloat64 :: "goval \<Rightarrow> u64 \<times> bool" where
  "toFloat64 (VInt v) = (f64_of_int (sint v), True)"
| "toFloat64 (VInt8 v) = (f64_of_int (sint v), True)"
| "toFloat64 (VInt16 v) = (f64_of_int (sint v), True)"
| "toFloat64 (VInt32 v) = (f64_of_int (sint v), True)"
| "toFloat64 (VInt64 v) = (f64_of_int (sint v), True)"
| "toFloat64 (VUint v) = (f64_of_int (uint v), True)"
| "toFloat64 (VUint8 v) = (f64_of_int (uint v), True)"
| "toFloat64 (VUint16 v) = (f64_of_int (uint v), True)"
| "toFloat64 (VUint32 v) = (f64_of_int (uint v), True)"
| "toFloat64 (VUint64 v) = (f64_of_int (uint v), True)"
| "toFloat64 (VFloat32 v) = (f64_of_f32 v, True)"
| "toFloat64 (VFloat64 v) = (v, True)"
| "toFloat64 _ = (0, False)"

lemma fp_to_i64_of_int:
  "\<bar>i\<bar> < 2 ^ 53 \<Longrightarrow> fp_to_i64 ar (f64_dec (f64_of_int i)) = word_of_int i"
  by (auto simp: fp_to_i64_def f64_of_int_exact)

lemma fp_to_u64_of_int:
  "0 \<le> i \<Longrightarrow> i < 2 ^ 53 \<Longrightarrow> fp_to_u64 ar (f64_dec (f64_of_int i)) = word_of_int i"
  by (auto simp: fp_to_u64_def f64_of_int_exact)

text \<open>The switches accept the same dynamic types, except that only \<open>toBool\<close> takes a boolean.\<close>

definition numeric :: "goval \<Rightarrow> bool" where
  "numeric v = snd (toFloat64 v)"

lemma snd_toInt64 [simp]: "snd (toInt64 ar v) = numeric v"
  by (cases v) (auto simp: numeric_def)

lemma snd_toUint64 [simp]: "snd (toUint64 ar v) = numeric v"
  by (cases v) (auto simp: numeric_def)

lemma snd_toFloat64 [simp]: "snd (toFloat64 v) = numeric v"
  by (simp add: numeric_def)

lemma snd_toBool: "snd (toBool v) \<longleftrightarrow> numeric v \<or> (\<exists>b. v = VBool b)"
  by (cases v) (auto simp: numeric_def)

end
