(* ===== verification/Domain.thy ===== *)
theory Domain
  imports Go_Value
begin

text \<open>
  \<open>internal/domain\<close>: tags, devices and data points, their validation, and the recycling of
  data points through \<open>sync.Pool\<close>.  A Go string type with named constants is a datatype with
  one constructor per constant and one for every other string; the empty string is \<open>\<dots>_other\<close>
  of the empty string.  (\<open>DataTypeString\<close>, which only the OPC UA adapter tells apart, is
  \<open>DataType_other\<close> of its text.)
\<close>

section \<open>Enumerated string types\<close>

datatype protocol = ProtocolModbusTCP | ProtocolModbusRTU | ProtocolOPCUA | ProtocolS7
  | ProtocolMQTT | Protocol_other string

datatype data_type = DataTypeBool | DataTypeInt16 | DataTypeUInt16 | DataTypeInt32
  | DataTypeUInt32 | DataTypeInt64 | DataTypeUInt64 | DataTypeFloat32 | DataTypeFloat64
  | DataType_other string

datatype register_type = RegisterTypeCoil | RegisterTypeDiscreteInput
  | RegisterTypeHoldingRegister | RegisterTypeInputRegister | RegisterType_other string

datatype byte_order = ByteOrderBigEndian | ByteOrderLittleEndian | ByteOrderMidBigEndian
  | ByteOrderMidLitEndian | ByteOrder_other string

datatype access_mode = AccessModeReadOnly | AccessModeWriteOnly | AccessModeReadWrite
  | AccessMode_other string

datatype s7_area = S7AreaDB | S7AreaM | S7AreaI | S7AreaQ | S7AreaT | S7AreaC
  | S7Area_other string

datatype quality = QualityGood | QualityBad | QualityUncertain | QualityNotConnected
  | QualityConfigError | QualityDeviceFailure | QualityTimeout | Quality_other string

datatype deadband_type = DeadbandTypeNone | DeadbandTypeAbsolute | DeadbandTypePercent
  | DeadbandType_other string

datatype device_status = DeviceStatusOnline | DeviceStatusOffline | DeviceStatusConnecting
  | DeviceStatusError | DeviceStatusUnknown

fun protocol_text :: "protocol \<Rightarrow> string" where
  "protocol_text ProtocolModbusTCP = ''modbus-tcp''"
| "protocol_text ProtocolModbusRTU = ''modbus-rtu''"
| "protocol_text ProtocolOPCUA = ''opcua''"
| "protocol_text ProtocolS7 = ''s7''"
| "protocol_text ProtocolMQTT = ''mqtt''"
| "protocol_text (Protocol_other s) = s"

fun data_type_text :: "data_type \<Rightarrow> string" where
  "data_type_text DataTypeBool = ''bool''"
| "data_type_text DataTypeInt16 = ''int16''"
| "data_type_text DataTypeUInt16 = ''uint16''"
| "data_type_text DataTypeInt32 = ''int32''"
| "data_type_text DataTypeUInt32 = ''uint32''"
| "data_type_text DataTypeInt64 = ''int64''"
| "data_type_text DataTypeUInt64 = ''uint64''"
| "data_type_text DataTypeFloat32 = ''float32''"
| "data_type_text DataTypeFloat64 = ''float64''"
| "data_type_text (DataType_other s) = s"

fun register_type_text :: "register_type \<Rightarrow> string" where
  "register_type_text RegisterTypeCoil = ''coil''"
| "register_type_text RegisterTypeDiscreteInput = ''discrete_input''"
| "register_type_text RegisterTypeHoldingRegister = ''holding_register''"
| "register_type_text RegisterTypeInputRegister = ''input_register''"
| "register_type_text (RegisterType_other s) = s"

fun area_text :: "s7_area \<Rightarrow> string" where
  "area_text S7AreaDB = ''DB''"
| "area_text S7AreaM = ''M''"
| "area_text S7AreaI = ''I''"
| "area_text S7AreaQ = ''Q''"
| "area_text S7AreaT = ''T''"
| "area_text S7AreaC = ''C''"
| "area_text (S7Area_other s) = s"

text \<open>\<open>fmt\<close>'s \<open>%q\<close> on printable ASCII text.\<close>

definition quoted :: "string \<Rightarrow> string" where
  "quoted s = ''\"'' @ concat (map (\<lambda>c. if c = CHR ''\"'' \<or> c = CHR 0x5C then [CHR 0x5C, c] else [c]) s) @ ''\"''"

section \<open>Tags\<close>

record tag =
  tag_ID :: string
  tag_Name :: string
  tag_Description :: string
  Address :: u16
  RegisterType :: register_type
  DataType :: data_type
  ByteOrder :: byte_order
  RegisterCount :: u16
  BitPosition :: "u8 option"
  ScaleFactor :: u64
  Offset :: u64
  tag_Unit :: string
  TopicSuffix :: string
  tag_PollInterval :: "duration option"
  DeadbandType :: deadband_type
  DeadbandValue :: u64
  tag_Enabled :: bool
  AccessMode :: access_mode
  tag_Priority :: u8
  OPCNodeID :: string
  OPCNamespaceURI :: string
  OPCNamespaceIndex :: u16
  S7Area :: s7_area
  S7DBNumber :: int
  S7Offset :: int
  S7BitOffset :: int
  S7Address :: string
  tag_Metadata :: "string \<rightharpoonup> string"

text \<open>Go's zero value of the struct.\<close>

definition zero_tag :: tag where
  "zero_tag = \<lparr>tag_ID = [], tag_Name = [], tag_Description = [], Address = 0,
     RegisterType = RegisterType_other [], DataType = DataType_other [], ByteOrder = ByteOrder_other [],
     RegisterCount = 0, BitPosition = None, ScaleFactor = 0, Offset = 0, tag_Unit = [],
     TopicSuffix = [], tag_PollInterval = None, DeadbandType = DeadbandType_other [],
     DeadbandValue = 0, tag_Enabled = False, AccessMode = AccessMode_other [], tag_Priority = 0,
     OPCNodeID = [], OPCNamespaceURI = [], OPCNamespaceIndex = 0, S7Area = S7Area_other [],
     S7DBNumber = 0, S7Offset = 0, S7BitOffset = 0, S7Address = [], tag_Metadata = Map.empty\<rparr>"

definition ExpectedRegisterCount :: "tag \<Rightarrow> u16" where
  "ExpectedRegisterCount t = (case DataType t of
       DataTypeBool \<Rightarrow> 1 | DataTypeInt16 \<Rightarrow> 1 | DataTypeUInt16 \<Rightarrow> 1
     | DataTypeInt32 \<Rightarrow> 2 | DataTypeUInt32 \<Rightarrow> 2 | DataTypeFloat32 \<Rightarrow> 2
     | DataTypeInt64 \<Rightarrow> 4 | DataTypeUInt64 \<Rightarrow> 4 | DataTypeFloat64 \<Rightarrow> 4
     | _ \<Rightarrow> 1)"

text \<open>
  The validation methods mutate their receiver: the result is the tag after the call and the
  error, if any.  \<open>t.ScaleFactor == 0\<close> holds for both zeros.
\<close>

definition default_scale :: "tag \<Rightarrow> tag" where
  "default_scale t = (if f64_eq (ScaleFactor t) f64_zero then t\<lparr>ScaleFactor := f64_one\<rparr> else t)"

text \<open>The Modbus case of the switch.\<close>

definition validate_modbus_tag :: "tag \<Rightarrow> tag \<times> err option" where
  "validate_modbus_tag t =
     (if RegisterType t = RegisterType_other [] then
        (t, Some (Plain (''register type is required for Modbus tag '' @ tag_ID t)))
      else if BitPosition t \<noteq> None \<and> 7 < the (BitPosition t) then
        (t, Some (Plain (''bit position '' @ show_nat (unat (the (BitPosition t)))
           @ '' is out of range (must be 0-7) for Modbus tag '' @ tag_ID t)))
      else let expectedCount = ExpectedRegisterCount t in
        if RegisterCount t \<noteq> 0 \<and> RegisterCount t < expectedCount then
          (t, Some (Plain (''register count '' @ show_nat (unat (RegisterCount t))
             @ '' is insufficient for data type '' @ data_type_text (DataType t)
             @ '' (needs '' @ show_nat (unat expectedCount) @ '')'')))
        else
          let t1 = (if RegisterCount t = 0 then t\<lparr>RegisterCount := expectedCount\<rparr> else t);
              t2 = (if ByteOrder t1 = ByteOrder_other [] then t1\<lparr>ByteOrder := ByteOrderBigEndian\<rparr> else t1)
          in (t2, None))"

definition ValidateForProtocol :: "tag \<Rightarrow> protocol \<Rightarrow> tag \<times> err option" where
  "ValidateForProtocol t proto =
     (if tag_ID t = [] then (t, Some (Plain ''tag ID is required''))
      else if tag_Name t = [] then (t, Some (Plain ''tag name is required''))
      else if TopicSuffix t = [] then (t, Some (Plain ''tag topic suffix is required''))
      else if DataType t = DataType_other [] then
        (t, Some (Plain (''data type is required for tag '' @ tag_ID t)))
      else
        let (t', e) = (case proto of
            ProtocolModbusTCP \<Rightarrow> validate_modbus_tag t
          | ProtocolModbusRTU \<Rightarrow> validate_modbus_tag t
          | ProtocolOPCUA \<Rightarrow> (t, if OPCNodeID t = []
              then Some (Plain (''opc node id is required for OPC UA tag '' @ tag_ID t)) else None)
          | ProtocolS7 \<Rightarrow> (t, if S7Address t = []
              then Some (Plain (''s7 address is required for S7 tag '' @ tag_ID t)) else None)
          | ProtocolMQTT \<Rightarrow> (t, None)
          | Protocol_other s \<Rightarrow> (t, Some (Plain (''unsupported protocol '' @ quoted s
              @ '' for tag '' @ tag_ID t))))
        in (case e of Some x \<Rightarrow> (t', Some x) | None \<Rightarrow> (default_scale t', None)))"

definition ValidateTag :: "tag \<Rightarrow> tag \<times> err option" where
  "ValidateTag t =
     (if OPCNodeID t \<noteq> [] then ValidateForProtocol t ProtocolOPCUA
      else if S7Address t \<noteq> [] then ValidateForProtocol t ProtocolS7
      else ValidateForProtocol t ProtocolModbusTCP)"

definition GetEffectivePollInterval :: "tag \<Rightarrow> duration \<Rightarrow> duration" where
  "GetEffectivePollInterval t deviceDefault =
     (case tag_PollInterval t of Some d \<Rightarrow> d | None \<Rightarrow> deviceDefault)"

definition IsWritable :: "tag \<Rightarrow> bool" where
  "IsWritable t =
     (if AccessMode t \<noteq> AccessMode_other [] then
        AccessMode t = AccessModeWriteOnly \<or> AccessMode t = AccessModeReadWrite
      else case RegisterType t of
        RegisterTypeCoil \<Rightarrow> True
      | RegisterTypeHoldingRegister \<Rightarrow> True
      | RegisterTypeDiscreteInput \<Rightarrow> False
      | RegisterTypeInputRegister \<Rightarrow> False
      | _ \<Rightarrow> False)"

definition IsReadable :: "tag \<Rightarrow> bool" where
  "IsReadable t =
     (if AccessMode t \<noteq> AccessMode_other [] then
        AccessMode t = AccessModeReadOnly \<or> AccessMode t = AccessModeReadWrite
      else True)"

section \<open>Devices\<close>

record breaker_config =
  MaxRequests :: u32
  Interval :: duration
  BreakerTimeout :: duration
  FailureThreshold :: u32
  FailureRatio :: u64

record connection_config =
  Host :: string
  Port :: int
  Timeout :: duration
  RetryCount :: int
  RetryDelay :: duration
  SlaveID :: u8
  SerialPort :: string
  BaudRate :: int
  DataBits :: int
  Parity :: string
  StopBits :: int
  OPCEndpointURL :: string
  OPCSecurityPolicy :: string
  OPCSecurityMode :: string
  OPCAuthMode :: string
  OPCUsername :: string
  OPCPassword :: string
  OPCCertFile :: string
  OPCKeyFile :: string
  OPCServerCertFile :: string
  OPCInsecureSkipVerify :: bool
  OPCAutoSelectEndpoint :: bool
  OPCApplicationName :: string
  OPCApplicationURI :: string
  OPCPublishInterval :: duration
  OPCSamplingInterval :: duration
  OPCUseSubscriptions :: bool
  S7Rack :: int
  S7Slot :: int
  S7PDUSize :: int
  S7Timeout :: duration
  CircuitBreaker :: "breaker_config option"

record device =
  dev_ID :: string
  dev_Name :: string
  dev_Description :: string
  dev_Protocol :: protocol
  Connection :: connection_config
  Tags :: "tag list"
  PollInterval :: duration
  dev_Enabled :: bool
  UNSPrefix :: string
  dev_Metadata :: "string \<rightharpoonup> string"
  CreatedAt :: time
  UpdatedAt :: time
  ConfigVersion :: u32
  ActiveConfigVersion :: u32
  LastKnownGoodVersion :: u32

abbreviation millisecond :: duration where "millisecond \<equiv> 1000000"
abbreviation second :: duration where "second \<equiv> 1000000000"

text \<open>The loop over the tags stops at the first error; the tags before it stay validated.\<close>

fun validate_tags :: "string \<Rightarrow> protocol \<Rightarrow> tag list \<Rightarrow> tag list \<times> err option" where
  "validate_tags d p [] = ([], None)"
| "validate_tags d p (t # ts) =
     (case ValidateForProtocol t p of
        (t', Some e) \<Rightarrow> (t' # ts, Some (WrapPre (''invalid tag '' @ quoted (tag_ID t)
            @ '' for device '' @ quoted d @ '': '') e))
      | (t', None) \<Rightarrow> (let (ts', r) = validate_tags d p ts in (t' # ts', r)))"

definition ValidateDevice :: "device \<Rightarrow> device \<times> err option" where
  "ValidateDevice d =
     (if dev_ID d = [] then (d, Some ErrDeviceIDRequired)
      else if dev_Name d = [] then (d, Some ErrDeviceNameRequired)
      else if dev_Protocol d = Protocol_other [] then (d, Some ErrProtocolRequired)
      else if length (Tags d) = 0 then (d, Some ErrNoTagsDefined)
      else if PollInterval d < millisecond * 100 then (d, Some ErrPollIntervalTooShort)
      else if UNSPrefix d = [] then (d, Some ErrUNSPrefixRequired)
      else let (ts, r) = validate_tags (dev_ID d) (dev_Protocol d) (Tags d)
           in (d\<lparr>Tags := ts\<rparr>, r))"

definition GetAddress :: "device \<Rightarrow> string" where
  "GetAddress d = (if Host (Connection d) \<noteq> [] then Host (Connection d) else SerialPort (Connection d))"

section \<open>Data points\<close>

text \<open>The zero \<open>time.Time\<close> is 0; the Unix epoch is that many nanoseconds later.\<close>

record data_point =
  dp_DeviceID :: string
  dp_TagID :: string
  dp_Topic :: string
  dp_Value :: goval
  dp_RawValue :: goval
  dp_Unit :: string
  dp_Quality :: quality
  dp_Timestamp :: time
  dp_SourceTimestamp :: "time option"
  dp_GatewayTimestamp :: time
  dp_PublishTimestamp :: "time option"
  dp_LatencyMs :: "int option"
  dp_StalenessMs :: "int option"
  dp_Priority :: u8
  dp_Metadata :: "(string \<rightharpoonup> string) option"

definition zero_data_point :: data_point where
  "zero_data_point = \<lparr>dp_DeviceID = [], dp_TagID = [], dp_Topic = [], dp_Value = VNil,
     dp_RawValue = VNil, dp_Unit = [], dp_Quality = Quality_other [], dp_Timestamp = 0,
     dp_SourceTimestamp = None, dp_GatewayTimestamp = 0, dp_PublishTimestamp = None,
     dp_LatencyMs = None, dp_StalenessMs = None, dp_Priority = 0, dp_Metadata = None\<rparr>"

definition unix_epoch :: time where
  "unix_epoch = 62135596800 * second"

definition unix_milli :: "time \<Rightarrow> int" where
  "unix_milli t = (t - unix_epoch) div millisecond"

text \<open>\<open>Duration.Milliseconds\<close> truncates towards zero; \<open>Time.Sub\<close> saturates.\<close>

definition milliseconds :: "duration \<Rightarrow> int" where
  "milliseconds d = sgn d * (\<bar>d\<bar> div millisecond)"

definition time_sub :: "time \<Rightarrow> time \<Rightarrow> duration" where
  "time_sub a b = max (- (2 ^ 63)) (min (2 ^ 63 - 1) (a - b))"

record mqtt_payload =
  pl_Value :: goval
  pl_Unit :: string
  pl_Quality :: quality
  pl_Timestamp :: int

definition ToMQTTPayload :: "data_point \<Rightarrow> mqtt_payload" where
  "ToMQTTPayload dp = \<lparr>pl_Value = dp_Value dp, pl_Unit = dp_Unit dp, pl_Quality = dp_Quality dp,
     pl_Timestamp = unix_milli (dp_Timestamp dp)\<rparr>"

definition NewDataPoint ::
  "time \<Rightarrow> string \<Rightarrow> string \<Rightarrow> string \<Rightarrow> goval \<Rightarrow> string \<Rightarrow> quality \<Rightarrow> data_point" where
  "NewDataPoint now deviceID tagID topic v u q =
     zero_data_point\<lparr>dp_DeviceID := deviceID, dp_TagID := tagID, dp_Topic := topic, dp_Value := v,
       dp_Unit := u, dp_Quality := q, dp_Timestamp := now\<rparr>"

text \<open>
  \<open>sync.Pool.Get\<close> hands out some object put back earlier, or a zero one: \<open>old\<close> is that object.
\<close>

definition AcquireDataPoint ::
  "data_point \<Rightarrow> time \<Rightarrow> string \<Rightarrow> string \<Rightarrow> string \<Rightarrow> goval \<Rightarrow> string \<Rightarrow> quality \<Rightarrow> data_point" where
  "AcquireDataPoint old now deviceID tagID topic v u q =
     old\<lparr>dp_DeviceID := deviceID, dp_TagID := tagID, dp_Topic := topic, dp_Value := v,
       dp_Unit := u, dp_Quality := q, dp_Timestamp := now, dp_GatewayTimestamp := now,
       dp_RawValue := VNil, dp_SourceTimestamp := None, dp_PublishTimestamp := None,
       dp_LatencyMs := None, dp_StalenessMs := None, dp_Priority := 0, dp_Metadata := None\<rparr>"

definition ReleaseDataPoint :: "data_point \<Rightarrow> data_point" where
  "ReleaseDataPoint dp =
     dp\<lparr>dp_Value := VNil, dp_RawValue := VNil, dp_Metadata := None, dp_SourceTimestamp := None,
       dp_PublishTimestamp := None, dp_LatencyMs := None, dp_StalenessMs := None\<rparr>"

definition WithRawValue :: "goval \<Rightarrow> data_point \<Rightarrow> data_point" where
  "WithRawValue raw dp = dp\<lparr>dp_RawValue := raw\<rparr>"

definition WithPriority :: "u8 \<Rightarrow> data_point \<Rightarrow> data_point" where
  "WithPriority p dp = dp\<lparr>dp_Priority := p\<rparr>"

definition WithPublishTimestamp :: "time \<Rightarrow> data_point \<Rightarrow> data_point" where
  "WithPublishTimestamp ts dp =
     dp\<lparr>dp_PublishTimestamp := Some ts,
        dp_LatencyMs := Some (milliseconds (time_sub ts (dp_Timestamp dp)))\<rparr>"

definition CalculateStaleness :: "time \<Rightarrow> duration \<Rightarrow> data_point \<Rightarrow> data_point" where
  "CalculateStaleness now expectedInterval dp =
     (if expectedInterval \<le> 0 then dp
      else let age = time_sub now (dp_Timestamp dp) in
        if expectedInterval < age
        then dp\<lparr>dp_StalenessMs := Some (milliseconds (age - expectedInterval))\<rparr>
        else dp)"

definition ResetDataPoint :: "data_point \<Rightarrow> data_point" where
  "ResetDataPoint dp =
     dp\<lparr>dp_DeviceID := [], dp_TagID := [], dp_Topic := [], dp_Value := VNil, dp_RawValue := VNil,
       dp_Unit := [], dp_Quality := Quality_other [], dp_Timestamp := 0, dp_SourceTimestamp := None,
       dp_GatewayTimestamp := 0, dp_PublishTimestamp := None, dp_LatencyMs := None,
       dp_StalenessMs := None, dp_Priority := 0, dp_Metadata := None\<rparr>"

section \<open>Well-formed tags\<close>

text \<open>What \<open>ValidateForProtocol\<close> establishes for a Modbus tag.\<close>

definition modbus_tag_ok :: "tag \<Rightarrow> bool" where
  "modbus_tag_ok t \<longleftrightarrow>
     RegisterType t \<noteq> RegisterType_other [] \<and> (\<forall>b. BitPosition t = Some b \<longrightarrow> b \<le> 7)
     \<and> ExpectedRegisterCount t \<le> RegisterCount t \<and> ByteOrder t \<noteq> ByteOrder_other []
     \<and> \<not> f64_eq (ScaleFactor t) f64_zero"

lemma f64_one_not_zero: "\<not> f64_eq f64_one f64_zero"
  by (simp add: f64_eq_def f64_dec_def fp_decode_def decode_mag_def float_consts signed_mag_def)

lemma default_scale_simps [simp]:
  "RegisterType (default_scale t) = RegisterType t"
  "BitPosition (default_scale t) = BitPosition t"
  "RegisterCount (default_scale t) = RegisterCount t"
  "ByteOrder (default_scale t) = ByteOrder t"
  "DataType (default_scale t) = DataType t"
  "ExpectedRegisterCount (default_scale t) = ExpectedRegisterCount t"
  "\<not> f64_eq (ScaleFactor (default_scale t)) f64_zero"
  using f64_one_not_zero by (auto simp: default_scale_def ExpectedRegisterCount_def)

lemma validate_modbus_tag_ok:
  "validate_modbus_tag t = (t', None) \<Longrightarrow> modbus_tag_ok (default_scale t')"
  by (auto simp: validate_modbus_tag_def modbus_tag_ok_def Let_def ExpectedRegisterCount_def
      linorder_not_less split: if_splits option.splits)

definition is_modbus :: "protocol \<Rightarrow> bool" where
  "is_modbus p \<longleftrightarrow> p = ProtocolModbusTCP \<or> p = ProtocolModbusRTU"

lemma ValidateForProtocol_modbus_ok:
  assumes "ValidateForProtocol t p = (t', None)" and "is_modbus p"
  shows "modbus_tag_ok t'"
proof -
  from assms obtain t1 where "validate_modbus_tag t = (t1, None)" and "t' = default_scale t1"
    by (auto simp: ValidateForProtocol_def is_modbus_def split: if_splits prod.splits option.splits)
  then show ?thesis by (simp add: validate_modbus_tag_ok)
qed

lemma validate_tags_all:
  assumes "validate_tags d p ts = (ts', None)"
  shows "list_all2 (\<lambda>t t'. ValidateForProtocol t p = (t', None)) ts ts'"
  using assms
  by (induction ts arbitrary: ts') (auto split: prod.splits option.splits)

text \<open>Validating what was validated changes nothing.\<close>

lemma default_scale_fixed [simp]: "default_scale (default_scale t) = default_scale t"
  by (simp add: default_scale_def f64_one_not_zero)

lemma default_scale_fields [simp]:
  "tag_ID (default_scale t) = tag_ID t" "tag_Name (default_scale t) = tag_Name t"
  "TopicSuffix (default_scale t) = TopicSuffix t" "DataType (default_scale t) = DataType t"
  "OPCNodeID (default_scale t) = OPCNodeID t" "S7Address (default_scale t) = S7Address t"
  by (simp_all add: default_scale_def)

lemma validate_modbus_tag_iff:
  "validate_modbus_tag t = (t1, None) \<longleftrightarrow>
     RegisterType t \<noteq> RegisterType_other [] \<and> \<not> (BitPosition t \<noteq> None \<and> 7 < the (BitPosition t))
     \<and> \<not> (RegisterCount t \<noteq> 0 \<and> RegisterCount t < ExpectedRegisterCount t)
     \<and> t1 = t\<lparr>RegisterCount := (if RegisterCount t = 0 then ExpectedRegisterCount t else RegisterCount t),
             ByteOrder := (if ByteOrder t = ByteOrder_other [] then ByteOrderBigEndian else ByteOrder t)\<rparr>"
  by (auto simp: validate_modbus_tag_def Let_def split del: option.splits)

lemma ExpectedRegisterCount_cong: "DataType s = DataType t \<Longrightarrow> ExpectedRegisterCount s = ExpectedRegisterCount t"
  by (simp add: ExpectedRegisterCount_def)

lemma validate_modbus_tag_idem:
  assumes "validate_modbus_tag t = (t1, None)"
  shows "validate_modbus_tag (default_scale t1) = (default_scale t1, None)"
proof -
  have e: "ExpectedRegisterCount (default_scale t1) = ExpectedRegisterCount t"
    using assms unfolding validate_modbus_tag_iff by (intro ExpectedRegisterCount_cong) simp
  have "\<not> RegisterCount t1 < ExpectedRegisterCount t" "RegisterCount t1 \<noteq> 0"
    using assms unfolding validate_modbus_tag_iff
    by (auto simp: ExpectedRegisterCount_def split: data_type.splits)
  then show ?thesis
    using assms unfolding validate_modbus_tag_iff e by simp
qed

lemma validate_modbus_tag_names:
  assumes "validate_modbus_tag t = (t1, None)"
  shows "tag_ID t1 = tag_ID t \<and> tag_Name t1 = tag_Name t \<and> TopicSuffix t1 = TopicSuffix t \<and> DataType t1 = DataType t"
  using assms unfolding validate_modbus_tag_iff by simp

definition common_ok :: "tag \<Rightarrow> bool" where
  "common_ok t \<longleftrightarrow> tag_ID t \<noteq> [] \<and> tag_Name t \<noteq> [] \<and> TopicSuffix t \<noteq> [] \<and> DataType t \<noteq> DataType_other []"

lemma ValidateForProtocol_ok:
  "ValidateForProtocol t p = (t', None) \<longleftrightarrow> common_ok t \<and> (case p of
       ProtocolOPCUA \<Rightarrow> OPCNodeID t \<noteq> [] \<and> t' = default_scale t
     | ProtocolS7 \<Rightarrow> S7Address t \<noteq> [] \<and> t' = default_scale t
     | ProtocolMQTT \<Rightarrow> t' = default_scale t
     | Protocol_other s \<Rightarrow> False
     | _ \<Rightarrow> (\<exists>t1. validate_modbus_tag t = (t1, None) \<and> t' = default_scale t1))"
  by (cases p; cases "validate_modbus_tag t"; cases "snd (validate_modbus_tag t)")
    (auto simp: ValidateForProtocol_def common_ok_def)

lemma ValidateForProtocol_idem:
  assumes "ValidateForProtocol t p = (t', None)"
  shows "ValidateForProtocol t' p = (t', None)"
proof -
  have "common_ok (default_scale t1)" if "validate_modbus_tag t = (t1, None)" "common_ok t" for t1
    using that validate_modbus_tag_names [OF that(1)] by (simp add: common_ok_def)
  moreover have "common_ok (default_scale t) = common_ok t" by (simp add: common_ok_def)
  ultimately show ?thesis
    using assms unfolding ValidateForProtocol_ok
    by (cases p) (auto dest: validate_modbus_tag_idem)
qed

lemma validate_tags_idem:
  "validate_tags d p ts = (ts', None) \<Longrightarrow> validate_tags d p ts' = (ts', None)"
  by (induction ts arbitrary: ts')
    (auto simp: ValidateForProtocol_idem split: prod.splits option.splits)

definition zero_connection :: connection_config where
  "zero_connection = \<lparr>Host = [], Port = 0, Timeout = 0, RetryCount = 0, RetryDelay = 0, SlaveID = 0,
     SerialPort = [], BaudRate = 0, DataBits = 0, Parity = [], StopBits = 0, OPCEndpointURL = [],
     OPCSecurityPolicy = [], OPCSecurityMode = [], OPCAuthMode = [], OPCUsername = [], OPCPassword = [],
     OPCCertFile = [], OPCKeyFile = [], OPCServerCertFile = [], OPCInsecureSkipVerify = False,
     OPCAutoSelectEndpoint = False, OPCApplicationName = [], OPCApplicationURI = [],
     OPCPublishInterval = 0, OPCSamplingInterval = 0, OPCUseSubscriptions = False, S7Rack = 0,
     S7Slot = 0, S7PDUSize = 0, S7Timeout = 0, CircuitBreaker = None\<rparr>"

text \<open>A device as a configuration file gives it, and what validation makes of it.\<close>

definition raw_tag :: tag where
  "raw_tag = zero_tag\<lparr>tag_ID := ''level'', tag_Name := ''Level'', TopicSuffix := ''level'', Address := 40,
     RegisterType := RegisterTypeHoldingRegister, DataType := DataTypeInt32\<rparr>"

definition int_tag :: tag where
  "int_tag = raw_tag\<lparr>RegisterCount := 2, ByteOrder := ByteOrderBigEndian, ScaleFactor := f64_one\<rparr>"

definition raw_device :: device where
  "raw_device = \<lparr>dev_ID = ''plc'', dev_Name = ''PLC'', dev_Description = [], dev_Protocol = ProtocolModbusTCP,
     Connection = zero_connection, Tags = [raw_tag], PollInterval = second, dev_Enabled = True,
     UNSPrefix = ''site'', dev_Metadata = Map.empty, CreatedAt = 0, UpdatedAt = 0, ConfigVersion = 0,
     ActiveConfigVersion = 0, LastKnownGoodVersion = 0\<rparr>"

lemma raw_tag_validates: "ValidateForProtocol raw_tag ProtocolModbusTCP = (int_tag, None)"
proof -
  have "f64_eq 0 f64_zero"
    by (simp add: f64_eq_def f64_dec_def fp_decode_def decode_mag_def float_consts signed_mag_def)
  then have "default_scale (int_tag\<lparr>ScaleFactor := 0\<rparr>) = int_tag"
    by (simp add: default_scale_def int_tag_def raw_tag_def zero_tag_def)
  moreover have "validate_modbus_tag raw_tag = (int_tag\<lparr>ScaleFactor := 0\<rparr>, None)"
    by (simp add: validate_modbus_tag_iff int_tag_def raw_tag_def zero_tag_def ExpectedRegisterCount_def)
  ultimately show ?thesis
    by (simp add: ValidateForProtocol_ok common_ok_def) (simp add: raw_tag_def zero_tag_def)
qed

lemma raw_device_validates: "ValidateDevice raw_device = (raw_device\<lparr>Tags := [int_tag]\<rparr>, None)"
  using raw_tag_validates by (simp add: ValidateDevice_def raw_device_def)

section \<open>Properties\<close>

text \<open>
  A device that passes validation under a Modbus protocol has only tags the Modbus adapter can
  work on: a register type, a bit position of at most 7, at least the registers the data type
  needs, a byte order and a scale factor other than zero.
\<close>

theorem validated_modbus_device:
  assumes "ValidateDevice d = (d', None)" and "is_modbus (dev_Protocol d)" and "t \<in> set (Tags d')"
  shows "modbus_tag_ok t"
proof -
  from assms(1) have "validate_tags (dev_ID d) (dev_Protocol d) (Tags d) = (Tags d', None)"
    by (auto simp: ValidateDevice_def split: if_splits prod.splits)
  from validate_tags_all [OF this] assms(3) obtain s where
    "ValidateForProtocol s (dev_Protocol d) = (t, None)"
    by (auto simp: list_all2_conv_all_nth in_set_conv_nth)
  with assms(2) show ?thesis by (rule ValidateForProtocol_modbus_ok [rotated])
qed

theorem validated_modbus_device_witness: "modbus_tag_ok int_tag"
  by (rule validated_modbus_device [OF raw_device_validates]) (simp_all add: is_modbus_def raw_device_def)

text \<open>
  Validation is idempotent: a device that passed, with the defaults filled in, passes again and
  is not changed.
\<close>

theorem validation_idempotent:
  assumes "ValidateDevice d = (d', None)"
  shows "ValidateDevice d' = (d', None)"
proof -
  from assms have ok: "validate_tags (dev_ID d) (dev_Protocol d) (Tags d) = (Tags d', None)"
    and d': "d' = d\<lparr>Tags := Tags d'\<rparr>"
    by (auto simp: ValidateDevice_def split: if_splits prod.splits)
  have "length (Tags d') = length (Tags d)" using validate_tags_all [OF ok] by (simp add: list_all2_lengthD)
  then have "ValidateDevice (d\<lparr>Tags := Tags d'\<rparr>) = (d\<lparr>Tags := Tags d'\<rparr>, None)"
    using assms validate_tags_idem [OF ok] by (simp add: ValidateDevice_def split: if_splits)
  with d' show ?thesis by simp
qed

theorem validation_idempotent_witness:
  "ValidateDevice (raw_device\<lparr>Tags := [int_tag]\<rparr>) = (raw_device\<lparr>Tags := [int_tag]\<rparr>, None)"
  by (rule validation_idempotent [OF raw_device_validates])

text \<open>
  A data point taken from the pool carries nothing of the point that was recycled.
\<close>

theorem recycled_point_is_fresh:
  "AcquireDataPoint (ReleaseDataPoint old) now i t topic v u q = AcquireDataPoint zero_data_point now i t topic v u q
   \<and> dp_RawValue (AcquireDataPoint old now i t topic v u q) = VNil"
  by (simp add: AcquireDataPoint_def)

end
