(* ===== verification/Byte_Codec.thy ===== *)
theory Byte_Codec
  imports Go_Value
begin

text \<open>
  \<open>encoding/binary\<close>'s big-endian routines: \<open>Uint16/32/64\<close> read the first bytes of a slice
  and panic on a shorter one, \<open>PutUint16/32/64\<close> fill a buffer of the width.  The interface the
  adapters rely on is the locale \<open>fixed_width_codec\<close>, interpreted at the three widths.
\<close>

section \<open>Big-endian numbers\<close>

fun be_bytes :: "nat \<Rightarrow> nat \<Rightarrow> bytes" where
  "be_bytes 0 n = []"
| "be_bytes (Suc k) n = word_of_nat (n div 256 ^ k) # be_bytes k n"

fun be_val :: "bytes \<Rightarrow> nat" where
  "be_val [] = 0"
| "be_val (b # bs) = unat b * 256 ^ length bs + be_val bs"

lemma length_be_bytes [simp]: "length (be_bytes k n) = k"
  by (induction k) auto

lemma be_val_bound: "be_val bs < 256 ^ length bs"
proof (induction bs)
  case (Cons b bs)
  have "unat b < 2 ^ LENGTH(8)" by (rule unsigned_less)
  then have "Suc (unat b) * 256 ^ length bs \<le> 256 * 256 ^ length bs"
    by (intro mult_right_mono) simp_all
  then have "unat b * 256 ^ length bs + 256 ^ length bs \<le> 256 * 256 ^ length bs" by simp
  with Cons have "unat b * 256 ^ length bs + be_val bs < 256 * 256 ^ length bs" by linarith
  then show ?case by simp
qed simp

lemma unat_byte_of_nat: "unat (word_of_nat n :: byte) = n mod 256"
  by (simp add: unat_of_nat)

lemma be_val_be_bytes: "be_val (be_bytes k n) = n mod 256 ^ k"
proof (induction k)
  case (Suc k)
  have "n mod (256 ^ k * 256) = 256 ^ k * (n div 256 ^ k mod 256) + n mod 256 ^ k"
    by (rule mod_mult2_eq)
  then show ?case using Suc by (simp add: unat_byte_of_nat mult.commute)
qed simp

lemma be_bytes_be_val: "be_bytes (length bs) (be_val bs) = bs"
proof -
  have gen: "be_bytes (length bs) (c * 256 ^ length bs + be_val bs) = bs" for c
  proof (induction bs arbitrary: c)
    case (Cons b bs)
    have d: "(c * 256 ^ length (b # bs) + be_val (b # bs)) div 256 ^ length bs = c * 256 + unat b"
    proof -
      have "c * 256 ^ length (b # bs) + be_val (b # bs) = be_val bs + (c * 256 + unat b) * 256 ^ length bs"
        by (simp add: algebra_simps)
      then show ?thesis using be_val_bound [of bs] by (simp only: div_mult_self1) simp
    qed
    have w: "(word_of_nat (c * 256 + unat b) :: byte) = b"
    proof -
      have z: "(256 :: byte) = 0" by simp
      show ?thesis by (simp only: of_nat_add of_nat_mult of_nat_numeral z mult_zero_right add_0_left) simp
    qed
    have "be_bytes (length bs) (c * 256 ^ length (b # bs) + be_val (b # bs)) = bs"
      using Cons.IH [of "c * 256 + unat b"] by (simp add: algebra_simps)
    then show ?case using d w by simp
  qed simp
  from gen [of 0] show ?thesis by simp
qed

section \<open>The three widths\<close>

definition Uint16 :: "bytes \<Rightarrow> u16 res" where
  "Uint16 bs = (if length bs < 2 then Panic else Ok (word_of_nat (be_val (take 2 bs))))"

definition Uint32 :: "bytes \<Rightarrow> u32 res" where
  "Uint32 bs = (if length bs < 4 then Panic else Ok (word_of_nat (be_val (take 4 bs))))"

definition Uint64 :: "bytes \<Rightarrow> u64 res" where
  "Uint64 bs = (if length bs < 8 then Panic else Ok (word_of_nat (be_val (take 8 bs))))"

definition PutUint16 :: "u16 \<Rightarrow> bytes" where
  "PutUint16 v = be_bytes 2 (unat v)"

definition PutUint32 :: "u32 \<Rightarrow> bytes" where
  "PutUint32 v = be_bytes 4 (unat v)"

definition PutUint64 :: "u64 \<Rightarrow> bytes" where
  "PutUint64 v = be_bytes 8 (unat v)"

section \<open>The interface\<close>

locale fixed_width_codec =
  fixes put :: "'a \<Rightarrow> bytes"
    and get :: "bytes \<Rightarrow> 'a res"
    and width :: nat
  assumes length_put: "length (put v) = width"
    and get_put: "get (put v @ rest) = Ok v"
    and get_short: "length bs < width \<Longrightarrow> get bs = Panic"
    and put_get: "length bs = width \<Longrightarrow> get bs = Ok v \<Longrightarrow> put v = bs"
begin

lemma roundtrip: "get (put v) = Ok v"
  using get_put [of v "[]"] by simp

lemma put_inj: "put v = put w \<Longrightarrow> v = w"
  by (metis roundtrip outcome.inject(1))

lemma get_prefix:
  assumes "length bs = width" and "get bs = Ok v"
  shows "get (bs @ rest) = Ok v"
proof -
  have "put v = bs" using assms by (rule put_get)
  then show ?thesis using get_put [of v rest] by simp
qed

end

lemma word_be_val:
  fixes v :: "'a::len word"
  assumes "LENGTH('a) = 8 * k"
  shows "word_of_nat (be_val (be_bytes k (unat v))) = v"
proof -
  have "unat v < 2 ^ LENGTH('a)" by (rule unsigned_less)
  then have "unat v < 256 ^ k" by (simp add: assms power_mult)
  then show ?thesis by (simp add: be_val_be_bytes)
qed

lemma unat_be_val:
  assumes "length bs = k" "LENGTH('a::len) = 8 * k"
  shows "be_bytes k (unat (word_of_nat (be_val bs) :: 'a word)) = bs"
proof -
  have "be_val bs < 2 ^ LENGTH('a)" using be_val_bound [of bs] by (simp add: assms power_mult)
  then have "unat (word_of_nat (be_val bs) :: 'a word) = be_val bs" by (simp add: unat_of_nat)
  then show ?thesis using be_bytes_be_val [of bs] assms by simp
qed

interpretation u16c: fixed_width_codec PutUint16 Uint16 2
  by unfold_locales
    (auto simp: PutUint16_def Uint16_def word_be_val unat_be_val)

interpretation u32c: fixed_width_codec PutUint32 Uint32 4
  by unfold_locales
    (auto simp: PutUint32_def Uint32_def word_be_val unat_be_val)

interpretation u64c: fixed_width_codec PutUint64 Uint64 8
  by unfold_locales
    (auto simp: PutUint64_def Uint64_def word_be_val unat_be_val)

lemmas codec_lengths [simp] = u16c.length_put u32c.length_put u64c.length_put
lemmas codec_roundtrips [simp] = u16c.roundtrip u32c.roundtrip u64c.roundtrip

end
