(* ===== verification/Modbus_Conversion.thy ===== *)
theory Modbus_Conversion
  imports Domain Byte_Codec
begin

text \<open>
  \<open>internal/adapter/modbus/conversion.go\<close>: typed values out of register bytes and back, the
  four byte orders, and linear scaling.  \<open>reorderBytes\<close> works in place: \<open>parseValue\<close> returns
  the buffer it leaves behind with its result.
\<close>

section \<open>Byte order\<close>

text \<open>The loop of the little-endian case: indices \<open>i\<close> up, \<open>j\<close> down.\<close>

function swap_ends :: "bytes \<Rightarrow> nat \<Rightarrow> nat \<Rightarrow> bytes" where
  "swap_ends d i j = (if i < j then swap_ends (d[i := d ! j, j := d ! i]) (i + 1) (j - 1) else d)"
  by pat_completeness auto
termination
  by (relation "measure (\<lambda>(d, i, j). j - i)") auto

text \<open>The loops of the two mixed orders, over the index \<open>i\<close>.\<close>

function swap_adjacent :: "bytes \<Rightarrow> nat \<Rightarrow> bytes" where
  "swap_adjacent d i =
     (if i + 1 < length d then swap_adjacent (d[i := d ! (i + 1), i + 1 := d ! i]) (i + 2) else d)"
  by pat_completeness auto
termination
  by (relation "measure (\<lambda>(d, i). length d - i)") auto

function swap_halves :: "bytes \<Rightarrow> nat \<Rightarrow> bytes" where
  "swap_halves d i =
     (if i + 3 < length d
      then swap_halves (d[i := d ! (i + 2), i + 1 := d ! (i + 3), i + 2 := d ! i, i + 3 := d ! (i + 1)])
             (i + 4)
      else d)"
  by pat_completeness auto
termination
  by (relation "measure (\<lambda>(d, i). length d - i)") auto

declare swap_ends.simps [simp del] swap_adjacent.simps [simp del] swap_halves.simps [simp del]

definition reorderBytes :: "bytes \<Rightarrow> byte_order \<Rightarrow> bytes" where
  "reorderBytes d ord =
     (let n = length d in
      if n \<le> 1 then d
      else case ord of
        ByteOrderBigEndian \<Rightarrow> d
      | ByteOrderLittleEndian \<Rightarrow> swap_ends d 0 (n - 1)
      | ByteOrderMidBigEndian \<Rightarrow> swap_adjacent d 0
      | ByteOrderMidLitEndian \<Rightarrow> swap_halves d 0
      | ByteOrder_other s \<Rightarrow> d)"

section \<open>Reading\<close>

definition is_bit_type :: "register_type \<Rightarrow> bool" where
  "is_bit_type r \<longleftrightarrow> r = RegisterTypeCoil \<or> r = RegisterTypeDiscreteInput"

text \<open>The switch on the data type, over the reordered bytes.\<close>

definition decode_ordered :: "tag \<Rightarrow> bytes \<Rightarrow> goval res" where
  "decode_ordered t d = (case DataType t of
       DataTypeBool \<Rightarrow> (case BitPosition t of
           Some b \<Rightarrow> bind_outcome (Uint16 d) (\<lambda>v. Ok (VBool (v AND push_bit (unat b) 1 \<noteq> 0)))
         | None \<Rightarrow> if length d < 2 then Panic else Ok (VBool (d ! 0 \<noteq> 0 \<or> d ! 1 \<noteq> 0)))
     | DataTypeInt16 \<Rightarrow> bind_outcome (Uint16 d) (\<lambda>v. Ok (VInt16 v))
     | DataTypeUInt16 \<Rightarrow> bind_outcome (Uint16 d) (\<lambda>v. Ok (VUint16 v))
     | DataTypeInt32 \<Rightarrow> bind_outcome (Uint32 d) (\<lambda>v. Ok (VInt32 v))
     | DataTypeUInt32 \<Rightarrow> bind_outcome (Uint32 d) (\<lambda>v. Ok (VUint32 v))
     | DataTypeInt64 \<Rightarrow> bind_outcome (Uint64 d) (\<lambda>v. Ok (VInt64 v))
     | DataTypeUInt64 \<Rightarrow> bind_outcome (Uint64 d) (\<lambda>v. Ok (VUint64 v))
     | DataTypeFloat32 \<Rightarrow> bind_outcome (Uint32 d) (\<lambda>v. Ok (VFloat32 v))
     | DataTypeFloat64 \<Rightarrow> bind_outcome (Uint64 d) (\<lambda>v. Ok (VFloat64 v))
     | DataType_other s \<Rightarrow> Err ErrInvalidDataType)"

text \<open>The second component is the buffer after the call.\<close>

definition parseValue :: "bytes \<Rightarrow> tag \<Rightarrow> goval res \<times> bytes" where
  "parseValue d t =
     (if length d = 0 then (Err ErrInvalidDataLength, d)
      else if is_bit_type (RegisterType t) then
        (case BitPosition t of
           Some b \<Rightarrow> (Ok (VBool (d ! 0 AND push_bit (unat b) 1 \<noteq> 0)), d)
         | None \<Rightarrow> (Ok (VBool (d ! 0 \<noteq> 0)), d))
      else
        let expectedLen = unat (RegisterCount t) * 2 in
        if length d < expectedLen then (Err ErrInvalidDataLength, d)
        else
          let orderedData = reorderBytes (take expectedLen d) (ByteOrder t)
          in (decode_ordered t orderedData, orderedData @ drop expectedLen d))"

section \<open>Scaling\<close>

definition no_scaling :: "tag \<Rightarrow> bool" where
  "no_scaling t \<longleftrightarrow> f64_eq (ScaleFactor t) f64_one \<and> f64_eq (Offset t) f64_zero"

definition scaled :: "tag \<Rightarrow> u64 \<Rightarrow> goval" where
  "scaled t x = VFloat64 (f64_add (f64_mul x (ScaleFactor t)) (Offset t))"

definition applyScaling :: "goval \<Rightarrow> tag \<Rightarrow> goval" where
  "applyScaling value t =
     (if no_scaling t then value
      else case value of
        VInt16 v \<Rightarrow> scaled t (f64_of_int (sint v))
      | VUint16 v \<Rightarrow> scaled t (f64_of_int (uint v))
      | VInt32 v \<Rightarrow> scaled t (f64_of_int (sint v))
      | VUint32 v \<Rightarrow> scaled t (f64_of_int (uint v))
      | VInt64 v \<Rightarrow> scaled t (f64_of_int (sint v))
      | VUint64 v \<Rightarrow> scaled t (f64_of_int (uint v))
      | VFloat32 v \<Rightarrow> scaled t (f64_of_f32 v)
      | VFloat64 v \<Rightarrow> scaled t v
      | VBool b \<Rightarrow> value
      | _ \<Rightarrow> value)"

definition reverseScaling :: "goval \<Rightarrow> tag \<Rightarrow> goval" where
  "reverseScaling value t =
     (if no_scaling t then value
      else case toFloat64 value of
        (floatVal, ok) \<Rightarrow>
          if \<not> ok then value
          else VFloat64 (f64_div (f64_sub floatVal (Offset t)) (ScaleFactor t)))"

section \<open>Writing\<close>

text \<open>The dynamic type's name, for \<open>%T\<close>.\<close>

fun go_type_name :: "goval \<Rightarrow> string" where
  "go_type_name VNil = ''<nil>''"
| "go_type_name (VBool _) = ''bool''"
| "go_type_name (VInt _) = ''int''"
| "go_type_name (VInt8 _) = ''int8''"
| "go_type_name (VInt16 _) = ''int16''"
| "go_type_name (VInt32 _) = ''int32''"
| "go_type_name (VInt64 _) = ''int64''"
| "go_type_name (VUint _) = ''uint''"
| "go_type_name (VUint8 _) = ''uint8''"
| "go_type_name (VUint16 _) = ''uint16''"
| "go_type_name (VUint32 _) = ''uint32''"
| "go_type_name (VUint64 _) = ''uint64''"
| "go_type_name (VFloat32 _) = ''float32''"
| "go_type_name (VFloat64 _) = ''float64''"
| "go_type_name (VString _) = ''string''"
| "go_type_name (VList _) = ''[]interface {}''"
| "go_type_name (VObject _) = ''map[string]interface {}''"

definition cannot_convert :: "goval \<Rightarrow> string \<Rightarrow> err" where
  "cannot_convert v target =
     Wrap ErrInvalidWriteValue ('': cannot convert '' @ go_type_name v @ '' to '' @ target)"

text \<open>The switch on the data type; \<open>value\<close> is the caller's value, named in the errors.\<close>

definition encode_actual :: "arch \<Rightarrow> goval \<Rightarrow> goval \<Rightarrow> tag \<Rightarrow> bytes res" where
  "encode_actual ar value actualValue t = (case DataType t of
       DataTypeBool \<Rightarrow> (case toBool actualValue of
           (b, ok) \<Rightarrow> Ok (if ok \<and> b then PutUint16 1 else PutUint16 0))
     | DataTypeInt16 \<Rightarrow> (case toInt64 ar actualValue of
           (v, ok) \<Rightarrow> if ok then Ok (PutUint16 (ucast v)) else Err (cannot_convert value ''int16''))
     | DataTypeUInt16 \<Rightarrow> (case toInt64 ar actualValue of
           (v, ok) \<Rightarrow> if ok then Ok (PutUint16 (ucast v)) else Err (cannot_convert value ''uint16''))
     | DataTypeInt32 \<Rightarrow> (case toInt64 ar actualValue of
           (v, ok) \<Rightarrow> if ok then Ok (PutUint32 (ucast v)) else Err (cannot_convert value ''int32''))
     | DataTypeUInt32 \<Rightarrow> (case toInt64 ar actualValue of
           (v, ok) \<Rightarrow> if ok then Ok (PutUint32 (ucast v)) else Err (cannot_convert value ''uint32''))
     | DataTypeInt64 \<Rightarrow> (case toInt64 ar actualValue of
           (v, ok) \<Rightarrow> if ok then Ok (PutUint64 v) else Err (cannot_convert value ''int64''))
     | DataTypeUInt64 \<Rightarrow> (case toUint64 ar actualValue of
           (v, ok) \<Rightarrow> if ok then Ok (PutUint64 v) else Err (cannot_convert value ''uint64''))
     | DataTypeFloat32 \<Rightarrow> (case toFloat64 actualValue of
           (v, ok) \<Rightarrow> if ok then Ok (PutUint32 (f32_of_f64 v)) else Err (cannot_convert value ''float32''))
     | DataTypeFloat64 \<Rightarrow> (case toFloat64 actualValue of
           (v, ok) \<Rightarrow> if ok then Ok (PutUint64 v) else Err (cannot_convert value ''float64''))
     | DataType_other s \<Rightarrow> Err (Wrap ErrInvalidDataType ('': unsupported data type '' @ s)))"

definition valueToBytes :: "arch \<Rightarrow> goval \<Rightarrow> tag \<Rightarrow> bytes res" where
  "valueToBytes ar value t =
     bind_outcome (encode_actual ar value (reverseScaling value t) t)
       (\<lambda>bytes. Ok (reorderBytes bytes (ByteOrder t)))"

section \<open>The byte orders, specified\<close>

fun swap2 :: "bytes \<Rightarrow> bytes" where
  "swap2 (a # b # xs) = b # a # swap2 xs"
| "swap2 xs = xs"

fun swap4 :: "bytes \<Rightarrow> bytes" where
  "swap4 (a # b # c # d # xs) = c # d # a # b # swap4 xs"
| "swap4 xs = xs"

lemma length_swap_ends [simp]: "length (swap_ends d i j) = length d"
  by (induction d i j rule: swap_ends.induct) (subst swap_ends.simps, simp)

lemma nth_swap_ends:
  "j < length d \<Longrightarrow> k < length d \<Longrightarrow>
   swap_ends d i j ! k = (if i \<le> k \<and> k \<le> j then d ! (i + j - k) else d ! k)"
proof (induction d i j rule: swap_ends.induct)
  case (1 d i j)
  show ?case
  proof (cases "i < j")
    case True
    have "swap_ends d i j ! k = swap_ends (d[i := d ! j, j := d ! i]) (i + 1) (j - 1) ! k"
      using True by (subst swap_ends.simps) simp
    also have "\<dots> = (if i + 1 \<le> k \<and> k \<le> j - 1 then d[i := d ! j, j := d ! i] ! (i + 1 + (j - 1) - k)
                    else d[i := d ! j, j := d ! i] ! k)"
      using True "1.prems" by (intro "1.IH") auto
    also have "\<dots> = (if i \<le> k \<and> k \<le> j then d ! (i + j - k) else d ! k)"
      using True "1.prems" by (auto simp: nth_list_update)
    finally show ?thesis .
  next
    case False
    then show ?thesis using "1.prems" by (subst swap_ends.simps) (auto dest: le_antisym)
  qed
qed

lemma swap_ends_rev: "d \<noteq> [] \<Longrightarrow> swap_ends d 0 (length d - 1) = rev d"
  by (rule nth_equalityI) (auto simp: nth_swap_ends rev_nth)

lemma swap_adjacent_from:
  "i \<le> length d \<Longrightarrow> swap_adjacent d i = take i d @ swap2 (drop i d)"
proof (induction d i rule: swap_adjacent.induct)
  case (1 d i)
  show ?case
  proof (cases "i + 1 < length d")
    case True
    then obtain a b xs where d: "d = take i d @ a # b # xs" and l: "length (take i d) = i"
      by (metis Cons_nth_drop_Suc Suc_eq_plus1 Suc_lessD append_take_drop_id length_take less_imp_le min.absorb2)
    define p where "p = take i d"
    have d': "d = p @ a # b # xs" and lp: "length p = i" using d l by (simp_all add: p_def)
    have "d[i := d ! (i + 1), i + 1 := d ! i] = p @ b # a # xs"
      by (simp add: d' nth_append list_update_append lp)
    then show ?thesis
      using True "1.IH" by (subst swap_adjacent.simps) (simp add: d' lp)
  next
    case False
    then have "length (drop i d) \<le> 1" by simp
    then have "swap2 (drop i d) = drop i d"
      by (cases "drop i d" rule: swap2.cases) auto
    then show ?thesis using False by (subst swap_adjacent.simps) simp
  qed
qed

lemma swap_halves_from:
  "i \<le> length d \<Longrightarrow> swap_halves d i = take i d @ swap4 (drop i d)"
proof (induction d i rule: swap_halves.induct)
  case (1 d i)
  show ?case
  proof (cases "i + 3 < length d")
    case True
    define p where "p = take i d"
    have lp: "length p = i" using True by (simp add: p_def)
    obtain a b c e xs where x: "drop i d = a # b # c # e # xs"
      using True by (cases "drop i d" rule: swap4.cases) (auto dest: arg_cong [of _ _ length])
    have d': "d = p @ a # b # c # e # xs" using x by (metis append_take_drop_id p_def)
    have "d[i := d ! (i + 2), i + 1 := d ! (i + 3), i + 2 := d ! i, i + 3 := d ! (i + 1)]
        = p @ c # e # a # b # xs"
      by (simp add: d' nth_append list_update_append lp)
    then show ?thesis
      using True "1.IH" by (subst swap_halves.simps) (simp add: d' lp)
  next
    case False
    then have "length (drop i d) \<le> 3" by simp
    then have "swap4 (drop i d) = drop i d"
      by (cases "drop i d" rule: swap4.cases) auto
    then show ?thesis using False by (subst swap_halves.simps) simp
  qed
qed

lemma reorderBytes_spec:
  "reorderBytes d ord = (case ord of
       ByteOrderLittleEndian \<Rightarrow> rev d
     | ByteOrderMidBigEndian \<Rightarrow> swap2 d
     | ByteOrderMidLitEndian \<Rightarrow> swap4 d
     | _ \<Rightarrow> d)"
proof (cases "length d \<le> 1")
  case True
  then show ?thesis
    by (cases d rule: swap4.cases) (auto simp: reorderBytes_def split: byte_order.splits)
next
  case False
  then have "d \<noteq> []" by auto
  then show ?thesis
    using False swap_adjacent_from [of 0 d] swap_halves_from [of 0 d] swap_ends_rev [of d]
    by (auto simp: reorderBytes_def split: byte_order.splits)
qed

lemma swap2_swap2 [simp]: "swap2 (swap2 d) = d"
  by (induction d rule: swap2.induct) auto

lemma swap4_swap4 [simp]: "swap4 (swap4 d) = d"
  by (induction d rule: swap4.induct) auto

lemma length_swap2 [simp]: "length (swap2 d) = length d"
  by (induction d rule: swap2.induct) auto

lemma length_swap4 [simp]: "length (swap4 d) = length d"
  by (induction d rule: swap4.induct) auto

lemma reorder_involution [simp]: "reorderBytes (reorderBytes d ord) ord = d"
  by (simp add: reorderBytes_spec split: byte_order.splits)

lemma length_reorder [simp]: "length (reorderBytes d ord) = length d"
  by (simp add: reorderBytes_spec split: byte_order.splits)

section \<open>Reading never panics on a validated tag\<close>

lemma unat_ExpectedRegisterCount:
  "unat (ExpectedRegisterCount t) = (case DataType t of
       DataTypeInt32 \<Rightarrow> 2 | DataTypeUInt32 \<Rightarrow> 2 | DataTypeFloat32 \<Rightarrow> 2
     | DataTypeInt64 \<Rightarrow> 4 | DataTypeUInt64 \<Rightarrow> 4 | DataTypeFloat64 \<Rightarrow> 4 | _ \<Rightarrow> 1)"
  by (simp add: ExpectedRegisterCount_def split: data_type.splits)

lemma decode_ordered_no_panic:
  "2 * unat (ExpectedRegisterCount t) \<le> length d \<Longrightarrow> decode_ordered t d \<noteq> Panic"
  by (auto simp: decode_ordered_def unat_ExpectedRegisterCount Uint16_def Uint32_def Uint64_def
      split: data_type.splits option.splits)

lemma parseValue_no_panic:
  assumes "ExpectedRegisterCount t \<le> RegisterCount t"
  shows "fst (parseValue d t) \<noteq> Panic"
proof -
  have "unat (ExpectedRegisterCount t) \<le> unat (RegisterCount t)"
    using assms by (simp add: word_le_nat_alt)
  then show ?thesis
    by (auto simp: parseValue_def Let_def decode_ordered_no_panic split: option.splits)
qed

lemma length_parseValue_buffer [simp]: "length (snd (parseValue d t)) = length d"
  by (auto simp: parseValue_def Let_def split: option.splits)

section \<open>Writing and reading back\<close>

text \<open>The value types a data type reads as, the NaN float32 apart.\<close>

definition typed_as :: "data_type \<Rightarrow> goval \<Rightarrow> bool" where
  "typed_as dt v = (case dt of
       DataTypeBool \<Rightarrow> (case v of VBool b \<Rightarrow> True | _ \<Rightarrow> False)
     | DataTypeInt16 \<Rightarrow> (case v of VInt16 x \<Rightarrow> True | _ \<Rightarrow> False)
     | DataTypeUInt16 \<Rightarrow> (case v of VUint16 x \<Rightarrow> True | _ \<Rightarrow> False)
     | DataTypeInt32 \<Rightarrow> (case v of VInt32 x \<Rightarrow> True | _ \<Rightarrow> False)
     | DataTypeUInt32 \<Rightarrow> (case v of VUint32 x \<Rightarrow> True | _ \<Rightarrow> False)
     | DataTypeInt64 \<Rightarrow> (case v of VInt64 x \<Rightarrow> True | _ \<Rightarrow> False)
     | DataTypeUInt64 \<Rightarrow> (case v of VUint64 x \<Rightarrow> True | _ \<Rightarrow> False)
     | DataTypeFloat32 \<Rightarrow> (case v of VFloat32 x \<Rightarrow> f32_dec x \<noteq> FNaN | _ \<Rightarrow> False)
     | DataTypeFloat64 \<Rightarrow> (case v of VFloat64 x \<Rightarrow> True | _ \<Rightarrow> False)
     | DataType_other s \<Rightarrow> False)"

lemma typed_as_shapes:
  "typed_as DataTypeBool v \<longleftrightarrow> (\<exists>b. v = VBool b)"
  "typed_as DataTypeInt16 v \<longleftrightarrow> (\<exists>x. v = VInt16 x)"
  "typed_as DataTypeUInt16 v \<longleftrightarrow> (\<exists>x. v = VUint16 x)"
  "typed_as DataTypeInt32 v \<longleftrightarrow> (\<exists>x. v = VInt32 x)"
  "typed_as DataTypeUInt32 v \<longleftrightarrow> (\<exists>x. v = VUint32 x)"
  "typed_as DataTypeInt64 v \<longleftrightarrow> (\<exists>x. v = VInt64 x)"
  "typed_as DataTypeUInt64 v \<longleftrightarrow> (\<exists>x. v = VUint64 x)"
  "typed_as DataTypeFloat32 v \<longleftrightarrow> (\<exists>x. v = VFloat32 x \<and> f32_dec x \<noteq> FNaN)"
  "typed_as DataTypeFloat64 v \<longleftrightarrow> (\<exists>x. v = VFloat64 x)"
  "\<not> typed_as (DataType_other s) v"
  by (cases v; simp add: typed_as_def)+

text \<open>A tag whose register count is exactly what its type needs.\<close>

definition exact_count :: "tag \<Rightarrow> bool" where
  "exact_count t \<longleftrightarrow> \<not> is_bit_type (RegisterType t) \<and> RegisterCount t = ExpectedRegisterCount t"

lemma length_encode_actual:
  "encode_actual ar v a t = Ok bs \<Longrightarrow> length bs = 2 * unat (ExpectedRegisterCount t)"
  by (auto simp: encode_actual_def unat_ExpectedRegisterCount
      split: data_type.splits prod.splits if_splits)

text \<open>Reading what was written undoes the reordering and decodes the encoded bytes.\<close>

lemma parse_of_write:
  assumes ex: "exact_count t" and w: "valueToBytes ar v t = Ok bs"
  obtains enc where "encode_actual ar v (reverseScaling v t) t = Ok enc"
    and "fst (parseValue bs t) = decode_ordered t enc"
proof -
  from w obtain enc where enc: "encode_actual ar v (reverseScaling v t) t = Ok enc"
    and bs: "bs = reorderBytes enc (ByteOrder t)"
    by (auto simp: valueToBytes_def go_simps)
  have len: "length enc = 2 * unat (RegisterCount t)"
    using length_encode_actual [OF enc] ex by (simp add: exact_count_def)
  have "0 < unat (ExpectedRegisterCount t)"
    by (simp add: unat_ExpectedRegisterCount split: data_type.splits)
  then have "fst (parseValue bs t) = decode_ordered t enc"
    using len ex by (simp add: parseValue_def bs exact_count_def Let_def)
  with enc show thesis by (rule that)
qed

lemma ucast_word_of_int:
  "LENGTH('b::len) \<le> LENGTH('a::len) \<Longrightarrow> (ucast (word_of_int i :: 'a word) :: 'b word) = word_of_int i"
  by (simp add: ucast_down_wi is_down)

lemma narrow_widen:
  fixes x :: "'b::len word"
  assumes "LENGTH('b) \<le> LENGTH('a::len)"
  shows "ucast (scast x :: 'a word) = x" "ucast (ucast x :: 'a word) = x"
proof -
  have "(scast x :: 'a word) = word_of_int (sint x)" by simp
  then show "ucast (scast x :: 'a word) = x" by (simp only: ucast_word_of_int [OF assms]) simp
  have "(ucast x :: 'a word) = word_of_int (uint x)" by simp
  then show "ucast (ucast x :: 'a word) = x" by (simp only: ucast_word_of_int [OF assms]) simp
qed

lemma PutUint16_flags: "PutUint16 0 = [0, 0]" "PutUint16 1 = [0, 1]"
  by (simp_all add: PutUint16_def numeral_2_eq_2)

lemma roundtrip_typed:
  assumes ex: "exact_count t" and ns: "no_scaling t" and ty: "typed_as (DataType t) v"
    and bp: "DataType t = DataTypeBool \<Longrightarrow> BitPosition t = None"
  shows "\<exists>bs. valueToBytes ar v t = Ok bs \<and> fst (parseValue bs t) = Ok v"
proof -
  have rs: "reverseScaling v t = v" using ns by (simp add: reverseScaling_def)
  have "\<exists>enc. encode_actual ar v v t = Ok enc \<and> decode_ordered t enc = Ok v"
  proof (cases "DataType t")
    case DataTypeBool
    then obtain b where "v = VBool b" using ty by (auto simp: typed_as_shapes)
    then show ?thesis
      using DataTypeBool bp
      by (cases b) (simp_all add: encode_actual_def decode_ordered_def PutUint16_flags)
  qed (use ty in \<open>auto simp: typed_as_shapes encode_actual_def decode_ordered_def
        f32_widen_narrow narrow_widen\<close>)
  then obtain enc where enc: "encode_actual ar v v t = Ok enc" "decode_ordered t enc = Ok v" by blast
  then obtain bs where "valueToBytes ar v t = Ok bs"
    by (simp add: valueToBytes_def rs)
  then show ?thesis using enc by (metis ex parse_of_write outcome.inject(1) rs)
qed

text \<open>The integer a value holds, and the integers a data type holds.\<close>

fun goval_int :: "goval \<Rightarrow> int option" where
  "goval_int (VInt16 v) = Some (sint v)"
| "goval_int (VUint16 v) = Some (uint v)"
| "goval_int (VInt32 v) = Some (sint v)"
| "goval_int (VUint32 v) = Some (uint v)"
| "goval_int (VInt64 v) = Some (sint v)"
| "goval_int (VUint64 v) = Some (uint v)"
| "goval_int _ = None"

fun in_type_range :: "data_type \<Rightarrow> int \<Rightarrow> bool" where
  "in_type_range DataTypeInt16 i = (- (2 ^ 15) \<le> i \<and> i < 2 ^ 15)"
| "in_type_range DataTypeUInt16 i = (0 \<le> i \<and> i < 2 ^ 16)"
| "in_type_range DataTypeInt32 i = (- (2 ^ 31) \<le> i \<and> i < 2 ^ 31)"
| "in_type_range DataTypeUInt32 i = (0 \<le> i \<and> i < 2 ^ 32)"
| "in_type_range DataTypeInt64 i = (- (2 ^ 63) \<le> i \<and> i < 2 ^ 63)"
| "in_type_range DataTypeUInt64 i = (0 \<le> i \<and> i < 2 ^ 64)"
| "in_type_range _ i = False"

lemma sint_in_range:
  "- (2 ^ (LENGTH('a) - 1)) \<le> i \<Longrightarrow> i < 2 ^ (LENGTH('a) - 1) \<Longrightarrow> sint (word_of_int i :: 'a::len word) = i"
  by (simp add: signed_take_bit_int_eq_self sint_sbintrunc')

lemma uint_in_range:
  "0 \<le> i \<Longrightarrow> i < 2 ^ LENGTH('a) \<Longrightarrow> uint (word_of_int i :: 'a::len word) = i"
  by (simp add: take_bit_int_eq_self uint_word_of_int_eq)

lemma roundtrip_json_int:
  assumes ex: "exact_count t" and ns: "no_scaling t" and r: "in_type_range (DataType t) i"
    and small: "\<bar>i\<bar> < 2 ^ 53"
  shows "\<exists>bs v. valueToBytes ar (VFloat64 (f64_of_int i)) t = Ok bs \<and> fst (parseValue bs t) = Ok v
     \<and> goval_int v = Some i"
proof -
  let ?x = "VFloat64 (f64_of_int i)"
  have rs: "reverseScaling ?x t = ?x" using ns by (simp add: reverseScaling_def)
  have s: "fp_to_i64 ar (f64_dec (f64_of_int i)) = word_of_int i" using small by (rule fp_to_i64_of_int)
  have u: "0 \<le> i \<Longrightarrow> fp_to_u64 ar (f64_dec (f64_of_int i)) = word_of_int i"
    using small by (simp add: fp_to_u64_of_int)
  have "\<exists>enc v. encode_actual ar ?x ?x t = Ok enc \<and> decode_ordered t enc = Ok v \<and> goval_int v = Some i"
    using r s u
    by (cases "DataType t")
      (simp_all add: encode_actual_def decode_ordered_def ucast_word_of_int sint_in_range uint_in_range)
  then obtain enc v where enc: "encode_actual ar ?x ?x t = Ok enc" "decode_ordered t enc = Ok v"
    "goval_int v = Some i" by blast
  then obtain bs where "valueToBytes ar ?x t = Ok bs"
    by (simp add: valueToBytes_def rs)
  then show ?thesis using enc by (metis ex parse_of_write outcome.inject(1) rs)
qed

lemma write_bit_reads_false:
  assumes ex: "exact_count t" and ns: "no_scaling t" and dt: "DataType t = DataTypeBool"
    and b: "BitPosition t = Some b" "0 < unat b" "unat b < 16"
  shows "\<exists>bs. valueToBytes ar (VBool v) t = Ok bs \<and> fst (parseValue bs t) = Ok (VBool False)"
proof -
  have rs: "reverseScaling (VBool v) t = VBool v" using ns by (simp add: reverseScaling_def)
  have "encode_actual ar (VBool v) (VBool v) t = Ok (PutUint16 (if v then 1 else 0))"
    using dt by (cases v) (simp_all add: encode_actual_def)
  moreover have "(if v then 1 else 0 :: u16) AND push_bit (unat b) 1 = 0"
    using b by (auto intro!: bit_word_eqI simp: bit_simps)
  ultimately have "encode_actual ar (VBool v) (reverseScaling (VBool v) t) t = Ok (PutUint16 (if v then 1 else 0))"
    "decode_ordered t (PutUint16 (if v then 1 else 0)) = Ok (VBool False)"
    using dt b rs by (simp_all add: decode_ordered_def)
  then show ?thesis
    using parse_of_write [OF ex, of ar "VBool v"] by (fastforce simp: valueToBytes_def)
qed

section \<open>Properties\<close>

text \<open>
  The in-place loops of the four byte orders compute the orders' specifications (identity,
  reversal, the bytes of each pair swapped, the halves of each group of four swapped), and
  reordering twice gives the bytes back: reading undoes what writing does.
\<close>

theorem byte_orders:
  "reorderBytes d ord = (case ord of ByteOrderLittleEndian \<Rightarrow> rev d | ByteOrderMidBigEndian \<Rightarrow> swap2 d
       | ByteOrderMidLitEndian \<Rightarrow> swap4 d | _ \<Rightarrow> d)
   \<and> reorderBytes (reorderBytes d ord) ord = d"
  by (rule conjI [OF reorderBytes_spec reorder_involution])

text \<open>
  Decoding never panics on a tag that passed validation, whatever bytes the device returns: a
  short response is an error, never an index out of range.
\<close>

theorem decode_never_panics:
  assumes "modbus_tag_ok t"
  shows "fst (parseValue d t) \<noteq> Panic"
  using assms by (simp add: modbus_tag_ok_def parseValue_no_panic)

theorem decode_never_panics_witness: "fst (parseValue [1, 2, 3] int_tag) \<noteq> Panic"
  by (rule decode_never_panics)
    (simp add: modbus_tag_ok_def int_tag_def raw_tag_def zero_tag_def ExpectedRegisterCount_def f64_one_not_zero)

text \<open>
  A boolean written to a register tag with a bit position above 0 is read back as false: the
  write encodes the whole register as 0 or 1 and ignores the bit.
\<close>

theorem bit_write_reads_false:
  assumes "exact_count t" and "no_scaling t" and "DataType t = DataTypeBool"
    and "BitPosition t = Some b" and "0 < unat b" and "unat b < 16"
  shows "\<exists>bs. valueToBytes ar (VBool v) t = Ok bs \<and> fst (parseValue bs t) = Ok (VBool False)"
  using assms by (rule write_bit_reads_false)

theorem bit_write_reads_false_witness:
  "\<exists>bs. valueToBytes \<lparr>oob_i64 = (\<lambda>x. 0), oob_u64 = (\<lambda>x. 0)\<rparr> (VBool True) (int_tag\<lparr>DataType := DataTypeBool, RegisterCount := 1, BitPosition := Some 3\<rparr>) = Ok bs
     \<and> fst (parseValue bs (int_tag\<lparr>DataType := DataTypeBool, RegisterCount := 1, BitPosition := Some 3\<rparr>)) = Ok (VBool False)"
  by (rule bit_write_reads_false [where b = 3])
    (simp_all add: exact_count_def is_bit_type_def no_scaling_def int_tag_def raw_tag_def zero_tag_def
      ExpectedRegisterCount_def f64_eq_def f64_dec_def fp_decode_def decode_mag_def float_consts signed_mag_def)

end
