(* ===== verification/Retry_Loop.thy ===== *)
theory Retry_Loop
  imports Domain
begin

text \<open>
  The retry loop that \<open>ReadTag\<close> and \<open>WriteTag\<close> of the Modbus and S7 clients share:
  \<open>for attempt := 0; attempt <= MaxRetries; attempt++\<close>, with a backoff and a wait that the
  context can cut short before every attempt but the first, an early exit on success and on an
  error that is not retryable, and a reconnect on a connection error.  The hooks are what the
  clients put in; how the loop ended is the result, and what each client does then is in its own
  theory.
\<close>

section \<open>Connecting and backing off\<close>

text \<open>\<open>handler.Connect()\<close> raced against \<open>ctx.Done()\<close>.\<close>

datatype connect_race = ConnectDone "err option" | ConnectCtxDone err

text \<open>
  The exponential delay \<open>RetryDelay * time.Duration(1<<uint(attempt))\<close>, in 64-bit arithmetic, capped
  at ten seconds.
\<close>

definition wrap64 :: "int \<Rightarrow> int" where
  "wrap64 i = (i + 2 ^ 63) mod 2 ^ 64 - 2 ^ 63"

definition backoff_delay :: "duration \<Rightarrow> nat \<Rightarrow> duration" where
  "backoff_delay retryDelay attempt =
     (let delay = wrap64 (retryDelay * wrap64 (2 ^ attempt))
      in if 10 * second < delay then 10 * second else delay)"

lemma wrap64_id: "- (2 ^ 63) \<le> i \<Longrightarrow> i < 2 ^ 63 \<Longrightarrow> wrap64 i = i"
  by (simp add: wrap64_def)

lemma backoff_delay_small:
  assumes "0 < d" "d * 2 ^ k < 2 ^ 63"
  shows "backoff_delay d k = min (10 * second) (d * 2 ^ k)"
proof -
  have "(2::int) ^ k \<le> d * 2 ^ k" using assms(1) by simp
  then have "(2::int) ^ k < 2 ^ 63" using assms(2) by (rule le_less_trans)
  then have "wrap64 (2 ^ k) = 2 ^ k" by (intro wrap64_id) (auto intro: order_trans [of _ 0])
  moreover have "wrap64 (d * 2 ^ k) = d * 2 ^ k"
    using assms by (intro wrap64_id) (auto intro: order_trans [of _ 0])
  ultimately show ?thesis by (simp add: backoff_delay_def Let_def min_def)
qed

section \<open>The loop\<close>

record ('s, 'a) retry_hooks =
  h_backoff :: "nat \<Rightarrow> 's \<Rightarrow> duration res \<times> 's"
  h_wait :: "duration \<Rightarrow> 's \<Rightarrow> err option \<times> 's"
  h_op :: "'s \<Rightarrow> 'a res \<times> 's"
  h_retryable :: "err \<Rightarrow> bool"
  h_connection :: "err \<Rightarrow> bool"
  h_reconnect :: "'s \<Rightarrow> 's"

text \<open>
  \<open>NotTried\<close>: the loop body never ran (a negative \<open>MaxRetries\<close>), so \<open>err\<close> is still nil after it.
\<close>

datatype 'a retry_end =
    Succeeded 'a
  | Cancelled err
  | Fatal err
  | Exhausted err
  | NotTried
  | Crashed

definition before_attempt :: "('s, 'a) retry_hooks \<Rightarrow> nat \<Rightarrow> 's \<Rightarrow> err option res \<times> 's" where
  "before_attempt h attempt s =
     (if attempt = 0 then (Ok None, s)
      else case h_backoff h attempt s of
        (Ok d, s1) \<Rightarrow> (case h_wait h d s1 of (c, s2) \<Rightarrow> (Ok c, s2))
      | (Err e, s1) \<Rightarrow> (Err e, s1)
      | (Panic, s1) \<Rightarrow> (Panic, s1))"

fun retry_loop ::
  "('s, 'a) retry_hooks \<Rightarrow> nat \<Rightarrow> nat \<Rightarrow> err option \<Rightarrow> 's \<Rightarrow> 'a retry_end \<times> 's" where
  "retry_loop h 0 attempt prev s =
     ((case prev of None \<Rightarrow> NotTried | Some e \<Rightarrow> Exhausted e), s)"
| "retry_loop h (Suc n) attempt prev s =
     (case before_attempt h attempt s of
        (Ok None, s1) \<Rightarrow>
          (case h_op h s1 of
             (Ok x, s2) \<Rightarrow> (Succeeded x, s2)
           | (Panic, s2) \<Rightarrow> (Crashed, s2)
           | (Err e, s2) \<Rightarrow>
               if \<not> h_retryable h e then (Fatal e, s2)
               else retry_loop h n (attempt + 1) (Some e)
                      (if h_connection h e then h_reconnect h s2 else s2))
      | (Ok (Some c), s1) \<Rightarrow> (Cancelled c, s1)
      | (Err e, s1) \<Rightarrow> (Cancelled e, s1)
      | (Panic, s1) \<Rightarrow> (Crashed, s1))"

definition run_retries :: "('s, 'a) retry_hooks \<Rightarrow> int \<Rightarrow> 's \<Rightarrow> 'a retry_end \<times> 's" where
  "run_retries h maxRetries s = retry_loop h (nat (maxRetries + 1)) 0 None s"

section \<open>Facts about every use\<close>

lemma retry_loop_tried: "prev \<noteq> None \<or> 0 < n \<Longrightarrow> fst (retry_loop h n k prev s) \<noteq> NotTried"
  by (induction h n k prev s rule: retry_loop.induct)
    (auto split: option.splits prod.splits outcome.splits)

lemma run_retries_NotTried: "fst (run_retries h m s) = NotTried \<longleftrightarrow> m < 0"
proof -
  have "fst (run_retries h m s) \<noteq> NotTried" if "0 \<le> m"
    using that by (simp add: run_retries_def retry_loop_tried)
  moreover have "fst (run_retries h m s) = NotTried" if "m < 0"
    using that by (simp add: run_retries_def)
  ultimately show ?thesis by (meson linorder_not_less)
qed

lemma run_retries_negative: "m < 0 \<Longrightarrow> run_retries h m s = (NotTried, s)"
  by (simp add: run_retries_def)

text \<open>An error that is not retryable ends the loop at the first attempt.\<close>

lemma run_retries_fatal_first:
  assumes "0 \<le> m" and "h_op h s = (Err e, s')" and "\<not> h_retryable h e"
  shows "run_retries h m s = (Fatal e, s')"
proof -
  obtain n where "nat (m + 1) = Suc n" using assms(1) by (cases "nat (m + 1)") auto
  then show ?thesis using assms by (simp add: run_retries_def before_attempt_def)
qed

lemma run_retries_first_ok:
  assumes "0 \<le> m" and "h_op h s = (Ok x, s')"
  shows "run_retries h m s = (Succeeded x, s')"
proof -
  obtain n where "nat (m + 1) = Suc n" using assms(1) by (cases "nat (m + 1)") auto
  then show ?thesis using assms by (simp add: run_retries_def before_attempt_def)
qed

lemma retry_loop_Exhausted_retryable:
  "fst (retry_loop h n k prev s) = Exhausted e \<Longrightarrow> (\<forall>x. prev = Some x \<longrightarrow> h_retryable h x)
     \<Longrightarrow> h_retryable h e"
  by (induction h n k prev s rule: retry_loop.induct)
    (auto split: option.splits prod.splits outcome.splits if_splits)

text \<open>What every hook keeps, the loop keeps.\<close>

definition hooks_keep :: "('s \<Rightarrow> bool) \<Rightarrow> ('s, 'a) retry_hooks \<Rightarrow> bool" where
  "hooks_keep I h \<longleftrightarrow> (\<forall>s. I s \<longrightarrow> (\<forall>k. I (snd (h_backoff h k s))) \<and> (\<forall>d. I (snd (h_wait h d s)))
     \<and> I (snd (h_op h s)) \<and> I (h_reconnect h s))"

lemma before_attempt_keeps: "hooks_keep I h \<Longrightarrow> I s \<Longrightarrow> I (snd (before_attempt h k s))"
  by (auto simp: before_attempt_def hooks_keep_def split: prod.splits outcome.splits) (metis snd_conv)+

lemma retry_loop_keeps: "hooks_keep I h \<Longrightarrow> I s \<Longrightarrow> I (snd (retry_loop h n k prev s))"
proof (induction h n k prev s rule: retry_loop.induct)
  case (2 h n attempt prev s)
  obtain b s1 where b: "before_attempt h attempt s = (b, s1)" by (cases "before_attempt h attempt s")
  then have s1: "I s1" using before_attempt_keeps [OF "2.prems", of attempt] by simp
  obtain x s2 where o: "h_op h s1 = (x, s2)" by (cases "h_op h s1")
  then have s2: "I s2" "I (h_reconnect h s2)"
    using "2.prems"(1) s1 by (auto simp: hooks_keep_def) (metis snd_conv)+
  show ?case
  proof (cases "\<exists>e. b = Ok None \<and> x = Err e \<and> h_retryable h e")
    case True
    then show ?thesis using b o s2 "2.prems" "2.IH" [OF b [symmetric]] by (auto simp: o)
  next
    case False
    then show ?thesis using b o s1 s2 by (auto split: outcome.splits option.splits)
  qed
qed (auto split: option.splits)

lemma run_retries_keeps: "hooks_keep I h \<Longrightarrow> I s \<Longrightarrow> I (snd (run_retries h m s))"
  by (simp add: run_retries_def retry_loop_keeps)

section \<open>The contract of the hooks\<close>

text \<open>
  \<open>retries\<close> is the retry statistic, \<open>frame\<close> the part of the state that no hook may touch.  The
  loop then retries at most \<open>MaxRetries\<close> times and leaves the frame alone.
\<close>

locale retry_client =
  fixes h :: "('s, 'a) retry_hooks"
    and retries :: "'s \<Rightarrow> nat"
    and frame :: "'s \<Rightarrow> 'f"
  assumes backoff_counts: "h_backoff h k s = (r, s') \<Longrightarrow> retries s' = Suc (retries s) \<and> frame s' = frame s"
    and wait_keeps: "h_wait h d s = (c, s') \<Longrightarrow> retries s' = retries s \<and> frame s' = frame s"
    and op_keeps: "h_op h s = (x, s') \<Longrightarrow> retries s' = retries s \<and> frame s' = frame s"
    and reconnect_keeps: "retries (h_reconnect h s) = retries s \<and> frame (h_reconnect h s) = frame s"
begin

lemma before_attempt_counts:
  "before_attempt h k s = (r, s') \<Longrightarrow>
     retries s' = retries s + (if k = 0 then 0 else 1) \<and> frame s' = frame s"
  by (auto simp: before_attempt_def split: if_splits prod.splits outcome.splits
      dest!: backoff_counts wait_keeps)

lemma loop_bound:
  "retry_loop h n k prev s = (r, s') \<Longrightarrow>
     retries s' \<le> retries s + (if k = 0 then n - 1 else n) \<and> frame s' = frame s"
proof (induction n arbitrary: k prev s)
  case (Suc n)
  obtain b s1 where b: "before_attempt h k s = (b, s1)" by (cases "before_attempt h k s")
  note s1 = before_attempt_counts [OF b]
  obtain x s2 where o: "h_op h s1 = (x, s2)" by (cases "h_op h s1")
  note s2 = op_keeps [OF o]
  show ?case
  proof (cases "\<exists>e. b = Ok None \<and> x = Err e \<and> h_retryable h e")
    case True
    then obtain e where e: "b = Ok None" "x = Err e" "h_retryable h e" by blast
    let ?s3 = "if h_connection h e then h_reconnect h s2 else s2"
    have s3: "retries ?s3 = retries s2" "frame ?s3 = frame s2" using reconnect_keeps by auto
    have "retry_loop h n (k + 1) (Some e) ?s3 = (r, s')"
      using Suc.prems b o e by simp
    from Suc.IH [OF this] show ?thesis using s1 s2 s3 by auto
  next
    case False
    then have "s' = s1 \<or> s' = s2"
      using Suc.prems b o by (auto split: outcome.splits option.splits if_splits)
    then show ?thesis using s1 s2 by auto
  qed
qed (auto split: option.splits)

lemma run_bound:
  assumes "run_retries h m s = (r, s')"
  shows "retries s' \<le> retries s + nat m" and "frame s' = frame s"
  using loop_bound [OF assms [unfolded run_retries_def]] by (auto simp: nat_add_distrib split: if_splits)

end

end
