(* ===== verification/Modbus_Client.thy ===== *)
theory Modbus_Client
  imports Modbus_Conversion Retry_Loop
begin

text \<open>
  \<open>internal/adapter/modbus/client.go\<close>, \<open>types.go\<close> and the per-client part of \<open>health.go\<close>: one
  client, its connection, single reads and writes with retries, and the four
  direct writes.  The Modbus library, the clock, the context and the random numbers are the
  parameter \<open>ops\<close>, acting on a world of any type \<open>'w\<close>.  A client operation is atomic: the code
  serialises them by \<open>opMu\<close> and the pool runs one poll per device at a time.
\<close>

section \<open>The world a client acts on\<close>

record 'w modbus_ops =
  w_now :: "'w \<Rightarrow> time"
  w_rand :: "int \<Rightarrow> 'w \<Rightarrow> int \<times> 'w"
  w_wait :: "duration \<Rightarrow> 'w \<Rightarrow> err option \<times> 'w"
  w_ctx :: "'w \<Rightarrow> err option"
  w_connect :: "'w \<Rightarrow> connect_race \<times> 'w"
  w_close :: "'w \<Rightarrow> 'w"
  ReadCoils :: "u16 \<Rightarrow> u16 \<Rightarrow> 'w \<Rightarrow> (err + bytes) \<times> 'w"
  ReadDiscreteInputs :: "u16 \<Rightarrow> u16 \<Rightarrow> 'w \<Rightarrow> (err + bytes) \<times> 'w"
  ReadHoldingRegisters :: "u16 \<Rightarrow> u16 \<Rightarrow> 'w \<Rightarrow> (err + bytes) \<times> 'w"
  ReadInputRegisters :: "u16 \<Rightarrow> u16 \<Rightarrow> 'w \<Rightarrow> (err + bytes) \<times> 'w"
  lib_WriteSingleCoil :: "u16 \<Rightarrow> u16 \<Rightarrow> 'w \<Rightarrow> err option \<times> 'w"
  lib_WriteSingleRegister :: "u16 \<Rightarrow> u16 \<Rightarrow> 'w \<Rightarrow> err option \<times> 'w"
  lib_WriteMultipleRegisters :: "u16 \<Rightarrow> u16 \<Rightarrow> bytes \<Rightarrow> 'w \<Rightarrow> err option \<times> 'w"
  lib_WriteMultipleCoils :: "u16 \<Rightarrow> u16 \<Rightarrow> bytes \<Rightarrow> 'w \<Rightarrow> err option \<times> 'w"
  mb_arch :: "'w \<Rightarrow> arch"

section \<open>The client's state\<close>

record client_config =
  cc_Address :: string
  cc_SlaveID :: u8
  cc_Timeout :: duration
  cc_IdleTimeout :: duration
  cc_MaxRetries :: int
  cc_RetryDelay :: duration
  cc_Protocol :: protocol

text \<open>Statistics counters are natural numbers: 64-bit counters do not wrap in practice.\<close>

record client_stats =
  ReadCount :: nat
  WriteCount :: nat
  ErrorCount :: nat
  RetryCounter :: nat
  TotalReadTime :: int
  TotalWriteTime :: int

record tag_diagnostic =
  td_TagID :: string
  td_ReadCount :: nat
  td_ErrorCount :: nat
  td_LastError :: "err option"
  td_LastErrorTime :: "time option"
  td_LastSuccessTime :: "time option"

record mb_client =
  mb_config :: client_config
  mb_handler :: bool
  mb_has_client :: bool
  mb_connected :: bool
  mb_lastError :: "err option"
  mb_lastUsed :: time
  mb_stats :: client_stats
  mb_deviceID :: string
  mb_consecutiveFailures :: nat
  mb_tagDiagnostics :: "string \<rightharpoonup> tag_diagnostic"

definition zero_stats :: client_stats where
  "zero_stats = \<lparr>ReadCount = 0, WriteCount = 0, ErrorCount = 0, RetryCounter = 0,
     TotalReadTime = 0, TotalWriteTime = 0\<rparr>"

definition default_if :: "'a::zero \<Rightarrow> 'a \<Rightarrow> 'a" where
  "default_if x d = (if x = 0 then d else x)"

definition NewClient :: "time \<Rightarrow> string \<Rightarrow> client_config \<Rightarrow> mb_client res" where
  "NewClient now deviceID config =
     (if cc_Address config = [] then Err (Plain ''modbus address is required'')
      else if cc_SlaveID config = 0 \<or> 247 < cc_SlaveID config then Err ErrInvalidSlaveID
      else Ok \<lparr>
        mb_config = config\<lparr>
          cc_Timeout := default_if (cc_Timeout config) (5 * second),
          cc_IdleTimeout := default_if (cc_IdleTimeout config) (30 * second),
          cc_MaxRetries := default_if (cc_MaxRetries config) 3,
          cc_RetryDelay := default_if (cc_RetryDelay config) (100 * millisecond)\<rparr>,
        mb_handler = False, mb_has_client = False, mb_connected = False, mb_lastError = None,
        mb_lastUsed = now, mb_stats = zero_stats, mb_deviceID = deviceID,
        mb_consecutiveFailures = 0, mb_tagDiagnostics = Map.empty\<rparr>)"

abbreviation upd_stats :: "(client_stats \<Rightarrow> client_stats) \<Rightarrow> mb_client \<Rightarrow> mb_client" where
  "upd_stats f c \<equiv> c\<lparr>mb_stats := f (mb_stats c)\<rparr>"

definition count_error :: "mb_client \<Rightarrow> mb_client" where
  "count_error c = upd_stats (\<lambda>s. s\<lparr>ErrorCount := ErrorCount s + 1\<rparr>) c"

definition count_read :: "mb_client \<Rightarrow> mb_client" where
  "count_read c = upd_stats (\<lambda>s. s\<lparr>ReadCount := ReadCount s + 1\<rparr>) c"

definition count_write :: "mb_client \<Rightarrow> mb_client" where
  "count_write c = upd_stats (\<lambda>s. s\<lparr>WriteCount := WriteCount s + 1\<rparr>) c"

definition add_failure :: "mb_client \<Rightarrow> mb_client" where
  "add_failure c = c\<lparr>mb_consecutiveFailures := mb_consecutiveFailures c + 1\<rparr>"

definition reset_failures :: "mb_client \<Rightarrow> mb_client" where
  "reset_failures c = c\<lparr>mb_consecutiveFailures := 0\<rparr>"

section \<open>Tag diagnostics\<close>

definition NewTagDiagnostic :: "string \<Rightarrow> tag_diagnostic" where
  "NewTagDiagnostic tagID = \<lparr>td_TagID = tagID, td_ReadCount = 0, td_ErrorCount = 0,
     td_LastError = None, td_LastErrorTime = None, td_LastSuccessTime = None\<rparr>"

definition getOrCreateTagDiagnostic :: "string \<Rightarrow> mb_client \<Rightarrow> tag_diagnostic" where
  "getOrCreateTagDiagnostic tagID c =
     (case mb_tagDiagnostics c tagID of Some d \<Rightarrow> d | None \<Rightarrow> NewTagDiagnostic tagID)"

definition recordTagSuccess :: "time \<Rightarrow> string \<Rightarrow> mb_client \<Rightarrow> mb_client" where
  "recordTagSuccess now tagID c =
     (let d = getOrCreateTagDiagnostic tagID c in
      c\<lparr>mb_tagDiagnostics := (mb_tagDiagnostics c)(tagID \<mapsto>
          d\<lparr>td_ReadCount := td_ReadCount d + 1, td_LastSuccessTime := Some now\<rparr>)\<rparr>)"

definition recordTagError :: "time \<Rightarrow> string \<Rightarrow> err \<Rightarrow> mb_client \<Rightarrow> mb_client" where
  "recordTagError now tagID e c =
     (let d = getOrCreateTagDiagnostic tagID c in
      c\<lparr>mb_tagDiagnostics := (mb_tagDiagnostics c)(tagID \<mapsto>
          d\<lparr>td_ErrorCount := td_ErrorCount d + 1, td_LastError := Some e,
            td_LastErrorTime := Some now\<rparr>)\<rparr>)"

section \<open>Error classification\<close>

definition contains_any :: "string \<Rightarrow> string list \<Rightarrow> bool" where
  "contains_any s subs = (\<exists>p\<in>set subs. contains_sub s p)"

definition isTimeout :: "err \<Rightarrow> bool" where
  "isTimeout e = (case as_net_error e of Some t \<Rightarrow> t | None \<Rightarrow> False)"

definition isConnectionError :: "err \<Rightarrow> bool" where
  "isConnectionError e =
     (if as_net_error e \<noteq> None then True
      else if errors_is e IoEOF \<or> errors_is e IoUnexpectedEOF then True
      else contains_any (err_text e)
        [''connection reset'', ''broken pipe'', ''connection refused'', ''no route to host''])"

definition isRetryableError :: "err \<Rightarrow> bool" where
  "isRetryableError e \<longleftrightarrow> isTimeout e \<or> isConnectionError e"

definition translateModbusError :: "err \<Rightarrow> err" where
  "translateModbusError e = wrap_v ErrReadFailed e"

definition createErrorDataPoint :: "time \<Rightarrow> mb_client \<Rightarrow> tag \<Rightarrow> err \<Rightarrow> data_point" where
  "createErrorDataPoint now c t e =
     AcquireDataPoint zero_data_point now (mb_deviceID c) (tag_ID t) [] VNil (tag_Unit t)
       (if isTimeout e then QualityTimeout
        else if isConnectionError e then QualityNotConnected
        else QualityBad)"

text \<open>
  \<open>calculateBackoff\<close>, in 64-bit arithmetic; \<open>rand.Int64N\<close> panics unless its argument is
  positive.  \<open>rnd\<close> draws a number below its argument.
\<close>

definition calculateBackoff :: "(int \<Rightarrow> int) \<Rightarrow> duration \<Rightarrow> nat \<Rightarrow> duration res" where
  "calculateBackoff rnd retryDelay attempt =
     (let delay = backoff_delay retryDelay attempt in
      if delay \<le> 1 then Panic
      else let jitter = rnd (delay div 2) - delay div 4 in Ok (delay + jitter))"

section \<open>Connecting\<close>

type_synonym 'w mb_state = "mb_client \<times> 'w"

definition Connect :: "'w modbus_ops \<Rightarrow> 'w mb_state \<Rightarrow> err option \<times> 'w mb_state" where
  "Connect ops st = (case st of (c, w) \<Rightarrow>
     if mb_connected c then (None, st)
     else case w_connect ops w of
        (ConnectDone (Some e), w1) \<Rightarrow>
          (Some (wrap_v ErrConnectionFailed e), (c\<lparr>mb_lastError := Some e\<rparr>, w_close ops w1))
      | (ConnectCtxDone e, w1) \<Rightarrow> (Some (wrap_v ErrConnectionTimeout e), (c, w1))
      | (ConnectDone None, w1) \<Rightarrow>
          (None, (c\<lparr>mb_handler := True, mb_has_client := True, mb_connected := True,
                    mb_lastError := None, mb_lastUsed := w_now ops w1\<rparr>, w1)))"

definition Disconnect :: "'w modbus_ops \<Rightarrow> 'w mb_state \<Rightarrow> 'w mb_state" where
  "Disconnect ops st = (case st of (c, w) \<Rightarrow>
     if \<not> mb_connected c then st
     else (c\<lparr>mb_connected := False, mb_handler := False, mb_has_client := False\<rparr>,
           if mb_handler c then w_close ops w else w))"

definition reconnect :: "'w modbus_ops \<Rightarrow> 'w mb_state \<Rightarrow> 'w mb_state" where
  "reconnect ops st = snd (Connect ops (Disconnect ops st))"

section \<open>Reading the registers of one tag\<close>

definition validateProtocolLimits :: "tag \<Rightarrow> err option" where
  "validateProtocolLimits t =
     (let n = RegisterCount t; over = (\<lambda>what m. Some (Wrap ErrModbusProtocolLimit
           ('': '' @ what @ '' count '' @ show_nat (unat n) @ '' exceeds max '' @ m))) in
      if n = 0 then Some (Wrap ErrInvalidRegisterCount
          ('': RegisterCount cannot be 0 for tag '' @ quoted (tag_ID t)))
      else if RegisterType t = RegisterTypeHoldingRegister \<and> 125 < n then over ''holding register'' ''125''
      else if RegisterType t = RegisterTypeInputRegister \<and> 125 < n then over ''input register'' ''125''
      else if RegisterType t = RegisterTypeCoil \<and> 2000 < n then over ''coil'' ''2000''
      else if RegisterType t = RegisterTypeDiscreteInput \<and> 2000 < n then over ''discrete input'' ''2000''
      else if 65535 < unat (Address t) + unat n then
        Some (Wrap ErrModbusProtocolLimit ('': address range '' @ show_nat (unat (Address t)) @ ''-''
          @ show_nat (unat (Address t) + unat n - 1) @ '' exceeds 16-bit limit''))
      else None)"

definition lib_read :: "'w modbus_ops \<Rightarrow> register_type \<Rightarrow> u16 \<Rightarrow> u16 \<Rightarrow> 'w \<Rightarrow> (err + bytes) \<times> 'w" where
  "lib_read ops rt a n w = (case rt of
       RegisterTypeCoil \<Rightarrow> ReadCoils ops a n w
     | RegisterTypeDiscreteInput \<Rightarrow> ReadDiscreteInputs ops a n w
     | RegisterTypeHoldingRegister \<Rightarrow> ReadHoldingRegisters ops a n w
     | RegisterTypeInputRegister \<Rightarrow> ReadInputRegisters ops a n w
     | RegisterType_other s \<Rightarrow> (Inl ErrInvalidRegisterType, w))"

definition is_known :: "register_type \<Rightarrow> bool" where
  "is_known rt = (case rt of RegisterType_other s \<Rightarrow> False | _ \<Rightarrow> True)"

definition readRegisters :: "'w modbus_ops \<Rightarrow> tag \<Rightarrow> 'w mb_state \<Rightarrow> bytes res \<times> 'w mb_state" where
  "readRegisters ops t st = (case st of (c, w) \<Rightarrow>
     if \<not> mb_has_client c then (Err ErrConnectionClosed, st)
     else case validateProtocolLimits t of
       Some e \<Rightarrow> (Err e, st)
     | None \<Rightarrow>
         if \<not> is_known (RegisterType t) then (Err ErrInvalidRegisterType, st)
         else case lib_read ops (RegisterType t) (Address t) (RegisterCount t) w of
           (Inl e, w1) \<Rightarrow> (Err (translateModbusError e), (add_failure c, w1))
         | (Inr b, w1) \<Rightarrow> (Ok b, (reset_failures c, w1)))"

section \<open>Reading one tag\<close>

definition backoff_step :: "'w modbus_ops \<Rightarrow> nat \<Rightarrow> 'w mb_state \<Rightarrow> duration res \<times> 'w mb_state" where
  "backoff_step ops attempt st = (case st of (c, w) \<Rightarrow>
     (let c1 = upd_stats (\<lambda>s. s\<lparr>RetryCounter := RetryCounter s + 1\<rparr>) c;
          n = backoff_delay (cc_RetryDelay (mb_config c)) attempt div 2;
          (r, w1) = w_rand ops n w
      in (calculateBackoff (\<lambda>_. r) (cc_RetryDelay (mb_config c)) attempt, (c1, w1))))"

definition wait_step :: "'w modbus_ops \<Rightarrow> duration \<Rightarrow> 'w mb_state \<Rightarrow> err option \<times> 'w mb_state" where
  "wait_step ops d st = (case st of (c, w) \<Rightarrow> (case w_wait ops d w of (e, w1) \<Rightarrow> (e, (c, w1))))"

definition read_hooks :: "'w modbus_ops \<Rightarrow> tag \<Rightarrow> ('w mb_state, bytes) retry_hooks" where
  "read_hooks ops t = \<lparr>h_backoff = backoff_step ops, h_wait = wait_step ops,
     h_op = readRegisters ops t, h_retryable = isRetryableError, h_connection = isConnectionError,
     h_reconnect = reconnect ops\<rparr>"

text \<open>A Go pair of a data point and an error; \<open>Panic\<close> when the call panics.\<close>

type_synonym read_result = "(data_point option \<times> err option) res"

definition fail_read :: "'w modbus_ops \<Rightarrow> tag \<Rightarrow> err \<Rightarrow> 'w mb_state \<Rightarrow> read_result \<times> 'w mb_state" where
  "fail_read ops t e st = (case st of (c, w) \<Rightarrow>
     (let c1 = recordTagError (w_now ops w) (tag_ID t) e (count_error c)
      in (Ok (Some (createErrorDataPoint (w_now ops w) c1 t e), Some e), (c1, w))))"

definition finish_read :: "'w modbus_ops \<Rightarrow> tag \<Rightarrow> bytes \<Rightarrow> 'w mb_state \<Rightarrow> read_result \<times> 'w mb_state" where
  "finish_read ops t rawBytes st = (case st of (c, w) \<Rightarrow>
     (let now = w_now ops w; c1 = recordTagSuccess now (tag_ID t) (count_read c)
      in case fst (parseValue rawBytes t) of
           Panic \<Rightarrow> (Panic, (c1, w))
         | Err e \<Rightarrow> (Ok (Some (createErrorDataPoint now c1 t e), Some e), (c1, w))
         | Ok v \<Rightarrow> (Ok (Some (WithRawValue v (AcquireDataPoint zero_data_point now (mb_deviceID c)
               (tag_ID t) [] (applyScaling v t) (tag_Unit t) QualityGood)), None), (c1, w))))"

text \<open>The deferred statistic: the time since the start is added on every way out.\<close>

definition add_read_time :: "'w modbus_ops \<Rightarrow> time \<Rightarrow> 'w mb_state \<Rightarrow> 'w mb_state" where
  "add_read_time ops start st = (case st of (c, w) \<Rightarrow>
     (upd_stats (\<lambda>s. s\<lparr>TotalReadTime := TotalReadTime s + time_sub (w_now ops w) start\<rparr>) c, w))"

definition add_write_time :: "'w modbus_ops \<Rightarrow> time \<Rightarrow> 'w mb_state \<Rightarrow> 'w mb_state" where
  "add_write_time ops start st = (case st of (c, w) \<Rightarrow>
     (upd_stats (\<lambda>s. s\<lparr>TotalWriteTime := TotalWriteTime s + time_sub (w_now ops w) start\<rparr>) c, w))"

definition read_body :: "'w modbus_ops \<Rightarrow> tag \<Rightarrow> 'w mb_state \<Rightarrow> read_result \<times> 'w mb_state" where
  "read_body ops t st =
     (if \<not> mb_connected (fst st) then (Ok (None, Some ErrConnectionClosed), st)
      else case run_retries (read_hooks ops t) (cc_MaxRetries (mb_config (fst st))) st of
         (Succeeded b, st1) \<Rightarrow> finish_read ops t b st1
       | (NotTried, st1) \<Rightarrow> finish_read ops t [] st1
       | (Cancelled e, st1) \<Rightarrow> (Ok (None, Some e), st1)
       | (Fatal e, st1) \<Rightarrow> fail_read ops t e st1
       | (Exhausted e, st1) \<Rightarrow> fail_read ops t e st1
       | (Crashed, st1) \<Rightarrow> (Panic, st1))"

definition touch :: "'w modbus_ops \<Rightarrow> 'w mb_state \<Rightarrow> 'w mb_state" where
  "touch ops st = (case st of (c, w) \<Rightarrow> (c\<lparr>mb_lastUsed := w_now ops w\<rparr>, w))"

definition ReadTag :: "'w modbus_ops \<Rightarrow> tag \<Rightarrow> 'w mb_state \<Rightarrow> read_result \<times> 'w mb_state" where
  "ReadTag ops t st =
     (let start = w_now ops (snd st) in
      case read_body ops t (touch ops st) of (r, st1) \<Rightarrow> (r, add_read_time ops start st1))"

section \<open>Writing one tag\<close>

definition write_result :: "err option \<times> 'w \<Rightarrow> unit res \<times> 'w" where
  "write_result r = (case r of
       (None, w) \<Rightarrow> (Ok (), w)
     | (Some e, w) \<Rightarrow> (Err (wrap_v ErrWriteFailed e), w))"

definition coil_word :: "bool \<Rightarrow> u16" where
  "coil_word b = (if b then 0xFF00 else 0x0000)"

definition writeSingleCoilLocked :: "'w modbus_ops \<Rightarrow> u16 \<Rightarrow> goval \<Rightarrow> 'w \<Rightarrow> unit res \<times> 'w" where
  "writeSingleCoilLocked ops address value w = (case toBool value of (b, ok) \<Rightarrow>
     if \<not> ok then (Err (Wrap ErrInvalidWriteValue
         ('': cannot convert '' @ go_type_name value @ '' to bool for coil'')), w)
     else write_result (lib_WriteSingleCoil ops address (coil_word b) w))"

definition writeHoldingRegisterLocked :: "'w modbus_ops \<Rightarrow> tag \<Rightarrow> goval \<Rightarrow> 'w \<Rightarrow> unit res \<times> 'w" where
  "writeHoldingRegisterLocked ops t value w = (case valueToBytes (mb_arch ops w) value t of
       Err e \<Rightarrow> (Err e, w)
     | Panic \<Rightarrow> (Panic, w)
     | Ok bs \<Rightarrow>
         if length bs = 2
         then (case Uint16 bs of
             Ok regValue \<Rightarrow> write_result (lib_WriteSingleRegister ops (Address t) regValue w)
           | Err e \<Rightarrow> (Err e, w)
           | Panic \<Rightarrow> (Panic, w))
         else write_result
           (lib_WriteMultipleRegisters ops (Address t) (word_of_nat (length bs div 2)) bs w))"

definition writeRegister :: "'w modbus_ops \<Rightarrow> tag \<Rightarrow> goval \<Rightarrow> 'w mb_state \<Rightarrow> unit res \<times> 'w mb_state" where
  "writeRegister ops t value st = (case st of (c, w) \<Rightarrow>
     if \<not> mb_has_client c then (Err ErrConnectionClosed, st)
     else if RegisterType t \<noteq> RegisterTypeCoil \<and> RegisterType t \<noteq> RegisterTypeHoldingRegister then
       (Err (Wrap ErrTagNotWritable ('': '' @ register_type_text (RegisterType t) @ '' is read-only'')), st)
     else case (if RegisterType t = RegisterTypeCoil
                then writeSingleCoilLocked ops (Address t) value w
                else writeHoldingRegisterLocked ops t value w) of
       (Ok _, w1) \<Rightarrow> (Ok (), (reset_failures c, w1))
     | (Err e, w1) \<Rightarrow> (Err e, (add_failure c, w1))
     | (Panic, w1) \<Rightarrow> (Panic, (c, w1)))"

definition write_hooks :: "'w modbus_ops \<Rightarrow> tag \<Rightarrow> goval \<Rightarrow> ('w mb_state, unit) retry_hooks" where
  "write_hooks ops t v = \<lparr>h_backoff = backoff_step ops, h_wait = wait_step ops,
     h_op = writeRegister ops t v, h_retryable = isRetryableError,
     h_connection = isConnectionError, h_reconnect = reconnect ops\<rparr>"

definition not_writable_error :: "tag \<Rightarrow> err" where
  "not_writable_error t = Wrap ErrTagNotWritable ('': tag '' @ tag_ID t @ '' (register type: ''
     @ register_type_text (RegisterType t) @ '')'')"

definition on_client :: "(mb_client \<Rightarrow> mb_client) \<Rightarrow> 'w mb_state \<Rightarrow> 'w mb_state" where
  "on_client f st = (f (fst st), snd st)"

definition write_body :: "'w modbus_ops \<Rightarrow> tag \<Rightarrow> goval \<Rightarrow> 'w mb_state \<Rightarrow> unit res \<times> 'w mb_state" where
  "write_body ops t v st =
     (if \<not> mb_connected (fst st) then (Err ErrConnectionClosed, st)
      else if \<not> IsWritable t then (Err (not_writable_error t), st)
      else case run_retries (write_hooks ops t v) (cc_MaxRetries (mb_config (fst st))) st of
         (Succeeded _, st1) \<Rightarrow> (Ok (), on_client count_write st1)
       | (NotTried, st1) \<Rightarrow> (Ok (), on_client count_write st1)
       | (Cancelled e, st1) \<Rightarrow> (Err e, st1)
       | (Fatal e, st1) \<Rightarrow> (Err e, on_client count_error st1)
       | (Exhausted e, st1) \<Rightarrow> (Err e, on_client count_error st1)
       | (Crashed, st1) \<Rightarrow> (Panic, st1))"

definition WriteTag :: "'w modbus_ops \<Rightarrow> tag \<Rightarrow> goval \<Rightarrow> 'w mb_state \<Rightarrow> unit res \<times> 'w mb_state" where
  "WriteTag ops t v st =
     (let start = w_now ops (snd st) in
      case write_body ops t v (touch ops st) of (r, st1) \<Rightarrow> (r, add_write_time ops start st1))"

section \<open>The direct writes\<close>

definition direct_write ::
  "'w modbus_ops \<Rightarrow> ('w \<Rightarrow> err option \<times> 'w) \<Rightarrow> 'w mb_state \<Rightarrow> unit res \<times> 'w mb_state" where
  "direct_write ops op st = (case touch ops st of (c, w) \<Rightarrow>
     if \<not> mb_connected c then (Err ErrConnectionClosed, (c, w))
     else if \<not> mb_has_client c then (Err ErrConnectionClosed, (c, w))
     else case op w of
       (Some e, w1) \<Rightarrow> (Err (wrap_v ErrWriteFailed e), (add_failure (count_error c), w1))
     | (None, w1) \<Rightarrow> (Ok (), (reset_failures (count_write c), w1)))"

definition WriteSingleCoil :: "'w modbus_ops \<Rightarrow> u16 \<Rightarrow> bool \<Rightarrow> 'w mb_state \<Rightarrow> unit res \<times> 'w mb_state" where
  "WriteSingleCoil ops address value =
     direct_write ops (lib_WriteSingleCoil ops address (coil_word value))"

definition WriteSingleRegister :: "'w modbus_ops \<Rightarrow> u16 \<Rightarrow> u16 \<Rightarrow> 'w mb_state \<Rightarrow> unit res \<times> 'w mb_state" where
  "WriteSingleRegister ops address value =
     direct_write ops (lib_WriteSingleRegister ops address value)"

definition WriteMultipleRegisters ::
  "'w modbus_ops \<Rightarrow> u16 \<Rightarrow> u16 list \<Rightarrow> 'w mb_state \<Rightarrow> unit res \<times> 'w mb_state" where
  "WriteMultipleRegisters ops address values =
     direct_write ops (lib_WriteMultipleRegisters ops address (word_of_nat (length values))
       (concat (map PutUint16 values)))"

text \<open>The packing loop: bit \<open>i mod 8\<close> of byte \<open>i div 8\<close>.\<close>

definition pack_bit :: "bytes \<Rightarrow> nat \<times> bool \<Rightarrow> bytes" where
  "pack_bit bs iv = (case iv of (i, v) \<Rightarrow>
     if v then bs[i div 8 := bs ! (i div 8) OR push_bit (i mod 8) 1] else bs)"

definition pack_bools :: "bool list \<Rightarrow> bytes" where
  "pack_bools values =
     foldl pack_bit (replicate ((length values + 7) div 8) 0) (enumerate 0 values)"

definition WriteMultipleCoils ::
  "'w modbus_ops \<Rightarrow> u16 \<Rightarrow> bool list \<Rightarrow> 'w mb_state \<Rightarrow> unit res \<times> 'w mb_state" where
  "WriteMultipleCoils ops address values =
     direct_write ops (lib_WriteMultipleCoils ops address (word_of_nat (length values))
       (pack_bools values))"

section \<open>Statistics\<close>

record device_stats =
  ds_DeviceID :: string
  ds_ReadCount :: nat
  ds_WriteCount :: nat
  ds_ErrorCount :: nat
  ds_RetryCount :: nat
  ds_AvgReadTimeMs :: u64
  ds_AvgWriteTimeMs :: u64
  ds_Connected :: bool

definition avg_ms :: "int \<Rightarrow> nat \<Rightarrow> u64" where
  "avg_ms tot n = (if 0 < n
     then f64_div (f64_div (f64_of_int tot) (f64_of_int (int n))) (f64_of_int 1000000) else 0)"

definition GetDeviceStats :: "mb_client \<Rightarrow> device_stats" where
  "GetDeviceStats c = (let s = mb_stats c in
     \<lparr>ds_DeviceID = mb_deviceID c, ds_ReadCount = ReadCount s, ds_WriteCount = WriteCount s,
      ds_ErrorCount = ErrorCount s, ds_RetryCount = RetryCounter s,
      ds_AvgReadTimeMs = avg_ms (TotalReadTime s) (ReadCount s),
      ds_AvgWriteTimeMs = avg_ms (TotalWriteTime s) (WriteCount s),
      ds_Connected = mb_connected c\<rparr>)"

definition GetTagDiagnostic :: "mb_client \<Rightarrow> string \<Rightarrow> tag_diagnostic option" where
  "GetTagDiagnostic c tagID = mb_tagDiagnostics c tagID"

section \<open>The retry loop of the client\<close>

lemma stats_frame [simp]:
  "mb_config (count_error c) = mb_config c" "mb_config (count_read c) = mb_config c"
  "mb_config (count_write c) = mb_config c" "mb_config (add_failure c) = mb_config c"
  "mb_config (reset_failures c) = mb_config c" "mb_deviceID (add_failure c) = mb_deviceID c"
  "mb_deviceID (reset_failures c) = mb_deviceID c" "mb_deviceID (count_error c) = mb_deviceID c"
  "mb_deviceID (count_read c) = mb_deviceID c" "mb_deviceID (count_write c) = mb_deviceID c"
  "mb_stats (add_failure c) = mb_stats c" "mb_stats (reset_failures c) = mb_stats c"
  by (simp_all add: count_error_def count_read_def count_write_def add_failure_def reset_failures_def)

lemma diag_frame [simp]:
  "mb_stats (recordTagError now i e c) = mb_stats c" "mb_stats (recordTagSuccess now i c) = mb_stats c"
  "mb_deviceID (recordTagError now i e c) = mb_deviceID c"
  "mb_deviceID (recordTagSuccess now i c) = mb_deviceID c"
  by (simp_all add: recordTagError_def recordTagSuccess_def Let_def)

lemma Connect_frame [simp]:
  "mb_stats (fst (snd (Connect ops st))) = mb_stats (fst st)"
  "mb_config (fst (snd (Connect ops st))) = mb_config (fst st)"
  "mb_deviceID (fst (snd (Connect ops st))) = mb_deviceID (fst st)"
  by (auto simp: Connect_def split: prod.splits connect_race.splits option.splits)

lemma Disconnect_frame [simp]:
  "mb_stats (fst (Disconnect ops st)) = mb_stats (fst st)"
  "mb_config (fst (Disconnect ops st)) = mb_config (fst st)"
  "mb_deviceID (fst (Disconnect ops st)) = mb_deviceID (fst st)"
  by (auto simp: Disconnect_def split: prod.splits)

lemma reconnect_frame [simp]:
  "mb_stats (fst (reconnect ops st)) = mb_stats (fst st)"
  "mb_config (fst (reconnect ops st)) = mb_config (fst st)"
  "mb_deviceID (fst (reconnect ops st)) = mb_deviceID (fst st)"
  by (simp_all add: reconnect_def)

definition retry_count :: "'w mb_state \<Rightarrow> nat" where
  "retry_count st = RetryCounter (mb_stats (fst st))"

definition client_frame :: "'w mb_state \<Rightarrow> client_config \<times> string \<times> nat \<times> nat \<times> nat" where
  "client_frame st = (mb_config (fst st), mb_deviceID (fst st), ReadCount (mb_stats (fst st)),
     WriteCount (mb_stats (fst st)), ErrorCount (mb_stats (fst st)))"

lemma backoff_step_counts:
  "backoff_step ops k s = (r, s') \<Longrightarrow> retry_count s' = Suc (retry_count s) \<and> client_frame s' = client_frame s"
  by (auto simp: backoff_step_def retry_count_def client_frame_def Let_def split: prod.splits)

lemma wait_step_keeps:
  "wait_step ops d s = (r, s') \<Longrightarrow> retry_count s' = retry_count s \<and> client_frame s' = client_frame s"
  by (auto simp: wait_step_def retry_count_def client_frame_def split: prod.splits)

lemma reconnect_keeps:
  "retry_count (reconnect ops s) = retry_count s \<and> client_frame (reconnect ops s) = client_frame s"
  by (simp add: retry_count_def client_frame_def)

lemma readRegisters_keeps:
  "readRegisters ops t s = (r, s') \<Longrightarrow> retry_count s' = retry_count s \<and> client_frame s' = client_frame s"
  by (auto simp: readRegisters_def retry_count_def client_frame_def
      split: prod.splits if_splits option.splits sum.splits)

lemma writeRegister_keeps:
  "writeRegister ops t v s = (r, s') \<Longrightarrow> retry_count s' = retry_count s \<and> client_frame s' = client_frame s"
  by (auto simp: writeRegister_def retry_count_def client_frame_def
      split: prod.splits if_splits outcome.splits)

interpretation reading: retry_client "read_hooks ops t" retry_count client_frame for ops t
  by unfold_locales
    (auto simp: read_hooks_def dest: backoff_step_counts wait_step_keeps readRegisters_keeps
      simp: reconnect_keeps)

interpretation writing: retry_client "write_hooks ops t v" retry_count client_frame for ops t v
  by unfold_locales
    (auto simp: write_hooks_def dest: backoff_step_counts wait_step_keeps writeRegister_keeps
      simp: reconnect_keeps)

lemma retry_count_deferred [simp]:
  "retry_count (add_read_time ops z st) = retry_count st"
  "retry_count (add_write_time ops z st) = retry_count st"
  "retry_count (touch ops st) = retry_count st"
  "client_frame (add_read_time ops z st) = client_frame st"
  "client_frame (add_write_time ops z st) = client_frame st"
  "client_frame (touch ops st) = client_frame st"
  "mb_config (fst (touch ops st)) = mb_config (fst st)"
  "mb_connected (fst (touch ops st)) = mb_connected (fst st)"
  by (auto simp: retry_count_def client_frame_def add_read_time_def add_write_time_def touch_def split: prod.splits)

lemma retry_count_ends [simp]:
  "retry_count (snd (fail_read ops t e st)) = retry_count st"
  "retry_count (snd (finish_read ops t b st)) = retry_count st"
  "retry_count (on_client count_write st) = retry_count st"
  "retry_count (on_client count_error st) = retry_count st"
  by (auto simp: retry_count_def fail_read_def finish_read_def on_client_def count_error_def
      count_read_def count_write_def Let_def split: prod.splits outcome.splits)

lemma read_body_retries:
  "retry_count (snd (read_body ops t st)) \<le> retry_count st + nat (cc_MaxRetries (mb_config (fst st)))"
  using reading.run_bound(1) [of ops t "cc_MaxRetries (mb_config (fst st))" st]
  by (auto simp: read_body_def split: prod.splits retry_end.splits)

lemma write_body_retries:
  "retry_count (snd (write_body ops t v st)) \<le> retry_count st + nat (cc_MaxRetries (mb_config (fst st)))"
  using writing.run_bound(1) [of ops t v "cc_MaxRetries (mb_config (fst st))" st]
  by (auto simp: write_body_def split: prod.splits retry_end.splits)

lemma ReadTag_retries:
  "retry_count (snd (ReadTag ops t st)) \<le> retry_count st + nat (cc_MaxRetries (mb_config (fst st)))"
  using read_body_retries [of ops t "touch ops st"] by (auto simp: ReadTag_def split: prod.splits)

lemma WriteTag_retries:
  "retry_count (snd (WriteTag ops t v st)) \<le> retry_count st + nat (cc_MaxRetries (mb_config (fst st)))"
  using write_body_retries [of ops t v "touch ops st"] by (auto simp: WriteTag_def Let_def split: prod.splits)


section \<open>What is retried\<close>

lemma contains_sub_split:
  assumes "c \<notin> set p"
  shows "contains_sub (a @ c # b) p \<longleftrightarrow> contains_sub a p \<or> contains_sub b p"
proof
  assume "contains_sub (a @ c # b) p"
  then obtain ys zs where eq: "a @ c # b = ys @ p @ zs" by (auto simp: contains_sub_iff)
  then consider us where "a = ys @ us" "us @ c # b = p @ zs" | us where "ys = a @ us" "c # b = us @ p @ zs"
    by (auto simp: append_eq_append_conv2)
  then show "contains_sub a p \<or> contains_sub b p"
  proof cases
    case 1
    then obtain vs where "us = p @ vs \<or> us @ vs = p \<and> c # b = vs @ zs"
      by (auto simp: append_eq_append_conv2)
    then have "us = p @ vs \<or> us = p" using assms by (cases vs) auto
    then have "contains_sub a p" using 1(1) unfolding contains_sub_iff by (metis append.right_neutral)
    then show ?thesis ..
  next
    case 2
    then show ?thesis
      using assms by (cases us; cases p) (auto simp: contains_sub_iff)
  qed
next
  assume "contains_sub a p \<or> contains_sub b p"
  then show "contains_sub (a @ c # b) p"
    using contains_sub_append1 [of a p "c # b"] contains_sub_append2 [of "c # b" p a] by auto
qed

lemma contains_any_translated:
  assumes "\<forall>p\<in>set ps. CHR '':'' \<notin> set p \<and> p \<noteq> [] \<and> hd p \<noteq> CHR '' '' \<and> \<not> contains_sub a p"
  shows "contains_any (a @ '': '' @ b) ps \<longleftrightarrow> contains_any b ps"
proof -
  have "contains_sub (a @ '': '' @ b) p \<longleftrightarrow> contains_sub b p" if "p \<in> set ps" for p
  proof -
    have "contains_sub (CHR '' '' # b) p \<longleftrightarrow> contains_sub b p"
      using assms that by (cases p) auto
    then show ?thesis
      using assms that contains_sub_split [of "CHR '':''" p a "CHR '' '' # b"] by simp
  qed
  then show ?thesis by (auto simp: contains_any_def)
qed

abbreviation connection_texts :: "string list" where
  "connection_texts \<equiv> [''connection reset'', ''broken pipe'', ''connection refused'', ''no route to host'']"

lemma translated_retryable:
  "isRetryableError (translateModbusError e) \<longleftrightarrow> contains_any (err_text e) connection_texts"
  using contains_any_translated [of connection_texts "err_text ErrReadFailed" "err_text e"]
  by (simp add: isRetryableError_def isTimeout_def isConnectionError_def translateModbusError_def)

section \<open>The connection invariant\<close>

text \<open>A client that says it is connected has a handler and a Modbus client, and only then.\<close>

definition client_inv :: "'w mb_state \<Rightarrow> bool" where
  "client_inv st \<longleftrightarrow> mb_has_client (fst st) = mb_connected (fst st) \<and> mb_handler (fst st) = mb_connected (fst st)"

lemmas client_updates = count_error_def count_read_def count_write_def add_failure_def
  reset_failures_def recordTagError_def recordTagSuccess_def Let_def

lemma hooks_inv:
  "client_inv st \<Longrightarrow> client_inv (snd (backoff_step ops k st))"
  "client_inv st \<Longrightarrow> client_inv (snd (wait_step ops d st))"
  "client_inv st \<Longrightarrow> client_inv (snd (readRegisters ops t st))"
  "client_inv st \<Longrightarrow> client_inv (snd (writeRegister ops t v st))"
  "client_inv st \<Longrightarrow> client_inv (snd (Connect ops st))"
  "client_inv st \<Longrightarrow> client_inv (Disconnect ops st)"
  by (auto simp: client_inv_def backoff_step_def wait_step_def readRegisters_def writeRegister_def
      Connect_def Disconnect_def client_updates
      split: prod.splits if_splits option.splits sum.splits outcome.splits connect_race.splits)

lemma reconnect_inv: "client_inv st \<Longrightarrow> client_inv (reconnect ops st)"
  by (simp add: reconnect_def hooks_inv)

lemma retry_hooks_inv:
  "hooks_keep client_inv (read_hooks ops t)" "hooks_keep client_inv (write_hooks ops t v)"
  by (simp_all add: hooks_keep_def read_hooks_def write_hooks_def hooks_inv reconnect_inv)

lemma ends_inv:
  "client_inv st \<Longrightarrow> client_inv (snd (fail_read ops t e st))"
  "client_inv st \<Longrightarrow> client_inv (snd (finish_read ops t b st))"
  "client_inv st \<Longrightarrow> client_inv (on_client count_write st)"
  "client_inv st \<Longrightarrow> client_inv (on_client count_error st)"
  "client_inv (touch ops st) = client_inv st"
  "client_inv (add_read_time ops z st) = client_inv st"
  "client_inv (add_write_time ops z st) = client_inv st"
  by (auto simp: client_inv_def fail_read_def finish_read_def on_client_def touch_def add_read_time_def
      add_write_time_def client_updates split: prod.splits outcome.splits)

lemma read_body_inv: "client_inv st \<Longrightarrow> client_inv (snd (read_body ops t st))"
  using run_retries_keeps [OF retry_hooks_inv(1), of st ops t "cc_MaxRetries (mb_config (fst st))"]
  by (auto simp: read_body_def ends_inv split: prod.splits retry_end.splits)

lemma write_body_inv: "client_inv st \<Longrightarrow> client_inv (snd (write_body ops t v st))"
  using run_retries_keeps [OF retry_hooks_inv(2), of st ops t v "cc_MaxRetries (mb_config (fst st))"]
  by (auto simp: write_body_def ends_inv split: prod.splits retry_end.splits)

lemma ReadTag_inv: "client_inv st \<Longrightarrow> client_inv (snd (ReadTag ops t st))"
  using read_body_inv [of "touch ops st" ops t] by (auto simp: ReadTag_def ends_inv split: prod.splits)

lemma WriteTag_inv: "client_inv st \<Longrightarrow> client_inv (snd (WriteTag ops t v st))"
  using write_body_inv [of "touch ops st" ops t v] by (auto simp: WriteTag_def Let_def ends_inv split: prod.splits)

lemma direct_write_inv: "client_inv st \<Longrightarrow> client_inv (snd (direct_write ops f st))"
  by (auto simp: direct_write_def client_inv_def touch_def client_updates split: prod.splits option.splits)

text \<open>So a connected client never reports a closed connection from its own reads.\<close>

lemma readRegisters_open:
  assumes "client_inv st" "mb_connected (fst st)"
  shows "readRegisters ops t st = (case st of (c, w) \<Rightarrow> case validateProtocolLimits t of
       Some e \<Rightarrow> (Err e, st)
     | None \<Rightarrow>
         if \<not> is_known (RegisterType t) then (Err ErrInvalidRegisterType, st)
         else case lib_read ops (RegisterType t) (Address t) (RegisterCount t) w of
           (Inl e, w1) \<Rightarrow> (Err (translateModbusError e), (add_failure c, w1))
         | (Inr b, w1) \<Rightarrow> (Ok b, (reset_failures c, w1)))"
  using assms by (auto simp: readRegisters_def client_inv_def split: prod.splits)

section \<open>Backoff\<close>

lemma calculateBackoff_bounds:
  assumes rnd: "\<And>n. 0 < n \<Longrightarrow> 0 \<le> rnd n \<and> rnd n < n" and d: "2 \<le> d" "d * 2 ^ k < 2 ^ 63"
  shows "\<exists>b. calculateBackoff rnd d k = Ok b
     \<and> 3 * min (10 * second) (d * 2 ^ k) \<le> 4 * b \<and> 4 * b \<le> 5 * min (10 * second) (d * 2 ^ k)"
proof -
  define m where "m = min (10 * second) (d * 2 ^ k)"
  have "d \<le> d * 2 ^ k" using d by simp
  then have "2 \<le> d * 2 ^ k" using d(1) by linarith
  then have m: "backoff_delay d k = m" "2 \<le> m"
    using backoff_delay_small [of d k] d by (auto simp: m_def)
  then have "0 \<le> rnd (m div 2) \<and> rnd (m div 2) < m div 2" by (intro rnd) auto
  then have "3 * m \<le> 4 * (m + (rnd (m div 2) - m div 4)) \<and> 4 * (m + (rnd (m div 2) - m div 4)) \<le> 5 * m"
    by presburger
  moreover have "calculateBackoff rnd d k = Ok (m + (rnd (m div 2) - m div 4))"
    using m by (simp add: calculateBackoff_def)
  ultimately show ?thesis by (simp add: m_def)
qed

section \<open>Coil packing\<close>

lemma length_pack_fold [simp]: "length (foldl pack_bit bs ivs) = length bs"
  by (induction ivs arbitrary: bs) (auto simp: pack_bit_def split: prod.splits)

lemma bit_pack_bit:
  assumes "j < 8 * length bs"
  shows "bit (pack_bit bs (i, v) ! (j div 8)) (j mod 8) \<longleftrightarrow> (v \<and> i = j) \<or> bit (bs ! (j div 8)) (j mod 8)"
proof (cases "i div 8 = j div 8")
  case True
  then have "i = j \<longleftrightarrow> i mod 8 = j mod 8" by (metis mult_div_mod_eq)
  then show ?thesis using assms True
    by (auto simp: pack_bit_def bit_simps)
next
  case False
  then show ?thesis by (auto simp: pack_bit_def)
qed

lemma bit_pack_fold:
  "j < 8 * length bs \<Longrightarrow> bit (foldl pack_bit bs ivs ! (j div 8)) (j mod 8)
     \<longleftrightarrow> (j, True) \<in> set ivs \<or> bit (bs ! (j div 8)) (j mod 8)"
proof (induction ivs arbitrary: bs)
  case (Cons iv ivs)
  obtain i v where iv: "iv = (i, v)" by (cases iv)
  have "j < 8 * length (pack_bit bs iv)" using Cons.prems by (simp add: iv pack_bit_def)
  from Cons.IH [OF this] bit_pack_bit [OF Cons.prems] show ?case by (auto simp: iv)
qed simp

lemma length_pack_bools [simp]: "length (pack_bools vs) = (length vs + 7) div 8"
  by (simp add: pack_bools_def)

lemma bit_pack_bools:
  assumes "j < 8 * ((length vs + 7) div 8)"
  shows "bit (pack_bools vs ! (j div 8)) (j mod 8) \<longleftrightarrow> j < length vs \<and> vs ! j"
  using assms
  by (auto simp: pack_bools_def bit_pack_fold less_mult_imp_div_less mult.commute in_set_enumerate_eq)

section \<open>Writing a tag and reading it back\<close>

text \<open>
  A device whose holding registers are memory: a write succeeds and a read returns the bytes
  written, high byte first.
\<close>

definition register_memory :: "'w modbus_ops \<Rightarrow> bool" where
  "register_memory ops \<longleftrightarrow>
     (\<forall>a n bs w. length bs = 2 * unat n \<longrightarrow> (\<exists>w'. lib_WriteMultipleRegisters ops a n bs w = (None, w')
        \<and> ReadHoldingRegisters ops a n w' = (Inr bs, w')))
     \<and> (\<forall>a v w. \<exists>w'. lib_WriteSingleRegister ops a v w = (None, w')
        \<and> ReadHoldingRegisters ops a 1 w' = (Inr (PutUint16 v), w'))"

lemma writeHolding_memory:
  assumes mem: "register_memory ops" and bs: "valueToBytes (mb_arch ops w) v t = Ok bs"
    and len: "length bs = 2 * unat (RegisterCount t)"
  shows "\<exists>w'. writeHoldingRegisterLocked ops t v w = (Ok (), w')
    \<and> ReadHoldingRegisters ops (Address t) (RegisterCount t) w' = (Inr bs, w')"
proof (cases "length bs = 2")
  case True
  then obtain x where x: "Uint16 bs = Ok x" by (simp add: Uint16_def)
  have "PutUint16 x = bs" using True x by (rule u16c.put_get)
  moreover obtain w' where "lib_WriteSingleRegister ops (Address t) x w = (None, w')"
    "ReadHoldingRegisters ops (Address t) 1 w' = (Inr (PutUint16 x), w')"
    using mem unfolding register_memory_def by blast
  moreover have "unat (RegisterCount t) = unat (1 :: u16)" using True len by simp
  then have "RegisterCount t = 1" by (simp only: word_unat_eq_iff)
  ultimately show ?thesis using bs x True by (simp add: writeHoldingRegisterLocked_def write_result_def)
next
  case False
  have "word_of_nat (length bs div 2) = RegisterCount t" using len by simp
  moreover obtain w' where "lib_WriteMultipleRegisters ops (Address t) (RegisterCount t) bs w = (None, w')"
    "ReadHoldingRegisters ops (Address t) (RegisterCount t) w' = (Inr bs, w')"
    using mem len unfolding register_memory_def by blast
  ultimately show ?thesis using bs False by (simp add: writeHoldingRegisterLocked_def write_result_def)
qed

definition ready :: "'w mb_state \<Rightarrow> bool" where
  "ready st \<longleftrightarrow> mb_connected (fst st) \<and> mb_has_client (fst st) \<and> 0 \<le> cc_MaxRetries (mb_config (fst st))"

lemma WriteTag_first_ok:
  assumes "ready st" "IsWritable t" "writeRegister ops t v (touch ops st) = (Ok (), st')"
  shows "WriteTag ops t v st
    = (Ok (), add_write_time ops (w_now ops (snd st)) (on_client count_write st'))"
  using assms run_retries_first_ok [of "cc_MaxRetries (mb_config (fst st))" "write_hooks ops t v" "touch ops st"]
  by (simp add: WriteTag_def write_body_def ready_def write_hooks_def)

lemma ReadTag_first_ok:
  assumes "ready st" "readRegisters ops t (touch ops st) = (Ok b, st')"
  shows "ReadTag ops t st = (case finish_read ops t b st' of
     (r, st1) \<Rightarrow> (r, add_read_time ops (w_now ops (snd st)) st1))"
  using assms run_retries_first_ok [of "cc_MaxRetries (mb_config (fst st))" "read_hooks ops t" "touch ops st"]
  by (simp add: ReadTag_def read_body_def ready_def read_hooks_def)

lemma valueToBytes_length:
  "exact_count t \<Longrightarrow> valueToBytes ar v t = Ok bs \<Longrightarrow> length bs = 2 * unat (RegisterCount t)"
  by (auto simp: valueToBytes_def go_simps exact_count_def dest!: length_encode_actual)

lemma WriteTag_memory:
  assumes mem: "register_memory ops" and st: "ready (c, w)" and "IsWritable t"
    and hr: "RegisterType t = RegisterTypeHoldingRegister" and ex: "exact_count t"
    and bs: "valueToBytes (mb_arch ops w) v t = Ok bs"
  obtains c' w' where "WriteTag ops t v (c, w) = (Ok (), (c', w'))" "ready (c', w')"
    "ReadHoldingRegisters ops (Address t) (RegisterCount t) w' = (Inr bs, w')"
proof -
  obtain w' where w': "writeHoldingRegisterLocked ops t v w = (Ok (), w')"
    "ReadHoldingRegisters ops (Address t) (RegisterCount t) w' = (Inr bs, w')"
    using writeHolding_memory [OF mem bs valueToBytes_length [OF ex bs]] by blast
  have "writeRegister ops t v (touch ops (c, w))
      = (Ok (), (reset_failures (c\<lparr>mb_lastUsed := w_now ops w\<rparr>), w'))"
    using st hr w' by (simp add: writeRegister_def touch_def ready_def)
  from WriteTag_first_ok [OF st \<open>IsWritable t\<close> this] obtain c' where
    "WriteTag ops t v (c, w) = (Ok (), (c', w'))" "ready (c', w')"
    using st by (auto simp: add_write_time_def on_client_def ready_def client_updates)
  with w'(2) show thesis by (rule that [of c' w', rotated 2])
qed

lemma write_then_read:
  assumes mem: "register_memory ops" and st: "ready (c, w)" and wr: "IsWritable t"
    and hr: "RegisterType t = RegisterTypeHoldingRegister" and lim: "validateProtocolLimits t = None"
    and ex: "exact_count t" and bs: "valueToBytes (mb_arch ops w) v t = Ok bs"
    and v': "fst (parseValue bs t) = Ok v'"
  shows "\<exists>st1 dp st2. WriteTag ops t v (c, w) = (Ok (), st1) \<and> ReadTag ops t st1 = (Ok (Some dp, None), st2)
     \<and> dp_RawValue dp = v' \<and> dp_Value dp = applyScaling v' t \<and> dp_Quality dp = QualityGood"
proof -
  obtain c1 w1 where w1: "WriteTag ops t v (c, w) = (Ok (), (c1, w1))" "ready (c1, w1)"
    "ReadHoldingRegisters ops (Address t) (RegisterCount t) w1 = (Inr bs, w1)"
    using WriteTag_memory [OF mem st wr hr ex bs] by blast
  have "readRegisters ops t (touch ops (c1, w1))
      = (Ok bs, (reset_failures (c1\<lparr>mb_lastUsed := w_now ops w1\<rparr>), w1))"
    using w1 hr lim by (simp add: readRegisters_def touch_def ready_def is_known_def lib_read_def)
  from ReadTag_first_ok [OF w1(2) this] w1(1) v' show ?thesis
    by (auto simp: finish_read_def Let_def WithRawValue_def AcquireDataPoint_def)
qed

section \<open>Failures\<close>

text \<open>A failure of the library without one of the four connection texts is final.\<close>

lemma library_failure_final:
  assumes st: "ready (c, w)" and lim: "validateProtocolLimits t = None" and kn: "is_known (RegisterType t)"
    and lib: "lib_read ops (RegisterType t) (Address t) (RegisterCount t) w = (Inl e, w')"
    and nt: "\<not> contains_any (err_text e) connection_texts"
  shows "\<exists>dp st'. ReadTag ops t (c, w) = (Ok (Some dp, Some (translateModbusError e)), st')
     \<and> dp_Quality dp = QualityBad \<and> retry_count st' = retry_count (c, w) \<and> snd st' = w'"
proof -
  let ?e = "translateModbusError e" and ?st = "touch ops (c, w)"
  let ?st' = "(add_failure (c\<lparr>mb_lastUsed := w_now ops w\<rparr>), w')"
  have op: "readRegisters ops t ?st = (Err ?e, ?st')"
    using st lim kn lib by (simp add: readRegisters_def touch_def ready_def)
  have nr: "\<not> isRetryableError ?e" using nt by (simp add: translated_retryable)
  have "run_retries (read_hooks ops t) (cc_MaxRetries (mb_config c)) ?st = (Fatal ?e, ?st')"
    using st nr op by (intro run_retries_fatal_first) (simp_all add: read_hooks_def ready_def)
  then have "ReadTag ops t (c, w) = (case fail_read ops t ?e ?st' of
      (r, st1) \<Rightarrow> (r, add_read_time ops (w_now ops w) st1))"
    using st by (simp add: ReadTag_def read_body_def ready_def)
  moreover have "\<not> isTimeout ?e" "\<not> isConnectionError ?e" using nr by (simp_all add: isRetryableError_def)
  ultimately show ?thesis
    by (auto simp: fail_read_def Let_def createErrorDataPoint_def AcquireDataPoint_def retry_count_def
        add_read_time_def client_updates)
qed

lemma WriteTag_negative_retries:
  assumes "mb_connected c" "IsWritable t" "cc_MaxRetries (mb_config c) < 0"
  shows "\<exists>c'. WriteTag ops t v (c, w) = (Ok (), (c', w))"
  using assms run_retries_negative [OF assms(3), of "write_hooks ops t v" "touch ops (c, w)"]
  by (auto simp: WriteTag_def write_body_def touch_def on_client_def add_write_time_def)

section \<open>What the counters say\<close>

lemma client_frame_counts:
  "client_frame s' = client_frame s \<Longrightarrow> ReadCount (mb_stats (fst s')) = ReadCount (mb_stats (fst s))
     \<and> ErrorCount (mb_stats (fst s')) = ErrorCount (mb_stats (fst s))
     \<and> WriteCount (mb_stats (fst s')) = WriteCount (mb_stats (fst s))"
  by (simp add: client_frame_def)

lemma finish_read_counts:
  "finish_read ops t b st = (Ok (dp, e), st') \<Longrightarrow>
     ReadCount (mb_stats (fst st')) = Suc (ReadCount (mb_stats (fst st)))
     \<and> ErrorCount (mb_stats (fst st')) = ErrorCount (mb_stats (fst st))"
  by (auto simp: finish_read_def client_updates split: prod.splits outcome.splits)

lemma fail_read_counts:
  "fail_read ops t x st = (Ok (dp, e), st') \<Longrightarrow> e = Some x
     \<and> ReadCount (mb_stats (fst st')) = ReadCount (mb_stats (fst st))
     \<and> ErrorCount (mb_stats (fst st')) = Suc (ErrorCount (mb_stats (fst st)))"
  by (auto simp: fail_read_def client_updates split: prod.splits)

definition reads_and_errors :: "'w mb_state \<Rightarrow> nat" where
  "reads_and_errors st = ReadCount (mb_stats (fst st)) + ErrorCount (mb_stats (fst st))"

lemma read_body_counts:
  assumes "read_body ops t st = (Ok (dp, e), st')"
  shows "reads_and_errors st' \<le> Suc (reads_and_errors st)"
    and "e = None \<Longrightarrow> ReadCount (mb_stats (fst st')) = Suc (ReadCount (mb_stats (fst st)))
       \<and> ErrorCount (mb_stats (fst st')) = ErrorCount (mb_stats (fst st))"
proof -
  obtain r st1 where run: "run_retries (read_hooks ops t) (cc_MaxRetries (mb_config (fst st))) st = (r, st1)"
    by (rule prod.exhaust)
  note keep = client_frame_counts [OF reading.run_bound(2) [OF run]]
  show "reads_and_errors st' \<le> Suc (reads_and_errors st)"
    using assms run keep
    by (auto simp: read_body_def reads_and_errors_def split: retry_end.splits if_splits
        dest!: finish_read_counts fail_read_counts)
  show "e = None \<Longrightarrow> ReadCount (mb_stats (fst st')) = Suc (ReadCount (mb_stats (fst st)))
       \<and> ErrorCount (mb_stats (fst st')) = ErrorCount (mb_stats (fst st))"
    using assms run keep
    by (auto simp: read_body_def split: retry_end.splits if_splits
        dest!: finish_read_counts fail_read_counts)
qed

section \<open>A device to try it on\<close>

text \<open>Registers as a map from addresses to two bytes; nothing fails, time stands still.\<close>

definition memory_device :: "(u16 \<Rightarrow> bytes) modbus_ops" where
  "memory_device = \<lparr>w_now = (\<lambda>w. 0), w_rand = (\<lambda>n w. (0, w)), w_wait = (\<lambda>d w. (None, w)),
     w_ctx = (\<lambda>w. None), w_connect = (\<lambda>w. (ConnectDone None, w)), w_close = (\<lambda>w. w),
     ReadCoils = (\<lambda>a n w. (Inr [], w)), ReadDiscreteInputs = (\<lambda>a n w. (Inr [], w)),
     ReadHoldingRegisters = (\<lambda>a n w. (Inr (concat (map (\<lambda>i. w (a + word_of_nat i)) [0..<unat n])), w)),
     ReadInputRegisters = (\<lambda>a n w. (Inr [], w)),
     lib_WriteSingleCoil = (\<lambda>a v w. (None, w)),
     lib_WriteSingleRegister = (\<lambda>a v w. (None, w(a := PutUint16 v))),
     lib_WriteMultipleRegisters = (\<lambda>a n bs w. (None, \<lambda>x. if unat (x - a) < unat n
        then take 2 (drop (2 * unat (x - a)) bs) else w x)),
     lib_WriteMultipleCoils = (\<lambda>a n bs w. (None, w)),
     mb_arch = (\<lambda>w. \<lparr>oob_i64 = (\<lambda>x. 0), oob_u64 = (\<lambda>x. 0)\<rparr>)\<rparr>"

lemma concat_pairs:
  "length bs = 2 * n \<Longrightarrow> concat (map (\<lambda>i. take 2 (drop (2 * i) bs)) [0..<n]) = bs"
proof (induction n arbitrary: bs)
  case (Suc n)
  have "concat (map (\<lambda>i. take 2 (drop (2 * i) (take (2 * n) bs))) [0..<n]) = take (2 * n) bs"
    using Suc.prems by (intro Suc.IH) simp
  moreover have "take 2 (drop (2 * i) (take (2 * n) bs)) = take 2 (drop (2 * i) bs)" if "i < n" for i
    using that by (simp add: drop_take)
  ultimately have "concat (map (\<lambda>i. take 2 (drop (2 * i) bs)) [0..<n]) = take (2 * n) bs"
    by (metis (no_types, lifting) atLeastLessThan_iff map_cong set_upt)
  then show ?case using Suc.prems by simp
qed simp

lemma memory_device_memory: "register_memory memory_device"
proof -
  have "concat (map (\<lambda>i. if unat (a + word_of_nat i - a) < unat n
      then take 2 (drop (2 * unat (a + word_of_nat i - a)) bs) else w (a + word_of_nat i)) [0..<unat n]) = bs"
    if "length bs = 2 * unat n" for a n :: u16 and bs :: bytes and w :: "u16 \<Rightarrow> bytes"
  proof -
    have "unat (word_of_nat i :: u16) = i" if "i < unat n" for i
    proof -
      have "unat n < 2 ^ LENGTH(16)" by (rule unsigned_less)
      then show ?thesis using that by (simp add: unat_of_nat)
    qed
    then have "map (\<lambda>i. if unat (a + word_of_nat i - a) < unat n
        then take 2 (drop (2 * unat (a + word_of_nat i - a)) bs) else w (a + word_of_nat i)) [0..<unat n]
      = map (\<lambda>i. take 2 (drop (2 * i) bs)) [0..<unat n]"
      by simp
    then show ?thesis by (simp only: concat_pairs [OF that])
  qed
  then show ?thesis by (simp add: register_memory_def memory_device_def)
qed

definition slow_device :: "(u16 \<Rightarrow> bytes) modbus_ops" where
  "slow_device = memory_device\<lparr>ReadHoldingRegisters := (\<lambda>a n w. (Inl (NetErr True ''i/o timeout''), w))\<rparr>"

definition open_client :: "int \<Rightarrow> mb_client" where
  "open_client retries = \<lparr>mb_config = \<lparr>cc_Address = ''plc:502'', cc_SlaveID = 1, cc_Timeout = second,
       cc_IdleTimeout = second, cc_MaxRetries = retries, cc_RetryDelay = 100 * millisecond,
       cc_Protocol = ProtocolModbusTCP\<rparr>,
     mb_handler = True, mb_has_client = True, mb_connected = True, mb_lastError = None,
     mb_lastUsed = 0, mb_stats = zero_stats, mb_deviceID = ''plc'', mb_consecutiveFailures = 0,
     mb_tagDiagnostics = Map.empty\<rparr>"

lemma open_client_ready: "0 \<le> m \<Longrightarrow> ready (open_client m, w)"
  by (simp add: ready_def open_client_def)

lemma no_scaling_one: "ScaleFactor t = f64_one \<Longrightarrow> Offset t = 0 \<Longrightarrow> no_scaling t"
  by (simp add: no_scaling_def f64_eq_def f64_dec_def fp_decode_def decode_mag_def float_consts signed_mag_def)

lemma int_tag_facts [simp]:
  "IsWritable int_tag" "RegisterType int_tag = RegisterTypeHoldingRegister"
  "validateProtocolLimits int_tag = None" "exact_count int_tag" "no_scaling int_tag"
  "DataType int_tag = DataTypeInt32" "is_known (RegisterType int_tag)"
  by (simp_all add: no_scaling_one int_tag_def raw_tag_def zero_tag_def IsWritable_def validateProtocolLimits_def
      exact_count_def is_bit_type_def ExpectedRegisterCount_def is_known_def)

section \<open>Properties\<close>

text \<open>
  C1: On a device whose registers are memory, a connected client (its retry limit not negative) writes a
  value of a tag's own Go type to it and then reads the very same value back with good quality; the write succeeds.
  The tag is a writable holding register within the protocol limits, it has no scaling (factor 1,
  offset 0), its register count is exactly the one its data type needs, and it has no bit position
  when it is a boolean.  Under these conditions the register count, the byte order, the choice
  between the single and the multiple write, and the decoding agree.
\<close>

theorem write_read_back:
  assumes "register_memory ops" and "ready (c, w)" and "IsWritable t"
    and "RegisterType t = RegisterTypeHoldingRegister" and "validateProtocolLimits t = None"
    and "exact_count t" and "no_scaling t" and "typed_as (DataType t) v"
    and "DataType t = DataTypeBool \<Longrightarrow> BitPosition t = None"
  shows "\<exists>st1 dp st2. WriteTag ops t v (c, w) = (Ok (), st1) \<and> ReadTag ops t st1 = (Ok (Some dp, None), st2)
     \<and> dp_Value dp = v \<and> dp_Quality dp = QualityGood"
proof -
  obtain bs where "valueToBytes (mb_arch ops w) v t = Ok bs" "fst (parseValue bs t) = Ok v"
    using roundtrip_typed [OF assms(6-9)] by blast
  from write_then_read [OF assms(1-6) this] \<open>no_scaling t\<close> show ?thesis
    by (auto simp: applyScaling_def)
qed

theorem write_read_back_witness:
  "\<exists>st1 dp st2. WriteTag memory_device int_tag (VInt32 7) (open_client 3, \<lambda>a. [0, 0]) = (Ok (), st1)
     \<and> ReadTag memory_device int_tag st1 = (Ok (Some dp, None), st2)
     \<and> dp_Value dp = VInt32 7 \<and> dp_Quality dp = QualityGood"
  by (rule write_read_back) (simp_all add: memory_device_memory open_client_ready typed_as_shapes)

text \<open>
  An integer sent as a JSON number (a \<open>float64\<close>) below 2 to the 53 and within the range of the
  tag's integer type is read back as that integer.
\<close>

theorem json_integer_read_back:
  assumes "register_memory ops" and "ready (c, w)" and "IsWritable t"
    and "RegisterType t = RegisterTypeHoldingRegister" and "validateProtocolLimits t = None"
    and "exact_count t" and "no_scaling t" and "in_type_range (DataType t) i" and "\<bar>i\<bar> < 2 ^ 53"
  shows "\<exists>st1 dp st2. WriteTag ops t (VFloat64 (f64_of_int i)) (c, w) = (Ok (), st1)
     \<and> ReadTag ops t st1 = (Ok (Some dp, None), st2) \<and> goval_int (dp_Value dp) = Some i"
proof -
  obtain bs v where bs: "valueToBytes (mb_arch ops w) (VFloat64 (f64_of_int i)) t = Ok bs"
    "fst (parseValue bs t) = Ok v" and v: "goval_int v = Some i"
    using roundtrip_json_int [OF assms(6-9)] by blast
  from write_then_read [OF assms(1-6) bs] \<open>no_scaling t\<close> v show ?thesis
    by (auto simp: applyScaling_def)
qed

theorem json_integer_read_back_witness:
  "\<exists>st1 dp st2. WriteTag memory_device int_tag (VFloat64 (f64_of_int (-5))) (open_client 3, \<lambda>a. [0, 0]) = (Ok (), st1)
     \<and> ReadTag memory_device int_tag st1 = (Ok (Some dp, None), st2) \<and> goval_int (dp_Value dp) = Some (-5)"
  by (rule json_integer_read_back) (simp_all add: memory_device_memory open_client_ready)

text \<open>
  Whether a read failure is retried depends on its text alone: wrapping the library's error
  hides a timeout and an end of file from the retry test, and only the four connection texts are
  found again in the wrapped message.
\<close>

theorem retry_decision:
  "isRetryableError (translateModbusError e) \<longleftrightarrow> contains_any (err_text e)
     [''connection reset'', ''broken pipe'', ''connection refused'', ''no route to host'']"
  by (rule translated_retryable)

text \<open>
  A request that fails in the library without one of those texts, a timeout for one, ends
  after a single attempt: the error is wrapped, the point has the quality \<open>bad\<close>, no retry is
  counted and the world is the one the single request left.
\<close>

theorem failure_without_retry:
  assumes "ready (c, w)" and "validateProtocolLimits t = None" and "is_known (RegisterType t)"
    and "lib_read ops (RegisterType t) (Address t) (RegisterCount t) w = (Inl e, w')"
    and "\<not> contains_any (err_text e) connection_texts"
  shows "\<exists>dp st'. ReadTag ops t (c, w) = (Ok (Some dp, Some (translateModbusError e)), st')
     \<and> dp_Quality dp = QualityBad \<and> retry_count st' = retry_count (c, w) \<and> snd st' = w'"
  using assms by (rule library_failure_final)

theorem failure_without_retry_witness:
  "\<exists>dp st'. ReadTag slow_device int_tag (open_client 3, \<lambda>a. [0, 0])
       = (Ok (Some dp, Some (translateModbusError (NetErr True ''i/o timeout''))), st')
     \<and> dp_Quality dp = QualityBad \<and> retry_count st' = retry_count (open_client 3, \<lambda>a::u16. [0, 0 :: byte])
     \<and> snd st' = (\<lambda>a. [0, 0])"
  by (rule failure_without_retry)
    (simp_all add: open_client_ready lib_read_def is_known_def slow_device_def contains_any_def)

text \<open>
  A read and a write retry at most \<open>MaxRetries\<close> times, whatever the device, the context and
  the clock do.
\<close>

theorem retries_bounded:
  "retry_count (snd (ReadTag ops t st)) \<le> retry_count st + nat (cc_MaxRetries (mb_config (fst st)))
   \<and> retry_count (snd (WriteTag ops t v st)) \<le> retry_count st + nat (cc_MaxRetries (mb_config (fst st)))"
  using ReadTag_retries WriteTag_retries by blast

text \<open>
  With a negative retry count, which nothing in the client rejects, a write reports success
  without any request: the device's world is untouched.
\<close>

theorem negative_retries_write_nothing:
  assumes "mb_connected c" and "IsWritable t" and "cc_MaxRetries (mb_config c) < 0"
  shows "\<exists>c'. WriteTag ops t v (c, w) = (Ok (), (c', w))"
  using assms by (rule WriteTag_negative_retries)

theorem negative_retries_write_nothing_witness:
  "\<exists>c'. WriteTag memory_device int_tag (VInt32 7) (open_client (-1), \<lambda>a. [0, 0]) = (Ok (), (c', \<lambda>a. [0, 0]))"
  by (rule negative_retries_write_nothing) (simp_all add: open_client_def)

text \<open>
  Every client operation keeps the invariant that the connected flag, the handler and the
  Modbus client go together.
\<close>

theorem operations_keep_connection_invariant:
  assumes "client_inv st"
  shows "client_inv (snd (Connect ops st)) \<and> client_inv (Disconnect ops st) \<and> client_inv (reconnect ops st)
     \<and> client_inv (snd (ReadTag ops t st)) \<and> client_inv (snd (WriteTag ops t v st))
     \<and> client_inv (snd (WriteSingleCoil ops a b st)) \<and> client_inv (snd (WriteSingleRegister ops a x st))
     \<and> client_inv (snd (WriteMultipleRegisters ops a xs st))
     \<and> client_inv (snd (WriteMultipleCoils ops a bs st))"
  using assms
  by (simp add: hooks_inv reconnect_inv ReadTag_inv WriteTag_inv direct_write_inv WriteSingleCoil_def
      WriteSingleRegister_def WriteMultipleRegisters_def WriteMultipleCoils_def)

theorem operations_keep_connection_invariant_witness:
  "client_inv (snd (ReadTag slow_device int_tag (open_client 3, \<lambda>a. [0, 0])))"
  using operations_keep_connection_invariant [of "(open_client 3, \<lambda>a. [0, 0])" slow_device int_tag]
  by (simp add: client_inv_def open_client_def)

text \<open>
  The backoff before attempt \<open>k\<close> lies within a quarter of the smaller of ten seconds and the
  doubled delay, as long as that product fits 64 bits.
\<close>

theorem backoff_within_quarter:
  assumes "\<And>n. 0 < n \<Longrightarrow> 0 \<le> rnd n \<and> rnd n < n" and "2 \<le> d" and "d * 2 ^ k < 2 ^ 63"
  shows "\<exists>b. calculateBackoff rnd d k = Ok b
     \<and> 3 * min (10 * second) (d * 2 ^ k) \<le> 4 * b \<and> 4 * b \<le> 5 * min (10 * second) (d * 2 ^ k)"
  using assms by (rule calculateBackoff_bounds)

theorem backoff_within_quarter_witness:
  "\<exists>b. calculateBackoff (\<lambda>n. n - 1) (100 * millisecond) 2 = Ok b
     \<and> 3 * (400 * millisecond) \<le> 4 * b \<and> 4 * b \<le> 5 * (400 * millisecond)"
  using backoff_within_quarter [of "\<lambda>n. n - 1" "100 * millisecond" 2] by simp

text \<open>
  The packed bytes of a multiple coil write hold coil \<open>j\<close> in bit \<open>j mod 8\<close> of byte \<open>j div 8\<close>;
  the bits past the last coil are clear.
\<close>

theorem packed_coils:
  assumes "j < 8 * ((length vs + 7) div 8)"
  shows "bit (pack_bools vs ! (j div 8)) (j mod 8) \<longleftrightarrow> j < length vs \<and> vs ! j"
  using assms by (rule bit_pack_bools)

theorem packed_coils_witness:
  "bit (pack_bools [True, False, True, True, False, False, False, False, True, True] ! (9 div 8)) (9 mod 8)"
  using packed_coils [of 9 "[True, False, True, True, False, False, False, False, True, True]"] by simp

end
