(* ===== verification/Range_Merge.thy ===== *)
theory Range_Merge
  imports Prelude "HOL-Library.Multiset"
begin

text \<open>
  The merging pass the batch readers share: walk over the sorted items, extend the current range
  while the merge test holds, and start a new range otherwise.  The locale \<open>range_merging\<close> is
  the contract of the three readers (Modbus registers, Modbus coils, S7 bytes): what the ranges
  together hold, and an invariant every range keeps.
\<close>

section \<open>The pass\<close>

fun merge_items :: "('r \<Rightarrow> 't \<Rightarrow> bool) \<Rightarrow> ('r \<Rightarrow> 't \<Rightarrow> 'r) \<Rightarrow> ('t \<Rightarrow> 'r) \<Rightarrow> 'r \<Rightarrow> 't list \<Rightarrow> 'r list" where
  "merge_items can ext st cur [] = [cur]"
| "merge_items can ext st cur (t # ts) =
     (if can cur t then merge_items can ext st (ext cur t) ts
      else cur # merge_items can ext st (st t) ts)"

section \<open>Its contract\<close>

locale range_merging =
  fixes can :: "'r \<Rightarrow> 't \<Rightarrow> bool"
    and ext :: "'r \<Rightarrow> 't \<Rightarrow> 'r"
    and st :: "'t \<Rightarrow> 'r"
    and items :: "'r \<Rightarrow> 't list"
    and base :: "'r \<Rightarrow> int"
    and key :: "'t \<Rightarrow> int"
    and good :: "'t \<Rightarrow> bool"
    and rinv :: "'r \<Rightarrow> bool"
  assumes items_st: "good t \<Longrightarrow> items (st t) = [t]"
    and items_ext: "rinv r \<Longrightarrow> good t \<Longrightarrow> items (ext r t) = items r @ [t]"
    and base_st: "base (st t) = key t"
    and base_ext: "base (ext r t) = base r"
    and rinv_st: "good t \<Longrightarrow> rinv (st t)"
    and rinv_ext: "rinv r \<Longrightarrow> good t \<Longrightarrow> can r t \<Longrightarrow> base r \<le> key t \<Longrightarrow> rinv (ext r t)"
begin

text \<open>A current range and the items still to come.\<close>

lemma merged:
  assumes "rinv cur" "items cur \<noteq> []" "\<forall>t\<in>set ts. good t" "sorted (map key ts)" "\<forall>t\<in>set ts. base cur \<le> key t"
  shows "concat (map items (merge_items can ext st cur ts)) = items cur @ ts
    \<and> (\<forall>r\<in>set (merge_items can ext st cur ts). rinv r \<and> items r \<noteq> [])"
  using assms
proof (induction ts arbitrary: cur)
  case (Cons t ts)
  have t: "good t" "\<forall>t\<in>set ts. good t" "sorted (map key ts)" "base cur \<le> key t" "\<forall>u\<in>set ts. key t \<le> key u"
    using Cons.prems by simp_all
  show ?case
  proof (cases "can cur t")
    case True
    have e: "items (ext cur t) = items cur @ [t]" using Cons.prems(1) t(1) by (rule items_ext)
    have "concat (map items (merge_items can ext st (ext cur t) ts)) = items (ext cur t) @ ts
      \<and> (\<forall>r\<in>set (merge_items can ext st (ext cur t) ts). rinv r \<and> items r \<noteq> [])"
      using Cons.prems t True by (intro Cons.IH) (simp_all add: rinv_ext base_ext e)
    then show ?thesis using True e by simp
  next
    case False
    have "concat (map items (merge_items can ext st (st t) ts)) = items (st t) @ ts
      \<and> (\<forall>r\<in>set (merge_items can ext st (st t) ts). rinv r \<and> items r \<noteq> [])"
      using t by (intro Cons.IH) (simp_all add: rinv_st base_st items_st)
    then show ?thesis using False Cons.prems t(1) by (simp add: items_st)
  qed
qed simp

lemma merge_count: "length (merge_items can ext st cur ts) \<le> Suc (length ts)"
  by (induction ts arbitrary: cur) (auto simp: le_SucI)

text \<open>The pass over a sorted list.\<close>

lemma from_first:
  assumes "\<forall>t\<in>set (t0 # ts). good t" "sorted (map key (t0 # ts))"
  shows "concat (map items (merge_items can ext st (st t0) ts)) = t0 # ts"
    and "\<forall>r\<in>set (merge_items can ext st (st t0) ts). rinv r \<and> items r \<noteq> []"
  using assms merged [of "st t0" ts] by (simp_all add: rinv_st base_st items_st)

end

section \<open>The sort the readers use\<close>

text \<open>
  \<open>sortTagsByAddress\<close> is an in-place insertion sort: for each \<open>i\<close> the element at \<open>j = i\<close> is
  swapped down past its strictly greater neighbours.
\<close>

fun swap_down :: "('t \<Rightarrow> int) \<Rightarrow> 't list \<Rightarrow> nat \<Rightarrow> 't list" where
  "swap_down k d 0 = d"
| "swap_down k d (Suc j) =
     (if k (d ! Suc j) < k (d ! j) then swap_down k (d[Suc j := d ! j, j := d ! Suc j]) j else d)"

definition insertion_sort_loop :: "('t \<Rightarrow> int) \<Rightarrow> 't list \<Rightarrow> 't list" where
  "insertion_sort_loop k d = foldl (swap_down k) d [1..<length d]"

text \<open>Its reference: insertion into a sorted list, after the elements not greater.\<close>

fun insert_by :: "('t \<Rightarrow> int) \<Rightarrow> 't \<Rightarrow> 't list \<Rightarrow> 't list" where
  "insert_by k x [] = [x]"
| "insert_by k x (y # ys) = (if k x < k y then x # y # ys else y # insert_by k x ys)"

definition insertion_sort :: "('t \<Rightarrow> int) \<Rightarrow> 't list \<Rightarrow> 't list" where
  "insertion_sort k xs = foldl (\<lambda>acc x. insert_by k x acc) [] xs"

lemma mset_insert_by [simp]: "mset (insert_by k x xs) = add_mset x (mset xs)"
  by (induction xs) auto

lemma set_insert_by [simp]: "set (insert_by k x xs) = insert x (set xs)"
  by (induction xs) auto

lemma sorted_insert_by: "sorted (map k xs) \<Longrightarrow> sorted (map k (insert_by k x xs))"
  by (induction xs) auto

lemma insertion_sort_inv:
  "sorted (map k acc) \<Longrightarrow> sorted (map k (foldl (\<lambda>acc x. insert_by k x acc) acc xs))
     \<and> mset (foldl (\<lambda>acc x. insert_by k x acc) acc xs) = mset acc + mset xs"
  by (induction xs arbitrary: acc) (simp_all add: sorted_insert_by)

lemma insertion_sort_empty [simp]: "insertion_sort k [] = []"
  by (simp add: insertion_sort_def)

lemma sorted_insertion_sort: "sorted (map k (insertion_sort k xs))"
  using insertion_sort_inv [of k "[]" xs] by (simp add: insertion_sort_def)

lemma mset_insertion_sort [simp]: "mset (insertion_sort k xs) = mset xs"
  using insertion_sort_inv [of k "[]" xs] by (simp add: insertion_sort_def)

lemma set_insertion_sort [simp]: "set (insertion_sort k xs) = set xs"
  by (metis mset_insertion_sort set_mset_mset)

lemma insertion_sort_Nil [simp]: "insertion_sort k xs = [] \<longleftrightarrow> xs = []"
  by (metis mset_insertion_sort mset_zero_iff)

text \<open>The sort is stable: items with one key keep their order.\<close>

lemma filter_insert_by:
  assumes "sorted (map k xs)"
  shows "filter (\<lambda>y. k y = v) (insert_by k x xs)
    = filter (\<lambda>y. k y = v) xs @ (if k x = v then [x] else [])"
  using assms
proof (induction xs)
  case (Cons y ys)
  have "k x < k y \<Longrightarrow> filter (\<lambda>z. k z = k x) (y # ys) = []"
    using Cons.prems by (auto simp: filter_empty_conv)
  then show ?case using Cons by auto
qed simp

lemma insertion_sort_stable:
  "filter (\<lambda>y. k y = v) (insertion_sort k xs) = filter (\<lambda>y. k y = v) xs"
proof -
  have "filter (\<lambda>y. k y = v) (foldl (\<lambda>acc x. insert_by k x acc) acc xs)
      = filter (\<lambda>y. k y = v) acc @ filter (\<lambda>y. k y = v) xs"
    if "sorted (map k acc)" for acc
    using that
    by (induction xs arbitrary: acc) (simp_all add: sorted_insert_by filter_insert_by)
  from this [of "[]"] show ?thesis by (simp add: insertion_sort_def)
qed

text \<open>The loop computes the reference.\<close>

lemma insert_by_last_gt: "k x < k y \<Longrightarrow> insert_by k x (p @ [y]) = insert_by k x p @ [y]"
  by (induction p) auto

lemma insert_by_last_le: "\<forall>y\<in>set p. k y \<le> k x \<Longrightarrow> insert_by k x p = p @ [x]"
  by (induction p) auto

lemma swap_down_insert:
  "sorted (map k p) \<Longrightarrow> swap_down k (p @ x # s) (length p) = insert_by k x p @ s"
proof (induction p arbitrary: s rule: rev_induct)
  case (snoc y p)
  have up: "(p @ y # x # s)[Suc (length p) := y, length p := x] = p @ x # y # s"
    by (simp add: list_update_append)
  show ?case
  proof (cases "k x < k y")
    case True
    then have "swap_down k ((p @ [y]) @ x # s) (length (p @ [y])) = swap_down k (p @ x # y # s) (length p)"
      using up by (simp add: nth_append)
    also have "\<dots> = insert_by k x p @ y # s"
      using snoc by (simp add: sorted_append)
    finally show ?thesis using True by (simp add: insert_by_last_gt)
  next
    case False
    then have "\<forall>z\<in>set (p @ [y]). k z \<le> k x"
      using snoc.prems by (auto simp: sorted_append)
    then show ?thesis using False by (simp add: nth_append insert_by_last_le)
  qed
qed simp

lemma insertion_sort_loop_eq: "insertion_sort_loop k d = insertion_sort k d"
proof -
  have "foldl (swap_down k) d [0..<n] = insertion_sort k (take n d) @ drop n d"
    if "n \<le> length d" for n
    using that
  proof (induction n)
    case (Suc n)
    let ?p = "insertion_sort k (take n d)"
    have len: "length ?p = n" using Suc.prems by (metis Suc_leD length_take min.absorb2 mset_insertion_sort size_mset)
    have "drop n d = d ! n # drop (Suc n) d" using Suc.prems by (simp add: Cons_nth_drop_Suc)
    moreover have "take (Suc n) d = take n d @ [d ! n]"
      using Suc.prems by (simp add: take_Suc_conv_app_nth)
    ultimately show ?case
      using Suc swap_down_insert [OF sorted_insertion_sort, of k "take n d" "d ! n" "drop (Suc n) d"] len
      by (simp add: insertion_sort_def)
  qed (simp add: insertion_sort_def)
  from this [of "length d"] have "foldl (swap_down k) d [0..<length d] = insertion_sort k d" by simp
  moreover have "foldl (swap_down k) d [0..<length d] = foldl (swap_down k) d [1..<length d]"
    by (cases "d = []") (simp_all add: upt_conv_Cons [of 0])
  ultimately show ?thesis by (simp add: insertion_sort_loop_def)
qed

section \<open>Grouping by a key\<close>

lemma mset_concat_one_more:
  "distinct ks \<Longrightarrow> z \<in> set ks \<Longrightarrow>
     mset (concat (map (\<lambda>k. if z = k then x # h k else h k) ks)) = add_mset x (mset (concat (map h ks)))"
proof (induction ks)
  case (Cons k ks)
  have "map (\<lambda>k. if z = k then x # h k else h k) ks = map h ks" if "z = k"
    using Cons.prems that by (intro map_cong) auto
  then show ?case using Cons by (cases "z = k") (simp_all del: map_eq_conv)
qed simp

lemma mset_groups:
  assumes "distinct ks" "set (map f xs) \<subseteq> set ks"
  shows "mset (concat (map (\<lambda>k. filter (\<lambda>x. f x = k) xs) ks)) = mset xs"
  using assms(2)
proof (induction xs)
  case (Cons x xs)
  then show ?case
    using mset_concat_one_more [OF assms(1), of "f x" x "\<lambda>k. filter (\<lambda>y. f y = k) xs"] by simp
qed simp

lemma mset_concat_map: "mset (concat (map f xs)) = (\<Sum>x\<leftarrow>xs. mset (f x))"
  by (induction xs) auto

end
