(* ===== verification/Modbus_Batch.thy ===== *)
theory Modbus_Batch
  imports Modbus_Client Range_Merge
begin

text \<open>
  The batched reads of \<open>internal/adapter/modbus/client.go\<close>: the tags of a request are grouped by
  register type, sorted by address and merged into ranges; every range is one read of the device
  and its tags are cut out of the response.  The lemmas show that the ranges hold exactly the
  tags asked for, that no range exceeds what the configuration allows, and what each tag's point
  holds.
\<close>

section \<open>Batched reading: the ranges\<close>

record register_range =
  StartAddress :: u16
  EndAddress :: u16
  rng_Tags :: "tag list"

record batch_config =
  MaxPerRead :: u16
  MaxGapSize :: u16

definition DefaultBatchConfig :: batch_config where
  "DefaultBatchConfig = \<lparr>MaxPerRead = 100, MaxGapSize = 10\<rparr>"

definition DefaultCoilBatchConfig :: batch_config where
  "DefaultCoilBatchConfig = \<lparr>MaxPerRead = 1000, MaxGapSize = 32\<rparr>"

definition tag_end :: "tag \<Rightarrow> u16" where
  "tag_end t = Address t + RegisterCount t - 1"

definition start_range :: "tag \<Rightarrow> register_range" where
  "start_range t = \<lparr>StartAddress = Address t, EndAddress = tag_end t, rng_Tags = [t]\<rparr>"

definition can_merge :: "batch_config \<Rightarrow> register_range \<Rightarrow> tag \<Rightarrow> bool" where
  "can_merge cfg r t =
     (let gap = uint (Address t) - uint (EndAddress r) - 1;
          newRangeSize = tag_end t - StartAddress r + 1
      in gap \<le> uint (MaxGapSize cfg) \<and> newRangeSize \<le> MaxPerRead cfg)"

definition extend_range :: "register_range \<Rightarrow> tag \<Rightarrow> register_range" where
  "extend_range r t =
     r\<lparr>EndAddress := (if EndAddress r < tag_end t then tag_end t else EndAddress r),
       rng_Tags := rng_Tags r @ [t]\<rparr>"

definition tag_key :: "tag \<Rightarrow> int" where
  "tag_key t = uint (Address t)"

definition sortTagsByAddress :: "tag list \<Rightarrow> tag list" where
  "sortTagsByAddress = insertion_sort_loop tag_key"

definition build_ranges :: "batch_config \<Rightarrow> tag list \<Rightarrow> register_range list" where
  "build_ranges cfg tags = (case sortTagsByAddress tags of
       [] \<Rightarrow> []
     | t # ts \<Rightarrow> merge_items (can_merge cfg) extend_range start_range (start_range t) ts)"

definition buildContiguousRanges :: "tag list \<Rightarrow> batch_config \<Rightarrow> register_range list" where
  "buildContiguousRanges tags cfg = build_ranges cfg tags"

definition buildCoilRanges :: "tag list \<Rightarrow> batch_config \<Rightarrow> register_range list" where
  "buildCoilRanges tags cfg = build_ranges cfg tags"

text \<open>
  \<open>groupTagsByType\<close> returns the groups in the order of a Go map iteration, which is not
  determined: \<open>perm\<close> orders the keys.
\<close>

definition groupTagsByType :: "(register_type list \<Rightarrow> register_type list) \<Rightarrow> tag list \<Rightarrow> tag list list" where
  "groupTagsByType perm tags =
     map (\<lambda>rt. filter (\<lambda>t. RegisterType t = rt) tags) (perm (remdups (map RegisterType tags)))"

section \<open>Batched reading: one range\<close>

definition good_point :: "time \<Rightarrow> mb_client \<Rightarrow> tag \<Rightarrow> goval \<Rightarrow> data_point" where
  "good_point now c t v =
     WithPriority (tag_Priority t) (WithRawValue v
       (AcquireDataPoint zero_data_point now (mb_deviceID c) (tag_ID t) [] (applyScaling v t)
          (tag_Unit t) QualityGood))"

definition tag_offset :: "u16 \<Rightarrow> tag \<Rightarrow> nat" where
  "tag_offset start t = unat (Address t - start) * 2"

text \<open>
  The extraction loop.  Every tag parses a sub-slice of the one response buffer, in place: the
  buffer after a tag is the buffer the next tag reads.
\<close>

fun extract_registers ::
  "time \<Rightarrow> u16 \<Rightarrow> tag list \<Rightarrow> bytes \<Rightarrow> mb_client \<Rightarrow> data_point list res \<times> mb_client" where
  "extract_registers now start [] rawData c = (Ok [], c)"
| "extract_registers now start (t # ts) rawData c =
     (let offset = tag_offset start t; tagByteLen = unat (RegisterCount t) * 2 in
      if length rawData < offset + tagByteLen then
        (case extract_registers now start ts rawData
                (recordTagError now (tag_ID t) ErrInvalidDataLength c) of
           (r, c1) \<Rightarrow> (bind_outcome r (\<lambda>ps. Ok (createErrorDataPoint now c t ErrInvalidDataLength # ps)), c1))
      else
        case parseValue (take tagByteLen (drop offset rawData)) t of (res, sub) \<Rightarrow>
          (let rawData1 = take offset rawData @ sub @ drop (offset + tagByteLen) rawData in
           case res of
             Panic \<Rightarrow> (Panic, c)
           | Err e \<Rightarrow>
               (case extract_registers now start ts rawData1 (recordTagError now (tag_ID t) e c) of
                  (r, c1) \<Rightarrow> (bind_outcome r (\<lambda>ps. Ok (createErrorDataPoint now c t e # ps)), c1))
           | Ok v \<Rightarrow>
               (case extract_registers now start ts rawData1 (recordTagSuccess now (tag_ID t) c) of
                  (r, c1) \<Rightarrow> (bind_outcome r (\<lambda>ps. Ok (good_point now c t v # ps)), c1))))"

fun extract_coils ::
  "time \<Rightarrow> u16 \<Rightarrow> tag list \<Rightarrow> bytes \<Rightarrow> mb_client \<Rightarrow> data_point list \<times> mb_client" where
  "extract_coils now start [] rawData c = ([], c)"
| "extract_coils now start (t # ts) rawData c =
     (let bitOffset = unat (Address t - start); byteIndex = bitOffset div 8; bitIndex = bitOffset mod 8 in
      if length rawData \<le> byteIndex then
        (case extract_coils now start ts rawData
                (recordTagError now (tag_ID t) ErrInvalidDataLength c) of
           (ps, c1) \<Rightarrow> (createErrorDataPoint now c t ErrInvalidDataLength # ps, c1))
      else
        let v = VBool (rawData ! byteIndex AND push_bit bitIndex 1 \<noteq> 0) in
        (case extract_coils now start ts rawData (recordTagSuccess now (tag_ID t) c) of
           (ps, c1) \<Rightarrow> (good_point now c t v # ps, c1)))"

definition range_count :: "register_range \<Rightarrow> u16" where
  "range_count r = EndAddress r - StartAddress r + 1"

definition readRegisterRange ::
  "'w modbus_ops \<Rightarrow> register_range \<Rightarrow> register_type \<Rightarrow> 'w mb_state \<Rightarrow> data_point list res \<times> 'w mb_state" where
  "readRegisterRange ops r rt st = (case st of (c, w) \<Rightarrow>
     if \<not> mb_has_client c then (Err ErrConnectionClosed, st)
     else if rt \<noteq> RegisterTypeHoldingRegister \<and> rt \<noteq> RegisterTypeInputRegister
       then (Err ErrInvalidRegisterType, st)
     else case lib_read ops rt (StartAddress r) (range_count r) w of
       (Inl e, w1) \<Rightarrow> (Err (translateModbusError e), (add_failure c, w1))
     | (Inr rawData, w1) \<Rightarrow>
         (case extract_registers (w_now ops w1) (StartAddress r) (rng_Tags r) rawData
                 (count_read (reset_failures c)) of (ps, c1) \<Rightarrow> (ps, (c1, w1))))"

definition readCoilRange ::
  "'w modbus_ops \<Rightarrow> register_range \<Rightarrow> register_type \<Rightarrow> 'w mb_state \<Rightarrow> data_point list res \<times> 'w mb_state" where
  "readCoilRange ops r rt st = (case st of (c, w) \<Rightarrow>
     if \<not> mb_has_client c then (Err ErrConnectionClosed, st)
     else if rt \<noteq> RegisterTypeCoil \<and> rt \<noteq> RegisterTypeDiscreteInput
       then (Err ErrInvalidRegisterType, st)
     else case lib_read ops rt (StartAddress r) (range_count r) w of
       (Inl e, w1) \<Rightarrow> (Err (translateModbusError e), (add_failure c, w1))
     | (Inr rawData, w1) \<Rightarrow>
         (case extract_coils (w_now ops w1) (StartAddress r) (rng_Tags r) rawData
                 (count_read (reset_failures c)) of (ps, c1) \<Rightarrow> (Ok ps, (c1, w1))))"

section \<open>Batched reading: groups and the whole request\<close>

text \<open>
  The loop over the ranges of a group; a context that is done ends it with the points so far and
  the context's error, a failed range gives error points and the loop goes on.
\<close>

fun read_ranges ::
  "'w modbus_ops \<Rightarrow> (register_range \<Rightarrow> 'w mb_state \<Rightarrow> data_point list res \<times> 'w mb_state)
     \<Rightarrow> register_range list \<Rightarrow> 'w mb_state \<Rightarrow> (data_point list \<times> err option) res \<times> 'w mb_state" where
  "read_ranges ops rd [] st = (Ok ([], None), st)"
| "read_ranges ops rd (r # rs) st =
     (case w_ctx ops (snd st) of
        Some e \<Rightarrow> (Ok ([], Some e), st)
      | None \<Rightarrow>
          (case rd r st of
             (Panic, st1) \<Rightarrow> (Panic, st1)
           | (Err e, st1) \<Rightarrow>
               (case read_ranges ops rd rs st1 of (x, st2) \<Rightarrow>
                  (bind_outcome x (\<lambda>(qs, c). Ok (map (\<lambda>t. createErrorDataPoint
                      (w_now ops (snd st1)) (fst st1) t e) (rng_Tags r) @ qs, c)), st2))
           | (Ok ps, st1) \<Rightarrow>
               (case read_ranges ops rd rs st1 of (x, st2) \<Rightarrow>
                  (bind_outcome x (\<lambda>(qs, c). Ok (ps @ qs, c)), st2))))"

definition readCoilGroupBatched ::
  "'w modbus_ops \<Rightarrow> tag list \<Rightarrow> 'w mb_state \<Rightarrow> (data_point list \<times> err option) res \<times> 'w mb_state" where
  "readCoilGroupBatched ops tags st = (case tags of
       [] \<Rightarrow> (Ok ([], None), st)
     | t # ts \<Rightarrow> read_ranges ops (\<lambda>r. readCoilRange ops r (RegisterType t))
                  (buildCoilRanges tags DefaultCoilBatchConfig) st)"

definition readTagGroup ::
  "'w modbus_ops \<Rightarrow> tag list \<Rightarrow> 'w mb_state \<Rightarrow> (data_point list \<times> err option) res \<times> 'w mb_state" where
  "readTagGroup ops tags st = (case tags of
       [] \<Rightarrow> (Ok ([], None), st)
     | t # ts \<Rightarrow>
         if is_bit_type (RegisterType t) then readCoilGroupBatched ops tags st
         else read_ranges ops (\<lambda>r. readRegisterRange ops r (RegisterType t))
                (buildContiguousRanges tags DefaultBatchConfig) st)"

fun read_groups ::
  "'w modbus_ops \<Rightarrow> tag list list \<Rightarrow> 'w mb_state \<Rightarrow> data_point list res \<times> 'w mb_state" where
  "read_groups ops [] st = (Ok [], st)"
| "read_groups ops (g # gs) st =
     (case readTagGroup ops g st of
        (Panic, st1) \<Rightarrow> (Panic, st1)
      | (Err e, st1) \<Rightarrow> (Err e, st1)
      | (Ok (ps, e), st1) \<Rightarrow>
          let qs = (case e of None \<Rightarrow> ps
              | Some x \<Rightarrow> map (\<lambda>t. createErrorDataPoint (w_now ops (snd st1)) (fst st1) t x) g)
          in (case read_groups ops gs st1 of (x, st2) \<Rightarrow> (bind_outcome x (\<lambda>rs. Ok (qs @ rs)), st2)))"

definition ReadTags ::
  "'w modbus_ops \<Rightarrow> (register_type list \<Rightarrow> register_type list) \<Rightarrow> tag list \<Rightarrow> 'w mb_state
     \<Rightarrow> data_point list res \<times> 'w mb_state" where
  "ReadTags ops perm tags st =
     (if tags = [] then (Ok [], st) else read_groups ops (groupTagsByType perm tags) st)"


section \<open>The ranges\<close>

text \<open>
  A tag within the limits of one read of \<open>M\<close> addresses, and the invariant of a range: not longer
  than a read, with every tag inside.
\<close>

definition tag_fits :: "nat \<Rightarrow> tag \<Rightarrow> bool" where
  "tag_fits M t \<longleftrightarrow> 0 < unat (RegisterCount t) \<and> unat (RegisterCount t) \<le> M
     \<and> unat (Address t) + unat (RegisterCount t) \<le> 65536"

definition tag_inside :: "register_range \<Rightarrow> tag \<Rightarrow> bool" where
  "tag_inside r t \<longleftrightarrow> unat (StartAddress r) \<le> unat (Address t)
     \<and> unat (Address t) + unat (RegisterCount t) \<le> unat (EndAddress r) + 1"

definition range_ok :: "nat \<Rightarrow> register_range \<Rightarrow> bool" where
  "range_ok M r \<longleftrightarrow> unat (StartAddress r) \<le> unat (EndAddress r)
     \<and> unat (EndAddress r) + 1 \<le> unat (StartAddress r) + M \<and> (\<forall>t\<in>set (rng_Tags r). tag_inside r t)"

definition range_base :: "register_range \<Rightarrow> int" where
  "range_base r = uint (StartAddress r)"

lemma unat_tag_end: "tag_fits M t \<Longrightarrow> unat (tag_end t) + 1 = unat (Address t) + unat (RegisterCount t)"
proof -
  assume fits: "tag_fits M t"
  have "uint (tag_end t) = (uint (Address t) + uint (RegisterCount t) - 1) mod 2 ^ 16"
    by (simp add: tag_end_def uint_word_ariths mod_simps)
  moreover have "0 < unat (RegisterCount t)" "unat (Address t) + unat (RegisterCount t) \<le> 65536"
    using fits by (simp_all add: tag_fits_def)
  then have "0 \<le> uint (Address t) + uint (RegisterCount t) - 1
      \<and> uint (Address t) + uint (RegisterCount t) - 1 < 65536"
    unfolding uint_nat by linarith
  ultimately have "uint (tag_end t) = uint (Address t) + uint (RegisterCount t) - 1"
    by (simp add: mod_pos_pos_trivial)
  then have "int (unat (tag_end t) + 1) = int (unat (Address t) + unat (RegisterCount t))" by simp
  then show ?thesis by (simp only: of_nat_eq_iff)
qed

lemma start_range_ok: "tag_fits M t \<Longrightarrow> range_ok M (start_range t)"
  using unat_tag_end [of M t] by (auto simp: range_ok_def start_range_def tag_inside_def tag_fits_def)

lemma extend_range_ok:
  assumes r: "range_ok M r" and t: "tag_fits M t" and can: "can_merge cfg r t"
    and le: "range_base r \<le> tag_key t"
    and cfg: "unat (MaxPerRead cfg) \<le> M" "2 * M + unat (MaxGapSize cfg) < 65536"
  shows "range_ok M (extend_range r t)"
proof -
  note e = unat_tag_end [OF t]
  have le': "unat (StartAddress r) \<le> unat (Address t)"
    using le unfolding range_base_def tag_key_def uint_nat by linarith
  have gap: "unat (Address t) \<le> unat (EndAddress r) + 1 + unat (MaxGapSize cfg)"
    using can unfolding can_merge_def Let_def uint_nat by linarith
  define z where "z = uint (tag_end t) - uint (StartAddress r) + 1"
  have b: "unat (StartAddress r) \<le> unat (EndAddress r)" "unat (EndAddress r) + 1 \<le> unat (StartAddress r) + M"
    "unat (RegisterCount t) \<le> M" "0 < unat (RegisterCount t)"
    using r t by (simp_all add: range_ok_def tag_fits_def)
  have z: "0 \<le> z \<and> z < 65536"
    using e le' gap b cfg(2) unfolding z_def uint_nat by linarith
  have "uint (tag_end t - StartAddress r + 1) = z mod 2 ^ 16"
    by (simp add: z_def uint_word_ariths mod_simps)
  then have "uint (tag_end t - StartAddress r + 1) = z" using z by (simp add: mod_pos_pos_trivial)
  moreover have "uint (tag_end t - StartAddress r + 1) \<le> uint (MaxPerRead cfg)"
    using can by (simp add: can_merge_def Let_def word_le_def)
  ultimately have new: "unat (tag_end t) + 1 \<le> unat (StartAddress r) + M"
    using cfg(1) unfolding z_def uint_nat by linarith
  show ?thesis
    using r t le' new e
    by (auto simp: range_ok_def extend_range_def tag_inside_def word_less_nat_alt tag_fits_def)
qed

text \<open>
  The two readers as instances of the merging contract: 125 registers, 2000 coils.  The third
  instance, at any configuration, is about what the ranges hold.
\<close>

interpretation registers: range_merging "can_merge DefaultBatchConfig" extend_range start_range rng_Tags
  range_base tag_key "tag_fits 125" "range_ok 125"
  by unfold_locales
    (simp_all add: start_range_def extend_range_def range_base_def tag_key_def start_range_ok [unfolded start_range_def]
      extend_range_ok [unfolded extend_range_def range_base_def tag_key_def] DefaultBatchConfig_def)

interpretation coils: range_merging "can_merge DefaultCoilBatchConfig" extend_range start_range rng_Tags
  range_base tag_key "tag_fits 2000" "range_ok 2000"
  by unfold_locales
    (simp_all add: start_range_def extend_range_def range_base_def tag_key_def start_range_ok [unfolded start_range_def]
      extend_range_ok [unfolded extend_range_def range_base_def tag_key_def] DefaultCoilBatchConfig_def)

interpretation ranges: range_merging "can_merge cfg" extend_range start_range rng_Tags range_base tag_key
  "\<lambda>t. True" "\<lambda>r. rng_Tags r \<noteq> []" for cfg
  by unfold_locales (simp_all add: start_range_def extend_range_def range_base_def tag_key_def)

lemma build_ranges_tags: "concat (map rng_Tags (build_ranges cfg tags)) = insertion_sort tag_key tags"
proof (cases "insertion_sort tag_key tags")
  case (Cons t ts)
  then have "sorted (map tag_key (t # ts))" using sorted_insertion_sort [of tag_key tags] by (simp only:)
  then show ?thesis
    using ranges.from_first(1) [of t ts cfg] Cons
    by (simp add: build_ranges_def sortTagsByAddress_def insertion_sort_loop_eq)
qed (simp add: build_ranges_def sortTagsByAddress_def insertion_sort_loop_eq)

lemma build_ranges_mset: "mset (concat (map rng_Tags (build_ranges cfg tags))) = mset tags"
  by (simp add: build_ranges_tags)

lemma build_ranges_cases:
  "build_ranges cfg tags = (case insertion_sort tag_key tags of [] \<Rightarrow> []
     | t # ts \<Rightarrow> merge_items (can_merge cfg) extend_range start_range (start_range t) ts)"
  by (simp add: build_ranges_def sortTagsByAddress_def insertion_sort_loop_eq)

lemma register_ranges_ok:
  assumes "\<forall>t\<in>set tags. tag_fits 125 t"
  shows "\<forall>r\<in>set (buildContiguousRanges tags DefaultBatchConfig). range_ok 125 r \<and> rng_Tags r \<noteq> []"
proof (cases "insertion_sort tag_key tags")
  case (Cons t ts)
  have "\<forall>x\<in>set (t # ts). tag_fits 125 x" using assms by (simp flip: Cons)
  moreover have "sorted (map tag_key (t # ts))" using sorted_insertion_sort [of tag_key tags] by (simp only: Cons)
  ultimately show ?thesis
    using registers.from_first(2) [of t ts] by (simp add: buildContiguousRanges_def build_ranges_cases Cons)
qed (simp add: buildContiguousRanges_def build_ranges_cases)

lemma coil_ranges_ok:
  assumes "\<forall>t\<in>set tags. tag_fits 2000 t"
  shows "\<forall>r\<in>set (buildCoilRanges tags DefaultCoilBatchConfig). range_ok 2000 r \<and> rng_Tags r \<noteq> []"
proof (cases "insertion_sort tag_key tags")
  case (Cons t ts)
  have "\<forall>x\<in>set (t # ts). tag_fits 2000 x" using assms by (simp flip: Cons)
  moreover have "sorted (map tag_key (t # ts))" using sorted_insertion_sort [of tag_key tags] by (simp only: Cons)
  ultimately show ?thesis
    using coils.from_first(2) [of t ts] by (simp add: buildCoilRanges_def build_ranges_cases Cons)
qed (simp add: buildCoilRanges_def build_ranges_cases)

text \<open>The count a range asks the device for.\<close>

lemma unat_range_count:
  assumes "range_ok M r" and "M < 65536"
  shows "unat (range_count r) = unat (EndAddress r) - unat (StartAddress r) + 1"
proof -
  have b: "unat (StartAddress r) \<le> unat (EndAddress r)" "unat (EndAddress r) + 1 \<le> unat (StartAddress r) + M"
    using assms(1) by (simp_all add: range_ok_def)
  define z where "z = uint (EndAddress r) - uint (StartAddress r) + 1"
  have "uint (range_count r) = z mod 2 ^ 16" by (simp add: range_count_def z_def uint_word_ariths mod_simps)
  moreover have "0 \<le> z \<and> z < 65536" using b assms(2) unfolding z_def uint_nat by linarith
  ultimately have "uint (range_count r) = z" by (simp add: mod_pos_pos_trivial)
  then show ?thesis using b(1) unfolding z_def uint_nat by linarith
qed
section \<open>What the points of a range hold\<close>

text \<open>The bytes of a tag in the response, and the point they give.\<close>

definition slice :: "u16 \<Rightarrow> tag \<Rightarrow> bytes \<Rightarrow> bytes" where
  "slice start t raw = take (unat (RegisterCount t) * 2) (drop (tag_offset start t) raw)"

definition point_of :: "time \<Rightarrow> mb_client \<Rightarrow> u16 \<Rightarrow> bytes \<Rightarrow> tag \<Rightarrow> data_point" where
  "point_of now c start raw t = (case fst (parseValue (slice start t raw) t) of
       Ok v \<Rightarrow> good_point now c t v
     | Err e \<Rightarrow> createErrorDataPoint now c t e
     | Panic \<Rightarrow> zero_data_point)"

definition registers_apart :: "tag list \<Rightarrow> bool" where
  "registers_apart ts \<longleftrightarrow> sorted_wrt (\<lambda>a b. unat (Address a) + unat (RegisterCount a) \<le> unat (Address b)) ts"

definition count_suffices :: "tag \<Rightarrow> bool" where
  "count_suffices t \<longleftrightarrow> ExpectedRegisterCount t \<le> RegisterCount t"

lemma points_device [simp]:
  "good_point now (recordTagError a i e c) t v = good_point now c t v"
  "good_point now (recordTagSuccess a i c) t v = good_point now c t v"
  "createErrorDataPoint now (recordTagError a i e c) t x = createErrorDataPoint now c t x"
  "createErrorDataPoint now (recordTagSuccess a i c) t x = createErrorDataPoint now c t x"
  by (simp_all add: good_point_def createErrorDataPoint_def)

lemma point_of_device [simp]:
  "point_of now (recordTagError a i e c) = point_of now c"
  "point_of now (recordTagSuccess a i c) = point_of now c"
  by (auto simp: point_of_def fun_eq_iff split: outcome.splits)

lemma points_tag [simp]:
  "dp_TagID (good_point now c t v) = tag_ID t" "dp_TagID (createErrorDataPoint now c t e) = tag_ID t"
  by (simp_all add: good_point_def createErrorDataPoint_def WithPriority_def WithRawValue_def AcquireDataPoint_def)

lemma unat_sub_le:
  fixes a s :: u16
  shows "unat s \<le> unat a \<Longrightarrow> unat (a - s) = unat a - unat s"
  by (simp add: unat_sub word_le_nat_alt)

lemma drop_replace:
  assumes "m + n \<le> k" "length sub = n" "m + n \<le> length raw"
  shows "drop k (take m raw @ sub @ drop (m + n) raw) = drop k raw"
proof -
  have "drop k (take m raw @ sub @ drop (m + n) raw) = drop (k - m - n) (drop (m + n) raw)"
    using assms by (simp add: drop_Cons')
  then show ?thesis using assms by simp
qed

lemma extract_registers_points:
  assumes "registers_apart ts" "\<forall>t\<in>set ts. count_suffices t \<and> unat start \<le> unat (Address t)
      \<and> 2 * (unat (Address t) + unat (RegisterCount t)) \<le> 2 * unat start + length raw"
  shows "fst (extract_registers now start ts raw c) = Ok (map (point_of now c start raw) ts)"
  using assms
proof (induction ts arbitrary: raw c)
  case (Cons t ts)
  define n where "n = unat (RegisterCount t) * 2"
  define k where "k = tag_offset start t"
  obtain res sub where p: "parseValue (take n (drop k raw)) t = (res, sub)" by (rule prod.exhaust)
  define raw1 where "raw1 = take k raw @ sub @ drop (k + n) raw"
  have t: "count_suffices t" "unat start \<le> unat (Address t)" "k + n \<le> length raw"
    using Cons.prems(2) by (auto simp: k_def n_def tag_offset_def unat_sub_le)
  have len: "length sub = n"
    using length_parseValue_buffer [of "take n (drop k raw)" t] t(3) by (simp add: p)
  have l1: "length raw1 = length raw" using t(3) len by (simp add: raw1_def)
  have same: "slice start x raw1 = slice start x raw" if "x \<in> set ts" for x
  proof -
    have "k + n \<le> tag_offset start x"
      using that Cons.prems t(2) unfolding registers_apart_def
      by (auto simp: k_def n_def tag_offset_def unat_sub_le)
    then show ?thesis using drop_replace [OF _ len t(3)] by (simp add: slice_def raw1_def)
  qed
  have IH: "fst (extract_registers now start ts raw1 c1) = Ok (map (point_of now c1 start raw1) ts)" for c1
  proof (rule Cons.IH)
    show "registers_apart ts" using Cons.prems(1) by (simp add: registers_apart_def)
    show "\<forall>t\<in>set ts. count_suffices t \<and> unat start \<le> unat (Address t)
      \<and> 2 * (unat (Address t) + unat (RegisterCount t)) \<le> 2 * unat start + length raw1"
      using Cons.prems(2) unfolding l1 by simp
  qed
  have pt: "map (point_of now c start raw1) ts = map (point_of now c start raw) ts"
    by (simp add: point_of_def same)
  have np: "res \<noteq> Panic"
    using parseValue_no_panic [of t "take n (drop k raw)"] t(1) by (simp add: p count_suffices_def)
  have eq: "slice start t raw = take n (drop k raw)" by (simp add: slice_def n_def k_def)
  have step: "extract_registers now start (t # ts) raw c = (case res of
       Panic \<Rightarrow> (Panic, c)
     | Err e \<Rightarrow> (case extract_registers now start ts raw1 (recordTagError now (tag_ID t) e c) of
          (r, c1) \<Rightarrow> (bind_outcome r (\<lambda>ps. Ok (createErrorDataPoint now c t e # ps)), c1))
     | Ok v \<Rightarrow> (case extract_registers now start ts raw1 (recordTagSuccess now (tag_ID t) c) of
          (r, c1) \<Rightarrow> (bind_outcome r (\<lambda>ps. Ok (good_point now c t v # ps)), c1)))"
    using t(3) p by (simp add: Let_def raw1_def split: outcome.split flip: n_def k_def)
  show ?case
  proof (cases res)
    case (Ok v)
    then show ?thesis using IH [of "recordTagSuccess now (tag_ID t) c"] pt
      unfolding step by (auto simp: point_of_def [of _ _ _ _ t] eq p split: prod.splits)
  next
    case (Err e)
    then show ?thesis using IH [of "recordTagError now (tag_ID t) e c"] pt
      unfolding step by (auto simp: point_of_def [of _ _ _ _ t] eq p split: prod.splits)
  qed (use np in simp)
qed simp
text \<open>
  Two little-endian tags on one register: the first parse reverses the bytes in place, so the
  second one decodes them in the opposite order.
\<close>

lemma extract_shared_register:
  assumes t: "count_suffices t" "RegisterCount t = 1" "\<not> is_bit_type (RegisterType t)"
    "ByteOrder t = ByteOrderLittleEndian" "Address t = start" and le: "DataType t = DataTypeUInt16"
  shows "map dp_RawValue (case fst (extract_registers now start [t, t] [a, b] c) of Ok ps \<Rightarrow> ps | _ \<Rightarrow> [])
    = [VUint16 (word_of_nat (unat b * 256 + unat a)), VUint16 (word_of_nat (unat a * 256 + unat b))]"
proof -
  have p: "parseValue [x, y] t = (Ok (VUint16 (word_of_nat (unat y * 256 + unat x))), [y, x])" for x y
    using t le by (simp add: parseValue_def reorderBytes_spec decode_ordered_def Uint16_def)
  show ?thesis
    using t by (simp add: tag_offset_def p good_point_def WithPriority_def WithRawValue_def)
qed

section \<open>The points of a whole request\<close>

lemma prepend_point:
  assumes "\<exists>ps. fst x = Ok ps \<and> map dp_TagID ps = map tag_ID ts" "dp_TagID p = tag_ID t"
  shows "\<exists>ps. fst (case x of (r, c1) \<Rightarrow> (bind_outcome r (\<lambda>ps. Ok (p # ps)), c1)) = Ok ps
     \<and> map dp_TagID ps = map tag_ID (t # ts)"
  using assms by (cases x) auto

lemma extract_registers_total:
  assumes "\<forall>t\<in>set ts. count_suffices t"
  shows "\<exists>ps. fst (extract_registers now start ts raw c) = Ok ps \<and> map dp_TagID ps = map tag_ID ts"
  using assms
proof (induction ts arbitrary: raw c)
  case (Cons t ts)
  define n where "n = unat (RegisterCount t) * 2"
  obtain res sub where p: "parseValue (take n (drop (tag_offset start t) raw)) t = (res, sub)"
    by (rule prod.exhaust)
  have np: "res \<noteq> Panic"
    using parseValue_no_panic [of t "take n (drop (tag_offset start t) raw)"] Cons.prems
    by (simp add: p count_suffices_def)
  have IH: "\<exists>ps. fst (extract_registers now start ts raw1 c1) = Ok ps \<and> map dp_TagID ps = map tag_ID ts" for raw1 c1
    using Cons.prems by (intro Cons.IH) simp
  show ?case
  proof (cases "length raw < tag_offset start t + n")
    case True
    then show ?thesis
      by (subst extract_registers.simps) (simp only: Let_def if_True prepend_point [OF IH] points_tag flip: n_def)
  next
    case False
    then show ?thesis
      using np by (subst extract_registers.simps)
        (cases res; simp only: Let_def if_False p prod.case outcome.case prepend_point [OF IH] points_tag
          flip: n_def; simp)
  qed
qed simp

lemma extract_coils_tags: "map dp_TagID (fst (extract_coils now start ts raw c)) = map tag_ID ts"
  by (induction now start ts raw c rule: extract_coils.induct) (auto simp: Let_def split: prod.splits)

lemma extract_coils_result:
  "extract_coils now start ts raw c = (ps, c') \<Longrightarrow> map dp_TagID ps = map tag_ID ts"
  using extract_coils_tags [of now start ts raw c] by simp

definition answers :: "'w modbus_ops \<Rightarrow> (register_range \<Rightarrow> 'w mb_state \<Rightarrow> data_point list res \<times> 'w mb_state)
    \<Rightarrow> register_range \<Rightarrow> bool" where
  "answers ops rd r \<longleftrightarrow> (\<forall>st. fst (rd r st) \<noteq> Panic \<and>
     (\<forall>ps. fst (rd r st) = Ok ps \<longrightarrow> map dp_TagID ps = map tag_ID (rng_Tags r)))"

lemma readRegisterRange_answers:
  assumes "\<forall>t\<in>set (rng_Tags r). count_suffices t"
  shows "answers ops (\<lambda>r. readRegisterRange ops r rt) r"
proof -
  have "fst (extract_registers now start (rng_Tags r) raw c) \<noteq> Panic \<and>
    (\<forall>ps. fst (extract_registers now start (rng_Tags r) raw c) = Ok ps \<longrightarrow> map dp_TagID ps = map tag_ID (rng_Tags r))"
    for now start raw c
    using extract_registers_total [OF assms, of now start raw c] by auto
  then show ?thesis
    by (auto simp: answers_def readRegisterRange_def split: prod.splits sum.splits) (metis fst_conv)+
qed

lemma readCoilRange_answers: "answers ops (\<lambda>r. readCoilRange ops r rt) r"
  by (auto simp: answers_def readCoilRange_def split: prod.splits sum.splits
      dest!: extract_coils_result)

lemma read_ranges_points:
  assumes "\<forall>r\<in>set rs. answers ops rd r"
  shows "\<exists>ps e. fst (read_ranges ops rd rs st) = Ok (ps, e)
     \<and> (e = None \<longrightarrow> map dp_TagID ps = map tag_ID (concat (map rng_Tags rs)))"
  using assms
proof (induction rs arbitrary: st)
  case (Cons r rs)
  obtain x st1 where r: "rd r st = (x, st1)" by (rule prod.exhaust)
  obtain y st2 where y: "read_ranges ops rd rs st1 = (y, st2)" by (rule prod.exhaust)
  obtain qs e where IH: "y = Ok (qs, e)" "e = None \<longrightarrow> map dp_TagID qs = map tag_ID (concat (map rng_Tags rs))"
    using Cons.IH [of st1] Cons.prems y by auto
  have "x \<noteq> Panic \<and> (\<forall>ps. x = Ok ps \<longrightarrow> map dp_TagID ps = map tag_ID (rng_Tags r))"
    using Cons.prems r unfolding answers_def by (metis fst_conv list.set_intros(1))
  then show ?case
    using IH r y by (cases x; cases "w_ctx ops (snd st)") (auto simp: comp_def)
qed simp
lemma readTagGroup_points:
  assumes "\<forall>t\<in>set g. count_suffices t"
  shows "\<exists>ps e. fst (readTagGroup ops g st) = Ok (ps, e)
     \<and> (e = None \<longrightarrow> mset (map dp_TagID ps) = mset (map tag_ID g))"
proof (cases g)
  case (Cons t ts)
  have "set (rng_Tags r) \<subseteq> set g" if "r \<in> set (build_ranges cfg g)" for r cfg
  proof -
    have "set (rng_Tags r) \<subseteq> set (concat (map rng_Tags (build_ranges cfg g)))" using that by auto
    then show ?thesis unfolding build_ranges_tags by simp
  qed
  then have reg: "\<forall>r\<in>set (buildContiguousRanges g DefaultBatchConfig).
      answers ops (\<lambda>r. readRegisterRange ops r (RegisterType t)) r"
    using assms by (auto simp: buildContiguousRanges_def intro!: readRegisterRange_answers)
  obtain rd cfg where eq: "readTagGroup ops g st = read_ranges ops rd (build_ranges cfg g) st"
    and ans: "\<forall>r\<in>set (build_ranges cfg g). answers ops rd r"
  proof (cases "is_bit_type (RegisterType t)")
    case True
    then have "readTagGroup ops g st = read_ranges ops (\<lambda>r. readCoilRange ops r (RegisterType t))
        (build_ranges DefaultCoilBatchConfig g) st"
      by (simp add: Cons readTagGroup_def readCoilGroupBatched_def buildCoilRanges_def)
    then show thesis by (rule that) (simp add: readCoilRange_answers)
  next
    case False
    then have "readTagGroup ops g st = read_ranges ops (\<lambda>r. readRegisterRange ops r (RegisterType t))
        (build_ranges DefaultBatchConfig g) st"
      by (simp add: Cons readTagGroup_def buildContiguousRanges_def)
    then show thesis by (rule that) (use reg in \<open>simp add: buildContiguousRanges_def\<close>)
  qed
  obtain ps e where "fst (read_ranges ops rd (build_ranges cfg g) st) = Ok (ps, e)"
    "e = None \<longrightarrow> map dp_TagID ps = map tag_ID (insertion_sort tag_key g)"
    using read_ranges_points [OF ans, of st] by (auto simp: build_ranges_tags)
  moreover have "mset (map tag_ID (insertion_sort tag_key g)) = mset (map tag_ID g)" by simp
  ultimately show ?thesis unfolding eq by metis
qed (simp add: readTagGroup_def)

lemma read_groups_points:
  assumes "\<forall>g\<in>set gs. \<forall>t\<in>set g. count_suffices t"
  shows "\<exists>ps. fst (read_groups ops gs st) = Ok ps \<and> mset (map dp_TagID ps) = mset (map tag_ID (concat gs))"
  using assms
proof (induction gs arbitrary: st)
  case (Cons g gs)
  obtain x st1 where g: "readTagGroup ops g st = (x, st1)" by (rule prod.exhaust)
  obtain y st2 where y: "read_groups ops gs st1 = (y, st2)" by (rule prod.exhaust)
  obtain rs where IH: "y = Ok rs" "mset (map dp_TagID rs) = mset (map tag_ID (concat gs))"
    using Cons.IH [of st1] Cons.prems y by auto
  obtain ps e where x: "x = Ok (ps, e)" "e = None \<longrightarrow> mset (map dp_TagID ps) = mset (map tag_ID g)"
    using readTagGroup_points [of g ops st] Cons.prems g by auto
  define qs where "qs = (case e of None \<Rightarrow> ps
    | Some x \<Rightarrow> map (\<lambda>t. createErrorDataPoint (w_now ops (snd st1)) (fst st1) t x) g)"
  have "mset (map dp_TagID qs) = mset (map tag_ID g)"
    using x(2) by (cases e) (simp_all add: qs_def comp_def)
  moreover have "fst (read_groups ops (g # gs) st) = Ok (qs @ rs)"
    using g x(1) y IH(1) by (simp add: qs_def)
  ultimately show ?case using IH(2) by simp
qed simp

lemma groupTagsByType_mset:
  assumes "\<And>ks. mset (perm ks) = mset ks"
  shows "mset (concat (groupTagsByType perm tags)) = mset tags"
proof -
  have "set (perm ks) = set ks" for ks using assms by (metis set_mset_mset)
  moreover have "distinct (perm ks) = distinct ks" for ks using assms by (metis mset_eq_imp_distinct_iff)
  ultimately show ?thesis unfolding groupTagsByType_def by (intro mset_groups) auto
qed

lemma ReadTags_points:
  assumes perm: "\<And>ks. mset (perm ks) = mset ks" and ok: "\<forall>t\<in>set tags. count_suffices t"
  shows "\<exists>ps. fst (ReadTags ops perm tags st) = Ok ps \<and> mset (map dp_TagID ps) = mset (map tag_ID tags)"
proof (cases "tags = []")
  case False
  have m: "mset (concat (groupTagsByType perm tags)) = mset tags" using perm by (rule groupTagsByType_mset)
  then have "set (concat (groupTagsByType perm tags)) = set tags" by (metis set_mset_mset)
  then have "\<forall>g\<in>set (groupTagsByType perm tags). \<forall>t\<in>set g. count_suffices t" using ok by auto
  from read_groups_points [OF this, of ops st] m False show ?thesis
    by (simp add: ReadTags_def)
qed (simp add: ReadTags_def)

section \<open>Coils out of a packed response\<close>

lemma extract_coils_packed:
  assumes "\<forall>t\<in>set ts. unat start \<le> unat (Address t) \<and> unat (Address t) - unat start < length vs"
  shows "fst (extract_coils now start ts (pack_bools vs) c)
    = map (\<lambda>t. good_point now c t (VBool (vs ! (unat (Address t) - unat start)))) ts"
  using assms
proof (induction ts arbitrary: c)
  case (Cons t ts)
  define j where "j = unat (Address t) - unat start"
  have j: "unat (Address t - start) = j" "j < length vs"
    using Cons.prems by (simp_all add: j_def unat_sub_le)
  then have "j < 8 * ((length vs + 7) div 8)" by linarith
  then have b: "bit (pack_bools vs ! (j div 8)) (j mod 8) = vs ! j" using bit_pack_bools j(2) by blast
  have "(pack_bools vs ! (j div 8) AND push_bit (j mod 8) 1 \<noteq> 0) = vs ! j"
    unfolding b [symmetric] by (simp add: bit_iff_and_push_bit_not_eq_0)
  moreover have "\<not> length (pack_bools vs) \<le> j div 8" using j(2) by simp
  moreover have "fst (extract_coils now start ts (pack_bools vs) (recordTagSuccess now (tag_ID t) c))
      = map (\<lambda>t. good_point now c t (VBool (vs ! (unat (Address t) - unat start)))) ts"
    using Cons.IH Cons.prems by simp
  ultimately show ?case using j(1) by (auto simp: Let_def split: prod.splits simp flip: j_def)
qed simp

section \<open>Properties\<close>

lemma limits_fit:
  assumes "validateProtocolLimits t = None"
  shows "RegisterType t = RegisterTypeHoldingRegister \<or> RegisterType t = RegisterTypeInputRegister \<Longrightarrow> tag_fits 125 t"
    and "is_bit_type (RegisterType t) \<Longrightarrow> tag_fits 2000 t"
proof -
  have "0 < unat (RegisterCount t)"
    using assms by (auto simp: validateProtocolLimits_def Let_def unat_gt_0 split: if_splits)
  moreover have "unat (Address t) + unat (RegisterCount t) \<le> 65535"
    using assms by (auto simp: validateProtocolLimits_def Let_def not_less split: if_splits)
  moreover have "RegisterType t = RegisterTypeHoldingRegister \<or> RegisterType t = RegisterTypeInputRegister \<Longrightarrow>
      unat (RegisterCount t) \<le> 125"
    using assms by (auto simp: validateProtocolLimits_def Let_def word_less_nat_alt not_less split: if_splits)
  moreover have "is_bit_type (RegisterType t) \<Longrightarrow> unat (RegisterCount t) \<le> 2000"
    using assms by (auto simp: validateProtocolLimits_def is_bit_type_def Let_def word_less_nat_alt not_less split: if_splits)
  ultimately show "RegisterType t = RegisterTypeHoldingRegister \<or> RegisterType t = RegisterTypeInputRegister \<Longrightarrow> tag_fits 125 t"
    and "is_bit_type (RegisterType t) \<Longrightarrow> tag_fits 2000 t"
    by (simp_all add: tag_fits_def)
qed

lemma range_ok_count:
  assumes "range_ok M r" and "M < 65536"
  shows "0 < unat (range_count r) \<and> unat (range_count r) \<le> M \<and> (\<forall>t\<in>set (rng_Tags r). tag_inside r t)"
  using assms unat_range_count [OF assms] by (auto simp: range_ok_def)

text \<open>
  C3: A batched read answers every tag: whatever the device and the context do and in whatever order
  the groups are visited, \<open>ReadTags\<close> neither fails nor panics on validated tags and returns
  exactly one point per tag asked for.
\<close>

theorem every_tag_answered:
  assumes "\<And>ks. mset (perm ks) = mset ks" and "\<forall>t\<in>set tags. modbus_tag_ok t"
  shows "\<exists>ps. fst (ReadTags ops perm tags st) = Ok ps \<and> mset (map dp_TagID ps) = mset (map tag_ID tags)"
  using assms by (intro ReadTags_points) (auto simp: modbus_tag_ok_def count_suffices_def)

theorem every_tag_answered_witness:
  "\<exists>ps. fst (ReadTags slow_device (\<lambda>ks. ks) [int_tag, int_tag] (open_client 3, \<lambda>a. [0, 0])) = Ok ps
     \<and> mset (map dp_TagID ps) = mset (map tag_ID [int_tag, int_tag])"
  by (rule every_tag_answered)
    (simp_all add: modbus_tag_ok_def int_tag_def raw_tag_def zero_tag_def ExpectedRegisterCount_def f64_one_not_zero)

text \<open>
  The ranges built for a request hold exactly the request's tags, each once, in the order of a
  stable sort by address, whatever the configuration.
\<close>

theorem ranges_hold_the_tags:
  "concat (map rng_Tags (buildContiguousRanges tags cfg)) = insertion_sort tag_key tags
   \<and> mset (concat (map rng_Tags (buildCoilRanges tags cfg))) = mset tags
   \<and> filter (\<lambda>t. tag_key t = k) (concat (map rng_Tags (buildContiguousRanges tags cfg)))
     = filter (\<lambda>t. tag_key t = k) tags"
  by (simp add: buildContiguousRanges_def buildCoilRanges_def build_ranges_tags insertion_sort_stable)

text \<open>
  When every tag is within the protocol's limits for a single read, so is every range: a request
  for between 1 and 125 registers (2000 coils) without 16-bit wrap-around, containing every tag of
  the range.
\<close>

theorem ranges_within_limits:
  assumes "\<forall>t\<in>set tags. validateProtocolLimits t = None"
    and "(\<forall>t\<in>set tags. RegisterType t = RegisterTypeHoldingRegister)
       \<or> (\<forall>t\<in>set tags. RegisterType t = RegisterTypeInputRegister)"
    and "r \<in> set (buildContiguousRanges tags DefaultBatchConfig)"
  shows "0 < unat (range_count r) \<and> unat (range_count r) \<le> 125 \<and> (\<forall>t\<in>set (rng_Tags r). tag_inside r t)"
proof -
  have "\<forall>t\<in>set tags. tag_fits 125 t" using assms(1,2) limits_fit(1) by blast
  with assms(3) show ?thesis using register_ranges_ok by (intro range_ok_count) auto
qed

theorem ranges_within_limits_witness:
  "0 < unat (range_count (start_range int_tag)) \<and> unat (range_count (start_range int_tag)) \<le> 125
   \<and> tag_inside (start_range int_tag) int_tag"
  using ranges_within_limits [of "[int_tag]" "start_range int_tag"]
  by (simp add: buildContiguousRanges_def build_ranges_cases insertion_sort_def start_range_def)

text \<open>
  The coil ranges likewise: between 1 and 2000 coils, with every tag inside.
\<close>

theorem coil_ranges_within_limits:
  assumes "\<forall>t\<in>set tags. validateProtocolLimits t = None \<and> is_bit_type (RegisterType t)"
    and "r \<in> set (buildCoilRanges tags DefaultCoilBatchConfig)"
  shows "0 < unat (range_count r) \<and> unat (range_count r) \<le> 2000 \<and> (\<forall>t\<in>set (rng_Tags r). tag_inside r t)"
proof -
  have "\<forall>t\<in>set tags. tag_fits 2000 t" using assms(1) limits_fit(2) by blast
  with assms(2) show ?thesis using coil_ranges_ok by (intro range_ok_count) auto
qed

definition coil_tag :: "u16 \<Rightarrow> tag" where
  "coil_tag a = int_tag\<lparr>RegisterType := RegisterTypeCoil, DataType := DataTypeBool, RegisterCount := 1, Address := a\<rparr>"

theorem coil_ranges_within_limits_witness:
  "0 < unat (range_count (start_range (coil_tag 9))) \<and> unat (range_count (start_range (coil_tag 9))) \<le> 2000
   \<and> tag_inside (start_range (coil_tag 9)) (coil_tag 9)"
  using coil_ranges_within_limits [of "[coil_tag 9]" "start_range (coil_tag 9)"]
  by (simp add: buildCoilRanges_def build_ranges_cases insertion_sort_def coil_tag_def is_bit_type_def
      validateProtocolLimits_def start_range_def)

text \<open>
  The batched path itself does not check the limits: a tag that passed validation but exceeds the
  protocol's 125 registers is refused by the single read and requested in full by the batched one.
\<close>

theorem batched_read_skips_limit:
  "\<exists>t. modbus_tag_ok t \<and> validateProtocolLimits t \<noteq> None
     \<and> (\<exists>r. buildContiguousRanges [t] DefaultBatchConfig = [r] \<and> range_count r = 200)"
proof (intro exI conjI)
  let ?t = "int_tag\<lparr>RegisterCount := 200\<rparr>"
  show "modbus_tag_ok ?t"
    by (simp add: modbus_tag_ok_def int_tag_def raw_tag_def zero_tag_def ExpectedRegisterCount_def f64_one_not_zero)
  show "validateProtocolLimits ?t \<noteq> None" by (simp add: validateProtocolLimits_def)
  show "buildContiguousRanges [?t] DefaultBatchConfig = [start_range ?t]"
    by (simp add: buildContiguousRanges_def build_ranges_cases insertion_sort_def)
  show "range_count (start_range ?t) = 200"
    by (simp add: range_count_def start_range_def tag_end_def)
qed

text \<open>
  C4: The tags of one register range that do not overlap are read independently: with a response that
  covers the range, the point of every tag is what decoding its own bytes of the response gives,
  although every decode reorders the shared buffer in place.
\<close>

theorem range_read_is_per_tag:
  assumes "mb_has_client c" and "rt = RegisterTypeHoldingRegister \<or> rt = RegisterTypeInputRegister"
    and "lib_read ops rt (StartAddress r) (range_count r) w = (Inr raw, w')"
    and "registers_apart (rng_Tags r)" and "\<forall>t\<in>set (rng_Tags r). modbus_tag_ok t \<and> tag_inside r t"
    and "2 * (unat (EndAddress r) + 1) \<le> 2 * unat (StartAddress r) + length raw"
  shows "fst (readRegisterRange ops r rt (c, w)) = Ok (map (point_of (w_now ops w')
       (count_read (reset_failures c)) (StartAddress r) raw) (rng_Tags r))"
proof -
  have "\<forall>t\<in>set (rng_Tags r). count_suffices t \<and> unat (StartAddress r) \<le> unat (Address t)
      \<and> 2 * (unat (Address t) + unat (RegisterCount t)) \<le> 2 * unat (StartAddress r) + length raw"
    using assms(5,6) by (auto simp: modbus_tag_ok_def count_suffices_def tag_inside_def)
  from extract_registers_points [OF assms(4) this, of "w_now ops w'" "count_read (reset_failures c)"]
  show ?thesis using assms(1-3) by (auto simp: readRegisterRange_def split: prod.splits)
qed

theorem range_read_is_per_tag_witness:
  "fst (readRegisterRange memory_device (start_range int_tag) RegisterTypeHoldingRegister (open_client 3, \<lambda>a. [0, 7]))
   = Ok (map (point_of 0 (count_read (reset_failures (open_client 3))) 40 [0, 7, 0, 7]) [int_tag])"
  using range_read_is_per_tag [of "open_client 3" RegisterTypeHoldingRegister memory_device "start_range int_tag"
      "\<lambda>a. [0, 7]" "[0, 7, 0, 7]" "\<lambda>a. [0, 7]"]
  by (simp add: open_client_def start_range_def tag_end_def int_tag_def raw_tag_def zero_tag_def lib_read_def
      memory_device_def range_count_def upt_rec registers_apart_def modbus_tag_ok_def ExpectedRegisterCount_def
      f64_one_not_zero tag_inside_def)

text \<open>
  Tags that share a register are not read independently: of two little-endian 16-bit tags at one
  address, the first gets the register's value and the second gets it with its bytes swapped,
  because the first decode reversed the shared bytes in place.
\<close>

theorem shared_register_swapped:
  assumes "count_suffices t" and "RegisterCount t = 1" and "\<not> is_bit_type (RegisterType t)"
    and "ByteOrder t = ByteOrderLittleEndian" and "Address t = start" and "DataType t = DataTypeUInt16"
  shows "map dp_RawValue (case fst (extract_registers now start [t, t] [a, b] c) of Ok ps \<Rightarrow> ps | _ \<Rightarrow> [])
    = [VUint16 (word_of_nat (unat b * 256 + unat a)), VUint16 (word_of_nat (unat a * 256 + unat b))]"
  using assms by (rule extract_shared_register)

theorem shared_register_swapped_witness:
  "map dp_RawValue (case fst (extract_registers 0 40 [int_tag\<lparr>RegisterCount := 1, DataType := DataTypeUInt16,
       ByteOrder := ByteOrderLittleEndian\<rparr>, int_tag\<lparr>RegisterCount := 1, DataType := DataTypeUInt16,
       ByteOrder := ByteOrderLittleEndian\<rparr>] [1, 2] (open_client 3)) of Ok ps \<Rightarrow> ps | _ \<Rightarrow> [])
    = [VUint16 (word_of_nat (unat (2 :: byte) * 256 + unat (1 :: byte))),
       VUint16 (word_of_nat (unat (1 :: byte) * 256 + unat (2 :: byte)))]"
  by (rule shared_register_swapped)
    (simp_all add: count_suffices_def int_tag_def raw_tag_def zero_tag_def ExpectedRegisterCount_def is_bit_type_def)

text \<open>
  Coils packed as the multiple write packs them are unpacked by the batched coil read: the point
  of a tag holds exactly its coil, at any offset within the range.
\<close>

theorem coils_unpacked:
  assumes "\<forall>t\<in>set ts. unat start \<le> unat (Address t) \<and> unat (Address t) - unat start < length vs"
  shows "fst (extract_coils now start ts (pack_bools vs) c)
    = map (\<lambda>t. good_point now c t (VBool (vs ! (unat (Address t) - unat start)))) ts"
  using assms by (rule extract_coils_packed)

theorem coils_unpacked_witness:
  "fst (extract_coils 0 5 [coil_tag 5, coil_tag 7] (pack_bools [True, True, False]) (open_client 3))
   = [good_point 0 (open_client 3) (coil_tag 5) (VBool True), good_point 0 (open_client 3) (coil_tag 7) (VBool False)]"
  using coils_unpacked [of "[coil_tag 5, coil_tag 7]" 5 "[True, True, False]" 0 "open_client 3"]
  by (simp add: coil_tag_def)

end
