(* ===== verification/Circuit_Breaker.thy ===== *)
theory Circuit_Breaker
  imports Domain
begin

text \<open>
  What the connection pools share: the settings they give to the circuit breaker library gobreaker,
  the trip decision they hand to it, a request run through a breaker, and the contract of a pool
  of bounded size.  The breaker itself is not in the repository: its admission and its record of a
  result are parameters, and \<open>Execute\<close> is what its documentation says of \<open>Execute\<close>.
\<close>

section \<open>Settings\<close>

fun fp_le :: "fp \<Rightarrow> fp \<Rightarrow> bool" where
  "fp_le (FInf s) (FInf t) = (s \<or> \<not> t)"
| "fp_le (FInf s) (FFin t n d) = s"
| "fp_le (FFin s m e) (FInf t) = (\<not> t)"
| "fp_le (FFin s m e) (FFin t n d) =
     (let k = min e d in signed_mag s m * 2 ^ nat (e - k) \<le> signed_mag t n * 2 ^ nat (d - k))"
| "fp_le x y = False"

definition f64_le :: "u64 \<Rightarrow> u64 \<Rightarrow> bool" where
  "f64_le a b = fp_le (f64_dec a) (f64_dec b)"

definition f64_positive :: "u64 \<Rightarrow> bool" where
  "f64_positive a \<longleftrightarrow> f64_le f64_zero a \<and> \<not> f64_eq a f64_zero"

record breaker_settings =
  bs_Name :: string
  bs_MaxRequests :: u32
  bs_Interval :: duration
  bs_Timeout :: duration
  bs_FailureThreshold :: u32
  bs_FailureRatio :: u64

text \<open>The values of a device's own configuration take precedence when they are positive.\<close>

definition breaker_overrides :: "breaker_config option \<Rightarrow> breaker_settings \<Rightarrow> breaker_settings" where
  "breaker_overrides cfg s = (case cfg of None \<Rightarrow> s | Some cb \<Rightarrow>
     s\<lparr>bs_MaxRequests := (if 0 < MaxRequests cb then MaxRequests cb else bs_MaxRequests s),
       bs_Interval := (if 0 < Interval cb then Interval cb else bs_Interval s),
       bs_Timeout := (if 0 < BreakerTimeout cb then BreakerTimeout cb else bs_Timeout s),
       bs_FailureThreshold := (if 0 < FailureThreshold cb then FailureThreshold cb else bs_FailureThreshold s),
       bs_FailureRatio := (if f64_positive (FailureRatio cb) then FailureRatio cb else bs_FailureRatio s)\<rparr>)"

text \<open>\<open>ReadyToTrip\<close>; with no request the ratio is not a number and the comparison false.\<close>

definition ready_to_trip :: "breaker_settings \<Rightarrow> u32 \<Rightarrow> u32 \<Rightarrow> bool" where
  "ready_to_trip s requests failures \<longleftrightarrow>
     bs_FailureThreshold s \<le> requests
     \<and> f64_le (bs_FailureRatio s) (f64_div (f64_of_int (uint failures)) (f64_of_int (uint requests)))"

section \<open>Running a request through a breaker\<close>

datatype breaker_state = StateClosed | StateHalfOpen | StateOpen

record 'b breaker_lib =
  bl_new :: "breaker_settings \<Rightarrow> 'b"
  bl_before :: "time \<Rightarrow> 'b \<Rightarrow> err option \<times> 'b"
  bl_after :: "time \<Rightarrow> bool \<Rightarrow> 'b \<Rightarrow> 'b"
  bl_state :: "time \<Rightarrow> 'b \<Rightarrow> breaker_state"

text \<open>
  The request returns a value and an error, both of which \<open>Execute\<close> passes on; a refused request
  has no value.  A panic counts as a failure and goes on.
\<close>

definition Execute ::
  "'b breaker_lib \<Rightarrow> ('s \<Rightarrow> time) \<Rightarrow> ('s \<Rightarrow> ('a \<times> err option) res \<times> 's) \<Rightarrow> 'b \<Rightarrow> 's
     \<Rightarrow> ('a option \<times> err option) res \<times> 'b \<times> 's" where
  "Execute lib now f b s = (case bl_before lib (now s) b of
       (Some e, b1) \<Rightarrow> (Ok (None, Some e), b1, s)
     | (None, b1) \<Rightarrow>
         (case f s of
            (Ok (x, e), s1) \<Rightarrow> (Ok (Some x, e), bl_after lib (now s1) (e = None) b1, s1)
          | (Err e, s1) \<Rightarrow> (Ok (None, Some e), bl_after lib (now s1) False b1, s1)
          | (Panic, s1) \<Rightarrow> (Panic, bl_after lib (now s1) False b1, s1)))"

text \<open>\<open>if err == gobreaker.ErrOpenState\<close>.\<close>

definition breaker_error :: "err \<Rightarrow> err" where
  "breaker_error e = (if e = BreakerOpenState then ErrCircuitBreakerOpen else e)"

text \<open>Results with a value and an error, from results with either.\<close>

definition either_result :: "'a \<Rightarrow> 'a res \<times> 's \<Rightarrow> ('a \<times> err option) res \<times> 's" where
  "either_result nothing rs = (case rs of
       (Ok x, s) \<Rightarrow> (Ok (x, None), s)
     | (Err e, s) \<Rightarrow> (Ok (nothing, Some e), s)
     | (Panic, s) \<Rightarrow> (Panic, s))"

lemma Execute_refused:
  "bl_before lib (now s) b = (Some e, b1) \<Longrightarrow> Execute lib now f b s = (Ok (None, Some e), b1, s)"
  by (simp add: Execute_def)

lemma Execute_done:
  "bl_before lib (now s) b = (None, b1) \<Longrightarrow> f s = (Ok (x, e), s1) \<Longrightarrow>
     Execute lib now f b s = (Ok (Some x, e), bl_after lib (now s1) (e = None) b1, s1)"
  by (simp add: Execute_def)

section \<open>Pools of bounded size\<close>

text \<open>
  A pool whose operations keep its limit and let it grow at most to that limit: then so does every
  sequence of operations.
\<close>

locale bounded_pool =
  fixes step :: "'op \<Rightarrow> 's \<Rightarrow> 's"
    and keys :: "'s \<Rightarrow> string set"
    and limit :: "'s \<Rightarrow> int"
  assumes limit_kept: "limit (step x s) = limit s"
    and step_finite: "finite (keys s) \<Longrightarrow> finite (keys (step x s))"
    and step_bound: "finite (keys s) \<Longrightarrow> int (card (keys (step x s))) \<le> max (int (card (keys s))) (limit s)"
begin

lemma run_bound:
  "finite (keys s) \<Longrightarrow>
     finite (keys (fold step xs s)) \<and> limit (fold step xs s) = limit s
     \<and> int (card (keys (fold step xs s))) \<le> max (int (card (keys s))) (limit s)"
proof (induction xs arbitrary: s)
  case (Cons x xs)
  then show ?case
    using step_finite [of s x] step_bound [of s x] limit_kept [of x s] Cons.IH [of "step x s"] by auto
qed simp

lemma run_within:
  assumes "finite (keys s)" "int (card (keys s)) \<le> limit s"
  shows "int (card (keys (fold step xs s))) \<le> limit s"
  using run_bound [OF assms(1), of xs] assms(2) by auto

end

lemma card_grow:
  assumes "finite A" "B \<subseteq> A \<or> (B \<subseteq> insert k A \<and> int (card A) < n)"
  shows "int (card B) \<le> max (int (card A)) n"
proof -
  have "card B \<le> card (insert k A)" "B \<subseteq> A \<Longrightarrow> card B \<le> card A"
    using assms by (auto intro: card_mono)
  moreover have "card (insert k A) \<le> Suc (card A)" using assms(1) by (simp add: card_insert_if)
  ultimately show ?thesis using assms(2) by auto
qed

end
