(* ===== verification/Modbus_Pool.thy ===== *)
theory Modbus_Pool
  imports Modbus_Batch Circuit_Breaker
begin

text \<open>
  \<open>internal/adapter/modbus/pool.go\<close> and the pool's part of \<open>types.go\<close> and \<open>health.go\<close>: one client and
  one circuit breaker per device, created on demand up to a limit, with health checks and a
  reaper.  The map of clients is a finite map; a loop over it visits the keys in the order of a
  list given to it.  An operation is atomic: between the lookup of a client and its use the code
  holds no lock, so the branch for a client that has vanished in between is kept but not reached.
\<close>

section \<open>State\<close>

record mb_pool_config =
  pc_MaxConnections :: int
  pc_IdleTimeout :: duration
  pc_HealthCheckPeriod :: duration
  pc_ConnectionTimeout :: duration
  pc_RetryAttempts :: int
  pc_RetryDelay :: duration
  pc_CircuitBreakerName :: string
  pc_MaxTTL :: duration

record 'b pooled_client =
  pe_client :: mb_client
  pe_device :: device
  pe_breaker :: 'b
  pe_createdAt :: time
  pe_inUse :: bool
  pe_lastError :: "err option"

record 'b mb_pool =
  mp_config :: mb_pool_config
  mp_clients :: "string \<rightharpoonup> 'b pooled_client"
  mp_closed :: bool

text \<open>
  The environment: the Modbus library of a handler with a given configuration, the breaker library,
  the clock and the order of the register types in a batched read.
\<close>

record ('w, 'b) mb_pool_env =
  me_ops :: "client_config \<Rightarrow> 'w modbus_ops"
  me_breaker :: "'b breaker_lib"
  me_now :: "'w \<Rightarrow> time"
  me_perm :: "register_type list \<Rightarrow> register_type list"

type_synonym ('w, 'b) mp_state = "'b mb_pool \<times> 'w"

definition DefaultPoolConfig :: mb_pool_config where
  "DefaultPoolConfig = \<lparr>pc_MaxConnections = 500, pc_IdleTimeout = 300 * second, pc_HealthCheckPeriod = 30 * second,
     pc_ConnectionTimeout = 10 * second, pc_RetryAttempts = 3, pc_RetryDelay = 100 * millisecond,
     pc_CircuitBreakerName = ''modbus-pool'', pc_MaxTTL = 0\<rparr>"

definition NewConnectionPool :: "mb_pool_config \<Rightarrow> 'b mb_pool" where
  "NewConnectionPool cfg = \<lparr>
     mp_config = cfg\<lparr>
       pc_MaxConnections := default_if (pc_MaxConnections cfg) 500,
       pc_IdleTimeout := default_if (pc_IdleTimeout cfg) (300 * second),
       pc_HealthCheckPeriod := default_if (pc_HealthCheckPeriod cfg) (30 * second),
       pc_ConnectionTimeout := default_if (pc_ConnectionTimeout cfg) (10 * second)\<rparr>,
     mp_clients = Map.empty, mp_closed = False\<rparr>"

definition createCircuitBreaker :: "'b breaker_lib \<Rightarrow> device \<Rightarrow> 'b" where
  "createCircuitBreaker lib d = bl_new lib (breaker_overrides (CircuitBreaker (Connection d))
     \<lparr>bs_Name = ''modbus-'' @ dev_ID d, bs_MaxRequests = 3, bs_Interval = 10 * second, bs_Timeout = 30 * second,
      bs_FailureThreshold = 10, bs_FailureRatio = 0x3FE3333333333333\<rparr>)"

abbreviation put_client :: "string \<Rightarrow> 'b pooled_client \<Rightarrow> 'b mb_pool \<Rightarrow> 'b mb_pool" where
  "put_client k pc p \<equiv> p\<lparr>mp_clients := (mp_clients p)(k \<mapsto> pc)\<rparr>"

section \<open>Getting a client\<close>

definition pool_client_config :: "mb_pool_config \<Rightarrow> device \<Rightarrow> client_config" where
  "pool_client_config cfg d = (let cn = Connection d in
     \<lparr>cc_Address = Host cn @ '':'' @ show_int (Port cn), cc_SlaveID = SlaveID cn,
      cc_Timeout = default_if (Timeout cn) (5 * second), cc_IdleTimeout = pc_IdleTimeout cfg,
      cc_MaxRetries = default_if (RetryCount cn) (pc_RetryAttempts cfg),
      cc_RetryDelay = default_if (RetryDelay cn) (pc_RetryDelay cfg), cc_Protocol = dev_Protocol d\<rparr>)"

definition mp_createClient ::
  "('w, 'b) mb_pool_env \<Rightarrow> mb_pool_config \<Rightarrow> device \<Rightarrow> 'w \<Rightarrow> mb_client res \<times> 'w" where
  "mp_createClient env cfg d w = (case NewClient (me_now env w) (dev_ID d) (pool_client_config cfg d) of
       Ok c \<Rightarrow> (case Connect (me_ops env (mb_config c)) (c, w) of
           (None, (c1, w1)) \<Rightarrow> (Ok c1, w1)
         | (Some e, (c1, w1)) \<Rightarrow> (Err e, w1))
     | Err e \<Rightarrow> (Err e, w)
     | Panic \<Rightarrow> (Panic, w))"

text \<open>A connection attempt of a pooled client; its error is kept with the client.\<close>

definition mp_connect :: "('w, 'b) mb_pool_env \<Rightarrow> 'b pooled_client \<Rightarrow> 'w \<Rightarrow> err option \<times> 'b pooled_client \<times> 'w" where
  "mp_connect env pc w = (case Connect (me_ops env (mb_config (pe_client pc))) (pe_client pc, w) of
     (e, (c, w1)) \<Rightarrow> (e, pc\<lparr>pe_client := c, pe_lastError := (if e = None then pe_lastError pc else e)\<rparr>, w1))"

definition GetClient :: "('w, 'b) mb_pool_env \<Rightarrow> device \<Rightarrow> ('w, 'b) mp_state \<Rightarrow> unit res \<times> ('w, 'b) mp_state" where
  "GetClient env d st = (case st of (p, w) \<Rightarrow>
     if mp_closed p then (Err ErrServiceStopped, st)
     else case mp_clients p (dev_ID d) of
       Some pc \<Rightarrow>
         if mb_connected (pe_client pc) then (Ok (), st)
         else (case mp_connect env pc w of (e, pc1, w1) \<Rightarrow>
           ((case e of None \<Rightarrow> Ok () | Some e \<Rightarrow> Err e), (put_client (dev_ID d) pc1 p, w1)))
     | None \<Rightarrow>
         if pc_MaxConnections (mp_config p) \<le> int (card (dom (mp_clients p))) then (Err ErrPoolExhausted, st)
         else (case mp_createClient env (mp_config p) d w of
            (Ok c, w1) \<Rightarrow> (Ok (), (put_client (dev_ID d)
               \<lparr>pe_client = c, pe_device = d, pe_breaker = createCircuitBreaker (me_breaker env) d,
                pe_createdAt = me_now env w1, pe_inUse = False, pe_lastError = None\<rparr> p, w1))
          | (Err e, w1) \<Rightarrow> (Err e, (p, w1))
          | (Panic, w1) \<Rightarrow> (Panic, (p, w1))))"

section \<open>Requests through the breaker\<close>

definition mp_execute ::
  "('w, 'b) mb_pool_env \<Rightarrow> device \<Rightarrow> ('w modbus_ops \<Rightarrow> 'w mb_state \<Rightarrow> ('a \<times> err option) res \<times> 'w mb_state)
     \<Rightarrow> ('w, 'b) mp_state \<Rightarrow> ('a option \<times> err option) res \<times> ('w, 'b) mp_state" where
  "mp_execute env d f st = (case GetClient env d st of
       (Panic, st1) \<Rightarrow> (Panic, st1)
     | (Err e, st1) \<Rightarrow> (Ok (None, Some e), st1)
     | (Ok _, (p, w)) \<Rightarrow>
         (case mp_clients p (dev_ID d) of
            None \<Rightarrow> (Ok (None, Some ErrDeviceNotFound), (p, w))
          | Some pc \<Rightarrow>
              (case Execute (me_breaker env) (\<lambda>s. me_now env (snd s)) (f (me_ops env (mb_config (pe_client pc))))
                      (pe_breaker pc) (pe_client pc, w) of
                 (r, b, (c, w1)) \<Rightarrow>
                   (bind_outcome r (\<lambda>(x, e). Ok (case e of None \<Rightarrow> (x, None) | Some e \<Rightarrow> (None, Some (breaker_error e)))),
                    (put_client (dev_ID d) (pc\<lparr>pe_client := c, pe_breaker := b\<rparr>) p, w1)))))"

definition mp_ReadTags ::
  "('w, 'b) mb_pool_env \<Rightarrow> device \<Rightarrow> tag list \<Rightarrow> ('w, 'b) mp_state
     \<Rightarrow> (data_point list option \<times> err option) res \<times> ('w, 'b) mp_state" where
  "mp_ReadTags env d tags = mp_execute env d (\<lambda>ops s. either_result [] (ReadTags ops (me_perm env) tags s))"

definition mp_ReadTag ::
  "('w, 'b) mb_pool_env \<Rightarrow> device \<Rightarrow> tag \<Rightarrow> ('w, 'b) mp_state
     \<Rightarrow> (data_point option option \<times> err option) res \<times> ('w, 'b) mp_state" where
  "mp_ReadTag env d t = mp_execute env d (\<lambda>ops. ReadTag ops t)"

definition mp_write ::
  "('w, 'b) mb_pool_env \<Rightarrow> device \<Rightarrow> ('w modbus_ops \<Rightarrow> 'w mb_state \<Rightarrow> unit res \<times> 'w mb_state)
     \<Rightarrow> ('w, 'b) mp_state \<Rightarrow> unit res \<times> ('w, 'b) mp_state" where
  "mp_write env d f st = (case mp_execute env d (\<lambda>ops s. either_result () (f ops s)) st of
     (r, st1) \<Rightarrow> (bind_outcome r (\<lambda>(x, e). case e of None \<Rightarrow> Ok () | Some e \<Rightarrow> Err e), st1))"

definition mp_WriteTag :: "('w, 'b) mb_pool_env \<Rightarrow> device \<Rightarrow> tag \<Rightarrow> goval \<Rightarrow> ('w, 'b) mp_state \<Rightarrow> unit res \<times> ('w, 'b) mp_state" where
  "mp_WriteTag env d t v = mp_write env d (\<lambda>ops. WriteTag ops t v)"

definition mp_WriteSingleCoil :: "('w, 'b) mb_pool_env \<Rightarrow> device \<Rightarrow> u16 \<Rightarrow> bool \<Rightarrow> ('w, 'b) mp_state \<Rightarrow> unit res \<times> ('w, 'b) mp_state" where
  "mp_WriteSingleCoil env d a v = mp_write env d (\<lambda>ops. WriteSingleCoil ops a v)"

definition mp_WriteSingleRegister :: "('w, 'b) mb_pool_env \<Rightarrow> device \<Rightarrow> u16 \<Rightarrow> u16 \<Rightarrow> ('w, 'b) mp_state \<Rightarrow> unit res \<times> ('w, 'b) mp_state" where
  "mp_WriteSingleRegister env d a v = mp_write env d (\<lambda>ops. WriteSingleRegister ops a v)"

definition mp_WriteMultipleRegisters ::
  "('w, 'b) mb_pool_env \<Rightarrow> device \<Rightarrow> u16 \<Rightarrow> u16 list \<Rightarrow> ('w, 'b) mp_state \<Rightarrow> unit res \<times> ('w, 'b) mp_state" where
  "mp_WriteMultipleRegisters env d a vs = mp_write env d (\<lambda>ops. WriteMultipleRegisters ops a vs)"

definition mp_WriteMultipleCoils ::
  "('w, 'b) mb_pool_env \<Rightarrow> device \<Rightarrow> u16 \<Rightarrow> bool list \<Rightarrow> ('w, 'b) mp_state \<Rightarrow> unit res \<times> ('w, 'b) mp_state" where
  "mp_WriteMultipleCoils env d a vs = mp_write env d (\<lambda>ops. WriteMultipleCoils ops a vs)"

section \<open>Removing, closing, reaping\<close>

definition mp_disconnect :: "('w, 'b) mb_pool_env \<Rightarrow> 'b pooled_client \<Rightarrow> 'w \<Rightarrow> 'w" where
  "mp_disconnect env pc w = snd (Disconnect (me_ops env (mb_config (pe_client pc))) (pe_client pc, w))"

definition RemoveClient :: "('w, 'b) mb_pool_env \<Rightarrow> string \<Rightarrow> ('w, 'b) mp_state \<Rightarrow> err option \<times> ('w, 'b) mp_state" where
  "RemoveClient env deviceID st = (case st of (p, w) \<Rightarrow>
     (case mp_clients p deviceID of
        None \<Rightarrow> (Some ErrDeviceNotFound, st)
      | Some pc \<Rightarrow> (None, (p\<lparr>mp_clients := (mp_clients p)(deviceID := None)\<rparr>, mp_disconnect env pc w))))"

text \<open>The loop of \<open>Close\<close>; \<open>Disconnect\<close> never returns an error.  A second \<open>Close\<close> closes a closed channel.\<close>

fun mp_disconnect_all :: "('w, 'b) mb_pool_env \<Rightarrow> (string \<rightharpoonup> 'b pooled_client) \<Rightarrow> string list \<Rightarrow> 'w \<Rightarrow> 'w" where
  "mp_disconnect_all env m [] w = w"
| "mp_disconnect_all env m (k # ks) w = mp_disconnect_all env m ks
     (case m k of None \<Rightarrow> w | Some pc \<Rightarrow> mp_disconnect env pc w)"

definition mp_Close :: "('w, 'b) mb_pool_env \<Rightarrow> string list \<Rightarrow> ('w, 'b) mp_state \<Rightarrow> unit res \<times> ('w, 'b) mp_state" where
  "mp_Close env ks st = (case st of (p, w) \<Rightarrow>
     if mp_closed p then (Panic, st)
     else (Ok (), (p\<lparr>mp_closed := True, mp_clients := Map.empty\<rparr>, mp_disconnect_all env (mp_clients p) ks w)))"

definition checkClientHealth :: "('w, 'b) mb_pool_env \<Rightarrow> string \<Rightarrow> ('w, 'b) mp_state \<Rightarrow> ('w, 'b) mp_state" where
  "checkClientHealth env deviceID st = (case st of (p, w) \<Rightarrow>
     (case mp_clients p deviceID of
        None \<Rightarrow> st
      | Some pc \<Rightarrow>
          if mb_connected (pe_client pc) then st
          else (case mp_connect env pc w of (e, pc1, w1) \<Rightarrow> (put_client deviceID pc1 p, w1))))"

text \<open>One tick of the health loop, over the keys it copied.\<close>

definition mp_health_tick :: "('w, 'b) mb_pool_env \<Rightarrow> string list \<Rightarrow> ('w, 'b) mp_state \<Rightarrow> ('w, 'b) mp_state" where
  "mp_health_tick env ks st = (if mp_closed (fst st) then st else fold (checkClientHealth env) ks st)"

definition mp_idle :: "mb_pool_config \<Rightarrow> time \<Rightarrow> 'b pooled_client \<Rightarrow> bool" where
  "mp_idle cfg now pc \<longleftrightarrow> pc_IdleTimeout cfg < time_sub now (mb_lastUsed (pe_client pc))"

definition mp_expired :: "mb_pool_config \<Rightarrow> time \<Rightarrow> 'b pooled_client \<Rightarrow> bool" where
  "mp_expired cfg now pc \<longleftrightarrow> 0 < pc_MaxTTL cfg \<and> pc_MaxTTL cfg < time_sub now (pe_createdAt pc)"

definition reap_client :: "('w, 'b) mb_pool_env \<Rightarrow> time \<Rightarrow> string \<Rightarrow> ('w, 'b) mp_state \<Rightarrow> ('w, 'b) mp_state" where
  "reap_client env now k st = (case st of (p, w) \<Rightarrow>
     (case mp_clients p k of
        None \<Rightarrow> st
      | Some pc \<Rightarrow>
          if mp_idle (mp_config p) now pc \<or> mp_expired (mp_config p) now pc
          then (p\<lparr>mp_clients := (mp_clients p)(k := None)\<rparr>, mp_disconnect env pc w)
          else st))"

definition reapIdleConnections :: "('w, 'b) mb_pool_env \<Rightarrow> string list \<Rightarrow> ('w, 'b) mp_state \<Rightarrow> ('w, 'b) mp_state" where
  "reapIdleConnections env ks st = fold (reap_client env (me_now env (snd st))) ks st"

definition mp_reaper_tick :: "('w, 'b) mb_pool_env \<Rightarrow> string list \<Rightarrow> ('w, 'b) mp_state \<Rightarrow> ('w, 'b) mp_state" where
  "mp_reaper_tick env ks st = (if mp_closed (fst st) then st else reapIdleConnections env ks st)"

section \<open>Statistics and health\<close>

record mb_pool_stats =
  ps_TotalConnections :: nat
  ps_ActiveConnections :: nat
  ps_InUseConnections :: nat
  ps_MaxConnections :: int

definition clients_where :: "('b pooled_client \<Rightarrow> bool) \<Rightarrow> 'b mb_pool \<Rightarrow> string set" where
  "clients_where P p = {k \<in> dom (mp_clients p). P (the (mp_clients p k))}"

definition mp_Stats :: "'b mb_pool \<Rightarrow> mb_pool_stats" where
  "mp_Stats p = \<lparr>ps_TotalConnections = card (dom (mp_clients p)),
     ps_ActiveConnections = card (clients_where (\<lambda>pc. mb_connected (pe_client pc)) p),
     ps_InUseConnections = card (clients_where pe_inUse p), ps_MaxConnections = pc_MaxConnections (mp_config p)\<rparr>"

text \<open>The gauges that \<open>publishActiveConnectionMetrics\<close> sets.\<close>

definition active_gauge :: "'b mb_pool \<Rightarrow> protocol \<Rightarrow> nat option" where
  "active_gauge p proto =
     (let n = card (clients_where (\<lambda>pc. mb_connected (pe_client pc) \<and> dev_Protocol (pe_device pc) = proto) p)
      in if 0 < n \<or> proto = ProtocolModbusTCP \<or> proto = ProtocolModbusRTU then Some n else None)"

definition mp_HealthCheck :: "'b mb_pool \<Rightarrow> err option" where
  "mp_HealthCheck p = (if mp_closed p then Some ErrServiceStopped else None)"

definition mp_IsHealthy :: "'b mb_pool \<Rightarrow> bool" where
  "mp_IsHealthy p = (\<not> mp_closed p)"

record mb_device_health =
  dh_DeviceID :: string
  dh_Connected :: bool
  dh_CircuitBreakerOpen :: bool
  dh_LastError :: "err option"

definition mp_GetDeviceHealth :: "'b breaker_lib \<Rightarrow> time \<Rightarrow> 'b mb_pool \<Rightarrow> string \<Rightarrow> mb_device_health option" where
  "mp_GetDeviceHealth lib now p deviceID = (case mp_clients p deviceID of
       None \<Rightarrow> None
     | Some pc \<Rightarrow> Some \<lparr>dh_DeviceID = deviceID, dh_Connected = mb_connected (pe_client pc),
         dh_CircuitBreakerOpen = (bl_state lib now (pe_breaker pc) = StateOpen), dh_LastError = pe_lastError pc\<rparr>)"

definition mp_GetAllDeviceHealth :: "'b breaker_lib \<Rightarrow> time \<Rightarrow> 'b mb_pool \<Rightarrow> string \<rightharpoonup> mb_device_health" where
  "mp_GetAllDeviceHealth lib now p = mp_GetDeviceHealth lib now p"

section \<open>What a batched read leaves alone\<close>

text \<open>A batched read changes neither the connection nor the time of last use, on which the reaper decides.\<close>

definition conn_frame :: "mb_client \<Rightarrow> time \<times> bool \<times> bool \<times> client_config" where
  "conn_frame c = (mb_lastUsed c, mb_connected c, mb_has_client c, mb_config c)"

lemma conn_frame_simps [simp]:
  "conn_frame (recordTagError now i e c) = conn_frame c" "conn_frame (recordTagSuccess now i c) = conn_frame c"
  "conn_frame (count_read c) = conn_frame c" "conn_frame (add_failure c) = conn_frame c"
  "conn_frame (reset_failures c) = conn_frame c"
  by (simp_all add: conn_frame_def recordTagError_def recordTagSuccess_def count_read_def add_failure_def
      reset_failures_def Let_def)

lemma extract_registers_frame: "conn_frame (snd (extract_registers now start ts raw c)) = conn_frame c"
proof (induction now start ts raw c rule: extract_registers.induct)
  case (2 now start t ts raw c)
  obtain res sub where p: "parseValue (take (unat (RegisterCount t) * 2) (drop (tag_offset start t) raw)) t = (res, sub)"
    by (rule prod.exhaust)
  show ?case
    using "2.IH"(1) [OF refl refl] "2.IH"(2,3) [OF refl refl _ p [symmetric] refl] p
    by (cases res) (auto simp: Let_def split_beta)
qed simp

lemma extract_coils_frame: "conn_frame (snd (extract_coils now start ts raw c)) = conn_frame c"
  by (induction now start ts raw c rule: extract_coils.induct) (auto simp: Let_def split_beta)

lemma read_range_frame:
  "conn_frame (fst (snd (readRegisterRange ops r rt st))) = conn_frame (fst st)"
  "conn_frame (fst (snd (readCoilRange ops r rt st))) = conn_frame (fst st)"
  by (auto simp: readRegisterRange_def readCoilRange_def split_beta extract_registers_frame extract_coils_frame
      split: sum.splits)

lemma read_ranges_frame:
  assumes "\<And>r st. conn_frame (fst (snd (rd r st))) = conn_frame (fst st)"
  shows "conn_frame (fst (snd (read_ranges ops rd rs st))) = conn_frame (fst st)"
proof (induction rs arbitrary: st)
  case (Cons r rs)
  obtain x st1 where "rd r st = (x, st1)" by (rule prod.exhaust)
  then show ?case using assms [of r st] Cons.IH [of st1]
    by (cases x) (auto simp: split_beta split: option.splits)
qed simp

lemma readTagGroup_frame: "conn_frame (fst (snd (readTagGroup ops g st))) = conn_frame (fst st)"
  by (cases g) (simp_all add: readTagGroup_def readCoilGroupBatched_def read_ranges_frame read_range_frame)

lemma read_groups_frame: "conn_frame (fst (snd (read_groups ops gs st))) = conn_frame (fst st)"
proof (induction gs arbitrary: st)
  case (Cons g gs)
  obtain x st1 where "readTagGroup ops g st = (x, st1)" by (rule prod.exhaust)
  then show ?case using readTagGroup_frame [of ops g st] Cons.IH [of st1]
    by (cases x) (auto simp: Let_def split_beta)
qed simp

lemma ReadTags_frame: "conn_frame (fst (snd (ReadTags ops perm tags st))) = conn_frame (fst st)"
  by (simp add: ReadTags_def read_groups_frame)

section \<open>The pool's size\<close>

datatype mp_op =
    GetReadTags device "tag list"
  | GetReadTag device tag
  | GetWriteTag device tag goval
  | GetWriteCoil device u16 bool
  | GetWriteRegister device u16 u16
  | GetWriteRegisters device u16 "u16 list"
  | GetWriteCoils device u16 "bool list"
  | Remove string
  | HealthTick "string list"
  | ReaperTick "string list"
  | ClosePool "string list"

fun mp_step :: "('w, 'b) mb_pool_env \<Rightarrow> mp_op \<Rightarrow> ('w, 'b) mp_state \<Rightarrow> ('w, 'b) mp_state" where
  "mp_step env (GetReadTags d ts) st = snd (mp_ReadTags env d ts st)"
| "mp_step env (GetReadTag d t) st = snd (mp_ReadTag env d t st)"
| "mp_step env (GetWriteTag d t v) st = snd (mp_WriteTag env d t v st)"
| "mp_step env (GetWriteCoil d a v) st = snd (mp_WriteSingleCoil env d a v st)"
| "mp_step env (GetWriteRegister d a v) st = snd (mp_WriteSingleRegister env d a v st)"
| "mp_step env (GetWriteRegisters d a vs) st = snd (mp_WriteMultipleRegisters env d a vs st)"
| "mp_step env (GetWriteCoils d a vs) st = snd (mp_WriteMultipleCoils env d a vs st)"
| "mp_step env (Remove k) st = snd (RemoveClient env k st)"
| "mp_step env (HealthTick ks) st = mp_health_tick env ks st"
| "mp_step env (ReaperTick ks) st = mp_reaper_tick env ks st"
| "mp_step env (ClosePool ks) st = snd (mp_Close env ks st)"

definition mp_keys :: "('w, 'b) mp_state \<Rightarrow> string set" where
  "mp_keys st = dom (mp_clients (fst st))"

definition mp_limit :: "('w, 'b) mp_state \<Rightarrow> int" where
  "mp_limit st = pc_MaxConnections (mp_config (fst st))"

text \<open>The configuration stays, and there is at most one new key, and only below the limit.\<close>

definition mp_grows :: "('w, 'b) mp_state \<Rightarrow> ('w, 'b) mp_state \<Rightarrow> bool" where
  "mp_grows st st' \<longleftrightarrow> mp_config (fst st') = mp_config (fst st)
     \<and> (mp_keys st' \<subseteq> mp_keys st \<or> (\<exists>k. mp_keys st' \<subseteq> insert k (mp_keys st) \<and> int (card (mp_keys st)) < mp_limit st))"

lemma GetClient_grows: "mp_grows st (snd (GetClient env d st))"
  by (auto simp: GetClient_def mp_grows_def mp_keys_def mp_limit_def split: prod.splits option.splits outcome.splits)

lemma GetClient_entry:
  "GetClient env d st = (Ok u, st1) \<Longrightarrow> \<exists>pc. mp_clients (fst st1) (dev_ID d) = Some pc"
  by (auto simp: GetClient_def split: prod.splits option.splits outcome.splits if_splits)

lemma mp_execute_grows: "mp_grows st (snd (mp_execute env d f st))"
proof -
  obtain r p w where g: "GetClient env d st = (r, (p, w))" by (cases "GetClient env d st") auto
  have "mp_grows st (p, w)" using GetClient_grows [of st env d] g by simp
  then show ?thesis using g
    by (auto simp: mp_execute_def mp_grows_def mp_keys_def split: outcome.splits option.splits prod.splits)
qed

lemma mp_write_grows: "mp_grows st (snd (mp_write env d f st))"
  using mp_execute_grows [of st env d "\<lambda>ops s. either_result () (f ops s)"] by (simp add: mp_write_def split_beta)

lemma checkClientHealth_keys: "mp_keys (checkClientHealth env k st) = mp_keys st"
    "mp_config (fst (checkClientHealth env k st)) = mp_config (fst st)"
  by (auto simp: checkClientHealth_def mp_keys_def split: prod.splits option.splits)

lemma health_fold: "mp_keys (fold (checkClientHealth env) ks st) = mp_keys st
    \<and> mp_config (fst (fold (checkClientHealth env) ks st)) = mp_config (fst st)"
  by (induction ks arbitrary: st) (simp_all add: checkClientHealth_keys)

lemma reap_client_keys: "mp_keys (reap_client env now k st) \<subseteq> mp_keys st"
    "mp_config (fst (reap_client env now k st)) = mp_config (fst st)"
  by (auto simp: reap_client_def mp_keys_def split: prod.splits option.splits if_splits)

lemma reap_fold: "mp_keys (fold (reap_client env now) ks st) \<subseteq> mp_keys st
    \<and> mp_config (fst (fold (reap_client env now) ks st)) = mp_config (fst st)"
proof (induction ks arbitrary: st)
  case (Cons k ks)
  show ?case unfolding fold_Cons comp_def
    using reap_client_keys [of env now k st] Cons.IH [of "reap_client env now k st"] by (metis subset_trans)
qed simp

lemma mp_step_grows: "mp_grows st (mp_step env x st)"
proof (cases x)
  case (ReaperTick ks)
  then show ?thesis using reap_fold [of env "me_now env (snd st)" ks st]
    by (simp add: mp_reaper_tick_def mp_grows_def reapIdleConnections_def)
next
  case (HealthTick ks)
  then show ?thesis using health_fold [of env ks st] by (simp add: mp_health_tick_def mp_grows_def)
next
  case (Remove k)
  then show ?thesis by (auto simp: RemoveClient_def mp_grows_def mp_keys_def split: prod.splits option.splits)
next
  case (ClosePool ks)
  then show ?thesis by (auto simp: mp_Close_def mp_grows_def mp_keys_def split: prod.splits)
qed (simp_all add: mp_ReadTags_def mp_ReadTag_def mp_WriteTag_def mp_WriteSingleCoil_def mp_WriteSingleRegister_def
    mp_WriteMultipleRegisters_def mp_WriteMultipleCoils_def mp_execute_grows mp_write_grows)

interpretation mb_size: bounded_pool "mp_step env" mp_keys mp_limit for env
proof unfold_locales
  fix x and s :: "('a, 'b) mp_state"
  have g: "mp_grows s (mp_step env x s)" by (rule mp_step_grows)
  show "mp_limit (mp_step env x s) = mp_limit s" using g by (simp add: mp_grows_def mp_limit_def)
  assume f: "finite (mp_keys s)"
  show "finite (mp_keys (mp_step env x s))" using g f unfolding mp_grows_def by (metis finite_insert finite_subset)
  show "int (card (mp_keys (mp_step env x s))) \<le> max (int (card (mp_keys s))) (mp_limit s)"
    using g f unfolding mp_grows_def by (metis card_grow)
qed

section \<open>One request\<close>

lemma GetClient_connected:
  assumes "\<not> mp_closed p" "mp_clients p (dev_ID d) = Some pc" "mb_connected (pe_client pc)"
  shows "GetClient env d (p, w) = (Ok (), (p, w))"
  using assms by (simp add: GetClient_def)

lemma GetClient_others: "k \<noteq> dev_ID d \<Longrightarrow> mp_clients (fst (snd (GetClient env d st))) k = mp_clients (fst st) k"
  by (auto simp: GetClient_def split: prod.splits option.splits outcome.splits)

lemma mp_execute_others: "k \<noteq> dev_ID d \<Longrightarrow> mp_clients (fst (snd (mp_execute env d f st))) k = mp_clients (fst st) k"
proof -
  assume k: "k \<noteq> dev_ID d"
  obtain r p w where g: "GetClient env d st = (r, (p, w))" by (cases "GetClient env d st") auto
  have "mp_clients p k = mp_clients (fst st) k" using GetClient_others [OF k, of env st] g by simp
  then show ?thesis using g k by (auto simp: mp_execute_def split: outcome.splits option.splits prod.splits)
qed

lemma mp_write_others: "k \<noteq> dev_ID d \<Longrightarrow> mp_clients (fst (snd (mp_write env d f st))) k = mp_clients (fst st) k"
  by (simp add: mp_write_def split_beta mp_execute_others)

lemma mp_execute_connected:
  assumes "\<not> mp_closed p" "mp_clients p (dev_ID d) = Some pc" "mb_connected (pe_client pc)"
    and "Execute (me_breaker env) (\<lambda>s. me_now env (snd s)) (f (me_ops env (mb_config (pe_client pc))))
      (pe_breaker pc) (pe_client pc, w) = (r, b, (c, w1))"
  shows "mp_execute env d f (p, w) =
    (bind_outcome r (\<lambda>(x, e). Ok (case e of None \<Rightarrow> (x, None) | Some e \<Rightarrow> (None, Some (breaker_error e)))),
     (put_client (dev_ID d) (pc\<lparr>pe_client := c, pe_breaker := b\<rparr>) p, w1))"
  using assms by (simp add: mp_execute_def GetClient_connected)

lemma mp_execute_closed: "mp_closed p \<Longrightarrow> mp_execute env d f (p, w) = (Ok (None, Some ErrServiceStopped), (p, w))"
  by (simp add: mp_execute_def GetClient_def)

lemma mp_write_closed: "mp_closed p \<Longrightarrow> mp_write env d f (p, w) = (Err ErrServiceStopped, (p, w))"
  by (simp add: mp_write_def mp_execute_closed)

lemma closed_step:
  assumes "mp_closed p" "mp_clients p = Map.empty"
  shows "mp_step env x (p, w) = (p, w)"
  using assms by (cases x) (simp_all add: mp_ReadTags_def mp_ReadTag_def mp_WriteTag_def mp_WriteSingleCoil_def
      mp_WriteSingleRegister_def mp_WriteMultipleRegisters_def mp_WriteMultipleCoils_def mp_execute_closed mp_write_closed
      RemoveClient_def mp_health_tick_def mp_reaper_tick_def mp_Close_def)

lemma closed_run:
  "mp_closed p \<Longrightarrow> mp_clients p = Map.empty \<Longrightarrow> fold (mp_step env) xs (p, w) = (p, w)"
  by (induction xs) (simp_all add: closed_step)

lemma mp_execute_refused:
  assumes "\<not> mp_closed p" "mp_clients p (dev_ID d) = Some pc" "mb_connected (pe_client pc)"
    and "bl_before (me_breaker env) (me_now env w) (pe_breaker pc) = (Some e, b)"
  shows "mp_execute env d f (p, w) =
    (Ok (None, Some (breaker_error e)), (put_client (dev_ID d) (pc\<lparr>pe_breaker := b\<rparr>) p, w))"
proof -
  have "pc\<lparr>pe_client := pe_client pc, pe_breaker := b\<rparr> = pc\<lparr>pe_breaker := b\<rparr>" by simp
  then show ?thesis
    using mp_execute_connected [OF assms(1-3), where f = f and env = env and w = w] assms(4) by (simp add: Execute_def)
qed

section \<open>A concrete pool\<close>

text \<open>A breaker that admits everything and lists the results it was told, on the memory device.\<close>

definition logging_breaker :: "bool list breaker_lib" where
  "logging_breaker = \<lparr>bl_new = (\<lambda>s. []), bl_before = (\<lambda>t b. (None, b)), bl_after = (\<lambda>t ok b. b @ [ok]),
     bl_state = (\<lambda>t b. StateClosed)\<rparr>"

definition pool_env :: "(u16 \<Rightarrow> bytes) modbus_ops \<Rightarrow> bool list breaker_lib \<Rightarrow> (u16 \<Rightarrow> bytes, bool list) mb_pool_env" where
  "pool_env ops lib = \<lparr>me_ops = (\<lambda>cfg. ops), me_breaker = lib, me_now = (\<lambda>w. 400 * second), me_perm = (\<lambda>ks. ks)\<rparr>"

definition open_pool :: "bool list mb_pool" where
  "open_pool = (NewConnectionPool DefaultPoolConfig)\<lparr>mp_clients := [dev_ID raw_device \<mapsto>
     \<lparr>pe_client = open_client 3, pe_device = raw_device, pe_breaker = [], pe_createdAt = 0, pe_inUse = False,
      pe_lastError = None\<rparr>]\<rparr>"

lemma open_pool_facts [simp]:
  "\<not> mp_closed open_pool" "mb_connected (open_client 3)"
  "mp_clients open_pool (dev_ID raw_device) = Some \<lparr>pe_client = open_client 3, pe_device = raw_device, pe_breaker = [],
     pe_createdAt = 0, pe_inUse = False, pe_lastError = None\<rparr>"
  by (simp_all add: open_pool_def NewConnectionPool_def open_client_def)

lemma idle_for_long [simp]:
  "pc_IdleTimeout (mp_config open_pool)
     < time_sub (me_now (pool_env ops lib) w) (mb_lastUsed (open_client 3))"
  by (simp add: open_pool_def NewConnectionPool_def DefaultPoolConfig_def default_if_def pool_env_def open_client_def
      time_sub_def)

section \<open>Properties\<close>

text \<open>
  However requests, removals, health checks, reaping and closing are interleaved, the pool never
  holds more clients than its limit (500 unless configured; a negative limit allows none).
\<close>

theorem pool_within_limit:
  "int (card (dom (mp_clients (fst (fold (mp_step env) xs (NewConnectionPool cfg, w))))))
     \<le> max 0 (default_if (pc_MaxConnections cfg) 500)"
  using mb_size.run_bound [of "(NewConnectionPool cfg, w)" env xs]
  by (simp add: mp_keys_def mp_limit_def NewConnectionPool_def)

text \<open>
  A closed pool is inert: whatever is asked of it afterwards, no client is created, no device is
  contacted and its state stays; every request is answered \<open>service has been stopped\<close>.
\<close>

theorem closed_pool_inert:
  assumes "mp_Close env ks st = (Ok (), (p, w))"
  shows "fold (mp_step env) xs (p, w) = (p, w)
    \<and> mp_ReadTags env d ts (p, w) = (Ok (None, Some ErrServiceStopped), (p, w))
    \<and> mp_WriteTag env d t v (p, w) = (Err ErrServiceStopped, (p, w))"
proof -
  have "mp_closed p" "mp_clients p = Map.empty"
    using assms by (auto simp: mp_Close_def split: prod.splits if_splits)
  then show ?thesis by (simp add: closed_run mp_ReadTags_def mp_execute_closed mp_WriteTag_def mp_write_closed)
qed

theorem closed_pool_inert_witness:
  "mp_WriteTag (pool_env memory_device logging_breaker) raw_device int_tag (VInt32 7)
      (open_pool\<lparr>mp_closed := True, mp_clients := Map.empty\<rparr>, \<lambda>a. [0, 0])
    = (Err ErrServiceStopped, (open_pool\<lparr>mp_closed := True, mp_clients := Map.empty\<rparr>, \<lambda>a. [0, 0]))"
  using closed_pool_inert [of "pool_env memory_device logging_breaker" "[]" "(open_pool, \<lambda>a. [0, 0])"
      "open_pool\<lparr>mp_closed := True, mp_clients := Map.empty\<rparr>" "\<lambda>a. [0, 0]" "[]" raw_device "[]" int_tag "VInt32 7"]
  by (simp add: mp_Close_def)

text \<open>
  Devices are isolated: a request for one device, whatever it does to that device's client and
  breaker, leaves the client, the connection and the breaker of every other device as they were.
\<close>

theorem devices_isolated:
  assumes "k \<noteq> dev_ID d"
  shows "mp_clients (fst (snd (mp_ReadTags env d ts st))) k = mp_clients (fst st) k
    \<and> mp_clients (fst (snd (mp_ReadTag env d t st))) k = mp_clients (fst st) k
    \<and> mp_clients (fst (snd (mp_WriteTag env d t v st))) k = mp_clients (fst st) k
    \<and> mp_clients (fst (snd (mp_WriteSingleCoil env d a b st))) k = mp_clients (fst st) k
    \<and> mp_clients (fst (snd (mp_WriteSingleRegister env d a x st))) k = mp_clients (fst st) k
    \<and> mp_clients (fst (snd (mp_WriteMultipleRegisters env d a xs st))) k = mp_clients (fst st) k
    \<and> mp_clients (fst (snd (mp_WriteMultipleCoils env d a bs st))) k = mp_clients (fst st) k"
  using assms by (simp add: mp_ReadTags_def mp_ReadTag_def mp_WriteTag_def mp_WriteSingleCoil_def mp_WriteSingleRegister_def
      mp_WriteMultipleRegisters_def mp_WriteMultipleCoils_def mp_execute_others mp_write_others)

theorem devices_isolated_witness:
  "mp_clients (fst (snd (mp_ReadTags (pool_env slow_device logging_breaker) (raw_device\<lparr>dev_ID := ''other''\<rparr>) [int_tag]
     (open_pool, \<lambda>a. [0, 0])))) ''plc'' = mp_clients open_pool ''plc''"
  using devices_isolated [of "''plc''" "raw_device\<lparr>dev_ID := ''other''\<rparr>" "pool_env slow_device logging_breaker" "[int_tag]"
      "(open_pool, \<lambda>a. [0, 0])" int_tag "VBool True" 0 True 0 "[]" "[]"] by simp

text \<open>
  A batched read never counts as a failure of the device: with a breaker that admits the request,
  the breaker is told of a success whatever the device answers, because the client turns every
  failure into error points.  A device that is only polled in batches never opens its breaker.
\<close>

theorem batched_reads_never_trip:
  assumes "\<not> mp_closed p" and "mp_clients p (dev_ID d) = Some pc" and "mb_connected (pe_client pc)"
    and "bl_before (me_breaker env) (me_now env w) (pe_breaker pc) = (None, b)"
    and "\<And>ks. mset (me_perm env ks) = mset ks" and "\<forall>t\<in>set tags. modbus_tag_ok t"
  shows "\<exists>ps p' w' pc'. mp_ReadTags env d tags (p, w) = (Ok (Some ps, None), (p', w'))
    \<and> mset (map dp_TagID ps) = mset (map tag_ID tags)
    \<and> mp_clients p' (dev_ID d) = Some pc' \<and> pe_breaker pc' = bl_after (me_breaker env) (me_now env w') True b"
proof -
  let ?ops = "me_ops env (mb_config (pe_client pc))"
  obtain ps where ps: "fst (ReadTags ?ops (me_perm env) tags (pe_client pc, w)) = Ok ps"
      "mset (map dp_TagID ps) = mset (map tag_ID tags)"
    using ReadTags_points [of "me_perm env" tags ?ops "(pe_client pc, w)"] assms(5,6)
    by (auto simp: modbus_tag_ok_def count_suffices_def)
  obtain c w' where r: "ReadTags ?ops (me_perm env) tags (pe_client pc, w) = (Ok ps, (c, w'))"
    using ps(1) by (cases "ReadTags ?ops (me_perm env) tags (pe_client pc, w)") auto
  have "Execute (me_breaker env) (\<lambda>s. me_now env (snd s)) (\<lambda>s. either_result [] (ReadTags ?ops (me_perm env) tags s))
      (pe_breaker pc) (pe_client pc, w) = (Ok (Some ps, None), bl_after (me_breaker env) (me_now env w') True b, (c, w'))"
    using assms(4) r by (simp add: Execute_def either_result_def)
  then show ?thesis using ps(2)
    by (simp add: mp_ReadTags_def mp_execute_connected [OF assms(1-3), where f = "\<lambda>ops s. either_result [] (ReadTags ops (me_perm env) tags s)"])
qed

theorem batched_reads_never_trip_witness:
  "\<exists>ps p' w' pc'. mp_ReadTags (pool_env slow_device logging_breaker) raw_device [int_tag] (open_pool, \<lambda>a. [0, 0])
      = (Ok (Some ps, None), (p', w'))
    \<and> mset (map dp_TagID ps) = mset (map tag_ID [int_tag])
    \<and> mp_clients p' (dev_ID raw_device) = Some pc' \<and> pe_breaker pc' = bl_after logging_breaker (400 * second) True []"
  using batched_reads_never_trip [OF open_pool_facts(1,3), of "pool_env slow_device logging_breaker" "\<lambda>a. [0, 0]" "[]" "[int_tag]"]
  by (simp add: pool_env_def logging_breaker_def modbus_tag_ok_def int_tag_def raw_tag_def zero_tag_def
      ExpectedRegisterCount_def f64_one_not_zero)

text \<open>
  A breaker that refuses keeps the device out of reach: the request ends with the breaker's
  error (\<open>circuit breaker is open\<close> for an open one), the client is not touched and nothing is sent.
\<close>

theorem refusing_breaker_sends_nothing:
  assumes "\<not> mp_closed p" and "mp_clients p (dev_ID d) = Some pc" and "mb_connected (pe_client pc)"
    and "bl_before (me_breaker env) (me_now env w) (pe_breaker pc) = (Some e, b)"
  shows "mp_WriteTag env d t v (p, w) = (Err (breaker_error e), (put_client (dev_ID d) (pc\<lparr>pe_breaker := b\<rparr>) p, w))
    \<and> mp_ReadTags env d ts (p, w) = (Ok (None, Some (breaker_error e)), (put_client (dev_ID d) (pc\<lparr>pe_breaker := b\<rparr>) p, w))"
  by (simp add: mp_WriteTag_def mp_write_def mp_ReadTags_def mp_execute_refused [OF assms])

definition tripped_breaker :: "bool list breaker_lib" where
  "tripped_breaker = logging_breaker\<lparr>bl_before := (\<lambda>t b. (Some BreakerOpenState, b))\<rparr>"

theorem refusing_breaker_sends_nothing_witness:
  "fst (mp_WriteTag (pool_env memory_device tripped_breaker) raw_device int_tag (VInt32 7) (open_pool, \<lambda>a. [0, 0]))
    = Err ErrCircuitBreakerOpen"
  using refusing_breaker_sends_nothing [OF open_pool_facts(1,3), of "pool_env memory_device tripped_breaker" "\<lambda>a. [0, 0]"
      BreakerOpenState "[]"]
  by (simp add: pool_env_def tripped_breaker_def breaker_error_def)

text \<open>
  A batched read does not count as use of the connection: right after one the reaper still closes
  the connection if the time of use from before the read is older than the idle timeout.
\<close>

theorem polled_connection_reaped:
  assumes "\<not> mp_closed p" and "mp_clients p (dev_ID d) = Some pc" and "mb_connected (pe_client pc)"
    and "mp_ReadTags env d tags (p, w) = (r, (p', w'))"
    and "pc_IdleTimeout (mp_config p) < time_sub (me_now env w') (mb_lastUsed (pe_client pc))"
  shows "mp_clients (fst (mp_reaper_tick env [dev_ID d] (p', w'))) (dev_ID d) = None"
proof -
  let ?f = "\<lambda>ops s. either_result [] (ReadTags ops (me_perm env) tags s)"
  obtain x b c w1 where ex: "Execute (me_breaker env) (\<lambda>s. me_now env (snd s)) (?f (me_ops env (mb_config (pe_client pc))))
      (pe_breaker pc) (pe_client pc, w) = (x, b, (c, w1))"
    by (metis prod_cases4)
  have "conn_frame c = conn_frame (pe_client pc)"
    using ex ReadTags_frame [of "me_ops env (mb_config (pe_client pc))" "me_perm env" tags "(pe_client pc, w)"]
    by (auto simp: Execute_def either_result_def split: prod.splits option.splits outcome.splits)
  then have "mb_lastUsed c = mb_lastUsed (pe_client pc)" by (simp add: conn_frame_def)
  then show ?thesis using assms(1,4,5) mp_execute_connected [OF assms(1-3), where f = ?f, OF ex]
    by (auto simp: mp_ReadTags_def mp_reaper_tick_def reapIdleConnections_def reap_client_def mp_idle_def)
qed

theorem polled_connection_reaped_witness:
  "mp_clients (fst (mp_reaper_tick (pool_env memory_device logging_breaker) [dev_ID raw_device]
     (snd (mp_ReadTags (pool_env memory_device logging_breaker) raw_device [int_tag] (open_pool, \<lambda>a. [0, 0])))))
     (dev_ID raw_device) = None"
proof (cases "mp_ReadTags (pool_env memory_device logging_breaker) raw_device [int_tag] (open_pool, \<lambda>a. [0, 0])")
  case (fields r p' w')
  have "mb_connected (pe_client \<lparr>pe_client = open_client 3, pe_device = raw_device, pe_breaker = [] :: bool list,
      pe_createdAt = 0, pe_inUse = False, pe_lastError = None\<rparr>)" by simp
  from polled_connection_reaped [OF open_pool_facts(1,3) this fields] show ?thesis
    by (simp add: fields)
qed

end
