(* ===== verification/S7_Address.thy ===== *)
theory S7_Address
  imports Domain
begin

text \<open>
  The symbolic addresses of \<open>internal/adapter/s7/client.go\<close> (\<open>parseSymbolicAddress\<close>,
  \<open>parseTagAddress\<close>): data blocks \<open>DB1.DBX10.3\<close>, flags, inputs and outputs \<open>MW100\<close>, \<open>I0.0\<close>,
  timers and counters.  The six regular expressions are recognisers over ASCII text.  The lemmas
  show what is accepted and that printing an address and parsing it gives the address back.
\<close>

section \<open>Characters\<close>

definition is_digit :: "char \<Rightarrow> bool" where
  "is_digit c \<longleftrightarrow> 48 \<le> (of_char c :: nat) \<and> (of_char c :: nat) \<le> 57"

definition digit_val :: "char \<Rightarrow> nat" where
  "digit_val c = of_char c - 48"

definition to_upper :: "char \<Rightarrow> char" where
  "to_upper c = (let n = (of_char c :: nat) in if 97 \<le> n \<and> n \<le> 122 then char_of (n - 32) else c)"

definition is_space :: "char \<Rightarrow> bool" where
  "is_space c \<longleftrightarrow> (of_char c :: nat) \<in> {9, 10, 11, 12, 13, 32}"

text \<open>\<open>strings.ToUpper(strings.TrimSpace(s))\<close>.\<close>

definition trim_space :: "string \<Rightarrow> string" where
  "trim_space s = rev (dropWhile is_space (rev (dropWhile is_space s)))"

definition normalize :: "string \<Rightarrow> string" where
  "normalize s = map to_upper (trim_space s)"

text \<open>\<open>strconv.Atoi\<close> of a digit string, its error dropped: out of range it gives the largest int.\<close>

fun digits_val :: "nat \<Rightarrow> string \<Rightarrow> nat" where
  "digits_val acc [] = acc"
| "digits_val acc (c # cs) = digits_val (acc * 10 + digit_val c) cs"

definition Atoi :: "string \<Rightarrow> int" where
  "Atoi s = min (2 ^ 63 - 1) (int (digits_val 0 s))"

section \<open>The patterns\<close>

type_synonym s7_location = "s7_area \<times> int \<times> int \<times> int"

text \<open>\<open>(\d+)(?:\.(\d))?$\<close>: the offset digits and the bit digit.\<close>

definition match_offset :: "string \<Rightarrow> (string \<times> string) option" where
  "match_offset s =
     (let ds = takeWhile is_digit s; rest = dropWhile is_digit s in
      if ds = [] then None
      else case rest of
        [] \<Rightarrow> Some (ds, [])
      | [p, b] \<Rightarrow> if p = CHR ''.'' \<and> is_digit b then Some (ds, [b]) else None
      | _ \<Rightarrow> None)"

definition skip_one_of :: "string \<Rightarrow> string \<Rightarrow> string" where
  "skip_one_of cs s = (case s of [] \<Rightarrow> [] | c # s' \<Rightarrow> if c \<in> set cs then s' else s)"

text \<open>\<open>^DB(\d+)\.DB([XBWD])(\d+)(?:\.(\d))?$\<close>\<close>

definition match_db :: "string \<Rightarrow> (string \<times> string \<times> string) option" where
  "match_db s = (if \<not> has_prefix s ''DB'' then None
     else let s1 = drop 2 s; ds = takeWhile is_digit s1; rest = dropWhile is_digit s1 in
       if ds = [] \<or> \<not> has_prefix rest ''.DB'' then None
       else case drop 3 rest of
         [] \<Rightarrow> None
       | c # s2 \<Rightarrow>
           if c \<notin> set ''XBWD'' then None
           else case match_offset s2 of None \<Rightarrow> None | Some (off, bt) \<Rightarrow> Some (ds, off, bt))"

text \<open>\<open>^M([BWD])?(\d+)(?:\.(\d))?$\<close> and the same for \<open>I\<close> and \<open>Q\<close>.\<close>

definition match_area :: "char \<Rightarrow> string \<Rightarrow> (string \<times> string) option" where
  "match_area a s = (case s of [] \<Rightarrow> None
     | c # s1 \<Rightarrow> if c = a then match_offset (skip_one_of ''BWD'' s1) else None)"

text \<open>\<open>^T(\d+)$\<close> and \<open>^C(\d+)$\<close>.\<close>

definition match_number :: "char \<Rightarrow> string \<Rightarrow> string option" where
  "match_number a s = (case s of [] \<Rightarrow> None
     | c # ds \<Rightarrow> if c = a \<and> ds \<noteq> [] \<and> list_all is_digit ds then Some ds else None)"

section \<open>The parser\<close>

definition bit_of :: "string \<Rightarrow> int" where
  "bit_of b = (if b = [] then 0 else Atoi b)"

definition located :: "string \<Rightarrow> s7_area \<Rightarrow> int \<Rightarrow> string \<times> string \<Rightarrow> s7_location res" where
  "located address area dbNum m = (case m of (off, b) \<Rightarrow>
     let bitOffset = bit_of b in
     if 7 < bitOffset then Err (Wrap ErrS7InvalidAddress ('': bit offset '' @ show_int bitOffset
       @ '' out of range (0-7) in '' @ address))
     else Ok (area, dbNum, Atoi off, bitOffset))"

definition parseSymbolicAddress :: "string \<Rightarrow> s7_location res" where
  "parseSymbolicAddress raw =
     (let address = normalize raw in
      case match_db address of
        Some (db, m) \<Rightarrow> located address S7AreaDB (Atoi db) m
      | None \<Rightarrow> (case match_area (CHR ''M'') address of
        Some m \<Rightarrow> located address S7AreaM 0 m
      | None \<Rightarrow> (case match_area (CHR ''I'') address of
        Some m \<Rightarrow> located address S7AreaI 0 m
      | None \<Rightarrow> (case match_area (CHR ''Q'') address of
        Some m \<Rightarrow> located address S7AreaQ 0 m
      | None \<Rightarrow> (case match_number (CHR ''T'') address of
        Some ds \<Rightarrow> Ok (S7AreaT, 0, Atoi ds, 0)
      | None \<Rightarrow> (case match_number (CHR ''C'') address of
        Some ds \<Rightarrow> Ok (S7AreaC, 0, Atoi ds, 0)
      | None \<Rightarrow> Err (Wrap ErrS7InvalidAddress ('': '' @ address))))))))"

definition parseTagAddress :: "tag \<Rightarrow> s7_location res" where
  "parseTagAddress t =
     (if S7Address t \<noteq> [] then parseSymbolicAddress (S7Address t)
      else if S7Area t = S7Area_other [] then Err ErrS7InvalidArea
      else Ok (S7Area t, S7DBNumber t, S7Offset t, S7BitOffset t))"

text \<open>The area a tag's address names, as \<open>groupTagsByArea\<close> and \<open>isTagWritable\<close> find it.\<close>

definition tag_area :: "tag \<Rightarrow> s7_area" where
  "tag_area t = (if S7Address t \<noteq> [] then
       (case parseSymbolicAddress (S7Address t) of Ok (a, _) \<Rightarrow> a | _ \<Rightarrow> S7Area t)
     else S7Area t)"

definition groupTagsByArea :: "tag list \<Rightarrow> s7_area \<Rightarrow> tag list" where
  "groupTagsByArea tags area = filter (\<lambda>t. tag_area t = area) tags"

definition isTagWritable :: "tag \<Rightarrow> bool" where
  "isTagWritable t =
     (if AccessMode t \<noteq> AccessMode_other [] then
        AccessMode t = AccessModeWriteOnly \<or> AccessMode t = AccessModeReadWrite
      else case tag_area t of
        S7AreaDB \<Rightarrow> True | S7AreaM \<Rightarrow> True | S7AreaQ \<Rightarrow> True
      | S7AreaI \<Rightarrow> False
      | S7AreaT \<Rightarrow> True | S7AreaC \<Rightarrow> True
      | S7Area_other s \<Rightarrow> False)"

section \<open>Printing\<close>

text \<open>The addresses the patterns describe, and their canonical text.\<close>

datatype address =
    DBAddress nat char nat "nat option"
  | AreaAddress char string nat "nat option"
  | TimerAddress nat
  | CounterAddress nat

fun print_bit :: "nat option \<Rightarrow> string" where
  "print_bit None = []"
| "print_bit (Some b) = ''.'' @ show_nat b"

fun print_address :: "address \<Rightarrow> string" where
  "print_address (DBAddress n c off b) = ''DB'' @ show_nat n @ ''.DB'' @ [c] @ show_nat off @ print_bit b"
| "print_address (AreaAddress a sz off b) = a # sz @ show_nat off @ print_bit b"
| "print_address (TimerAddress n) = ''T'' @ show_nat n"
| "print_address (CounterAddress n) = ''C'' @ show_nat n"

fun bit_ok :: "nat option \<Rightarrow> bool" where
  "bit_ok None = True"
| "bit_ok (Some b) = (b \<le> 7)"

fun address_ok :: "address \<Rightarrow> bool" where
  "address_ok (DBAddress n c off b) = (int n < 2 ^ 63 \<and> c \<in> set ''XBWD'' \<and> int off < 2 ^ 63 \<and> bit_ok b)"
| "address_ok (AreaAddress a sz off b) =
     (a \<in> set ''MIQ'' \<and> sz \<in> {[], ''B'', ''W'', ''D''} \<and> int off < 2 ^ 63 \<and> bit_ok b)"
| "address_ok (TimerAddress n) = (int n < 2 ^ 63)"
| "address_ok (CounterAddress n) = (int n < 2 ^ 63)"

definition bit_number :: "nat option \<Rightarrow> int" where
  "bit_number b = (case b of None \<Rightarrow> 0 | Some n \<Rightarrow> int n)"

fun location_of :: "address \<Rightarrow> s7_location" where
  "location_of (DBAddress n c off b) = (S7AreaDB, int n, int off, bit_number b)"
| "location_of (AreaAddress a sz off b) =
     (if a = CHR ''M'' then S7AreaM else if a = CHR ''I'' then S7AreaI else S7AreaQ, 0, int off, bit_number b)"
| "location_of (TimerAddress n) = (S7AreaT, 0, int n, 0)"
| "location_of (CounterAddress n) = (S7AreaC, 0, int n, 0)"

section \<open>Digits\<close>

lemma char_code [simp]: "n < 256 \<Longrightarrow> (of_char (char_of n :: char) :: nat) = n" for n :: nat
  by (simp add: of_char_of)

lemma is_digit_char_of: "d < 10 \<Longrightarrow> is_digit (char_of (48 + d))" for d :: nat
  by (simp add: is_digit_def)

lemma digit_val_char_of: "d < 10 \<Longrightarrow> digit_val (char_of (48 + d)) = d" for d :: nat
  by (simp add: digit_val_def)

lemma digits_val_append: "digits_val acc (xs @ [c]) = digits_val acc xs * 10 + digit_val c"
  by (induction xs arbitrary: acc) auto

lemma show_nat_digits: "list_all is_digit (show_nat n)"
proof (induction n rule: show_nat.induct)
  case (1 n)
  show ?case
  proof (cases "n < 10")
    case True
    then show ?thesis by (subst show_nat.simps) (simp add: is_digit_char_of)
  next
    case False
    then show ?thesis using "1.IH" by (subst show_nat.simps) (simp add: is_digit_char_of)
  qed
qed

lemma digits_val_show_nat: "digits_val 0 (show_nat n) = n"
proof (induction n rule: show_nat.induct)
  case (1 n)
  show ?case
  proof (cases "n < 10")
    case True
    then show ?thesis by (subst show_nat.simps) (simp add: digit_val_char_of)
  next
    case False
    then show ?thesis using "1.IH"
      by (subst show_nat.simps) (simp add: digits_val_append digit_val_char_of)
  qed
qed

lemma show_nat_ne [simp]: "show_nat n \<noteq> []"
  by (subst show_nat.simps) simp

lemma Atoi_show_nat: "int n < 2 ^ 63 \<Longrightarrow> Atoi (show_nat n) = int n"
  by (simp add: Atoi_def digits_val_show_nat)

lemma show_nat_small: "b < 10 \<Longrightarrow> show_nat b = [char_of (48 + b)]"
  by (subst show_nat.simps) simp

lemma takeWhile_digits:
  "list_all is_digit ds \<Longrightarrow> rest = [] \<or> \<not> is_digit (hd rest) \<Longrightarrow> takeWhile is_digit (ds @ rest) = ds"
  "list_all is_digit ds \<Longrightarrow> rest = [] \<or> \<not> is_digit (hd rest) \<Longrightarrow> dropWhile is_digit (ds @ rest) = rest"
  by (induction ds) (cases rest; auto)+

section \<open>Normalisation leaves printed addresses alone\<close>

definition plain_char :: "char \<Rightarrow> bool" where
  "plain_char c \<longleftrightarrow> \<not> is_space c \<and> to_upper c = c"

lemma plain_digit: "is_digit c \<Longrightarrow> plain_char c"
  by (auto simp: is_digit_def plain_char_def is_space_def to_upper_def Let_def)

lemma normalize_plain: "list_all plain_char s \<Longrightarrow> normalize s = s"
proof -
  assume p: "list_all plain_char s"
  have d: "dropWhile is_space xs = xs" if "list_all plain_char xs" for xs
    using that by (cases xs) (auto simp: plain_char_def)
  have "list_all plain_char (rev s)" using p by (simp add: list_all_iff)
  then have "trim_space s = s" using d [OF p] d [of "rev s"] by (simp add: trim_space_def)
  moreover have "map to_upper s = s" using p by (induction s) (auto simp: plain_char_def)
  ultimately show ?thesis by (simp add: normalize_def)
qed

lemma plain_show_nat: "list_all plain_char (show_nat n)"
  using show_nat_digits [of n] by (auto simp: list_all_iff plain_digit)

lemma plain_bit: "list_all plain_char (print_bit b)"
  by (cases b) (auto simp: plain_show_nat plain_char_def is_space_def to_upper_def)

lemma plain_letters: "list_all plain_char ''DBXWMIQTC.''"
  by (simp add: plain_char_def is_space_def to_upper_def)

lemma plain_print: "address_ok a \<Longrightarrow> list_all plain_char (print_address a)"
  using plain_letters by (cases a) (auto simp: plain_show_nat plain_bit)

section \<open>Matching what was printed\<close>

lemma is_digit_letters [simp]:
  "\<not> is_digit (CHR ''.'')" "\<not> is_digit (CHR ''D'')" "\<not> is_digit (CHR ''B'')" "\<not> is_digit (CHR ''W'')"
  by (simp_all add: is_digit_def)

lemma print_bit_digits:
  "bit_ok b \<Longrightarrow> print_bit b = (case b of None \<Rightarrow> [] | Some n \<Rightarrow> [CHR ''.'', char_of (48 + n)])"
  by (cases b) (auto simp: show_nat_small)

lemma match_offset_print:
  assumes "bit_ok b"
  shows "match_offset (show_nat off @ print_bit b) = Some (show_nat off, drop 1 (print_bit b))"
proof -
  have r: "print_bit b = [] \<or> \<not> is_digit (hd (print_bit b))"
    using print_bit_digits [OF assms] by (cases b) auto
  note td = takeWhile_digits [OF show_nat_digits [of off] r]
  have "b = Some n \<Longrightarrow> is_digit (char_of (48 + n))" for n using assms by (auto intro: is_digit_char_of)
  then have "case print_bit b of [] \<Rightarrow> b = None | [p, d] \<Rightarrow> p = CHR ''.'' \<and> is_digit d | _ \<Rightarrow> False"
    using print_bit_digits [OF assms] by (cases b) auto
  then show ?thesis
    unfolding match_offset_def td Let_def by (auto split: list.splits)
qed

lemma bit_of_print: "bit_ok b \<Longrightarrow> bit_of (drop 1 (print_bit b)) = bit_number b"
proof (cases b)
  case (Some n)
  assume "bit_ok b"
  then have "n \<le> 7" using Some by simp
  then have "bit_of (drop 1 (print_bit b)) = Atoi (show_nat n)" by (simp add: Some bit_of_def)
  then show ?thesis using \<open>n \<le> 7\<close> Some by (simp add: Atoi_show_nat bit_number_def)
qed (simp add: bit_of_def bit_number_def)

lemma located_print:
  assumes "bit_ok b" "int off < 2 ^ 63"
  shows "located addr area db (show_nat off, drop 1 (print_bit b)) = Ok (area, db, int off, bit_number b)"
proof -
  have "bit_number b \<le> 7" using assms(1) by (cases b) (auto simp: bit_number_def)
  then show ?thesis using bit_of_print [OF assms(1)] Atoi_show_nat [OF assms(2)]
    by (simp add: located_def Let_def)
qed

lemma match_db_print:
  assumes "bit_ok b" "c \<in> set ''XBWD''"
  shows "match_db (''DB'' @ show_nat n @ ''.DB'' @ [c] @ show_nat off @ print_bit b)
    = Some (show_nat n, show_nat off, drop 1 (print_bit b))"
proof -
  let ?r = "''.DB'' @ [c] @ show_nat off @ print_bit b"
  have r: "?r = [] \<or> \<not> is_digit (hd ?r)" by simp
  note td = takeWhile_digits [OF show_nat_digits [of n] r]
  have "has_prefix ?r ''.DB''" by (simp add: has_prefix_iff)
  moreover have "has_prefix (''DB'' @ show_nat n @ ?r) ''DB''" by (simp add: has_prefix_iff)
  ultimately show ?thesis
    using td match_offset_print [OF assms(1), of off] assms(2)
    by (simp add: match_db_def Let_def)
qed

lemma skip_size:
  assumes "sz \<in> {[], ''B'', ''W'', ''D''}"
  shows "skip_one_of ''BWD'' (sz @ show_nat off @ rest) = show_nat off @ rest"
proof (cases "sz = []")
  case True
  obtain c ds where s: "show_nat off = c # ds" by (cases "show_nat off") auto
  then have "is_digit c" using show_nat_digits [of off] by simp
  then have "c \<notin> set ''BWD''" by (auto simp: is_digit_def)
  then show ?thesis using True s by (simp add: skip_one_of_def)
next
  case False
  then show ?thesis using assms by (auto simp: skip_one_of_def)
qed

lemma match_area_print:
  assumes "bit_ok b" "sz \<in> {[], ''B'', ''W'', ''D''}"
  shows "match_area a (a' # sz @ show_nat off @ print_bit b)
    = (if a = a' then Some (show_nat off, drop 1 (print_bit b)) else None)"
  using match_offset_print [OF assms(1)] skip_size [OF assms(2)] by (simp add: match_area_def)

lemma match_number_print: "match_number a (a' # show_nat n) = (if a = a' then Some (show_nat n) else None)"
  using show_nat_digits [of n] by (simp add: match_number_def)

lemma match_other [simp]: "a \<noteq> CHR ''D'' \<Longrightarrow> match_db (a # s) = None"
  "a \<noteq> a' \<Longrightarrow> match_area a' (a # s) = None"
  by (simp_all add: match_db_def match_area_def)

lemma parse_print:
  assumes "address_ok a"
  shows "parseSymbolicAddress (print_address a) = Ok (location_of a)"
proof -
  have n: "normalize (print_address a) = print_address a" by (rule normalize_plain [OF plain_print [OF assms]])
  show ?thesis
  proof (cases a)
    case (DBAddress n c off b)
    then have ok: "bit_ok b" "c \<in> set ''XBWD''" "int n < 2 ^ 63" "int off < 2 ^ 63" using assms by simp_all
    have "print_address a = ''DB'' @ show_nat n @ ''.DB'' @ [c] @ show_nat off @ print_bit b" using DBAddress by simp
    then show ?thesis
      unfolding parseSymbolicAddress_def Let_def n
      by (simp only: match_db_print [OF ok(1,2)] option.case prod.case located_print [OF ok(1,4)] Atoi_show_nat [OF ok(3)]
          DBAddress location_of.simps)
  next
    case (AreaAddress ar sz off b)
    then have ok: "bit_ok b" "sz \<in> {[], ''B'', ''W'', ''D''}" "int off < 2 ^ 63" "ar \<in> set ''MIQ''"
      using assms by simp_all
    then show ?thesis
      unfolding parseSymbolicAddress_def Let_def n
      using match_area_print [OF ok(1,2)] located_print [OF ok(1,3)]
      by (auto simp: AreaAddress)
  next
    case (TimerAddress m)
    then show ?thesis using assms unfolding parseSymbolicAddress_def Let_def n
      by (simp add: match_number_print Atoi_show_nat)
  next
    case (CounterAddress m)
    then show ?thesis using assms unfolding parseSymbolicAddress_def Let_def n
      by (simp add: match_number_print Atoi_show_nat)
  qed
qed

section \<open>What is accepted\<close>

lemma Atoi_nonneg: "0 \<le> Atoi s"
  by (simp add: Atoi_def)

lemma bit_of_nonneg: "0 \<le> bit_of b"
  by (simp add: bit_of_def Atoi_nonneg)

definition location_ok :: "s7_location \<Rightarrow> bool" where
  "location_ok l = (case l of (area, db, off, bt) \<Rightarrow>
     area \<in> {S7AreaDB, S7AreaM, S7AreaI, S7AreaQ, S7AreaT, S7AreaC}
     \<and> 0 \<le> db \<and> (area \<noteq> S7AreaDB \<longrightarrow> db = 0) \<and> 0 \<le> off \<and> 0 \<le> bt \<and> bt \<le> 7)"

lemma located_ok: "located addr area db m = Ok l \<Longrightarrow> area \<in> {S7AreaDB, S7AreaM, S7AreaI, S7AreaQ, S7AreaT, S7AreaC} \<Longrightarrow>
    0 \<le> db \<Longrightarrow> (area \<noteq> S7AreaDB \<longrightarrow> db = 0) \<Longrightarrow> location_ok l"
  by (auto simp: located_def Let_def location_ok_def Atoi_nonneg bit_of_nonneg split: prod.splits if_splits)

lemma parse_location_ok: "parseSymbolicAddress s = Ok l \<Longrightarrow> location_ok l"
  by (auto simp: parseSymbolicAddress_def Let_def Atoi_nonneg split: option.splits prod.splits
      elim!: located_ok) (simp_all add: location_ok_def Atoi_nonneg)

lemma parse_no_panic: "parseSymbolicAddress s \<noteq> Panic"
  by (auto simp: parseSymbolicAddress_def Let_def located_def split: option.splits prod.splits)

lemma parseTagAddress_no_panic: "parseTagAddress t \<noteq> Panic"
  by (simp add: parseTagAddress_def parse_no_panic)

text \<open>Case and surrounding white space do not matter.\<close>

lemma normalize_cong: "normalize s = normalize s' \<Longrightarrow> parseSymbolicAddress s = parseSymbolicAddress s'"
  by (simp add: parseSymbolicAddress_def)

section \<open>Properties\<close>

text \<open>
  Every well-formed S7 address, printed canonically, is parsed to exactly the area, block number,
  byte offset and bit it names: data blocks of all four access sizes, flags, inputs and outputs
  with and without a size letter, timers and counters.
\<close>

theorem address_round_trip:
  assumes "address_ok a"
  shows "parseSymbolicAddress (print_address a) = Ok (location_of a)"
  using assms by (rule parse_print)

theorem address_round_trip_witness:
  "parseSymbolicAddress ''DB1.DBX10.3'' = Ok (S7AreaDB, 1, 10, 3)"
  using address_round_trip [of "DBAddress 1 (CHR ''X'') 10 (Some 3)"]
  by (simp add: bit_number_def show_nat.simps char_of_def bit_Suc bit_0)

text \<open>
  The parser never panics and what it accepts is in range: one of the six areas, a block number
  only for data blocks, no negative number and a bit offset of at most 7.
\<close>

theorem accepted_addresses_in_range:
  "parseSymbolicAddress s \<noteq> Panic \<and> (\<forall>l. parseSymbolicAddress s = Ok l \<longrightarrow> location_ok l)"
  using parse_no_panic parse_location_ok by blast

theorem accepted_addresses_in_range_witness: "location_ok (S7AreaM, 0, 100, 0)"
proof -
  have "parseSymbolicAddress ''MW100'' = Ok (S7AreaM, 0, 100, 0)"
    using parse_print [of "AreaAddress (CHR ''M'') ''W'' 100 None"] by (simp add: bit_number_def show_nat.simps char_of_def bit_Suc bit_0)
  then show ?thesis using accepted_addresses_in_range [of "''MW100''"] by blast
qed

end
