(* ===== verification/S7_Conversion.thy ===== *)
theory S7_Conversion
  imports Modbus_Conversion
begin

text \<open>
  \<open>internal/adapter/s7/conversion.go\<close>: values of S7 variables, always big-endian, a boolean as one
  bit of a byte.  The Go file repeats the type switches and the numeric branches of the Modbus
  converter word for word; the model shares them (\<open>toBool\<close> \<dots> \<open>toFloat64\<close>, \<open>encode_actual\<close>,
  \<open>decode_ordered\<close>).
\<close>

section \<open>Sizes\<close>

definition getByteCount :: "data_type \<Rightarrow> nat" where
  "getByteCount dt = (case dt of
       DataTypeBool \<Rightarrow> 1
     | DataTypeInt16 \<Rightarrow> 2 | DataTypeUInt16 \<Rightarrow> 2
     | DataTypeInt32 \<Rightarrow> 4 | DataTypeUInt32 \<Rightarrow> 4 | DataTypeFloat32 \<Rightarrow> 4
     | DataTypeInt64 \<Rightarrow> 8 | DataTypeUInt64 \<Rightarrow> 8 | DataTypeFloat64 \<Rightarrow> 8
     | DataType_other s \<Rightarrow> 1)"

definition getWordLength :: "data_type \<Rightarrow> int" where
  "getWordLength dt = (case dt of
       DataTypeBool \<Rightarrow> 0x01
     | DataTypeInt16 \<Rightarrow> 0x04 | DataTypeUInt16 \<Rightarrow> 0x04
     | DataTypeInt32 \<Rightarrow> 0x06 | DataTypeUInt32 \<Rightarrow> 0x06
     | DataTypeFloat32 \<Rightarrow> 0x08
     | _ \<Rightarrow> 0x02)"

section \<open>Reading\<close>

text \<open>The mask \<open>1 << bitOffset\<close> of a byte; a negative shift count panics.\<close>

definition bit_mask :: "int \<Rightarrow> byte res" where
  "bit_mask bitOffset = (if bitOffset < 0 then Panic else Ok (push_bit (nat bitOffset) 1))"

definition s7_parseValue :: "bytes \<Rightarrow> tag \<Rightarrow> int \<Rightarrow> goval res" where
  "s7_parseValue d t bitOffset =
     (if length d = 0 then Err ErrInvalidDataLength
      else case DataType t of
        DataTypeBool \<Rightarrow> bind_outcome (bit_mask bitOffset) (\<lambda>m. Ok (VBool (d ! 0 AND m \<noteq> 0)))
      | DataType_other s \<Rightarrow> Err ErrInvalidDataType
      | dt \<Rightarrow> if length d < getByteCount dt then Err ErrInvalidDataLength else decode_ordered t d)"

section \<open>Scaling\<close>

definition s7_applyScaling :: "goval \<Rightarrow> tag \<Rightarrow> goval" where
  "s7_applyScaling value t =
     (if no_scaling t then value
      else case toFloat64 value of (floatVal, ok) \<Rightarrow>
        if \<not> ok then value else VFloat64 (f64_add (f64_mul floatVal (ScaleFactor t)) (Offset t)))"

definition s7_reverseScaling :: "goval \<Rightarrow> tag \<Rightarrow> goval" where
  "s7_reverseScaling value t =
     (if no_scaling t then value
      else case toFloat64 value of (floatVal, ok) \<Rightarrow>
        if \<not> ok then value
        else if f64_eq (ScaleFactor t) f64_zero then VFloat64 (f64_sub floatVal (Offset t))
        else VFloat64 (f64_div (f64_sub floatVal (Offset t)) (ScaleFactor t)))"

section \<open>Writing\<close>

definition s7_valueToBytes :: "arch \<Rightarrow> goval \<Rightarrow> tag \<Rightarrow> int \<Rightarrow> bytes res" where
  "s7_valueToBytes ar value t bitOffset =
     (let actualValue = s7_reverseScaling value t in
      case DataType t of
        DataTypeBool \<Rightarrow> (case toBool actualValue of (b, ok) \<Rightarrow>
          if \<not> ok then Err (cannot_convert value ''bool'')
          else if b then bind_outcome (bit_mask bitOffset) (\<lambda>m. Ok [m]) else Ok [0])
      | _ \<Rightarrow> encode_actual ar value actualValue t)"

section \<open>Facts\<close>

lemma getByteCount_registers:
  "\<not> (\<exists>s. DataType t = DataType_other s) \<Longrightarrow> DataType t \<noteq> DataTypeBool \<Longrightarrow>
     getByteCount (DataType t) = 2 * unat (ExpectedRegisterCount t)"
  by (cases "DataType t") (simp_all add: getByteCount_def unat_ExpectedRegisterCount)

lemma getByteCount_pos [simp]: "0 < getByteCount dt"
  by (simp add: getByteCount_def split: data_type.splits)

lemma s7_parseValue_no_panic:
  assumes "0 \<le> bitOffset"
  shows "s7_parseValue d t bitOffset \<noteq> Panic"
proof (cases "DataType t = DataTypeBool \<or> (\<exists>s. DataType t = DataType_other s)")
  case True
  then show ?thesis using assms by (auto simp: s7_parseValue_def bit_mask_def)
next
  case False
  then have "s7_parseValue d t bitOffset = (if length d = 0 then Err ErrInvalidDataLength
      else if length d < getByteCount (DataType t) then Err ErrInvalidDataLength else decode_ordered t d)"
    by (cases "DataType t") (auto simp: s7_parseValue_def)
  moreover have "getByteCount (DataType t) \<le> length d \<Longrightarrow> decode_ordered t d \<noteq> Panic"
    using False getByteCount_registers [of t] by (intro decode_ordered_no_panic) auto
  ultimately show ?thesis by auto
qed

text \<open>Outside booleans, reading is decoding and writing is encoding.\<close>

lemma s7_numeric:
  assumes "DataType t \<noteq> DataTypeBool" "\<not> (\<exists>s. DataType t = DataType_other s)"
  shows "s7_valueToBytes ar v t bt = encode_actual ar v (s7_reverseScaling v t) t"
    and "length d = getByteCount (DataType t) \<Longrightarrow> s7_parseValue d t bt = decode_ordered t d"
  using assms by (cases "DataType t"; force simp: s7_valueToBytes_def s7_parseValue_def getByteCount_def)+

lemma bit_mask_test: "n < 8 \<Longrightarrow> (push_bit n 1 :: byte) AND push_bit n 1 \<noteq> 0"
proof
  assume "n < 8" "(push_bit n 1 :: byte) AND push_bit n 1 = 0"
  then have "(push_bit n 1 :: byte) = 0" by simp
  then have "bit (push_bit n 1 :: byte) n = bit (0 :: byte) n" by (simp only:)
  then show False using \<open>n < 8\<close> by (simp add: bit_simps)
qed

lemma s7_roundtrip_bool:
  assumes "DataType t = DataTypeBool" "no_scaling t" "0 \<le> bt" "bt \<le> 7"
  shows "\<exists>bs. s7_valueToBytes ar (VBool b) t bt = Ok bs \<and> s7_parseValue bs t bt = Ok (VBool b)"
proof -
  have "s7_reverseScaling (VBool b) t = VBool b" using assms(2) by (simp add: s7_reverseScaling_def)
  moreover have "(push_bit (nat bt) 1 :: byte) AND push_bit (nat bt) 1 \<noteq> 0" using assms by (intro bit_mask_test) simp
  ultimately show ?thesis using assms
    by (cases b) (simp_all add: s7_valueToBytes_def s7_parseValue_def bit_mask_def Let_def)
qed

lemma s7_roundtrip:
  assumes ns: "no_scaling t" and ty: "typed_as (DataType t) v"
    and bt: "0 \<le> bt" "bt \<le> 7"
  shows "\<exists>bs. s7_valueToBytes ar v t bt = Ok bs \<and> s7_parseValue bs t bt = Ok v"
proof (cases "DataType t = DataTypeBool")
  case True
  then obtain b where "v = VBool b" using ty by (auto simp: typed_as_shapes)
  then show ?thesis using s7_roundtrip_bool [OF True ns bt] by simp
next
  case False
  have other: "\<not> (\<exists>s. DataType t = DataType_other s)" using ty by (auto simp: typed_as_shapes)
  have rs: "s7_reverseScaling v t = v" using ns by (simp add: s7_reverseScaling_def)
  have "\<exists>enc. encode_actual ar v v t = Ok enc \<and> decode_ordered t enc = Ok v"
    by (cases "DataType t")
      (use ty False in \<open>auto simp: typed_as_shapes encode_actual_def decode_ordered_def f32_widen_narrow narrow_widen\<close>)
  then obtain enc where enc: "encode_actual ar v v t = Ok enc" "decode_ordered t enc = Ok v" by blast
  have "length enc = getByteCount (DataType t)"
    using length_encode_actual [OF enc(1)] getByteCount_registers [OF other False] by simp
  then show ?thesis using enc s7_numeric [OF False other] rs by simp
qed

end
