(* ===== verification/S7_Batch.thy ===== *)
theory S7_Batch
  imports S7_Address S7_Conversion Range_Merge
begin

text \<open>
  \<open>internal/adapter/s7/batch.go\<close>: tags grouped by area and data block, sorted by byte offset and
  merged into contiguous byte ranges.  Offsets and sizes are unbounded integers here; the code's
  64-bit ints would wrap only for offsets near 2 to the 63.
\<close>

section \<open>Data\<close>

record s7_batch_config =
  MaxBytesPerRange :: int
  MaxGapBytes :: int

definition DefaultS7BatchConfig :: s7_batch_config where
  "DefaultS7BatchConfig = \<lparr>MaxBytesPerRange = 1024, MaxGapBytes = 32\<rparr>"

record s7_parsed_tag =
  pt_tag :: tag
  pt_area :: s7_area
  pt_dbNumber :: int
  pt_offset :: int
  pt_bitOffset :: int
  pt_byteCount :: int

record s7_tag_in_range =
  tr_tag :: tag
  tr_offset :: int
  tr_bitOffset :: int
  tr_byteCount :: int

record s7_byte_range =
  br_area :: s7_area
  br_dbNumber :: int
  br_startOffset :: int
  br_totalBytes :: int
  br_tags :: "s7_tag_in_range list"

type_synonym s7_group_key = "s7_area \<times> int"

definition group_key :: "s7_parsed_tag \<Rightarrow> s7_group_key" where
  "group_key p = (pt_area p, pt_dbNumber p)"

section \<open>Merging\<close>

definition in_range :: "int \<Rightarrow> s7_parsed_tag \<Rightarrow> s7_tag_in_range" where
  "in_range start p = \<lparr>tr_tag = pt_tag p, tr_offset = pt_offset p - start, tr_bitOffset = pt_bitOffset p,
     tr_byteCount = pt_byteCount p\<rparr>"

definition s7_start_range :: "s7_group_key \<Rightarrow> s7_parsed_tag \<Rightarrow> s7_byte_range" where
  "s7_start_range key p = \<lparr>br_area = fst key, br_dbNumber = snd key, br_startOffset = pt_offset p,
     br_totalBytes = pt_byteCount p, br_tags = [in_range (pt_offset p) p]\<rparr>"

definition s7_can_merge :: "s7_batch_config \<Rightarrow> s7_byte_range \<Rightarrow> s7_parsed_tag \<Rightarrow> bool" where
  "s7_can_merge cfg current t =
     (let tagEnd = pt_offset t + pt_byteCount t;
          currentEnd = br_startOffset current + br_totalBytes current;
          gap = pt_offset t - currentEnd;
          newTotalBytes = tagEnd - br_startOffset current;
          newTotalBytes = (if newTotalBytes < br_totalBytes current then br_totalBytes current else newTotalBytes)
      in gap \<le> MaxGapBytes cfg \<and> newTotalBytes \<le> MaxBytesPerRange cfg)"

definition s7_extend_range :: "s7_byte_range \<Rightarrow> s7_parsed_tag \<Rightarrow> s7_byte_range" where
  "s7_extend_range current t =
     (let tagEnd = pt_offset t + pt_byteCount t;
          currentEnd = br_startOffset current + br_totalBytes current
      in current\<lparr>br_totalBytes := (if currentEnd < tagEnd then tagEnd - br_startOffset current
             else br_totalBytes current),
           br_tags := br_tags current @ [in_range (br_startOffset current) t]\<rparr>)"

text \<open>
  \<open>perm\<close> orders the keys of the group map, \<open>srt\<close> is \<open>sort.Slice\<close> by offset, which need not be
  stable.
\<close>

definition group_ranges ::
  "(s7_parsed_tag list \<Rightarrow> s7_parsed_tag list) \<Rightarrow> s7_batch_config \<Rightarrow> s7_parsed_tag list \<Rightarrow> s7_group_key
     \<Rightarrow> s7_byte_range list" where
  "group_ranges srt cfg parsed key = (case srt (filter (\<lambda>p. group_key p = key) parsed) of
       [] \<Rightarrow> []
     | t # ts \<Rightarrow> merge_items (s7_can_merge cfg) s7_extend_range (s7_start_range key) (s7_start_range key t) ts)"

definition buildS7ContiguousRanges ::
  "(s7_group_key list \<Rightarrow> s7_group_key list) \<Rightarrow> (s7_parsed_tag list \<Rightarrow> s7_parsed_tag list) \<Rightarrow>
     s7_parsed_tag list \<Rightarrow> s7_batch_config \<Rightarrow> s7_byte_range list" where
  "buildS7ContiguousRanges perm srt parsed cfg =
     concat (map (group_ranges srt cfg parsed) (perm (remdups (map group_key parsed))))"

section \<open>What the ranges hold\<close>

definition is_offset_sort :: "(s7_parsed_tag list \<Rightarrow> s7_parsed_tag list) \<Rightarrow> bool" where
  "is_offset_sort srt \<longleftrightarrow> (\<forall>xs. mset (srt xs) = mset xs \<and> sorted (map pt_offset (srt xs)))"

text \<open>The parsed tag a range entry stands for.\<close>

definition absolute :: "s7_byte_range \<Rightarrow> s7_tag_in_range \<Rightarrow> s7_parsed_tag" where
  "absolute r t = \<lparr>pt_tag = tr_tag t, pt_area = br_area r, pt_dbNumber = br_dbNumber r,
     pt_offset = br_startOffset r + tr_offset t, pt_bitOffset = tr_bitOffset t, pt_byteCount = tr_byteCount t\<rparr>"

definition range_items :: "s7_byte_range \<Rightarrow> s7_parsed_tag list" where
  "range_items r = map (absolute r) (br_tags r)"

text \<open>
  The invariant of a range: it starts at its first byte, every entry lies within it, and it is no
  longer than the limit unless a single tag is.
\<close>

definition s7_range_ok :: "int \<Rightarrow> s7_byte_range \<Rightarrow> bool" where
  "s7_range_ok m r \<longleftrightarrow> 0 < br_totalBytes r \<and> br_totalBytes r \<le> m
     \<and> (\<forall>t\<in>set (br_tags r). 0 \<le> tr_offset t \<and> 0 < tr_byteCount t \<and> tr_offset t + tr_byteCount t \<le> br_totalBytes r)"

definition s7_tag_fits :: "int \<Rightarrow> s7_parsed_tag \<Rightarrow> bool" where
  "s7_tag_fits m p \<longleftrightarrow> 0 < pt_byteCount p \<and> pt_byteCount p \<le> m"

definition has_key :: "s7_group_key \<Rightarrow> s7_byte_range \<Rightarrow> bool" where
  "has_key key r \<longleftrightarrow> br_area r = fst key \<and> br_dbNumber r = snd key"

lemma s7_ext_ok:
  assumes "s7_range_ok m r" "s7_tag_fits m t" "s7_can_merge cfg r t" "br_startOffset r \<le> pt_offset t"
    "MaxBytesPerRange cfg \<le> m"
  shows "s7_range_ok m (s7_extend_range r t)"
  using assms
  by (auto simp: s7_range_ok_def s7_tag_fits_def s7_can_merge_def s7_extend_range_def in_range_def Let_def
      split: if_splits)

lemma range_items_ext:
  assumes "has_key (group_key t) r"
  shows "range_items (s7_extend_range r t) = range_items r @ [t]"
  using assms
  by (simp add: range_items_def s7_extend_range_def Let_def absolute_def in_range_def has_key_def group_key_def)

text \<open>The merging contract within the group of one key.\<close>

interpretation s7_ranges: range_merging "s7_can_merge DefaultS7BatchConfig" s7_extend_range "s7_start_range key"
  range_items br_startOffset pt_offset "\<lambda>p. s7_tag_fits 1024 p \<and> group_key p = key"
  "\<lambda>r. s7_range_ok 1024 r \<and> has_key key r" for key
proof unfold_locales
  fix r :: s7_byte_range and t :: s7_parsed_tag
  assume "s7_range_ok 1024 r \<and> has_key key r" "s7_tag_fits 1024 t \<and> group_key t = key"
    "s7_can_merge DefaultS7BatchConfig r t" "br_startOffset r \<le> pt_offset t"
  then show "s7_range_ok 1024 (s7_extend_range r t) \<and> has_key key (s7_extend_range r t)"
    using s7_ext_ok [of 1024 r t DefaultS7BatchConfig]
    by (simp add: DefaultS7BatchConfig_def) (simp add: has_key_def s7_extend_range_def Let_def)
qed (auto simp: range_items_ext range_items_def s7_start_range_def absolute_def in_range_def group_key_def
    s7_extend_range_def Let_def s7_range_ok_def s7_tag_fits_def has_key_def)

lemma group_ranges_ok:
  assumes srt: "is_offset_sort srt" and fits: "\<forall>p\<in>set parsed. s7_tag_fits 1024 p"
  shows "mset (concat (map range_items (group_ranges srt DefaultS7BatchConfig parsed key)))
      = mset (filter (\<lambda>p. group_key p = key) parsed)"
    and "\<forall>r\<in>set (group_ranges srt DefaultS7BatchConfig parsed key). s7_range_ok 1024 r \<and> has_key key r"
proof -
  let ?xs = "srt (filter (\<lambda>p. group_key p = key) parsed)"
  have m: "mset ?xs = mset (filter (\<lambda>p. group_key p = key) parsed)" and so: "sorted (map pt_offset ?xs)"
    using srt by (simp_all add: is_offset_sort_def)
  have good: "\<forall>p\<in>set ?xs. s7_tag_fits 1024 p \<and> group_key p = key"
    using fits mset_eq_setD [OF m] by auto
  have "mset (concat (map range_items (group_ranges srt DefaultS7BatchConfig parsed key))) = mset ?xs
    \<and> (\<forall>r\<in>set (group_ranges srt DefaultS7BatchConfig parsed key). s7_range_ok 1024 r \<and> has_key key r)"
  proof (cases ?xs)
    case (Cons t ts)
    have g: "group_ranges srt DefaultS7BatchConfig parsed key
        = merge_items (s7_can_merge DefaultS7BatchConfig) s7_extend_range (s7_start_range key) (s7_start_range key t) ts"
      unfolding group_ranges_def Cons by (simp only: list.case)
    have "\<forall>p\<in>set (t # ts). s7_tag_fits 1024 p \<and> group_key p = key" "sorted (map pt_offset (t # ts))"
      using good so by (simp_all only: Cons)
    note f = s7_ranges.from_first [OF this]
    show ?thesis unfolding g f(1) Cons using f(2) by blast
  qed (simp add: group_ranges_def)
  then show "mset (concat (map range_items (group_ranges srt DefaultS7BatchConfig parsed key)))
      = mset (filter (\<lambda>p. group_key p = key) parsed)"
    and "\<forall>r\<in>set (group_ranges srt DefaultS7BatchConfig parsed key). s7_range_ok 1024 r \<and> has_key key r"
    unfolding m by blast+
qed

lemma buildS7_ok:
  assumes srt: "is_offset_sort srt" and perm: "\<And>ks. mset (perm ks) = mset ks"
    and fits: "\<forall>p\<in>set parsed. s7_tag_fits 1024 p"
  shows "mset (concat (map range_items (buildS7ContiguousRanges perm srt parsed DefaultS7BatchConfig))) = mset parsed"
    and "\<forall>r\<in>set (buildS7ContiguousRanges perm srt parsed DefaultS7BatchConfig). s7_range_ok 1024 r"
proof -
  let ?ks = "perm (remdups (map group_key parsed))"
  have "set ?ks = set (remdups (map group_key parsed))" by (rule mset_eq_setD [OF perm])
  then have ks: "distinct ?ks" "set (map group_key parsed) \<subseteq> set ?ks"
    using mset_eq_imp_distinct_iff [OF perm [of "remdups (map group_key parsed)"]] by simp_all
  have "mset (concat (map range_items (concat (map (group_ranges srt DefaultS7BatchConfig parsed) ks))))
      = mset (concat (map (\<lambda>k. filter (\<lambda>p. group_key p = k) parsed) ks))" for ks
    using group_ranges_ok(1) [OF srt fits] by (induction ks) simp_all
  then show "mset (concat (map range_items (buildS7ContiguousRanges perm srt parsed DefaultS7BatchConfig))) = mset parsed"
    unfolding buildS7ContiguousRanges_def using mset_groups [OF ks] by simp
  show "\<forall>r\<in>set (buildS7ContiguousRanges perm srt parsed DefaultS7BatchConfig). s7_range_ok 1024 r"
    unfolding buildS7ContiguousRanges_def using group_ranges_ok(2) [OF srt fits] by auto
qed

section \<open>Properties\<close>

text \<open>
  The byte ranges built for a request hold every parsed tag exactly once, at its own area, data
  block and absolute offset, and no range is longer than 1024 bytes or leaves a tag outside, for
  any order of the groups and any sort by offset.
\<close>

theorem byte_ranges_hold_tags:
  assumes "is_offset_sort srt" and "\<And>ks. mset (perm ks) = mset ks" and "\<forall>p\<in>set parsed. s7_tag_fits 1024 p"
  shows "mset (concat (map range_items (buildS7ContiguousRanges perm srt parsed DefaultS7BatchConfig))) = mset parsed
    \<and> (\<forall>r\<in>set (buildS7ContiguousRanges perm srt parsed DefaultS7BatchConfig). s7_range_ok 1024 r)"
  using buildS7_ok [OF assms] by blast

lemma insertion_sort_is_offset_sort: "is_offset_sort (insertion_sort pt_offset)"
  by (simp add: is_offset_sort_def sorted_insertion_sort)

definition sample_parsed :: "int \<Rightarrow> s7_parsed_tag" where
  "sample_parsed off = \<lparr>pt_tag = int_tag, pt_area = S7AreaDB, pt_dbNumber = 1, pt_offset = off, pt_bitOffset = 0,
     pt_byteCount = 4\<rparr>"

theorem byte_ranges_hold_tags_witness:
  "mset (concat (map range_items (buildS7ContiguousRanges rev (insertion_sort pt_offset)
     [sample_parsed 40, sample_parsed 0] DefaultS7BatchConfig))) = {#sample_parsed 40, sample_parsed 0#}"
  using byte_ranges_hold_tags [OF insertion_sort_is_offset_sort, of rev "[sample_parsed 40, sample_parsed 0]"]
  by (simp add: sample_parsed_def s7_tag_fits_def)

end
