(* ===== verification/S7_Client.thy ===== *)
theory S7_Client
  imports S7_Batch Retry_Loop
begin

text \<open>
  \<open>internal/adapter/s7/client.go\<close> and the per-client part of \<open>health.go\<close>: one S7 client, its single
  and batched reads, its writes with the read-modify-write of booleans, and the batched writes.
  The gos7 library, the clock and the context are the parameter \<open>ops\<close>, acting on a world of any
  type \<open>'w\<close>.  A client operation is atomic (\<open>opMu\<close>).  Texts handed to \<open>fmt.Errorf\<close> as a format are
  taken literally.
\<close>

section \<open>The world a client acts on\<close>

record s7_item =
  it_Area :: int
  it_WordLen :: int
  it_DBNumber :: int
  it_Start :: int
  it_Bit :: int
  it_Amount :: int
  it_Data :: bytes
  it_Error :: string

record 'w s7_ops =
  so_now :: "'w \<Rightarrow> time"
  so_wait :: "duration \<Rightarrow> 'w \<Rightarrow> err option \<times> 'w"
  so_ctx :: "'w \<Rightarrow> err option"
  so_connect :: "'w \<Rightarrow> connect_race \<times> 'w"
  so_close :: "'w \<Rightarrow> 'w"
  AGReadDB :: "int \<Rightarrow> int \<Rightarrow> int \<Rightarrow> 'w \<Rightarrow> (err + bytes) \<times> 'w"
  AGReadEB :: "int \<Rightarrow> int \<Rightarrow> 'w \<Rightarrow> (err + bytes) \<times> 'w"
  AGWriteDB :: "int \<Rightarrow> int \<Rightarrow> int \<Rightarrow> bytes \<Rightarrow> 'w \<Rightarrow> err option \<times> 'w"
  AGWriteEB :: "int \<Rightarrow> int \<Rightarrow> bytes \<Rightarrow> 'w \<Rightarrow> err option \<times> 'w"
  AGReadMulti :: "s7_item list \<Rightarrow> 'w \<Rightarrow> (err option \<times> s7_item list) \<times> 'w"
  AGWriteMulti :: "s7_item list \<Rightarrow> 'w \<Rightarrow> (err option \<times> s7_item list) \<times> 'w"
  so_arch :: "'w \<Rightarrow> arch"

section \<open>The client's state\<close>

record s7_config =
  sc_Address :: string
  sc_Port :: int
  sc_Rack :: int
  sc_Slot :: int
  sc_Timeout :: duration
  sc_IdleTimeout :: duration
  sc_MaxRetries :: int
  sc_RetryDelay :: duration
  sc_PDUSize :: int

record s7_stats =
  ss_ReadCount :: nat
  ss_WriteCount :: nat
  ss_ErrorCount :: nat
  ss_RetryCount :: nat
  ss_TotalReadTime :: int
  ss_TotalWriteTime :: int
  ss_ReconnectCount :: nat

record s7_diagnostic =
  sd_TagID :: string
  sd_LastError :: "err option"
  sd_LastErrorTime :: "time option"
  sd_LastSuccessTime :: "time option"
  sd_ErrorCount :: nat
  sd_SuccessCount :: nat

record s7_client =
  sl_config :: s7_config
  sl_handler :: bool
  sl_has_client :: bool
  sl_connected :: bool
  sl_lastError :: "err option"
  sl_lastUsed :: time
  sl_stats :: s7_stats
  sl_deviceID :: string
  sl_consecutiveFailures :: nat
  sl_tagDiagnostics :: "string \<rightharpoonup> s7_diagnostic"

type_synonym 'w s7_state = "s7_client \<times> 'w"

definition or_else :: "int \<Rightarrow> int \<Rightarrow> int" where
  "or_else x d = (if x = 0 then d else x)"

definition zero_s7_stats :: s7_stats where
  "zero_s7_stats = \<lparr>ss_ReadCount = 0, ss_WriteCount = 0, ss_ErrorCount = 0, ss_RetryCount = 0,
     ss_TotalReadTime = 0, ss_TotalWriteTime = 0, ss_ReconnectCount = 0\<rparr>"

definition s7_NewClient :: "time \<Rightarrow> string \<Rightarrow> s7_config \<Rightarrow> s7_client res" where
  "s7_NewClient now deviceID config =
     (if sc_Address config = [] then Err (Plain ''S7 address is required'')
      else Ok \<lparr>
        sl_config = config\<lparr>
          sc_Port := or_else (sc_Port config) 102,
          sc_Timeout := or_else (sc_Timeout config) (10 * second),
          sc_IdleTimeout := or_else (sc_IdleTimeout config) (60 * second),
          sc_MaxRetries := or_else (sc_MaxRetries config) 3,
          sc_RetryDelay := or_else (sc_RetryDelay config) (500 * millisecond),
          sc_PDUSize := or_else (sc_PDUSize config) 480\<rparr>,
        sl_handler = False, sl_has_client = False, sl_connected = False, sl_lastError = None,
        sl_lastUsed = now, sl_stats = zero_s7_stats, sl_deviceID = deviceID,
        sl_consecutiveFailures = 0, sl_tagDiagnostics = Map.empty\<rparr>)"

abbreviation s7_upd :: "(s7_stats \<Rightarrow> s7_stats) \<Rightarrow> s7_client \<Rightarrow> s7_client" where
  "s7_upd f c \<equiv> c\<lparr>sl_stats := f (sl_stats c)\<rparr>"

definition s7_count_error :: "s7_client \<Rightarrow> s7_client" where
  "s7_count_error c = s7_upd (\<lambda>s. s\<lparr>ss_ErrorCount := ss_ErrorCount s + 1\<rparr>) c"

definition s7_count_read :: "s7_client \<Rightarrow> s7_client" where
  "s7_count_read c = s7_upd (\<lambda>s. s\<lparr>ss_ReadCount := ss_ReadCount s + 1\<rparr>) c"

definition s7_count_write :: "s7_client \<Rightarrow> s7_client" where
  "s7_count_write c = s7_upd (\<lambda>s. s\<lparr>ss_WriteCount := ss_WriteCount s + 1\<rparr>) c"

definition s7_add_failure :: "s7_client \<Rightarrow> s7_client" where
  "s7_add_failure c = c\<lparr>sl_consecutiveFailures := sl_consecutiveFailures c + 1\<rparr>"

definition s7_reset_failures :: "s7_client \<Rightarrow> s7_client" where
  "s7_reset_failures c = c\<lparr>sl_consecutiveFailures := 0\<rparr>"

section \<open>Tag diagnostics\<close>

definition s7_diag :: "string \<Rightarrow> s7_client \<Rightarrow> s7_diagnostic" where
  "s7_diag tagID c = (case sl_tagDiagnostics c tagID of Some d \<Rightarrow> d
     | None \<Rightarrow> \<lparr>sd_TagID = tagID, sd_LastError = None, sd_LastErrorTime = None, sd_LastSuccessTime = None,
         sd_ErrorCount = 0, sd_SuccessCount = 0\<rparr>)"

definition s7_recordTagSuccess :: "time \<Rightarrow> string \<Rightarrow> s7_client \<Rightarrow> s7_client" where
  "s7_recordTagSuccess now tagID c = (let d = s7_diag tagID c in
     c\<lparr>sl_tagDiagnostics := (sl_tagDiagnostics c)(tagID \<mapsto>
        d\<lparr>sd_LastSuccessTime := Some now, sd_SuccessCount := sd_SuccessCount d + 1\<rparr>)\<rparr>)"

definition s7_recordTagError :: "time \<Rightarrow> string \<Rightarrow> err \<Rightarrow> s7_client \<Rightarrow> s7_client" where
  "s7_recordTagError now tagID e c = (let d = s7_diag tagID c in
     c\<lparr>sl_tagDiagnostics := (sl_tagDiagnostics c)(tagID \<mapsto>
        d\<lparr>sd_LastError := Some e, sd_LastErrorTime := Some now, sd_ErrorCount := sd_ErrorCount d + 1\<rparr>)\<rparr>)"

definition s7_GetTagDiagnostic :: "s7_client \<Rightarrow> string \<Rightarrow> s7_diagnostic option" where
  "s7_GetTagDiagnostic c tagID = sl_tagDiagnostics c tagID"

section \<open>Errors\<close>

definition s7_isConnectionError :: "err \<Rightarrow> bool" where
  "s7_isConnectionError e = (let errStr = map to_lower (err_text e) in
     contains_sub errStr ''connection'' \<or> contains_sub errStr ''timeout'' \<or> contains_sub errStr ''closed''
     \<or> contains_sub errStr ''refused'' \<or> contains_sub errStr ''reset'')"

definition s7_isRetryableError :: "err \<Rightarrow> bool" where
  "s7_isRetryableError e = s7_isConnectionError e"

definition s7_error_point :: "time \<Rightarrow> s7_client \<Rightarrow> tag \<Rightarrow> err \<Rightarrow> data_point" where
  "s7_error_point now c t e = AcquireDataPoint zero_data_point now (sl_deviceID c) (tag_ID t) [] VNil (tag_Unit t)
     (if s7_isConnectionError e then QualityNotConnected else QualityBad)"

definition s7_good_point :: "time \<Rightarrow> s7_client \<Rightarrow> tag \<Rightarrow> goval \<Rightarrow> data_point" where
  "s7_good_point now c t v = WithRawValue v (AcquireDataPoint zero_data_point now (sl_deviceID c) (tag_ID t) []
     (s7_applyScaling v t) (tag_Unit t) QualityGood)"

definition s7_location_error :: "err \<Rightarrow> s7_area \<Rightarrow> int \<Rightarrow> int \<Rightarrow> err \<Rightarrow> err" where
  "s7_location_error what area db off e = Wrap what ('': area='' @ area_text area @ '' db='' @ show_int db
     @ '' offset='' @ show_int off @ '': '' @ err_text e)"

section \<open>Connecting\<close>

definition s7_Connect :: "'w s7_ops \<Rightarrow> 'w s7_state \<Rightarrow> err option \<times> 'w s7_state" where
  "s7_Connect ops st = (case st of (c, w) \<Rightarrow>
     if sl_connected c then (None, st)
     else case so_connect ops w of
        (ConnectDone (Some e), w1) \<Rightarrow>
          (Some (wrap_v ErrS7ConnectionFailed e), (c\<lparr>sl_lastError := Some e\<rparr>, so_close ops w1))
      | (ConnectCtxDone e, w1) \<Rightarrow> (Some (wrap_v ErrConnectionTimeout e), (c, w1))
      | (ConnectDone None, w1) \<Rightarrow>
          (None, (c\<lparr>sl_handler := True, sl_has_client := True, sl_connected := True,
                    sl_lastError := None, sl_lastUsed := so_now ops w1\<rparr>, w1)))"

definition s7_Disconnect :: "'w s7_ops \<Rightarrow> 'w s7_state \<Rightarrow> 'w s7_state" where
  "s7_Disconnect ops st = (case st of (c, w) \<Rightarrow>
     if \<not> sl_connected c then st
     else (c\<lparr>sl_connected := False, sl_handler := False, sl_has_client := False\<rparr>,
           if sl_handler c then so_close ops w else w))"

definition s7_reconnect :: "'w s7_ops \<Rightarrow> 'w s7_state \<Rightarrow> 'w s7_state" where
  "s7_reconnect ops st =
     (let st1 = (s7_upd (\<lambda>s. s\<lparr>ss_ReconnectCount := ss_ReconnectCount s + 1\<rparr>) (fst st), snd st)
      in case s7_Connect ops (s7_Disconnect ops st1) of (e, (c, w)) \<Rightarrow> (c\<lparr>sl_lastError := e\<rparr>, w))"

section \<open>Reading one tag\<close>

definition S7AreaCode :: "s7_area \<Rightarrow> int option" where
  "S7AreaCode a = (case a of S7AreaDB \<Rightarrow> Some 0x84 | S7AreaM \<Rightarrow> Some 0x83 | S7AreaI \<Rightarrow> Some 0x81
     | S7AreaQ \<Rightarrow> Some 0x82 | S7AreaT \<Rightarrow> Some 0x1D | S7AreaC \<Rightarrow> Some 0x1C | S7Area_other s \<Rightarrow> None)"

definition invalid_area :: "s7_area \<Rightarrow> string \<Rightarrow> err" where
  "invalid_area a rest = Wrap ErrS7InvalidArea ('': '' @ area_text a @ rest)"

definition area_read :: "'w s7_ops \<Rightarrow> s7_area \<Rightarrow> int \<Rightarrow> int \<Rightarrow> int \<Rightarrow> 'w \<Rightarrow> (err + bytes) \<times> 'w" where
  "area_read ops area db off n w = (case area of
       S7AreaDB \<Rightarrow> AGReadDB ops db off n w
     | _ \<Rightarrow> AGReadEB ops off n w)"

definition area_write :: "'w s7_ops \<Rightarrow> s7_area \<Rightarrow> int \<Rightarrow> int \<Rightarrow> bytes \<Rightarrow> 'w \<Rightarrow> err option \<times> 'w" where
  "area_write ops area db off buf w = (case area of
       S7AreaDB \<Rightarrow> AGWriteDB ops db off (int (length buf)) buf w
     | _ \<Rightarrow> AGWriteEB ops off (int (length buf)) buf w)"

definition readData :: "'w s7_ops \<Rightarrow> tag \<Rightarrow> s7_location \<Rightarrow> 'w s7_state \<Rightarrow> data_point res \<times> 'w s7_state" where
  "readData ops t loc st = (case st of (c, w) \<Rightarrow> case loc of (area, db, off, bt) \<Rightarrow>
     if \<not> sl_has_client c then (Err ErrConnectionClosed, st)
     else if S7AreaCode area = None then (Err (invalid_area area []), st)
     else case area_read ops area db off (int (getByteCount (DataType t))) w of
       (Inl e, w1) \<Rightarrow> (Err (s7_location_error ErrS7ReadFailed area db off e), (c, w1))
     | (Inr buffer, w1) \<Rightarrow>
         (bind_outcome (s7_parseValue buffer t bt) (\<lambda>v. Ok (s7_good_point (so_now ops w1) c t v)), (c, w1)))"

text \<open>The hooks of the retry loop; the delay has no jitter.\<close>

definition s7_backoff_step :: "nat \<Rightarrow> 'w s7_state \<Rightarrow> duration res \<times> 'w s7_state" where
  "s7_backoff_step attempt st = (case st of (c, w) \<Rightarrow>
     (Ok (backoff_delay (sc_RetryDelay (sl_config c)) attempt),
      (s7_upd (\<lambda>s. s\<lparr>ss_RetryCount := ss_RetryCount s + 1\<rparr>) c, w)))"

definition s7_wait_step :: "'w s7_ops \<Rightarrow> duration \<Rightarrow> 'w s7_state \<Rightarrow> err option \<times> 'w s7_state" where
  "s7_wait_step ops d st = (case st of (c, w) \<Rightarrow> (case so_wait ops d w of (e, w1) \<Rightarrow> (e, (c, w1))))"

definition s7_hooks :: "'w s7_ops \<Rightarrow> ('w s7_state \<Rightarrow> 'a res \<times> 'w s7_state) \<Rightarrow> ('w s7_state, 'a) retry_hooks" where
  "s7_hooks ops f = \<lparr>h_backoff = s7_backoff_step, h_wait = s7_wait_step ops, h_op = f,
     h_retryable = s7_isRetryableError, h_connection = s7_isConnectionError, h_reconnect = s7_reconnect ops\<rparr>"

definition s7_map :: "(time \<Rightarrow> s7_client \<Rightarrow> s7_client) \<Rightarrow> 'w s7_ops \<Rightarrow> 'w s7_state \<Rightarrow> 'w s7_state" where
  "s7_map f ops st = (f (so_now ops (snd st)) (fst st), snd st)"

definition s7_failed :: "tag \<Rightarrow> err \<Rightarrow> time \<Rightarrow> s7_client \<Rightarrow> s7_client" where
  "s7_failed t e now c = s7_add_failure (s7_recordTagError now (tag_ID t) e (s7_count_error c))"

definition s7_touch :: "'w s7_ops \<Rightarrow> 'w s7_state \<Rightarrow> 'w s7_state" where
  "s7_touch ops = s7_map (\<lambda>now c. c\<lparr>sl_lastUsed := now\<rparr>) ops"

type_synonym s7_read_result = "(data_point option \<times> err option) res"

definition s7_read_failed :: "'w s7_ops \<Rightarrow> tag \<Rightarrow> err \<Rightarrow> 'w s7_state \<Rightarrow> s7_read_result \<times> 'w s7_state" where
  "s7_read_failed ops t e st = (let st1 = s7_map (s7_failed t e) ops st
     in (Ok (Some (s7_error_point (so_now ops (snd st1)) (fst st1) t e), Some e), st1))"

definition s7_succeeded :: "tag \<Rightarrow> (s7_client \<Rightarrow> s7_client) \<Rightarrow> time \<Rightarrow> s7_client \<Rightarrow> s7_client" where
  "s7_succeeded t tally now c = tally (s7_recordTagSuccess now (tag_ID t) (s7_reset_failures c))"

definition s7_ReadTag_body :: "'w s7_ops \<Rightarrow> tag \<Rightarrow> 'w s7_state \<Rightarrow> s7_read_result \<times> 'w s7_state" where
  "s7_ReadTag_body ops t st =
     (if \<not> sl_connected (fst st) then
        (Ok (None, Some ErrConnectionClosed), s7_map (\<lambda>now. s7_recordTagError now (tag_ID t) ErrConnectionClosed) ops st)
      else case parseTagAddress t of
        Panic \<Rightarrow> (Panic, st)
      | Err e \<Rightarrow> s7_read_failed ops t e st
      | Ok loc \<Rightarrow>
          (case run_retries (s7_hooks ops (readData ops t loc)) (sc_MaxRetries (sl_config (fst st))) st of
             (Succeeded dp, st1) \<Rightarrow> (Ok (Some dp, None), s7_map (s7_succeeded t s7_count_read) ops st1)
           | (NotTried, st1) \<Rightarrow> (Ok (None, None), s7_map (s7_succeeded t s7_count_read) ops st1)
           | (Cancelled e, st1) \<Rightarrow> (Ok (None, Some e), s7_map (\<lambda>now. s7_recordTagError now (tag_ID t) e) ops st1)
           | (Fatal e, st1) \<Rightarrow> s7_read_failed ops t e st1
           | (Exhausted e, st1) \<Rightarrow> s7_read_failed ops t e st1
           | (Crashed, st1) \<Rightarrow> (Panic, st1)))"

definition s7_ReadTag :: "'w s7_ops \<Rightarrow> tag \<Rightarrow> 'w s7_state \<Rightarrow> s7_read_result \<times> 'w s7_state" where
  "s7_ReadTag ops t st = (let start = so_now ops (snd st) in
     case s7_ReadTag_body ops t (s7_touch ops st) of (r, st1) \<Rightarrow>
       (r, s7_map (\<lambda>now. s7_upd (\<lambda>s. s\<lparr>ss_TotalReadTime := ss_TotalReadTime s + time_sub now start\<rparr>)) ops st1))"

section \<open>Batched reading over contiguous ranges\<close>

type_synonym result_map = "string \<rightharpoonup> data_point"

fun parse_all :: "tag list \<Rightarrow> s7_parsed_tag list res" where
  "parse_all [] = Ok []"
| "parse_all (t # ts) = (case parseTagAddress t of
       Panic \<Rightarrow> Panic
     | Err e \<Rightarrow> Err (WrapPre (''failed to parse address for tag '' @ tag_ID t @ '': '') e)
     | Ok (area, db, off, bt) \<Rightarrow> bind_outcome (parse_all ts) (\<lambda>ps.
         Ok (\<lparr>pt_tag = t, pt_area = area, pt_dbNumber = db, pt_offset = off, pt_bitOffset = bt,
              pt_byteCount = int (getByteCount (DataType t))\<rparr> # ps)))"

fun range_items_of :: "s7_byte_range list \<Rightarrow> s7_item list res" where
  "range_items_of [] = Ok []"
| "range_items_of (r # rs) = (case S7AreaCode (br_area r) of
       None \<Rightarrow> Err (invalid_area (br_area r) [])
     | Some code \<Rightarrow> bind_outcome (range_items_of rs) (\<lambda>its. Ok (
         \<lparr>it_Area = code, it_WordLen = 0x02, it_DBNumber = br_dbNumber r, it_Start = br_startOffset r,
          it_Bit = 0, it_Amount = br_totalBytes r, it_Data = replicate (nat (br_totalBytes r)) 0,
          it_Error = []\<rparr> # its)))"

text \<open>One tag out of a range's buffer: into the result map, the statistics and the diagnostics.\<close>

definition range_short_error :: "s7_tag_in_range \<Rightarrow> nat \<Rightarrow> err" where
  "range_short_error t n = Plain (''tag '' @ tag_ID (tr_tag t) @ '': offset '' @ show_int (tr_offset t) @ '' + size ''
     @ show_int (tr_byteCount t) @ '' exceeds buffer '' @ show_nat n)"

definition put_error :: "time \<Rightarrow> tag \<Rightarrow> err \<Rightarrow> result_map \<times> s7_client \<Rightarrow> result_map \<times> s7_client" where
  "put_error now t e mc = (case mc of (m, c) \<Rightarrow>
     (let c1 = s7_recordTagError now (tag_ID t) e (s7_count_error c)
      in (m(tag_ID t \<mapsto> s7_error_point now c1 t e), c1)))"

definition put_value :: "time \<Rightarrow> tag \<Rightarrow> goval \<Rightarrow> result_map \<times> s7_client \<Rightarrow> result_map \<times> s7_client" where
  "put_value now t v mc = (case mc of (m, c) \<Rightarrow>
     (m(tag_ID t \<mapsto> s7_good_point now c t v), s7_recordTagSuccess now (tag_ID t) (s7_count_read c)))"

definition extract_tag ::
  "time \<Rightarrow> bytes \<Rightarrow> s7_tag_in_range \<Rightarrow> result_map \<times> s7_client \<Rightarrow> (result_map \<times> s7_client) res" where
  "extract_tag now buf t mc =
     (if int (length buf) < tr_offset t + tr_byteCount t
      then Ok (put_error now (tr_tag t) (range_short_error t (length buf)) mc)
      else if tr_offset t < 0 \<or> tr_byteCount t < 0 then Panic
      else case s7_parseValue (take (nat (tr_byteCount t)) (drop (nat (tr_offset t)) buf)) (tr_tag t) (tr_bitOffset t) of
          Panic \<Rightarrow> Panic
        | Err e \<Rightarrow> Ok (put_error now (tr_tag t) e mc)
        | Ok v \<Rightarrow> Ok (put_value now (tr_tag t) v mc))"

fun extract_tags ::
  "time \<Rightarrow> s7_item \<Rightarrow> s7_tag_in_range list \<Rightarrow> result_map \<times> s7_client \<Rightarrow> (result_map \<times> s7_client) res" where
  "extract_tags now item [] mc = Ok mc"
| "extract_tags now item (t # ts) mc =
     (if it_Error item \<noteq> [] then extract_tags now item ts (put_error now (tr_tag t) (Plain (it_Error item)) mc)
      else bind_outcome (extract_tag now (it_Data item) t mc) (extract_tags now item ts))"

fun extract_ranges ::
  "time \<Rightarrow> s7_byte_range list \<Rightarrow> s7_item list \<Rightarrow> result_map \<times> s7_client \<Rightarrow> (result_map \<times> s7_client) res" where
  "extract_ranges now (r # rs) (item # items) mc =
     bind_outcome (extract_tags now item (br_tags r) mc) (extract_ranges now rs items)"
| "extract_ranges now [] items mc = Ok mc"
| "extract_ranges now (r # rs) [] mc = Panic"

definition readContiguousRanges ::
  "'w s7_ops \<Rightarrow> s7_byte_range list \<Rightarrow> result_map \<Rightarrow> 'w s7_state \<Rightarrow> result_map res \<times> 'w s7_state" where
  "readContiguousRanges ops rs m st = (case st of (c, w) \<Rightarrow>
     case range_items_of rs of
       Panic \<Rightarrow> (Panic, st)
     | Err e \<Rightarrow> (Err e, st)
     | Ok items \<Rightarrow>
         if \<not> sl_has_client c then (Err ErrConnectionClosed, st)
         else case AGReadMulti ops items w of
           ((Some e, items1), w1) \<Rightarrow> (Err (Wrap ErrS7ReadFailed ('': AGReadMulti failed: '' @ err_text e)), (c, w1))
         | ((None, items1), w1) \<Rightarrow>
             (case extract_ranges (so_now ops w1) rs items1 (m, c) of
                Ok (m1, c1) \<Rightarrow> (Ok m1, (c1, w1))
              | Err e \<Rightarrow> (Err e, (c, w1))
              | Panic \<Rightarrow> (Panic, (c, w1))))"

text \<open>The loop over chunks of 20 ranges.\<close>

function read_chunks ::
  "'w s7_ops \<Rightarrow> s7_byte_range list \<Rightarrow> result_map \<Rightarrow> 'w s7_state \<Rightarrow> result_map res \<times> 'w s7_state" where
  "read_chunks ops rs m st =
     (if rs = [] then (Ok m, st)
      else case so_ctx ops (snd st) of
        Some e \<Rightarrow> (Err e, st)
      | None \<Rightarrow>
          (case readContiguousRanges ops (take 20 rs) m st of
             (Ok m1, st1) \<Rightarrow> read_chunks ops (drop 20 rs) m1 st1
           | (Err e, st1) \<Rightarrow> (Err e, st1)
           | (Panic, st1) \<Rightarrow> (Panic, st1)))"
  by pat_completeness auto
termination
  by (relation "measure (\<lambda>(ops, rs, m, st). length rs)") auto

declare read_chunks.simps [simp del]

record s7_choice =
  ch_perm :: "s7_group_key list \<Rightarrow> s7_group_key list"
  ch_sort :: "s7_parsed_tag list \<Rightarrow> s7_parsed_tag list"

definition missing_error :: "tag \<Rightarrow> err" where
  "missing_error t = Plain (''tag '' @ tag_ID t @ '' missing from batch result'')"

definition readTagsOptimized ::
  "'w s7_ops \<Rightarrow> s7_choice \<Rightarrow> tag list \<Rightarrow> 'w s7_state \<Rightarrow> data_point list res \<times> 'w s7_state" where
  "readTagsOptimized ops ch tags st = (case parse_all tags of
       Panic \<Rightarrow> (Panic, st)
     | Err e \<Rightarrow> (Err e, st)
     | Ok parsed \<Rightarrow>
         (case read_chunks ops (buildS7ContiguousRanges (ch_perm ch) (ch_sort ch) parsed DefaultS7BatchConfig)
                 Map.empty st of
            (Ok m, st1) \<Rightarrow> (Ok (map (\<lambda>t. case m (tag_ID t) of
                 Some dp \<Rightarrow> dp
               | None \<Rightarrow> s7_error_point (so_now ops (snd st1)) (fst st1) t (missing_error t)) tags), st1)
          | (Err e, st1) \<Rightarrow> (Err e, st1)
          | (Panic, st1) \<Rightarrow> (Panic, st1)))"

section \<open>Batched reading tag by tag\<close>

fun tag_items_of :: "tag list \<Rightarrow> (tag \<times> s7_item) list res" where
  "tag_items_of [] = Ok []"
| "tag_items_of (t # ts) = (case parseTagAddress t of
       Panic \<Rightarrow> Panic
     | Err e \<Rightarrow> Err (WrapPre (''failed to parse address for tag '' @ tag_ID t @ '': '') e)
     | Ok (area, db, off, bt) \<Rightarrow>
         (case S7AreaCode area of
            None \<Rightarrow> Err (invalid_area area ('' for tag '' @ tag_ID t))
          | Some code \<Rightarrow> bind_outcome (tag_items_of ts) (\<lambda>its. Ok ((t,
              \<lparr>it_Area = code, it_WordLen = getWordLength (DataType t), it_DBNumber = db, it_Start = off,
               it_Bit = bt, it_Amount = int (getByteCount (DataType t)),
               it_Data = replicate (getByteCount (DataType t)) 0, it_Error = []\<rparr>) # its))))"

fun batch_points :: "time \<Rightarrow> (tag \<times> int) list \<Rightarrow> s7_item list \<Rightarrow> s7_client \<Rightarrow> data_point list res \<times> s7_client" where
  "batch_points now ((t, bt) # ts) (item # items) c =
     (if it_Error item \<noteq> [] then
        (let c1 = s7_recordTagError now (tag_ID t) (Plain (it_Error item)) (s7_count_error c)
         in case batch_points now ts items c1 of (r, c2) \<Rightarrow>
              (bind_outcome r (\<lambda>ps. Ok (s7_error_point now c1 t (Plain (it_Error item)) # ps)), c2))
      else case s7_parseValue (it_Data item) t bt of
          Panic \<Rightarrow> (Panic, c)
        | Err e \<Rightarrow>
            (let c1 = s7_recordTagError now (tag_ID t) e (s7_count_error c)
             in case batch_points now ts items c1 of (r, c2) \<Rightarrow>
                  (bind_outcome r (\<lambda>ps. Ok (s7_error_point now c1 t e # ps)), c2))
        | Ok v \<Rightarrow>
            (case batch_points now ts items (s7_recordTagSuccess now (tag_ID t) (s7_count_read c)) of (r, c2) \<Rightarrow>
               (bind_outcome r (\<lambda>ps. Ok (s7_good_point now c t v # ps)), c2)))"
| "batch_points now [] items c = (Ok [], c)"
| "batch_points now (tb # ts) [] c = (Panic, c)"

definition readTagBatch :: "'w s7_ops \<Rightarrow> tag list \<Rightarrow> 'w s7_state \<Rightarrow> data_point list res \<times> 'w s7_state" where
  "readTagBatch ops tags st = (case st of (c, w) \<Rightarrow>
     if tags = [] then (Ok [], st)
     else case tag_items_of tags of
       Panic \<Rightarrow> (Panic, st)
     | Err e \<Rightarrow> (Err e, st)
     | Ok tis \<Rightarrow>
         if \<not> sl_has_client c then (Err ErrConnectionClosed, st)
         else case AGReadMulti ops (map snd tis) w of
           ((Some e, items1), w1) \<Rightarrow> (Err (Wrap ErrS7ReadFailed ('': AGReadMulti failed: '' @ err_text e)), (c, w1))
         | ((None, items1), w1) \<Rightarrow>
             (case batch_points (so_now ops w1) (map (\<lambda>(t, it). (t, it_Bit it)) tis) items1 c of
                (r, c1) \<Rightarrow> (r, (c1, w1))))"

fun read_each :: "'w s7_ops \<Rightarrow> tag list \<Rightarrow> 'w s7_state \<Rightarrow> data_point option list res \<times> 'w s7_state" where
  "read_each ops [] st = (Ok [], st)"
| "read_each ops (t # ts) st = (case s7_ReadTag ops t st of
       (Panic, st1) \<Rightarrow> (Panic, st1)
     | (Err e, st1) \<Rightarrow> (Err e, st1)
     | (Ok (dp, e), st1) \<Rightarrow> (case read_each ops ts st1 of (r, st2) \<Rightarrow> (bind_outcome r (\<lambda>ps. Ok (dp # ps)), st2)))"

function readTagsFallback ::
  "'w s7_ops \<Rightarrow> tag list \<Rightarrow> 'w s7_state \<Rightarrow> (data_point option list \<times> err option) res \<times> 'w s7_state" where
  "readTagsFallback ops tags st =
     (if tags = [] then (Ok ([], None), st)
      else case so_ctx ops (snd st) of
        Some e \<Rightarrow> (Ok ([], Some e), st)
      | None \<Rightarrow>
          (case (case readTagBatch ops (take 20 tags) st of
                   (Ok ps, st1) \<Rightarrow> (Ok (map Some ps), st1)
                 | (Err e, st1) \<Rightarrow> read_each ops (take 20 tags) st1
                 | (Panic, st1) \<Rightarrow> (Panic, st1)) of
             (Ok ps, st1) \<Rightarrow> (case readTagsFallback ops (drop 20 tags) st1 of
                (r, st2) \<Rightarrow> (bind_outcome r (\<lambda>(qs, e). Ok (ps @ qs, e)), st2))
           | (Err e, st1) \<Rightarrow> (Err e, st1)
           | (Panic, st1) \<Rightarrow> (Panic, st1)))"
  by pat_completeness auto
termination
  by (relation "measure (\<lambda>(ops, tags, st). length tags)") auto

declare readTagsFallback.simps [simp del]

definition s7_ReadTags ::
  "'w s7_ops \<Rightarrow> s7_choice \<Rightarrow> tag list \<Rightarrow> 'w s7_state \<Rightarrow> (data_point option list \<times> err option) res \<times> 'w s7_state" where
  "s7_ReadTags ops ch tags st0 =
     (if tags = [] then (Ok ([], None), st0)
      else let st = s7_touch ops st0 in
        if \<not> sl_connected (fst st) then (Ok ([], Some ErrConnectionClosed), st)
        else case readTagsOptimized ops ch tags st of
          (Ok ps, st1) \<Rightarrow> (Ok (map Some ps, None), st1)
        | (Err e, st1) \<Rightarrow> readTagsFallback ops tags st1
        | (Panic, st1) \<Rightarrow> (Panic, st1))"

section \<open>Writing one tag\<close>

definition set_bit_at :: "byte \<Rightarrow> byte \<Rightarrow> bool \<Rightarrow> byte" where
  "set_bit_at old m b = (if b then old OR m else old AND NOT m)"

text \<open>The read-modify-write of a boolean.\<close>

definition writeBoolWithRMW :: "'w s7_ops \<Rightarrow> tag \<Rightarrow> s7_location \<Rightarrow> goval \<Rightarrow> 'w \<Rightarrow> unit res \<times> 'w" where
  "writeBoolWithRMW ops t loc value w = (case loc of (area, db, off, bt) \<Rightarrow>
     case toBool (s7_reverseScaling value t) of (b, ok) \<Rightarrow>
       if \<not> ok then (Err (cannot_convert value ''bool''), w)
       else case area_read ops area db off 1 w of
         (Inl e, w1) \<Rightarrow> (Err (Wrap ErrS7ReadFailed ('': failed to read byte for RMW: '' @ err_text e)), w1)
       | (Inr currentByte, w1) \<Rightarrow>
           if currentByte = [] then (Panic, w1)
           else case bit_mask bt of
             Ok m \<Rightarrow>
               (case area_write ops area db off [set_bit_at (currentByte ! 0) m b] w1 of
                  (None, w2) \<Rightarrow> (Ok (), w2)
                | (Some e, w2) \<Rightarrow> (Err (Wrap ErrS7WriteFailed ('': area='' @ area_text area @ '' db='' @ show_int db
                    @ '' offset='' @ show_int off @ '' bit='' @ show_int bt @ '': '' @ err_text e)), w2))
           | Err e \<Rightarrow> (Err e, w1)
           | Panic \<Rightarrow> (Panic, w1))"

definition writeData :: "'w s7_ops \<Rightarrow> tag \<Rightarrow> s7_location \<Rightarrow> goval \<Rightarrow> 'w s7_state \<Rightarrow> unit res \<times> 'w s7_state" where
  "writeData ops t loc value st = (case st of (c, w) \<Rightarrow> case loc of (area, db, off, bt) \<Rightarrow>
     if \<not> sl_has_client c then (Err ErrConnectionClosed, st)
     else if DataType t = DataTypeBool then
       (case writeBoolWithRMW ops t loc value w of (r, w1) \<Rightarrow> (r, (c, w1)))
     else case s7_valueToBytes (so_arch ops w) value t bt of
       Panic \<Rightarrow> (Panic, st)
     | Err e \<Rightarrow> (Err e, st)
     | Ok buffer \<Rightarrow>
         (case area_write ops area db off buffer w of
            (None, w1) \<Rightarrow> (Ok (), (c, w1))
          | (Some e, w1) \<Rightarrow> (Err (s7_location_error ErrS7WriteFailed area db off e), (c, w1))))"

definition s7_write_failed :: "'w s7_ops \<Rightarrow> tag \<Rightarrow> err \<Rightarrow> 'w s7_state \<Rightarrow> unit res \<times> 'w s7_state" where
  "s7_write_failed ops t e st = (Err e, s7_map (s7_failed t e) ops st)"

definition s7_WriteTag_body :: "'w s7_ops \<Rightarrow> tag \<Rightarrow> goval \<Rightarrow> 'w s7_state \<Rightarrow> unit res \<times> 'w s7_state" where
  "s7_WriteTag_body ops t value st =
     (let reject = (\<lambda>e. (Err e, s7_map (\<lambda>now. s7_recordTagError now (tag_ID t) e) ops st)) in
      if \<not> sl_connected (fst st) then reject ErrConnectionClosed
      else if \<not> isTagWritable t then reject (Wrap ErrTagNotWritable ('': tag '' @ tag_ID t))
      else case parseTagAddress t of
        Panic \<Rightarrow> (Panic, st)
      | Err e \<Rightarrow> s7_write_failed ops t e st
      | Ok loc \<Rightarrow>
          (case run_retries (s7_hooks ops (writeData ops t loc value)) (sc_MaxRetries (sl_config (fst st))) st of
             (Succeeded u, st1) \<Rightarrow> (Ok (), s7_map (s7_succeeded t s7_count_write) ops st1)
           | (NotTried, st1) \<Rightarrow> (Ok (), s7_map (s7_succeeded t s7_count_write) ops st1)
           | (Cancelled e, st1) \<Rightarrow> (Err e, s7_map (\<lambda>now. s7_recordTagError now (tag_ID t) e) ops st1)
           | (Fatal e, st1) \<Rightarrow> s7_write_failed ops t e st1
           | (Exhausted e, st1) \<Rightarrow> s7_write_failed ops t e st1
           | (Crashed, st1) \<Rightarrow> (Panic, st1)))"

definition s7_WriteTag :: "'w s7_ops \<Rightarrow> tag \<Rightarrow> goval \<Rightarrow> 'w s7_state \<Rightarrow> unit res \<times> 'w s7_state" where
  "s7_WriteTag ops t value st = (let start = so_now ops (snd st) in
     case s7_WriteTag_body ops t value (s7_touch ops st) of (r, st1) \<Rightarrow>
       (r, s7_map (\<lambda>now. s7_upd (\<lambda>s. s\<lparr>ss_TotalWriteTime := ss_TotalWriteTime s + time_sub now start\<rparr>)) ops st1))"

section \<open>Batched writing\<close>

text \<open>Writes with their index in the request; the results are a list of errors by that index.\<close>

type_synonym indexed_write = "nat \<times> tag \<times> goval"

definition s7_write_item :: "arch \<Rightarrow> tag \<Rightarrow> goval \<Rightarrow> s7_item res" where
  "s7_write_item ar t v = (case parseTagAddress t of
       Panic \<Rightarrow> Panic
     | Err e \<Rightarrow> Err (WrapPre (''failed to parse address for tag '' @ tag_ID t @ '': '') e)
     | Ok (area, db, off, bt) \<Rightarrow>
         (case S7AreaCode area of
            None \<Rightarrow> Err (invalid_area area ('' for tag '' @ tag_ID t))
          | Some code \<Rightarrow>
              (case s7_valueToBytes ar v t bt of
                 Panic \<Rightarrow> Panic
               | Err e \<Rightarrow> Err (WrapPre (''failed to convert value for tag '' @ tag_ID t @ '': '') e)
               | Ok buffer \<Rightarrow> Ok \<lparr>it_Area = code, it_WordLen = getWordLength (DataType t), it_DBNumber = db,
                   it_Start = off, it_Bit = bt, it_Amount = int (length buffer), it_Data = buffer, it_Error = []\<rparr>)))"

text \<open>The items of the valid writes with their writes, and the errors of the others.\<close>

fun prepare_writes ::
  "arch \<Rightarrow> indexed_write list \<Rightarrow> err option list \<Rightarrow> ((indexed_write \<times> s7_item) list \<times> err option list) res" where
  "prepare_writes ar [] errs = Ok ([], errs)"
| "prepare_writes ar ((i, t, v) # ws) errs = (case s7_write_item ar t v of
       Panic \<Rightarrow> Panic
     | Err e \<Rightarrow> prepare_writes ar ws (errs[i := Some e])
     | Ok it \<Rightarrow> bind_outcome (prepare_writes ar ws errs) (\<lambda>(its, es). Ok (((i, t, v), it) # its, es)))"

definition set_all :: "indexed_write list \<Rightarrow> err \<Rightarrow> err option list \<Rightarrow> err option list" where
  "set_all ws e errs = foldl (\<lambda>es w. es[fst w := Some e]) errs ws"

fun settle_writes ::
  "time \<Rightarrow> (indexed_write \<times> s7_item) list \<Rightarrow> err option list \<times> s7_client \<Rightarrow> err option list \<times> s7_client" where
  "settle_writes now [] ec = ec"
| "settle_writes now (((i, t, v), item) # ws) (errs, c) =
     (if it_Error item \<noteq> [] then
        (let e = Wrap ErrS7WriteFailed ('': '' @ it_Error item)
         in settle_writes now ws (errs[i := Some e], s7_recordTagError now (tag_ID t) e (s7_count_error c)))
      else settle_writes now ws
        (errs, s7_recordTagSuccess now (tag_ID t) (s7_reset_failures (s7_count_write c))))"

definition writeTagBatch ::
  "'w s7_ops \<Rightarrow> indexed_write list \<Rightarrow> err option list \<Rightarrow> 'w s7_state \<Rightarrow> err option list res \<times> 'w s7_state" where
  "writeTagBatch ops ws errs st = (case st of (c, w) \<Rightarrow>
     case prepare_writes (so_arch ops w) ws errs of
       Panic \<Rightarrow> (Panic, st)
     | Err e \<Rightarrow> (Err e, st)
     | Ok (its, errs1) \<Rightarrow>
         if its = [] then (Ok errs1, st)
         else if \<not> sl_has_client c then (Ok (set_all (map fst its) ErrConnectionClosed errs1), st)
         else
           let start = so_now ops w in
           case AGWriteMulti ops (map snd its) w of ((r, items1), w1) \<Rightarrow>
             (let now = so_now ops w1;
                  c1 = s7_upd (\<lambda>s. s\<lparr>ss_TotalWriteTime := ss_TotalWriteTime s + time_sub now start\<rparr>) c
              in case r of
                   Some e \<Rightarrow>
                     (Ok (set_all (map fst its) (Wrap ErrS7WriteFailed ('': AGWriteMulti failed: '' @ err_text e)) errs1),
                      (((s7_count_error ^^ length its) c1), w1))
                 | None \<Rightarrow>
                     (case settle_writes now (zip (map fst its) items1) (errs1, c1) of
                        (es, c2) \<Rightarrow> (Ok es, (c2, w1)))))"

function write_chunks ::
  "'w s7_ops \<Rightarrow> indexed_write list \<Rightarrow> indexed_write list \<Rightarrow> err option list \<Rightarrow> 'w s7_state
     \<Rightarrow> (err option list \<times> bool) res \<times> 'w s7_state" where
  "write_chunks ops ws bools errs st =
     (if ws = [] then (Ok (errs, True), st)
      else case so_ctx ops (snd st) of
        Some e \<Rightarrow> (Ok (foldl (\<lambda>es w. if es ! fst w = None then es[fst w := Some e] else es) (set_all ws e errs) bools,
                     False), st)
      | None \<Rightarrow>
          (case writeTagBatch ops (take 20 ws) errs st of
             (Ok es, st1) \<Rightarrow> write_chunks ops (drop 20 ws) bools es st1
           | (Err e, st1) \<Rightarrow> (Err e, st1)
           | (Panic, st1) \<Rightarrow> (Panic, st1)))"
  by pat_completeness auto
termination
  by (relation "measure (\<lambda>(ops, ws, bools, errs, st). length ws)") auto

declare write_chunks.simps [simp del]

fun write_bools ::
  "'w s7_ops \<Rightarrow> indexed_write list \<Rightarrow> err option list \<Rightarrow> 'w s7_state \<Rightarrow> err option list res \<times> 'w s7_state" where
  "write_bools ops [] errs st = (Ok errs, st)"
| "write_bools ops ((i, t, v) # ws) errs st = (case so_ctx ops (snd st) of
       Some e \<Rightarrow> write_bools ops ws (errs[i := Some e]) st
     | None \<Rightarrow>
         (case s7_WriteTag ops t v st of
            (Ok _, st1) \<Rightarrow> write_bools ops ws (errs[i := None]) st1
          | (Err e, st1) \<Rightarrow> write_bools ops ws (errs[i := Some e]) st1
          | (Panic, st1) \<Rightarrow> (Panic, st1)))"

definition batchable_writes :: "(tag \<times> goval) list \<Rightarrow> indexed_write list" where
  "batchable_writes writes =
     filter (\<lambda>(i, t, v). isTagWritable t \<and> DataType t \<noteq> DataTypeBool) (enumerate 0 writes)"

definition bool_writes :: "(tag \<times> goval) list \<Rightarrow> indexed_write list" where
  "bool_writes writes =
     filter (\<lambda>(i, t, v). isTagWritable t \<and> DataType t = DataTypeBool) (enumerate 0 writes)"

definition initial_errors :: "(tag \<times> goval) list \<Rightarrow> err option list" where
  "initial_errors writes = map (\<lambda>(t, v). if isTagWritable t then None
     else Some (Wrap ErrTagNotWritable ('': tag '' @ tag_ID t))) writes"

definition s7_WriteTags ::
  "'w s7_ops \<Rightarrow> (tag \<times> goval) list \<Rightarrow> 'w s7_state \<Rightarrow> err option list res \<times> 'w s7_state" where
  "s7_WriteTags ops writes st0 =
     (if writes = [] then (Ok [], st0)
      else let st = s7_touch ops st0 in
        if \<not> sl_connected (fst st) then (Ok (replicate (length writes) (Some ErrConnectionClosed)), st)
        else case write_chunks ops (batchable_writes writes) (bool_writes writes) (initial_errors writes) st of
          (Ok (errs, True), st1) \<Rightarrow> write_bools ops (bool_writes writes) errs st1
        | (Ok (errs, False), st1) \<Rightarrow> (Ok errs, st1)
        | (Err e, st1) \<Rightarrow> (Err e, st1)
        | (Panic, st1) \<Rightarrow> (Panic, st1))"

section \<open>Statistics\<close>

definition s7_GetStats :: "s7_client \<Rightarrow> (string \<times> int) list" where
  "s7_GetStats c = (let s = sl_stats c in
     [(''read_count'', int (ss_ReadCount s)), (''write_count'', int (ss_WriteCount s)),
      (''error_count'', int (ss_ErrorCount s)), (''retry_count'', int (ss_RetryCount s)),
      (''reconnect_count'', int (ss_ReconnectCount s)), (''total_read_ns'', ss_TotalReadTime s mod 2 ^ 64),
      (''total_write_ns'', ss_TotalWriteTime s mod 2 ^ 64)])"

end
