(* ===== verification/S7_Memory.thy ===== *)
theory S7_Memory
  imports S7_Client
begin

text \<open>
  What the S7 client guarantees: the bound of its retries by the contract of the retry loop, and
  its reads and writes on a PLC whose data blocks are memory, the documented behaviour of the
  gos7 calls.
\<close>

section \<open>The retry loop of the client\<close>

lemma s7_stats_frame [simp]:
  "sl_config (s7_count_error c) = sl_config c" "sl_config (s7_count_read c) = sl_config c"
  "sl_config (s7_count_write c) = sl_config c" "sl_config (s7_add_failure c) = sl_config c"
  "sl_config (s7_reset_failures c) = sl_config c" "sl_stats (s7_add_failure c) = sl_stats c"
  "sl_stats (s7_reset_failures c) = sl_stats c"
  "ss_RetryCount (sl_stats (s7_count_error c)) = ss_RetryCount (sl_stats c)"
  "ss_RetryCount (sl_stats (s7_count_read c)) = ss_RetryCount (sl_stats c)"
  "ss_RetryCount (sl_stats (s7_count_write c)) = ss_RetryCount (sl_stats c)"
  by (simp_all add: s7_count_error_def s7_count_read_def s7_count_write_def s7_add_failure_def s7_reset_failures_def)

lemma s7_diag_frame [simp]:
  "sl_stats (s7_recordTagError now i e c) = sl_stats c" "sl_stats (s7_recordTagSuccess now i c) = sl_stats c"
  "sl_config (s7_recordTagError now i e c) = sl_config c" "sl_config (s7_recordTagSuccess now i c) = sl_config c"
  by (simp_all add: s7_recordTagError_def s7_recordTagSuccess_def Let_def)

lemma s7_flags_frame [simp]:
  "sl_connected (s7_count_error c) = sl_connected c" "sl_has_client (s7_count_error c) = sl_has_client c"
  "sl_connected (s7_count_read c) = sl_connected c" "sl_has_client (s7_count_read c) = sl_has_client c"
  "sl_connected (s7_count_write c) = sl_connected c" "sl_has_client (s7_count_write c) = sl_has_client c"
  "sl_connected (s7_reset_failures c) = sl_connected c" "sl_has_client (s7_reset_failures c) = sl_has_client c"
  "sl_connected (s7_recordTagError now i e c) = sl_connected c"
  "sl_has_client (s7_recordTagError now i e c) = sl_has_client c"
  "sl_connected (s7_recordTagSuccess now i c) = sl_connected c"
  "sl_has_client (s7_recordTagSuccess now i c) = sl_has_client c"
  by (simp_all add: s7_count_error_def s7_count_read_def s7_count_write_def s7_reset_failures_def
      s7_recordTagError_def s7_recordTagSuccess_def Let_def)

definition s7_retry_count :: "'w s7_state \<Rightarrow> nat" where
  "s7_retry_count st = ss_RetryCount (sl_stats (fst st))"

definition s7_config_of :: "'w s7_state \<Rightarrow> s7_config" where
  "s7_config_of st = sl_config (fst st)"

lemma s7_Connect_frame [simp]:
  "sl_stats (fst (snd (s7_Connect ops st))) = sl_stats (fst st)"
  "sl_config (fst (snd (s7_Connect ops st))) = sl_config (fst st)"
  by (auto simp: s7_Connect_def split: prod.splits connect_race.splits option.splits)

lemma s7_Disconnect_frame [simp]:
  "sl_stats (fst (s7_Disconnect ops st)) = sl_stats (fst st)"
  "sl_config (fst (s7_Disconnect ops st)) = sl_config (fst st)"
  by (auto simp: s7_Disconnect_def split: prod.splits)

lemma s7_reconnect_keeps:
  "s7_retry_count (s7_reconnect ops st) = s7_retry_count st \<and> s7_config_of (s7_reconnect ops st) = s7_config_of st"
  by (simp add: s7_reconnect_def split_beta Let_def s7_retry_count_def s7_config_of_def)

lemma readData_keeps:
  "readData ops t loc s = (r, s') \<Longrightarrow> s7_retry_count s' = s7_retry_count s \<and> s7_config_of s' = s7_config_of s"
  by (auto simp: readData_def s7_retry_count_def s7_config_of_def split: prod.splits if_splits sum.splits)

lemma writeData_keeps:
  "writeData ops t loc v s = (r, s') \<Longrightarrow> s7_retry_count s' = s7_retry_count s \<and> s7_config_of s' = s7_config_of s"
  by (auto simp: writeData_def s7_retry_count_def s7_config_of_def
      split: prod.splits if_splits outcome.splits option.splits)

lemma s7_backoff_counts:
  "s7_backoff_step k s = (r, s') \<Longrightarrow> s7_retry_count s' = Suc (s7_retry_count s) \<and> s7_config_of s' = s7_config_of s"
  by (auto simp: s7_backoff_step_def s7_retry_count_def s7_config_of_def split: prod.splits)

lemma s7_wait_keeps:
  "s7_wait_step ops d s = (r, s') \<Longrightarrow> s7_retry_count s' = s7_retry_count s \<and> s7_config_of s' = s7_config_of s"
  by (auto simp: s7_wait_step_def s7_retry_count_def s7_config_of_def split: prod.splits)

interpretation s7_reading: retry_client "s7_hooks ops (readData ops t loc)" s7_retry_count s7_config_of for ops t loc
  by unfold_locales
    (auto simp: s7_hooks_def s7_reconnect_keeps dest: s7_backoff_counts s7_wait_keeps readData_keeps)

interpretation s7_writing: retry_client "s7_hooks ops (writeData ops t loc v)" s7_retry_count s7_config_of
  for ops t loc v
  by unfold_locales
    (auto simp: s7_hooks_def s7_reconnect_keeps dest: s7_backoff_counts s7_wait_keeps writeData_keeps)

lemma s7_map_retries:
  assumes "\<And>now c. ss_RetryCount (sl_stats (f now c)) = ss_RetryCount (sl_stats c)"
    and "\<And>now c. sl_config (f now c) = sl_config c"
  shows "s7_retry_count (s7_map f ops st) = s7_retry_count st" "s7_config_of (s7_map f ops st) = s7_config_of st"
  using assms by (simp_all add: s7_map_def s7_retry_count_def s7_config_of_def)

lemma s7_failed_frame [simp]:
  "ss_RetryCount (sl_stats (s7_failed t e now c)) = ss_RetryCount (sl_stats c)"
  "sl_config (s7_failed t e now c) = sl_config c"
  by (simp_all add: s7_failed_def)

lemma s7_succeeded_frame [simp]:
  "ss_RetryCount (sl_stats (s7_succeeded t s7_count_read now c)) = ss_RetryCount (sl_stats c)"
  "ss_RetryCount (sl_stats (s7_succeeded t s7_count_write now c)) = ss_RetryCount (sl_stats c)"
  "sl_config (s7_succeeded t s7_count_read now c) = sl_config c"
  "sl_config (s7_succeeded t s7_count_write now c) = sl_config c"
  by (simp_all add: s7_succeeded_def)

lemma s7_touch_frame [simp]:
  "s7_retry_count (s7_touch ops st) = s7_retry_count st" "sl_config (fst (s7_touch ops st)) = sl_config (fst st)"
  by (simp_all add: s7_touch_def s7_map_def s7_retry_count_def)

lemma s7_ReadTag_body_retries:
  "s7_retry_count (snd (s7_ReadTag_body ops t st)) \<le> s7_retry_count st + nat (sc_MaxRetries (sl_config (fst st)))"
proof -
  have "s7_retry_count (snd (s7_ReadTag_body ops t st)) \<le> s7_retry_count st + nat (sc_MaxRetries (sl_config (fst st)))"
    if p: "parseTagAddress t = Ok loc" "sl_connected (fst st)" for loc
  proof -
    obtain r st1 where r: "run_retries (s7_hooks ops (readData ops t loc)) (sc_MaxRetries (sl_config (fst st))) st = (r, st1)"
      by (cases "run_retries (s7_hooks ops (readData ops t loc)) (sc_MaxRetries (sl_config (fst st))) st")
    show ?thesis using s7_reading.run_bound(1) [OF r] p
      by (simp add: s7_ReadTag_body_def r s7_read_failed_def Let_def s7_map_retries split: retry_end.split)
  qed
  moreover have "s7_retry_count (snd (s7_ReadTag_body ops t st)) = s7_retry_count st"
    if "\<not> (\<exists>loc. parseTagAddress t = Ok loc) \<or> \<not> sl_connected (fst st)"
    using that by (auto simp: s7_ReadTag_body_def s7_read_failed_def Let_def s7_map_retries split: outcome.split)
  ultimately show ?thesis by (metis le_add1)
qed

lemma s7_WriteTag_body_retries:
  "s7_retry_count (snd (s7_WriteTag_body ops t v st)) \<le> s7_retry_count st + nat (sc_MaxRetries (sl_config (fst st)))"
proof -
  have "s7_retry_count (snd (s7_WriteTag_body ops t v st)) \<le> s7_retry_count st + nat (sc_MaxRetries (sl_config (fst st)))"
    if p: "parseTagAddress t = Ok loc" "sl_connected (fst st)" "isTagWritable t" for loc
  proof -
    obtain r st1 where r: "run_retries (s7_hooks ops (writeData ops t loc v)) (sc_MaxRetries (sl_config (fst st))) st = (r, st1)"
      by (cases "run_retries (s7_hooks ops (writeData ops t loc v)) (sc_MaxRetries (sl_config (fst st))) st")
    show ?thesis using s7_writing.run_bound(1) [OF r] p
      by (simp add: s7_WriteTag_body_def r s7_write_failed_def Let_def s7_map_retries split: retry_end.split)
  qed
  moreover have "s7_retry_count (snd (s7_WriteTag_body ops t v st)) = s7_retry_count st"
    if "\<not> (\<exists>loc. parseTagAddress t = Ok loc) \<or> \<not> sl_connected (fst st) \<or> \<not> isTagWritable t"
    using that by (auto simp: s7_WriteTag_body_def s7_write_failed_def Let_def s7_map_retries split: outcome.split)
  ultimately show ?thesis by (metis le_add1)
qed

lemma s7_timed_retries:
  "s7_retry_count (snd (s7_ReadTag ops t st)) = s7_retry_count (snd (s7_ReadTag_body ops t (s7_touch ops st)))"
  "s7_retry_count (snd (s7_WriteTag ops t v st)) = s7_retry_count (snd (s7_WriteTag_body ops t v (s7_touch ops st)))"
  by (simp_all add: s7_ReadTag_def s7_WriteTag_def Let_def split_beta s7_map_retries)

text \<open>
  A read and a write of an S7 tag retry at most \<open>MaxRetries\<close> times, whatever the PLC, the
  context and the clock do.
\<close>

theorem s7_retries_bounded:
  "s7_retry_count (snd (s7_ReadTag ops t st)) \<le> s7_retry_count st + nat (sc_MaxRetries (sl_config (fst st)))
   \<and> s7_retry_count (snd (s7_WriteTag ops t v st)) \<le> s7_retry_count st + nat (sc_MaxRetries (sl_config (fst st)))"
  using s7_ReadTag_body_retries [of ops t "s7_touch ops st"] s7_WriteTag_body_retries [of ops t v "s7_touch ops st"]
  by (simp add: s7_timed_retries)

section \<open>Data blocks as memory\<close>

text \<open>
  The documented behaviour of the gos7 calls on a PLC whose memory is \<open>mem w area block offset\<close>: the
  reads return it and leave the world alone, a write stores its buffer and nothing else.
\<close>

type_synonym plc_cells = "int \<Rightarrow> int \<Rightarrow> int \<Rightarrow> byte"

definition bytes_at :: "(int \<Rightarrow> byte) \<Rightarrow> int \<Rightarrow> int \<Rightarrow> bytes" where
  "bytes_at cells off n = map (\<lambda>i. cells (off + int i)) [0..<nat n]"

definition store_at :: "(int \<Rightarrow> byte) \<Rightarrow> int \<Rightarrow> bytes \<Rightarrow> int \<Rightarrow> byte" where
  "store_at cells off buf = (\<lambda>i. if off \<le> i \<and> i < off + int (length buf) then buf ! nat (i - off) else cells i)"

definition store_block :: "plc_cells \<Rightarrow> int \<Rightarrow> int \<Rightarrow> bytes \<Rightarrow> plc_cells" where
  "store_block mem n off buf = mem(0x84 := (mem 0x84)(n := store_at (mem 0x84 n) off buf))"

definition plc_memory :: "'w s7_ops \<Rightarrow> ('w \<Rightarrow> plc_cells) \<Rightarrow> bool" where
  "plc_memory ops mem \<longleftrightarrow>
     (\<forall>n off k w. AGReadDB ops n off k w = (Inr (bytes_at (mem w 0x84 n) off k), w))
   \<and> (\<forall>n off buf w. \<exists>w'. AGWriteDB ops n off (int (length buf)) buf w = (None, w')
        \<and> mem w' = store_block (mem w) n off buf)"

definition s7_ready :: "s7_client \<Rightarrow> bool" where
  "s7_ready c \<longleftrightarrow> sl_connected c \<and> sl_has_client c \<and> 0 \<le> sc_MaxRetries (sl_config c)"

lemma length_bytes_at [simp]: "length (bytes_at cells off n) = nat n"
  by (simp add: bytes_at_def)

lemma bytes_at_one: "bytes_at cells off 1 = [cells off]"
  by (simp add: bytes_at_def)

lemma bytes_at_store: "bytes_at (store_at cells off buf) off (int (length buf)) = buf"
  by (rule nth_equalityI) (simp_all add: bytes_at_def store_at_def)

lemma store_block_same [simp]: "store_block mem n off buf 0x84 n = store_at (mem 0x84 n) off buf"
  by (simp add: store_block_def)

lemma plc_memory_write:
  assumes "plc_memory ops mem"
  obtains w' where "AGWriteDB ops n off (int (length buf)) buf w = (None, w')" "mem w' = store_block (mem w) n off buf"
  using assms unfolding plc_memory_def by blast

section \<open>Requests that succeed at the first attempt\<close>

lemma s7_touch_ready: "s7_ready c \<Longrightarrow> \<exists>c'. s7_touch ops (c, w) = (c', w) \<and> s7_ready c'"
  by (simp add: s7_touch_def s7_map_def s7_ready_def)

lemma s7_WriteTag_first:
  assumes c: "s7_ready c" and t: "isTagWritable t" "parseTagAddress t = Ok loc"
    and op: "\<And>c'. s7_ready c' \<Longrightarrow> writeData ops t loc v (c', w) = (Ok (), (c', w'))"
  shows "\<exists>c'. s7_WriteTag ops t v (c, w) = (Ok (), (c', w')) \<and> s7_ready c'"
proof -
  obtain c1 where c1: "s7_touch ops (c, w) = (c1, w)" "s7_ready c1" using s7_touch_ready [OF c, of ops w] by blast
  have "run_retries (s7_hooks ops (writeData ops t loc v)) (sc_MaxRetries (sl_config c1)) (c1, w) = (Succeeded (), (c1, w'))"
    using c1(2) op [OF c1(2)] by (intro run_retries_first_ok) (simp_all add: s7_ready_def s7_hooks_def)
  then show ?thesis using c1 t
    by (simp add: s7_WriteTag_def s7_WriteTag_body_def s7_ready_def Let_def s7_map_def s7_succeeded_def)
qed

lemma s7_ReadTag_first:
  assumes c: "s7_ready c" and t: "parseTagAddress t = Ok loc"
    and op: "\<And>c'. s7_ready c' \<Longrightarrow> \<exists>now. readData ops t loc (c', w) = (Ok (s7_good_point now c' t v), (c', w'))"
  shows "\<exists>dp st. s7_ReadTag ops t (c, w) = (Ok (Some dp, None), st)
    \<and> dp_Value dp = s7_applyScaling v t \<and> dp_Quality dp = QualityGood"
proof -
  obtain c1 where c1: "s7_touch ops (c, w) = (c1, w)" "s7_ready c1" using s7_touch_ready [OF c, of ops w] by blast
  obtain now where now: "readData ops t loc (c1, w) = (Ok (s7_good_point now c1 t v), (c1, w'))"
    using op [OF c1(2)] by blast
  have "run_retries (s7_hooks ops (readData ops t loc)) (sc_MaxRetries (sl_config c1)) (c1, w)
      = (Succeeded (s7_good_point now c1 t v), (c1, w'))"
    using c1(2) now by (intro run_retries_first_ok) (simp_all add: s7_ready_def s7_hooks_def)
  then show ?thesis using c1 t
    by (auto simp: s7_ReadTag_def s7_ReadTag_body_def s7_ready_def Let_def s7_map_def s7_good_point_def
        WithRawValue_def AcquireDataPoint_def)
qed

section \<open>One data block tag\<close>

definition cell_with_bit :: "byte \<Rightarrow> int \<Rightarrow> bool \<Rightarrow> byte" where
  "cell_with_bit old bt b = set_bit_at old (push_bit (nat bt) 1) b"

lemma bit_cell_with_bit:
  "k < 8 \<Longrightarrow> 0 \<le> bt \<Longrightarrow> bit (cell_with_bit old bt b) k = (if int k = bt then b else bit old k)"
  by (auto simp: cell_with_bit_def set_bit_at_def bit_simps)

lemma writeData_bool:
  assumes m: "plc_memory ops mem" and t: "DataType t = DataTypeBool" "no_scaling t" and bt: "0 \<le> bt" "bt \<le> 7"
  shows "\<exists>w'. (\<forall>c. sl_has_client c \<longrightarrow> writeData ops t (S7AreaDB, db, off, bt) (VBool b) (c, w) = (Ok (), (c, w')))
     \<and> mem w' = store_block (mem w) db off [cell_with_bit (mem w 0x84 db off) bt b]"
proof -
  let ?new = "cell_with_bit (mem w 0x84 db off) bt b"
  obtain w' where w': "AGWriteDB ops db off (int (length [?new])) [?new] w = (None, w')"
      "mem w' = store_block (mem w) db off [?new]"
    using m by (rule plc_memory_write)
  have "s7_reverseScaling (VBool b) t = VBool b" using t(2) by (simp add: s7_reverseScaling_def)
  moreover have "AGReadDB ops db off 1 w = (Inr [mem w 0x84 db off], w)"
    using m by (simp add: plc_memory_def bytes_at_one)
  ultimately have "writeBoolWithRMW ops t (S7AreaDB, db, off, bt) (VBool b) w = (Ok (), w')"
    using w'(1) bt by (simp add: writeBoolWithRMW_def area_read_def area_write_def bit_mask_def cell_with_bit_def)
  then show ?thesis using w'(2) t(1) by (auto simp: writeData_def)
qed

lemma writeData_bytes:
  assumes m: "plc_memory ops mem" and t: "DataType t \<noteq> DataTypeBool"
    and v: "s7_valueToBytes (so_arch ops w) v t bt = Ok buf"
  shows "\<exists>w'. (\<forall>c. sl_has_client c \<longrightarrow> writeData ops t (S7AreaDB, db, off, bt) v (c, w) = (Ok (), (c, w')))
     \<and> mem w' = store_block (mem w) db off buf"
proof -
  obtain w' where "AGWriteDB ops db off (int (length buf)) buf w = (None, w')" "mem w' = store_block (mem w) db off buf"
    using m by (rule plc_memory_write)
  then show ?thesis using t v by (auto simp: writeData_def area_write_def)
qed

lemma readData_memory:
  assumes m: "plc_memory ops mem" and c: "sl_has_client c"
    and v: "s7_parseValue (bytes_at (mem w 0x84 db) off (int (getByteCount (DataType t)))) t bt = Ok v"
  shows "readData ops t (S7AreaDB, db, off, bt) (c, w) = (Ok (s7_good_point (so_now ops w) c t v), (c, w))"
  using assms by (simp add: readData_def S7AreaCode_def area_read_def plc_memory_def)

lemma s7_length:
  assumes "s7_valueToBytes ar v t bt = Ok buf" "typed_as (DataType t) w" "DataType t \<noteq> DataTypeBool"
  shows "length buf = getByteCount (DataType t)"
proof -
  have other: "\<not> (\<exists>s. DataType t = DataType_other s)" using assms(2) by (auto simp: typed_as_shapes)
  have "encode_actual ar v (s7_reverseScaling v t) t = Ok buf"
    using assms(1) s7_numeric(1) [OF assms(3) other] by simp
  from length_encode_actual [OF this] show ?thesis using getByteCount_registers [OF other assms(3)] by simp
qed

lemma bit_and_cell: "0 \<le> bt \<Longrightarrow> bt \<le> 7 \<Longrightarrow> (cell_with_bit old bt b AND push_bit (nat bt) 1 = 0) = (\<not> b)"
proof -
  assume bt: "0 \<le> bt" "bt \<le> 7"
  have "bit (cell_with_bit old bt b AND push_bit (nat bt) 1) k = (b \<and> int k = bt)" if "k < 8" for k
    using that bt by (auto simp: bit_cell_with_bit bit_simps)
  then have "bit (cell_with_bit old bt b AND push_bit (nat bt) 1) (nat bt) = b"
    and "\<not> b \<Longrightarrow> cell_with_bit old bt b AND push_bit (nat bt) 1 = 0"
    using bt by (auto intro!: bit_word_eqI)
  then show ?thesis by (metis bit_0_eq bot_apply bot_bool_def)
qed

lemma written_is_read:
  assumes m: "plc_memory ops mem" and bt: "0 \<le> bt" "bt \<le> 7" and t: "no_scaling t" and v: "typed_as (DataType t) v"
  shows "\<exists>w'. (\<forall>c. sl_has_client c \<longrightarrow> writeData ops t (S7AreaDB, db, off, bt) v (c, w) = (Ok (), (c, w')))
     \<and> s7_parseValue (bytes_at (mem w' 0x84 db) off (int (getByteCount (DataType t)))) t bt = Ok v"
proof (cases "DataType t = DataTypeBool")
  case True
  then obtain b where b: "v = VBool b" using v by (auto simp: typed_as_shapes)
  obtain w' where w': "\<forall>c. sl_has_client c \<longrightarrow> writeData ops t (S7AreaDB, db, off, bt) v (c, w) = (Ok (), (c, w'))"
    "mem w' = store_block (mem w) db off [cell_with_bit (mem w 0x84 db off) bt b]"
    using writeData_bool [OF m True t bt] b by blast
  have "bytes_at (mem w' 0x84 db) off (int (getByteCount (DataType t))) = [cell_with_bit (mem w 0x84 db off) bt b]"
    using bytes_at_store [of "mem w 0x84 db" off "[cell_with_bit (mem w 0x84 db off) bt b]"] True
    by (simp add: w'(2) getByteCount_def)
  then have "s7_parseValue (bytes_at (mem w' 0x84 db) off (int (getByteCount (DataType t)))) t bt = Ok v"
    using True bt b bit_and_cell [OF bt] by (simp add: s7_parseValue_def bit_mask_def)
  then show ?thesis using w'(1) by blast
next
  case False
  obtain buf where buf: "s7_valueToBytes (so_arch ops w) v t bt = Ok buf" "s7_parseValue buf t bt = Ok v"
    using s7_roundtrip [OF t v bt] by blast
  obtain w' where w': "\<forall>c. sl_has_client c \<longrightarrow> writeData ops t (S7AreaDB, db, off, bt) v (c, w) = (Ok (), (c, w'))"
    "mem w' = store_block (mem w) db off buf"
    using writeData_bytes [OF m False buf(1)] by blast
  have "length buf = getByteCount (DataType t)" using s7_length [OF buf(1) v False] .
  then show ?thesis using w' buf(2) bytes_at_store [of "mem w 0x84 db" off buf] by auto
qed

section \<open>A concrete client and a concrete PLC\<close>

definition open_s7 :: s7_client where
  "open_s7 = \<lparr>sl_config = \<lparr>sc_Address = ''plc'', sc_Port = 102, sc_Rack = 0, sc_Slot = 1, sc_Timeout = second,
       sc_IdleTimeout = second, sc_MaxRetries = 3, sc_RetryDelay = 500 * millisecond, sc_PDUSize = 480\<rparr>,
     sl_handler = True, sl_has_client = True, sl_connected = True, sl_lastError = None, sl_lastUsed = 0,
     sl_stats = zero_s7_stats, sl_deviceID = ''plc'', sl_consecutiveFailures = 0, sl_tagDiagnostics = Map.empty\<rparr>"

definition memory_plc :: "plc_cells s7_ops" where
  "memory_plc = \<lparr>so_now = (\<lambda>w. 0), so_wait = (\<lambda>d w. (None, w)), so_ctx = (\<lambda>w. None),
     so_connect = (\<lambda>w. (ConnectDone None, w)), so_close = (\<lambda>w. w),
     AGReadDB = (\<lambda>n off k w. (Inr (bytes_at (w 0x84 n) off k), w)),
     AGReadEB = (\<lambda>off k w. (Inr (bytes_at (w 0x81 0) off k), w)),
     AGWriteDB = (\<lambda>n off k buf w. (None, store_block w n off buf)),
     AGWriteEB = (\<lambda>off k buf w. (None, w(0x81 := (w 0x81)(0 := store_at (w 0x81 0) off buf)))),
     AGReadMulti = (\<lambda>items w. ((None, map (\<lambda>it. it\<lparr>it_Data :=
        bytes_at (w (it_Area it) (it_DBNumber it)) (it_Start it) (it_Amount it)\<rparr>) items), w)),
     AGWriteMulti = (\<lambda>items w. ((None, items), w)),
     so_arch = (\<lambda>w. \<lparr>oob_i64 = (\<lambda>x. 0), oob_u64 = (\<lambda>x. 0)\<rparr>)\<rparr>"

definition s7_tag :: "data_type \<Rightarrow> s7_area \<Rightarrow> int \<Rightarrow> int \<Rightarrow> tag" where
  "s7_tag dt area off bt = int_tag\<lparr>DataType := dt, S7Area := area, S7DBNumber := 1, S7Offset := off, S7BitOffset := bt\<rparr>"

lemma open_s7_ready [simp]: "s7_ready open_s7"
  by (simp add: s7_ready_def open_s7_def)

lemma memory_plc_memory [simp]: "plc_memory memory_plc (\<lambda>w. w)"
  by (simp add: plc_memory_def memory_plc_def)

lemma s7_tag_facts [simp]:
  "parseTagAddress (s7_tag dt S7AreaDB off bt) = Ok (S7AreaDB, 1, off, bt)"
  "parseTagAddress (s7_tag dt S7AreaM off bt) = Ok (S7AreaM, 1, off, bt)"
  "DataType (s7_tag dt area off bt) = dt" "no_scaling (s7_tag dt area off bt)"
  "isTagWritable (s7_tag dt S7AreaDB off bt)"
  by (simp_all add: s7_tag_def parseTagAddress_def isTagWritable_def tag_area_def int_tag_def raw_tag_def zero_tag_def
      no_scaling_def f64_eq_def f64_dec_def fp_decode_def decode_mag_def float_consts signed_mag_def)

section \<open>Properties of single requests\<close>

text \<open>
  Writing a boolean to a data block tag sets exactly its bit: the read-modify-write leaves every
  other bit of the byte and every other byte of the PLC as they were.
\<close>

theorem boolean_write_sets_one_bit:
  assumes "plc_memory ops mem" and "s7_ready c" and "isTagWritable t"
    and "parseTagAddress t = Ok (S7AreaDB, db, off, bt)" and "0 \<le> bt" and "bt \<le> 7"
    and "DataType t = DataTypeBool" and "no_scaling t"
  shows "\<exists>c' w'. s7_WriteTag ops t (VBool b) (c, w) = (Ok (), (c', w'))
    \<and> (\<forall>area block i k. k < 8 \<longrightarrow> bit (mem w' area block i) k =
         (if area = 0x84 \<and> block = db \<and> i = off \<and> int k = bt then b else bit (mem w area block i) k))"
proof -
  obtain w' where w': "\<And>c. sl_has_client c \<Longrightarrow> writeData ops t (S7AreaDB, db, off, bt) (VBool b) (c, w) = (Ok (), (c, w'))"
    "mem w' = store_block (mem w) db off [cell_with_bit (mem w 0x84 db off) bt b]"
    using writeData_bool [OF assms(1,7,8,5,6)] by blast
  have "bit (mem w' area block i) k =
      (if area = 0x84 \<and> block = db \<and> i = off \<and> int k = bt then b else bit (mem w area block i) k)"
    if "k < 8" for area block i k
    using that assms(5) by (auto simp: w'(2) store_block_def store_at_def bit_cell_with_bit)
  moreover have "\<exists>c'. s7_WriteTag ops t (VBool b) (c, w) = (Ok (), (c', w')) \<and> s7_ready c'"
    using assms(2-4) w'(1) by (intro s7_WriteTag_first) (auto simp: s7_ready_def)
  ultimately show ?thesis by blast
qed

theorem boolean_write_sets_one_bit_witness:
  "\<exists>c' w'. s7_WriteTag memory_plc (s7_tag DataTypeBool S7AreaDB 5 2) (VBool True) (open_s7, \<lambda>a n i. 0xF0) = (Ok (), (c', w'))
    \<and> (\<forall>area block i k. k < 8 \<longrightarrow> bit (w' area block i :: byte) k =
         (if area = 0x84 \<and> block = 1 \<and> i = 5 \<and> int k = 2 then True else bit (0xF0 :: byte) k))"
  by (rule boolean_write_sets_one_bit [where mem = "\<lambda>w. w"]) simp_all

text \<open>
  C5: On a PLC whose data blocks are memory, a connected client (its retry limit not negative) writes a
  value of a tag's own Go type and then reads the same value back with good quality: booleans through the
  read-modify-write, the others through their encoding.  The tag is writable, its address parses to
  an offset in a data block with a bit position of 0 to 7, and it has no scaling (factor 1,
  offset 0).
\<close>

theorem s7_write_read_back:
  assumes "plc_memory ops mem" and "s7_ready c" and "isTagWritable t"
    and "parseTagAddress t = Ok (S7AreaDB, db, off, bt)" and "0 \<le> bt" and "bt \<le> 7"
    and "no_scaling t" and "typed_as (DataType t) v"
  shows "\<exists>st1 dp st2. s7_WriteTag ops t v (c, w) = (Ok (), st1) \<and> s7_ReadTag ops t st1 = (Ok (Some dp, None), st2)
    \<and> dp_Value dp = v \<and> dp_Quality dp = QualityGood"
proof -
  have "\<exists>w'. (\<forall>c. sl_has_client c \<longrightarrow> writeData ops t (S7AreaDB, db, off, bt) v (c, w) = (Ok (), (c, w')))
     \<and> s7_parseValue (bytes_at (mem w' 0x84 db) off (int (getByteCount (DataType t)))) t bt = Ok v"
    using assms(1,5-8) by (rule written_is_read)
  then obtain w' where w': "\<And>c. sl_has_client c \<Longrightarrow> writeData ops t (S7AreaDB, db, off, bt) v (c, w) = (Ok (), (c, w'))"
    "s7_parseValue (bytes_at (mem w' 0x84 db) off (int (getByteCount (DataType t)))) t bt = Ok v" by blast
  obtain c' where c': "s7_WriteTag ops t v (c, w) = (Ok (), (c', w'))" "s7_ready c'"
    using s7_WriteTag_first [OF assms(2-4), of ops v w w'] w'(1) by (auto simp: s7_ready_def)
  have "\<exists>dp st. s7_ReadTag ops t (c', w') = (Ok (Some dp, None), st)
      \<and> dp_Value dp = s7_applyScaling v t \<and> dp_Quality dp = QualityGood"
    using c'(2) assms(4) readData_memory [OF assms(1) _ w'(2)]
    by (intro s7_ReadTag_first) (auto simp: s7_ready_def)
  moreover have "s7_applyScaling v t = v" using assms(7) by (simp add: s7_applyScaling_def)
  ultimately show ?thesis using c'(1) by auto
qed

theorem s7_write_read_back_witness:
  "\<exists>st1 dp st2. s7_WriteTag memory_plc (s7_tag DataTypeInt32 S7AreaDB 8 0) (VInt32 (-7)) (open_s7, \<lambda>a n i. 0) = (Ok (), st1)
    \<and> s7_ReadTag memory_plc (s7_tag DataTypeInt32 S7AreaDB 8 0) st1 = (Ok (Some dp, None), st2)
    \<and> dp_Value dp = VInt32 (-7) \<and> dp_Quality dp = QualityGood"
  by (rule s7_write_read_back [where mem = "\<lambda>w. w" and bt = 0]) (simp_all add: typed_as_shapes)

text \<open>
  Outside the data blocks a single read does not depend on the tag's area: a merker, output,
  timer or counter tag returns the input byte at the same offset, because every such request goes
  to the input area.
\<close>

theorem other_areas_read_inputs:
  assumes "sl_has_client c" and "area \<in> {S7AreaM, S7AreaQ, S7AreaT, S7AreaC}"
    and "AGReadEB ops off (int (getByteCount (DataType t))) w = (Inr buf, w1)"
  shows "readData ops t (area, db, off, bt) (c, w) = readData ops t (S7AreaI, db, off, bt) (c, w)"
  using assms by (auto simp: readData_def S7AreaCode_def area_read_def)

theorem other_areas_read_inputs_witness:
  "readData memory_plc (s7_tag DataTypeInt16 S7AreaM 4 0) (S7AreaM, 0, 4, 0) (open_s7, \<lambda>a n i. word_of_int a)
   = readData memory_plc (s7_tag DataTypeInt16 S7AreaM 4 0) (S7AreaI, 0, 4, 0) (open_s7, \<lambda>a n i. word_of_int a)"
  by (rule other_areas_read_inputs) (simp_all add: open_s7_def memory_plc_def)

end
