(* ===== verification/S7_Pool.thy ===== *)
theory S7_Pool
  imports S7_Memory Circuit_Breaker
begin

text \<open>
  \<open>internal/adapter/s7/pool.go\<close> and the pool's part of \<open>health.go\<close>: one S7 client and one circuit breaker
  per device, created on demand with the eviction of an idle one when the pool is full, reconnects
  with a growing delay, and a reaper.  Loops over the map of clients visit the keys in an order
  that the environment chooses.  An operation is atomic.
\<close>

section \<open>State\<close>

record 'b client_entry =
  ce_client :: s7_client
  ce_device :: device
  ce_breaker :: 'b
  ce_createdAt :: time
  ce_lastUse :: time
  ce_lastError :: "err option"
  ce_connectFailures :: nat
  ce_nextReconnectAt :: "time option"

record 'b s7_pool =
  sp_clients :: "string \<rightharpoonup> 'b client_entry"
  sp_maxConnections :: int
  sp_idleTimeout :: duration
  sp_maxTTL :: duration
  sp_healthCheck :: duration
  sp_stopped :: bool
  sp_closed :: bool

record s7_pool_config =
  spc_MaxConnections :: int
  spc_IdleTimeout :: duration
  spc_HealthCheckInterval :: duration
  spc_RetryDelay :: duration
  spc_MaxTTL :: duration

record ('w, 'b) s7_pool_env =
  se_ops :: "s7_config \<Rightarrow> 'w s7_ops"
  se_breaker :: "'b breaker_lib"
  se_now :: "'w \<Rightarrow> time"
  se_choice :: s7_choice
  se_keys :: "(string \<rightharpoonup> 'b client_entry) \<Rightarrow> string list"

type_synonym ('w, 'b) sp_state = "'b s7_pool \<times> 'w"

definition s7_NewPool :: "s7_pool_config \<Rightarrow> 'b s7_pool" where
  "s7_NewPool cfg = \<lparr>sp_clients = Map.empty, sp_maxConnections = or_else (spc_MaxConnections cfg) 100,
     sp_idleTimeout = or_else (spc_IdleTimeout cfg) (300 * second), sp_maxTTL = spc_MaxTTL cfg,
     sp_healthCheck = or_else (spc_HealthCheckInterval cfg) (30 * second), sp_stopped = False, sp_closed = False\<rparr>"

abbreviation put_entry :: "string \<Rightarrow> 'b client_entry \<Rightarrow> 'b s7_pool \<Rightarrow> 'b s7_pool" where
  "put_entry k e p \<equiv> p\<lparr>sp_clients := (sp_clients p)(k \<mapsto> e)\<rparr>"

abbreviation drop_entry :: "string \<Rightarrow> 'b s7_pool \<Rightarrow> 'b s7_pool" where
  "drop_entry k p \<equiv> p\<lparr>sp_clients := (sp_clients p)(k := None)\<rparr>"

section \<open>Getting a client\<close>

definition entry_disconnect :: "('w, 'b) s7_pool_env \<Rightarrow> 'b client_entry \<Rightarrow> 'w \<Rightarrow> 'w" where
  "entry_disconnect env e w = snd (s7_Disconnect (se_ops env (sl_config (ce_client e))) (ce_client e, w))"

text \<open>The scan for the least recently used entry; the empty name stands for \<open>none yet\<close>.\<close>

fun oldest_entry :: "(string \<rightharpoonup> 'b client_entry) \<Rightarrow> string list \<Rightarrow> string \<times> time \<Rightarrow> string \<times> time" where
  "oldest_entry m [] best = best"
| "oldest_entry m (k # ks) (oldID, oldTime) = oldest_entry m ks
     (case m k of
        None \<Rightarrow> (oldID, oldTime)
      | Some e \<Rightarrow> if oldID = [] \<or> ce_lastUse e < oldTime then (k, ce_lastUse e) else (oldID, oldTime))"

definition evictIdleConnection :: "('w, 'b) s7_pool_env \<Rightarrow> ('w, 'b) sp_state \<Rightarrow> bool \<times> ('w, 'b) sp_state" where
  "evictIdleConnection env st = (case st of (p, w) \<Rightarrow>
     case oldest_entry (sp_clients p) (se_keys env (sp_clients p)) ([], 0) of (oldID, oldTime) \<Rightarrow>
       if oldID = [] then (False, st)
       else if time_sub (se_now env w) oldTime < sp_idleTimeout p then (False, st)
       else (case sp_clients p oldID of
          None \<Rightarrow> (False, st)
        | Some e \<Rightarrow> (True, (drop_entry oldID p, entry_disconnect env e w))))"

definition s7_pool_client_config :: "'b s7_pool \<Rightarrow> device \<Rightarrow> s7_config" where
  "s7_pool_client_config p d = (let cn = Connection d in
     \<lparr>sc_Address = Host cn, sc_Port = or_else (Port cn) 102, sc_Rack = S7Rack cn, sc_Slot = S7Slot cn,
      sc_Timeout = or_else (Timeout cn) (10 * second), sc_IdleTimeout = sp_idleTimeout p,
      sc_MaxRetries = or_else (RetryCount cn) 3, sc_RetryDelay = RetryDelay cn, sc_PDUSize = S7PDUSize cn\<rparr>)"

definition sp_createClient :: "('w, 'b) s7_pool_env \<Rightarrow> 'b s7_pool \<Rightarrow> device \<Rightarrow> 'w \<Rightarrow> s7_client res \<times> 'w" where
  "sp_createClient env p d w = (case s7_NewClient (se_now env w) (dev_ID d) (s7_pool_client_config p d) of
       Ok c \<Rightarrow> (case s7_Connect (se_ops env (sl_config c)) (c, w) of
           (None, (c1, w1)) \<Rightarrow> (Ok c1, w1)
         | (Some e, (c1, w1)) \<Rightarrow> (Err e, w1))
     | Err e \<Rightarrow> (Err e, w)
     | Panic \<Rightarrow> (Panic, w))"

definition s7_breaker_settings :: "device \<Rightarrow> breaker_settings" where
  "s7_breaker_settings d = breaker_overrides (CircuitBreaker (Connection d))
     \<lparr>bs_Name = ''s7-'' @ dev_ID d, bs_MaxRequests = 3, bs_Interval = 10 * second, bs_Timeout = 30 * second,
      bs_FailureThreshold = 5, bs_FailureRatio = 0x3FE0000000000000\<rparr>"

definition sp_add_client :: "('w, 'b) s7_pool_env \<Rightarrow> device \<Rightarrow> ('w, 'b) sp_state \<Rightarrow> unit res \<times> ('w, 'b) sp_state" where
  "sp_add_client env d st = (case st of (p, w) \<Rightarrow>
     (case sp_createClient env p d w of
        (Ok c, w1) \<Rightarrow> (Ok (), (put_entry (dev_ID d)
           \<lparr>ce_client = c, ce_device = d, ce_breaker = bl_new (se_breaker env) (s7_breaker_settings d),
            ce_createdAt = se_now env w1, ce_lastUse = se_now env w1, ce_lastError = None, ce_connectFailures = 0,
            ce_nextReconnectAt = None\<rparr> p, w1))
      | (Err e, w1) \<Rightarrow> (Err e, (p, w1))
      | (Panic, w1) \<Rightarrow> (Panic, (p, w1))))"

definition GetOrCreate :: "('w, 'b) s7_pool_env \<Rightarrow> device \<Rightarrow> ('w, 'b) sp_state \<Rightarrow> unit res \<times> ('w, 'b) sp_state" where
  "GetOrCreate env d st = (case st of (p, w) \<Rightarrow>
     (case sp_clients p (dev_ID d) of
        Some e \<Rightarrow> (Ok (), (put_entry (dev_ID d) (e\<lparr>ce_lastUse := se_now env w\<rparr>) p, w))
      | None \<Rightarrow>
          if sp_maxConnections p \<le> int (card (dom (sp_clients p))) then
            (case evictIdleConnection env st of
               (False, st1) \<Rightarrow> (Err ErrPoolExhausted, st1)
             | (True, st1) \<Rightarrow> sp_add_client env d st1)
          else sp_add_client env d st))"

section \<open>Requests through the breaker\<close>

text \<open>
  \<open>GetOrCreate\<close> runs only when the pool has no entry for the device, so a request on an existing
  entry does not touch its time of last use.
\<close>

definition sp_entry :: "('w, 'b) s7_pool_env \<Rightarrow> device \<Rightarrow> ('w, 'b) sp_state \<Rightarrow> 'b client_entry res \<times> ('w, 'b) sp_state" where
  "sp_entry env d st = (case sp_clients (fst st) (dev_ID d) of
       Some e \<Rightarrow> (Ok e, st)
     | None \<Rightarrow>
         (case GetOrCreate env d st of
            (Ok _, st1) \<Rightarrow> ((case sp_clients (fst st1) (dev_ID d) of Some e \<Rightarrow> Ok e | None \<Rightarrow> Panic), st1)
          | (Err e, st1) \<Rightarrow> (Err e, st1)
          | (Panic, st1) \<Rightarrow> (Panic, st1)))"

definition sp_run ::
  "('w, 'b) s7_pool_env \<Rightarrow> device \<Rightarrow> ('w s7_ops \<Rightarrow> 'w s7_state \<Rightarrow> ('a \<times> err option) res \<times> 'w s7_state)
     \<Rightarrow> 'b client_entry \<Rightarrow> ('w, 'b) sp_state \<Rightarrow> ('a option \<times> err option) res \<times> ('w, 'b) sp_state" where
  "sp_run env d f e st = (case st of (p, w) \<Rightarrow>
     (case Execute (se_breaker env) (\<lambda>s. se_now env (snd s)) (f (se_ops env (sl_config (ce_client e))))
             (ce_breaker e) (ce_client e, w) of
        (r, b, (c, w1)) \<Rightarrow> (r, (put_entry (dev_ID d) (e\<lparr>ce_client := c, ce_breaker := b\<rparr>) p, w1))))"

definition sp_execute ::
  "('w, 'b) s7_pool_env \<Rightarrow> device \<Rightarrow> ('w s7_ops \<Rightarrow> 'w s7_state \<Rightarrow> ('a \<times> err option) res \<times> 'w s7_state)
     \<Rightarrow> ('w, 'b) sp_state \<Rightarrow> ('a option \<times> err option) res \<times> ('w, 'b) sp_state" where
  "sp_execute env d f st = (case sp_entry env d st of
       (Panic, st1) \<Rightarrow> (Panic, st1)
     | (Err e, st1) \<Rightarrow> (Ok (None, Some e), st1)
     | (Ok e, st1) \<Rightarrow> (case sp_run env d f e st1 of (r, st2) \<Rightarrow>
         (bind_outcome r (\<lambda>(x, err). Ok (case err of None \<Rightarrow> (x, None) | Some er \<Rightarrow> (None, Some (breaker_error er)))), st2)))"

definition sp_ReadTag ::
  "('w, 'b) s7_pool_env \<Rightarrow> device \<Rightarrow> tag \<Rightarrow> ('w, 'b) sp_state \<Rightarrow> (data_point option option \<times> err option) res \<times> ('w, 'b) sp_state" where
  "sp_ReadTag env d t = sp_execute env d (\<lambda>ops. s7_ReadTag ops t)"

definition sp_ReadTags ::
  "('w, 'b) s7_pool_env \<Rightarrow> device \<Rightarrow> tag list \<Rightarrow> ('w, 'b) sp_state
     \<Rightarrow> (data_point option list option \<times> err option) res \<times> ('w, 'b) sp_state" where
  "sp_ReadTags env d tags = sp_execute env d (\<lambda>ops. s7_ReadTags ops (se_choice env) tags)"

definition sp_WriteTag :: "('w, 'b) s7_pool_env \<Rightarrow> device \<Rightarrow> tag \<Rightarrow> goval \<Rightarrow> ('w, 'b) sp_state \<Rightarrow> unit res \<times> ('w, 'b) sp_state" where
  "sp_WriteTag env d t v st = (case sp_execute env d (\<lambda>ops s. either_result () (s7_WriteTag ops t v s)) st of
     (r, st1) \<Rightarrow> (bind_outcome r (\<lambda>(x, e). case e of None \<Rightarrow> Ok () | Some e \<Rightarrow> Err e), st1))"

text \<open>The batched write tells the breaker of its first error and answers every write.\<close>

definition first_error :: "err option list \<Rightarrow> err option" where
  "first_error errs = (case filter (\<lambda>e. e \<noteq> None) errs of [] \<Rightarrow> None | e # _ \<Rightarrow> e)"

definition batch_request :: "(tag \<times> goval) list \<Rightarrow> 'w s7_ops \<Rightarrow> 'w s7_state \<Rightarrow> (err option list \<times> err option) res \<times> 'w s7_state" where
  "batch_request writes ops s = (case s7_WriteTags ops writes s of
     (r, s1) \<Rightarrow> (bind_outcome r (\<lambda>errs. Ok (errs, first_error errs)), s1))"

definition batch_answer :: "nat \<Rightarrow> err option list option \<times> err option \<Rightarrow> err option list" where
  "batch_answer n re = (case re of (x, e) \<Rightarrow>
     if e = Some BreakerOpenState then replicate n (Some ErrCircuitBreakerOpen)
     else case x of Some errs \<Rightarrow> errs | None \<Rightarrow> replicate n e)"

definition sp_WriteTags :: "('w, 'b) s7_pool_env \<Rightarrow> device \<Rightarrow> (tag \<times> goval) list \<Rightarrow> ('w, 'b) sp_state \<Rightarrow> err option list res \<times> ('w, 'b) sp_state" where
  "sp_WriteTags env d writes st = (case sp_entry env d st of
       (Panic, st1) \<Rightarrow> (Panic, st1)
     | (Err e, st1) \<Rightarrow> (Ok (replicate (length writes) (Some e)), st1)
     | (Ok e, st1) \<Rightarrow> (case sp_run env d (batch_request writes) e st1 of (r, st2) \<Rightarrow>
         (bind_outcome r (\<lambda>re. Ok (batch_answer (length writes) re)), st2)))"

section \<open>Removing, closing, reaping\<close>

definition sp_Remove :: "('w, 'b) s7_pool_env \<Rightarrow> string \<Rightarrow> ('w, 'b) sp_state \<Rightarrow> ('w, 'b) sp_state" where
  "sp_Remove env deviceID st = (case st of (p, w) \<Rightarrow>
     (case sp_clients p deviceID of None \<Rightarrow> st | Some e \<Rightarrow> (drop_entry deviceID p, entry_disconnect env e w)))"

definition sp_Close :: "('w, 'b) s7_pool_env \<Rightarrow> ('w, 'b) sp_state \<Rightarrow> unit res \<times> ('w, 'b) sp_state" where
  "sp_Close env st = (case st of (p, w) \<Rightarrow>
     if sp_stopped p then (Panic, st)
     else (Ok (), fold (sp_Remove env) (se_keys env (sp_clients p)) (p\<lparr>sp_stopped := True, sp_closed := True\<rparr>, w)))"

definition sp_reapable :: "'b s7_pool \<Rightarrow> time \<Rightarrow> 'b client_entry \<Rightarrow> bool" where
  "sp_reapable p now e \<longleftrightarrow> sp_idleTimeout p < time_sub now (ce_lastUse e)
     \<or> 0 < sp_maxTTL p \<and> sp_maxTTL p < time_sub now (ce_createdAt e)"

definition sp_reap :: "('w, 'b) s7_pool_env \<Rightarrow> ('w, 'b) sp_state \<Rightarrow> ('w, 'b) sp_state" where
  "sp_reap env st = (case st of (p, w) \<Rightarrow>
     if sp_closed p then st
     else fold (sp_Remove env) (filter (\<lambda>k. case sp_clients p k of Some e \<Rightarrow> sp_reapable p (se_now env w) e | None \<Rightarrow> False)
            (se_keys env (sp_clients p))) st)"

section \<open>Reconnecting\<close>

definition canAttemptReconnect :: "'b client_entry \<Rightarrow> time \<Rightarrow> bool" where
  "canAttemptReconnect e now = (case ce_nextReconnectAt e of None \<Rightarrow> True | Some t \<Rightarrow> \<not> now < t)"

definition reconnect_delay :: "duration \<Rightarrow> nat \<Rightarrow> duration" where
  "reconnect_delay baseDelay failures =
     (let delay = wrap64 (baseDelay * 2 ^ min (failures - 1) 6)
      in if 300 * second < delay then 300 * second else delay)"

definition recordConnectResult :: "time \<Rightarrow> err option \<Rightarrow> duration \<Rightarrow> 'b client_entry \<Rightarrow> 'b client_entry" where
  "recordConnectResult now e baseDelay ce = (case e of
       None \<Rightarrow> ce\<lparr>ce_lastError := None, ce_connectFailures := 0, ce_nextReconnectAt := None\<rparr>
     | Some x \<Rightarrow> (let n = ce_connectFailures ce + 1 in
         ce\<lparr>ce_lastError := Some x, ce_connectFailures := n, ce_nextReconnectAt := Some (now + reconnect_delay baseDelay n)\<rparr>))"

definition try_reconnect :: "('w, 'b) s7_pool_env \<Rightarrow> time \<Rightarrow> string \<Rightarrow> ('w, 'b) sp_state \<Rightarrow> ('w, 'b) sp_state" where
  "try_reconnect env now k st = (case st of (p, w) \<Rightarrow>
     (case sp_clients p k of
        None \<Rightarrow> st
      | Some e \<Rightarrow>
          if bl_state (se_breaker env) (se_now env w) (ce_breaker e) = StateOpen then st
          else if \<not> canAttemptReconnect e now then st
          else (case s7_Connect (se_ops env (sl_config (ce_client e))) (ce_client e, w) of
             (r, (c, w1)) \<Rightarrow> (put_entry k (recordConnectResult now r (5 * second) (e\<lparr>ce_client := c\<rparr>)) p, w1))))"

definition checkConnectionsAndReconnect :: "('w, 'b) s7_pool_env \<Rightarrow> ('w, 'b) sp_state \<Rightarrow> ('w, 'b) sp_state" where
  "checkConnectionsAndReconnect env st = (case st of (p, w) \<Rightarrow>
     fold (try_reconnect env (se_now env w))
       (filter (\<lambda>k. case sp_clients p k of Some e \<Rightarrow> \<not> sl_connected (ce_client e) | None \<Rightarrow> False)
          (se_keys env (sp_clients p))) st)"

section \<open>Health\<close>

definition sp_HealthCheck :: "'b s7_pool \<Rightarrow> err option" where
  "sp_HealthCheck p =
     (if sp_stopped p then Some ErrServiceStopped
      else if sp_clients p = Map.empty then None
      else if \<exists>e\<in>ran (sp_clients p). sl_connected (ce_client e) then None
      else Some ErrConnectionClosed)"

record s7_device_health =
  sh_DeviceID :: string
  sh_Connected :: bool
  sh_CircuitBreakerOpen :: bool
  sh_LastError :: "err option"
  sh_LastUsed :: time
  sh_ConsecutiveFailures :: nat

definition sp_GetDeviceHealth :: "'b breaker_lib \<Rightarrow> time \<Rightarrow> 'b s7_pool \<Rightarrow> string \<Rightarrow> s7_device_health option" where
  "sp_GetDeviceHealth lib now p deviceID = (case sp_clients p deviceID of
       None \<Rightarrow> None
     | Some e \<Rightarrow> Some \<lparr>sh_DeviceID = deviceID, sh_Connected = sl_connected (ce_client e),
         sh_CircuitBreakerOpen = (bl_state lib now (ce_breaker e) = StateOpen), sh_LastError = sl_lastError (ce_client e),
         sh_LastUsed = ce_lastUse e, sh_ConsecutiveFailures = sl_consecutiveFailures (ce_client e)\<rparr>)"

definition sp_GetAllDeviceHealth :: "'b breaker_lib \<Rightarrow> time \<Rightarrow> string list \<Rightarrow> 'b s7_pool \<Rightarrow> s7_device_health list" where
  "sp_GetAllDeviceHealth lib now ks p = List.map_filter (sp_GetDeviceHealth lib now p) ks"

definition GetDeviceTagDiagnostics :: "'b s7_pool \<Rightarrow> string \<Rightarrow> (string \<rightharpoonup> s7_diagnostic) option" where
  "GetDeviceTagDiagnostics p deviceID = map_option (\<lambda>e. sl_tagDiagnostics (ce_client e)) (sp_clients p deviceID)"

section \<open>The pool's size\<close>

datatype sp_op =
    S7ReadTag device tag
  | S7ReadTags device "tag list"
  | S7WriteTag device tag goval
  | S7WriteTags device "(tag \<times> goval) list"
  | S7Remove string
  | S7Close
  | S7Reap
  | S7Reconnect

fun sp_step :: "('w, 'b) s7_pool_env \<Rightarrow> sp_op \<Rightarrow> ('w, 'b) sp_state \<Rightarrow> ('w, 'b) sp_state" where
  "sp_step env (S7ReadTag d t) st = snd (sp_ReadTag env d t st)"
| "sp_step env (S7ReadTags d ts) st = snd (sp_ReadTags env d ts st)"
| "sp_step env (S7WriteTag d t v) st = snd (sp_WriteTag env d t v st)"
| "sp_step env (S7WriteTags d ws) st = snd (sp_WriteTags env d ws st)"
| "sp_step env (S7Remove k) st = sp_Remove env k st"
| "sp_step env S7Close st = snd (sp_Close env st)"
| "sp_step env S7Reap st = sp_reap env st"
| "sp_step env S7Reconnect st = checkConnectionsAndReconnect env st"

definition sp_keys :: "('w, 'b) sp_state \<Rightarrow> string set" where
  "sp_keys st = dom (sp_clients (fst st))"

definition sp_limit :: "('w, 'b) sp_state \<Rightarrow> int" where
  "sp_limit st = sp_maxConnections (fst st)"

definition sp_grows :: "('w, 'b) sp_state \<Rightarrow> ('w, 'b) sp_state \<Rightarrow> bool" where
  "sp_grows st st' \<longleftrightarrow> sp_limit st' = sp_limit st
     \<and> (finite (sp_keys st) \<longrightarrow> finite (sp_keys st')
        \<and> int (card (sp_keys st')) \<le> max (int (card (sp_keys st))) (sp_limit st))"

lemma sp_grows_refl [simp]: "sp_grows st st"
  by (simp add: sp_grows_def)

lemma sp_grows_trans: "sp_grows a b \<Longrightarrow> sp_grows b c \<Longrightarrow> sp_grows a c"
  by (auto simp: sp_grows_def)

lemma sp_grows_subset: "sp_limit st' = sp_limit st \<Longrightarrow> sp_keys st' \<subseteq> sp_keys st \<Longrightarrow> sp_grows st st'"
  by (simp add: sp_grows_def finite_subset card_mono max.coboundedI1)

lemma sp_Remove_grows: "sp_grows st (sp_Remove env k st)"
  by (rule sp_grows_subset) (auto simp: sp_Remove_def sp_keys_def sp_limit_def split: prod.splits option.splits)

lemma fold_sp_grows: "(\<And>k st. sp_grows st (f k st)) \<Longrightarrow> sp_grows st (fold f ks st)"
proof (induction ks arbitrary: st)
  case (Cons k ks)
  then show ?case using sp_grows_trans by (metis fold_simps(2))
qed simp

lemma sp_add_client_keys:
  "sp_limit (snd (sp_add_client env d st)) = sp_limit st"
  "sp_keys (snd (sp_add_client env d st)) \<subseteq> insert (dev_ID d) (sp_keys st)"
  by (auto simp: sp_add_client_def sp_keys_def sp_limit_def split: prod.splits outcome.splits)

lemma sp_add_client_grows:
  assumes "finite (sp_keys st) \<Longrightarrow> int (card (sp_keys st)) < n" "sp_limit st = sp_limit st0"
    "n \<le> max (int (card (sp_keys st0))) (sp_limit st0)" "finite (sp_keys st0) \<Longrightarrow> finite (sp_keys st)"
  shows "sp_grows st0 (snd (sp_add_client env d st))"
proof -
  have "card (sp_keys (snd (sp_add_client env d st))) \<le> Suc (card (sp_keys st))" if "finite (sp_keys st)"
  proof -
    have "card (sp_keys (snd (sp_add_client env d st))) \<le> card (insert (dev_ID d) (sp_keys st))"
      using that sp_add_client_keys(2) [of env d st] by (intro card_mono) simp_all
    also have "\<dots> \<le> Suc (card (sp_keys st))" using that by (simp add: card_insert_if)
    finally show ?thesis .
  qed
  then show ?thesis using assms sp_add_client_keys [of env d st]
    by (auto simp: sp_grows_def intro: finite_subset)
qed

lemma evict_keys:
  assumes "evictIdleConnection env st = (True, st1)"
  shows "\<exists>k\<in>sp_keys st. sp_keys st1 = sp_keys st - {k}" and "sp_limit st1 = sp_limit st"
  using assms by (auto simp: evictIdleConnection_def sp_keys_def sp_limit_def
      split: prod.splits if_splits option.splits)

lemma evict_refused: "evictIdleConnection env st = (False, st1) \<Longrightarrow> st1 = st"
  by (auto simp: evictIdleConnection_def split: prod.splits if_splits option.splits)

lemma evict_add_grows:
  assumes ev: "evictIdleConnection env st = (True, st1)"
  shows "sp_grows st (snd (sp_add_client env d st1))"
proof -
  obtain k where k: "k \<in> sp_keys st" "sp_keys st1 = sp_keys st - {k}" using evict_keys(1) [OF ev] by blast
  show ?thesis
  proof (rule sp_add_client_grows [where n = "int (card (sp_keys st))"])
    show "int (card (sp_keys st1)) < int (card (sp_keys st))" if "finite (sp_keys st1)"
      using that k by (metis finite_Diff2 finite.emptyI finite.insertI card_Diff1_less of_nat_less_iff)
  qed (use k evict_keys(2) [OF ev] in auto)
qed

lemma GetOrCreate_grows: "sp_grows st (snd (GetOrCreate env d st))"
proof (cases "sp_clients (fst st) (dev_ID d)")
  case (Some e)
  then show ?thesis
    by (intro sp_grows_subset)
      (auto simp: GetOrCreate_def sp_keys_def sp_limit_def split: prod.splits if_splits)
next
  case None
  show ?thesis
  proof (cases "sp_limit st \<le> int (card (sp_keys st))")
    case True
    obtain b st1 where ev: "evictIdleConnection env st = (b, st1)" by (rule prod.exhaust)
    then show ?thesis using None True evict_refused [of env st st1] evict_add_grows [of env st st1 d]
      by (cases b) (simp_all add: GetOrCreate_def sp_keys_def sp_limit_def split_beta)
  next
    case False
    then have "snd (GetOrCreate env d st) = snd (sp_add_client env d st)"
      using None by (simp add: GetOrCreate_def sp_keys_def sp_limit_def split_beta)
    then show ?thesis using False by (auto intro!: sp_add_client_grows [where n = "sp_limit st"])
  qed
qed

lemma sp_entry_grows: "sp_grows st (snd (sp_entry env d st))"
  using GetOrCreate_grows [of st env d] by (auto simp: sp_entry_def split: option.splits prod.splits outcome.splits)

lemma sp_entry_key: "sp_entry env d st = (Ok e, st1) \<Longrightarrow> sp_clients (fst st1) (dev_ID d) = Some e"
  by (auto simp: sp_entry_def split: option.splits prod.splits outcome.splits)

lemma sp_run_keys:
  assumes "sp_clients (fst st) (dev_ID d) = Some e0"
  shows "sp_grows st (snd (sp_run env d f e st))"
  using assms by (intro sp_grows_subset) (auto simp: sp_run_def sp_keys_def sp_limit_def split: prod.splits)

lemma sp_entry_run_grows: "sp_entry env d st = (Ok e, st1) \<Longrightarrow> sp_grows st (snd (sp_run env d f e st1))"
  using sp_entry_grows [of st env d] sp_run_keys [OF sp_entry_key] sp_grows_trans by (metis snd_conv)

lemma sp_execute_grows: "sp_grows st (snd (sp_execute env d f st))"
proof -
  obtain r st1 where e: "sp_entry env d st = (r, st1)" by (rule prod.exhaust)
  then show ?thesis using sp_entry_grows [of st env d] sp_entry_run_grows [of env d st _ st1 f]
    by (cases r) (simp_all add: sp_execute_def split_beta)
qed

lemma sp_WriteTags_grows: "sp_grows st (snd (sp_WriteTags env d ws st))"
proof -
  obtain r st1 where e: "sp_entry env d st = (r, st1)" by (rule prod.exhaust)
  then show ?thesis using sp_entry_grows [of st env d] sp_entry_run_grows [of env d st _ st1 "batch_request ws"]
    by (cases r) (simp_all add: sp_WriteTags_def split_beta)
qed

lemma try_reconnect_grows: "sp_grows st (try_reconnect env now k st)"
  by (rule sp_grows_subset) (auto simp: try_reconnect_def sp_keys_def sp_limit_def split: prod.splits option.splits)

lemma sp_step_grows: "sp_grows st (sp_step env x st)"
proof (cases x)
  case S7Close
  have "sp_grows st (fold (sp_Remove env) ks (fst st\<lparr>sp_stopped := True, sp_closed := True\<rparr>, snd st))" for ks
    by (rule sp_grows_trans [OF _ fold_sp_grows [OF sp_Remove_grows]], rule sp_grows_subset)
      (simp_all add: sp_keys_def sp_limit_def)
  then show ?thesis using S7Close by (simp add: sp_Close_def split_beta)
next
  case S7Reap
  then show ?thesis by (simp add: sp_reap_def fold_sp_grows [OF sp_Remove_grows] split_beta)
next
  case S7Reconnect
  then show ?thesis
    by (simp add: checkConnectionsAndReconnect_def fold_sp_grows [OF try_reconnect_grows] split_beta)
qed (simp_all add: sp_ReadTag_def sp_ReadTags_def sp_WriteTag_def sp_execute_grows sp_WriteTags_grows sp_Remove_grows split_beta)

interpretation s7_size: bounded_pool "sp_step env" sp_keys sp_limit for env
proof unfold_locales
  fix x and s :: "('a, 'b) sp_state"
  have g: "sp_grows s (sp_step env x s)" by (rule sp_step_grows)
  show "sp_limit (sp_step env x s) = sp_limit s" using g by (simp add: sp_grows_def)
  assume "finite (sp_keys s)"
  then show "finite (sp_keys (sp_step env x s))"
    and "int (card (sp_keys (sp_step env x s))) \<le> max (int (card (sp_keys s))) (sp_limit s)"
    using g by (simp_all add: sp_grows_def)
qed

section \<open>The answers to a batched write\<close>

text \<open>Lists of errors of one length that agree outside the indices \<open>I\<close>.\<close>

definition agree_outside :: "nat set \<Rightarrow> 'a list \<Rightarrow> 'a list \<Rightarrow> bool" where
  "agree_outside I es es' \<longleftrightarrow> length es' = length es \<and> (\<forall>i. i \<notin> I \<longrightarrow> es' ! i = es ! i)"

lemma agree_outside_simps [simp]:
  "agree_outside I es es" "i \<in> I \<Longrightarrow> agree_outside I es (es[i := x])"
  by (auto simp: agree_outside_def) (metis nth_list_update_neq)

lemma agree_outside_trans: "agree_outside I a b \<Longrightarrow> agree_outside I b c \<Longrightarrow> agree_outside I a c"
  by (simp add: agree_outside_def)

lemma agree_outside_update: "agree_outside I (es[i := x]) es' \<Longrightarrow> i \<in> I \<Longrightarrow> agree_outside I es es'"
  by (rule agree_outside_trans [OF agree_outside_simps(2)])

abbreviation indices :: "indexed_write list \<Rightarrow> nat set" where
  "indices ws \<equiv> fst ` set ws"

lemma prepare_writes_agree:
  "prepare_writes ar ws errs = Ok (its, es) \<Longrightarrow> indices ws \<subseteq> I \<Longrightarrow>
     agree_outside I errs es \<and> set (map fst its) \<subseteq> set ws"
proof (induction ar ws errs arbitrary: its es rule: prepare_writes.induct)
  case (2 ar i t v ws errs)
  show ?case
  proof (cases "s7_write_item ar t v")
    case (Ok it)
    then obtain its1 where "prepare_writes ar ws errs = Ok (its1, es)" "its = ((i, t, v), it) # its1"
      using "2.prems"(1) by (cases "prepare_writes ar ws errs") auto
    then show ?thesis using "2.IH"(1) [OF Ok] "2.prems"(2) by fastforce
  next
    case (Err e)
    then have "agree_outside I (errs[i := Some e]) es \<and> set (map fst its) \<subseteq> set ws"
      using "2.IH"(2) [OF Err] "2.prems" by simp
    then show ?thesis using "2.prems"(2) agree_outside_update [of I errs i "Some e" es] by auto
  qed (use 2 in simp)
qed simp

lemma foldl_set_agree:
  "indices ws \<subseteq> I \<Longrightarrow> agree_outside I errs (foldl (\<lambda>es w. if P es w then es[fst w := f w] else es) errs ws)"
proof (induction ws arbitrary: errs)
  case (Cons w ws)
  have "agree_outside I errs (if P errs w then errs[fst w := f w] else errs)" using Cons.prems by simp
  moreover have "agree_outside I (if P errs w then errs[fst w := f w] else errs)
      (foldl (\<lambda>es w. if P es w then es[fst w := f w] else es) (if P errs w then errs[fst w := f w] else errs) ws)"
    using Cons.prems by (intro Cons.IH) simp
  ultimately show ?case using agree_outside_trans by (simp only: foldl.simps) blast
qed simp

lemma set_all_agree: "indices ws \<subseteq> I \<Longrightarrow> agree_outside I errs (set_all ws e errs)"
  using foldl_set_agree [where P = "\<lambda>_ _. True" and f = "\<lambda>_. Some e"] by (simp add: set_all_def)

lemma settle_writes_agree:
  "indices (map fst its) \<subseteq> I \<Longrightarrow> agree_outside I errs (fst (settle_writes now its (errs, c)))"
proof (induction now its "(errs, c)" arbitrary: errs c rule: settle_writes.induct)
  case (2 now i t v item ws errs c)
  then show ?case by (auto simp: Let_def intro: agree_outside_update)
qed simp

lemma writeTagBatch_agree:
  assumes "fst (writeTagBatch ops ws errs st) = Ok es" and "indices ws \<subseteq> I"
  shows "agree_outside I errs es"
proof -
  obtain c w where st: "st = (c, w)" by (rule prod.exhaust)
  obtain its es1 where p: "prepare_writes (so_arch ops w) ws errs = Ok (its, es1)"
    using assms(1) by (auto simp: writeTagBatch_def st split: outcome.splits)
  note a = prepare_writes_agree [OF p assms(2)]
  then have i: "indices (map fst its) \<subseteq> I" using assms(2) by blast
  obtain r items1 w1 where m: "AGWriteMulti ops (map snd its) w = ((r, items1), w1)" by (metis surj_pair)
  have "set (map fst (zip (map fst its) items1)) \<subseteq> set (map fst its)" by (auto dest: set_zip_leftD)
  then have z: "indices (map fst (zip (map fst its) items1)) \<subseteq> I" using i by blast
  note s = settle_writes_agree [OF z, of es1]
  have "agree_outside I es1 es"
    using assms(1) p m s set_all_agree [OF i, of es1]
    by (auto simp: writeTagBatch_def st Let_def split: if_splits option.splits prod.splits) (metis fst_conv)
  then show ?thesis using a agree_outside_trans by blast
qed

lemma write_chunks_agree:
  "fst (write_chunks ops ws bools errs st) = Ok (es, b) \<Longrightarrow> indices ws \<subseteq> I \<Longrightarrow> indices bools \<subseteq> I \<Longrightarrow>
     agree_outside I errs es"
proof (induction ops ws bools errs st rule: write_chunks.induct)
  case (1 ops ws bools errs st)
  show ?case
  proof (cases "ws = []")
    case False
    show ?thesis
    proof (cases "so_ctx ops (snd st)")
      case (Some e)
      have "agree_outside I errs (set_all ws e errs)" by (rule set_all_agree [OF 1(3)])
      moreover have "agree_outside I (set_all ws e errs)
          (foldl (\<lambda>es w. if es ! fst w = None then es[fst w := Some e] else es) (set_all ws e errs) bools)"
        by (rule foldl_set_agree [OF 1(4)])
      ultimately have "agree_outside I errs
          (foldl (\<lambda>es w. if es ! fst w = None then es[fst w := Some e] else es) (set_all ws e errs) bools)"
        by (rule agree_outside_trans)
      then show ?thesis using 1(2) False Some by (simp add: write_chunks.simps [of ops ws])
    next
      case None
      obtain r st1 where w: "writeTagBatch ops (take 20 ws) errs st = (r, st1)" by (rule prod.exhaust)
      then obtain es1 where r: "r = Ok es1" using 1(2) False None
        by (cases r) (simp_all add: write_chunks.simps [of ops ws])
      have sub: "indices (take 20 ws) \<subseteq> I" "indices (drop 20 ws) \<subseteq> I"
        using 1(3) set_take_subset [of 20 ws] set_drop_subset [of 20 ws] by blast+
      have "agree_outside I errs es1" using writeTagBatch_agree [OF _ sub(1)] w r by (metis fst_conv)
      moreover have "agree_outside I es1 es"
        using 1(1) [OF False None w [symmetric] r _ sub(2) 1(4)] 1(2) False None w r
        by (simp add: write_chunks.simps [of ops ws])
      ultimately show ?thesis using agree_outside_trans by blast
    qed
  qed (use 1 in \<open>simp add: write_chunks.simps\<close>)
qed

lemma write_bools_agree:
  "fst (write_bools ops ws errs st) = Ok es \<Longrightarrow> indices ws \<subseteq> I \<Longrightarrow> agree_outside I errs es"
proof (induction ops ws errs st rule: write_bools.induct)
  case (2 ops i t v ws errs st)
  then show ?case
    by (cases "so_ctx ops (snd st)"; cases "s7_WriteTag ops t v st"; cases "fst (s7_WriteTag ops t v st)")
      (auto intro: agree_outside_update)
qed simp

text \<open>The indices a batched write may settle are those of the writable tags.\<close>

definition writable_indices :: "(tag \<times> goval) list \<Rightarrow> nat set" where
  "writable_indices ws = {i. i < length ws \<and> isTagWritable (fst (ws ! i))}"

lemma indices_writable:
  "indices (batchable_writes ws) \<subseteq> writable_indices ws" "indices (bool_writes ws) \<subseteq> writable_indices ws"
  by (auto simp: batchable_writes_def bool_writes_def writable_indices_def in_set_enumerate_eq)

lemma s7_WriteTags_answers:
  assumes "fst (s7_WriteTags ops ws st) = Ok es"
  shows "length es = length ws \<and> (\<forall>i < length ws. \<not> isTagWritable (fst (ws ! i)) \<longrightarrow> es ! i \<noteq> None)"
proof (cases "ws = [] \<or> \<not> sl_connected (fst (s7_touch ops st))")
  case True
  then show ?thesis using assms by (auto simp: s7_WriteTags_def Let_def split: if_splits)
next
  case False
  let ?I = "writable_indices ws"
  obtain r st1 where c: "write_chunks ops (batchable_writes ws) (bool_writes ws) (initial_errors ws) (s7_touch ops st) = (r, st1)"
    by (rule prod.exhaust)
  obtain es1 b where r: "r = Ok (es1, b)" using assms False c
    by (cases r) (auto simp: s7_WriteTags_def Let_def)
  have a1: "agree_outside ?I (initial_errors ws) es1"
    using write_chunks_agree [OF _ indices_writable] c r by (metis fst_conv)
  have "agree_outside ?I es1 es"
    using assms False c r write_bools_agree [of ops "bool_writes ws" es1 st1 es, OF _ indices_writable(2)]
    by (cases b) (auto simp: s7_WriteTags_def Let_def)
  then have "agree_outside ?I (initial_errors ws) es" using a1 agree_outside_trans by blast
  then show ?thesis
    by (auto simp: agree_outside_def writable_indices_def initial_errors_def split_beta)
qed

lemma Execute_result:
  "fst (Execute lib now f b s) = Ok (x, e) \<Longrightarrow>
     (case x of None \<Rightarrow> e \<noteq> None | Some y \<Rightarrow> fst (f s) = Ok (y, e))"
  by (auto simp: Execute_def split: prod.splits option.splits outcome.splits)

lemma batch_answer_complete:
  assumes "case x of None \<Rightarrow> e \<noteq> None
    | Some errs \<Rightarrow> length errs = n \<and> (\<forall>i < n. P i \<longrightarrow> errs ! i \<noteq> None)"
  shows "length (batch_answer n (x, e)) = n \<and> (\<forall>i < n. P i \<longrightarrow> batch_answer n (x, e) ! i \<noteq> None)"
  using assms by (cases x) (auto simp: batch_answer_def)

section \<open>A concrete pool\<close>

definition s7_breaker :: "bool list breaker_lib" where
  "s7_breaker = \<lparr>bl_new = (\<lambda>s. []), bl_before = (\<lambda>t b. (None, b)), bl_after = (\<lambda>t ok b. b @ [ok]),
     bl_state = (\<lambda>t b. StateClosed)\<rparr>"

definition s7_device :: device where
  "s7_device = raw_device\<lparr>dev_ID := ''s7'', dev_Protocol := ProtocolS7, Connection := zero_connection\<lparr>Host := ''plc''\<rparr>\<rparr>"

definition s7_env :: "(plc_cells, bool list) s7_pool_env" where
  "s7_env = \<lparr>se_ops = (\<lambda>cfg. memory_plc), se_breaker = s7_breaker, se_now = (\<lambda>w. 400 * second),
     se_choice = \<lparr>ch_perm = (\<lambda>ks. ks), ch_sort = (\<lambda>ps. ps)\<rparr>, se_keys = (\<lambda>m. [''s7''])\<rparr>"

definition s7_open_entry :: "bool list client_entry" where
  "s7_open_entry = \<lparr>ce_client = open_s7, ce_device = s7_device, ce_breaker = [], ce_createdAt = 0, ce_lastUse = 0,
     ce_lastError = None, ce_connectFailures = 0, ce_nextReconnectAt = None\<rparr>"

definition s7_open_pool :: "bool list s7_pool" where
  "s7_open_pool = \<lparr>sp_clients = [''s7'' \<mapsto> s7_open_entry], sp_maxConnections = 100, sp_idleTimeout = 300 * second,
     sp_maxTTL = 0, sp_healthCheck = 30 * second, sp_stopped = False, sp_closed = False\<rparr>"

lemma s7_open_facts [simp]:
  "sp_clients s7_open_pool (dev_ID s7_device) = Some s7_open_entry" "\<not> sp_closed s7_open_pool"
  "sp_idleTimeout s7_open_pool < time_sub (se_now s7_env w) (ce_lastUse s7_open_entry)"
  "dev_ID s7_device \<in> set (se_keys s7_env m)"
  by (simp_all add: s7_open_pool_def s7_device_def s7_env_def s7_open_entry_def time_sub_def)

section \<open>Properties\<close>

text \<open>
  However requests, removals, evictions, reconnects, reaping and closing are interleaved, the S7
  pool never holds more clients than its limit (100 unless configured).
\<close>

theorem s7_pool_within_limit:
  "int (card (dom (sp_clients (fst (fold (sp_step env) xs (s7_NewPool cfg, w))))))
     \<le> max 0 (or_else (spc_MaxConnections cfg) 100)"
  using s7_size.run_bound [of "(s7_NewPool cfg, w)" env xs]
  by (simp add: sp_keys_def sp_limit_def s7_NewPool_def)

text \<open>
  A batched write through the pool that returns answers every write at its own index, and never
  with success for a tag that is not writable; this holds on every path: no client, a refusing
  breaker, a lost connection, a cancelled context, failed items.
\<close>

theorem every_write_answered:
  assumes "fst (sp_WriteTags env d writes st) = Ok errs"
  shows "length errs = length writes \<and> (\<forall>i < length writes. \<not> isTagWritable (fst (writes ! i)) \<longrightarrow> errs ! i \<noteq> None)"
proof -
  obtain r st1 where e: "sp_entry env d st = (r, st1)" by (rule prod.exhaust)
  show ?thesis
  proof (cases r)
    case (Ok ce)
    let ?f = "batch_request writes (se_ops env (sl_config (ce_client ce)))"
    obtain x er b s2 where ex: "Execute (se_breaker env) (\<lambda>s. se_now env (snd s)) ?f (ce_breaker ce) (ce_client ce, snd st1)
        = (Ok (x, er), b, s2)" and errs: "errs = batch_answer (length writes) (x, er)"
      using assms e Ok by (auto simp: sp_WriteTags_def sp_run_def split_beta bind_outcome_Ok_conv)
        (metis prod.collapse surj_pair)
    have "case x of None \<Rightarrow> er \<noteq> None | Some y \<Rightarrow> fst (?f (ce_client ce, snd st1)) = Ok (y, er)"
      using Execute_result [of "se_breaker env" "\<lambda>s. se_now env (snd s)" ?f] ex by (metis fst_conv)
    then have "case x of None \<Rightarrow> er \<noteq> None | Some es \<Rightarrow> length es = length writes
        \<and> (\<forall>i < length writes. \<not> isTagWritable (fst (writes ! i)) \<longrightarrow> es ! i \<noteq> None)"
      using s7_WriteTags_answers [of "se_ops env (sl_config (ce_client ce))" writes "(ce_client ce, snd st1)"]
      by (cases x) (auto simp: batch_request_def split_beta bind_outcome_Ok_conv)
    from batch_answer_complete [OF this] show ?thesis unfolding errs .
  qed (use assms e in \<open>auto simp: sp_WriteTags_def\<close>)
qed

theorem every_write_answered_witness:
  "\<exists>errs. fst (sp_WriteTags s7_env s7_device [(s7_tag DataTypeInt16 S7AreaDB 0 0, VInt16 1)]
      (put_entry (dev_ID s7_device) (s7_open_entry\<lparr>ce_client := open_s7\<lparr>sl_connected := False\<rparr>\<rparr>) s7_open_pool,
       \<lambda>a n i. 0)) = Ok errs \<and> length errs = 1"
proof -
  let ?e = "s7_open_entry\<lparr>ce_client := open_s7\<lparr>sl_connected := False\<rparr>\<rparr>"
  have w: "fst (sp_WriteTags s7_env s7_device [(s7_tag DataTypeInt16 S7AreaDB 0 0, VInt16 1)]
      (put_entry (dev_ID s7_device) ?e s7_open_pool, \<lambda>a n i. 0)) = Ok [Some ErrConnectionClosed]"
    by (simp add: sp_WriteTags_def sp_entry_def sp_run_def Execute_def s7_env_def s7_breaker_def s7_open_entry_def
        batch_request_def s7_WriteTags_def s7_touch_def s7_map_def batch_answer_def first_error_def Let_def)
  from every_write_answered [OF this] w show ?thesis by auto
qed

text \<open>
  A closed S7 pool still connects: nothing in a request looks at the closed flag, so after \<open>Close\<close>
  a request for a device creates a client again and adds it to the pool that is never closed again.
\<close>

theorem closed_pool_connects_again:
  assumes "sp_closed p" and "sp_clients p = Map.empty" and "0 < sp_maxConnections p"
    and "Host (Connection d) \<noteq> []"
    and "\<And>cfg. so_connect (se_ops env cfg) w = (ConnectDone None, w1)"
  shows "dom (sp_clients (fst (snd (sp_WriteTag env d t v (p, w))))) = {dev_ID d}"
proof -
  obtain c where c: "sp_createClient env p d w = (Ok c, w1)"
    using assms(4,5) by (simp add: sp_createClient_def s7_NewClient_def s7_pool_client_config_def Let_def s7_Connect_def)
  have "\<exists>e st1. sp_entry env d (p, w) = (Ok e, st1) \<and> dom (sp_clients (fst st1)) = {dev_ID d}"
    using assms(2,3) c by (simp add: sp_entry_def GetOrCreate_def sp_add_client_def)
  then show ?thesis by (auto simp: sp_WriteTag_def sp_execute_def sp_run_def split_beta)
qed

theorem closed_pool_connects_again_witness:
  "dom (sp_clients (fst (snd (sp_WriteTag s7_env s7_device (s7_tag DataTypeInt16 S7AreaDB 0 0) (VInt16 1)
     (s7_open_pool\<lparr>sp_closed := True, sp_clients := Map.empty\<rparr>, \<lambda>a n i. 0))))) = {''s7''}"
  using closed_pool_connects_again [of "s7_open_pool\<lparr>sp_closed := True, sp_clients := Map.empty\<rparr>" s7_device s7_env
      "\<lambda>a n i. 0" "\<lambda>a n i. 0"]
  by (simp add: s7_open_pool_def s7_env_def s7_device_def memory_plc_def)

text \<open>
  Requests do not count as use of an S7 connection: right after a read of an existing entry the
  reaper removes the entry if its time of last use, set when it was created, is older than the idle
  timeout.
\<close>

theorem used_s7_connection_reaped:
  assumes "sp_clients p (dev_ID d) = Some e" and "\<not> sp_closed p" and "sp_ReadTags env d tags (p, w) = (r, (p', w'))"
    and "sp_idleTimeout p < time_sub (se_now env w') (ce_lastUse e)"
    and "\<And>m. dev_ID d \<in> set (se_keys env m)"
  shows "sp_clients (fst (sp_reap env (p', w'))) (dev_ID d) = None"
proof -
  obtain c b where p': "p' = put_entry (dev_ID d) (e\<lparr>ce_client := c, ce_breaker := b\<rparr>) p"
    using assms(1,3) by (auto simp: sp_ReadTags_def sp_execute_def sp_entry_def sp_run_def split_beta)
  have gone: "sp_clients (fst (fold (sp_Remove env) ks st)) k = None" if "k \<in> set ks" for k ks st
  proof -
    have keep: "sp_clients (fst st) k = None \<Longrightarrow> sp_clients (fst (fold (sp_Remove env) ks st)) k = None" for ks st
      by (induction ks arbitrary: st) (auto simp: sp_Remove_def split: prod.splits option.splits)
    show ?thesis using that
    proof (induction ks arbitrary: st)
      case (Cons a ks)
      have "sp_clients (fst (sp_Remove env a st)) a = None"
        by (auto simp: sp_Remove_def split: prod.splits option.splits)
      then show ?case using Cons keep by (cases "k = a") auto
    qed simp
  qed
  show ?thesis unfolding p' sp_reap_def using assms(2,4,5) by (auto intro!: gone simp: sp_reapable_def)
qed

theorem used_s7_connection_reaped_witness:
  "sp_clients (fst (sp_reap s7_env (snd (sp_ReadTags s7_env s7_device [s7_tag DataTypeInt16 S7AreaDB 0 0]
     (s7_open_pool, \<lambda>a n i. 0))))) (dev_ID s7_device) = None"
proof (cases "sp_ReadTags s7_env s7_device [s7_tag DataTypeInt16 S7AreaDB 0 0] (s7_open_pool, \<lambda>a n i. 0)")
  case (fields r p' w')
  show ?thesis using used_s7_connection_reaped [OF s7_open_facts(1,2) fields] by (simp add: fields)
qed

text \<open>
  The delay before the next reconnect after \<open>n\<close> failures in a row is five seconds doubled \<open>n - 1\<close>
  times, at most six times and at most five minutes, and until it has passed the health check
  leaves the client and the PLC alone.
\<close>

theorem reconnect_waits:
  assumes "ce' = recordConnectResult now (Some x) (5 * second) ce" and "sp_clients p k = Some ce'"
    and "now \<le> t" and "t < now + min (300 * second) (5 * second * 2 ^ min (ce_connectFailures ce) 6)"
  shows "try_reconnect env t k (p, w) = (p, w)"
proof -
  have "(2::int) ^ min (ce_connectFailures ce) 6 \<le> 2 ^ 6" by (rule power_increasing) simp_all
  then have "wrap64 (5 * second * 2 ^ min (ce_connectFailures ce) 6) = 5 * second * 2 ^ min (ce_connectFailures ce) 6"
    by (intro wrap64_id) (auto intro: order_trans [of _ 0])
  then have "\<not> canAttemptReconnect ce' t"
    using assms(1,4) by (auto simp: recordConnectResult_def canAttemptReconnect_def reconnect_delay_def Let_def
        split: if_splits)
  then show ?thesis using assms(2) by (simp add: try_reconnect_def)
qed

theorem reconnect_waits_witness:
  "try_reconnect s7_env (9 * second) ''s7'' (put_entry ''s7''
     (recordConnectResult 0 (Some ErrConnectionClosed) (5 * second) (s7_open_entry\<lparr>ce_connectFailures := 1\<rparr>)) s7_open_pool, \<lambda>a n i. 0)
   = (put_entry ''s7''
     (recordConnectResult 0 (Some ErrConnectionClosed) (5 * second) (s7_open_entry\<lparr>ce_connectFailures := 1\<rparr>)) s7_open_pool, \<lambda>a n i. 0)"
  by (rule reconnect_waits [OF refl, where now = 0 and x = ErrConnectionClosed and ce = "s7_open_entry\<lparr>ce_connectFailures := 1\<rparr>"])
    simp_all

end
