(* ===== verification/Protocol_Manager.thy ===== *)
theory Protocol_Manager
  imports Domain
begin

text \<open>
  \<open>internal/domain/protocol.go\<close>: the interface every protocol pool implements and the manager that
  routes an operation to the pool of the device's protocol.  A pool is a record of its operations
  on a world of any type \<open>'w\<close> (its own state, the devices behind it and the caller's context); the
  manager is a map from protocols to pools.
\<close>

section \<open>The interface\<close>

record 'w pool =
  pl_ReadTags :: "device \<Rightarrow> tag list \<Rightarrow> 'w \<Rightarrow> (data_point option list \<times> err option) \<times> 'w"
  pl_ReadTag :: "device \<Rightarrow> tag \<Rightarrow> 'w \<Rightarrow> (data_point option \<times> err option) \<times> 'w"
  pl_WriteTag :: "device \<Rightarrow> tag \<Rightarrow> goval \<Rightarrow> 'w \<Rightarrow> err option \<times> 'w"
  pl_Close :: "'w \<Rightarrow> err option \<times> 'w"
  pl_HealthCheck :: "'w \<Rightarrow> err option \<times> 'w"

type_synonym 'w manager = "protocol \<rightharpoonup> 'w pool"

section \<open>The manager\<close>

definition NewProtocolManager :: "'w manager" where
  "NewProtocolManager = Map.empty"

definition RegisterPool :: "protocol \<Rightarrow> 'w pool \<Rightarrow> 'w manager \<Rightarrow> 'w manager" where
  "RegisterPool proto pool pm = pm(proto \<mapsto> pool)"

definition GetPool :: "'w manager \<Rightarrow> protocol \<Rightarrow> 'w pool option" where
  "GetPool pm proto = pm proto"

definition pm_ReadTags ::
  "'w manager \<Rightarrow> device \<Rightarrow> tag list \<Rightarrow> 'w \<Rightarrow> (data_point option list \<times> err option) \<times> 'w" where
  "pm_ReadTags pm d tags w = (case GetPool pm (dev_Protocol d) of
       None \<Rightarrow> (([], Some ErrProtocolNotSupported), w)
     | Some pool \<Rightarrow> pl_ReadTags pool d tags w)"

definition pm_ReadTag ::
  "'w manager \<Rightarrow> device \<Rightarrow> tag \<Rightarrow> 'w \<Rightarrow> (data_point option \<times> err option) \<times> 'w" where
  "pm_ReadTag pm d t w = (case GetPool pm (dev_Protocol d) of
       None \<Rightarrow> ((None, Some ErrProtocolNotSupported), w)
     | Some pool \<Rightarrow> pl_ReadTag pool d t w)"

definition pm_WriteTag :: "'w manager \<Rightarrow> device \<Rightarrow> tag \<Rightarrow> goval \<Rightarrow> 'w \<Rightarrow> err option \<times> 'w" where
  "pm_WriteTag pm d t v w = (case GetPool pm (dev_Protocol d) of
       None \<Rightarrow> (Some ErrProtocolNotSupported, w)
     | Some pool \<Rightarrow> pl_WriteTag pool d t v w)"

text \<open>
  The loops of \<open>Close\<close> and \<open>HealthCheck\<close> visit the map in the order of the key list \<open>ks\<close>, any
  enumeration of its keys.  \<open>errors.Join\<close> of the collected errors is nil just for the empty list.
\<close>

fun close_all :: "protocol list \<Rightarrow> 'w manager \<Rightarrow> 'w \<Rightarrow> err list \<times> 'w manager \<times> 'w" where
  "close_all [] pm w = ([], pm, w)"
| "close_all (p # ks) pm w = (case pm p of
       None \<Rightarrow> close_all ks pm w
     | Some pool \<Rightarrow>
         (case pl_Close pool w of (e, w1) \<Rightarrow>
          case close_all ks (pm(p := None)) w1 of (es, pm2, w2) \<Rightarrow>
            ((case e of None \<Rightarrow> es
              | Some x \<Rightarrow> WrapPre (''close '' @ protocol_text p @ '' pool: '') x # es), pm2, w2)))"

definition pm_Close :: "protocol list \<Rightarrow> 'w manager \<Rightarrow> 'w \<Rightarrow> err list \<times> 'w manager \<times> 'w" where
  "pm_Close ks pm w = close_all ks pm w"

fun check_all :: "protocol list \<Rightarrow> 'w manager \<Rightarrow> 'w \<Rightarrow> err option \<times> 'w" where
  "check_all [] pm w = (None, w)"
| "check_all (p # ks) pm w = (case pm p of
       None \<Rightarrow> check_all ks pm w
     | Some pool \<Rightarrow>
         (case pl_HealthCheck pool w of
            (Some e, w1) \<Rightarrow> (Some e, w1)
          | (None, w1) \<Rightarrow> check_all ks pm w1))"

definition pm_HealthCheck :: "protocol list \<Rightarrow> 'w manager \<Rightarrow> 'w \<Rightarrow> err option \<times> 'w" where
  "pm_HealthCheck ks pm w = check_all ks pm w"

definition RegisteredProtocols :: "protocol list \<Rightarrow> 'w manager \<Rightarrow> protocol list" where
  "RegisteredProtocols ks pm = filter (\<lambda>p. pm p \<noteq> None) ks"

section \<open>Facts\<close>

lemma routing:
  "pm_ReadTags (RegisterPool p pool pm) d ts w =
     (if dev_Protocol d = p then pl_ReadTags pool d ts w else pm_ReadTags pm d ts w)"
  "pm_WriteTag (RegisterPool p pool pm) d t v w =
     (if dev_Protocol d = p then pl_WriteTag pool d t v w else pm_WriteTag pm d t v w)"
  by (simp_all add: pm_ReadTags_def pm_WriteTag_def RegisterPool_def GetPool_def)

lemma close_all_keys: "fst (snd (close_all ks pm w)) = pm |` (- set ks)"
proof (induction ks arbitrary: pm w)
  case (Cons p ks)
  show ?case
  proof (cases "pm p")
    case None
    then have "pm |` (- set ks) = pm |` (- set (p # ks))"
      by (auto simp: restrict_map_def fun_eq_iff)
    then show ?thesis using None Cons.IH [of pm w] by simp
  next
    case (Some pool)
    obtain e w1 where c: "pl_Close pool w = (e, w1)" by (rule prod.exhaust)
    obtain es pm2 w2 where r: "close_all ks (pm(p := None)) w1 = (es, pm2, w2)" by (rule prod_cases3)
    have "pm2 = (pm(p := None)) |` (- set ks)" using Cons.IH [of "pm(p := None)" w1] unfolding r by (simp only: fst_conv snd_conv)
    also have "\<dots> = pm |` (- set (p # ks))" by (auto simp: restrict_map_def fun_eq_iff)
    finally show ?thesis using Some c r by simp
  qed
qed (simp add: restrict_map_def)

lemma close_all_errors:
  "(\<And>p pool w. pm p = Some pool \<Longrightarrow> fst (pl_Close pool w) = None) \<Longrightarrow> fst (close_all ks pm w) = []"
proof (induction ks arbitrary: pm w)
  case (Cons p ks)
  show ?case
  proof (cases "pm p")
    case (Some pool)
    have "fst (close_all ks (pm(p := None)) (snd (pl_Close pool w))) = []"
      by (rule Cons.IH) (auto split: if_splits intro: Cons.prems)
    then show ?thesis using Some Cons.prems [OF Some, of w] by (auto split: prod.splits option.splits)
  next
    case None
    then show ?thesis using Cons.IH [OF Cons.prems] by simp
  qed
qed simp

end
