(* ===== verification/Go_Channel.thy ===== *)
theory Go_Channel
  imports Prelude
begin

text \<open>
  Buffered Go channels with the non-blocking sends and receives of \<open>select ... default\<close>, as lists
  of what they hold.  The locale \<open>bounded_fifo\<close> is what the command queue and the message buffer
  rely on: order, capacity, and what pushing with the oldest message dropped leaves.
\<close>

section \<open>The channel\<close>

text \<open>\<open>None\<close>: the \<open>default\<close> branch is taken.\<close>

definition chan_send :: "nat \<Rightarrow> 'a list \<Rightarrow> 'a \<Rightarrow> 'a list option" where
  "chan_send cap q x = (if length q < cap then Some (q @ [x]) else None)"

fun chan_recv :: "'a list \<Rightarrow> ('a \<times> 'a list) option" where
  "chan_recv [] = None"
| "chan_recv (x # q) = Some (x, q)"

text \<open>Send; when full, receive one and send again.  The flag says whether the value got in.\<close>

definition send_drop_oldest ::
  "('q \<Rightarrow> 'a \<Rightarrow> 'q option) \<Rightarrow> ('q \<Rightarrow> ('a \<times> 'q) option) \<Rightarrow> 'q \<Rightarrow> 'a \<Rightarrow> 'q \<times> bool" where
  "send_drop_oldest send recv q x = (case send q x of
       Some q' \<Rightarrow> (q', True)
     | None \<Rightarrow>
         (let q1 = (case recv q of Some (_, q') \<Rightarrow> q' | None \<Rightarrow> q)
          in case send q1 x of Some q2 \<Rightarrow> (q2, True) | None \<Rightarrow> (q1, False)))"

section \<open>The contract\<close>

locale bounded_fifo =
  fixes send :: "'q \<Rightarrow> 'a \<Rightarrow> 'q option"
    and recv :: "'q \<Rightarrow> ('a \<times> 'q) option"
    and items :: "'q \<Rightarrow> 'a list"
    and cap :: nat
  assumes send_Some: "send q x = Some q' \<Longrightarrow> items q' = items q @ [x]"
    and send_None: "send q x = None \<longleftrightarrow> cap \<le> length (items q)"
    and recv_Some: "recv q = Some (x, q') \<Longrightarrow> items q = x # items q'"
    and recv_None: "recv q = None \<longleftrightarrow> items q = []"
begin

lemma send_bound: "send q x = Some q' \<Longrightarrow> length (items q') \<le> cap"
  using send_None [of q x] send_Some [of q x q'] by auto

lemma recv_bound: "recv q = Some (x, q') \<Longrightarrow> length (items q) \<le> cap \<Longrightarrow> length (items q') < cap"
  using recv_Some [of q x q'] by simp

lemma drop_oldest_items:
  assumes "0 < cap" and "length (items q) \<le> cap"
  shows "snd (send_drop_oldest send recv q x)"
    and "items (fst (send_drop_oldest send recv q x)) = drop (Suc (length (items q)) - cap) (items q @ [x])"
proof -
  have "snd (send_drop_oldest send recv q x) \<and> items (fst (send_drop_oldest send recv q x))
      = drop (Suc (length (items q)) - cap) (items q @ [x])"
  proof (cases "send q x")
    case None
    then have full: "length (items q) = cap" using send_None [of q x] assms(2) by simp
    then obtain y q1 where r: "recv q = Some (y, q1)"
      using recv_None [of q] assms(1) by (cases "recv q") auto
    have i: "items q = y # items q1" using r by (rule recv_Some)
    then obtain q2 where s: "send q1 x = Some q2" using send_None [of q1 x] full by (cases "send q1 x") auto
    then show ?thesis using None r i full send_Some [OF s] by (simp add: send_drop_oldest_def)
  next
    case (Some q')
    then have "length (items q) < cap" using send_None [of q x] by (simp add: not_le [symmetric])
    then show ?thesis using Some send_Some [OF Some] by (simp add: send_drop_oldest_def)
  qed
  then show "snd (send_drop_oldest send recv q x)"
    and "items (fst (send_drop_oldest send recv q x)) = drop (Suc (length (items q)) - cap) (items q @ [x])"
    by simp_all
qed

lemma drop_oldest_bound:
  assumes "0 < cap" and "length (items q) \<le> cap"
  shows "length (items (fst (send_drop_oldest send recv q x))) \<le> cap"
  using drop_oldest_items(2) [OF assms] by simp

text \<open>A run of pushes keeps the newest \<open>cap\<close> items, in order.\<close>

lemma drop_oldest_run:
  assumes "0 < cap" and "length (items q) \<le> cap"
  shows "items (fold (\<lambda>x q. fst (send_drop_oldest send recv q x)) xs q)
    = drop (length (items q) + length xs - cap) (items q @ xs)"
  using assms(2)
proof (induction xs arbitrary: q)
  case (Cons x xs)
  define q1 where "q1 = fst (send_drop_oldest send recv q x)"
  have i: "items q1 = drop (Suc (length (items q)) - cap) (items q @ [x])"
    and l: "length (items q1) \<le> cap"
    using drop_oldest_items(2) [OF assms(1) Cons.prems] drop_oldest_bound [OF assms(1) Cons.prems]
    by (simp_all add: q1_def)
  have "items (fold (\<lambda>x q. fst (send_drop_oldest send recv q x)) xs q1)
      = drop (length (items q1) + length xs - cap) (items q1 @ xs)"
    by (rule Cons.IH [OF l])
  also have "\<dots> = drop (length (items q) + length (x # xs) - cap) (items q @ x # xs)"
  proof -
    define k where "k = Suc (length (items q)) - cap"
    have k: "k \<le> length (items q @ [x])" by (simp add: k_def)
    have "items q1 @ xs = drop k (items q @ x # xs)"
    proof -
      have "drop k ((items q @ [x]) @ xs) = drop k (items q @ [x]) @ xs"
        using k by (simp only: drop_append) simp
      then show ?thesis by (simp add: i k_def)
    qed
    moreover have "length (items q1) = Suc (length (items q)) - k" by (simp add: i k_def)
    ultimately have "drop (length (items q1) + length xs - cap) (items q1 @ xs)
        = drop (length (items q1) + length xs - cap + k) (items q @ x # xs)"
      by (simp only: drop_drop)
    moreover have "length (items q1) + length xs - cap + k = length (items q) + length (x # xs) - cap"
      using Cons.prems i by (simp add: k_def)
    ultimately show ?thesis by (simp only:)
  qed
  finally show ?case by (simp add: q1_def)
qed simp

end

section \<open>Go's channels satisfy it\<close>

interpretation chan: bounded_fifo "chan_send cap" chan_recv "\<lambda>q. q" cap for cap
proof unfold_locales
  fix q q' :: "'a list" and x
  show "chan_send cap q x = Some q' \<Longrightarrow> q' = q @ [x]"
    by (auto simp: chan_send_def split: if_splits)
  show "chan_send cap q x = None \<longleftrightarrow> cap \<le> length q"
    by (auto simp: chan_send_def)
  show "chan_recv q = Some (x, q') \<Longrightarrow> q = x # q'" by (cases q) auto
  show "chan_recv q = None \<longleftrightarrow> q = []" by (cases q) auto
qed

end
