(* ===== verification/Command_Handler.thy ===== *)
theory Command_Handler
  imports Protocol_Manager Go_Channel
begin

text \<open>
  \<open>internal/service/command_handler.go\<close>: write commands received over MQTT.  The two message
  callbacks parse and queue a command or reject it; processor goroutines take commands off the
  bounded queue, acquire the write semaphore, look the tag up, write through the protocol manager
  and answer.  \<open>Stop\<close> cancels the context and waits until the processors have drained the queue.
  The interleaving of callbacks, processors, device updates and \<open>Stop\<close> is the step relation
  \<open>cmd_step\<close>.  The JSON decoder, the clock, the broker and the pools are parameters.
\<close>

section \<open>Data\<close>

record command_config =
  CommandTopicPrefix :: string
  ResponseTopicPrefix :: string
  WriteTimeoutCfg :: duration
  cmd_QoS :: byte
  EnableAcknowledgement :: bool
  MaxConcurrentWrites :: int
  CommandQueueSize :: int

definition DefaultCommandConfig :: command_config where
  "DefaultCommandConfig = \<lparr>CommandTopicPrefix = ''$nexus/cmd'', ResponseTopicPrefix = ''$nexus/cmd/response'',
     WriteTimeoutCfg = 10 * second, cmd_QoS = 1, EnableAcknowledgement = True,
     MaxConcurrentWrites = 50, CommandQueueSize = 1000\<rparr>"

record write_command =
  wc_RequestID :: string
  wc_DeviceID :: string
  wc_TagID :: string
  wc_Value :: goval
  wc_Timestamp :: time
  wc_Priority :: int

record write_response =
  wr_RequestID :: string
  wr_DeviceID :: string
  wr_TagID :: string
  wr_Success :: bool
  wr_Error :: string
  wr_Timestamp :: time
  wr_Duration :: duration

record command_stats =
  CommandsReceived :: nat
  CommandsSucceeded :: nat
  CommandsFailed :: nat
  CommandsRejected :: nat

text \<open>
  Where a processor goroutine is: in the loop of \<open>processCommandQueue\<close>, holding a command it took
  (with the time it took it), writing it with the semaphore held; \<open>draining\<close> says that it has left
  the loop for \<open>drainCommandQueue\<close>.
\<close>

datatype proc_state = Waiting | Taken write_command time | Writing write_command time

record processor =
  pr_state :: proc_state
  pr_draining :: bool

record 'w cmd_handler =
  ch_manager :: "'w manager"
  ch_devices :: "string \<rightharpoonup> device"
  ch_tagByID :: "string \<rightharpoonup> (string \<rightharpoonup> tag)"
  ch_config :: command_config
  ch_stats :: command_stats
  ch_running :: bool
  ch_cancelled :: bool
  ch_semaphore :: nat
  ch_queue :: "write_command list"
  ch_processors :: "processor list"
  ch_published :: "(string \<times> write_response) list"
  ch_world :: 'w

text \<open>What the handler calls outside: the clock and \<open>json.Unmarshal\<close> at its two target types.\<close>

record 'w cmd_env =
  ce_now :: "'w \<Rightarrow> time"
  ce_command :: "string \<Rightarrow> write_command option"
  ce_value :: "string \<Rightarrow> goval option"

section \<open>Devices\<close>

text \<open>Later tags with the same ID overwrite earlier ones.\<close>

definition buildTagIndex :: "device \<Rightarrow> string \<rightharpoonup> tag" where
  "buildTagIndex d = foldl (\<lambda>m t. m(tag_ID t \<mapsto> t)) Map.empty (Tags d)"

definition AddDevice :: "device \<Rightarrow> 'w cmd_handler \<Rightarrow> 'w cmd_handler" where
  "AddDevice d h = h\<lparr>ch_devices := (ch_devices h)(dev_ID d \<mapsto> d),
     ch_tagByID := (ch_tagByID h)(dev_ID d \<mapsto> buildTagIndex d)\<rparr>"

definition RemoveDevice :: "string \<Rightarrow> 'w cmd_handler \<Rightarrow> 'w cmd_handler" where
  "RemoveDevice i h = h\<lparr>ch_devices := (ch_devices h)(i := None), ch_tagByID := (ch_tagByID h)(i := None)\<rparr>"

definition UpdateDevices :: "device list \<Rightarrow> 'w cmd_handler \<Rightarrow> 'w cmd_handler" where
  "UpdateDevices ds h =
     foldl (\<lambda>h d. AddDevice d h) (h\<lparr>ch_devices := Map.empty, ch_tagByID := Map.empty\<rparr>) ds"

definition NewCommandHandler :: "'w manager \<Rightarrow> device list \<Rightarrow> command_config \<Rightarrow> 'w \<Rightarrow> 'w cmd_handler" where
  "NewCommandHandler pm ds config w =
     (let config = (if MaxConcurrentWrites config \<le> 0 then config\<lparr>MaxConcurrentWrites := 50\<rparr> else config);
          config = (if CommandQueueSize config \<le> 0 then config\<lparr>CommandQueueSize := 1000\<rparr> else config)
      in UpdateDevices ds \<lparr>ch_manager = pm, ch_devices = Map.empty, ch_tagByID = Map.empty, ch_config = config,
           ch_stats = \<lparr>CommandsReceived = 0, CommandsSucceeded = 0, CommandsFailed = 0, CommandsRejected = 0\<rparr>,
           ch_running = False, ch_cancelled = False, ch_semaphore = 0, ch_queue = [], ch_processors = [],
           ch_published = [], ch_world = w\<rparr>)"

section \<open>Topics\<close>

text \<open>\<open>strings.Split\<close> at one character.\<close>

fun split_on :: "char \<Rightarrow> string \<Rightarrow> string list" where
  "split_on c [] = [[]]"
| "split_on c (x # xs) = (if x = c then [] # split_on c xs
     else case split_on c xs of [] \<Rightarrow> [[x]] | p # ps \<Rightarrow> (x # p) # ps)"

definition SubscribedTopics :: "command_config \<Rightarrow> string list" where
  "SubscribedTopics cfg = [CommandTopicPrefix cfg @ ''/+/write'', CommandTopicPrefix cfg @ ''/+/+/set'']"

text \<open>\<open>parts[len(parts)-k]\<close>.\<close>

definition from_end :: "nat \<Rightarrow> string list \<Rightarrow> string" where
  "from_end k parts = parts ! (length parts - k)"

section \<open>Statistics and responses\<close>

definition count_received :: "'w cmd_handler \<Rightarrow> 'w cmd_handler" where
  "count_received h = h\<lparr>ch_stats := (ch_stats h)\<lparr>CommandsReceived := CommandsReceived (ch_stats h) + 1\<rparr>\<rparr>"

definition count_succeeded :: "'w cmd_handler \<Rightarrow> 'w cmd_handler" where
  "count_succeeded h = h\<lparr>ch_stats := (ch_stats h)\<lparr>CommandsSucceeded := CommandsSucceeded (ch_stats h) + 1\<rparr>\<rparr>"

definition count_failed :: "'w cmd_handler \<Rightarrow> 'w cmd_handler" where
  "count_failed h = h\<lparr>ch_stats := (ch_stats h)\<lparr>CommandsFailed := CommandsFailed (ch_stats h) + 1\<rparr>\<rparr>"

definition count_rejected :: "'w cmd_handler \<Rightarrow> 'w cmd_handler" where
  "count_rejected h = h\<lparr>ch_stats := (ch_stats h)\<lparr>CommandsRejected := CommandsRejected (ch_stats h) + 1\<rparr>\<rparr>"

definition sendResponse ::
  "'w cmd_env \<Rightarrow> write_command \<Rightarrow> bool \<Rightarrow> string \<Rightarrow> duration \<Rightarrow> 'w cmd_handler \<Rightarrow> 'w cmd_handler" where
  "sendResponse env cmd success errMsg dur h =
     (if \<not> EnableAcknowledgement (ch_config h) then h
      else h\<lparr>ch_published := ch_published h @
        [(ResponseTopicPrefix (ch_config h) @ ''/'' @ wc_DeviceID cmd @ ''/'' @ wc_TagID cmd,
          \<lparr>wr_RequestID = wc_RequestID cmd, wr_DeviceID = wc_DeviceID cmd, wr_TagID = wc_TagID cmd,
           wr_Success = success, wr_Error = errMsg, wr_Timestamp = ce_now env (ch_world h),
           wr_Duration = dur\<rparr>)]\<rparr>)"

section \<open>The message callbacks\<close>

text \<open>The non-blocking send to the command queue.\<close>

definition enqueue :: "'w cmd_env \<Rightarrow> write_command \<Rightarrow> 'w cmd_handler \<Rightarrow> 'w cmd_handler" where
  "enqueue env cmd h = (case chan_send (nat (CommandQueueSize (ch_config h))) (ch_queue h) cmd of
       Some q \<Rightarrow> h\<lparr>ch_queue := q\<rparr>
     | None \<Rightarrow> count_rejected (sendResponse env cmd False ''command queue full, try again later'' 0 h))"

definition handleWriteCommand :: "'w cmd_env \<Rightarrow> string \<Rightarrow> string \<Rightarrow> 'w cmd_handler \<Rightarrow> 'w cmd_handler" where
  "handleWriteCommand env topic payload h0 =
     (let h = count_received h0; parts = split_on (CHR ''/'') topic in
      if length parts < 3 then count_rejected h
      else let deviceID = from_end 2 parts in
        case ce_command env payload of
          None \<Rightarrow> count_rejected h
        | Some cmd \<Rightarrow>
            (let cmd1 = cmd\<lparr>wc_DeviceID := deviceID\<rparr>;
                 cmd2 = (if wc_Timestamp cmd1 = 0 then cmd1\<lparr>wc_Timestamp := ce_now env (ch_world h)\<rparr> else cmd1)
             in enqueue env cmd2 h))"

definition handleTagWriteCommand :: "'w cmd_env \<Rightarrow> string \<Rightarrow> string \<Rightarrow> 'w cmd_handler \<Rightarrow> 'w cmd_handler" where
  "handleTagWriteCommand env topic payload h0 =
     (let h = count_received h0; parts = split_on (CHR ''/'') topic in
      if length parts < 4 then count_rejected h
      else
        let value = (case ce_value env payload of Some v \<Rightarrow> v | None \<Rightarrow> VString payload)
        in enqueue env \<lparr>wc_RequestID = [], wc_DeviceID = from_end 3 parts, wc_TagID = from_end 2 parts,
             wc_Value = value, wc_Timestamp = ce_now env (ch_world h), wc_Priority = 0\<rparr> h)"

section \<open>One command\<close>

definition lookup_tag :: "'w cmd_handler \<Rightarrow> write_command \<Rightarrow> (device \<times> tag option) option" where
  "lookup_tag h cmd = (case ch_devices h (wc_DeviceID cmd) of
       None \<Rightarrow> None
     | Some d \<Rightarrow> Some (d, case ch_tagByID h (wc_DeviceID cmd) of
           None \<Rightarrow> None
         | Some m \<Rightarrow> m (wc_TagID cmd)))"

text \<open>\<open>processWriteCommand\<close> after the semaphore has been acquired.\<close>

definition execute_command :: "'w cmd_env \<Rightarrow> write_command \<Rightarrow> time \<Rightarrow> 'w cmd_handler \<Rightarrow> 'w cmd_handler" where
  "execute_command env cmd start h =
     (let since = (\<lambda>h. time_sub (ce_now env (ch_world h)) start);
          refuse = (\<lambda>msg h. count_failed (sendResponse env cmd False msg (since h) h))
      in case lookup_tag h cmd of
           None \<Rightarrow> refuse ''device not found'' h
         | Some (d, None) \<Rightarrow> refuse ''tag not found'' h
         | Some (d, Some t) \<Rightarrow>
             if \<not> IsWritable t then refuse ''tag is not writable'' h
             else case pm_WriteTag (ch_manager h) d t (wc_Value cmd) (ch_world h) of
               (Some e, w1) \<Rightarrow> refuse (err_text e) (h\<lparr>ch_world := w1\<rparr>)
             | (None, w1) \<Rightarrow>
                 let h1 = h\<lparr>ch_world := w1\<rparr>
                 in count_succeeded (sendResponse env cmd True [] (since h1) h1))"

section \<open>Start and the processors\<close>

text \<open>\<open>sub1\<close> and \<open>sub2\<close> are what the broker answers to the two subscriptions.\<close>

definition Start :: "err option \<Rightarrow> err option \<Rightarrow> 'w cmd_handler \<Rightarrow> err option \<times> 'w cmd_handler" where
  "Start sub1 sub2 h =
     (if ch_running h then (None, h)
      else
        let h1 = h\<lparr>ch_processors := ch_processors h @ [\<lparr>pr_state = Waiting, pr_draining = False\<rparr>]\<rparr>
        in case sub1 of
             Some e \<Rightarrow> (Some (wrap_v ErrMQTTSubscribeFailed e), h1)
           | None \<Rightarrow> (case sub2 of
                 Some e \<Rightarrow> (Some (wrap_v ErrMQTTSubscribeFailed e), h1)
               | None \<Rightarrow> (None, h1\<lparr>ch_running := True\<rparr>)))"

text \<open>\<open>Stop\<close>, before \<open>wg.Wait\<close> and after it.\<close>

definition stop_begin :: "'w cmd_handler \<Rightarrow> 'w cmd_handler" where
  "stop_begin h = (if ch_running h then h\<lparr>ch_cancelled := True\<rparr> else h)"

definition stop_end :: "'w cmd_handler \<Rightarrow> 'w cmd_handler" where
  "stop_end h = h\<lparr>ch_running := False\<rparr>"

text \<open>The steps of processor \<open>i\<close>.\<close>

definition set_proc :: "nat \<Rightarrow> proc_state \<Rightarrow> 'w cmd_handler \<Rightarrow> 'w cmd_handler" where
  "set_proc i p h = h\<lparr>ch_processors := (ch_processors h)[i := (ch_processors h ! i)\<lparr>pr_state := p\<rparr>]\<rparr>"

definition take_command :: "'w cmd_env \<Rightarrow> nat \<Rightarrow> write_command \<Rightarrow> write_command list \<Rightarrow> 'w cmd_handler \<Rightarrow> 'w cmd_handler" where
  "take_command env i cmd q h = set_proc i (Taken cmd (ce_now env (ch_world h))) (h\<lparr>ch_queue := q\<rparr>)"

definition acquire :: "nat \<Rightarrow> write_command \<Rightarrow> time \<Rightarrow> 'w cmd_handler \<Rightarrow> 'w cmd_handler" where
  "acquire i cmd start h = set_proc i (Writing cmd start) (h\<lparr>ch_semaphore := ch_semaphore h + 1\<rparr>)"

definition refuse_command ::
  "'w cmd_env \<Rightarrow> nat \<Rightarrow> write_command \<Rightarrow> time \<Rightarrow> string \<Rightarrow> 'w cmd_handler \<Rightarrow> 'w cmd_handler" where
  "refuse_command env i cmd start msg h = set_proc i Waiting (count_rejected
     (sendResponse env cmd False msg (time_sub (ce_now env (ch_world h)) start) h))"

definition release :: "nat \<Rightarrow> 'w cmd_handler \<Rightarrow> 'w cmd_handler" where
  "release i h = set_proc i Waiting (h\<lparr>ch_semaphore := ch_semaphore h - 1\<rparr>)"

definition start_draining :: "nat \<Rightarrow> 'w cmd_handler \<Rightarrow> 'w cmd_handler" where
  "start_draining i h = h\<lparr>ch_processors := (ch_processors h)[i := (ch_processors h ! i)\<lparr>pr_draining := True\<rparr>]\<rparr>"

definition exit_processor :: "nat \<Rightarrow> 'w cmd_handler \<Rightarrow> 'w cmd_handler" where
  "exit_processor i h = h\<lparr>ch_processors := take i (ch_processors h) @ drop (Suc i) (ch_processors h)\<rparr>"

definition max_writes :: "'w cmd_handler \<Rightarrow> nat" where
  "max_writes h = nat (MaxConcurrentWrites (ch_config h))"

definition at_proc :: "'w cmd_handler \<Rightarrow> nat \<Rightarrow> proc_state \<Rightarrow> bool" where
  "at_proc h i p \<longleftrightarrow> i < length (ch_processors h) \<and> pr_state (ch_processors h ! i) = p"

text \<open>
  One step.  A Go \<open>select\<close> picks any branch that is ready, and \<open>default\<close> only when none is.  A
  draining processor exits when the queue is empty or its five seconds are over, which the model
  leaves open.  The world may change by itself between steps (\<open>world\<close>).
\<close>

inductive cmd_step :: "'w cmd_env \<Rightarrow> 'w cmd_handler \<Rightarrow> 'w cmd_handler \<Rightarrow> bool" for env where
  write_msg: "cmd_step env h (handleWriteCommand env topic payload h)"
| set_msg: "cmd_step env h (handleTagWriteCommand env topic payload h)"
| start: "cmd_step env h (snd (Start sub1 sub2 h))"
| stop: "cmd_step env h (stop_begin h)"
| stopped: "ch_cancelled h \<Longrightarrow> ch_processors h = [] \<Longrightarrow> cmd_step env h (stop_end h)"
| devices: "cmd_step env h (UpdateDevices ds h)"
| add: "cmd_step env h (AddDevice d h)"
| remove: "cmd_step env h (RemoveDevice i h)"
| takes: "at_proc h i Waiting \<Longrightarrow> chan_recv (ch_queue h) = Some (cmd, q) \<Longrightarrow>
    cmd_step env h (take_command env i cmd q h)"
| acquires: "at_proc h i (Taken cmd start) \<Longrightarrow> ch_semaphore h < max_writes h \<Longrightarrow>
    cmd_step env h (acquire i cmd start h)"
| shutting_down: "at_proc h i (Taken cmd start) \<Longrightarrow> ch_cancelled h \<Longrightarrow>
    cmd_step env h (refuse_command env i cmd start ''service shutting down'' h)"
| rate_limited: "at_proc h i (Taken cmd start) \<Longrightarrow> \<not> ch_semaphore h < max_writes h \<Longrightarrow> \<not> ch_cancelled h \<Longrightarrow>
    cmd_step env h (refuse_command env i cmd start ''rate limit exceeded, too many concurrent writes'' h)"
| writes: "at_proc h i (Writing cmd start) \<Longrightarrow>
    cmd_step env h (release i (execute_command env cmd start h))"
| drains: "at_proc h i Waiting \<Longrightarrow> \<not> pr_draining (ch_processors h ! i) \<Longrightarrow> ch_cancelled h \<Longrightarrow>
    cmd_step env h (start_draining i h)"
| exits: "at_proc h i Waiting \<Longrightarrow> pr_draining (ch_processors h ! i) \<Longrightarrow> cmd_step env h (exit_processor i h)"
| world: "cmd_step env h (h\<lparr>ch_world := w\<rparr>)"

section \<open>Splitting topics\<close>

lemma split_on_ne [simp]: "split_on c s \<noteq> []"
  by (cases s) (auto split: list.splits)

lemma split_on_none: "c \<notin> set s \<Longrightarrow> split_on c s = [s]"
  by (induction s) auto

lemma split_on_append: "split_on c (a @ c # b) = split_on c a @ split_on c b"
proof (induction a)
  case (Cons x a)
  then show ?case by (cases "split_on c a") auto
qed simp

lemma from_end_append: "0 < k \<Longrightarrow> k \<le> length ys \<Longrightarrow> from_end k (xs @ ys) = from_end k ys"
  by (simp add: from_end_def nth_append) (auto simp: not_less)

lemma split_set_topic:
  assumes "CHR ''/'' \<notin> set dev" "CHR ''/'' \<notin> set tagid"
  shows "split_on (CHR ''/'') (pre @ ''/'' @ dev @ ''/'' @ tagid @ ''/set'')
    = split_on (CHR ''/'') pre @ [dev, tagid, ''set'']"
  using assms by (simp add: split_on_append split_on_none)

lemma split_write_topic:
  assumes "CHR ''/'' \<notin> set dev"
  shows "split_on (CHR ''/'') (pre @ ''/'' @ dev @ ''/write'') = split_on (CHR ''/'') pre @ [dev, ''write'']"
  using assms by (simp add: split_on_append split_on_none)

section \<open>Invariants\<close>

definition busy :: "'w cmd_handler \<Rightarrow> nat" where
  "busy h = length (filter (\<lambda>p. pr_state p \<noteq> Waiting) (ch_processors h))"

fun is_writing :: "proc_state \<Rightarrow> bool" where
  "is_writing (Writing _ _) = True"
| "is_writing _ = False"

definition writing :: "'w cmd_handler \<Rightarrow> nat" where
  "writing h = length (filter (\<lambda>p. is_writing (pr_state p)) (ch_processors h))"

definition settled :: "'w cmd_handler \<Rightarrow> nat" where
  "settled h = CommandsSucceeded (ch_stats h) + CommandsFailed (ch_stats h) + CommandsRejected (ch_stats h)"

definition cmd_inv :: "'w cmd_handler \<Rightarrow> bool" where
  "cmd_inv h \<longleftrightarrow> CommandsReceived (ch_stats h) = settled h + length (ch_queue h) + busy h
     \<and> ch_semaphore h = writing h \<and> writing h \<le> max_writes h
     \<and> length (ch_queue h) \<le> nat (CommandQueueSize (ch_config h))"

definition index_inv :: "'w cmd_handler \<Rightarrow> bool" where
  "index_inv h \<longleftrightarrow> (\<forall>i. ch_tagByID h i = map_option buildTagIndex (ch_devices h i))
     \<and> (\<forall>i d. ch_devices h i = Some d \<longrightarrow> dev_ID d = i)"

text \<open>What an operation leaves alone.\<close>

definition same_flow :: "'w cmd_handler \<Rightarrow> 'w cmd_handler \<Rightarrow> bool" where
  "same_flow h' h \<longleftrightarrow> ch_processors h' = ch_processors h \<and> ch_queue h' = ch_queue h
     \<and> ch_semaphore h' = ch_semaphore h \<and> ch_config h' = ch_config h"

lemmas stat_defs = count_received_def count_succeeded_def count_failed_def count_rejected_def

lemma sendResponse_simps [simp]:
  "ch_stats (sendResponse env cmd ok msg z h) = ch_stats h"
  "ch_queue (sendResponse env cmd ok msg z h) = ch_queue h"
  "ch_processors (sendResponse env cmd ok msg z h) = ch_processors h"
  "ch_semaphore (sendResponse env cmd ok msg z h) = ch_semaphore h"
  "ch_config (sendResponse env cmd ok msg z h) = ch_config h"
  "ch_devices (sendResponse env cmd ok msg z h) = ch_devices h"
  "ch_tagByID (sendResponse env cmd ok msg z h) = ch_tagByID h"
  "ch_world (sendResponse env cmd ok msg z h) = ch_world h"
  by (simp_all add: sendResponse_def)

lemma enqueue_flow:
  "ch_processors (enqueue env cmd h) = ch_processors h" "ch_semaphore (enqueue env cmd h) = ch_semaphore h"
  "ch_config (enqueue env cmd h) = ch_config h"
  "CommandsReceived (ch_stats (enqueue env cmd h)) = CommandsReceived (ch_stats h)"
  "settled (enqueue env cmd h) + length (ch_queue (enqueue env cmd h)) = Suc (settled h + length (ch_queue h))"
  by (auto simp: enqueue_def stat_defs settled_def dest!: chan.send_Some split: option.splits)

lemma enqueue_bound:
  "length (ch_queue h) \<le> nat (CommandQueueSize (ch_config h)) \<Longrightarrow>
     length (ch_queue (enqueue env cmd h)) \<le> nat (CommandQueueSize (ch_config (enqueue env cmd h)))"
  by (auto simp: enqueue_def stat_defs split: option.splits dest: chan.send_bound)

lemma enqueue_inv:
  assumes "cmd_inv h" shows "cmd_inv (enqueue env cmd (count_received h))"
  using assms enqueue_flow [of env cmd "count_received h"] enqueue_bound [of "count_received h" env cmd]
  by (simp add: cmd_inv_def busy_def writing_def max_writes_def) (simp add: count_received_def settled_def)

lemma reject_received_inv: "cmd_inv h \<Longrightarrow> cmd_inv (count_rejected (count_received h))"
  by (simp add: cmd_inv_def stat_defs settled_def busy_def writing_def max_writes_def)

lemma callbacks_inv:
  "cmd_inv h \<Longrightarrow> cmd_inv (handleWriteCommand env topic payload h)"
  "cmd_inv h \<Longrightarrow> cmd_inv (handleTagWriteCommand env topic payload h)"
  by (auto simp: handleWriteCommand_def handleTagWriteCommand_def Let_def enqueue_inv reject_received_inv
      split: option.splits)

lemma execute_flow:
  "same_flow (execute_command env cmd start h) h"
  "CommandsReceived (ch_stats (execute_command env cmd start h)) = CommandsReceived (ch_stats h)"
  "settled (execute_command env cmd start h) = Suc (settled h)"
  by (auto simp: execute_command_def Let_def same_flow_def stat_defs settled_def
      split: option.splits prod.splits)

lemma AddDevice_flow [simp]:
  "same_flow (AddDevice d h) h" "ch_stats (AddDevice d h) = ch_stats h"
  by (simp_all add: AddDevice_def same_flow_def)

lemma UpdateDevices_flow:
  "same_flow (UpdateDevices ds h) h \<and> ch_stats (UpdateDevices ds h) = ch_stats h"
proof -
  have "same_flow (foldl (\<lambda>h d. AddDevice d h) g ds) g
      \<and> ch_stats (foldl (\<lambda>h d. AddDevice d h) g ds) = ch_stats g" for g :: "'w cmd_handler"
  proof (induction ds arbitrary: g)
    case (Cons d ds)
    from Cons.IH [of "AddDevice d g"] show ?case by (simp add: same_flow_def AddDevice_def)
  qed (simp add: same_flow_def)
  from this [of "h\<lparr>ch_devices := Map.empty, ch_tagByID := Map.empty\<rparr>"] show ?thesis
    by (simp add: UpdateDevices_def same_flow_def)
qed

lemma same_flow_inv:
  assumes "same_flow h' h" "ch_stats h' = ch_stats h"
  shows "cmd_inv h' = cmd_inv h"
  using assms by (simp add: same_flow_def cmd_inv_def settled_def busy_def writing_def max_writes_def)

text \<open>How a processor's step changes the two counts of processors.\<close>

lemma set_proc_simps [simp]:
  "ch_stats (set_proc i p h) = ch_stats h" "ch_queue (set_proc i p h) = ch_queue h"
  "ch_semaphore (set_proc i p h) = ch_semaphore h" "ch_config (set_proc i p h) = ch_config h"
  "settled (set_proc i p h) = settled h" "max_writes (set_proc i p h) = max_writes h"
  by (simp_all add: set_proc_def settled_def max_writes_def)

lemma set_proc_counts:
  assumes "at_proc h i p"
  shows "busy (set_proc i p' h) + (if p = Waiting then 0 else 1) = busy h + (if p' = Waiting then 0 else 1)"
    and "writing (set_proc i p' h) + (if is_writing p then 1 else 0) = writing h + (if is_writing p' then 1 else 0)"
  using assms
    length_filter_update [of i "ch_processors h" "\<lambda>p. pr_state p \<noteq> Waiting" "(ch_processors h ! i)\<lparr>pr_state := p'\<rparr>"]
    length_filter_update [of i "ch_processors h" "\<lambda>p. is_writing (pr_state p)" "(ch_processors h ! i)\<lparr>pr_state := p'\<rparr>"]
  by (auto simp: at_proc_def busy_def writing_def set_proc_def)

lemma at_proc_same: "ch_processors h' = ch_processors h \<Longrightarrow> at_proc h' i p = at_proc h i p"
  by (simp add: at_proc_def)

lemma same_procs_counts:
  "ch_processors h' = ch_processors h \<Longrightarrow> busy h' = busy h \<and> writing h' = writing h"
  by (simp add: busy_def writing_def)

lemma is_writing_not_waiting: "is_writing p \<Longrightarrow> p \<noteq> Waiting"
  by auto

lemma writing_pos: "at_proc h i p \<Longrightarrow> is_writing p \<Longrightarrow> 0 < writing h"
  using set_proc_counts(2) [of h i p Waiting] by simp

lemma take_command_inv:
  assumes "cmd_inv h" "at_proc h i Waiting" "chan_recv (ch_queue h) = Some (cmd, q)"
  shows "cmd_inv (take_command env i cmd q h)"
proof -
  let ?h = "h\<lparr>ch_queue := q\<rparr>"
  have "at_proc ?h i Waiting" using assms(2) by (simp add: at_proc_def)
  from set_proc_counts [OF this, of "Taken cmd (ce_now env (ch_world h))"]
  show ?thesis
    using assms(1) chan.recv_Some [OF assms(3)] same_procs_counts [of ?h h]
    by (simp add: take_command_def cmd_inv_def) (simp add: settled_def max_writes_def)
qed

lemma acquire_inv:
  assumes "cmd_inv h" "at_proc h i (Taken cmd start)" "ch_semaphore h < max_writes h"
  shows "cmd_inv (acquire i cmd start h)"
proof -
  let ?h = "h\<lparr>ch_semaphore := ch_semaphore h + 1\<rparr>"
  have "at_proc ?h i (Taken cmd start)" using assms(2) by (simp add: at_proc_def)
  from set_proc_counts [OF this, of "Writing cmd start"]
  show ?thesis
    using assms(1,3) same_procs_counts [of ?h h]
    by (simp add: acquire_def cmd_inv_def) (simp add: settled_def max_writes_def)
qed

lemma refuse_inv:
  assumes "cmd_inv h" "at_proc h i (Taken cmd start)"
  shows "cmd_inv (refuse_command env i cmd start msg h)"
proof -
  let ?h = "count_rejected (sendResponse env cmd False msg (time_sub (ce_now env (ch_world h)) start) h)"
  have p: "ch_processors ?h = ch_processors h" by (simp add: stat_defs)
  have "at_proc ?h i (Taken cmd start)" using assms(2) at_proc_same [OF p] by simp
  from set_proc_counts [OF this, of Waiting]
  show ?thesis
    using assms(1) same_procs_counts [OF p]
    by (simp add: refuse_command_def cmd_inv_def) (simp add: stat_defs settled_def max_writes_def)
qed

lemma release_inv:
  assumes "cmd_inv h" "at_proc h i (Writing cmd start)"
  shows "cmd_inv (release i (execute_command env cmd start h))"
proof -
  let ?e = "execute_command env cmd start h"
  let ?h = "?e\<lparr>ch_semaphore := ch_semaphore ?e - 1\<rparr>"
  note flow = execute_flow [of env cmd start h, unfolded same_flow_def]
  have p: "ch_processors ?h = ch_processors h" using flow by simp
  have "at_proc ?h i (Writing cmd start)" using assms(2) at_proc_same [OF p] by simp
  from set_proc_counts [OF this, of Waiting] writing_pos [OF this]
  show ?thesis
    using assms(1) same_procs_counts [OF p] flow
    by (simp add: release_def cmd_inv_def) (simp add: settled_def max_writes_def)
qed

lemma exit_inv:
  assumes "cmd_inv h" "at_proc h i Waiting"
  shows "cmd_inv (exit_processor i h)"
proof -
  have i: "i < length (ch_processors h)" "pr_state (ch_processors h ! i) = Waiting"
    using assms(2) by (simp_all add: at_proc_def)
  have "busy (exit_processor i h) = busy h" "writing (exit_processor i h) = writing h"
    using length_filter_remove [OF i(1), of "\<lambda>p. pr_state p \<noteq> Waiting"] i(2)
      length_filter_remove [OF i(1), of "\<lambda>p. is_writing (pr_state p)"]
    by (simp_all add: busy_def writing_def exit_processor_def)
  then show ?thesis using assms(1)
    by (simp add: cmd_inv_def) (simp add: exit_processor_def settled_def max_writes_def)
qed

lemma drain_inv:
  assumes "cmd_inv h" "at_proc h i Waiting"
  shows "cmd_inv (start_draining i h)"
proof -
  have "busy (start_draining i h) = busy h" "writing (start_draining i h) = writing h"
    using assms(2)
      length_filter_update [of i "ch_processors h" "\<lambda>p. pr_state p \<noteq> Waiting" "(ch_processors h ! i)\<lparr>pr_draining := True\<rparr>"]
      length_filter_update [of i "ch_processors h" "\<lambda>p. is_writing (pr_state p)" "(ch_processors h ! i)\<lparr>pr_draining := True\<rparr>"]
    by (simp_all add: at_proc_def busy_def writing_def start_draining_def)
  then show ?thesis using assms(1)
    by (simp add: cmd_inv_def) (simp add: start_draining_def settled_def max_writes_def)
qed

lemma Start_inv: "cmd_inv h \<Longrightarrow> cmd_inv (snd (Start sub1 sub2 h))"
  by (auto simp: Start_def cmd_inv_def busy_def writing_def settled_def max_writes_def Let_def
      split: option.splits)

lemma small_steps_flow:
  "same_flow (stop_begin h) h \<and> ch_stats (stop_begin h) = ch_stats h"
  "same_flow (stop_end h) h \<and> ch_stats (stop_end h) = ch_stats h"
  "same_flow (RemoveDevice z h) h \<and> ch_stats (RemoveDevice z h) = ch_stats h"
  "same_flow (h\<lparr>ch_world := w\<rparr>) h \<and> ch_stats (h\<lparr>ch_world := w\<rparr>) = ch_stats h"
  by (simp_all add: same_flow_def stop_begin_def stop_end_def RemoveDevice_def)

lemma same_flow_inv2: "same_flow h' h \<and> ch_stats h' = ch_stats h \<Longrightarrow> cmd_inv h' = cmd_inv h"
  by (elim conjE) (rule same_flow_inv)

lemmas small_steps_inv = small_steps_flow [THEN same_flow_inv2] UpdateDevices_flow [THEN same_flow_inv2]
  conjI [OF AddDevice_flow, THEN same_flow_inv2]

lemma cmd_step_inv: "cmd_step env h h' \<Longrightarrow> cmd_inv h \<Longrightarrow> cmd_inv h'"
  by (induction rule: cmd_step.induct)
    (simp_all add: callbacks_inv Start_inv small_steps_inv take_command_inv acquire_inv refuse_inv
      release_inv drain_inv exit_inv)

section \<open>Reachable states\<close>

definition reachable :: "'w cmd_env \<Rightarrow> 'w cmd_handler \<Rightarrow> bool" where
  "reachable env h \<longleftrightarrow> (\<exists>pm ds cfg w. (cmd_step env)\<^sup>*\<^sup>* (NewCommandHandler pm ds cfg w) h)"

lemma config_same [simp]:
  "ch_config (UpdateDevices ds h) = ch_config h" "ch_config (AddDevice d h) = ch_config h"
  "ch_config (RemoveDevice z h) = ch_config h" "ch_config (execute_command env cmd start h) = ch_config h"
  "ch_config (stop_begin h) = ch_config h" "ch_config (stop_end h) = ch_config h"
  using UpdateDevices_flow [of ds h] execute_flow(1) [of env cmd start h] small_steps_flow(1,2) [of h]
  by (simp_all add: same_flow_def AddDevice_def RemoveDevice_def)

lemma NewCommandHandler_limits:
  "0 < max_writes (NewCommandHandler pm ds cfg w)" "0 < CommandQueueSize (ch_config (NewCommandHandler pm ds cfg w))"
  by (simp_all add: NewCommandHandler_def Let_def max_writes_def)

lemma NewCommandHandler_inv: "cmd_inv (NewCommandHandler pm ds cfg w)"
  by (simp add: NewCommandHandler_def Let_def small_steps_inv)
    (simp add: cmd_inv_def settled_def busy_def writing_def max_writes_def)

lemma handler_config [simp]:
  "ch_config (handleWriteCommand env topic payload h) = ch_config h"
  "ch_config (handleTagWriteCommand env topic payload h) = ch_config h"
  "ch_config (snd (Start sub1 sub2 h)) = ch_config h"
  by (auto simp: handleWriteCommand_def handleTagWriteCommand_def Let_def enqueue_flow Start_def stat_defs
      split: option.splits)

lemma step_config: "cmd_step env h h' \<Longrightarrow> ch_config h' = ch_config h"
  by (induction rule: cmd_step.induct)
    (simp_all add: take_command_def acquire_def refuse_command_def release_def exit_processor_def
      start_draining_def stat_defs)

lemma reachable_inv:
  assumes "reachable env h"
  shows "cmd_inv h \<and> 0 < max_writes h"
proof -
  from assms obtain pm ds cfg w where "(cmd_step env)\<^sup>*\<^sup>* (NewCommandHandler pm ds cfg w) h"
    by (auto simp: reachable_def)
  then show ?thesis
  proof (induction rule: rtranclp_induct)
    case base
    then show ?case by (simp add: NewCommandHandler_inv NewCommandHandler_limits)
  next
    case (step y z)
    then show ?case using cmd_step_inv [of env y z] step_config [of env y z] by (simp add: max_writes_def)
  qed
qed

text \<open>The device index.\<close>

lemma index_inv_same: "ch_devices h' = ch_devices h \<Longrightarrow> ch_tagByID h' = ch_tagByID h \<Longrightarrow> index_inv h' = index_inv h"
  by (simp add: index_inv_def)

lemma AddDevice_index: "index_inv h \<Longrightarrow> index_inv (AddDevice d h)"
  by (simp add: index_inv_def AddDevice_def)

lemma UpdateDevices_index: "index_inv (UpdateDevices ds h)"
proof -
  have "index_inv g \<Longrightarrow> index_inv (foldl (\<lambda>h d. AddDevice d h) g ds)" for g :: "'w cmd_handler"
    by (induction ds arbitrary: g) (simp_all add: AddDevice_index)
  moreover have "index_inv (h\<lparr>ch_devices := Map.empty, ch_tagByID := Map.empty\<rparr>)" by (simp add: index_inv_def)
  ultimately show ?thesis by (simp add: UpdateDevices_def)
qed

lemma RemoveDevice_index: "index_inv h \<Longrightarrow> index_inv (RemoveDevice z h)"
  by (simp add: index_inv_def RemoveDevice_def)

lemma flow_index:
  "ch_devices (handleWriteCommand env topic payload h) = ch_devices h
     \<and> ch_tagByID (handleWriteCommand env topic payload h) = ch_tagByID h"
  "ch_devices (handleTagWriteCommand env topic payload h) = ch_devices h
     \<and> ch_tagByID (handleTagWriteCommand env topic payload h) = ch_tagByID h"
  "ch_devices (snd (Start sub1 sub2 h)) = ch_devices h \<and> ch_tagByID (snd (Start sub1 sub2 h)) = ch_tagByID h"
  "ch_devices (execute_command env cmd st h) = ch_devices h \<and> ch_tagByID (execute_command env cmd st h) = ch_tagByID h"
  by (auto simp: handleWriteCommand_def handleTagWriteCommand_def Let_def enqueue_def Start_def
      execute_command_def stat_defs split: option.splits prod.splits)

lemma set_proc_index [simp]:
  "ch_devices (set_proc i p h) = ch_devices h" "ch_tagByID (set_proc i p h) = ch_tagByID h"
  by (simp_all add: set_proc_def)

lemma step_index: "cmd_step env h h' \<Longrightarrow> index_inv h \<Longrightarrow> index_inv h'"
proof (induction rule: cmd_step.induct)
  case (devices h ds)
  show ?case by (rule UpdateDevices_index)
next
  case (add h d)
  then show ?case by (rule AddDevice_index)
next
  case (remove h i)
  then show ?case by (rule RemoveDevice_index)
qed (simp_all add: flow_index index_inv_def stop_begin_def stop_end_def take_command_def acquire_def
    refuse_command_def release_def start_draining_def exit_processor_def stat_defs)

lemma reachable_index:
  assumes "reachable env h" shows "index_inv h"
proof -
  from assms obtain pm ds cfg w where "(cmd_step env)\<^sup>*\<^sup>* (NewCommandHandler pm ds cfg w) h"
    by (auto simp: reachable_def)
  then show ?thesis
    by (induction rule: rtranclp_induct)
      (auto simp: NewCommandHandler_def Let_def UpdateDevices_index intro: step_index)
qed

lemma buildTagIndex_Some: "buildTagIndex d k = Some t \<Longrightarrow> t \<in> set (Tags d) \<and> tag_ID t = k"
proof -
  have "foldl (\<lambda>m t. m(tag_ID t \<mapsto> t)) m ts k = Some t \<Longrightarrow> m k = Some t \<or> t \<in> set ts \<and> tag_ID t = k" for ts m
    by (induction ts arbitrary: m) (force split: if_splits)+
  from this [of Map.empty "Tags d"] show "buildTagIndex d k = Some t \<Longrightarrow> t \<in> set (Tags d) \<and> tag_ID t = k"
    by (simp add: buildTagIndex_def)
qed

lemma lookup_tag_known:
  assumes "index_inv h" "lookup_tag h cmd = Some (d, Some t)"
  shows "ch_devices h (wc_DeviceID cmd) = Some d \<and> dev_ID d = wc_DeviceID cmd \<and> t \<in> set (Tags d) \<and> tag_ID t = wc_TagID cmd"
  using assms by (auto simp: lookup_tag_def index_inv_def split: option.splits dest: buildTagIndex_Some)

section \<open>Executing a command\<close>

lemma execute_refused:
  assumes "\<And>d t. lookup_tag h cmd = Some (d, Some t) \<Longrightarrow> \<not> IsWritable t"
  shows "ch_world (execute_command env cmd start h) = ch_world h
    \<and> CommandsFailed (ch_stats (execute_command env cmd start h)) = Suc (CommandsFailed (ch_stats h))
    \<and> CommandsSucceeded (ch_stats (execute_command env cmd start h)) = CommandsSucceeded (ch_stats h)"
  using assms by (auto simp: execute_command_def Let_def stat_defs split: option.splits prod.splits)

lemma execute_written:
  assumes "lookup_tag h cmd = Some (d, Some t)" "IsWritable t"
  shows "ch_world (execute_command env cmd start h) = snd (pm_WriteTag (ch_manager h) d t (wc_Value cmd) (ch_world h))
    \<and> CommandsSucceeded (ch_stats (execute_command env cmd start h)) = CommandsSucceeded (ch_stats h)
      + (if fst (pm_WriteTag (ch_manager h) d t (wc_Value cmd) (ch_world h)) = None then 1 else 0)"
  using assms by (auto simp: execute_command_def Let_def stat_defs split: option.splits prod.splits)

lemma sendResponse_published:
  "EnableAcknowledgement (ch_config h) \<Longrightarrow> \<exists>r. ch_published (sendResponse env cmd ok msg z h) = ch_published h
     @ [(ResponseTopicPrefix (ch_config h) @ ''/'' @ wc_DeviceID cmd @ ''/'' @ wc_TagID cmd, r)]
     \<and> wr_Success r = ok \<and> wr_RequestID r = wc_RequestID cmd"
  by (simp add: sendResponse_def)

lemma published_counted [simp]:
  "ch_published (count_failed h) = ch_published h" "ch_published (count_succeeded h) = ch_published h"
  "ch_stats (count_failed h) = (ch_stats h)\<lparr>CommandsFailed := CommandsFailed (ch_stats h) + 1\<rparr>"
  "ch_stats (count_succeeded h) = (ch_stats h)\<lparr>CommandsSucceeded := CommandsSucceeded (ch_stats h) + 1\<rparr>"
  by (simp_all add: stat_defs)

lemma execute_published:
  assumes ack: "EnableAcknowledgement (ch_config h)"
  shows "\<exists>r. ch_published (execute_command env cmd start h) = ch_published h
     @ [(ResponseTopicPrefix (ch_config h) @ ''/'' @ wc_DeviceID cmd @ ''/'' @ wc_TagID cmd, r)]
     \<and> wr_RequestID r = wc_RequestID cmd
     \<and> CommandsSucceeded (ch_stats (execute_command env cmd start h))
         = CommandsSucceeded (ch_stats h) + (if wr_Success r then 1 else 0)"
proof -
  have *: "\<exists>r. ch_published (sendResponse env cmd ok msg z h') = ch_published h
       @ [(ResponseTopicPrefix (ch_config h) @ ''/'' @ wc_DeviceID cmd @ ''/'' @ wc_TagID cmd, r)]
       \<and> wr_Success r = ok \<and> wr_RequestID r = wc_RequestID cmd"
    if "ch_config h' = ch_config h" "ch_published h' = ch_published h" for ok msg z and h' :: "'a cmd_handler"
    using sendResponse_published [of h' env cmd ok msg z] ack that by simp
  have "CommandsSucceeded (ch_stats (execute_command env cmd start h)) = CommandsSucceeded (ch_stats h)
      \<and> (\<exists>msg h'. ch_config h' = ch_config h \<and> ch_published h' = ch_published h \<and>
           ch_published (execute_command env cmd start h) = ch_published (sendResponse env cmd False msg
             (time_sub (ce_now env (ch_world h')) start) h'))
    \<or> CommandsSucceeded (ch_stats (execute_command env cmd start h)) = Suc (CommandsSucceeded (ch_stats h))
      \<and> (\<exists>h'. ch_config h' = ch_config h \<and> ch_published h' = ch_published h \<and>
           ch_published (execute_command env cmd start h) = ch_published (sendResponse env cmd True []
             (time_sub (ce_now env (ch_world h')) start) h'))"
    by (auto simp: execute_command_def Let_def split: option.splits prod.splits)
      (metis cmd_handler.ext_inject cmd_handler.surjective cmd_handler.update_convs(12))+
  then show ?thesis using * by (elim disjE conjE exE) (simp, metis add.right_neutral, simp, metis)
qed

lemma set_topic_queued:
  assumes "CHR ''/'' \<notin> set dev" "CHR ''/'' \<notin> set tagid"
    and room: "length (ch_queue h) < nat (CommandQueueSize (ch_config h))"
  shows "ch_queue (handleTagWriteCommand env (pre @ ''/'' @ dev @ ''/'' @ tagid @ ''/set'') payload h)
    = ch_queue h @ [\<lparr>wc_RequestID = [], wc_DeviceID = dev, wc_TagID = tagid,
        wc_Value = (case ce_value env payload of Some v \<Rightarrow> v | None \<Rightarrow> VString payload),
        wc_Timestamp = ce_now env (ch_world h), wc_Priority = 0\<rparr>]"
proof -
  obtain p ps where pre: "split_on (CHR ''/'') pre = p # ps" by (cases "split_on (CHR ''/'') pre") auto
  have "split_on (CHR ''/'') (pre @ ''/'' @ dev @ ''/'' @ tagid @ ''/set'')
      = p # ps @ [dev, tagid, ''set'']"
    using split_set_topic [OF assms(1,2), of pre] pre by simp
  then show ?thesis
    using room from_end_append [of 3 "[dev, tagid, ''set'']" "p # ps"]
      from_end_append [of 2 "[dev, tagid, ''set'']" "p # ps"]
    by (simp add: handleTagWriteCommand_def Let_def enqueue_def chan_send_def count_received_def from_end_def)
qed

section \<open>A handler to try it on\<close>

definition quiet_env :: "unit cmd_env" where
  "quiet_env = \<lparr>ce_now = (\<lambda>w. 0), ce_command = (\<lambda>s. None), ce_value = (\<lambda>s. Some (VBool True))\<rparr>"

definition one_tag_device :: device where
  "one_tag_device = raw_device\<lparr>Tags := [int_tag]\<rparr>"

definition quiet_pool :: "unit pool" where
  "quiet_pool = \<lparr>pl_ReadTags = (\<lambda>d ts w. (([], None), w)), pl_ReadTag = (\<lambda>d t w. ((None, None), w)),
     pl_WriteTag = (\<lambda>d t v w. (None, w)), pl_Close = (\<lambda>w. (None, w)), pl_HealthCheck = (\<lambda>w. (None, w))\<rparr>"

definition new_handler :: "unit cmd_handler" where
  "new_handler = NewCommandHandler (RegisterPool ProtocolModbusTCP quiet_pool NewProtocolManager)
     [one_tag_device] DefaultCommandConfig ()"

definition level_command :: write_command where
  "level_command = \<lparr>wc_RequestID = [], wc_DeviceID = ''plc'', wc_TagID = ''level'', wc_Value = VBool True,
     wc_Timestamp = 0, wc_Priority = 0\<rparr>"

definition busy_handler :: "unit cmd_handler" where
  "busy_handler = new_handler\<lparr>ch_running := True, ch_processors := [\<lparr>pr_state = Taken level_command 0, pr_draining = False\<rparr>],
     ch_stats := (ch_stats new_handler)\<lparr>CommandsReceived := 1\<rparr>\<rparr>"

lemma new_handler_simps:
  "ch_stats new_handler = \<lparr>CommandsReceived = 0, CommandsSucceeded = 0, CommandsFailed = 0, CommandsRejected = 0\<rparr>"
  "ch_config new_handler = DefaultCommandConfig" "ch_queue new_handler = []" "ch_processors new_handler = []"
  "ch_running new_handler = False" "ch_semaphore new_handler = 0" "ch_world new_handler = ()"
  "ch_devices new_handler = [''plc'' \<mapsto> one_tag_device]"
  "ch_tagByID new_handler = [''plc'' \<mapsto> buildTagIndex one_tag_device]"
  "ch_manager new_handler = [ProtocolModbusTCP \<mapsto> quiet_pool]" "ch_published new_handler = []"
  by (simp_all add: new_handler_def NewCommandHandler_def DefaultCommandConfig_def UpdateDevices_def AddDevice_def
      one_tag_device_def raw_device_def RegisterPool_def NewProtocolManager_def)

text \<open>Started, one command received over its topic, taken by the processor.\<close>

lemma busy_handler_reachable: "reachable quiet_env busy_handler"
proof -
  let ?cmd = level_command
  define h1 where "h1 = snd (Start None None new_handler)"
  define h2 where "h2 = handleTagWriteCommand quiet_env (''$nexus/cmd'' @ ''/'' @ ''plc'' @ ''/'' @ ''level'' @ ''/set'') ''true'' h1"
  have h1: "h1 = new_handler\<lparr>ch_running := True, ch_processors := [\<lparr>pr_state = Waiting, pr_draining = False\<rparr>]\<rparr>"
    by (simp add: h1_def Start_def new_handler_simps)
  have h2: "h2 = h1\<lparr>ch_queue := [?cmd], ch_stats := (ch_stats new_handler)\<lparr>CommandsReceived := 1\<rparr>\<rparr>"
    by (simp add: h2_def h1 handleTagWriteCommand_def Let_def enqueue_def chan_send_def count_received_def
        new_handler_simps DefaultCommandConfig_def from_end_def quiet_env_def level_command_def)
  have "cmd_step quiet_env new_handler h1" unfolding h1_def by (rule cmd_step.start)
  moreover have "cmd_step quiet_env h1 h2" unfolding h2_def by (rule cmd_step.set_msg)
  moreover have "cmd_step quiet_env h2 (take_command quiet_env 0 ?cmd [] h2)"
    by (rule cmd_step.takes) (simp_all add: h2 h1 at_proc_def)
  moreover have "take_command quiet_env 0 ?cmd [] h2 = busy_handler"
    by (simp add: take_command_def set_proc_def h2 h1 busy_handler_def quiet_env_def new_handler_simps
        cmd_handler.defs(1) [symmetric])
  ultimately have "(cmd_step quiet_env)\<^sup>*\<^sup>* new_handler busy_handler"
    by (metis rtranclp.rtrancl_into_rtrancl rtranclp.rtrancl_refl)
  then show ?thesis unfolding reachable_def new_handler_def by blast
qed

section \<open>Properties\<close>

text \<open>
  C2: No command is lost or counted twice, whatever the interleaving of callbacks, processors, device
  updates and shutdown: the commands received are those that succeeded, failed or were rejected,
  those in the queue and those a processor holds; the queue stays within its capacity and the
  semaphore is held exactly by the writes in progress, never by more than the configured number.
\<close>

theorem commands_accounted:
  assumes "reachable env h"
  shows "CommandsReceived (ch_stats h) = CommandsSucceeded (ch_stats h) + CommandsFailed (ch_stats h)
       + CommandsRejected (ch_stats h) + length (ch_queue h) + busy h
     \<and> length (ch_queue h) \<le> nat (CommandQueueSize (ch_config h))
     \<and> ch_semaphore h = writing h \<and> writing h \<le> max_writes h"
  using reachable_inv [OF assms] by (simp add: cmd_inv_def settled_def)

theorem commands_accounted_witness: "ch_semaphore busy_handler = writing busy_handler"
  using commands_accounted [OF busy_handler_reachable] by simp

text \<open>
  With the single processor that a successful start creates, the rate limit never rejects: when
  the processor asks for the semaphore it is free, so \<open>MaxConcurrentWrites\<close> has no effect.
\<close>

theorem one_processor_never_limited:
  assumes "reachable env h" and "length (ch_processors h) \<le> 1" and "at_proc h i (Taken cmd start)"
  shows "ch_semaphore h = 0 \<and> ch_semaphore h < max_writes h"
proof -
  have "ch_processors h = [ch_processors h ! i]" "is_writing (pr_state (ch_processors h ! i)) = False"
    using assms(2,3) by (auto simp: at_proc_def length_Suc_conv le_Suc_eq)
  then have "writing h = 0" by (metis filter.simps writing_def list.size(3))
  then show ?thesis using reachable_inv [OF assms(1)] by (simp add: cmd_inv_def)
qed

theorem one_processor_never_limited_witness:
  "ch_semaphore busy_handler = 0 \<and> ch_semaphore busy_handler < max_writes busy_handler"
  by (rule one_processor_never_limited [OF busy_handler_reachable, of 0 level_command 0])
    (simp_all add: busy_handler_def at_proc_def)

text \<open>
  C8: A write reaches the protocol manager only for a device and a writable tag that the handler
  knows: in every reachable state, executing a command either leaves the devices' world untouched
  and counts a failure, or performs exactly the manager's write of the command's value to the tag of
  that name of the device of that name, and counts a success just when that write returns no error.
\<close>

theorem writes_only_known_writable_tags:
  assumes "reachable env h"
  shows "ch_world (execute_command env cmd start h) = ch_world h
       \<and> CommandsFailed (ch_stats (execute_command env cmd start h)) = Suc (CommandsFailed (ch_stats h))
       \<and> CommandsSucceeded (ch_stats (execute_command env cmd start h)) = CommandsSucceeded (ch_stats h)
     \<or> (\<exists>d t. ch_devices h (wc_DeviceID cmd) = Some d \<and> dev_ID d = wc_DeviceID cmd \<and> t \<in> set (Tags d)
       \<and> tag_ID t = wc_TagID cmd \<and> IsWritable t
       \<and> ch_world (execute_command env cmd start h)
           = snd (pm_WriteTag (ch_manager h) d t (wc_Value cmd) (ch_world h))
       \<and> CommandsSucceeded (ch_stats (execute_command env cmd start h)) = CommandsSucceeded (ch_stats h)
           + (if fst (pm_WriteTag (ch_manager h) d t (wc_Value cmd) (ch_world h)) = None then 1 else 0))"
proof (cases "\<exists>d t. lookup_tag h cmd = Some (d, Some t) \<and> IsWritable t")
  case True
  then obtain d t where l: "lookup_tag h cmd = Some (d, Some t)" "IsWritable t" by blast
  show ?thesis
    using lookup_tag_known [OF reachable_index [OF assms] l(1)] execute_written [OF l, of env start] l(2) by blast
next
  case False
  then show ?thesis using execute_refused [of h cmd env start] by blast
qed

theorem writes_only_known_writable_tags_witness:
  "CommandsSucceeded (ch_stats (execute_command quiet_env level_command 0 busy_handler)) = 1"
proof -
  have "buildTagIndex one_tag_device ''level'' = Some int_tag"
    by (simp add: buildTagIndex_def one_tag_device_def int_tag_def raw_tag_def)
  then have "\<not> CommandsFailed (ch_stats (execute_command quiet_env level_command 0 busy_handler))
      = Suc (CommandsFailed (ch_stats busy_handler))"
    by (simp add: execute_command_def lookup_tag_def busy_handler_def new_handler_simps level_command_def
        pm_WriteTag_def GetPool_def one_tag_device_def raw_device_def quiet_pool_def Let_def sendResponse_def
        DefaultCommandConfig_def int_tag_def raw_tag_def zero_tag_def IsWritable_def)
  then show ?thesis
    using writes_only_known_writable_tags [OF busy_handler_reachable, of level_command 0]
    by (auto simp: busy_handler_def new_handler_simps level_command_def one_tag_device_def raw_device_def
        pm_WriteTag_def GetPool_def quiet_pool_def)
qed

text \<open>
  With acknowledgements enabled, executing a command publishes exactly one response, on the
  response topic of the command's device and tag and with its request id, that says success just
  when the command was counted as succeeded.
\<close>

theorem one_response_per_command:
  assumes "EnableAcknowledgement (ch_config h)"
  shows "\<exists>r. ch_published (execute_command env cmd start h) = ch_published h
     @ [(ResponseTopicPrefix (ch_config h) @ ''/'' @ wc_DeviceID cmd @ ''/'' @ wc_TagID cmd, r)]
     \<and> wr_RequestID r = wc_RequestID cmd
     \<and> CommandsSucceeded (ch_stats (execute_command env cmd start h))
         = CommandsSucceeded (ch_stats h) + (if wr_Success r then 1 else 0)"
  using assms by (rule execute_published)

theorem one_response_per_command_witness:
  "\<exists>r. ch_published (execute_command quiet_env level_command 0 busy_handler)
     = [(''$nexus/cmd/response/plc/level'', r)]"
  using one_response_per_command [of busy_handler quiet_env level_command 0]
  by (auto simp: busy_handler_def new_handler_simps DefaultCommandConfig_def level_command_def)

text \<open>
  A message on a tag's set topic queues one command for exactly that device and tag, under any
  topic prefix, while the queue has room.
\<close>

theorem set_topic_addresses_tag:
  assumes "CHR ''/'' \<notin> set dev" and "CHR ''/'' \<notin> set tagid"
    and "length (ch_queue h) < nat (CommandQueueSize (ch_config h))"
  shows "ch_queue (handleTagWriteCommand env (pre @ ''/'' @ dev @ ''/'' @ tagid @ ''/set'') payload h)
    = ch_queue h @ [\<lparr>wc_RequestID = [], wc_DeviceID = dev, wc_TagID = tagid,
        wc_Value = (case ce_value env payload of Some v \<Rightarrow> v | None \<Rightarrow> VString payload),
        wc_Timestamp = ce_now env (ch_world h), wc_Priority = 0\<rparr>]"
  using assms by (rule set_topic_queued)

theorem set_topic_addresses_tag_witness:
  "ch_queue (handleTagWriteCommand quiet_env (''$nexus/cmd'' @ ''/'' @ ''plc'' @ ''/'' @ ''level'' @ ''/set'') ''1'' new_handler)
   = [level_command]"
  using set_topic_addresses_tag [of "''plc''" "''level''" new_handler quiet_env "''$nexus/cmd''" "''1''"]
  by (simp add: new_handler_simps DefaultCommandConfig_def quiet_env_def level_command_def)

end
