(* ===== verification/Mqtt_Publisher.thy ===== *)
theory Mqtt_Publisher
  imports Domain Go_Channel
begin

text \<open>
  \<open>internal/adapter/mqtt/publisher.go\<close>: data points published to the broker, buffered while the
  connection is down, with the buffer's processor goroutine, its drain on shutdown and the topic
  statistics.  The broker client, the clock, \<open>json.Marshal\<close> and the TLS set-up are parameters; the
  Prometheus metrics are left out.  A call of \<open>publishRaw\<close> is one step; what other goroutines do to
  the buffer and the connection between two channel operations of a call, and between two points of
  a batch, is a parameter, \<open>me_rivals\<close>.
\<close>

section \<open>Data\<close>

record mqtt_config =
  mq_QoS :: byte
  mq_KeepAlive :: duration
  mq_ConnectTimeout :: duration
  mq_ReconnectDelay :: duration
  mq_BufferSize :: int
  mq_PublishTimeout :: duration
  mq_RetainMessages :: bool
  mq_TLSEnabled :: bool

record buffered_message =
  bm_Topic :: string
  bm_Payload :: string
  bm_QoS :: byte
  bm_Retained :: bool
  bm_Timestamp :: time

record publisher_stats =
  MessagesPublished :: nat
  MessagesFailed :: nat
  MessagesBuffered :: nat
  BytesSent :: nat
  ReconnectCount :: nat

record topic_stat =
  ts_Topic :: string
  ts_Count :: nat
  ts_LastPublished :: time
  ts_LastPayloadBytes :: nat

text \<open>
  Where the goroutine of \<open>processBuffer\<close> is, with its backoff: at the \<open>select\<close>, holding a message,
  sleeping after a message it could not publish, draining, or gone.
\<close>

datatype buffer_state =
    AtSelect duration
  | Holding buffered_message duration
  | Sleeping duration
  | Draining
  | Exited

record 'w publisher =
  pb_config :: mqtt_config
  pb_has_client :: bool
  pb_connected :: bool
  pb_reconnecting :: bool
  pb_buffer :: "buffered_message list"
  pb_done :: bool
  pb_stats :: publisher_stats
  pb_topicStats :: "string \<rightharpoonup> topic_stat"
  pb_processor :: buffer_state
  pb_world :: 'w

text \<open>The three-way \<open>select\<close> of \<open>publishRaw\<close>: the token, the timer, the caller's context.\<close>

datatype publish_race = TokenDone "err option" | TimerFired | PublishCtxDone err

text \<open>The outcome of the \<open>select\<close> of \<open>Connect\<close>.\<close>

datatype mqtt_connect = WaitOver bool "err option" | ConnectCancelled err

text \<open>
  What another goroutine can do in between: send its own message or drop the oldest one, both in its
  \<open>bufferMessage\<close>; the processor taking a message, going on with the one it holds, waking or
  draining; the client reporting the connection up or lost.
\<close>

datatype rival =
    RivalSends buffered_message
  | RivalDrops
  | ProcessorTakes
  | ProcessorGoesOn
  | ProcessorWakes
  | ProcessorDrains
  | RivalConnects
  | RivalLoses

record 'w mqtt_env =
  me_now :: "'w \<Rightarrow> time"
  me_json :: "mqtt_payload \<Rightarrow> err + string"
  me_publish :: "string \<Rightarrow> byte \<Rightarrow> bool \<Rightarrow> string \<Rightarrow> 'w \<Rightarrow> publish_race \<times> 'w"
  me_evict_order :: "(string \<rightharpoonup> topic_stat) \<Rightarrow> string list"
  me_rivals :: "'w \<Rightarrow> rival list \<times> 'w"

definition DefaultMqttConfig :: mqtt_config where
  "DefaultMqttConfig = \<lparr>mq_QoS = 1, mq_KeepAlive = 30 * second, mq_ConnectTimeout = 10 * second,
     mq_ReconnectDelay = 5 * second, mq_BufferSize = 10000, mq_PublishTimeout = 5 * second,
     mq_RetainMessages = False, mq_TLSEnabled = False\<rparr>"

definition or_default :: "int \<Rightarrow> int \<Rightarrow> int" where
  "or_default x d = (if x = 0 then d else x)"

text \<open>\<open>make(chan, n)\<close> panics on a negative size.\<close>

definition NewPublisher :: "mqtt_config \<Rightarrow> 'w \<Rightarrow> 'w publisher res" where
  "NewPublisher config w =
     (let cfg = config\<lparr>mq_BufferSize := or_default (mq_BufferSize config) 10000,
          mq_PublishTimeout := or_default (mq_PublishTimeout config) (5 * second),
          mq_KeepAlive := or_default (mq_KeepAlive config) (30 * second),
          mq_ConnectTimeout := or_default (mq_ConnectTimeout config) (10 * second),
          mq_ReconnectDelay := or_default (mq_ReconnectDelay config) (5 * second)\<rparr>
      in if mq_BufferSize cfg < 0 then Panic
         else Ok \<lparr>pb_config = cfg, pb_has_client = False, pb_connected = False, pb_reconnecting = False,
           pb_buffer = [], pb_done = False,
           pb_stats = \<lparr>MessagesPublished = 0, MessagesFailed = 0, MessagesBuffered = 0, BytesSent = 0,
             ReconnectCount = 0\<rparr>,
           pb_topicStats = Map.empty, pb_processor = Exited, pb_world = w\<rparr>)"

section \<open>Topic statistics\<close>

text \<open>
  \<open>evictOldestTopicsLocked\<close> collects the topics in map order and sorts them by age with a sort that
  is not stable: \<open>order\<close> is the sorted list it gets.
\<close>

definition oldest_first :: "(string \<rightharpoonup> topic_stat) \<Rightarrow> string list \<Rightarrow> bool" where
  "oldest_first m order \<longleftrightarrow> distinct order \<and> set order = dom m
     \<and> sorted (map (\<lambda>t. ts_LastPublished (the (m t))) order)"

definition evictOldestTopicsLocked ::
  "string list \<Rightarrow> int \<Rightarrow> (string \<rightharpoonup> topic_stat) \<Rightarrow> (string \<rightharpoonup> topic_stat)" where
  "evictOldestTopicsLocked order count m =
     (if count \<le> 0 \<or> order = [] then m
      else let n = (if int (length order) < count then length order else nat count)
           in foldl (\<lambda>m t. m(t := None)) m (take n order))"

definition maxTrackedTopics :: nat where
  "maxTrackedTopics = 10000"

definition recordTopicPublish :: "'w mqtt_env \<Rightarrow> string \<Rightarrow> nat \<Rightarrow> 'w publisher \<Rightarrow> 'w publisher" where
  "recordTopicPublish env topic payloadBytes p =
     (let m = pb_topicStats p;
          m1 = (case m topic of
              Some s \<Rightarrow> m
            | None \<Rightarrow>
                (if maxTrackedTopics \<le> length (me_evict_order env m)
                 then evictOldestTopicsLocked (me_evict_order env m) (int (maxTrackedTopics div 10)) m else m)
                (topic \<mapsto> \<lparr>ts_Topic = topic, ts_Count = 0, ts_LastPublished = 0, ts_LastPayloadBytes = 0\<rparr>));
          s = the (m1 topic)
      in p\<lparr>pb_topicStats := m1(topic \<mapsto> s\<lparr>ts_Count := ts_Count s + 1,
             ts_LastPublished := me_now env (pb_world p), ts_LastPayloadBytes := payloadBytes\<rparr>)\<rparr>)"

text \<open>\<open>ActiveTopics\<close>, given the topics most recent first.\<close>

definition ActiveTopics :: "string list \<Rightarrow> int \<Rightarrow> 'w publisher \<Rightarrow> topic_stat list" where
  "ActiveTopics newest limit p =
     (let lim = (if limit \<le> 0 then 200 else nat limit);
          out = map (\<lambda>t. the (pb_topicStats p t)) newest
      in if lim < length out then take lim out else out)"

section \<open>Publishing\<close>

definition count_publish_failed :: "'w publisher \<Rightarrow> 'w publisher" where
  "count_publish_failed p = p\<lparr>pb_stats := (pb_stats p)\<lparr>MessagesFailed := MessagesFailed (pb_stats p) + 1\<rparr>\<rparr>"

definition publish_timeout_error :: err where
  "publish_timeout_error = Wrap ErrMQTTPublishFailed '': publish timeout''"

definition publishRaw ::
  "'w mqtt_env \<Rightarrow> string \<Rightarrow> string \<Rightarrow> byte \<Rightarrow> bool \<Rightarrow> 'w publisher \<Rightarrow> err option \<times> 'w publisher" where
  "publishRaw env topic payload qos retained p =
     (if \<not> pb_has_client p then (Some ErrMQTTNotConnected, p)
      else case me_publish env topic qos retained payload (pb_world p) of (race, w1) \<Rightarrow>
        let p1 = p\<lparr>pb_world := w1\<rparr> in
        case race of
          TokenDone (Some e) \<Rightarrow> (Some (wrap_v ErrMQTTPublishFailed e), count_publish_failed p1)
        | TimerFired \<Rightarrow> (Some publish_timeout_error, count_publish_failed p1)
        | PublishCtxDone e \<Rightarrow> (Some (wrap_v ErrMQTTPublishFailed e), count_publish_failed p1)
        | TokenDone None \<Rightarrow>
            (None, recordTopicPublish env topic (length payload)
              (p1\<lparr>pb_stats := (pb_stats p1)\<lparr>MessagesPublished := MessagesPublished (pb_stats p1) + 1,
                   BytesSent := BytesSent (pb_stats p1) + length payload\<rparr>\<rparr>)))"

definition serialize_error :: "err \<Rightarrow> err" where
  "serialize_error e = WrapPre ''failed to serialize data point: '' e"

text \<open>The capacity of the message buffer.\<close>

definition buffer_cap :: "'w publisher \<Rightarrow> nat" where
  "buffer_cap p = nat (mq_BufferSize (pb_config p))"

text \<open>The client's callbacks.\<close>

definition onConnect :: "'w publisher \<Rightarrow> 'w publisher" where
  "onConnect p = p\<lparr>pb_connected := True, pb_reconnecting := False\<rparr>"

definition onConnectionLost :: "'w publisher \<Rightarrow> 'w publisher" where
  "onConnectionLost p = p\<lparr>pb_connected := False\<rparr>"

text \<open>The processor's body: a message taken, published, or put back at the end before it sleeps.\<close>

definition publish_message :: "'w mqtt_env \<Rightarrow> buffered_message \<Rightarrow> 'w publisher \<Rightarrow> 'w publisher" where
  "publish_message env m p = snd (publishRaw env (bm_Topic m) (bm_Payload m) (bm_QoS m) (bm_Retained m) p)"

definition take_message :: "buffered_message \<Rightarrow> buffered_message list \<Rightarrow> duration \<Rightarrow> 'w publisher \<Rightarrow> 'w publisher" where
  "take_message m q b p = p\<lparr>pb_buffer := q, pb_processor := Holding m b\<rparr>"

definition process_held :: "'w mqtt_env \<Rightarrow> buffered_message \<Rightarrow> duration \<Rightarrow> 'w publisher \<Rightarrow> 'w publisher" where
  "process_held env m b p =
     (if pb_connected p then (publish_message env m p)\<lparr>pb_processor := AtSelect (100 * millisecond)\<rparr>
      else (case chan_send (buffer_cap p) (pb_buffer p) m of Some q \<Rightarrow> p\<lparr>pb_buffer := q\<rparr> | None \<Rightarrow> p)
        \<lparr>pb_processor := Sleeping b\<rparr>)"

definition next_backoff :: "duration \<Rightarrow> duration" where
  "next_backoff b = (if b < 5 * second then b * 2 else b)"

definition drain_timeout :: "nat \<Rightarrow> duration" where
  "drain_timeout n =
     (let t = 10 * second + int n * millisecond in if 60 * second < t then 60 * second else t)"

text \<open>One turn of the drain loop: a message is published if connected, else dropped.\<close>

definition drain_one :: "'w mqtt_env \<Rightarrow> buffered_message \<Rightarrow> buffered_message list \<Rightarrow> 'w publisher \<Rightarrow> 'w publisher" where
  "drain_one env m q p =
     (let p1 = p\<lparr>pb_buffer := q\<rparr> in if pb_connected p1 then publish_message env m p1 else p1)"

definition put_in_buffer :: "buffered_message list \<Rightarrow> 'w publisher \<Rightarrow> 'w publisher" where
  "put_in_buffer q p = p\<lparr>pb_buffer := q,
     pb_stats := (pb_stats p)\<lparr>MessagesBuffered := MessagesBuffered (pb_stats p) + 1\<rparr>\<rparr>"

definition drop_oldest :: "'w publisher \<Rightarrow> 'w publisher" where
  "drop_oldest p = (case chan_recv (pb_buffer p) of Some (_, q) \<Rightarrow> p\<lparr>pb_buffer := q\<rparr> | None \<Rightarrow> p)"

text \<open>A rival's step, and all that happens between two steps of a call.\<close>

fun rival_step :: "'w mqtt_env \<Rightarrow> rival \<Rightarrow> 'w publisher \<Rightarrow> 'w publisher" where
  "rival_step env (RivalSends m) p = (case chan_send (buffer_cap p) (pb_buffer p) m of
       Some q \<Rightarrow> put_in_buffer q p | None \<Rightarrow> p)"
| "rival_step env RivalDrops p = drop_oldest p"
| "rival_step env ProcessorTakes p = (case (pb_processor p, chan_recv (pb_buffer p)) of
       (AtSelect b, Some (m, q)) \<Rightarrow> take_message m q b p | _ \<Rightarrow> p)"
| "rival_step env ProcessorGoesOn p = (case pb_processor p of Holding m b \<Rightarrow> process_held env m b p | _ \<Rightarrow> p)"
| "rival_step env ProcessorWakes p = (case pb_processor p of
       Sleeping b \<Rightarrow> p\<lparr>pb_processor := AtSelect (next_backoff b)\<rparr> | _ \<Rightarrow> p)"
| "rival_step env ProcessorDrains p = (case (pb_processor p, chan_recv (pb_buffer p)) of
       (Draining, Some (m, q)) \<Rightarrow> drain_one env m q p | _ \<Rightarrow> p)"
| "rival_step env RivalConnects p = onConnect p"
| "rival_step env RivalLoses p = onConnectionLost p"

definition interfere :: "'w mqtt_env \<Rightarrow> 'w publisher \<Rightarrow> 'w publisher" where
  "interfere env p = (case me_rivals env (pb_world p) of (rs, w) \<Rightarrow> fold (rival_step env) rs (p\<lparr>pb_world := w\<rparr>))"

definition contention_error :: err where
  "contention_error = Plain ''message buffer full, contention too high''"

text \<open>
  \<open>bufferMessage\<close>: a send; when the buffer is full a receive and a second send, with the rivals free
  to act before each of the two.
\<close>

definition bufferMessage :: "'w mqtt_env \<Rightarrow> data_point \<Rightarrow> 'w publisher \<Rightarrow> err option \<times> 'w publisher" where
  "bufferMessage env dp p = (case me_json env (ToMQTTPayload dp) of
       Inl e \<Rightarrow> (Some (serialize_error e), p)
     | Inr payload \<Rightarrow>
         (let msg = \<lparr>bm_Topic = dp_Topic dp, bm_Payload = payload, bm_QoS = mq_QoS (pb_config p),
                bm_Retained = mq_RetainMessages (pb_config p), bm_Timestamp = me_now env (pb_world p)\<rparr>
          in case chan_send (buffer_cap p) (pb_buffer p) msg of
               Some q \<Rightarrow> (None, put_in_buffer q p)
             | None \<Rightarrow>
                 (let p1 = interfere env (drop_oldest (interfere env p))
                  in case chan_send (buffer_cap p1) (pb_buffer p1) msg of
                       Some q \<Rightarrow> (None, put_in_buffer q p1)
                     | None \<Rightarrow> (Some contention_error, p1))))"

definition Publish :: "'w mqtt_env \<Rightarrow> data_point \<Rightarrow> 'w publisher \<Rightarrow> err option \<times> 'w publisher" where
  "Publish env dp p =
     (if \<not> pb_connected p then bufferMessage env dp p
      else case me_json env (ToMQTTPayload dp) of
          Inl e \<Rightarrow> (Some (serialize_error e), p)
        | Inr payload \<Rightarrow> publishRaw env (dp_Topic dp) payload (mq_QoS (pb_config p))
            (mq_RetainMessages (pb_config p)) p)"

fun publish_loop :: "'w mqtt_env \<Rightarrow> data_point list \<Rightarrow> err option \<Rightarrow> 'w publisher \<Rightarrow> err option \<times> 'w publisher" where
  "publish_loop env [] lastErr p = (lastErr, p)"
| "publish_loop env (dp # dps) lastErr p = (case Publish env dp (interfere env p) of
       (None, p1) \<Rightarrow> publish_loop env dps lastErr p1
     | (Some e, p1) \<Rightarrow> publish_loop env dps (Some e) (count_publish_failed p1))"

definition PublishBatch :: "'w mqtt_env \<Rightarrow> data_point list \<Rightarrow> 'w publisher \<Rightarrow> err option \<times> 'w publisher" where
  "PublishBatch env dps p = publish_loop env dps None p"

section \<open>The connection\<close>

definition mqtt_Connect :: "err option \<Rightarrow> mqtt_connect \<Rightarrow> 'w publisher \<Rightarrow> err option \<times> 'w publisher" where
  "mqtt_Connect tls race p = (case (if mq_TLSEnabled (pb_config p) then tls else None) of
       Some e \<Rightarrow> (Some (WrapPre ''failed to create TLS config: '' e), p)
     | None \<Rightarrow>
         (let p1 = p\<lparr>pb_has_client := True\<rparr> in
          case race of
            WaitOver False e \<Rightarrow> (Some (Wrap ErrMQTTConnectionFailed '': connection timeout''), p1)
          | WaitOver True (Some e) \<Rightarrow> (Some (wrap_v ErrMQTTConnectionFailed e), p1)
          | ConnectCancelled e \<Rightarrow> (Some (wrap_v ErrMQTTConnectionFailed e), p1)
          | WaitOver True None \<Rightarrow>
              (None, p1\<lparr>pb_connected := True, pb_done := False,
                       pb_processor := AtSelect (100 * millisecond)\<rparr>)))"

text \<open>\<open>Disconnect\<close>, before and after it waits for the processor.\<close>

definition disconnect_begin :: "'w publisher \<Rightarrow> 'w publisher" where
  "disconnect_begin p = p\<lparr>pb_done := True\<rparr>"

definition disconnect_end :: "'w publisher \<Rightarrow> 'w publisher" where
  "disconnect_end p = p\<lparr>pb_connected := False\<rparr>"

definition onReconnecting :: "'w publisher \<Rightarrow> 'w publisher" where
  "onReconnecting p = p\<lparr>pb_reconnecting := True,
     pb_stats := (pb_stats p)\<lparr>ReconnectCount := ReconnectCount (pb_stats p) + 1\<rparr>\<rparr>"

definition mqtt_HealthCheck :: "'w publisher \<Rightarrow> err option" where
  "mqtt_HealthCheck p = (if \<not> pb_connected p then Some ErrMQTTNotConnected else None)"

definition BufferSize :: "'w publisher \<Rightarrow> nat" where
  "BufferSize p = length (pb_buffer p)"

section \<open>The steps of the publisher\<close>

text \<open>
  One step of the publisher: a call of the gateway, a callback of the client, or a step of the
  processor.  \<open>Connect\<close> is called when no processor runs, as the gateway does; the end of the drain by
  its timer may come at any time.
\<close>

inductive mqtt_step :: "'w mqtt_env \<Rightarrow> 'w publisher \<Rightarrow> 'w publisher \<Rightarrow> bool" for env where
  publish: "mqtt_step env p (snd (Publish env dp p))"
| batch: "mqtt_step env p (snd (PublishBatch env dps p))"
| connect: "pb_processor p = Exited \<Longrightarrow> mqtt_step env p (snd (mqtt_Connect tls race p))"
| closing: "mqtt_step env p (disconnect_begin p)"
| closed: "pb_done p \<Longrightarrow> pb_processor p = Exited \<Longrightarrow> mqtt_step env p (disconnect_end p)"
| on_connect: "mqtt_step env p (onConnect p)"
| on_lost: "mqtt_step env p (onConnectionLost p)"
| on_reconnecting: "mqtt_step env p (onReconnecting p)"
| takes: "pb_processor p = AtSelect b \<Longrightarrow> chan_recv (pb_buffer p) = Some (m, q) \<Longrightarrow>
    mqtt_step env p (take_message m q b p)"
| stops: "pb_processor p = AtSelect b \<Longrightarrow> pb_done p \<Longrightarrow> mqtt_step env p (p\<lparr>pb_processor := Draining\<rparr>)"
| holds: "pb_processor p = Holding m b \<Longrightarrow> mqtt_step env p (process_held env m b p)"
| stops_asleep: "pb_processor p = Sleeping b \<Longrightarrow> pb_done p \<Longrightarrow> mqtt_step env p (p\<lparr>pb_processor := Exited\<rparr>)"
| wakes: "pb_processor p = Sleeping b \<Longrightarrow> mqtt_step env p (p\<lparr>pb_processor := AtSelect (next_backoff b)\<rparr>)"
| drains: "pb_processor p = Draining \<Longrightarrow> chan_recv (pb_buffer p) = Some (m, q) \<Longrightarrow>
    mqtt_step env p (drain_one env m q p)"
| drained: "pb_processor p = Draining \<Longrightarrow> mqtt_step env p (p\<lparr>pb_processor := Exited\<rparr>)"
| world: "mqtt_step env p (p\<lparr>pb_world := w\<rparr>)"

section \<open>The buffer\<close>

lemma recordTopicPublish_simps [simp]:
  "pb_buffer (recordTopicPublish env t n p) = pb_buffer p" "pb_config (recordTopicPublish env t n p) = pb_config p"
  "pb_processor (recordTopicPublish env t n p) = pb_processor p" "pb_stats (recordTopicPublish env t n p) = pb_stats p"
  "pb_connected (recordTopicPublish env t n p) = pb_connected p" "pb_has_client (recordTopicPublish env t n p) = pb_has_client p"
  by (simp_all add: recordTopicPublish_def Let_def)

lemma count_publish_failed_simps [simp]:
  "pb_buffer (count_publish_failed p) = pb_buffer p" "pb_config (count_publish_failed p) = pb_config p"
  "pb_processor (count_publish_failed p) = pb_processor p" "pb_connected (count_publish_failed p) = pb_connected p"
  "pb_has_client (count_publish_failed p) = pb_has_client p"
  by (simp_all add: count_publish_failed_def)

definition same_buffer :: "'w publisher \<Rightarrow> 'w publisher \<Rightarrow> bool" where
  "same_buffer p' p \<longleftrightarrow> pb_buffer p' = pb_buffer p \<and> pb_config p' = pb_config p \<and> pb_processor p' = pb_processor p"

lemma publishRaw_same: "same_buffer (snd (publishRaw env topic payload qos ret p)) p"
  by (auto simp: publishRaw_def same_buffer_def Let_def split: prod.splits publish_race.splits option.splits)

definition buffer_inv :: "'w publisher \<Rightarrow> bool" where
  "buffer_inv p \<longleftrightarrow> length (pb_buffer p) \<le> buffer_cap p"

lemma same_buffer_inv: "same_buffer p' p \<Longrightarrow> buffer_inv p' = buffer_inv p"
  by (simp add: same_buffer_def buffer_inv_def buffer_cap_def)

text \<open>The backoffs a processor can have.\<close>

fun backoff_of :: "buffer_state \<Rightarrow> duration option" where
  "backoff_of (AtSelect b) = Some b"
| "backoff_of (Holding m b) = Some b"
| "backoff_of (Sleeping b) = Some b"
| "backoff_of _ = None"

definition backoff_values :: "duration list" where
  "backoff_values = map (\<lambda>k. 100 * millisecond * k) [1, 2, 4, 8, 16, 32, 64]"

definition publisher_inv :: "'w publisher \<Rightarrow> bool" where
  "publisher_inv p \<longleftrightarrow> buffer_inv p \<and> (\<forall>b. backoff_of (pb_processor p) = Some b \<longrightarrow> b \<in> set backoff_values)"

lemma next_backoff_values: "b \<in> set backoff_values \<Longrightarrow> next_backoff b \<in> set backoff_values"
  by (auto simp: backoff_values_def next_backoff_def)

lemma first_backoff: "100 * millisecond \<in> set backoff_values"
  by (simp add: backoff_values_def)

lemma publish_message_same: "same_buffer (publish_message env m p) p"
  by (simp add: publish_message_def publishRaw_same)

lemma process_held_inv:
  assumes "publisher_inv p" "pb_processor p = Holding m b"
  shows "publisher_inv (process_held env m b p)"
proof -
  have "buffer_inv (process_held env m b p)"
    using assms(1) publish_message_same [of env m p] chan.send_bound [of "buffer_cap p" "pb_buffer p" m]
    by (auto simp: process_held_def publisher_inv_def buffer_inv_def buffer_cap_def same_buffer_def split: option.splits)
  moreover have "backoff_of (pb_processor (process_held env m b p)) \<in> {Some (100 * millisecond), Some b}"
    by (simp add: process_held_def split: option.splits)
  ultimately show ?thesis
    using assms first_backoff by (auto simp: publisher_inv_def)
qed

lemma publisher_inv_same_processor:
  assumes "publisher_inv p" "pb_processor p' = pb_processor p" "pb_config p' = pb_config p"
    and "length (pb_buffer p') \<le> length (pb_buffer p)"
  shows "publisher_inv p' \<and> pb_config p' = pb_config p"
  using assms by (auto simp: publisher_inv_def buffer_inv_def buffer_cap_def)

lemma put_in_buffer_inv:
  assumes "publisher_inv p" "chan_send (buffer_cap p) (pb_buffer p) m = Some q"
  shows "publisher_inv (put_in_buffer q p) \<and> pb_config (put_in_buffer q p) = pb_config p"
  using assms chan.send_bound [OF assms(2)]
  by (simp add: publisher_inv_def put_in_buffer_def buffer_inv_def buffer_cap_def)

lemma recv_shorter: "chan_recv q = Some (m, q') \<Longrightarrow> length q' \<le> length q"
  using chan.recv_Some [of q m q'] by simp

lemma drop_oldest_inv: "publisher_inv p \<Longrightarrow> publisher_inv (drop_oldest p) \<and> pb_config (drop_oldest p) = pb_config p"
  by (rule publisher_inv_same_processor) (auto simp: drop_oldest_def dest: recv_shorter split: option.splits)

lemma take_message_inv:
  assumes "publisher_inv p" "pb_processor p = AtSelect b" "chan_recv (pb_buffer p) = Some (m, q)"
  shows "publisher_inv (take_message m q b p)"
  using assms chan.recv_Some [OF assms(3)] by (simp add: publisher_inv_def take_message_def buffer_inv_def buffer_cap_def)

lemma drain_one_inv:
  assumes "publisher_inv p" "chan_recv (pb_buffer p) = Some (m, q)"
  shows "publisher_inv (drain_one env m q p) \<and> pb_config (drain_one env m q p) = pb_config p"
  using assms publish_message_same [of env m "p\<lparr>pb_buffer := q\<rparr>"] recv_shorter [OF assms(2)]
  by (intro publisher_inv_same_processor) (auto simp: drain_one_def Let_def same_buffer_def)

lemma wake_inv: "publisher_inv p \<Longrightarrow> pb_processor p = Sleeping b \<Longrightarrow> publisher_inv (p\<lparr>pb_processor := AtSelect (next_backoff b)\<rparr>)"
  by (simp add: publisher_inv_def buffer_inv_def buffer_cap_def next_backoff_values)

lemma process_held_config [simp]: "pb_config (process_held env m b p) = pb_config p"
  using publish_message_same [of env m p] by (simp add: process_held_def same_buffer_def split: option.splits)

text \<open>Whatever the rivals do, and so every call, keeps the invariant.\<close>

lemma rival_step_inv:
  "publisher_inv p \<Longrightarrow> publisher_inv (rival_step env r p) \<and> pb_config (rival_step env r p) = pb_config p"
proof (induction env r p rule: rival_step.induct)
  case (1 env m p)
  then show ?case using put_in_buffer_inv by (auto split: option.splits)
next
  case (2 env p)
  then show ?case by (simp add: drop_oldest_inv)
next
  case (3 env p)
  then show ?case using take_message_inv [of p] by (auto simp: take_message_def split: option.splits buffer_state.splits)
next
  case (4 env p)
  then show ?case using process_held_inv [of p] by (auto split: buffer_state.splits)
next
  case (5 env p)
  then show ?case using wake_inv [of p] by (auto split: buffer_state.splits)
next
  case (6 env p)
  then show ?case using drain_one_inv [of p] by (auto split: option.splits buffer_state.splits)
next
  case (7 env p)
  then show ?case by (intro publisher_inv_same_processor) (simp_all add: onConnect_def)
next
  case (8 env p)
  then show ?case by (intro publisher_inv_same_processor) (simp_all add: onConnectionLost_def)
qed

lemma rivals_inv:
  "publisher_inv p \<Longrightarrow> publisher_inv (fold (rival_step env) rs p) \<and> pb_config (fold (rival_step env) rs p) = pb_config p"
proof (induction rs arbitrary: p)
  case (Cons r rs)
  then show ?case using Cons.IH [of "rival_step env r p"] rival_step_inv [OF Cons.prems] by simp
qed simp

lemma interfere_inv:
  assumes "publisher_inv p"
  shows "publisher_inv (interfere env p) \<and> pb_config (interfere env p) = pb_config p"
proof -
  obtain rs w where w: "me_rivals env (pb_world p) = (rs, w)" by (rule prod.exhaust)
  have "publisher_inv (p\<lparr>pb_world := w\<rparr>)" using assms by (simp add: publisher_inv_def buffer_inv_def buffer_cap_def)
  from rivals_inv [OF this] show ?thesis by (simp add: interfere_def w)
qed

lemma bufferMessage_inv:
  assumes "publisher_inv p"
  shows "publisher_inv (snd (bufferMessage env dp p))"
proof -
  have "publisher_inv (interfere env (drop_oldest (interfere env p)))"
    using assms interfere_inv drop_oldest_inv by metis
  then show ?thesis using assms put_in_buffer_inv
    by (auto simp: bufferMessage_def Let_def split: sum.splits option.splits)
qed

lemma Publish_inv: "publisher_inv p \<Longrightarrow> publisher_inv (snd (Publish env dp p))"
  using bufferMessage_inv [of p env dp] publishRaw_same [of env "dp_Topic dp"]
  by (auto simp: Publish_def same_buffer_def publisher_inv_def buffer_inv_def buffer_cap_def split: sum.splits)

lemma count_publish_failed_inv: "publisher_inv (count_publish_failed p) = publisher_inv p"
  by (simp add: publisher_inv_def buffer_inv_def buffer_cap_def)

lemma publish_loop_inv: "publisher_inv p \<Longrightarrow> publisher_inv (snd (publish_loop env dps e p))"
proof (induction dps arbitrary: e p)
  case (Cons dp dps)
  obtain r p1 where p1: "Publish env dp (interfere env p) = (r, p1)" by (rule prod.exhaust)
  have "publisher_inv p1" using Publish_inv [of "interfere env p" env dp] interfere_inv [OF Cons.prems] p1 by simp
  then show ?case using p1 by (cases r) (simp_all add: Cons.IH count_publish_failed_inv)
qed simp

lemma mqtt_step_inv: "mqtt_step env p p' \<Longrightarrow> publisher_inv p \<Longrightarrow> publisher_inv p'"
proof (induction rule: mqtt_step.induct)
  case (publish p dp)
  then show ?case by (simp add: Publish_inv)
next
  case (batch p dps)
  then show ?case by (simp add: publish_loop_inv PublishBatch_def)
next
  case (connect p tls race)
  then show ?case
    by (auto simp: mqtt_Connect_def publisher_inv_def buffer_inv_def buffer_cap_def Let_def first_backoff [simplified]
        split: option.splits mqtt_connect.splits bool.splits)
next
  case (holds p m b)
  then show ?case by (simp add: process_held_inv)
next
  case (takes p b m q)
  then show ?case
    using chan.recv_Some [OF takes(2)] by (simp add: publisher_inv_def take_message_def buffer_inv_def buffer_cap_def)
next
  case (drains p m q)
  then show ?case
    using chan.recv_Some [OF drains(2)] publish_message_same [of env m "p\<lparr>pb_buffer := q\<rparr>"]
    by (auto simp: publisher_inv_def drain_one_def Let_def buffer_inv_def buffer_cap_def same_buffer_def)
next
  case (wakes p b)
  then show ?case by (simp add: publisher_inv_def buffer_inv_def buffer_cap_def next_backoff_values)
qed (simp_all add: publisher_inv_def buffer_inv_def buffer_cap_def disconnect_begin_def disconnect_end_def
    onConnect_def onConnectionLost_def onReconnecting_def)

lemma NewPublisher_inv: "NewPublisher cfg w = Ok p \<Longrightarrow> publisher_inv p"
  by (auto simp: NewPublisher_def Let_def publisher_inv_def buffer_inv_def split: if_splits)

definition mqtt_reachable :: "'w mqtt_env \<Rightarrow> 'w publisher \<Rightarrow> bool" where
  "mqtt_reachable env p \<longleftrightarrow> (\<exists>cfg w p0. NewPublisher cfg w = Ok p0 \<and> (mqtt_step env)\<^sup>*\<^sup>* p0 p)"

lemma mqtt_reachable_inv: "mqtt_reachable env p \<Longrightarrow> publisher_inv p"
proof -
  assume "mqtt_reachable env p"
  then obtain cfg w p0 where p0: "NewPublisher cfg w = Ok p0" "(mqtt_step env)\<^sup>*\<^sup>* p0 p"
    by (auto simp: mqtt_reachable_def)
  from p0(2) NewPublisher_inv [OF p0(1)] show ?thesis
    by (induction rule: rtranclp_induct) (auto intro: mqtt_step_inv)
qed

section \<open>What is buffered while the connection is down\<close>

definition message_of :: "'w mqtt_env \<Rightarrow> 'w publisher \<Rightarrow> data_point \<Rightarrow> string \<Rightarrow> buffered_message" where
  "message_of env p dp payload = \<lparr>bm_Topic = dp_Topic dp, bm_Payload = payload, bm_QoS = mq_QoS (pb_config p),
     bm_Retained = mq_RetainMessages (pb_config p), bm_Timestamp = me_now env (pb_world p)\<rparr>"

definition no_rivals :: "'w mqtt_env \<Rightarrow> bool" where
  "no_rivals env \<longleftrightarrow> (\<forall>w. me_rivals env w = ([], w))"

lemma interfere_alone [simp]: "no_rivals env \<Longrightarrow> interfere env p = p"
  by (simp add: no_rivals_def interfere_def)

text \<open>Without a rival a call is the send that drops the oldest message of a full channel.\<close>

lemma bufferMessage_alone:
  assumes "no_rivals env" "buffer_inv p" "0 < buffer_cap p" "me_json env (ToMQTTPayload dp) = Inr payload"
  shows "bufferMessage env dp p = (None, put_in_buffer (fst (send_drop_oldest (chan_send (buffer_cap p)) chan_recv
        (pb_buffer p) (message_of env p dp payload))) p)"
proof -
  have "snd (send_drop_oldest (chan_send (buffer_cap p)) chan_recv (pb_buffer p) (message_of env p dp payload))"
    using assms by (intro chan.drop_oldest_items(1)) (simp_all add: buffer_inv_def)
  moreover have "buffer_cap (p\<lparr>pb_buffer := q\<rparr>) = buffer_cap p" for q by (simp add: buffer_cap_def)
  ultimately show ?thesis using assms(1,4)
    by (auto simp: bufferMessage_def message_of_def Let_def send_drop_oldest_def drop_oldest_def put_in_buffer_def
        split: option.splits prod.splits)
qed

text \<open>The messages of the points of a batch that can be marshalled.\<close>

fun messages_of :: "'w mqtt_env \<Rightarrow> 'w publisher \<Rightarrow> data_point list \<Rightarrow> buffered_message list" where
  "messages_of env p [] = []"
| "messages_of env p (dp # dps) = (case me_json env (ToMQTTPayload dp) of
       Inl e \<Rightarrow> messages_of env p dps
     | Inr payload \<Rightarrow> message_of env p dp payload # messages_of env p dps)"

lemma messages_of_length: "length (messages_of env p dps) \<le> length dps"
  by (induction dps) (auto split: sum.split)

lemma messages_of_same:
  "pb_config p' = pb_config p \<Longrightarrow> pb_world p' = pb_world p \<Longrightarrow> messages_of env p' dps = messages_of env p dps"
  by (induction dps) (auto simp: message_of_def split: sum.split)

text \<open>What a batch leaves: every message pushed, and the failures and successes counted.\<close>

definition batch_of :: "buffered_message list \<Rightarrow> nat \<Rightarrow> 'w publisher \<Rightarrow> 'w publisher" where
  "batch_of ms failed p = p\<lparr>pb_buffer :=
       fold (\<lambda>m q. fst (send_drop_oldest (chan_send (buffer_cap p)) chan_recv q m)) ms (pb_buffer p),
     pb_stats := (pb_stats p)\<lparr>MessagesBuffered := MessagesBuffered (pb_stats p) + length ms,
       MessagesFailed := MessagesFailed (pb_stats p) + failed\<rparr>\<rparr>"

lemma batch_of_count: "batch_of ms n (count_publish_failed p) = batch_of ms (Suc n) p"
  by (simp add: batch_of_def count_publish_failed_def buffer_cap_def)

lemma batch_of_put:
  "batch_of ms n (put_in_buffer (fst (send_drop_oldest (chan_send (buffer_cap p)) chan_recv (pb_buffer p) m)) p)
    = batch_of (m # ms) n p"
  by (simp add: batch_of_def put_in_buffer_def buffer_cap_def)

lemma publish_disconnected:
  assumes "no_rivals env" "\<not> pb_connected p" "buffer_inv p" "0 < buffer_cap p"
  shows "snd (publish_loop env dps e p) = batch_of (messages_of env p dps) (length dps - length (messages_of env p dps)) p
    \<and> (fst (publish_loop env dps e p) = None \<longleftrightarrow> e = None \<and> length (messages_of env p dps) = length dps)"
  using assms(2-4)
proof (induction dps arbitrary: p e)
  case (Cons dp dps)
  show ?case
  proof (cases "me_json env (ToMQTTPayload dp)")
    case (Inl err)
    have "publish_loop env (dp # dps) e p = publish_loop env dps (Some (serialize_error err)) (count_publish_failed p)"
      using Cons.prems Inl assms(1) by (simp add: Publish_def bufferMessage_def)
    moreover have "buffer_inv (count_publish_failed p)" "0 < buffer_cap (count_publish_failed p)"
      using Cons.prems by (simp_all add: buffer_inv_def buffer_cap_def)
    moreover have "messages_of env (count_publish_failed p) dps = messages_of env p dps"
      by (rule messages_of_same) (simp_all add: count_publish_failed_def)
    ultimately show ?thesis
      using Cons.IH [of "count_publish_failed p" "Some (serialize_error err)"] Cons.prems Inl
        messages_of_length [of env p dps]
      by (simp add: batch_of_count Suc_diff_le)
  next
    case (Inr payload)
    define p1 where "p1 = put_in_buffer (fst (send_drop_oldest (chan_send (buffer_cap p)) chan_recv
        (pb_buffer p) (message_of env p dp payload))) p"
    have "publish_loop env (dp # dps) e p = publish_loop env dps e p1"
      using Cons.prems bufferMessage_alone [OF assms(1) Cons.prems(2,3) Inr] assms(1) by (simp add: Publish_def p1_def)
    moreover have "\<not> pb_connected p1" "buffer_cap p1 = buffer_cap p" "buffer_inv p1"
      using Cons.prems chan.drop_oldest_bound [OF Cons.prems(3), of "pb_buffer p"]
      by (simp_all add: p1_def put_in_buffer_def buffer_inv_def buffer_cap_def)
    moreover have "messages_of env p1 dps = messages_of env p dps"
      by (rule messages_of_same) (simp_all add: p1_def put_in_buffer_def)
    ultimately show ?thesis using Cons.IH [of p1 e] Cons.prems Inr by (simp add: p1_def batch_of_put)
  qed
qed (simp add: batch_of_def)

lemma batch_of_buffer:
  assumes "buffer_inv p" "0 < buffer_cap p"
  shows "pb_buffer (batch_of ms n p) = drop (length (pb_buffer p) + length ms - buffer_cap p) (pb_buffer p @ ms)"
  using assms chan.drop_oldest_run [of "buffer_cap p" "pb_buffer p" ms] by (simp add: batch_of_def buffer_inv_def)

section \<open>Contention\<close>

text \<open>
  When a rival fills the slot a call has made, the call reports the contention, and both its message
  and the oldest one are lost.
\<close>

lemma contention_loses_both:
  assumes "me_json env (ToMQTTPayload dp) = Inr payload" and "length (pb_buffer p) = buffer_cap p" and "0 < buffer_cap p"
    and "me_rivals env (pb_world p) = ([], w)" and "me_rivals env w = ([RivalSends m], w')"
  shows "bufferMessage env dp p = (Some contention_error,
    put_in_buffer (tl (pb_buffer p) @ [m]) (p\<lparr>pb_world := w'\<rparr>))"
proof -
  obtain old q where q: "pb_buffer p = old # q" using assms(2,3) by (cases "pb_buffer p") auto
  have "interfere env (drop_oldest (interfere env p)) = put_in_buffer (q @ [m]) (p\<lparr>pb_world := w'\<rparr>)"
    using assms(2,4,5) q by (auto simp: interfere_def drop_oldest_def chan_send_def buffer_cap_def put_in_buffer_def)
  then show ?thesis using assms(1,2) q
    by (auto simp: bufferMessage_def Let_def chan_send_def buffer_cap_def put_in_buffer_def)
qed

section \<open>Failed batches\<close>

lemma publishRaw_failed:
  assumes "pb_has_client p" "fst (me_publish env topic qos ret payload (pb_world p)) = TimerFired"
  shows "\<exists>w. publishRaw env topic payload qos ret p = (Some publish_timeout_error, count_publish_failed (p\<lparr>pb_world := w\<rparr>))"
  using assms by (cases "me_publish env topic qos ret payload (pb_world p)") (auto simp: publishRaw_def)

lemma publish_loop_timeouts:
  assumes json: "\<And>dp. dp \<in> set dps \<Longrightarrow> me_json env (ToMQTTPayload dp) = Inr (ser dp)"
    and slow: "\<And>topic qos ret payload w. fst (me_publish env topic qos ret payload w) = TimerFired"
    and alone: "no_rivals env" and p: "pb_connected p" "pb_has_client p"
  shows "MessagesFailed (pb_stats (snd (publish_loop env dps e p))) = MessagesFailed (pb_stats p) + 2 * length dps"
  using json p
proof (induction dps arbitrary: p e)
  case (Cons dp dps)
  have "fst (me_publish env (dp_Topic dp) (mq_QoS (pb_config p)) (mq_RetainMessages (pb_config p)) (ser dp)
      (pb_world p)) = TimerFired"
    by (rule slow)
  from publishRaw_failed [OF Cons.prems(3) this] obtain w where
    w: "Publish env dp p = (Some publish_timeout_error, count_publish_failed (p\<lparr>pb_world := w\<rparr>))"
    using Cons.prems(1) [of dp] Cons.prems(2) by (auto simp: Publish_def)
  have "MessagesFailed (pb_stats (snd (publish_loop env dps (Some publish_timeout_error)
      (count_publish_failed (count_publish_failed (p\<lparr>pb_world := w\<rparr>))))))
    = MessagesFailed (pb_stats (count_publish_failed (count_publish_failed (p\<lparr>pb_world := w\<rparr>)))) + 2 * length dps"
    using Cons.prems by (intro Cons.IH) (simp_all add: count_publish_failed_def)
  then show ?case using alone by (simp add: w) (simp add: count_publish_failed_def)
qed simp

section \<open>Evicting topics\<close>

lemma foldl_remove: "foldl (\<lambda>m t. m(t := None)) m ks = m |` (- set ks)"
proof (induction ks arbitrary: m)
  case (Cons k ks)
  have "foldl (\<lambda>m t. m(t := None)) (m(k := None)) ks = (m(k := None)) |` (- set ks)" by (rule Cons.IH)
  also have "\<dots> = m |` (- set (k # ks))" by (auto simp: restrict_map_def fun_eq_iff)
  finally show ?case by (simp only: foldl_Cons)
qed (simp add: restrict_map_def)

lemma evicted_are_oldest:
  assumes ord: "oldest_first m order" and n: "0 < count" "nat count \<le> length order"
  shows "dom (evictOldestTopicsLocked order count m) = set (drop (nat count) order)"
    and "s \<in> dom m - dom (evictOldestTopicsLocked order count m) \<Longrightarrow>
      t \<in> dom (evictOldestTopicsLocked order count m) \<Longrightarrow>
      ts_LastPublished (the (m s)) \<le> ts_LastPublished (the (m t))"
proof -
  have o: "distinct order" "set order = dom m" "sorted (map (\<lambda>t. ts_LastPublished (the (m t))) order)"
    using ord by (simp_all add: oldest_first_def)
  have ne: "order \<noteq> []" using n by auto
  have ev: "evictOldestTopicsLocked order count m = m |` (- set (take (nat count) order))"
    using n ne by (simp add: evictOldestTopicsLocked_def foldl_remove) (auto simp: min_def)
  have split: "set order = set (take (nat count) order) \<union> set (drop (nat count) order)"
    by (metis append_take_drop_id set_append)
  have dis: "set (take (nat count) order) \<inter> set (drop (nat count) order) = {}"
    using o(1) by (metis append_take_drop_id distinct_append)
  show d: "dom (evictOldestTopicsLocked order count m) = set (drop (nat count) order)"
    using split dis o(2) by (auto simp: ev dom_restrict)
  have "sorted (map (\<lambda>t. ts_LastPublished (the (m t))) (take (nat count) order @ drop (nat count) order))"
    using o(3) by simp
  then have le: "\<forall>x\<in>set (take (nat count) order). \<forall>y\<in>set (drop (nat count) order).
      ts_LastPublished (the (m x)) \<le> ts_LastPublished (the (m y))"
    unfolding map_append sorted_append by auto
  assume "s \<in> dom m - dom (evictOldestTopicsLocked order count m)"
    "t \<in> dom (evictOldestTopicsLocked order count m)"
  then show "ts_LastPublished (the (m s)) \<le> ts_LastPublished (the (m t))"
    using le split o(2) unfolding d by auto
qed

section \<open>A publisher to try it on\<close>

definition timeout_env :: "unit mqtt_env" where
  "timeout_env = \<lparr>me_now = (\<lambda>w. 0), me_json = (\<lambda>pl. Inr ''{}''),
     me_publish = (\<lambda>t q r s w. (TimerFired, w)), me_evict_order = (\<lambda>m. []),
     me_rivals = (\<lambda>w. ([], w))\<rparr>"

definition small_publisher :: "bool \<Rightarrow> unit publisher" where
  "small_publisher up = \<lparr>pb_config = DefaultMqttConfig\<lparr>mq_BufferSize := 2\<rparr>, pb_has_client = up, pb_connected = up,
     pb_reconnecting = False, pb_buffer = [], pb_done = False,
     pb_stats = \<lparr>MessagesPublished = 0, MessagesFailed = 0, MessagesBuffered = 0, BytesSent = 0, ReconnectCount = 0\<rparr>,
     pb_topicStats = Map.empty, pb_processor = Exited, pb_world = ()\<rparr>"

definition point_on :: "string \<Rightarrow> data_point" where
  "point_on topic = zero_data_point\<lparr>dp_Topic := topic\<rparr>"

lemma small_publisher_reachable:
  "mqtt_reachable timeout_env (snd (PublishBatch timeout_env dps (small_publisher False)))"
proof -
  have "NewPublisher (DefaultMqttConfig\<lparr>mq_BufferSize := 2\<rparr>) () = Ok (small_publisher False)"
    by (simp add: NewPublisher_def small_publisher_def DefaultMqttConfig_def or_default_def)
  then show ?thesis unfolding mqtt_reachable_def
    using mqtt_step.batch [of timeout_env "small_publisher False" dps] by blast
qed

section \<open>Properties\<close>

text \<open>
  In every reachable state the buffer holds at most \<open>BufferSize\<close> messages, whatever the broker, the
  callers and the processor do, and the processor's backoff is one of the seven values from
  100 ms to 6.4 s.
\<close>

theorem buffer_bounded:
  assumes "mqtt_reachable env p"
  shows "length (pb_buffer p) \<le> buffer_cap p
    \<and> (\<forall>b. backoff_of (pb_processor p) = Some b \<longrightarrow> b \<in> set backoff_values)"
  using mqtt_reachable_inv [OF assms] by (simp add: publisher_inv_def buffer_inv_def)

theorem buffer_bounded_witness:
  "length (pb_buffer (snd (PublishBatch timeout_env [point_on ''a'', point_on ''b'', point_on ''c''] (small_publisher False))))
   \<le> buffer_cap (snd (PublishBatch timeout_env [point_on ''a'', point_on ''b'', point_on ''c''] (small_publisher False)))"
  using buffer_bounded [OF small_publisher_reachable] by blast

text \<open>
  C9: While the connection is down and no other goroutine touches the buffer during the call, with a
  buffer of positive size that holds no more than that (as \<open>buffer_bounded\<close> has it in every state),
  publishing a batch loses only the oldest messages: the buffer then holds the newest \<open>BufferSize\<close>
  of the messages buffered before and those of the points that marshal to JSON, in order.  Each of
  those points is counted as buffered and each other point as failed, and the batch reports an error
  exactly when some point does not marshal.  (With rivals a call can also fail with \<open>message buffer
  full, contention too high\<close>, lemma \<open>contention_loses_both\<close>.)
\<close>

theorem newest_messages_kept:
  assumes "no_rivals env" and "\<not> pb_connected p" and "length (pb_buffer p) \<le> buffer_cap p" and "0 < buffer_cap p"
  shows "pb_buffer (snd (PublishBatch env dps p)) = drop (length (pb_buffer p) + length (messages_of env p dps) - buffer_cap p)
        (pb_buffer p @ messages_of env p dps)
    \<and> MessagesBuffered (pb_stats (snd (PublishBatch env dps p)))
        = MessagesBuffered (pb_stats p) + length (messages_of env p dps)
    \<and> MessagesFailed (pb_stats (snd (PublishBatch env dps p)))
        = MessagesFailed (pb_stats p) + (length dps - length (messages_of env p dps))
    \<and> (fst (PublishBatch env dps p) = None \<longleftrightarrow> length (messages_of env p dps) = length dps)"
proof -
  have inv: "buffer_inv p" using assms(3) by (simp add: buffer_inv_def)
  from batch_of_buffer [OF this assms(4)] publish_disconnected [OF assms(1,2) this assms(4), of dps None]
  show ?thesis by (simp add: PublishBatch_def) (simp add: batch_of_def)
qed

theorem newest_messages_kept_witness:
  "map bm_Topic (pb_buffer (snd (PublishBatch timeout_env [point_on ''a'', point_on ''b'', point_on ''c''] (small_publisher False))))
   = [''b'', ''c'']"
  using newest_messages_kept [of timeout_env "small_publisher False" "[point_on ''a'', point_on ''b'', point_on ''c'']"]
  by (simp add: timeout_env_def small_publisher_def DefaultMqttConfig_def buffer_cap_def message_of_def point_on_def
      no_rivals_def)

text \<open>
  A call that finds the buffer full and a rival in its way: error, and one message more lost.
\<close>

definition contended_env :: "bool mqtt_env" where
  "contended_env = \<lparr>me_now = (\<lambda>w. 0), me_json = (\<lambda>pl. Inr ''{}''), me_publish = (\<lambda>t q r s w. (TimerFired, w)),
     me_evict_order = (\<lambda>m. []), me_rivals = (\<lambda>w. if w then
       ([RivalSends \<lparr>bm_Topic = ''rival'', bm_Payload = ''{}'', bm_QoS = 1, bm_Retained = False, bm_Timestamp = 0\<rparr>], False)
       else ([], True))\<rparr>"

lemma contention_reached:
  assumes "length (pb_buffer p) = buffer_cap p" and "0 < buffer_cap p" and "\<not> pb_world p"
  shows "fst (bufferMessage contended_env dp p) = Some contention_error"
  using contention_loses_both [OF _ assms(1,2), of contended_env dp "''{}''" True _ False] assms(3)
  by (simp add: contended_env_def)

text \<open>
  A batch on a connection where every publish times out counts each message as failed twice:
  \<open>publishRaw\<close> counts the failure and \<open>PublishBatch\<close> counts it again.
\<close>

theorem failed_batch_counted_twice:
  assumes "\<And>dp. dp \<in> set dps \<Longrightarrow> me_json env (ToMQTTPayload dp) = Inr (ser dp)"
    and "\<And>topic qos ret payload w. fst (me_publish env topic qos ret payload w) = TimerFired"
    and "no_rivals env" and "pb_connected p" and "pb_has_client p"
  shows "MessagesFailed (pb_stats (snd (PublishBatch env dps p))) = MessagesFailed (pb_stats p) + 2 * length dps"
  using publish_loop_timeouts [of dps env ser p None] assms by (simp add: PublishBatch_def)

theorem failed_batch_counted_twice_witness:
  "MessagesFailed (pb_stats (snd (PublishBatch timeout_env [point_on ''a'', point_on ''b''] (small_publisher True)))) = 4"
  using failed_batch_counted_twice [of "[point_on ''a'', point_on ''b'']" timeout_env "\<lambda>dp. ''{}''" "small_publisher True"]
  by (simp add: timeout_env_def small_publisher_def no_rivals_def)

text \<open>
  The eviction of topic statistics removes exactly the \<open>count\<close> least recently published topics:
  no topic that stays was published before one that was removed.
\<close>

theorem eviction_removes_oldest:
  assumes "oldest_first m order" and "0 < count" and "nat count \<le> length order"
  shows "dom (evictOldestTopicsLocked order count m) = set (drop (nat count) order)
    \<and> (\<forall>s t. s \<in> dom m - dom (evictOldestTopicsLocked order count m)
        \<longrightarrow> t \<in> dom (evictOldestTopicsLocked order count m)
        \<longrightarrow> ts_LastPublished (the (m s)) \<le> ts_LastPublished (the (m t)))"
  using evicted_are_oldest [OF assms] by blast

definition topic_at :: "string \<Rightarrow> time \<Rightarrow> topic_stat" where
  "topic_at t z = \<lparr>ts_Topic = t, ts_Count = 1, ts_LastPublished = z, ts_LastPayloadBytes = 2\<rparr>"

theorem eviction_removes_oldest_witness:
  "dom (evictOldestTopicsLocked [''a'', ''b''] 1 [''b'' \<mapsto> topic_at ''b'' 9, ''a'' \<mapsto> topic_at ''a'' 5]) = {''b''}"
  using eviction_removes_oldest [of "[''b'' \<mapsto> topic_at ''b'' 9, ''a'' \<mapsto> topic_at ''a'' 5]" "[''a'', ''b'']" 1]
  by (auto simp: oldest_first_def topic_at_def)

end
