(* ===== verification/Polling.thy ===== *)
theory Polling
  imports S7_Address Protocol_Manager
begin

text \<open>
  \<open>internal/service/polling.go\<close>, the part that has no concurrency: the MQTT topic of a data point,
  the tags that a poll reads and the points that it publishes.  Text is ASCII, as in the parser of
  S7 addresses.
\<close>

section \<open>Topics\<close>

definition replace_char :: "char \<Rightarrow> char \<Rightarrow> string \<Rightarrow> string" where
  "replace_char a b s = map (\<lambda>c. if c = a then b else c) s"

definition trim_char :: "char \<Rightarrow> string \<Rightarrow> string" where
  "trim_char a s = rev (dropWhile (\<lambda>c. c = a) (rev (dropWhile (\<lambda>c. c = a) s)))"

definition sanitizeTopicSegment :: "string \<Rightarrow> string" where
  "sanitizeTopicSegment s =
     (let s1 = trim_space s;
          s2 = replace_char CHR ''/'' CHR ''_'' s1;
          s3 = replace_char CHR ''#'' CHR ''_'' s2;
          s4 = replace_char CHR ''+'' CHR ''_'' s3;
          s5 = replace_char CHR '' '' CHR ''_'' s4
      in trim_char CHR ''_'' s5)"

definition topicForTag :: "string \<Rightarrow> tag \<Rightarrow> string" where
  "topicForTag prefix t =
     (let s1 = trim_space (TopicSuffix t);
          s2 = (if s1 = [] then tag_Name t else s1);
          s3 = (if trim_space s2 = [] then tag_ID t else s2);
          suffix = sanitizeTopicSegment s3
      in if suffix = [] then prefix else prefix @ ''/'' @ suffix)"

section \<open>The tags of a poll and its points\<close>

definition getEnabledTags :: "device \<Rightarrow> tag list" where
  "getEnabledTags d = filter tag_Enabled (Tags d)"

text \<open>The lookup map: of tags with one ID the last one counts, tags without ID are left out.\<close>

definition tag_by_id :: "tag list \<Rightarrow> string \<rightharpoonup> tag" where
  "tag_by_id ts = fold (\<lambda>t m. if tag_ID t \<noteq> [] then m(tag_ID t \<mapsto> t) else m) ts Map.empty"

definition point_topic :: "string \<Rightarrow> (string \<rightharpoonup> tag) \<Rightarrow> data_point \<Rightarrow> string" where
  "point_topic prefix m p = (case m (dp_TagID p) of
       Some t \<Rightarrow> topicForTag prefix t
     | None \<Rightarrow> (let suffix = sanitizeTopicSegment (dp_TagID p)
                in if suffix \<noteq> [] then prefix @ ''/'' @ suffix else prefix))"

fun good_points :: "string \<Rightarrow> (string \<rightharpoonup> tag) \<Rightarrow> data_point option list \<Rightarrow> data_point list" where
  "good_points prefix m [] = []"
| "good_points prefix m (None # ps) = good_points prefix m ps"
| "good_points prefix m (Some p # ps) =
     (let p1 = p\<lparr>dp_Topic := point_topic prefix m p\<rparr>
      in if dp_Quality p1 = QualityGood then p1 # good_points prefix m ps else good_points prefix m ps)"

definition points_to_publish :: "time \<Rightarrow> device \<Rightarrow> tag list \<Rightarrow> data_point option list \<Rightarrow> data_point list" where
  "points_to_publish now d tags ps =
     map (CalculateStaleness now (PollInterval d)) (good_points (UNSPrefix d) (tag_by_id tags) ps)"

section \<open>Facts about topics\<close>

definition topic_separators :: "char set" where
  "topic_separators = {CHR ''/'', CHR ''#'', CHR ''+'', CHR '' ''}"

definition clean_segment :: "string \<Rightarrow> bool" where
  "clean_segment s \<longleftrightarrow> set s \<inter> topic_separators = {} \<and> s \<noteq> [] \<and> hd s \<noteq> CHR ''_'' \<and> List.last s \<noteq> CHR ''_''"

lemma set_trim_char: "set (trim_char a s) \<subseteq> set s"
  by (auto simp: trim_char_def dest!: set_dropWhileD)

lemma trim_char_ends:
  assumes "trim_char a s \<noteq> []"
  shows "hd (trim_char a s) \<noteq> a" "List.last (trim_char a s) \<noteq> a"
proof -
  define u where "u = dropWhile (\<lambda>c. c = a) s"
  have t: "trim_char a s = rev (dropWhile (\<lambda>c. c = a) (rev u))" by (simp add: trim_char_def u_def)
  have l: "dropWhile (\<lambda>c. c = a) (rev u) \<noteq> []" using assms t by simp
  have "List.last (trim_char a s) = hd (dropWhile (\<lambda>c. c = a) (rev u))" using l by (simp add: t last_rev)
  also have "\<dots> \<noteq> a" using hd_dropWhile [OF l] .
  finally show "List.last (trim_char a s) \<noteq> a" .
  have "u \<noteq> []" using l by auto
  then have hu: "hd u \<noteq> a" unfolding u_def by (rule hd_dropWhile)
  obtain pre where "rev u = pre @ dropWhile (\<lambda>c. c = a) (rev u)"
    by (metis takeWhile_dropWhile_id)
  then have "u = trim_char a s @ rev pre" unfolding t by (metis rev_append rev_rev_ident)
  then show "hd (trim_char a s) \<noteq> a" using hu assms by (metis hd_append2)
qed

lemma dropWhile_hd: "s \<noteq> [] \<Longrightarrow> \<not> P (hd s) \<Longrightarrow> dropWhile P s = s"
  by (cases s) simp_all

lemma trim_char_id: "s \<noteq> [] \<Longrightarrow> hd s \<noteq> a \<Longrightarrow> List.last s \<noteq> a \<Longrightarrow> trim_char a s = s"
  by (simp add: trim_char_def dropWhile_hd hd_rev)

lemma sanitize_alt:
  "sanitizeTopicSegment s = trim_char CHR ''_'' (map (\<lambda>c. if c \<in> topic_separators then CHR ''_'' else c) (trim_space s))"
  by (auto simp: sanitizeTopicSegment_def Let_def replace_char_def topic_separators_def
      intro!: arg_cong [where f = "trim_char CHR ''_''"])

lemma sanitize_clean: "sanitizeTopicSegment s \<noteq> [] \<Longrightarrow> clean_segment (sanitizeTopicSegment s)"
  using trim_char_ends [of "CHR ''_''" "map (\<lambda>c. if c \<in> topic_separators then CHR ''_'' else c) (trim_space s)"]
    set_trim_char [of "CHR ''_''" "map (\<lambda>c. if c \<in> topic_separators then CHR ''_'' else c) (trim_space s)"]
  by (auto simp: clean_segment_def sanitize_alt) (auto simp: topic_separators_def subset_iff split: if_splits)

lemma trim_space_id: "s \<noteq> [] \<Longrightarrow> \<not> is_space (hd s) \<Longrightarrow> \<not> is_space (List.last s) \<Longrightarrow> trim_space s = s"
  by (simp add: trim_space_def dropWhile_hd hd_rev)

lemma sanitize_id:
  assumes "clean_segment s" "\<not> is_space (hd s)" "\<not> is_space (List.last s)"
  shows "sanitizeTopicSegment s = s"
proof -
  have "map (\<lambda>c. if c \<in> topic_separators then CHR ''_'' else c) s = s"
    using assms(1) by (intro map_idI) (auto simp: clean_segment_def)
  moreover have "s \<noteq> []" using assms(1) by (simp add: clean_segment_def)
  ultimately show ?thesis using assms by (simp add: sanitize_alt trim_space_id trim_char_id clean_segment_def)
qed

lemma topic_cases: "topicForTag prefix t = prefix
    \<or> (\<exists>seg. clean_segment seg \<and> topicForTag prefix t = prefix @ ''/'' @ seg)"
  using sanitize_clean by (auto simp: topicForTag_def Let_def)

lemma point_topic_cases: "point_topic prefix m p = prefix
    \<or> (\<exists>seg. clean_segment seg \<and> point_topic prefix m p = prefix @ ''/'' @ seg)"
proof (cases "m (dp_TagID p)")
  case None
  then show ?thesis using sanitize_clean [of "dp_TagID p"]
    by (simp add: point_topic_def Let_def)
next
  case (Some t)
  then show ?thesis using topic_cases [of prefix t] by (simp add: point_topic_def)
qed

lemma tag_by_id_fold:
  "fold (\<lambda>t m. if tag_ID t \<noteq> [] then m(tag_ID t \<mapsto> t) else m) ts m0 i =
     (case filter (\<lambda>t. tag_ID t = i \<and> i \<noteq> []) (rev ts) of [] \<Rightarrow> m0 i | t # _ \<Rightarrow> Some t)"
  by (induction ts arbitrary: m0) (auto split: list.splits)

lemma tag_by_id_Some: "tag_by_id ts i = Some t \<Longrightarrow> t \<in> set ts \<and> tag_ID t = i"
  by (auto simp: tag_by_id_def tag_by_id_fold filter_eq_Cons_iff split: list.splits)
    (metis Un_iff insert_iff list.set(2) set_append set_rev)

lemma tag_by_id_distinct:
  assumes "distinct (map tag_ID ts)" "t \<in> set ts" "tag_ID t \<noteq> []"
  shows "tag_by_id ts (tag_ID t) = Some t"
proof -
  have "t \<in> set (filter (\<lambda>u. tag_ID u = tag_ID t \<and> tag_ID t \<noteq> []) (rev ts))" using assms by simp
  then obtain u us where f: "filter (\<lambda>u. tag_ID u = tag_ID t \<and> tag_ID t \<noteq> []) (rev ts) = u # us"
    by (metis list.exhaust list.set(1) empty_iff)
  then have "u \<in> set (filter (\<lambda>u. tag_ID u = tag_ID t \<and> tag_ID t \<noteq> []) (rev ts))" by simp
  then have "u = t" using assms(1,2) by (auto simp: distinct_map inj_on_def)
  then show ?thesis by (simp add: tag_by_id_def tag_by_id_fold f)
qed

lemma CalculateStaleness_simps [simp]:
  "dp_Topic (CalculateStaleness now i p) = dp_Topic p" "dp_Quality (CalculateStaleness now i p) = dp_Quality p"
  "dp_TagID (CalculateStaleness now i p) = dp_TagID p" "dp_Value (CalculateStaleness now i p) = dp_Value p"
  by (simp_all add: CalculateStaleness_def Let_def)

lemma length_good_points: "length (good_points prefix m ps) \<le> length ps"
  by (induction prefix m ps rule: good_points.induct) (auto simp: Let_def)

lemma good_points_map:
  "good_points prefix m ps = map (\<lambda>p. p\<lparr>dp_Topic := point_topic prefix m p\<rparr>)
     (filter (\<lambda>p. dp_Quality p = QualityGood) (List.map_filter id ps))"
  by (induction prefix m ps rule: good_points.induct) (simp_all add: Let_def List.map_filter_simps)

text \<open>
  Of the points that a read returned, a poll hands exactly those of good quality to the
  publisher, in their order and with their values, and the topic of each is the device's prefix, or the prefix
  and one more segment that has no separator, wildcard or space in it.
\<close>

theorem good_points_published:
  "map (\<lambda>p. (dp_TagID p, dp_Value p)) (points_to_publish now d tags ps) =
     map (\<lambda>p. (dp_TagID p, dp_Value p)) (filter (\<lambda>p. dp_Quality p = QualityGood) (List.map_filter id ps))
   \<and> list_all (\<lambda>p. dp_Topic p = UNSPrefix d
        \<or> (\<exists>seg. clean_segment seg \<and> dp_Topic p = UNSPrefix d @ ''/'' @ seg)) (points_to_publish now d tags ps)"
  using point_topic_cases by (auto simp: points_to_publish_def good_points_map list_all_iff)

text \<open>
  A point that carries the ID of a tag of the poll is published on that tag's own topic: the
  prefix and the tag's suffix as configured, when the IDs of the tags are distinct and the suffix
  is a clean segment without outer blanks.
\<close>

theorem tag_suffix_is_topic:
  assumes "distinct (map tag_ID tags)" "t \<in> set tags" "tag_ID t \<noteq> []" "dp_TagID p = tag_ID t"
    and "clean_segment (TopicSuffix t)" "\<not> is_space (hd (TopicSuffix t))" "\<not> is_space (List.last (TopicSuffix t))"
  shows "point_topic prefix (tag_by_id tags) p = prefix @ ''/'' @ TopicSuffix t"
proof -
  have ne: "TopicSuffix t \<noteq> []" using assms(5) by (simp add: clean_segment_def)
  have "trim_space (TopicSuffix t) = TopicSuffix t" using assms(6,7) ne by (intro trim_space_id)
  then show ?thesis using tag_by_id_distinct [OF assms(1-3)] sanitize_id [OF assms(5-7)] ne assms(4)
    by (simp add: point_topic_def topicForTag_def Let_def)
qed

lemma tag_suffix_is_topic_witness:
  "point_topic ''plant/line'' (tag_by_id [int_tag\<lparr>TopicSuffix := ''level''\<rparr>])
     (zero_data_point\<lparr>dp_TagID := ''level''\<rparr>) = ''plant/line/level''"
  using tag_suffix_is_topic [of "[int_tag\<lparr>TopicSuffix := ''level''\<rparr>]" "int_tag\<lparr>TopicSuffix := ''level''\<rparr>"
      "zero_data_point\<lparr>dp_TagID := ''level''\<rparr>" "''plant/line''"]
  by (simp add: int_tag_def raw_tag_def clean_segment_def topic_separators_def is_space_def)

end
