(* ===== verification/Polling_Service.thy ===== *)
theory Polling_Service
  imports Polling
begin

text \<open>
  \<open>internal/service/polling.go\<close>, the service: the registry of devices, one goroutine per polled
  device, the bounded pool of workers and the subscriptions that replace polling for OPC UA
  devices.  Pollers are shared by address (an index of \<open>po_pollers\<close>), as the goroutines keep a
  pointer to theirs while the registry replaces what is behind it.  A channel that is only ever
  closed is a number, closed when it is in \<open>po_closed\<close>: a goroutine that waits in a \<open>select\<close> has
  evaluated its channels, so it waits on those it found then.  The atomic actions of the goroutines
  and the callers are the rules of \<open>polling_step\<close>; the MQTT publisher, the protocol pools and the
  subscription manager are parameters that act on the world.  Counters do not wrap.
\<close>

section \<open>State\<close>

record polling_config =
  WorkerCount :: int
  BatchSize :: int
  DefaultInterval :: duration
  pcf_MaxRetries :: int
  ShutdownTimeout :: duration

record polling_stats =
  TotalPolls :: nat
  SuccessPolls :: nat
  FailedPolls :: nat
  SkippedPolls :: nat
  PointsRead :: nat
  PointsPublished :: nat

record poller_stats =
  pollCount :: nat
  errorCount :: nat
  skippedCount :: nat
  pointsRead :: nat

record device_poller =
  dv_device :: device
  dv_stopChan :: nat
  dv_running :: bool
  dv_subscribed :: bool
  dv_lastPoll :: "time option"
  dv_lastError :: "err option"
  dv_stats :: poller_stats

record 'w publisher_ops =
  pu_Publish :: "data_point \<Rightarrow> 'w \<Rightarrow> err option \<times> 'w"
  pu_PublishBatch :: "data_point list \<Rightarrow> 'w \<Rightarrow> err option \<times> 'w"

record 'w subscription_handler =
  sb_Subscribe :: "device \<Rightarrow> tag list \<Rightarrow> 'w \<Rightarrow> err option \<times> 'w"
  sb_Unsubscribe :: "string \<Rightarrow> 'w \<Rightarrow> err option \<times> 'w"

text \<open>
  A goroutine sleeps its jitter, waits in the \<open>select\<close> on the context and the stop channel, or is in a poll:
  with its worker taken and about to read the tags, or with the points to publish.
\<close>

datatype poll_pc =
    Jitter
  | Selecting nat nat
  | Reading "tag list"
  | Publishing "tag list" "data_point option list"

record routine =
  rt_poller :: nat
  rt_pc :: poll_pc

record 'w polling =
  po_config :: polling_config
  po_manager :: "'w manager"
  po_publisher :: "'w publisher_ops"
  po_handler :: "'w subscription_handler option"
  po_clock :: "'w \<Rightarrow> time"
  po_devices :: "string \<rightharpoonup> nat"
  po_pollers :: "device_poller list"
  po_started :: bool
  po_ctx :: nat
  po_closed :: "nat set"
  po_next :: nat
  po_routines :: "routine list"
  po_lock :: "nat option"
  po_callbacks :: "nat list"
  po_workers :: int
  po_stats :: polling_stats
  po_world :: 'w

definition default_pos :: "int \<Rightarrow> int \<Rightarrow> int" where
  "default_pos x d = (if x \<le> 0 then d else x)"

text \<open>Channel 0 stands for the context that is there before the first start.\<close>

definition NewPollingService ::
  "polling_config \<Rightarrow> 'w manager \<Rightarrow> 'w publisher_ops \<Rightarrow> ('w \<Rightarrow> time) \<Rightarrow> 'w \<Rightarrow> 'w polling" where
  "NewPollingService cfg pm pub clock w = \<lparr>
     po_config = cfg\<lparr>WorkerCount := default_pos (WorkerCount cfg) 10, BatchSize := default_pos (BatchSize cfg) 50,
       DefaultInterval := default_pos (DefaultInterval cfg) (1 * second),
       ShutdownTimeout := default_pos (ShutdownTimeout cfg) (30 * second)\<rparr>,
     po_manager = pm, po_publisher = pub, po_handler = None, po_clock = clock, po_devices = Map.empty,
     po_pollers = [], po_started = False, po_ctx = 0, po_closed = {}, po_next = 1, po_routines = [], po_lock = None,
     po_callbacks = [], po_workers = 0,
     po_stats = \<lparr>TotalPolls = 0, SuccessPolls = 0, FailedPolls = 0, SkippedPolls = 0, PointsRead = 0, PointsPublished = 0\<rparr>,
     po_world = w\<rparr>"

definition SetSubscriptionHandler :: "'w subscription_handler \<Rightarrow> 'w polling \<Rightarrow> 'w polling" where
  "SetSubscriptionHandler h s = s\<lparr>po_handler := Some h\<rparr>"

definition new_poller :: "device \<Rightarrow> nat \<Rightarrow> device_poller" where
  "new_poller d ch = \<lparr>dv_device = d, dv_stopChan = ch, dv_running = False, dv_subscribed = False,
     dv_lastPoll = None, dv_lastError = None,
     dv_stats = \<lparr>pollCount = 0, errorCount = 0, skippedCount = 0, pointsRead = 0\<rparr>\<rparr>"

abbreviation poller :: "'w polling \<Rightarrow> nat \<Rightarrow> device_poller" where
  "poller s a \<equiv> po_pollers s ! a"

definition upd_poller :: "nat \<Rightarrow> (device_poller \<Rightarrow> device_poller) \<Rightarrow> 'w polling \<Rightarrow> 'w polling" where
  "upd_poller a f s = s\<lparr>po_pollers := (po_pollers s)[a := f (poller s a)]\<rparr>"

definition upd_stats :: "(polling_stats \<Rightarrow> polling_stats) \<Rightarrow> 'w polling \<Rightarrow> 'w polling" where
  "upd_stats f s = s\<lparr>po_stats := f (po_stats s)\<rparr>"

definition set_running :: "bool \<Rightarrow> nat \<Rightarrow> 'w polling \<Rightarrow> 'w polling" where
  "set_running b a = upd_poller a (\<lambda>p. p\<lparr>dv_running := b\<rparr>)"

definition set_subscribed :: "bool \<Rightarrow> nat \<Rightarrow> 'w polling \<Rightarrow> 'w polling" where
  "set_subscribed b a = upd_poller a (\<lambda>p. p\<lparr>dv_subscribed := b\<rparr>)"

section \<open>Starting a poller\<close>

definition wants_subscription :: "'w polling \<Rightarrow> device \<Rightarrow> bool" where
  "wants_subscription s d \<longleftrightarrow>
     OPCUseSubscriptions (Connection d) \<and> dev_Protocol d = ProtocolOPCUA \<and> po_handler s \<noteq> None"

definition spawn :: "nat \<Rightarrow> 'w polling \<Rightarrow> 'w polling" where
  "spawn a s = (set_running True a s)\<lparr>po_routines := po_routines s @ [\<lparr>rt_poller = a, rt_pc = Jitter\<rparr>]\<rparr>"

text \<open>
  The first result says whether the subscription failed, so that the code falls back to
  \<open>startDevicePoller\<close>.  The callback is with the handler from the call on.
\<close>

definition startDeviceSubscription :: "'w subscription_handler \<Rightarrow> nat \<Rightarrow> 'w polling \<Rightarrow> bool \<times> 'w polling" where
  "startDeviceSubscription h a s =
     (let d = dv_device (poller s a); tags = getEnabledTags d in
      if tags = [] then (False, s)
      else (case sb_Subscribe h d tags (po_world s) of
          (Some e, w) \<Rightarrow> (True, set_running False a (set_subscribed False a
              (s\<lparr>po_world := w, po_callbacks := a # po_callbacks s\<rparr>)))
        | (None, w) \<Rightarrow> (False, set_running True a (set_subscribed True a
              (s\<lparr>po_world := w, po_callbacks := a # po_callbacks s\<rparr>)))))"

text \<open>
  The fallback calls \<open>startDevicePoller\<close> again, which delegates to the subscription again: the
  function need not return, and then its value is \<open>None\<close>.
\<close>

partial_function (option) startDevicePoller :: "nat \<Rightarrow> 'w polling \<Rightarrow> 'w polling option" where
  "startDevicePoller a s =
     (if dv_running (poller s a) then Some s
      else case po_handler s of
          Some h \<Rightarrow>
            (if wants_subscription s (dv_device (poller s a)) then
               (case startDeviceSubscription h a s of
                  (failed, s1) \<Rightarrow> if failed then startDevicePoller a s1 else Some s1)
             else Some (spawn a s))
        | None \<Rightarrow> Some (spawn a s))"

fun start_pollers :: "nat list \<Rightarrow> 'w polling \<Rightarrow> 'w polling option" where
  "start_pollers [] s = Some s"
| "start_pollers (a # as) s = (case startDevicePoller a s of None \<Rightarrow> None | Some s1 \<Rightarrow> start_pollers as s1)"

text \<open>\<open>as\<close> enumerates the pollers of the registry.\<close>

definition polling_Start :: "nat list \<Rightarrow> 'w polling \<Rightarrow> 'w polling option" where
  "polling_Start as s =
     (if po_started s then Some s
      else start_pollers as (s\<lparr>po_ctx := po_next s, po_next := po_next s + 1, po_started := True\<rparr>))"

definition polling_stop_begin :: "'w polling \<Rightarrow> 'w polling" where
  "polling_stop_begin s = (if po_started s then s\<lparr>po_closed := insert (po_ctx s) (po_closed s)\<rparr> else s)"

definition polling_stop_end :: "'w polling \<Rightarrow> 'w polling" where
  "polling_stop_end s = s\<lparr>po_started := False\<rparr>"

section \<open>The registry\<close>

definition RegisterDevice :: "device \<Rightarrow> 'w polling \<Rightarrow> (err option \<times> 'w polling) option" where
  "RegisterDevice d s =
     (if po_devices s (dev_ID d) \<noteq> None then Some (Some ErrDeviceExists, s)
      else if \<not> dev_Enabled d then Some (None, s)
      else let a = length (po_pollers s);
               s1 = s\<lparr>po_pollers := po_pollers s @ [new_poller d (po_next s)], po_next := po_next s + 1,
                      po_devices := (po_devices s)(dev_ID d \<mapsto> a)\<rparr>
           in if po_started s then map_option (\<lambda>s2. (None, s2)) (startDevicePoller a s1) else Some (None, s1))"

definition unsubscribe :: "nat \<Rightarrow> string \<Rightarrow> 'w polling \<Rightarrow> 'w polling" where
  "unsubscribe a deviceID s = (case po_handler s of
       Some h \<Rightarrow> if dv_subscribed (poller s a)
         then set_subscribed False a (s\<lparr>po_world := snd (sb_Unsubscribe h deviceID (po_world s))\<rparr>) else s
     | None \<Rightarrow> s)"

text \<open>\<open>stopOnce\<close> and the stop channel are always replaced together, so closing it again does nothing.\<close>

definition signal_stop :: "nat \<Rightarrow> 'w polling \<Rightarrow> 'w polling" where
  "signal_stop a s = (if dv_running (poller s a)
     then s\<lparr>po_closed := insert (dv_stopChan (poller s a)) (po_closed s)\<rparr> else s)"

definition drop_device :: "nat \<Rightarrow> string \<Rightarrow> 'w polling \<Rightarrow> 'w polling" where
  "drop_device a deviceID s =
     (let s1 = signal_stop a (unsubscribe a deviceID s) in s1\<lparr>po_devices := (po_devices s1)(deviceID := None)\<rparr>)"

definition UnregisterDevice :: "string \<Rightarrow> 'w polling \<Rightarrow> err option \<times> 'w polling" where
  "UnregisterDevice deviceID s = (case po_devices s deviceID of
       None \<Rightarrow> (Some ErrDeviceNotFound, s)
     | Some a \<Rightarrow> (None, drop_device a deviceID s))"

text \<open>
  \<open>ReplaceDevice\<close> up to the wait for the old goroutine, which it makes with the lock of the
  registry held: then \<open>po_lock\<close> is the poller it waits for.
\<close>

definition replace_begin :: "device \<Rightarrow> 'w polling \<Rightarrow> (err option \<times> 'w polling) option" where
  "replace_begin d s = (case po_devices s (dev_ID d) of
       None \<Rightarrow> RegisterDevice d s
     | Some a \<Rightarrow>
         if \<not> dev_Enabled d then Some (None, drop_device a (dev_ID d) s)
         else let oldInterval = PollInterval (dv_device (poller s a));
                  wasSubscribed = dv_subscribed (poller s a);
                  wants = wants_subscription s d;
                  s1 = upd_poller a (\<lambda>p. p\<lparr>dv_device := d\<rparr>) s
              in if wasSubscribed then
                   Some (None, (signal_stop a (set_subscribed False a (unsubscribe a (dev_ID d) s1)))\<lparr>po_lock := Some a\<rparr>)
                 else if wants \<or> oldInterval \<noteq> PollInterval d \<and> po_started s then
                   Some (None, (signal_stop a s1)\<lparr>po_lock := Some a\<rparr>)
                 else Some (None, s1))"

text \<open>The rest of \<open>stopAndResetPoller\<close>, and the restart.\<close>

definition replace_end :: "nat \<Rightarrow> 'w polling \<Rightarrow> 'w polling option" where
  "replace_end a s =
     startDevicePoller a ((upd_poller a (\<lambda>p. p\<lparr>dv_stopChan := po_next s\<rparr>) s)\<lparr>po_next := po_next s + 1, po_lock := None\<rparr>)"

definition replace_forced :: "nat \<Rightarrow> 'w polling \<Rightarrow> 'w polling option" where
  "replace_forced a s = replace_end a (set_running False a s)"

section \<open>The goroutine of a poller\<close>

abbreviation set_pc :: "nat \<Rightarrow> poll_pc \<Rightarrow> 'w polling \<Rightarrow> 'w polling" where
  "set_pc i pc s \<equiv> s\<lparr>po_routines := (po_routines s)[i := (po_routines s ! i)\<lparr>rt_pc := pc\<rparr>]\<rparr>"

text \<open>Back in the loop, the goroutine evaluates the channels of the \<open>select\<close>.\<close>

definition enter_select :: "nat \<Rightarrow> 'w polling \<Rightarrow> 'w polling" where
  "enter_select i s = set_pc i (Selecting (po_ctx s) (dv_stopChan (poller s (rt_poller (po_routines s ! i))))) s"

definition release_worker :: "'w polling \<Rightarrow> 'w polling" where
  "release_worker s = s\<lparr>po_workers := po_workers s - 1\<rparr>"

definition count_poll :: "nat \<Rightarrow> 'w polling \<Rightarrow> 'w polling" where
  "count_poll a s = upd_poller a (\<lambda>p. p\<lparr>dv_stats := (dv_stats p)\<lparr>pollCount := pollCount (dv_stats p) + 1\<rparr>\<rparr>)
     (upd_stats (\<lambda>t. t\<lparr>TotalPolls := TotalPolls t + 1\<rparr>) s)"

definition count_skip :: "nat \<Rightarrow> 'w polling \<Rightarrow> 'w polling" where
  "count_skip a s = upd_poller a (\<lambda>p. p\<lparr>dv_stats := (dv_stats p)\<lparr>skippedCount := skippedCount (dv_stats p) + 1\<rparr>\<rparr>)
     (upd_stats (\<lambda>t. t\<lparr>SkippedPolls := SkippedPolls t + 1\<rparr>) s)"

text \<open>\<open>pollDevice\<close> with a worker to be had: without an enabled tag the poll is over.\<close>

definition poll_begin :: "nat \<Rightarrow> 'w polling \<Rightarrow> 'w polling" where
  "poll_begin i s =
     (let a = rt_poller (po_routines s ! i);
          s1 = count_poll a (s\<lparr>po_workers := po_workers s + 1\<rparr>);
          tags = getEnabledTags (dv_device (poller s1 a))
      in if tags = [] then enter_select i (release_worker s1) else set_pc i (Reading tags) s1)"

definition poll_skip :: "nat \<Rightarrow> 'w polling \<Rightarrow> 'w polling" where
  "poll_skip i s = enter_select i (count_skip (rt_poller (po_routines s ! i)) s)"

definition poll_failed :: "nat \<Rightarrow> err \<Rightarrow> 'w polling \<Rightarrow> 'w polling" where
  "poll_failed a e s =
     (if errors_is e ErrCircuitBreakerOpen then upd_poller a (\<lambda>p. p\<lparr>dv_lastError := Some e\<rparr>) (count_skip a s)
      else upd_poller a (\<lambda>p. p\<lparr>dv_lastError := Some e, dv_stats := (dv_stats p)\<lparr>errorCount := errorCount (dv_stats p) + 1\<rparr>\<rparr>)
        (upd_stats (\<lambda>t. t\<lparr>FailedPolls := FailedPolls t + 1\<rparr>) s))"

definition poll_read :: "nat \<Rightarrow> tag list \<Rightarrow> 'w polling \<Rightarrow> 'w polling" where
  "poll_read i tags s =
     (let a = rt_poller (po_routines s ! i) in
      case pm_ReadTags (po_manager s) (dv_device (poller s a)) tags (po_world s) of
        ((ps, Some e), w) \<Rightarrow> enter_select i (release_worker (poll_failed a e (s\<lparr>po_world := w\<rparr>)))
      | ((ps, None), w) \<Rightarrow> set_pc i (Publishing tags ps)
          (upd_poller a (\<lambda>p. p\<lparr>dv_lastPoll := Some (po_clock s w), dv_lastError := None\<rparr>)
            (upd_stats (\<lambda>t. t\<lparr>SuccessPolls := SuccessPolls t + 1\<rparr>) (s\<lparr>po_world := w\<rparr>))))"

definition count_points :: "nat \<Rightarrow> nat \<Rightarrow> 'w polling \<Rightarrow> 'w polling" where
  "count_points a n s = upd_poller a (\<lambda>p. p\<lparr>dv_stats := (dv_stats p)\<lparr>pointsRead := pointsRead (dv_stats p) + n\<rparr>\<rparr>)
     (upd_stats (\<lambda>t. t\<lparr>PointsRead := PointsRead t + n\<rparr>) s)"

definition count_published :: "nat \<Rightarrow> err option \<Rightarrow> 'w polling \<Rightarrow> 'w polling" where
  "count_published n e s =
     (if e = None then upd_stats (\<lambda>t. t\<lparr>PointsPublished := PointsPublished t + n\<rparr>) s else s)"

definition poll_publish :: "nat \<Rightarrow> tag list \<Rightarrow> data_point option list \<Rightarrow> 'w polling \<Rightarrow> 'w polling" where
  "poll_publish i tags ps s =
     (let a = rt_poller (po_routines s ! i);
          good = points_to_publish (po_clock s (po_world s)) (dv_device (poller s a)) tags ps;
          s1 = count_points a (length ps) s
      in enter_select i (release_worker
        (if good = [] then s1
         else (case pu_PublishBatch (po_publisher s) good (po_world s1) of
           (e, w) \<Rightarrow> count_published (length good) e (s1\<lparr>po_world := w\<rparr>)))))"

text \<open>The deferred calls: the poller is no longer running, whoever started it last.\<close>

definition routine_exit :: "nat \<Rightarrow> 'w polling \<Rightarrow> 'w polling" where
  "routine_exit i s = (set_running False (rt_poller (po_routines s ! i)) s)
     \<lparr>po_routines := take i (po_routines s) @ drop (Suc i) (po_routines s)\<rparr>"

text \<open>A point that the subscription manager delivers through the callback of a poller.\<close>

definition subscription_data :: "nat \<Rightarrow> data_point \<Rightarrow> 'w polling \<Rightarrow> 'w polling" where
  "subscription_data a p s =
     (let s1 = count_points a 1 s in
      if dp_Quality p = QualityGood
      then (case pu_Publish (po_publisher s) p (po_world s1) of (e, w) \<Rightarrow> count_published 1 e (s1\<lparr>po_world := w\<rparr>))
      else s1)"

section \<open>Status\<close>

record device_status_info =
  dsi_DeviceID :: string
  dsi_DeviceName :: string
  dsi_Status :: device_status
  dsi_Running :: bool
  dsi_LastPoll :: "time option"
  dsi_LastError :: "err option"
  dsi_PollCount :: nat
  dsi_ErrorCount :: nat
  dsi_PointsRead :: nat

definition GetDeviceStatus :: "string \<Rightarrow> 'w polling \<Rightarrow> (err, device_status_info) outcome" where
  "GetDeviceStatus deviceID s = (case po_devices s deviceID of
       None \<Rightarrow> Err ErrDeviceNotFound
     | Some a \<Rightarrow> (let p = poller s a in Ok \<lparr>dsi_DeviceID = deviceID, dsi_DeviceName = dev_Name (dv_device p),
         dsi_Status = (if dv_lastError p = None \<and> dv_lastPoll p \<noteq> None then DeviceStatusOnline
                       else if dv_lastError p \<noteq> None then DeviceStatusError else DeviceStatusUnknown),
         dsi_Running = dv_running p, dsi_LastPoll = dv_lastPoll p, dsi_LastError = dv_lastError p,
         dsi_PollCount = pollCount (dv_stats p), dsi_ErrorCount = errorCount (dv_stats p),
         dsi_PointsRead = pointsRead (dv_stats p)\<rparr>))"

section \<open>Steps\<close>

definition at_pc :: "'w polling \<Rightarrow> nat \<Rightarrow> poll_pc \<Rightarrow> bool" where
  "at_pc s i pc \<longleftrightarrow> i < length (po_routines s) \<and> rt_pc (po_routines s ! i) = pc"

definition about_to_poll :: "'w polling \<Rightarrow> nat \<Rightarrow> bool" where
  "about_to_poll s i \<longleftrightarrow> at_pc s i Jitter \<or> (\<exists>c d. at_pc s i (Selecting c d))"

definition routines_of :: "nat \<Rightarrow> 'w polling \<Rightarrow> routine list" where
  "routines_of a s = filter (\<lambda>r. rt_poller r = a) (po_routines s)"

text \<open>A step is labelled: with the number of goroutines a forced restart leaves behind.\<close>

datatype polling_label = Internal | Forced nat

inductive polling_step :: "polling_label \<Rightarrow> 'w polling \<Rightarrow> 'w polling \<Rightarrow> bool" where
  handler: "\<not> po_started s \<Longrightarrow> polling_step Internal s (SetSubscriptionHandler h s)"
| start: "po_lock s = None \<Longrightarrow> set as = ran (po_devices s) \<Longrightarrow> distinct as \<Longrightarrow> polling_Start as s = Some s' \<Longrightarrow> polling_step Internal s s'"
| stop: "polling_step Internal s (polling_stop_begin s)"
| stopped: "po_ctx s \<in> po_closed s \<Longrightarrow> polling_step Internal s (polling_stop_end s)"
| register: "po_lock s = None \<Longrightarrow> RegisterDevice d s = Some (e, s') \<Longrightarrow> polling_step Internal s s'"
| unregister: "po_lock s = None \<Longrightarrow> polling_step Internal s (snd (UnregisterDevice i s))"
| replace: "po_lock s = None \<Longrightarrow> replace_begin d s = Some (e, s') \<Longrightarrow> polling_step Internal s s'"
| replaced: "po_lock s = Some a \<Longrightarrow> \<not> dv_running (poller s a) \<Longrightarrow> replace_end a s = Some s' \<Longrightarrow> polling_step Internal s s'"
| forced: "po_lock s = Some a \<Longrightarrow> dv_running (poller s a) \<Longrightarrow> replace_forced a s = Some s' \<Longrightarrow>
    polling_step (Forced (length (routines_of a s))) s s'"
| poll: "about_to_poll s i \<Longrightarrow> po_workers s < WorkerCount (po_config s) \<Longrightarrow> polling_step Internal s (poll_begin i s)"
| poll_cancelled: "about_to_poll s i \<Longrightarrow> po_ctx s \<in> po_closed s \<Longrightarrow> polling_step Internal s (enter_select i s)"
| poll_skipped: "about_to_poll s i \<Longrightarrow> WorkerCount (po_config s) \<le> po_workers s \<Longrightarrow> po_ctx s \<notin> po_closed s \<Longrightarrow>
    polling_step Internal s (poll_skip i s)"
| read: "at_pc s i (Reading tags) \<Longrightarrow> polling_step Internal s (poll_read i tags s)"
| publish: "at_pc s i (Publishing tags ps) \<Longrightarrow> polling_step Internal s (poll_publish i tags ps s)"
| exit: "at_pc s i (Selecting c d) \<Longrightarrow> c \<in> po_closed s \<or> d \<in> po_closed s \<Longrightarrow> polling_step Internal s (routine_exit i s)"
| data: "a \<in> set (po_callbacks s) \<Longrightarrow> polling_step Internal s (subscription_data a p s)"
| world: "polling_step Internal s (s\<lparr>po_world := w\<rparr>)"

inductive polling_run :: "polling_label list \<Rightarrow> 'w polling \<Rightarrow> 'w polling \<Rightarrow> bool" where
  none: "polling_run [] s s"
| more: "polling_run ls s s1 \<Longrightarrow> polling_step l s1 s2 \<Longrightarrow> polling_run (ls @ [l]) s s2"
section \<open>What the operations do to the state\<close>

named_theorems polling_ops \<open>the operations as updates of the state\<close>

lemmas [polling_ops] = upd_poller_def upd_stats_def set_running_def set_subscribed_def spawn_def
  SetSubscriptionHandler_def polling_stop_begin_def polling_stop_end_def unsubscribe_def signal_stop_def
  drop_device_def enter_select_def release_worker_def count_poll_def count_skip_def poll_begin_def poll_skip_def
  poll_failed_def count_points_def count_published_def poll_publish_def routine_exit_def subscription_data_def

text \<open>What is left alone by starting a poller: everything but the poller's flags, its new goroutine and the world.\<close>

definition start_frame :: "'w polling \<Rightarrow>
    polling_config \<times> 'w subscription_handler option \<times> (string \<rightharpoonup> nat) \<times> bool \<times> nat \<times> nat set \<times> nat option \<times> int \<times> polling_stats" where
  "start_frame s = (po_config s, po_handler s, po_devices s, po_started s, po_ctx s, po_closed s, po_lock s,
     po_workers s, po_stats s)"

definition same_pollers :: "'w polling \<Rightarrow> 'w polling \<Rightarrow> bool" where
  "same_pollers s s' \<longleftrightarrow> map dv_device (po_pollers s') = map dv_device (po_pollers s)
     \<and> map dv_stopChan (po_pollers s') = map dv_stopChan (po_pollers s)"

text \<open>One poller \<open>a\<close> is started, or nothing but its flags changes.\<close>

definition starts_only :: "nat \<Rightarrow> 'w polling \<Rightarrow> 'w polling \<Rightarrow> bool" where
  "starts_only a s s' \<longleftrightarrow> start_frame s' = start_frame s \<and> same_pollers s s'
     \<and> (\<forall>b. b \<noteq> a \<longrightarrow> poller s' b = poller s b)
     \<and> (\<forall>b\<in>set (po_callbacks s'). b = a \<or> b \<in> set (po_callbacks s))
     \<and> (if dv_running (poller s a) then po_routines s' = po_routines s \<and> poller s' a = poller s a
        else po_routines s' = po_routines s
             \<or> po_routines s' = po_routines s @ [\<lparr>rt_poller = a, rt_pc = Jitter\<rparr>]
               \<and> (a < length (po_pollers s) \<longrightarrow> dv_running (poller s' a)))"

lemma map_update_same: "f y = f (xs ! i) \<Longrightarrow> map f (xs[i := y]) = map f xs"
  by (cases "i < length xs") (simp_all add: map_update list_update_beyond, metis list_update_id nth_map)

lemma starts_only_spawn: "\<not> dv_running (poller s a) \<Longrightarrow> starts_only a s (spawn a s)"
  by (simp add: starts_only_def start_frame_def same_pollers_def polling_ops map_update_same)

lemma update_again: "xs[a := f (xs[a := y] ! a)] = xs[a := f y]"
  by (cases "a < length xs") (simp_all add: list_update_beyond)

lemma starts_only_flags:
  assumes "\<not> dv_running (poller s a)"
  shows "starts_only a s (set_running b a (set_subscribed c a (s\<lparr>po_world := w, po_callbacks := a # po_callbacks s\<rparr>)))"
  using assms by (simp add: starts_only_def start_frame_def same_pollers_def polling_ops map_update_same
      update_again [where f = "dv_running_update (\<lambda>_. b)"])

lemma set_flags_running: "\<not> dv_running (poller s a) \<Longrightarrow>
    \<not> dv_running (poller (set_running False a (set_subscribed c a (s\<lparr>po_world := w, po_callbacks := cs\<rparr>))) a)"
  by (cases "a < length (po_pollers s)") (simp_all add: polling_ops list_update_beyond)

lemma starts_only_subscription:
  assumes "startDeviceSubscription h a s = (r, s1)" "\<not> dv_running (poller s a)"
  shows "starts_only a s s1" "r \<Longrightarrow> \<not> dv_running (poller s1 a)" "po_routines s1 = po_routines s"
proof -
  let ?flags = "\<lambda>b w. set_running b a (set_subscribed b a (s\<lparr>po_world := w, po_callbacks := a # po_callbacks s\<rparr>))"
  have "(\<not> r \<and> s1 = s) \<or> (\<exists>w. s1 = ?flags (\<not> r) w)"
    using assms(1) by (auto simp: startDeviceSubscription_def Let_def split: if_splits prod.splits option.splits)
  then show "starts_only a s s1" "r \<Longrightarrow> \<not> dv_running (poller s1 a)" "po_routines s1 = po_routines s"
    using assms(2) starts_only_flags [of s a] set_flags_running [of s a]
    by (auto simp: starts_only_def same_pollers_def) (auto simp: polling_ops)
qed

lemma starts_only_trans:
  assumes "starts_only a s s1" "\<not> dv_running (poller s1 a)" "\<not> dv_running (poller s a)" "po_routines s1 = po_routines s"
    "starts_only a s1 s2"
  shows "starts_only a s s2"
proof -
  have "length (po_pollers s1) = length (po_pollers s)"
    using assms(1) by (auto simp: starts_only_def same_pollers_def dest: map_eq_imp_length_eq)
  then show ?thesis using assms unfolding starts_only_def same_pollers_def by auto
qed

lemma startDevicePoller_starts:
  assumes "startDevicePoller a s = Some s'"
  shows "starts_only a s s'"
  using assms
proof (rule startDevicePoller.raw_induct [rotated])
  fix start :: "nat \<Rightarrow> 'a polling \<Rightarrow> 'a polling option" and a s s'
  assume IH: "\<And>b s s'. start b s = Some s' \<Longrightarrow> starts_only b s s'"
    and body: "(if dv_running (poller s a) then Some s
      else case po_handler s of None \<Rightarrow> Some (spawn a s)
        | Some h \<Rightarrow> if wants_subscription s (dv_device (poller s a))
            then case startDeviceSubscription h a s of (failed, s1) \<Rightarrow> if failed then start a s1 else Some s1
            else Some (spawn a s)) = Some s'"
  show "starts_only a s s'"
  proof (cases "dv_running (poller s a)")
    case True
    then show ?thesis using body by (simp add: starts_only_def same_pollers_def)
  next
    case idle: False
    show ?thesis
    proof (cases "\<exists>h. po_handler s = Some h \<and> wants_subscription s (dv_device (poller s a))")
      case False
      then have "s' = spawn a s" using body idle by (auto split: option.splits if_splits)
      then show ?thesis using starts_only_spawn idle by blast
    next
      case True
      then obtain h r s1 where h: "po_handler s = Some h" "wants_subscription s (dv_device (poller s a))"
        "startDeviceSubscription h a s = (r, s1)" by (metis prod.exhaust)
      note sub = starts_only_subscription [OF h(3) idle]
      show ?thesis
      proof (cases r)
        case False
        then show ?thesis using body idle h sub(1) by simp
      next
        case True
        then have "start a s1 = Some s'" using body idle h by simp
        from IH [OF this] show ?thesis
          by (rule starts_only_trans [OF sub(1) sub(2) [OF True] idle sub(3)])
      qed
    qed
  qed
qed
section \<open>Workers and counters\<close>

fun holding :: "poll_pc \<Rightarrow> bool" where
  "holding (Reading tags) = True"
| "holding (Publishing tags ps) = True"
| "holding pc = False"

fun reading :: "poll_pc \<Rightarrow> bool" where
  "reading (Reading tags) = True"
| "reading pc = False"

definition routines_at :: "(poll_pc \<Rightarrow> bool) \<Rightarrow> 'w polling \<Rightarrow> nat" where
  "routines_at P s = length (filter (\<lambda>r. P (rt_pc r)) (po_routines s))"

text \<open>
  The tokens in the worker channel are held by the goroutines in a poll; a poll is counted when it
  takes its worker, its outcome when the read returns; a point is counted before it is published.
\<close>

definition accounts_inv :: "'w polling \<Rightarrow> bool" where
  "accounts_inv s \<longleftrightarrow> po_workers s = int (routines_at holding s) \<and> po_workers s \<le> WorkerCount (po_config s)
     \<and> 0 < WorkerCount (po_config s)
     \<and> SuccessPolls (po_stats s) + FailedPolls (po_stats s) + routines_at reading s \<le> TotalPolls (po_stats s)
     \<and> PointsPublished (po_stats s) \<le> PointsRead (po_stats s)"

lemma routines_at_set_pc:
  "at_pc s i pc \<Longrightarrow> po_routines s' = po_routines s \<Longrightarrow>
     routines_at P (set_pc i pc' s') + (if P pc then 1 else 0) = routines_at P s + (if P pc' then 1 else 0)"
  using length_filter_update [of i "po_routines s" "\<lambda>r. P (rt_pc r)" "(po_routines s ! i)\<lparr>rt_pc := pc'\<rparr>"]
  by (simp add: routines_at_def at_pc_def)

lemma routines_at_remove:
  "at_pc s i pc \<Longrightarrow> routines_at P (s\<lparr>po_routines := take i (po_routines s) @ drop (Suc i) (po_routines s)\<rparr>)
     + (if P pc then 1 else 0) = routines_at P s"
  using length_filter_remove [of i "po_routines s" "\<lambda>r. P (rt_pc r)"] by (simp add: routines_at_def at_pc_def)

text \<open>The parts of the state that the counters' invariant speaks of.\<close>

definition accounts :: "'w polling \<Rightarrow> int \<times> int \<times> polling_stats" where
  "accounts s = (po_workers s, WorkerCount (po_config s), po_stats s)"

lemma accounts_same:
  "accounts s' = accounts s \<Longrightarrow> (\<And>P. \<not> P Jitter \<Longrightarrow> routines_at P s' = routines_at P s) \<Longrightarrow> accounts_inv s \<Longrightarrow> accounts_inv s'"
  by (simp add: accounts_inv_def accounts_def)

lemma starts_only_accounts: "starts_only a s s' \<Longrightarrow> accounts_inv s \<Longrightarrow> accounts_inv s'"
  by (rule accounts_same)
    (auto simp: starts_only_def start_frame_def accounts_def routines_at_def split: if_splits)

lemma start_pollers_induct:
  assumes "start_pollers as s = Some s'" "P s" "\<And>a s s'. a \<in> set as \<Longrightarrow> starts_only a s s' \<Longrightarrow> P s \<Longrightarrow> P s'"
  shows "P s'"
  using assms
proof (induction as arbitrary: s)
  case (Cons a as)
  obtain s1 where s1: "startDevicePoller a s = Some s1" "start_pollers as s1 = Some s'"
    using Cons.prems(1) by (auto split: option.splits)
  have "P s1" using startDevicePoller_starts [OF s1(1)] Cons.prems(2,3) by auto
  then show ?case using Cons.IH [OF s1(2)] Cons.prems(3) by (meson list.set_intros(2))
qed simp

lemma registry_accounts:
  "accounts_inv (drop_device a i s) = accounts_inv s"
  "accounts_inv (unsubscribe a i s) = accounts_inv s" "accounts_inv (signal_stop a s) = accounts_inv s"
  "accounts_inv (set_subscribed b a s) = accounts_inv s" "accounts_inv (set_running b a s) = accounts_inv s"
  "accounts_inv (upd_poller a f s) = accounts_inv s"
  "accounts_inv (s\<lparr>po_lock := l\<rparr>) = accounts_inv s" "accounts_inv (s\<lparr>po_next := n\<rparr>) = accounts_inv s"
  "accounts_inv (s\<lparr>po_world := w\<rparr>) = accounts_inv s" "accounts_inv (s\<lparr>po_pollers := ps\<rparr>) = accounts_inv s"
  "accounts_inv (s\<lparr>po_devices := m\<rparr>) = accounts_inv s" "accounts_inv (s\<lparr>po_handler := h\<rparr>) = accounts_inv s"
  "accounts_inv (s\<lparr>po_ctx := c\<rparr>) = accounts_inv s" "accounts_inv (s\<lparr>po_closed := cl\<rparr>) = accounts_inv s"
  "accounts_inv (s\<lparr>po_started := b\<rparr>) = accounts_inv s"
  by (simp_all add: accounts_inv_def routines_at_def polling_ops Let_def split: option.split)

lemma start_accounts:
  "polling_Start as s = Some s' \<Longrightarrow> accounts_inv s \<Longrightarrow> accounts_inv s'"
  by (auto simp: polling_Start_def registry_accounts split: if_splits elim!: start_pollers_induct [where P = accounts_inv]
      dest: starts_only_accounts)

lemma RegisterDevice_accounts: "RegisterDevice d s = Some (e, s') \<Longrightarrow> accounts_inv s \<Longrightarrow> accounts_inv s'"
  by (auto simp: RegisterDevice_def Let_def registry_accounts split: if_splits
      dest!: startDevicePoller_starts starts_only_accounts)

lemma replace_begin_accounts: "replace_begin d s = Some (e, s') \<Longrightarrow> accounts_inv s \<Longrightarrow> accounts_inv s'"
  by (auto simp: replace_begin_def Let_def registry_accounts RegisterDevice_accounts split: option.splits if_splits)

lemma replace_end_accounts: "replace_end a s = Some s' \<Longrightarrow> accounts_inv s \<Longrightarrow> accounts_inv s'"
  by (auto simp: replace_end_def registry_accounts dest!: startDevicePoller_starts starts_only_accounts)

lemma about_to_poll_pc: "about_to_poll s i \<Longrightarrow> \<exists>pc. at_pc s i pc \<and> \<not> holding pc \<and> \<not> reading pc"
  by (auto simp: about_to_poll_def)

lemma enter_select_at:
  assumes "at_pc s i pc" "po_routines s' = po_routines s"
  shows "routines_at P (enter_select i s') + (if P pc then 1 else 0)
    = routines_at P s + (if P (Selecting (po_ctx s') (dv_stopChan (poller s' (rt_poller (po_routines s ! i))))) then 1 else 0)"
  using routines_at_set_pc [OF assms] assms(2) by (simp add: enter_select_def)

lemma poll_begin_accounts:
  assumes "about_to_poll s i" "po_workers s < WorkerCount (po_config s)" "accounts_inv s"
  shows "accounts_inv (poll_begin i s)"
proof -
  obtain pc where pc: "at_pc s i pc" "\<not> holding pc" "\<not> reading pc" using about_to_poll_pc [OF assms(1)] by blast
  let ?a = "rt_poller (po_routines s ! i)"
  let ?s1 = "count_poll ?a (s\<lparr>po_workers := po_workers s + 1\<rparr>)"
  have r: "po_routines ?s1 = po_routines s" "po_routines (release_worker ?s1) = po_routines s" by (simp_all add: polling_ops)
  show ?thesis
  proof (cases "getEnabledTags (dv_device (poller ?s1 ?a)) = []")
    case True
    then show ?thesis
      using enter_select_at [OF pc(1) r(2), of holding] enter_select_at [OF pc(1) r(2), of reading] pc assms
      by (simp add: poll_begin_def Let_def accounts_inv_def) (simp add: polling_ops)
  next
    case False
    then show ?thesis
      using routines_at_set_pc [OF pc(1) r(1), of holding "Reading (getEnabledTags (dv_device (poller ?s1 ?a)))"]
        routines_at_set_pc [OF pc(1) r(1), of reading "Reading (getEnabledTags (dv_device (poller ?s1 ?a)))"] pc assms
      by (simp add: poll_begin_def Let_def accounts_inv_def) (simp add: polling_ops)
  qed
qed
lemma accounts_enter_select:
  assumes "at_pc s i pc" "po_routines s' = po_routines s" "po_config s' = po_config s"
    "po_workers s' = po_workers s - (if holding pc then 1 else 0)"
    "SuccessPolls (po_stats s') + FailedPolls (po_stats s') + TotalPolls (po_stats s)
       \<le> SuccessPolls (po_stats s) + FailedPolls (po_stats s) + TotalPolls (po_stats s') + (if reading pc then 1 else 0)"
    "PointsPublished (po_stats s) \<le> PointsRead (po_stats s) \<Longrightarrow> PointsPublished (po_stats s') \<le> PointsRead (po_stats s')"
    "accounts_inv s"
  shows "accounts_inv (enter_select i s')"
proof -
  have "po_workers (enter_select i s') = po_workers s'" "po_config (enter_select i s') = po_config s'"
    "po_stats (enter_select i s') = po_stats s'" by (simp_all add: polling_ops)
  then show ?thesis
    using enter_select_at [OF assms(1,2), of holding] enter_select_at [OF assms(1,2), of reading] assms
    by (auto simp: accounts_inv_def split: if_splits)
qed

lemma poll_skip_accounts: "about_to_poll s i \<Longrightarrow> accounts_inv s \<Longrightarrow> accounts_inv (poll_skip i s)"
  using about_to_poll_pc [of s i] unfolding poll_skip_def
  by (auto intro!: accounts_enter_select [of s i]) (simp_all add: polling_ops)

lemma poll_cancelled_accounts: "about_to_poll s i \<Longrightarrow> accounts_inv s \<Longrightarrow> accounts_inv (enter_select i s)"
  using about_to_poll_pc [of s i] by (auto intro!: accounts_enter_select [of s i])

lemma poll_read_accounts:
  assumes at: "at_pc s i (Reading tags)" and inv: "accounts_inv s"
  shows "accounts_inv (poll_read i tags s)"
proof -
  let ?a = "rt_poller (po_routines s ! i)"
  obtain ps e w where r: "pm_ReadTags (po_manager s) (dv_device (poller s ?a)) tags (po_world s) = ((ps, e), w)"
    by (metis prod.exhaust)
  show ?thesis
  proof (cases e)
    case (Some er)
    have "accounts_inv (enter_select i (release_worker (poll_failed ?a er (s\<lparr>po_world := w\<rparr>))))"
      by (rule accounts_enter_select [OF at _ _ _ _ _ inv]) (simp_all add: polling_ops)
    then show ?thesis using r Some by (simp add: poll_read_def Let_def)
  next
    case None
    let ?s1 = "upd_poller ?a (\<lambda>p. p\<lparr>dv_lastPoll := Some (po_clock s w), dv_lastError := None\<rparr>)
      (upd_stats (\<lambda>t. t\<lparr>SuccessPolls := SuccessPolls t + 1\<rparr>) (s\<lparr>po_world := w\<rparr>))"
    have e: "poll_read i tags s = set_pc i (Publishing tags ps) ?s1" using r None by (simp add: poll_read_def Let_def)
    have "po_routines ?s1 = po_routines s" by (simp add: polling_ops)
    then show ?thesis unfolding e
      using routines_at_set_pc [OF at, of ?s1 holding "Publishing tags ps"]
        routines_at_set_pc [OF at, of ?s1 reading "Publishing tags ps"] inv
      by (simp add: accounts_inv_def) (simp add: polling_ops)
  qed
qed

lemma length_points: "length (points_to_publish now d tags ps) \<le> length ps"
  by (simp add: points_to_publish_def length_good_points)

lemma poll_publish_accounts:
  assumes at: "at_pc s i (Publishing tags ps)" and inv: "accounts_inv s"
  shows "accounts_inv (poll_publish i tags ps s)"
proof -
  let ?a = "rt_poller (po_routines s ! i)"
  define good where "good = points_to_publish (po_clock s (po_world s)) (dv_device (poller s ?a)) tags ps"
  have le: "length good \<le> length ps" unfolding good_def by (rule length_points)
  obtain e w where p: "pu_PublishBatch (po_publisher s) good (po_world (count_points ?a (length ps) s)) = (e, w)"
    by (rule prod.exhaust)
  have none: "accounts_inv (enter_select i (release_worker (count_points ?a (length ps) s)))"
    by (rule accounts_enter_select [OF at _ _ _ _ _ inv]) (simp_all add: polling_ops)
  have some: "accounts_inv (enter_select i (release_worker
      (count_published (length good) e ((count_points ?a (length ps) s)\<lparr>po_world := w\<rparr>))))"
    by (rule accounts_enter_select [OF at _ _ _ _ _ inv]) (use le in \<open>simp_all add: polling_ops\<close>)
  show ?thesis using none some p by (simp add: poll_publish_def Let_def flip: good_def)
qed

lemma routine_exit_accounts:
  assumes "at_pc s i (Selecting c d)" "accounts_inv s"
  shows "accounts_inv (routine_exit i s)"
proof -
  let ?s0 = "set_running False (rt_poller (po_routines s ! i)) s"
  have r: "po_routines ?s0 = po_routines s" by (simp add: polling_ops)
  then have at: "at_pc ?s0 i (Selecting c d)" and e: "routine_exit i s = ?s0\<lparr>po_routines := take i (po_routines ?s0) @ drop (Suc i) (po_routines ?s0)\<rparr>"
    using assms(1) by (simp_all add: at_pc_def routine_exit_def)
  show ?thesis unfolding e
    using routines_at_remove [OF at, of holding] routines_at_remove [OF at, of reading] assms(2)
    by (simp add: registry_accounts accounts_inv_def) (simp add: polling_ops routines_at_def)
qed

lemma subscription_data_accounts: "accounts_inv s \<Longrightarrow> accounts_inv (subscription_data a p s)"
  by (auto simp: subscription_data_def Let_def accounts_inv_def routines_at_def split: prod.split)
    (simp_all add: polling_ops)

lemma registry_step_accounts:
  "accounts_inv s \<Longrightarrow> accounts_inv (SetSubscriptionHandler h s)" "accounts_inv s \<Longrightarrow> accounts_inv (polling_stop_begin s)"
  "accounts_inv s \<Longrightarrow> accounts_inv (polling_stop_end s)" "accounts_inv s \<Longrightarrow> accounts_inv (snd (UnregisterDevice i s))"
  "replace_forced a s = Some s' \<Longrightarrow> accounts_inv s \<Longrightarrow> accounts_inv s'"
  by (simp_all add: SetSubscriptionHandler_def polling_stop_begin_def polling_stop_end_def UnregisterDevice_def
      registry_accounts replace_forced_def replace_end_accounts split: option.split)

lemma polling_step_accounts: "polling_step l s s' \<Longrightarrow> accounts_inv s \<Longrightarrow> accounts_inv s'"
proof (induction rule: polling_step.induct)
  case (start s as s')
  then show ?case using start_accounts by blast
next
  case (register s d e s')
  then show ?case using RegisterDevice_accounts by blast
next
  case (replace s d e s')
  then show ?case using replace_begin_accounts by blast
next
  case (replaced s a s')
  then show ?case using replace_end_accounts by blast
next
  case (forced s a s')
  then show ?case using registry_step_accounts(5) by blast
next
  case (poll s i)
  then show ?case by (rule poll_begin_accounts)
next
  case (poll_cancelled s i)
  then show ?case using poll_cancelled_accounts by blast
next
  case (poll_skipped s i)
  then show ?case using poll_skip_accounts by blast
next
  case (read s i tags)
  then show ?case by (rule poll_read_accounts)
next
  case (publish s i tags ps)
  then show ?case by (rule poll_publish_accounts)
next
  case (exit s i c d)
  then show ?case using routine_exit_accounts by blast
next
  case (data a s p)
  then show ?case using subscription_data_accounts by blast
next
  case (world s w)
  then show ?case by (simp only: registry_accounts)
qed (simp_all only: registry_step_accounts(1-4))

lemma NewPollingService_accounts: "accounts_inv (NewPollingService cfg pm pub clock w)"
  by (simp add: accounts_inv_def NewPollingService_def routines_at_def default_pos_def)

definition polling_reachable :: "'w polling \<Rightarrow> bool" where
  "polling_reachable s \<longleftrightarrow> (\<exists>ls cfg pm pub clock w. polling_run ls (NewPollingService cfg pm pub clock w) s)"

lemma polling_run_invariant:
  assumes "polling_run ls s s'" "P s" "\<And>l s s'. l \<in> set ls \<Longrightarrow> polling_step l s s' \<Longrightarrow> P s \<Longrightarrow> P s'"
  shows "P s'"
  using assms by (induction rule: polling_run.induct) auto

lemma reachable_invariant:
  assumes "polling_reachable s" "\<And>cfg pm pub clock w. P (NewPollingService cfg pm pub clock w)"
    "\<And>l s s'. polling_step l s s' \<Longrightarrow> P s \<Longrightarrow> P s'"
  shows "P s"
proof -
  obtain ls cfg pm pub clock w where "polling_run ls (NewPollingService cfg pm pub clock w) s"
    using assms(1) unfolding polling_reachable_def by (elim exE)
  then show ?thesis using assms(2,3) by (rule polling_run_invariant)
qed

lemma reachable_accounts: "polling_reachable s \<Longrightarrow> accounts_inv s"
  by (erule reachable_invariant [where P = accounts_inv, OF _ NewPollingService_accounts polling_step_accounts])

section \<open>The registry\<close>

definition registry_inv :: "'w polling \<Rightarrow> bool" where
  "registry_inv s \<longleftrightarrow> (\<forall>i a. po_devices s i = Some a \<longrightarrow> a < length (po_pollers s)
       \<and> dev_ID (dv_device (poller s a)) = i \<and> dev_Enabled (dv_device (poller s a)))
     \<and> (\<forall>a. po_lock s = Some a \<longrightarrow> a < length (po_pollers s))"

text \<open>Steps that keep the registry and every poller's device.\<close>

definition keeps_devices :: "'w polling \<Rightarrow> 'w polling \<Rightarrow> bool" where
  "keeps_devices s s' \<longleftrightarrow> po_devices s' \<subseteq>\<^sub>m po_devices s \<and> map dv_device (po_pollers s') = map dv_device (po_pollers s)
     \<and> (po_lock s' = po_lock s \<or> (\<forall>a. po_lock s' = Some a \<longrightarrow> a < length (po_pollers s)))"

lemma keeps_devices_inv:
  assumes k: "keeps_devices s s'" and inv: "registry_inv s"
  shows "registry_inv s'"
proof -
  have len: "length (po_pollers s') = length (po_pollers s)"
    using k by (auto simp: keeps_devices_def dest: map_eq_imp_length_eq)
  have dev: "dv_device (poller s' a) = dv_device (poller s a)" if "a < length (po_pollers s)" for a
    using k that len unfolding keeps_devices_def by (metis nth_map)
  have reg: "po_devices s i = Some a" if "po_devices s' i = Some a" for i a
    using k that unfolding keeps_devices_def map_le_def by (metis domI)
  show ?thesis using inv k len dev by (auto simp: registry_inv_def keeps_devices_def dest!: reg)
qed

lemma keeps_devices_refl [simp]: "keeps_devices s s"
  by (simp add: keeps_devices_def)

lemma keeps_devices_trans: "keeps_devices s s1 \<Longrightarrow> keeps_devices s1 s2 \<Longrightarrow> keeps_devices s s2"
  unfolding keeps_devices_def by (metis length_map map_le_trans)

lemma starts_only_keeps: "starts_only a s s' \<Longrightarrow> keeps_devices s s'"
  by (simp add: starts_only_def keeps_devices_def start_frame_def same_pollers_def)

lemma upd_poller_keeps:
  "(\<And>p. dv_device (f p) = dv_device p) \<Longrightarrow> keeps_devices s s1 \<Longrightarrow> keeps_devices s (upd_poller a f s1)"
  by (simp add: keeps_devices_def upd_poller_def map_update_same)

lemma field_keeps:
  "keeps_devices s s1 \<Longrightarrow> keeps_devices s (s1\<lparr>po_world := w\<rparr>)" "keeps_devices s s1 \<Longrightarrow> keeps_devices s (s1\<lparr>po_closed := c\<rparr>)"
  "keeps_devices s s1 \<Longrightarrow> keeps_devices s (s1\<lparr>po_routines := rs\<rparr>)" "keeps_devices s s1 \<Longrightarrow> keeps_devices s (s1\<lparr>po_stats := st\<rparr>)"
  "keeps_devices s s1 \<Longrightarrow> keeps_devices s (s1\<lparr>po_workers := n\<rparr>)" "keeps_devices s s1 \<Longrightarrow> keeps_devices s (s1\<lparr>po_started := b\<rparr>)"
  "keeps_devices s s1 \<Longrightarrow> keeps_devices s (s1\<lparr>po_handler := h\<rparr>)" "keeps_devices s s1 \<Longrightarrow> keeps_devices s (s1\<lparr>po_lock := None\<rparr>)"
  "keeps_devices s s1 \<Longrightarrow> keeps_devices s (s1\<lparr>po_next := k\<rparr>)" "keeps_devices s s1 \<Longrightarrow> keeps_devices s (s1\<lparr>po_ctx := k\<rparr>)"
  "keeps_devices s s1 \<Longrightarrow> keeps_devices s (s1\<lparr>po_devices := (po_devices s1)(i := None)\<rparr>)"
  by (auto simp: keeps_devices_def map_le_def)

lemmas device_frames = upd_stats_def set_running_def set_subscribed_def enter_select_def release_worker_def
  count_poll_def count_skip_def poll_failed_def count_points_def count_published_def


lemma stop_keeps:
  "keeps_devices s s1 \<Longrightarrow> keeps_devices s (signal_stop a s1)" "keeps_devices s s1 \<Longrightarrow> keeps_devices s (unsubscribe a k s1)"
  "keeps_devices s s1 \<Longrightarrow> keeps_devices s (set_subscribed b a s1)" "keeps_devices s s1 \<Longrightarrow> keeps_devices s (drop_device a k s1)"
proof -
  show signal: "keeps_devices s s1 \<Longrightarrow> keeps_devices s (signal_stop a s1)" for s1 :: "'a polling"
    by (simp add: signal_stop_def field_keeps)
  show sub: "keeps_devices s s1 \<Longrightarrow> keeps_devices s (set_subscribed b a s1)" for b and s1 :: "'a polling"
    by (simp add: set_subscribed_def upd_poller_keeps)
  show unsub: "keeps_devices s s1 \<Longrightarrow> keeps_devices s (unsubscribe a k s1)" for s1 :: "'a polling"
    by (auto simp: unsubscribe_def intro!: sub field_keeps split: option.split)
  show "keeps_devices s s1 \<Longrightarrow> keeps_devices s (drop_device a k s1)"
    unfolding drop_device_def Let_def by (intro field_keeps(11) signal unsub)
qed

lemma operation_keeps:
  "keeps_devices s (poll_begin i s)" "keeps_devices s (poll_skip i s)" "keeps_devices s (enter_select i s)"
  "keeps_devices s (poll_read i tags s)" "keeps_devices s (poll_publish i tags ps s)" "keeps_devices s (routine_exit i s)"
  "keeps_devices s (subscription_data a p s)" "keeps_devices s (snd (UnregisterDevice k s))"
  "keeps_devices s (drop_device a k s)" "keeps_devices s (polling_stop_begin s)" "keeps_devices s (polling_stop_end s)"
  "keeps_devices s (SetSubscriptionHandler h s)"
  by (auto simp: poll_begin_def poll_skip_def poll_read_def poll_publish_def routine_exit_def subscription_data_def
      UnregisterDevice_def polling_stop_begin_def polling_stop_end_def SetSubscriptionHandler_def device_frames Let_def
      intro!: upd_poller_keeps field_keeps stop_keeps split: option.split prod.split)

lemma Start_keeps: "polling_Start as s = Some s' \<Longrightarrow> keeps_devices s s'"
  unfolding polling_Start_def
  by (auto split: if_splits elim!: start_pollers_induct [where P = "keeps_devices s"] intro!: field_keeps
      intro: keeps_devices_trans [OF _ starts_only_keeps])

lemma replace_end_keeps: "replace_end a s = Some s' \<Longrightarrow> keeps_devices s s'" "replace_forced a s = Some s' \<Longrightarrow> keeps_devices s s'"
  unfolding replace_end_def replace_forced_def set_running_def
  by (auto dest!: startDevicePoller_starts starts_only_keeps intro!: field_keeps upd_poller_keeps elim!: keeps_devices_trans [rotated])

text \<open>The two operations that add a poller or put a device in its place.\<close>

lemma RegisterDevice_registry:
  assumes "RegisterDevice d s = Some (e, s')" "registry_inv s"
  shows "registry_inv s'"
proof (cases "po_devices s (dev_ID d) \<noteq> None \<or> \<not> dev_Enabled d")
  case True
  then show ?thesis using assms by (auto simp: RegisterDevice_def split: if_splits)
next
  case False
  let ?s1 = "s\<lparr>po_pollers := po_pollers s @ [new_poller d (po_next s)], po_next := po_next s + 1,
    po_devices := (po_devices s)(dev_ID d \<mapsto> length (po_pollers s))\<rparr>"
  have "registry_inv ?s1" using assms(2) False
    by (auto simp: registry_inv_def nth_append new_poller_def less_SucI)
  then show ?thesis using assms(1) False
    by (auto simp: RegisterDevice_def Let_def split: if_splits
        dest!: startDevicePoller_starts starts_only_keeps intro: keeps_devices_inv)
qed

lemma replace_device_registry:
  assumes "po_devices s (dev_ID d) = Some a" "dev_Enabled d" "registry_inv s"
  shows "registry_inv (upd_poller a (\<lambda>p. p\<lparr>dv_device := d\<rparr>) s)"
  using assms by (auto simp: registry_inv_def upd_poller_def nth_list_update) metis

lemma lock_registry: "registry_inv s \<Longrightarrow> a < length (po_pollers s) \<Longrightarrow> registry_inv (s\<lparr>po_lock := Some a\<rparr>)"
  by (simp add: registry_inv_def)

lemma replace_begin_registry:
  assumes "replace_begin d s = Some (e, s')" "registry_inv s"
  shows "registry_inv s'"
proof (cases "po_devices s (dev_ID d)")
  case None
  then show ?thesis using assms RegisterDevice_registry by (auto simp: replace_begin_def)
next
  case (Some a)
  show ?thesis
  proof (cases "dev_Enabled d")
    case False
    then show ?thesis using assms Some keeps_devices_inv [OF operation_keeps(9)] by (auto simp: replace_begin_def)
  next
    case True
    let ?s1 = "upd_poller a (\<lambda>p. p\<lparr>dv_device := d\<rparr>) s"
    have s1: "registry_inv ?s1" using replace_device_registry [OF Some True assms(2)] .
    have a: "a < length (po_pollers s)" using Some assms(2) by (simp add: registry_inv_def)
    have lock: "registry_inv (s2\<lparr>po_lock := Some a\<rparr>)" if "keeps_devices ?s1 s2" for s2
    proof -
      have "length (po_pollers s2) = length (po_pollers s)"
        using that by (auto simp: keeps_devices_def upd_poller_def dest: map_eq_imp_length_eq)
      then show ?thesis using lock_registry [OF keeps_devices_inv [OF that s1]] a by simp
    qed
    show ?thesis using assms(1) Some True s1
      by (auto simp: replace_begin_def Let_def split: if_splits intro!: lock stop_keeps)
  qed
qed

lemma polling_step_registry: "polling_step l s s' \<Longrightarrow> registry_inv s \<Longrightarrow> registry_inv s'"
proof (induction rule: polling_step.induct)
  case (start s as s')
  then show ?case using keeps_devices_inv [OF Start_keeps] by blast
next
  case (register s d e s')
  then show ?case using RegisterDevice_registry by blast
next
  case (replace s d e s')
  then show ?case using replace_begin_registry by blast
next
  case (replaced s a s')
  then show ?case using keeps_devices_inv [OF replace_end_keeps(1)] by blast
next
  case (forced s a s')
  then show ?case using keeps_devices_inv [OF replace_end_keeps(2)] by blast
next
  case (world s w)
  then show ?case by (simp add: registry_inv_def)
qed (erule keeps_devices_inv [OF operation_keeps(1)] keeps_devices_inv [OF operation_keeps(2)]
    keeps_devices_inv [OF operation_keeps(3)] keeps_devices_inv [OF operation_keeps(4)]
    keeps_devices_inv [OF operation_keeps(5)] keeps_devices_inv [OF operation_keeps(6)]
    keeps_devices_inv [OF operation_keeps(7)] keeps_devices_inv [OF operation_keeps(8)]
    keeps_devices_inv [OF operation_keeps(10)] keeps_devices_inv [OF operation_keeps(11)]
    keeps_devices_inv [OF operation_keeps(12)])+

lemma reachable_registry: "polling_reachable s \<Longrightarrow> registry_inv s"
  by (erule reachable_invariant [where P = registry_inv, OF _ _ polling_step_registry]) (simp_all add: registry_inv_def NewPollingService_def)
section \<open>Who polls\<close>

definition owners :: "'w polling \<Rightarrow> nat list" where
  "owners s = map rt_poller (po_routines s)"

definition owner_inv :: "'w polling \<Rightarrow> bool" where
  "owner_inv s \<longleftrightarrow> distinct (owners s) \<and> (\<forall>a\<in>set (owners s). a < length (po_pollers s) \<and> dv_running (poller s a))"

definition owner_view :: "'w polling \<Rightarrow> nat list \<times> bool list" where
  "owner_view s = (owners s, map dv_running (po_pollers s))"

lemma owner_view_inv:
  assumes "owner_view s' = owner_view s"
  shows "owner_inv s' = owner_inv s"
proof -
  have "length (po_pollers s') = length (po_pollers s)"
    using assms by (auto simp: owner_view_def dest: map_eq_imp_length_eq)
  moreover have "dv_running (poller s' a) = dv_running (poller s a)" if "a < length (po_pollers s)" for a
    using assms that calculation by (simp add: owner_view_def) (metis nth_map)
  ultimately show ?thesis using assms by (auto simp: owner_inv_def owner_view_def)
qed

lemma view_upd_poller:
  "(\<And>p. dv_running (f p) = dv_running p) \<Longrightarrow> owner_view (upd_poller a f s) = owner_view s"
  by (simp add: owner_view_def owners_def upd_poller_def map_update_same)

lemma view_set_pc: "owner_view (set_pc i pc s) = owner_view s"
  by (simp add: owner_view_def owners_def map_update_same)

lemma view_fields:
  "owner_view (s\<lparr>po_world := w\<rparr>) = owner_view s" "owner_view (s\<lparr>po_closed := c\<rparr>) = owner_view s"
  "owner_view (s\<lparr>po_stats := st\<rparr>) = owner_view s" "owner_view (s\<lparr>po_workers := n\<rparr>) = owner_view s"
  "owner_view (s\<lparr>po_started := b\<rparr>) = owner_view s" "owner_view (s\<lparr>po_handler := h\<rparr>) = owner_view s"
  "owner_view (s\<lparr>po_lock := l\<rparr>) = owner_view s" "owner_view (s\<lparr>po_next := k\<rparr>) = owner_view s"
  "owner_view (s\<lparr>po_ctx := k\<rparr>) = owner_view s" "owner_view (s\<lparr>po_devices := m\<rparr>) = owner_view s"
  by (simp_all add: owner_view_def owners_def)

lemmas view_simps = view_upd_poller view_set_pc view_fields

lemma view_counts:
  "owner_view (enter_select i s) = owner_view s" "owner_view (release_worker s) = owner_view s"
  "owner_view (count_poll a s) = owner_view s" "owner_view (count_skip a s) = owner_view s"
  "owner_view (poll_failed a e s) = owner_view s" "owner_view (count_points a n s) = owner_view s"
  "owner_view (count_published n err s) = owner_view s" "owner_view (set_subscribed b a s) = owner_view s"
  "owner_view (signal_stop a s) = owner_view s"
  by (simp_all add: enter_select_def release_worker_def count_poll_def count_skip_def poll_failed_def count_points_def
      count_published_def set_subscribed_def signal_stop_def upd_stats_def view_simps)

lemma view_operations:
  "owner_view (poll_begin i s) = owner_view s" "owner_view (poll_skip i s) = owner_view s"
  "owner_view (poll_read i tags s) = owner_view s" "owner_view (poll_publish i tags ps s) = owner_view s"
  "owner_view (subscription_data a p s) = owner_view s" "owner_view (unsubscribe a k s) = owner_view s"
  "owner_view (SetSubscriptionHandler h s) = owner_view s" "owner_view (polling_stop_begin s) = owner_view s"
  "owner_view (polling_stop_end s) = owner_view s" "owner_view (drop_device a k s) = owner_view s"
  by (simp_all add: poll_begin_def poll_skip_def poll_read_def poll_publish_def subscription_data_def unsubscribe_def
      SetSubscriptionHandler_def polling_stop_begin_def polling_stop_end_def drop_device_def Let_def upd_stats_def
      view_simps view_counts split: prod.split option.split)

lemma starts_only_length: "starts_only a s s' \<Longrightarrow> length (po_pollers s') = length (po_pollers s)"
  by (auto simp: starts_only_def same_pollers_def dest: map_eq_imp_length_eq)

lemma starts_only_owner:
  assumes st: "starts_only a s s'" and a: "a < length (po_pollers s)" and inv: "owner_inv s"
  shows "owner_inv s'"
proof -
  have other: "poller s' b = poller s b" if "b \<noteq> a" for b using st that by (simp add: starts_only_def)
  show ?thesis
  proof (cases "dv_running (poller s a)")
    case True
    then have "owners s' = owners s" "poller s' b = poller s b" for b
      using st other by (cases "b = a"; simp add: starts_only_def owners_def)+
    then show ?thesis using inv starts_only_length [OF st] by (simp add: owner_inv_def)
  next
    case False
    then have "a \<notin> set (owners s)" using inv by (auto simp: owner_inv_def)
    moreover have "dv_running (poller s' b)" if "b \<in> set (owners s)" for b
      using inv that other calculation by (metis owner_inv_def)
    moreover have "owners s' = owners s \<or> owners s' = owners s @ [a] \<and> dv_running (poller s' a)"
      using st False a by (auto simp: starts_only_def owners_def)
    ultimately show ?thesis using inv starts_only_length [OF st] a by (auto simp: owner_inv_def)
  qed
qed

lemma Start_owner:
  assumes "polling_Start as s = Some s'" "set as \<subseteq> {a. a < length (po_pollers s)}" "owner_inv s"
  shows "owner_inv s'"
proof (cases "po_started s")
  case False
  let ?s1 = "s\<lparr>po_ctx := po_next s, po_next := po_next s + 1, po_started := True\<rparr>"
  let ?P = "\<lambda>t. owner_inv t \<and> length (po_pollers t) = length (po_pollers s)"
  have "start_pollers as ?s1 = Some s'" using assms(1) False by (simp add: polling_Start_def)
  then have "?P s'"
  proof (rule start_pollers_induct)
    show "?P ?s1" using assms(3) owner_view_inv [of ?s1 s] by (simp add: view_fields)
    fix a t t' assume "a \<in> set as" "starts_only a t t'" "?P t"
    then show "?P t'" using assms(2) starts_only_owner [of a t t'] starts_only_length [of a t t'] by auto
  qed
  then show ?thesis by simp
qed (use assms in \<open>simp add: polling_Start_def\<close>)

lemma RegisterDevice_owner:
  assumes "RegisterDevice d s = Some (e, s')" "owner_inv s"
  shows "owner_inv s'"
proof (cases "po_devices s (dev_ID d) \<noteq> None \<or> \<not> dev_Enabled d")
  case True
  then show ?thesis using assms by (auto simp: RegisterDevice_def split: if_splits)
next
  case False
  let ?s1 = "s\<lparr>po_pollers := po_pollers s @ [new_poller d (po_next s)], po_next := po_next s + 1,
    po_devices := (po_devices s)(dev_ID d \<mapsto> length (po_pollers s))\<rparr>"
  have "owner_inv ?s1" using assms(2) by (auto simp: owner_inv_def owners_def nth_append)
  then show ?thesis using assms(1) False
    by (auto simp: RegisterDevice_def Let_def split: if_splits
        dest!: startDevicePoller_starts intro: starts_only_owner [of "length (po_pollers s)" ?s1])
qed

lemma replace_begin_owner:
  assumes "replace_begin d s = Some (e, s')" "owner_inv s"
  shows "owner_inv s'"
proof (cases "po_devices s (dev_ID d)")
  case None
  then show ?thesis using assms RegisterDevice_owner by (auto simp: replace_begin_def)
next
  case (Some a)
  then have "owner_view s' = owner_view s" using assms(1)
    by (auto simp: replace_begin_def Let_def view_simps view_counts view_operations split: if_splits)
  then show ?thesis using assms(2) owner_view_inv by blast
qed

lemma replace_end_owner:
  assumes "replace_end a s = Some s'" "owner_inv s" "a < length (po_pollers s)"
  shows "owner_inv s'"
proof -
  let ?s1 = "(upd_poller a (\<lambda>p. p\<lparr>dv_stopChan := po_next s\<rparr>) s)\<lparr>po_next := po_next s + 1, po_lock := None\<rparr>"
  have "owner_inv ?s1" using assms(2) owner_view_inv [of ?s1 s] by (simp add: view_simps)
  moreover have "a < length (po_pollers ?s1)" using assms(3) by (simp add: upd_poller_def)
  ultimately show ?thesis using assms(1) startDevicePoller_starts starts_only_owner
    by (metis replace_end_def)
qed

lemma stop_running_owner: "owner_inv s \<Longrightarrow> a \<notin> set (owners s) \<Longrightarrow> owner_inv (set_running False a s)"
proof -
  have "poller (set_running False a s) b = poller s b" if "b \<noteq> a" for b using that by (simp add: polling_ops)
  moreover have "owners (set_running False a s) = owners s"
    "length (po_pollers (set_running False a s)) = length (po_pollers s)" by (simp_all add: owners_def polling_ops)
  ultimately show "owner_inv s \<Longrightarrow> a \<notin> set (owners s) \<Longrightarrow> owner_inv (set_running False a s)"
    unfolding owner_inv_def by metis
qed

lemma routines_of_owners: "routines_of a s = [] \<longleftrightarrow> a \<notin> set (owners s)"
  by (auto simp: routines_of_def owners_def filter_empty_conv)

lemma routine_exit_owner:
  assumes "i < length (po_routines s)" "owner_inv s"
  shows "owner_inv (routine_exit i s)"
proof -
  let ?r = "po_routines s"
  have r: "?r = take i ?r @ ?r ! i # drop (Suc i) ?r" using assms(1) by (rule id_take_nth_drop)
  have own: "owners s = map rt_poller (take i ?r) @ rt_poller (?r ! i) # map rt_poller (drop (Suc i) ?r)"
    unfolding owners_def by (subst r) simp
  have "owners (routine_exit i s) = map rt_poller (take i ?r) @ map rt_poller (drop (Suc i) ?r)"
    by (simp add: owners_def routine_exit_def)
  then show ?thesis using assms(2) own
    by (auto simp: owner_inv_def routine_exit_def set_running_def upd_poller_def nth_list_update)
qed

lemma polling_step_owner:
  "polling_step l s s' \<Longrightarrow> (\<And>n. l \<noteq> Forced (Suc n)) \<Longrightarrow> registry_inv s \<Longrightarrow> owner_inv s \<Longrightarrow> owner_inv s'"
proof (induction rule: polling_step.induct)
  case (start s as s')
  moreover have "set as \<subseteq> {a. a < length (po_pollers s)}" using start by (auto simp: registry_inv_def ran_def)
  ultimately show ?case using Start_owner by blast
next
  case (register s d e s')
  then show ?case using RegisterDevice_owner by blast
next
  case (unregister s k)
  then show ?case using owner_view_inv [OF view_operations(10)] by (auto simp: UnregisterDevice_def split: option.split)
next
  case (replace s d e s')
  then show ?case using replace_begin_owner by blast
next
  case (replaced s a s')
  then show ?case using replace_end_owner unfolding registry_inv_def by blast
next
  case (forced s a s')
  then have "routines_of a s = []" by (metis length_0_conv not0_implies_Suc)
  then have "owner_inv (set_running False a s)" using forced stop_running_owner by (simp add: routines_of_owners)
  moreover have "a < length (po_pollers (set_running False a s))"
    using forced by (simp add: registry_inv_def polling_ops)
  ultimately show ?case using forced(3) replace_end_owner unfolding replace_forced_def by blast
next
  case (exit s i c d)
  then show ?case using routine_exit_owner by (auto simp: at_pc_def)
qed (simp_all only: owner_view_inv [OF view_operations(1)] owner_view_inv [OF view_operations(2)]
    owner_view_inv [OF view_operations(3)] owner_view_inv [OF view_operations(4)] owner_view_inv [OF view_operations(5)]
    owner_view_inv [OF view_operations(7)] owner_view_inv [OF view_operations(8)] owner_view_inv [OF view_operations(9)]
    owner_view_inv [OF view_counts(1)] owner_view_inv [OF view_fields(1)])
section \<open>A service to try it on\<close>

definition one_point_pool :: "unit pool" where
  "one_point_pool = \<lparr>pl_ReadTags = (\<lambda>d ts w. ((map (\<lambda>t. Some (zero_data_point\<lparr>dp_TagID := tag_ID t, dp_Quality := QualityGood\<rparr>)) ts, None), w)),
     pl_ReadTag = (\<lambda>d t w. ((None, None), w)), pl_WriteTag = (\<lambda>d t v w. (None, w)), pl_Close = (\<lambda>w. (None, w)),
     pl_HealthCheck = (\<lambda>w. (None, w))\<rparr>"

definition quiet_publisher :: "unit publisher_ops" where
  "quiet_publisher = \<lparr>pu_Publish = (\<lambda>p w. (None, w)), pu_PublishBatch = (\<lambda>ps w. (None, w))\<rparr>"

definition polled_device :: device where
  "polled_device = raw_device\<lparr>Tags := [int_tag\<lparr>tag_Enabled := True\<rparr>]\<rparr>"

definition slower_device :: device where
  "slower_device = polled_device\<lparr>PollInterval := 2 * second\<rparr>"

definition demo_config :: polling_config where
  "demo_config = \<lparr>WorkerCount = 2, BatchSize = 0, DefaultInterval = 0, pcf_MaxRetries = 0, ShutdownTimeout = 0\<rparr>"

definition demo_poller :: "device \<Rightarrow> nat \<Rightarrow> bool \<Rightarrow> nat \<Rightarrow> device_poller" where
  "demo_poller d ch r n = \<lparr>dv_device = d, dv_stopChan = ch, dv_running = r, dv_subscribed = False,
     dv_lastPoll = None, dv_lastError = None,
     dv_stats = \<lparr>pollCount = n, errorCount = 0, skippedCount = 0, pointsRead = 0\<rparr>\<rparr>"

text \<open>A started service that polls one device, before and in its first poll.\<close>

definition idle_service :: "unit polling" where
  "idle_service = \<lparr>po_config = demo_config\<lparr>BatchSize := 50, DefaultInterval := second, ShutdownTimeout := 30 * second\<rparr>,
     po_manager = RegisterPool ProtocolModbusTCP one_point_pool NewProtocolManager, po_publisher = quiet_publisher,
     po_handler = None, po_clock = (\<lambda>w. 0), po_devices = [''plc'' \<mapsto> 0], po_pollers = [demo_poller polled_device 1 True 0],
     po_started = True, po_ctx = 2, po_closed = {}, po_next = 3, po_routines = [\<lparr>rt_poller = 0, rt_pc = Jitter\<rparr>],
     po_lock = None, po_callbacks = [], po_workers = 0,
     po_stats = \<lparr>TotalPolls = 0, SuccessPolls = 0, FailedPolls = 0, SkippedPolls = 0, PointsRead = 0, PointsPublished = 0\<rparr>,
     po_world = ()\<rparr>"

definition busy_service :: "unit polling" where
  "busy_service = idle_service\<lparr>po_pollers := [demo_poller polled_device 1 True 1],
     po_routines := [\<lparr>rt_poller = 0, rt_pc = Reading [int_tag\<lparr>tag_Enabled := True\<rparr>]\<rparr>], po_workers := 1,
     po_stats := (po_stats idle_service)\<lparr>TotalPolls := 1\<rparr>\<rparr>"

lemma getEnabledTags_polled: "getEnabledTags polled_device = [int_tag\<lparr>tag_Enabled := True\<rparr>]"
  by (simp add: getEnabledTags_def polled_device_def)

lemma polled_device_simps:
  "dev_ID polled_device = ''plc''" "dev_Enabled polled_device" "dev_Protocol polled_device = ProtocolModbusTCP"
  "PollInterval polled_device = second" "OPCUseSubscriptions (Connection polled_device) = False"
  "dev_ID slower_device = ''plc''" "dev_Enabled slower_device" "dev_Protocol slower_device = ProtocolModbusTCP"
  "PollInterval slower_device = 2 * second" "OPCUseSubscriptions (Connection slower_device) = False"
  by (simp_all add: slower_device_def polled_device_def raw_device_def zero_connection_def)

lemmas demo_simps = polled_device_simps getEnabledTags_polled idle_service_def busy_service_def demo_config_def demo_poller_def

abbreviation new_demo :: "unit polling" where
  "new_demo \<equiv> NewPollingService demo_config (RegisterPool ProtocolModbusTCP one_point_pool NewProtocolManager)
     quiet_publisher (\<lambda>w. 0) ()"

lemma idle_run: "polling_run [Internal, Internal] new_demo idle_service"
proof -
  let ?s1 = "new_demo\<lparr>po_pollers := [new_poller polled_device 1], po_next := 2, po_devices := [''plc'' \<mapsto> 0]\<rparr>"
  have "RegisterDevice polled_device new_demo = Some (None, ?s1)"
    by (simp add: RegisterDevice_def demo_simps NewPollingService_def)
  then have "polling_step Internal new_demo ?s1"
    by (rule polling_step.register [rotated]) (simp add: NewPollingService_def)
  note polling_run.more [OF polling_run.none this]
  moreover have "polling_Start [0] ?s1 = Some idle_service"
    by (simp add: polling_Start_def startDevicePoller.simps [of 0] demo_simps NewPollingService_def new_poller_def
        default_pos_def polling_ops)
  then have "polling_step Internal ?s1 idle_service"
    by (intro polling_step.start [of _ "[0]"]) (simp_all add: NewPollingService_def ran_def)
  ultimately show ?thesis using polling_run.more by force
qed

lemma busy_run: "polling_run [Internal, Internal, Internal] new_demo busy_service"
proof -
  have "about_to_poll idle_service 0" by (simp add: about_to_poll_def at_pc_def idle_service_def)
  then have "polling_step Internal idle_service (poll_begin 0 idle_service)"
    by (rule polling_step.poll) (simp add: demo_simps)
  moreover have "poll_begin 0 idle_service = busy_service" by (simp add: demo_simps polling_ops Let_def)
  ultimately show ?thesis using polling_run.more [OF idle_run] by force
qed

lemma busy_reachable: "polling_reachable busy_service"
  unfolding polling_reachable_def using busy_run by blast

text \<open>
  C6: In every reachable state of the polling service the tokens in the worker channel are the
  goroutines that are in a poll, there are never more of them than the configured number of
  workers, and that number is positive.
\<close>

theorem workers_bounded:
  assumes "polling_reachable s"
  shows "po_workers s = int (routines_at holding s) \<and> po_workers s \<le> WorkerCount (po_config s)
    \<and> 0 < WorkerCount (po_config s)"
  using reachable_accounts [OF assms] by (simp add: accounts_inv_def)

lemma workers_bounded_witness: "po_workers busy_service = int (routines_at holding busy_service)
    \<and> po_workers busy_service \<le> WorkerCount (po_config busy_service) \<and> po_workers busy_service = 1
    \<and> 0 < WorkerCount (po_config busy_service)"
  using workers_bounded [OF busy_reachable] by (simp add: busy_service_def)

text \<open>
  The statistics of the polling service add up: the successful and the failed polls and those
  still reading are among all polls, and no more points are counted as published than as read.
\<close>

theorem polls_accounted:
  assumes "polling_reachable s"
  shows "SuccessPolls (po_stats s) + FailedPolls (po_stats s) + routines_at reading s \<le> TotalPolls (po_stats s)
    \<and> PointsPublished (po_stats s) \<le> PointsRead (po_stats s)"
  using reachable_accounts [OF assms] by (simp add: accounts_inv_def)

lemma polls_accounted_witness:
  "routines_at reading busy_service \<le> TotalPolls (po_stats busy_service) \<and> routines_at reading busy_service = 1"
  using polls_accounted [OF busy_reachable] by (simp add: routines_at_def busy_service_def)

text \<open>
  The registry maps each name to a poller whose device is enabled and has that name as its ID,
  whatever was registered, replaced or removed, so two names never share a poller.
\<close>

theorem registered_under_own_name:
  assumes "polling_reachable s" "po_devices s i = Some a"
  shows "dev_ID (dv_device (poller s a)) = i \<and> dev_Enabled (dv_device (poller s a))"
  using reachable_registry [OF assms(1)] assms(2) by (simp add: registry_inv_def)

lemma registered_under_own_name_witness: "dev_ID (dv_device (poller busy_service 0)) = ''plc''"
  using registered_under_own_name [OF busy_reachable, of "''plc''" 0] by (simp add: busy_service_def idle_service_def)

text \<open>
  C7: As long as no restart is forced while the old goroutine of its poller is still at work, there
  is at most one goroutine per poller in every reachable state, and the poller of every goroutine is marked as running.
\<close>

theorem one_goroutine_per_poller:
  assumes "polling_run ls (NewPollingService cfg pm pub clock w) s" "\<forall>n. Forced (Suc n) \<notin> set ls"
  shows "distinct (map rt_poller (po_routines s))
    \<and> list_all (\<lambda>r. dv_running (poller s (rt_poller r))) (po_routines s)"
proof -
  have "registry_inv s \<and> owner_inv s" using assms(1)
  proof (rule polling_run_invariant [where P = "\<lambda>s. registry_inv s \<and> owner_inv s"])
    show "registry_inv (NewPollingService cfg pm pub clock w) \<and> owner_inv (NewPollingService cfg pm pub clock w)"
      by (simp add: registry_inv_def owner_inv_def owners_def NewPollingService_def)
    fix l and s s' :: "'a polling"
    assume "l \<in> set ls" "polling_step l s s'" "registry_inv s \<and> owner_inv s"
    then show "registry_inv s' \<and> owner_inv s'"
      using assms(2) polling_step_registry polling_step_owner [of l s s'] by blast
  qed
  then show ?thesis by (auto simp: owner_inv_def owners_def list_all_iff)
qed

lemma one_goroutine_per_poller_witness:
  "distinct (map rt_poller (po_routines busy_service)) \<and> length (po_routines busy_service) = 1"
  using one_goroutine_per_poller [OF busy_run] by (simp add: busy_service_def)

text \<open>
  A forced restart, five seconds after the interval of a device was changed while a poll of it
  hangs, leaves two goroutines that poll the device: the old one finds the new stop channel when it
  comes back to its loop, and both wait for the next tick on channels that are open.
\<close>

theorem forced_restart_polls_twice:
  "\<exists>s. polling_run [Internal, Internal, Internal, Internal, Forced 1, Internal, Internal] new_demo s
    \<and> map rt_poller (po_routines s) = [0, 0] \<and> rt_pc (po_routines s ! 0) = Selecting (po_ctx s) (dv_stopChan (poller s 0))
    \<and> po_closed s = {1} \<and> dv_stopChan (poller s 0) = 3"
proof -
  let ?t = "[int_tag\<lparr>tag_Enabled := True\<rparr>]"
  let ?s4 = "busy_service\<lparr>po_pollers := [demo_poller slower_device 1 True 1], po_closed := {1}, po_lock := Some 0\<rparr>"
  let ?s5 = "busy_service\<lparr>po_pollers := [demo_poller slower_device 3 True 1], po_closed := {1}, po_next := 4,
    po_routines := po_routines busy_service @ [\<lparr>rt_poller = 0, rt_pc = Jitter\<rparr>]\<rparr>"
  let ?ps = "[Some (zero_data_point\<lparr>dp_TagID := ''level'', dp_Quality := QualityGood\<rparr>)]"
  let ?s6 = "poll_read 0 ?t ?s5"
  let ?s7 = "poll_publish 0 ?t ?ps ?s6"
  have "replace_begin slower_device busy_service = Some (None, ?s4)"
    by (simp add: replace_begin_def demo_simps wants_subscription_def polling_ops)
  then have "polling_step Internal busy_service ?s4" by (rule polling_step.replace [rotated]) (simp add: demo_simps)
  then have r4: "polling_run [Internal, Internal, Internal, Internal] new_demo ?s4"
    using polling_run.more [OF busy_run] by force
  have "replace_forced 0 ?s4 = Some ?s5"
    by (simp add: replace_forced_def replace_end_def startDevicePoller.simps [of 0] demo_simps polling_ops)
  then have "polling_step (Forced (length (routines_of 0 ?s4))) ?s4 ?s5"
    by (rule polling_step.forced [rotated 2]) (simp_all add: demo_simps)
  then have r5: "polling_run [Internal, Internal, Internal, Internal, Forced 1] new_demo ?s5"
    using polling_run.more [OF r4] by (force simp: routines_of_def busy_service_def)
  have "polling_step Internal ?s5 ?s6" by (rule polling_step.read) (simp add: at_pc_def busy_service_def)
  note r6 = polling_run.more [OF r5 this]
  have read: "?s6 = ?s5\<lparr>po_routines := (po_routines ?s5)[0 := \<lparr>rt_poller = 0, rt_pc = Publishing ?t ?ps\<rparr>],
      po_pollers := [(demo_poller slower_device 3 True 1)\<lparr>dv_lastPoll := Some 0\<rparr>],
      po_stats := (po_stats ?s5)\<lparr>SuccessPolls := 1\<rparr>\<rparr>"
    by (simp add: poll_read_def pm_ReadTags_def GetPool_def RegisterPool_def one_point_pool_def demo_simps
        polling_ops int_tag_def raw_tag_def)
  have "at_pc ?s6 0 (Publishing ?t ?ps)" unfolding read by (simp add: at_pc_def busy_service_def)
  then have "polling_step Internal ?s6 ?s7" by (rule polling_step.publish)
  note r7 = polling_run.more [OF r6 this]
  have "map rt_poller (po_routines ?s7) = [0, 0] \<and> rt_pc (po_routines ?s7 ! 0) = Selecting (po_ctx ?s7) (dv_stopChan (poller ?s7 0))
      \<and> po_closed ?s7 = {1} \<and> dv_stopChan (poller ?s7 0) = 3"
    unfolding read by (simp add: polling_ops Let_def demo_simps split: prod.split)
  then show ?thesis using r7 by auto
qed

text \<open>
  C28: When the subscription of an OPC UA device with an enabled tag fails every time,
  \<open>startDevicePoller\<close> never returns: its fallback to polling calls itself and tries the subscription again.
\<close>

theorem failing_subscription_never_returns:
  assumes "po_handler s = Some h" "\<forall>d ts w. fst (sb_Subscribe h d ts w) \<noteq> None"
    and "wants_subscription s (dv_device (poller s a))" "getEnabledTags (dv_device (poller s a)) \<noteq> []"
    and "\<not> dv_running (poller s a)"
  shows "startDevicePoller a s = None"
proof (rule ccontr)
  define stuck :: "'a polling \<Rightarrow> bool" where
    "stuck s \<longleftrightarrow> po_handler s = Some h \<and> wants_subscription s (dv_device (poller s a))
       \<and> getEnabledTags (dv_device (poller s a)) \<noteq> [] \<and> \<not> dv_running (poller s a)" for s
  assume "startDevicePoller a s \<noteq> None"
  then obtain s' where "startDevicePoller a s = Some s'" by auto
  then have "\<not> stuck s" if "a = a" using that
  proof (rule startDevicePoller.raw_induct [where P = "\<lambda>b s _. b = a \<longrightarrow> \<not> stuck s", THEN mp, rotated])
    fix start :: "nat \<Rightarrow> 'a polling \<Rightarrow> 'a polling option" and b s s'
    assume IH: "\<And>b s s'. start b s = Some s' \<Longrightarrow> b = a \<longrightarrow> \<not> stuck s"
      and body: "(if dv_running (poller s b) then Some s
        else case po_handler s of None \<Rightarrow> Some (spawn b s)
          | Some h \<Rightarrow> if wants_subscription s (dv_device (poller s b))
              then case startDeviceSubscription h b s of (failed, s1) \<Rightarrow> if failed then start b s1 else Some s1
              else Some (spawn b s)) = Some s'"
    show "b = a \<longrightarrow> \<not> stuck s"
    proof (intro impI notI)
      assume b: "b = a" and st: "stuck s"
      obtain e w where e: "sb_Subscribe h (dv_device (poller s a)) (getEnabledTags (dv_device (poller s a))) (po_world s) = (Some e, w)"
        using assms(2) by (metis option.exhaust prod.collapse)
      let ?s1 = "set_running False a (set_subscribed False a (s\<lparr>po_world := w, po_callbacks := a # po_callbacks s\<rparr>))"
      have "startDeviceSubscription h a s = (True, ?s1)"
        using e st by (simp add: startDeviceSubscription_def stuck_def Let_def)
      then have "start a ?s1 = Some s'" using body b st by (simp add: stuck_def)
      then have "\<not> stuck ?s1" using IH by blast
      moreover have "stuck ?s1" using st set_flags_running [of s a]
        by (cases "a < length (po_pollers s)")
          (simp_all add: stuck_def wants_subscription_def polling_ops list_update_beyond)
      ultimately show False by contradiction
    qed
  qed
  then show False using assms by (simp add: stuck_def)
qed

definition failing_handler :: "unit subscription_handler" where
  "failing_handler = \<lparr>sb_Subscribe = (\<lambda>d ts w. (Some ErrOPCUASubscriptionFailed, w)), sb_Unsubscribe = (\<lambda>i w. (None, w))\<rparr>"

definition opcua_device :: device where
  "opcua_device = polled_device\<lparr>dev_Protocol := ProtocolOPCUA, Connection := zero_connection\<lparr>OPCUseSubscriptions := True\<rparr>\<rparr>"

lemma failing_subscription_never_returns_witness:
  "startDevicePoller 0 (idle_service\<lparr>po_handler := Some failing_handler, po_pollers := [demo_poller opcua_device 1 False 0]\<rparr>) = None"
  by (rule failing_subscription_never_returns [where h = failing_handler])
    (simp_all add: failing_handler_def wants_subscription_def demo_poller_def opcua_device_def polled_device_def getEnabledTags_def)

end
