(* ===== verification/Opcua_Conversion.thy ===== *)
theory Opcua_Conversion
  imports Modbus_Client
begin

text \<open>
  The pure part of \<open>internal/adapter/opcua\<close>: \<open>conversion.go\<close>, the conversions and the error
  classification of \<open>client.go\<close>, and that of \<open>session.go\<close>.  A \<open>*ua.Variant\<close> is the value it wraps.
  The type switches \<open>toBool\<close> \<dots> \<open>toFloat64\<close> are repeated in \<open>conversion.go\<close> word for word; the model
  shares them.
\<close>

section \<open>Scaling\<close>

definition opc_applyScaling :: "goval \<Rightarrow> tag \<Rightarrow> goval" where
  "opc_applyScaling value t =
     (if no_scaling t then value
      else case toFloat64 value of (floatVal, ok) \<Rightarrow>
        if \<not> ok then value
        else VFloat64 (f64_add (f64_mul floatVal (ScaleFactor t)) (Offset t)))"

definition opc_reverseScaling :: "goval \<Rightarrow> tag \<Rightarrow> goval" where
  "opc_reverseScaling value t =
     (if f64_eq (ScaleFactor t) f64_zero then value
      else if no_scaling t then value
      else case toFloat64 value of (floatVal, ok) \<Rightarrow>
        if \<not> ok then value
        else VFloat64 (f64_div (f64_sub floatVal (Offset t)) (ScaleFactor t)))"

section \<open>Variants\<close>

text \<open>
  What the conversion takes from outside: the target's float conversions, \<open>ua.NewVariant\<close> (which
  refuses types it does not know) and \<open>fmt.Sprintf("%v", x)\<close>.
\<close>

record ua_values =
  uv_arch :: arch
  uv_NewVariant :: "goval \<Rightarrow> goval res"
  uv_print :: "goval \<Rightarrow> string"

text \<open>\<open>domain.DataTypeString\<close>.\<close>

abbreviation DataTypeString :: data_type where
  "DataTypeString \<equiv> DataType_other ''string''"

definition opc_cannot_convert :: "goval \<Rightarrow> string \<Rightarrow> err" where
  "opc_cannot_convert v target = Plain (''cannot convert '' @ go_type_name v @ '' to '' @ target)"

definition variant_of ::
  "ua_values \<Rightarrow> ('x \<Rightarrow> goval) \<Rightarrow> string \<Rightarrow> goval \<Rightarrow> 'x \<times> bool \<Rightarrow> goval res" where
  "variant_of lib mk target actual r = (case r of (x, ok) \<Rightarrow>
     if ok then uv_NewVariant lib (mk x) else Err (opc_cannot_convert actual target))"

definition opc_valueToVariant :: "ua_values \<Rightarrow> goval \<Rightarrow> tag \<Rightarrow> goval res" where
  "opc_valueToVariant lib value t =
     (let actualValue = opc_reverseScaling value t;
          int64 = toInt64 (uv_arch lib) actualValue in
      case DataType t of
        DataTypeBool \<Rightarrow> variant_of lib VBool ''bool'' actualValue (toBool actualValue)
      | DataTypeInt16 \<Rightarrow> variant_of lib (\<lambda>i. VInt16 (ucast i)) ''int16'' actualValue int64
      | DataTypeUInt16 \<Rightarrow> variant_of lib (\<lambda>i. VUint16 (ucast i)) ''uint16'' actualValue int64
      | DataTypeInt32 \<Rightarrow> variant_of lib (\<lambda>i. VInt32 (ucast i)) ''int32'' actualValue int64
      | DataTypeUInt32 \<Rightarrow> variant_of lib (\<lambda>i. VUint32 (ucast i)) ''uint32'' actualValue int64
      | DataTypeInt64 \<Rightarrow> variant_of lib VInt64 ''int64'' actualValue int64
      | DataTypeUInt64 \<Rightarrow> variant_of lib VUint64 ''uint64'' actualValue (toUint64 (uv_arch lib) actualValue)
      | DataTypeFloat32 \<Rightarrow> variant_of lib (\<lambda>f. VFloat32 (f32_of_f64 f)) ''float32'' actualValue (toFloat64 actualValue)
      | DataTypeFloat64 \<Rightarrow> variant_of lib VFloat64 ''float64'' actualValue (toFloat64 actualValue)
      | DataType_other s \<Rightarrow>
          if s = ''string'' then
            uv_NewVariant lib (VString (case actualValue of VString x \<Rightarrow> x | _ \<Rightarrow> uv_print lib actualValue))
          else uv_NewVariant lib actualValue)"

text \<open>\<open>variantToValue\<close> and \<open>variantToInterface\<close>: a nil variant is nil.\<close>

definition variantToValue :: "goval option \<Rightarrow> goval" where
  "variantToValue v = (case v of None \<Rightarrow> VNil | Some x \<Rightarrow> x)"

section \<open>Status codes\<close>

text \<open>
  \<open>ua.StatusOK\<close> and \<open>ua.StatusGood\<close> are 0, \<open>ua.StatusBad\<close> and \<open>ua.StatusUncertain\<close> the codes with
  only their severity bits set.
\<close>

abbreviation StatusOK :: u32 where "StatusOK \<equiv> 0"
abbreviation StatusBad :: u32 where "StatusBad \<equiv> 0x80000000"
abbreviation StatusUncertain :: u32 where "StatusUncertain \<equiv> 0x40000000"

text \<open>The method of the client, and the function of \<open>conversion.go\<close>.\<close>

definition statusCodeToQuality :: "u32 \<Rightarrow> quality" where
  "statusCodeToQuality status =
     (if status = StatusOK then QualityGood
      else if status = StatusBad then QualityBad
      else if status = StatusUncertain then QualityUncertain
      else if status AND 0x80000000 \<noteq> 0 then QualityBad
      else if status AND 0x40000000 \<noteq> 0 then QualityUncertain
      else QualityGood)"

definition conversion_statusCodeToQuality :: "u32 \<Rightarrow> quality" where
  "conversion_statusCodeToQuality status =
     (if status = StatusOK then QualityGood
      else if status AND 0x80000000 \<noteq> 0 then QualityBad
      else if status AND 0x40000000 \<noteq> 0 then QualityUncertain
      else QualityGood)"

section \<open>Searching a text\<close>

text \<open>The loop of \<open>containsRune\<close> over the index \<open>i\<close>.\<close>

function find_from :: "string \<Rightarrow> string \<Rightarrow> nat \<Rightarrow> bool" where
  "find_from s substr i =
     (if int i \<le> int (length s) - int (length substr)
      then (if take (length substr) (drop i s) = substr then True else find_from s substr (i + 1))
      else False)"
  by pat_completeness auto
termination
  by (relation "measure (\<lambda>(s, substr, i). Suc (length s) - i)") auto

declare find_from.simps [simp del]

definition containsRune :: "string \<Rightarrow> string \<Rightarrow> bool" where
  "containsRune s substr = find_from s substr 0"

definition opc_contains :: "string \<Rightarrow> string \<Rightarrow> bool" where
  "opc_contains s substr \<longleftrightarrow>
     length substr \<le> length s \<and> (s = substr \<or> 0 < length s \<and> containsRune s substr)"

section \<open>Classifying errors\<close>

definition mentions_any :: "err \<Rightarrow> string list \<Rightarrow> bool" where
  "mentions_any e words \<longleftrightarrow> list_ex (opc_contains (err_text e)) words"

definition opc_isConnectionError :: "err \<Rightarrow> bool" where
  "opc_isConnectionError e \<longleftrightarrow>
     errors_is e IoEOF \<or> errors_is e IoUnexpectedEOF
     \<or> mentions_any e [''connection'', ''timeout'', ''closed'', ''refused'', ''reset'', ''broken pipe'',
         ''no route to host'']"

definition isTooManySessionsError :: "err \<Rightarrow> bool" where
  "isTooManySessionsError e \<longleftrightarrow>
     mentions_any e [''TooManySessions'', ''maximum number of sessions'', ''StatusBadTooManySessions'']"

definition opc_isRetryableError :: "err \<Rightarrow> bool" where
  "opc_isRetryableError e = (if isTooManySessionsError e then False else opc_isConnectionError e)"

definition IsDeviceError :: "err \<Rightarrow> bool" where
  "IsDeviceError e \<longleftrightarrow>
     mentions_any e [''BadNodeId'', ''BadNodeID'', ''node not found'', ''unknown node'']
     \<or> mentions_any e [''BadUserAccessDenied'', ''BadNotWritable'', ''BadNotReadable'', ''access denied'']
     \<or> mentions_any e [''BadTypeMismatch'', ''BadOutOfRange'', ''BadDataEncodingInvalid'', ''type mismatch'',
         ''conversion'']
     \<or> mentions_any e [''BadAttributeIdInvalid'', ''BadIndexRangeInvalid'', ''BadBrowseNameInvalid'']
     \<or> mentions_any e [''BadWriteNotSupported'', ''write rejected'', ''BadNoEntryExists'']"

definition IsEndpointError :: "err \<Rightarrow> bool" where
  "IsEndpointError e \<longleftrightarrow>
     mentions_any e [''connection'', ''timeout'', ''closed'', ''refused'', ''reset'', ''broken pipe'',
       ''no route to host'', ''EOF'']
     \<or> mentions_any e [''SecureChannel'', ''BadSecureChannel'', ''certificate'']
     \<or> mentions_any e [''TooManySessions'', ''BadTooManyOperations'', ''BadServerTooBusy'']
     \<or> mentions_any e [''BadSessionId'', ''BadSessionClosed'', ''session'']"

section \<open>Data points\<close>

text \<open>What the server answers for one node; \<open>None\<close> stands for a nil variant and a zero time.\<close>

record data_value =
  dv_Status :: u32
  dv_Value :: "goval option"
  dv_SourceTimestamp :: "time option"

definition WithSourceTimestamp :: "time \<Rightarrow> data_point \<Rightarrow> data_point" where
  "WithSourceTimestamp ts dp = dp\<lparr>dp_SourceTimestamp := Some ts\<rparr>"

definition opc_no_value :: "time \<Rightarrow> string \<Rightarrow> tag \<Rightarrow> quality \<Rightarrow> data_point" where
  "opc_no_value now deviceID t q = AcquireDataPoint zero_data_point now deviceID (tag_ID t) [] VNil (tag_Unit t) q"

definition processReadResult :: "time \<Rightarrow> string \<Rightarrow> data_value \<Rightarrow> tag \<Rightarrow> data_point" where
  "processReadResult now deviceID result t =
     (let q = statusCodeToQuality (dv_Status result) in
      if q \<noteq> QualityGood then opc_no_value now deviceID t q
      else
        let value = variantToValue (dv_Value result);
            dp = WithPriority (tag_Priority t) (WithRawValue value
                   (AcquireDataPoint zero_data_point now deviceID (tag_ID t) [] (opc_applyScaling value t)
                      (tag_Unit t) q))
        in (case dv_SourceTimestamp result of
              Some ts \<Rightarrow> WithSourceTimestamp ts dp
            | None \<Rightarrow> dp))"

definition opc_createErrorDataPoint :: "time \<Rightarrow> string \<Rightarrow> tag \<Rightarrow> err \<Rightarrow> data_point" where
  "opc_createErrorDataPoint now deviceID t e =
     opc_no_value now deviceID t (if opc_isConnectionError e then QualityNotConnected else QualityBad)"

section \<open>Facts\<close>

lemma find_from_iff:
  "find_from s p i \<longleftrightarrow> (\<exists>j\<ge>i. j + length p \<le> length s \<and> take (length p) (drop j s) = p)"
proof (induction s p i rule: find_from.induct)
  case (1 s p i)
  show ?case
  proof (cases "i + length p \<le> length s")
    case True
    then have bound: "int i \<le> int (length s) - int (length p)" by simp
    show ?thesis
    proof (cases "take (length p) (drop i s) = p")
      case t: True
      then show ?thesis using True bound by (subst find_from.simps) auto
    next
      case f: False
      then have "find_from s p i = find_from s p (i + 1)" using bound by (subst find_from.simps) simp
      also have "\<dots> = (\<exists>j\<ge>i + 1. j + length p \<le> length s \<and> take (length p) (drop j s) = p)"
        by (rule "1.IH" [OF bound f])
      also have "\<dots> = (\<exists>j\<ge>i. j + length p \<le> length s \<and> take (length p) (drop j s) = p)"
        using f by (metis Suc_eq_plus1 le_antisym not_less_eq_eq le_SucI)
      finally show ?thesis .
    qed
  next
    case False
    then show ?thesis by (subst find_from.simps) auto
  qed
qed

lemma opc_contains_iff: "opc_contains s p = contains_sub s p"
proof -
  have "opc_contains s p \<longleftrightarrow> (\<exists>ys zs. s = ys @ p @ zs)"
  proof
    assume "opc_contains s p"
    then consider "s = p" | j where "j + length p \<le> length s" "take (length p) (drop j s) = p"
      by (auto simp: opc_contains_def containsRune_def find_from_iff)
    then show "\<exists>ys zs. s = ys @ p @ zs"
    proof cases
      case 1
      then have "s = [] @ p @ []" by simp
      then show ?thesis by blast
    next
      case 2
      then have "s = take j s @ p @ drop (length p) (drop j s)" by (metis append_take_drop_id)
      then show ?thesis by blast
    qed
  next
    assume "\<exists>ys zs. s = ys @ p @ zs"
    then obtain ys zs where s: "s = ys @ p @ zs" by blast
    have "find_from s p 0" unfolding find_from_iff
      by (rule exI [of _ "length ys"]) (simp add: s)
    moreover have "length p \<le> length s" by (simp add: s)
    ultimately show "opc_contains s p"
      using s by (cases "s = []") (simp_all add: opc_contains_def containsRune_def)
  qed
  then show ?thesis by (simp add: contains_sub_iff)
qed

lemma statusCode_agree: "conversion_statusCodeToQuality s = statusCodeToQuality s"
  by (simp add: conversion_statusCodeToQuality_def statusCodeToQuality_def)

lemma top_bit_mask: "(w :: u32) AND push_bit n 1 \<noteq> 0 \<longleftrightarrow> bit w n" if "n < 32"
proof
  assume "w AND push_bit n 1 \<noteq> 0"
  then obtain k where "bit (w AND push_bit n 1) k" by (metis bit_eqI bit_0_eq bot_apply bot_bool_def)
  then show "bit w n" by (auto simp: bit_simps)
next
  assume b: "bit w n"
  show "w AND push_bit n 1 \<noteq> 0"
  proof
    assume "w AND push_bit n 1 = 0"
    then have "bit (w AND push_bit n 1) n = bit (0 :: u32) n" by (simp only:)
    then show False using b that by (simp add: bit_simps)
  qed
qed

text \<open>The severity bits of the code decide.\<close>

theorem quality_by_severity:
  "statusCodeToQuality s =
     (if bit s 31 then QualityBad else if bit s 30 then QualityUncertain else QualityGood)"
proof -
  have "(push_bit 31 1 :: u32) = 0x80000000" "(push_bit 30 1 :: u32) = 0x40000000" by simp_all
  then have "s AND 0x80000000 \<noteq> 0 \<longleftrightarrow> bit s 31" "s AND 0x40000000 \<noteq> 0 \<longleftrightarrow> bit s 30"
    using top_bit_mask [of 31 s] top_bit_mask [of 30 s] by simp_all
  then show ?thesis
    by (auto simp: statusCodeToQuality_def)
qed

lemma errors_is_EOF_text: "errors_is e IoEOF \<or> errors_is e IoUnexpectedEOF \<Longrightarrow> contains_sub (err_text e) ''EOF''"
proof (induction e)
  case (Wrap e s)
  then show ?case by (auto intro: contains_sub_append1)
next
  case (WrapPre s e)
  then show ?case by (auto intro: contains_sub_append2)
qed auto

text \<open>
  What the client retries is always an error of the endpoint's kind.
\<close>

theorem retryable_is_endpoint_error:
  "opc_isRetryableError e \<longrightarrow> IsEndpointError e"
  using errors_is_EOF_text [of e]
  by (auto simp: opc_isRetryableError_def opc_isConnectionError_def IsEndpointError_def mentions_any_def
      opc_contains_iff)

end
