(* ===== verification/Opcua_Security.thy ===== *)
theory Opcua_Security
  imports Opcua_Conversion
begin

text \<open>
  \<open>internal/adapter/opcua/security.go\<close>: the checked security settings of a client, the options
  given to the OPC UA library, and the choice among the endpoints a server offers.  Reading files,
  PEM and X.509 parsing, and hashing are the parameter \<open>pki_env\<close>; a parsed RSA key is the bytes it was
  parsed from.  \<open>filepath.Clean\<close> names the same file and is left out.
\<close>

section \<open>Vocabulary\<close>

datatype security_mode = SecurityModeNone | SecurityModeSign | SecurityModeSignAndEncrypt
  | SecurityMode_other int

datatype token_type = TokenAnonymous | TokenUserName | TokenCertificate | Token_other int

datatype policy_uri = PolicyNone | PolicyBasic128Rsa15 | PolicyBasic256 | PolicyBasic256Sha256
  | PolicyAes128Sha256RsaOaep | PolicyAes256Sha256RsaPss | Policy_other string

record x509_cert =
  x_Raw :: bytes
  x_Subject :: string
  x_CommonName :: string
  x_Issuer :: string
  x_SerialNumber :: string
  x_NotBefore :: time
  x_NotAfter :: time
  x_IsCA :: bool
  x_KeyUsage :: int

type_synonym rsa_key = bytes

text \<open>
  \<open>pe_pkcs1\<close> accepts or refuses; \<open>pe_pkcs8\<close> accepts and says whether the key is an RSA key;
  \<open>pe_time_text\<close> prints a time.
\<close>

record pki_env =
  pe_ReadFile :: "string \<Rightarrow> err + bytes"
  pe_pem :: "bytes \<Rightarrow> (string \<times> bytes) option"
  pe_cert :: "bytes \<Rightarrow> err + x509_cert"
  pe_pkcs1 :: "bytes \<Rightarrow> bool"
  pe_pkcs8 :: "bytes \<Rightarrow> bool option"
  pe_sha256 :: "bytes \<Rightarrow> bytes"
  pe_time_text :: "time \<Rightarrow> string"

record opc_config =
  oc_EndpointURL :: string
  oc_SecurityPolicy :: string
  oc_SecurityMode :: string
  oc_AuthMode :: string
  oc_Username :: string
  oc_Password :: string
  oc_CertificateFile :: string
  oc_PrivateKeyFile :: string
  oc_ServerCertificateFile :: string
  oc_InsecureSkipVerify :: bool
  oc_AutoSelectEndpoint :: bool
  oc_ApplicationName :: string
  oc_ApplicationURI :: string
  oc_Timeout :: duration
  oc_KeepAlive :: duration
  oc_MaxRetries :: int
  oc_RetryDelay :: duration
  oc_RequestTimeout :: duration
  oc_SessionTimeout :: duration
  oc_PublishingInterval :: duration
  oc_SamplingInterval :: duration
  oc_QueueSize :: u32

record security_config =
  sec_ClientCert :: "bytes option"
  sec_ClientKey :: "rsa_key option"
  sec_ServerCert :: "bytes option"
  sec_SecurityPolicy :: string
  sec_SecurityMode :: security_mode
  sec_AuthType :: token_type
  sec_Username :: string
  sec_Password :: string
  sec_ApplicationName :: string
  sec_ApplicationURI :: string
  sec_InsecureSkipVerify :: bool

record endpoint =
  ep_EndpointURL :: string
  ep_SecurityPolicyURI :: policy_uri
  ep_SecurityMode :: security_mode
  ep_ServerCertificate :: bytes
  ep_UserIdentityTokens :: "token_type list"

datatype client_option =
    OptApplicationName string
  | OptApplicationURI string
  | OptSecurityPolicy policy_uri
  | OptSecurityMode security_mode
  | OptSecurityFromEndpoint endpoint token_type
  | OptCertificate bytes
  | OptPrivateKey rsa_key
  | OptRemoteCertificate bytes
  | OptAuthUsername string string
  | OptAuthCertificate bytes
  | OptAuthPrivateKey rsa_key
  | OptAuthAnonymous
  | OptRequestTimeout duration
  | OptSessionTimeout duration

section \<open>Names to values\<close>

definition getSecurityPolicyURI :: "string \<Rightarrow> policy_uri" where
  "getSecurityPolicyURI policy =
     (if policy = ''Basic128Rsa15'' then PolicyBasic128Rsa15
      else if policy = ''Basic256'' then PolicyBasic256
      else if policy = ''Basic256Sha256'' then PolicyBasic256Sha256
      else if policy = ''Aes128_Sha256_RsaOaep'' then PolicyAes128Sha256RsaOaep
      else if policy = ''Aes256_Sha256_RsaPss'' then PolicyAes256Sha256RsaPss
      else PolicyNone)"

definition parseSecurityMode :: "string \<Rightarrow> security_mode" where
  "parseSecurityMode mode =
     (if mode = ''Sign'' then SecurityModeSign
      else if mode = ''SignAndEncrypt'' then SecurityModeSignAndEncrypt
      else SecurityModeNone)"

definition auth_type :: "string \<Rightarrow> token_type" where
  "auth_type mode =
     (if mode = ''UserName'' then TokenUserName
      else if mode = ''Certificate'' then TokenCertificate
      else TokenAnonymous)"

definition needsCertificates :: "string \<Rightarrow> security_mode \<Rightarrow> bool" where
  "needsCertificates policy mode =
     (if mode = SecurityModeNone then False else policy \<noteq> [] \<and> policy \<noteq> ''None'')"

section \<open>Certificates and keys\<close>

definition loadCertificate :: "pki_env \<Rightarrow> string \<Rightarrow> err + bytes" where
  "loadCertificate env filename = (case pe_ReadFile env filename of
       Inl e \<Rightarrow> Inl (WrapPre ''failed to read certificate file: '' e)
     | Inr bs \<Rightarrow>
         (case pe_pem env bs of
            Some (ty, block) \<Rightarrow>
              if ty = ''CERTIFICATE'' then Inr block
              else (case pe_cert env bs of
                  Inr c \<Rightarrow> Inr bs
                | Inl e \<Rightarrow> Inl (Plain ''file is not a valid PEM or DER certificate''))
          | None \<Rightarrow> (case pe_cert env bs of
                Inr c \<Rightarrow> Inr bs
              | Inl e \<Rightarrow> Inl (Plain ''file is not a valid PEM or DER certificate''))))"

definition loadPrivateKey :: "pki_env \<Rightarrow> string \<Rightarrow> err + rsa_key" where
  "loadPrivateKey env filename = (case pe_ReadFile env filename of
       Inl e \<Rightarrow> Inl (WrapPre ''failed to read private key file: '' e)
     | Inr bs \<Rightarrow>
         (case pe_pem env bs of
            None \<Rightarrow> Inl (Plain ''failed to decode PEM block'')
          | Some (ty, block) \<Rightarrow>
              if contains_sub ty ''RSA PRIVATE KEY'' \<and> pe_pkcs1 env block then Inr block
              else (case pe_pkcs8 env block of
                  Some isRSA \<Rightarrow> if isRSA then Inr block else Inl (Plain ''private key is not RSA'')
                | None \<Rightarrow> Inl (Plain ''failed to parse private key: unsupported format''))))"

text \<open>A file that is named must load; one that is not named is absent.\<close>

definition load_named :: "(string \<Rightarrow> err + bytes) \<Rightarrow> string \<Rightarrow> string \<Rightarrow> err + bytes option" where
  "load_named load what filename =
     (if filename = [] then Inr None
      else case load filename of
        Inl e \<Rightarrow> Inl (WrapPre (''failed to load '' @ what @ '': '') e)
      | Inr x \<Rightarrow> Inr (Some x))"

record certificate_info =
  ci_Subject :: string
  ci_Issuer :: string
  ci_SerialNumber :: string
  ci_NotBefore :: string
  ci_NotAfter :: string
  ci_IsCA :: bool
  ci_KeyUsage :: string

definition GetCertificateInfo :: "pki_env \<Rightarrow> bytes \<Rightarrow> err + certificate_info" where
  "GetCertificateInfo env bs = (case pe_cert env bs of
       Inl e \<Rightarrow> Inl e
     | Inr c \<Rightarrow> Inr \<lparr>ci_Subject = x_Subject c, ci_Issuer = x_Issuer c, ci_SerialNumber = x_SerialNumber c,
         ci_NotBefore = pe_time_text env (x_NotBefore c), ci_NotAfter = pe_time_text env (x_NotAfter c),
         ci_IsCA = x_IsCA c, ci_KeyUsage = show_int (x_KeyUsage c)\<rparr>)"

section \<open>The checked configuration\<close>

definition check_pair :: "security_config \<Rightarrow> string \<Rightarrow> err + security_config" where
  "check_pair sc mode_name =
     (if (sec_ClientCert sc \<noteq> None) \<noteq> (sec_ClientKey sc \<noteq> None)
      then Inl (Plain ''both certificate and private key must be specified together'')
      else if needsCertificates (sec_SecurityPolicy sc) (sec_SecurityMode sc)
           \<and> (sec_ClientCert sc = None \<or> sec_ClientKey sc = None)
      then Inl (Plain (''security policy '' @ sec_SecurityPolicy sc @ '' with mode '' @ mode_name
             @ '' requires client certificate and key''))
      else Inr sc)"

definition ValidateSecurityConfig :: "pki_env \<Rightarrow> opc_config \<Rightarrow> err + security_config" where
  "ValidateSecurityConfig env config =
     (case load_named (loadCertificate env) ''client certificate'' (oc_CertificateFile config) of
        Inl e \<Rightarrow> Inl e
      | Inr cert \<Rightarrow>
     (case load_named (loadPrivateKey env) ''private key'' (oc_PrivateKeyFile config) of
        Inl e \<Rightarrow> Inl e
      | Inr key \<Rightarrow>
     (case load_named (loadCertificate env) ''server certificate'' (oc_ServerCertificateFile config) of
        Inl e \<Rightarrow> Inl e
      | Inr server \<Rightarrow>
          check_pair \<lparr>sec_ClientCert = cert, sec_ClientKey = key, sec_ServerCert = server,
            sec_SecurityPolicy = oc_SecurityPolicy config,
            sec_SecurityMode = parseSecurityMode (oc_SecurityMode config),
            sec_AuthType = auth_type (oc_AuthMode config),
            sec_Username = oc_Username config, sec_Password = oc_Password config,
            sec_ApplicationName = (if oc_ApplicationName config = [] then ''NexusEdge Protocol Gateway''
              else oc_ApplicationName config),
            sec_ApplicationURI = (if oc_ApplicationURI config = [] then ''urn:nexusedge:protocol-gateway''
              else oc_ApplicationURI config),
            sec_InsecureSkipVerify = oc_InsecureSkipVerify config\<rparr> (oc_SecurityMode config))))"

section \<open>Options for the library\<close>

definition opt :: "('a \<Rightarrow> client_option) \<Rightarrow> 'a option \<Rightarrow> client_option list" where
  "opt f x = (case x of None \<Rightarrow> [] | Some y \<Rightarrow> [f y])"

definition identity_options :: "security_config \<Rightarrow> client_option list" where
  "identity_options sc = [OptApplicationName (sec_ApplicationName sc), OptApplicationURI (sec_ApplicationURI sc)]"

definition auth_options :: "security_config \<Rightarrow> client_option list" where
  "auth_options sc = (case sec_AuthType sc of
       TokenUserName \<Rightarrow> [OptAuthUsername (sec_Username sc) (sec_Password sc)]
     | TokenCertificate \<Rightarrow> (case sec_ClientCert sc of
           None \<Rightarrow> []
         | Some c \<Rightarrow> OptAuthCertificate c # opt OptAuthPrivateKey (sec_ClientKey sc))
     | _ \<Rightarrow> [OptAuthAnonymous])"

definition BuildClientOptions :: "security_config \<Rightarrow> client_option list" where
  "BuildClientOptions sc =
     (let uri = getSecurityPolicyURI (sec_SecurityPolicy sc) in
      identity_options sc
      @ (if uri \<noteq> PolicyNone then [OptSecurityPolicy uri, OptSecurityMode (sec_SecurityMode sc)] else [])
      @ opt OptCertificate (sec_ClientCert sc) @ opt OptPrivateKey (sec_ClientKey sc)
      @ opt OptRemoteCertificate (sec_ServerCert sc) @ auth_options sc)"

definition BuildOptionsFromEndpoint :: "endpoint \<Rightarrow> security_config \<Rightarrow> client_option list" where
  "BuildOptionsFromEndpoint ep sc =
     identity_options sc @ [OptSecurityFromEndpoint ep (sec_AuthType sc)]
     @ opt OptCertificate (sec_ClientCert sc) @ opt OptPrivateKey (sec_ClientKey sc)
     @ (if 0 < length (ep_ServerCertificate ep) \<and> sec_InsecureSkipVerify sc
        then [OptRemoteCertificate (ep_ServerCertificate ep)]
        else opt OptRemoteCertificate (sec_ServerCert sc))
     @ auth_options sc"

section \<open>Choosing an endpoint\<close>

definition endpointSupportsAuth :: "endpoint \<Rightarrow> token_type \<Rightarrow> bool" where
  "endpointSupportsAuth ep authType = list_ex (\<lambda>t. t = authType) (ep_UserIdentityTokens ep)"

definition policy_points :: "policy_uri \<Rightarrow> nat" where
  "policy_points p = (case p of
       PolicyAes256Sha256RsaPss \<Rightarrow> 5 | PolicyAes128Sha256RsaOaep \<Rightarrow> 4 | PolicyBasic256Sha256 \<Rightarrow> 3
     | PolicyBasic256 \<Rightarrow> 2 | PolicyBasic128Rsa15 \<Rightarrow> 1 | _ \<Rightarrow> 0)"

definition mode_points :: "security_mode \<Rightarrow> nat" where
  "mode_points m = (case m of SecurityModeSignAndEncrypt \<Rightarrow> 3 | SecurityModeSign \<Rightarrow> 2 | _ \<Rightarrow> 0)"

definition scoreEndpoint :: "endpoint \<Rightarrow> policy_uri \<Rightarrow> security_mode \<Rightarrow> nat" where
  "scoreEndpoint ep desiredPolicy desiredMode =
     (if ep_SecurityPolicyURI ep = desiredPolicy then 100
      else if desiredPolicy = PolicyNone \<and> ep_SecurityPolicyURI ep = PolicyNone then 100 else 0)
     + (if ep_SecurityMode ep = desiredMode then 50 else 0)
     + policy_points (ep_SecurityPolicyURI ep) + mode_points (ep_SecurityMode ep)"

text \<open>The loop keeps the best endpoint and its score, which starts at 0.\<close>

fun best_endpoint ::
  "token_type \<Rightarrow> policy_uri \<Rightarrow> security_mode \<Rightarrow> endpoint option \<times> nat \<Rightarrow> endpoint list \<Rightarrow> endpoint option" where
  "best_endpoint a p m (best, bestScore) [] = best"
| "best_endpoint a p m (best, bestScore) (ep # eps) =
     (if \<not> endpointSupportsAuth ep a then best_endpoint a p m (best, bestScore) eps
      else let score = scoreEndpoint ep p m in
        if bestScore < score then best_endpoint a p m (Some ep, score) eps
        else best_endpoint a p m (best, bestScore) eps)"

text \<open>\<open>found\<close> is what \<open>opcua.GetEndpoints\<close> returned.\<close>

definition DiscoverAndSelectEndpoint :: "err + endpoint list \<Rightarrow> opc_config \<Rightarrow> err + endpoint" where
  "DiscoverAndSelectEndpoint found config = (case found of
       Inl e \<Rightarrow> Inl (WrapPre ''failed to get endpoints: '' e)
     | Inr endpoints \<Rightarrow>
         if length endpoints = 0 then Inl (Plain ''no endpoints returned from server'')
         else
           let a = auth_type (oc_AuthMode config) in
           case best_endpoint a (getSecurityPolicyURI (oc_SecurityPolicy config))
                  (parseSecurityMode (oc_SecurityMode config)) (None, 0) endpoints of
             Some ep \<Rightarrow> Inr ep
           | None \<Rightarrow>
               (case find (\<lambda>ep. endpointSupportsAuth ep a) endpoints of
                  Some ep \<Rightarrow> Inr ep
                | None \<Rightarrow> Inl (Plain (''no suitable endpoint found for auth mode '' @ oc_AuthMode config))))"
section \<open>Facts\<close>

lemma load_named_None: "load_named load what f = Inr None \<longleftrightarrow> f = []"
  by (simp add: load_named_def split: sum.splits)

lemma validated_config:
  assumes "ValidateSecurityConfig env config = Inr sc"
  shows "(sec_ClientCert sc = None) = (sec_ClientKey sc = None)
     \<and> (needsCertificates (oc_SecurityPolicy config) (parseSecurityMode (oc_SecurityMode config)) \<longrightarrow>
         sec_ClientCert sc \<noteq> None \<and> sec_ClientKey sc \<noteq> None)
     \<and> sec_SecurityPolicy sc = oc_SecurityPolicy config
     \<and> sec_SecurityMode sc = parseSecurityMode (oc_SecurityMode config)
     \<and> sec_AuthType sc = auth_type (oc_AuthMode config)"
  using assms by (auto simp: ValidateSecurityConfig_def check_pair_def split: sum.splits if_splits)

lemma best_endpoint_spec:
  assumes "s = (case b of None \<Rightarrow> 0 | Some e \<Rightarrow> scoreEndpoint e p m)"
  shows "case best_endpoint a p m (b, s) eps of
      None \<Rightarrow> b = None \<and> (\<forall>e\<in>set eps. endpointSupportsAuth e a \<longrightarrow> scoreEndpoint e p m = 0)
    | Some r \<Rightarrow> (b = Some r \<or> r \<in> set eps \<and> endpointSupportsAuth r a) \<and> s \<le> scoreEndpoint r p m
        \<and> (\<forall>e\<in>set eps. endpointSupportsAuth e a \<longrightarrow> scoreEndpoint e p m \<le> scoreEndpoint r p m)"
  using assms
proof (induction eps arbitrary: b s)
  case (Cons e eps)
  consider "endpointSupportsAuth e a \<and> s < scoreEndpoint e p m"
    | "\<not> (endpointSupportsAuth e a \<and> s < scoreEndpoint e p m)" by blast
  then show ?case
  proof cases
    case 1
    then have "best_endpoint a p m (b, s) (e # eps) = best_endpoint a p m (Some e, scoreEndpoint e p m) eps"
      by (simp add: Let_def)
    moreover note Cons.IH [of "scoreEndpoint e p m" "Some e"]
    ultimately show ?thesis using 1 by (auto split: option.splits)
  next
    case 2
    then have "best_endpoint a p m (b, s) (e # eps) = best_endpoint a p m (b, s) eps"
      by (simp add: Let_def)
    moreover note Cons.IH [OF Cons.prems]
    ultimately show ?thesis using 2 Cons.prems by (force split: option.splits)
  qed
qed (auto split: option.splits)

lemma score_exact:
  "150 \<le> scoreEndpoint e p m \<longleftrightarrow> ep_SecurityPolicyURI e = p \<and> ep_SecurityMode e = m"
proof -
  have "policy_points x \<le> 5" "mode_points y \<le> 3" for x y
    by (simp_all add: policy_points_def mode_points_def split: policy_uri.splits security_mode.splits)
  from this(1) [of "ep_SecurityPolicyURI e"] this(2) [of "ep_SecurityMode e"]
  show ?thesis by (auto simp: scoreEndpoint_def)
qed

definition exact_endpoint :: "opc_config \<Rightarrow> endpoint \<Rightarrow> bool" where
  "exact_endpoint config e \<longleftrightarrow>
     ep_SecurityPolicyURI e = getSecurityPolicyURI (oc_SecurityPolicy config)
     \<and> ep_SecurityMode e = parseSecurityMode (oc_SecurityMode config)"

abbreviation chosen_score :: "opc_config \<Rightarrow> endpoint \<Rightarrow> nat" where
  "chosen_score config e \<equiv> scoreEndpoint e (getSecurityPolicyURI (oc_SecurityPolicy config))
     (parseSecurityMode (oc_SecurityMode config))"

text \<open>
  The endpoint that discovery selects is one the server offers, supports the configured way of
  authenticating, and scores at least as high as every offered endpoint that does; so it has exactly
  the configured policy and mode as soon as one of those has.
\<close>

theorem best_endpoint_selected:
  assumes "DiscoverAndSelectEndpoint (Inr eps) config = Inr ep"
  shows "ep \<in> set eps \<and> endpointSupportsAuth ep (auth_type (oc_AuthMode config))
    \<and> (\<forall>e\<in>set eps. endpointSupportsAuth e (auth_type (oc_AuthMode config)) \<longrightarrow>
          chosen_score config e \<le> chosen_score config ep
          \<and> (exact_endpoint config e \<longrightarrow> exact_endpoint config ep))"
proof -
  let ?p = "getSecurityPolicyURI (oc_SecurityPolicy config)" and ?m = "parseSecurityMode (oc_SecurityMode config)"
  let ?a = "auth_type (oc_AuthMode config)"
  note spec = best_endpoint_spec [where s = 0 and b = None and a = ?a and eps = eps and p = ?p and m = ?m]
  have chosen: "(ep \<in> set eps \<and> endpointSupportsAuth ep ?a)
      \<and> (\<forall>e\<in>set eps. endpointSupportsAuth e ?a \<longrightarrow> chosen_score config e \<le> chosen_score config ep)"
  proof (cases "best_endpoint ?a ?p ?m (None, 0) eps")
    case None
    then have "find (\<lambda>e. endpointSupportsAuth e ?a) eps = Some ep"
      using assms by (auto simp: DiscoverAndSelectEndpoint_def Let_def split: if_splits option.splits)
    then show ?thesis using spec None by (auto simp: find_Some_iff)
  next
    case (Some r)
    then have "r = ep"
      using assms by (auto simp: DiscoverAndSelectEndpoint_def Let_def split: if_splits)
    then show ?thesis using spec Some by simp
  qed
  then show ?thesis
    unfolding exact_endpoint_def score_exact [symmetric] using order_trans by blast
qed

text \<open>
  A server that offers a single endpoint gets its way: whatever policy and mode the client is
  configured to use, the offered ones are taken.
\<close>

theorem only_endpoint_is_taken:
  "DiscoverAndSelectEndpoint (Inr [ep]) config =
     (if endpointSupportsAuth ep (auth_type (oc_AuthMode config)) then Inr ep
      else Inl (Plain (''no suitable endpoint found for auth mode '' @ oc_AuthMode config)))"
  by (simp add: DiscoverAndSelectEndpoint_def Let_def)

text \<open>
  A policy the gateway does not know is no policy: the options then ask the library for neither a
  policy nor a mode, although \<open>needsCertificates\<close> treats the configuration as secure.
\<close>

theorem unknown_policy_unsecured:
  assumes "oc_SecurityPolicy config \<notin> {''Basic128Rsa15'', ''Basic256'', ''Basic256Sha256'',
             ''Aes128_Sha256_RsaOaep'', ''Aes256_Sha256_RsaPss''}"
    and "ValidateSecurityConfig env config = Inr sc"
  shows "x \<in> set (BuildClientOptions sc) \<Longrightarrow> x \<noteq> OptSecurityPolicy u \<and> x \<noteq> OptSecurityMode m"
proof -
  have "getSecurityPolicyURI (sec_SecurityPolicy sc) = PolicyNone"
    using assms validated_config [OF assms(2)] by (simp add: getSecurityPolicyURI_def)
  then show "x \<in> set (BuildClientOptions sc) \<Longrightarrow> x \<noteq> OptSecurityPolicy u \<and> x \<noteq> OptSecurityMode m"
    by (auto simp: BuildClientOptions_def identity_options_def auth_options_def opt_def Let_def
        split: option.splits token_type.splits if_splits)
qed
section \<open>Properties\<close>

text \<open>A certificate file and a key file, and a configuration that names them.\<close>

definition sample_pki :: pki_env where
  "sample_pki = \<lparr>pe_ReadFile = (\<lambda>f. if f = ''cert.pem'' then Inr [1] else if f = ''key.pem'' then Inr [2]
       else Inl (Plain ''no such file'')),
     pe_pem = (\<lambda>bs. if bs = [1] then Some (''CERTIFICATE'', [3]) else Some (''RSA PRIVATE KEY'', [4])),
     pe_cert = (\<lambda>bs. Inl (Plain ''malformed certificate'')), pe_pkcs1 = (\<lambda>bs. True), pe_pkcs8 = (\<lambda>bs. None),
     pe_sha256 = (\<lambda>bs. replicate 32 0), pe_time_text = (\<lambda>t. [])\<rparr>"

definition sample_config :: opc_config where
  "sample_config = \<lparr>oc_EndpointURL = ''opc.tcp://plc:4840'', oc_SecurityPolicy = ''Basic256Sha256'',
     oc_SecurityMode = ''SignAndEncrypt'', oc_AuthMode = ''UserName'', oc_Username = ''u'', oc_Password = ''p'',
     oc_CertificateFile = ''cert.pem'', oc_PrivateKeyFile = ''key.pem'', oc_ServerCertificateFile = [],
     oc_InsecureSkipVerify = False, oc_AutoSelectEndpoint = False, oc_ApplicationName = [],
     oc_ApplicationURI = [], oc_Timeout = 0, oc_KeepAlive = 0, oc_MaxRetries = 1, oc_RetryDelay = 100 * millisecond,
     oc_RequestTimeout = 0, oc_SessionTimeout = 0, oc_PublishingInterval = 0, oc_SamplingInterval = 0,
     oc_QueueSize = 0\<rparr>"

definition sample_security :: security_config where
  "sample_security = \<lparr>sec_ClientCert = Some [3], sec_ClientKey = Some [4], sec_ServerCert = None,
     sec_SecurityPolicy = ''Basic256Sha256'', sec_SecurityMode = SecurityModeSignAndEncrypt,
     sec_AuthType = TokenUserName, sec_Username = ''u'', sec_Password = ''p'',
     sec_ApplicationName = ''NexusEdge Protocol Gateway'',
     sec_ApplicationURI = ''urn:nexusedge:protocol-gateway'', sec_InsecureSkipVerify = False\<rparr>"

lemma sample_validates: "ValidateSecurityConfig sample_pki sample_config = Inr sample_security"
  by (simp add: ValidateSecurityConfig_def sample_pki_def sample_config_def sample_security_def load_named_def
      loadCertificate_def loadPrivateKey_def check_pair_def needsCertificates_def parseSecurityMode_def
      auth_type_def)

text \<open>
  A client configured with a security policy the gateway knows and a mode other than \<open>None\<close> asks the
  library for exactly that policy and that mode, and hands it a client certificate and a private key;
  configurations that would leave one of them out do not pass validation.
\<close>

theorem known_policy_secured:
  assumes "ValidateSecurityConfig env config = Inr sc"
    and "getSecurityPolicyURI (oc_SecurityPolicy config) \<noteq> PolicyNone"
    and "parseSecurityMode (oc_SecurityMode config) \<noteq> SecurityModeNone"
  shows "\<exists>cert key. {OptSecurityPolicy (getSecurityPolicyURI (oc_SecurityPolicy config)),
      OptSecurityMode (parseSecurityMode (oc_SecurityMode config)), OptCertificate cert, OptPrivateKey key}
      \<subseteq> set (BuildClientOptions sc)"
proof -
  have "needsCertificates (oc_SecurityPolicy config) (parseSecurityMode (oc_SecurityMode config))"
    using assms(2,3) by (auto simp: needsCertificates_def getSecurityPolicyURI_def)
  then obtain cert key where "sec_ClientCert sc = Some cert" "sec_ClientKey sc = Some key"
    using validated_config [OF assms(1)] by auto
  then show ?thesis
    using validated_config [OF assms(1)] assms(2)
    by (intro exI [of _ cert] exI [of _ key]) (simp add: BuildClientOptions_def opt_def Let_def)
qed

theorem known_policy_secured_witness:
  "\<exists>cert key. {OptSecurityPolicy PolicyBasic256Sha256, OptSecurityMode SecurityModeSignAndEncrypt,
      OptCertificate cert, OptPrivateKey key} \<subseteq> set (BuildClientOptions sample_security)"
  using known_policy_secured [OF sample_validates]
  by (simp add: sample_config_def getSecurityPolicyURI_def parseSecurityMode_def)


definition plain_endpoint :: endpoint where
  "plain_endpoint = \<lparr>ep_EndpointURL = [], ep_SecurityPolicyURI = PolicyNone, ep_SecurityMode = SecurityModeNone,
     ep_ServerCertificate = [], ep_UserIdentityTokens = [TokenUserName]\<rparr>"

definition signed_endpoint :: endpoint where
  "signed_endpoint = plain_endpoint\<lparr>ep_SecurityPolicyURI := PolicyBasic256Sha256,
     ep_SecurityMode := SecurityModeSignAndEncrypt\<rparr>"

theorem best_endpoint_selected_witness:
  "endpointSupportsAuth signed_endpoint TokenUserName
   \<and> chosen_score sample_config plain_endpoint \<le> chosen_score sample_config signed_endpoint"
  using best_endpoint_selected [of "[plain_endpoint, signed_endpoint]" sample_config signed_endpoint]
  by (simp add: DiscoverAndSelectEndpoint_def plain_endpoint_def signed_endpoint_def sample_config_def
      auth_type_def endpointSupportsAuth_def scoreEndpoint_def getSecurityPolicyURI_def parseSecurityMode_def
      policy_points_def mode_points_def)

end
