(* ===== verification/Opcua_Trust.thy ===== *)
theory Opcua_Trust
  imports Opcua_Security "HOL-Library.List_Lexorder" "HOL-Library.Char_ord"
begin

text \<open>
  \<open>internal/adapter/opcua/trust_store.go\<close>: the certificates the gateway trusts and those it has
  rejected, kept as files of two directories.  The store is the map from the directories below the
  base path to their contents; a directory is the list of its entries in the order of \<open>os.ReadDir\<close>,
  by name.  Which operating system calls fail, the hash, PEM and X.509 parsing and the calendar are the
  parameter \<open>env\<close>; a failed call changes nothing.
\<close>

section \<open>Directories\<close>

datatype dir_item = Subdirectory | RegularFile bytes

type_synonym dir = "(string \<times> dir_item) list"
type_synonym trust_store = "string \<rightharpoonup> dir"

datatype os_call =
    OsMkdirAll string
  | OsReadDir string
  | OsReadFile string string
  | OsWriteFile string string
  | OsRename string string string
  | OsRemove string string

record trust_env =
  te_pki :: pki_env
  te_fault :: "os_call \<Rightarrow> err option"
  te_now :: time
  te_add_days :: "int \<Rightarrow> time \<Rightarrow> time"

definition trustedCertsDir :: string where "trustedCertsDir = ''trusted/certs''"
definition rejectedCertsDir :: string where "rejectedCertsDir = ''rejected/certs''"
definition issuersCertsDir :: string where "issuersCertsDir = ''issuers/certs''"
definition ownCertDir :: string where "ownCertDir = ''own''"
definition ownPrivateDir :: string where "ownPrivateDir = ''own/private''"

fun put_file :: "string \<Rightarrow> dir_item \<Rightarrow> dir \<Rightarrow> dir" where
  "put_file n x [] = [(n, x)]"
| "put_file n x ((m, y) # es) =
     (if m = n then (n, x) # es
      else if n < m then (n, x) # (m, y) # es
      else (m, y) # put_file n x es)"

definition drop_file :: "string \<Rightarrow> dir \<Rightarrow> dir" where
  "drop_file n es = filter (\<lambda>e. fst e \<noteq> n) es"

definition ReadDir :: "trust_env \<Rightarrow> trust_store \<Rightarrow> string \<Rightarrow> err + dir" where
  "ReadDir env ts d = (case te_fault env (OsReadDir d) of
       Some e \<Rightarrow> Inl e
     | None \<Rightarrow> (case ts d of None \<Rightarrow> Inl (Plain ''no such file or directory'') | Some es \<Rightarrow> Inr es))"

definition WriteFile :: "trust_env \<Rightarrow> string \<Rightarrow> string \<Rightarrow> bytes \<Rightarrow> trust_store \<Rightarrow> err option \<times> trust_store" where
  "WriteFile env d n bs ts = (case te_fault env (OsWriteFile d n) of
       Some e \<Rightarrow> (Some e, ts)
     | None \<Rightarrow> (case ts d of
           None \<Rightarrow> (Some (Plain ''no such file or directory''), ts)
         | Some es \<Rightarrow> if map_of es n = Some Subdirectory then (Some (Plain ''is a directory''), ts)
             else (None, ts(d \<mapsto> put_file n (RegularFile bs) es))))"

text \<open>\<open>os.Rename\<close> of a file to the same name in another directory, and \<open>os.Remove\<close>.\<close>

definition Rename :: "trust_env \<Rightarrow> string \<Rightarrow> string \<Rightarrow> string \<times> dir_item \<Rightarrow> trust_store \<Rightarrow> err option \<times> trust_store" where
  "Rename env src dst e ts = (case te_fault env (OsRename src dst (fst e)) of
       Some x \<Rightarrow> (Some x, ts)
     | None \<Rightarrow> (case (ts src, ts dst) of
           (Some es, Some ds) \<Rightarrow>
             if map_of ds (fst e) = Some Subdirectory then (Some (Plain ''file exists''), ts)
             else (None, ts(src \<mapsto> drop_file (fst e) es, dst \<mapsto> put_file (fst e) (snd e) ds))
         | _ \<Rightarrow> (Some (Plain ''no such file or directory''), ts)))"

definition Remove :: "trust_env \<Rightarrow> string \<Rightarrow> string \<Rightarrow> trust_store \<Rightarrow> err option \<times> trust_store" where
  "Remove env d n ts = (case te_fault env (OsRemove d n) of
       Some e \<Rightarrow> (Some e, ts)
     | None \<Rightarrow> (case ts d of
           None \<Rightarrow> (Some (Plain ''no such file or directory''), ts)
         | Some es \<Rightarrow> (None, ts(d \<mapsto> drop_file n es))))"

fun mkdirs :: "trust_env \<Rightarrow> string list \<Rightarrow> trust_store \<Rightarrow> err option \<times> trust_store" where
  "mkdirs env [] ts = (None, ts)"
| "mkdirs env (d # ds) ts = (case te_fault env (OsMkdirAll d) of
       Some e \<Rightarrow> (Some (WrapPre (''failed to create directory '' @ d @ '': '') e), ts)
     | None \<Rightarrow> mkdirs env ds (if ts d = None then ts(d \<mapsto> []) else ts))"

definition EnsureDirectories :: "trust_env \<Rightarrow> trust_store \<Rightarrow> err option \<times> trust_store" where
  "EnsureDirectories env ts =
     mkdirs env [trustedCertsDir, rejectedCertsDir, issuersCertsDir, ownCertDir, ownPrivateDir] ts"

definition NewTrustStore :: "trust_env \<Rightarrow> trust_store \<Rightarrow> err option \<times> trust_store" where
  "NewTrustStore env ts = (case EnsureDirectories env ts of
       (Some e, ts1) \<Rightarrow> (Some (WrapPre ''failed to create PKI directories: '' e), ts1)
     | (None, ts1) \<Rightarrow> (None, ts1))"

section \<open>Fingerprints and file names\<close>

definition hex_digit :: "nat \<Rightarrow> char" where
  "hex_digit d = (if d < 10 then char_of (48 + d) else char_of (87 + d))"

definition hex_of :: "bytes \<Rightarrow> string" where
  "hex_of bs = concat (map (\<lambda>b. [hex_digit (unat b div 16), hex_digit (unat b mod 16)]) bs)"

definition calculateFingerprint :: "trust_env \<Rightarrow> x509_cert \<Rightarrow> string" where
  "calculateFingerprint env c = ''sha256:'' @ hex_of (pe_sha256 (te_pki env) (x_Raw c))"

definition normalizeFingerprint :: "string \<Rightarrow> string" where
  "normalizeFingerprint fp =
     (let f = map to_lower fp in if has_prefix f ''sha256:'' then f else ''sha256:'' @ f)"

text \<open>The slice \<open>fingerprint[7:15]\<close> panics on a shorter text.\<close>

definition certFilename :: "x509_cert \<Rightarrow> string \<Rightarrow> string res" where
  "certFilename c fingerprint =
     (let name = (if x_CommonName c = [] then x_SerialNumber c else x_CommonName c);
          safe = map (\<lambda>ch. if ch = CHR '' '' \<or> ch = CHR ''/'' \<or> ch = CHR 0x5C then CHR ''_'' else ch) name
      in if length fingerprint < 15 then Panic
         else Ok (safe @ ''_'' @ take 8 (drop 7 fingerprint) @ ''.der''))"

section \<open>Looking certificates up\<close>

definition readCert :: "pki_env \<Rightarrow> bytes \<Rightarrow> err + x509_cert" where
  "readCert pki bs = (case pe_pem pki bs of
       Some (ty, block) \<Rightarrow> if ty = ''CERTIFICATE'' then pe_cert pki block else pe_cert pki bs
     | None \<Rightarrow> pe_cert pki bs)"

definition entry_cert :: "trust_env \<Rightarrow> string \<Rightarrow> string \<times> dir_item \<Rightarrow> x509_cert option" where
  "entry_cert env d e = (case snd e of
       Subdirectory \<Rightarrow> None
     | RegularFile bs \<Rightarrow>
         (case te_fault env (OsReadFile d (fst e)) of
            Some x \<Rightarrow> None
          | None \<Rightarrow> (case readCert (te_pki env) bs of Inl x \<Rightarrow> None | Inr c \<Rightarrow> Some c)))"

definition has_fingerprint :: "trust_env \<Rightarrow> string \<Rightarrow> string \<Rightarrow> string \<times> dir_item \<Rightarrow> bool" where
  "has_fingerprint env d fp e = (case entry_cert env d e of
       None \<Rightarrow> False | Some c \<Rightarrow> calculateFingerprint env c = fp)"

definition in_dir :: "trust_env \<Rightarrow> trust_store \<Rightarrow> string \<Rightarrow> x509_cert \<Rightarrow> bool" where
  "in_dir env ts d c = (case ReadDir env ts d of
       Inl e \<Rightarrow> False
     | Inr es \<Rightarrow> list_ex (has_fingerprint env d (calculateFingerprint env c)) es)"

definition IsTrusted :: "trust_env \<Rightarrow> trust_store \<Rightarrow> x509_cert \<Rightarrow> bool" where
  "IsTrusted env ts c = in_dir env ts trustedCertsDir c"

definition IsRejected :: "trust_env \<Rightarrow> trust_store \<Rightarrow> x509_cert \<Rightarrow> bool" where
  "IsRejected env ts c = in_dir env ts rejectedCertsDir c"

section \<open>Changing the store\<close>

definition store_cert :: "trust_env \<Rightarrow> string \<Rightarrow> string \<Rightarrow> x509_cert \<Rightarrow> trust_store \<Rightarrow> unit res \<times> trust_store" where
  "store_cert env d what c ts = (case certFilename c (calculateFingerprint env c) of
       Panic \<Rightarrow> (Panic, ts)
     | Err e \<Rightarrow> (Err e, ts)
     | Ok n \<Rightarrow> (case WriteFile env d n (x_Raw c) ts of
           (Some e, ts1) \<Rightarrow> (Err (WrapPre (''failed to write '' @ what @ '' cert: '') e), ts1)
         | (None, ts1) \<Rightarrow> (Ok (), ts1)))"

definition AddTrustedCert :: "trust_env \<Rightarrow> x509_cert \<Rightarrow> trust_store \<Rightarrow> unit res \<times> trust_store" where
  "AddTrustedCert env = store_cert env trustedCertsDir ''trusted''"

definition RejectCert :: "trust_env \<Rightarrow> x509_cert \<Rightarrow> trust_store \<Rightarrow> unit res \<times> trust_store" where
  "RejectCert env = store_cert env rejectedCertsDir ''rejected''"

definition PromoteCert :: "trust_env \<Rightarrow> string \<Rightarrow> trust_store \<Rightarrow> err option \<times> trust_store" where
  "PromoteCert env fingerprint ts =
     (let fp = normalizeFingerprint fingerprint in
      case ReadDir env ts rejectedCertsDir of
        Inl e \<Rightarrow> (Some (WrapPre ''failed to read rejected certs: '' e), ts)
      | Inr es \<Rightarrow>
          (case find (has_fingerprint env rejectedCertsDir fp) es of
             None \<Rightarrow> (Some (Plain (''certificate with fingerprint '' @ fp @ '' not found in rejected store'')), ts)
           | Some e \<Rightarrow>
               (case Rename env rejectedCertsDir trustedCertsDir e ts of
                  (Some x, ts1) \<Rightarrow> (Some (WrapPre ''failed to move cert to trusted: '' x), ts1)
                | (None, ts1) \<Rightarrow> (None, ts1))))"

definition RemoveTrustedCert :: "trust_env \<Rightarrow> string \<Rightarrow> trust_store \<Rightarrow> err option \<times> trust_store" where
  "RemoveTrustedCert env fingerprint ts =
     (let fp = normalizeFingerprint fingerprint in
      case ReadDir env ts trustedCertsDir of
        Inl e \<Rightarrow> (Some (WrapPre ''failed to read trusted certs: '' e), ts)
      | Inr es \<Rightarrow>
          (case find (has_fingerprint env trustedCertsDir fp) es of
             None \<Rightarrow> (Some (Plain (''certificate with fingerprint '' @ fp @ '' not found in trusted store'')), ts)
           | Some e \<Rightarrow>
               (case Remove env trustedCertsDir (fst e) ts of
                  (Some x, ts1) \<Rightarrow> (Some (WrapPre ''failed to remove cert: '' x), ts1)
                | (None, ts1) \<Rightarrow> (None, ts1))))"

section \<open>Listing\<close>

record cert_listing =
  cl_Fingerprint :: string
  cl_Subject :: string
  cl_Issuer :: string
  cl_SerialNumber :: string
  cl_NotBefore :: time
  cl_NotAfter :: time
  cl_DaysUntilExpiry :: u64
  cl_IsExpired :: bool
  cl_IsCA :: bool
  cl_Filename :: string

text \<open>\<open>Duration.Hours\<close>, and \<open>int(d.Hours() / 24)\<close>.\<close>

abbreviation hour :: duration where "hour \<equiv> 3600 * second"

definition hours :: "duration \<Rightarrow> u64" where
  "hours d = (let h = sgn d * (\<bar>d\<bar> div hour) in
     f64_add (f64_of_int h) (f64_div (f64_of_int (d - h * hour)) (f64_of_int hour)))"

definition days_until :: "arch \<Rightarrow> duration \<Rightarrow> u64" where
  "days_until ar d = fp_to_i64 ar (f64_dec (f64_div (hours d) (f64_of_int 24)))"

definition listing_of :: "arch \<Rightarrow> trust_env \<Rightarrow> string \<Rightarrow> x509_cert \<Rightarrow> cert_listing" where
  "listing_of ar env n c = \<lparr>cl_Fingerprint = calculateFingerprint env c, cl_Subject = x_Subject c,
     cl_Issuer = x_Issuer c, cl_SerialNumber = x_SerialNumber c, cl_NotBefore = x_NotBefore c,
     cl_NotAfter = x_NotAfter c,
     cl_DaysUntilExpiry = days_until ar (time_sub (x_NotAfter c) (te_now env)),
     cl_IsExpired = (x_NotAfter c < te_now env), cl_IsCA = x_IsCA c, cl_Filename = n\<rparr>"

text \<open>A directory that does not exist lists as empty.\<close>

definition listCertsInDir :: "arch \<Rightarrow> trust_env \<Rightarrow> trust_store \<Rightarrow> string \<Rightarrow> err + cert_listing list" where
  "listCertsInDir ar env ts d =
     (if te_fault env (OsReadDir d) = None \<and> ts d = None then Inr []
      else case ReadDir env ts d of
        Inl e \<Rightarrow> Inl (WrapPre ''failed to read directory: '' e)
      | Inr es \<Rightarrow> Inr (List.map_filter (\<lambda>e. map_option (listing_of ar env (fst e)) (entry_cert env d e)) es))"

definition ListTrustedCerts :: "arch \<Rightarrow> trust_env \<Rightarrow> trust_store \<Rightarrow> err + cert_listing list" where
  "ListTrustedCerts ar env ts = listCertsInDir ar env ts trustedCertsDir"

definition ListRejectedCerts :: "arch \<Rightarrow> trust_env \<Rightarrow> trust_store \<Rightarrow> err + cert_listing list" where
  "ListRejectedCerts ar env ts = listCertsInDir ar env ts rejectedCertsDir"

definition GetExpiringCerts :: "arch \<Rightarrow> trust_env \<Rightarrow> trust_store \<Rightarrow> int \<Rightarrow> err + cert_listing list" where
  "GetExpiringCerts ar env ts days = (case ListTrustedCerts ar env ts of
       Inl e \<Rightarrow> Inl e
     | Inr all \<Rightarrow> Inr (filter (\<lambda>i. cl_NotAfter i < te_add_days env days (te_now env)) all))"

section \<open>Server certificates\<close>

definition rejected_error :: "trust_env \<Rightarrow> x509_cert \<Rightarrow> err" where
  "rejected_error env c = Plain (''server certificate is in rejected store (fingerprint: ''
     @ calculateFingerprint env c @ '', subject: '' @ x_Subject c @ '')'')"

definition untrusted_error :: "trust_env \<Rightarrow> x509_cert \<Rightarrow> err" where
  "untrusted_error env c = Plain (''untrusted server certificate (fingerprint: ''
     @ calculateFingerprint env c @ '', subject: '' @ x_Subject c
     @ '') -- use /api/opcua/certificates/trust to approve'')"

definition ValidateServerCertificate ::
  "trust_env \<Rightarrow> bytes \<Rightarrow> bool \<Rightarrow> trust_store \<Rightarrow> unit res \<times> trust_store" where
  "ValidateServerCertificate env certBytes autoTrust ts =
     (if length certBytes = 0 then (Ok (), ts)
      else case pe_cert (te_pki env) certBytes of
        Inl e \<Rightarrow> (Err (WrapPre ''failed to parse server certificate: '' e), ts)
      | Inr c \<Rightarrow>
          if IsTrusted env ts c then (Ok (), ts)
          else if IsRejected env ts c then (Err (rejected_error env c), ts)
          else if autoTrust then
            (case AddTrustedCert env c ts of (Panic, ts1) \<Rightarrow> (Panic, ts1) | (_, ts1) \<Rightarrow> (Ok (), ts1))
          else
            (case RejectCert env c ts of (Panic, ts1) \<Rightarrow> (Panic, ts1)
             | (_, ts1) \<Rightarrow> (Err (untrusted_error env c), ts1)))"
section \<open>Facts\<close>

lemma set_put_file: "set (put_file n x es) \<subseteq> insert (n, x) (set es)" "(n, x) \<in> set (put_file n x es)"
  by (induction n x es rule: put_file.induct) auto

lemma find_put_file:
  "P (n, x) \<Longrightarrow> \<forall>e\<in>set es. \<not> P e \<Longrightarrow> find P (put_file n x es) = Some (n, x)"
  by (induction n x es rule: put_file.induct) auto

lemma to_lower_hex_digit: "d < 16 \<Longrightarrow> to_lower (hex_digit d) = hex_digit d"
  by (auto simp: to_lower_def hex_digit_def Let_def)

lemma to_lower_hex: "map to_lower (hex_of bs) = hex_of bs"
proof -
  have "unat b div 16 < 16" for b :: byte
  proof -
    have "unat b < 2 ^ LENGTH(8)" by (rule unsigned_less)
    then show ?thesis by (simp add: less_mult_imp_div_less)
  qed
  then show ?thesis
    by (induction bs) (auto simp: hex_of_def to_lower_hex_digit)
qed

lemma length_hex_of: "length (hex_of bs) = 2 * length bs"
  by (induction bs) (simp_all add: hex_of_def)

lemma has_prefix_append [simp]: "has_prefix (p @ s) p"
  by (induction p) simp_all

lemma normalize_fingerprint [simp]: "normalizeFingerprint (calculateFingerprint env c) = calculateFingerprint env c"
proof -
  have "map to_lower ''sha256:'' = ''sha256:''" by (simp add: to_lower_def)
  then show ?thesis
    unfolding normalizeFingerprint_def calculateFingerprint_def Let_def map_append to_lower_hex
    by (simp del: append_Cons append_Nil)
qed

definition hash_ok :: "trust_env \<Rightarrow> bool" where
  "hash_ok env \<longleftrightarrow> (\<forall>bs. length (pe_sha256 (te_pki env) bs) = 32)"

lemma certFilename_Ok: "hash_ok env \<Longrightarrow> \<exists>n. certFilename c (calculateFingerprint env c) = Ok n"
  by (simp add: certFilename_def calculateFingerprint_def length_hex_of hash_ok_def Let_def)

lemma WriteFile_frame: "d' \<noteq> d \<Longrightarrow> snd (WriteFile env d n bs ts) d' = ts d'"
  by (simp add: WriteFile_def split: option.splits)

lemma store_cert_frame: "d' \<noteq> d \<Longrightarrow> snd (store_cert env d w c ts) d' = ts d'"
  using WriteFile_frame [of d' d env]
  by (auto simp: store_cert_def split: outcome.splits prod.splits option.splits) (metis snd_conv)+

lemma store_cert_no_panic: "hash_ok env \<Longrightarrow> fst (store_cert env d w c ts) \<noteq> Panic"
  using certFilename_Ok [of env c] by (auto simp: store_cert_def split: prod.splits option.splits)

lemma dirs_differ [simp]: "trustedCertsDir \<noteq> rejectedCertsDir" "rejectedCertsDir \<noteq> trustedCertsDir"
  by (simp_all add: trustedCertsDir_def rejectedCertsDir_def)

lemma in_dir_cong: "ts d = ts' d \<Longrightarrow> in_dir env ts d c = in_dir env ts' d c"
  by (simp add: in_dir_def ReadDir_def split: option.split)

section \<open>Properties\<close>

text \<open>
  C30: A server certificate is accepted exactly when it is empty, or can be parsed and is in the trusted
  directory, or auto-trust is on and it is not in the rejected directory; a rejected certificate is never
  auto-trusted, and without auto-trust validation adds nothing to the trusted directory.
\<close>

theorem certificate_accepted_iff:
  assumes "hash_ok env"
  shows "(fst (ValidateServerCertificate env bs autoTrust ts) = Ok () \<longleftrightarrow>
      bs = [] \<or> (\<exists>c. pe_cert (te_pki env) bs = Inr c
                     \<and> (IsTrusted env ts c \<or> autoTrust \<and> \<not> IsRejected env ts c)))
    \<and> (\<not> autoTrust \<longrightarrow> snd (ValidateServerCertificate env bs autoTrust ts) trustedCertsDir = ts trustedCertsDir)"
proof (cases "pe_cert (te_pki env) bs")
  case (Inl e)
  then show ?thesis by (simp add: ValidateServerCertificate_def)
next
  case (Inr c)
  have "fst (AddTrustedCert env c ts) \<noteq> Panic" "fst (RejectCert env c ts) \<noteq> Panic"
    using store_cert_no_panic [OF assms] by (simp_all add: AddTrustedCert_def RejectCert_def)
  moreover have "snd (RejectCert env c ts) trustedCertsDir = ts trustedCertsDir"
    by (simp add: RejectCert_def store_cert_frame)
  ultimately show ?thesis
    using Inr by (auto simp: ValidateServerCertificate_def split: outcome.splits prod.splits)
qed

text \<open>A store in which every call works and the two directories can take the certificate's file.\<close>

definition store_ready :: "trust_env \<Rightarrow> trust_store \<Rightarrow> x509_cert \<Rightarrow> bool" where
  "store_ready env ts c \<longleftrightarrow> te_fault env = (\<lambda>call. None) \<and> hash_ok env
     \<and> readCert (te_pki env) (x_Raw c) = Inr c
     \<and> (\<exists>tr rj. ts trustedCertsDir = Some tr \<and> ts rejectedCertsDir = Some rj
         \<and> (\<forall>n. certFilename c (calculateFingerprint env c) = Ok n \<longrightarrow>
              map_of tr n \<noteq> Some Subdirectory \<and> map_of rj n \<noteq> Some Subdirectory))"

lemma rejected_file:
  assumes ready: "store_ready env ts c" and new: "\<not> IsRejected env ts c"
  obtains n rj where "ts rejectedCertsDir = Some rj"
    "certFilename c (calculateFingerprint env c) = Ok n"
    "RejectCert env c ts = (Ok (), ts(rejectedCertsDir \<mapsto> put_file n (RegularFile (x_Raw c)) rj))"
    "find (has_fingerprint env rejectedCertsDir (calculateFingerprint env c))
        (put_file n (RegularFile (x_Raw c)) rj) = Some (n, RegularFile (x_Raw c))"
proof -
  obtain rj where rj: "ts rejectedCertsDir = Some rj" using ready by (auto simp: store_ready_def)
  obtain n where n: "certFilename c (calculateFingerprint env c) = Ok n"
    using ready certFilename_Ok [of env c] by (auto simp: store_ready_def)
  have "has_fingerprint env rejectedCertsDir (calculateFingerprint env c) (n, RegularFile (x_Raw c))"
    using ready by (simp add: has_fingerprint_def entry_cert_def store_ready_def)
  moreover have "\<forall>e\<in>set rj. \<not> has_fingerprint env rejectedCertsDir (calculateFingerprint env c) e"
    using new rj ready by (auto simp: IsRejected_def in_dir_def ReadDir_def list_ex_iff store_ready_def)
  ultimately have "find (has_fingerprint env rejectedCertsDir (calculateFingerprint env c))
      (put_file n (RegularFile (x_Raw c)) rj) = Some (n, RegularFile (x_Raw c))"
    by (rule find_put_file)
  moreover have "RejectCert env c ts = (Ok (), ts(rejectedCertsDir \<mapsto> put_file n (RegularFile (x_Raw c)) rj))"
    using ready rj n by (auto simp: RejectCert_def store_cert_def WriteFile_def store_ready_def)
  ultimately show thesis using that rj n by blast
qed

text \<open>
  An unknown server certificate is refused and remembered: every later validation refuses it, even
  with auto-trust on, and changes nothing, until an operator promotes it by its fingerprint; from then on
  every validation accepts it.
\<close>

theorem rejected_until_promoted:
  assumes ready: "store_ready env ts c" and bs: "bs \<noteq> []" "pe_cert (te_pki env) bs = Inr c"
    and new: "\<not> IsTrusted env ts c" "\<not> IsRejected env ts c"
  shows "\<exists>ts1 ts2. ValidateServerCertificate env bs False ts = (Err (untrusted_error env c), ts1)
    \<and> (\<forall>auto. ValidateServerCertificate env bs auto ts1 = (Err (rejected_error env c), ts1))
    \<and> PromoteCert env (calculateFingerprint env c) ts1 = (None, ts2)
    \<and> (\<forall>auto. ValidateServerCertificate env bs auto ts2 = (Ok (), ts2))"
proof -
  let ?fp = "calculateFingerprint env c" and ?f = "RegularFile (x_Raw c)"
  obtain n rj where rj: "ts rejectedCertsDir = Some rj" and n: "certFilename c ?fp = Ok n"
    and rej: "RejectCert env c ts = (Ok (), ts(rejectedCertsDir \<mapsto> put_file n ?f rj))"
    and f: "find (has_fingerprint env rejectedCertsDir ?fp) (put_file n ?f rj) = Some (n, ?f)"
    by (rule rejected_file [OF ready new(2)])
  obtain tr where tr: "ts trustedCertsDir = Some tr" "map_of tr n \<noteq> Some Subdirectory"
    using ready n by (auto simp: store_ready_def)
  have ok: "te_fault env call = None" for call using ready by (simp add: store_ready_def)
  define ts1 where "ts1 = ts(rejectedCertsDir \<mapsto> put_file n ?f rj)"
  define ts2 where "ts2 = ts1(rejectedCertsDir \<mapsto> drop_file n (put_file n ?f rj),
    trustedCertsDir \<mapsto> put_file n ?f tr)"
  have "ValidateServerCertificate env bs False ts = (Err (untrusted_error env c), ts1)"
    using bs new rej by (simp add: ValidateServerCertificate_def ts1_def)
  moreover have "\<not> IsTrusted env ts1 c"
    using new(1) in_dir_cong [of ts1 trustedCertsDir ts env c] by (simp add: IsTrusted_def ts1_def)
  moreover have "IsRejected env ts1 c"
    using f ok by (auto simp: IsRejected_def in_dir_def ReadDir_def ts1_def list_ex_iff find_Some_iff)
  moreover have "PromoteCert env ?fp ts1 = (None, ts2)"
    using f ok tr by (simp add: PromoteCert_def ReadDir_def Rename_def ts1_def ts2_def)
  moreover have "IsTrusted env ts2 c"
  proof -
    have "has_fingerprint env trustedCertsDir ?fp (n, ?f)"
      using ready by (simp add: has_fingerprint_def entry_cert_def store_ready_def)
    then show ?thesis
      using ok set_put_file(2) [of n ?f tr]
      by (auto simp: IsTrusted_def in_dir_def ReadDir_def ts2_def list_ex_iff)
  qed
  ultimately show ?thesis
    using bs by (intro exI [of _ ts1] exI [of _ ts2]) (simp add: ValidateServerCertificate_def)
qed

definition sample_cert :: x509_cert where
  "sample_cert = \<lparr>x_Raw = [7], x_Subject = ''CN=plc'', x_CommonName = ''plc'', x_Issuer = [],
     x_SerialNumber = ''1'', x_NotBefore = 0, x_NotAfter = 0, x_IsCA = False, x_KeyUsage = 0\<rparr>"

definition sample_trust_env :: trust_env where
  "sample_trust_env = \<lparr>te_pki = sample_pki\<lparr>pe_pem := (\<lambda>bs. None), pe_cert := (\<lambda>bs. Inr sample_cert)\<rparr>,
     te_fault = (\<lambda>call. None), te_now = 0, te_add_days = (\<lambda>d t. t + d * 24 * hour)\<rparr>"

definition empty_store :: trust_store where
  "empty_store = [trustedCertsDir \<mapsto> [], rejectedCertsDir \<mapsto> []]"

lemma sample_ready: "store_ready sample_trust_env empty_store sample_cert"
  by (simp add: store_ready_def sample_trust_env_def hash_ok_def sample_pki_def readCert_def empty_store_def
      sample_cert_def)

theorem certificate_accepted_iff_witness:
  "fst (ValidateServerCertificate sample_trust_env [7] False empty_store) \<noteq> Ok ()"
  using certificate_accepted_iff [of sample_trust_env "[7]" False empty_store] sample_ready
  by (simp add: store_ready_def IsTrusted_def in_dir_def ReadDir_def empty_store_def)

theorem rejected_until_promoted_witness:
  "\<exists>ts1 ts2. ValidateServerCertificate sample_trust_env [7] False empty_store
      = (Err (untrusted_error sample_trust_env sample_cert), ts1)
    \<and> PromoteCert sample_trust_env (calculateFingerprint sample_trust_env sample_cert) ts1 = (None, ts2)
    \<and> ValidateServerCertificate sample_trust_env [7] False ts2 = (Ok (), ts2)"
  using rejected_until_promoted [OF sample_ready, of "[7]"]
  by (force simp: IsTrusted_def IsRejected_def in_dir_def ReadDir_def empty_store_def sample_trust_env_def)


end
