(* ===== verification/Opcua_Client.thy ===== *)
theory Opcua_Client
  imports Opcua_Trust "HOL-Library.AList"
begin

text \<open>
  \<open>internal/adapter/opcua/client.go\<close> and its types of \<open>types.go\<close>: one OPC UA client, its connection with
  the choice of an endpoint and the check of the server's certificate, the resolution and caching of
  node IDs, single and batched reads and writes.  The OPC UA library, the clock, the context, the
  random numbers and the files are the parameter \<open>ops\<close>, acting on a world of any type \<open>'w\<close>; \<open>'n\<close> is
  the library's type of node IDs.  A client operation is atomic, so the lock that \<open>reconnect\<close> tries is
  free.
\<close>

section \<open>The world a client acts on\<close>

text \<open>What is sent to write one node; \<open>ua.DataValueValue\<close> is bit 0 of the mask.\<close>

record 'n write_value =
  wv_NodeID :: 'n
  wv_EncodingMask :: byte
  wv_Value :: goval
  wv_SourceTimestamp :: "time option"

abbreviation DataValueValue :: byte where "DataValueValue \<equiv> 1"

text \<open>
  \<open>uo_order\<close> is the order in which Go iterates over the node cache, \<open>uo_store\<close> the files of the trust
  store, \<open>uo_GetEndpoints\<close> and \<open>uo_Connect\<close> get the time they may take.
\<close>

record ('w, 'n) opc_ops =
  uo_now :: "'w \<Rightarrow> time"
  uo_rand :: "int \<Rightarrow> 'w \<Rightarrow> int \<times> 'w"
  uo_wait :: "duration \<Rightarrow> 'w \<Rightarrow> err option \<times> 'w"
  uo_values :: ua_values
  uo_order :: "string list \<Rightarrow> 'w \<Rightarrow> string list"
  uo_pki :: "'w \<Rightarrow> pki_env"
  uo_trust_env :: "'w \<Rightarrow> trust_env"
  uo_store :: "'w \<Rightarrow> trust_store"
  uo_put_store :: "trust_store \<Rightarrow> 'w \<Rightarrow> 'w"
  uo_GetEndpoints :: "string \<Rightarrow> duration \<Rightarrow> 'w \<Rightarrow> (err + endpoint list) \<times> 'w"
  uo_NewClient :: "string \<Rightarrow> client_option list \<Rightarrow> 'w \<Rightarrow> err option \<times> 'w"
  uo_Connect :: "duration \<Rightarrow> 'w \<Rightarrow> err option \<times> 'w"
  uo_Close :: "'w \<Rightarrow> 'w"
  uo_NamespaceArray :: "'w \<Rightarrow> (err + string list) \<times> 'w"
  uo_ParseNodeID :: "string \<Rightarrow> err + 'n"
  uo_ParseExpandedNodeID :: "string \<Rightarrow> string list \<Rightarrow> err + 'n"
  uo_Read :: "'n list \<Rightarrow> 'w \<Rightarrow> (err + data_value list) \<times> 'w"
  uo_Write :: "'n write_value list \<Rightarrow> 'w \<Rightarrow> (err + u32 list) \<times> 'w"

section \<open>The client's state\<close>

datatype session_state = SessionStateDisconnected | SessionStateConnecting | SessionStateSecureChannel
  | SessionStateActive | SessionStateError

record opc_stats =
  us_ReadCount :: nat
  us_WriteCount :: nat
  us_ErrorCount :: nat
  us_RetryCount :: nat
  us_SubscribeCount :: nat
  us_NotificationCount :: nat
  us_TotalReadTime :: int
  us_TotalWriteTime :: int

record 'n opc_client =
  ul_config :: opc_config
  ul_client :: bool
  ul_connected :: bool
  ul_sessionState :: session_state
  ul_lastError :: "err option"
  ul_lastUsed :: time
  ul_stats :: opc_stats
  ul_deviceID :: string
  ul_nodeCache :: "(string \<times> 'n) list"
  ul_namespaceMap :: "string \<rightharpoonup> u16"
  ul_namespaceArray :: "string list"
  ul_consecutiveFailures :: nat
  ul_trustStore :: bool
  ul_autoTrust :: bool

type_synonym ('w, 'n) opc_state = "'n opc_client \<times> 'w"

definition zero_opc_stats :: opc_stats where
  "zero_opc_stats = \<lparr>us_ReadCount = 0, us_WriteCount = 0, us_ErrorCount = 0, us_RetryCount = 0,
     us_SubscribeCount = 0, us_NotificationCount = 0, us_TotalReadTime = 0, us_TotalWriteTime = 0\<rparr>"

definition opc_or_default :: "'a \<Rightarrow> 'a \<Rightarrow> 'a \<Rightarrow> 'a" where
  "opc_or_default zero x d = (if x = zero then d else x)"

definition opc_defaults :: "opc_config \<Rightarrow> opc_config" where
  "opc_defaults config = config\<lparr>
     oc_Timeout := opc_or_default 0 (oc_Timeout config) (10 * second),
     oc_KeepAlive := opc_or_default 0 (oc_KeepAlive config) (30 * second),
     oc_MaxRetries := opc_or_default 0 (oc_MaxRetries config) 3,
     oc_RetryDelay := opc_or_default 0 (oc_RetryDelay config) (500 * millisecond),
     oc_RequestTimeout := opc_or_default 0 (oc_RequestTimeout config) (5 * second),
     oc_SessionTimeout := opc_or_default 0 (oc_SessionTimeout config) (30 * 60 * second),
     oc_SecurityPolicy := opc_or_default [] (oc_SecurityPolicy config) ''None'',
     oc_SecurityMode := opc_or_default [] (oc_SecurityMode config) ''None'',
     oc_AuthMode := opc_or_default [] (oc_AuthMode config) ''Anonymous'',
     oc_PublishingInterval := opc_or_default 0 (oc_PublishingInterval config) (1 * second),
     oc_SamplingInterval := opc_or_default 0 (oc_SamplingInterval config) (500 * millisecond),
     oc_QueueSize := opc_or_default 0 (oc_QueueSize config) 10\<rparr>"

definition opc_NewClient :: "time \<Rightarrow> string \<Rightarrow> opc_config \<Rightarrow> 'n opc_client res" where
  "opc_NewClient now deviceID config =
     (if oc_EndpointURL config = [] then Err (Plain ''OPC UA endpoint URL is required'')
      else Ok \<lparr>ul_config = opc_defaults config, ul_client = False, ul_connected = False,
        ul_sessionState = SessionStateDisconnected, ul_lastError = None, ul_lastUsed = now,
        ul_stats = zero_opc_stats, ul_deviceID = deviceID, ul_nodeCache = [],
        ul_namespaceMap = Map.empty, ul_namespaceArray = [], ul_consecutiveFailures = 0,
        ul_trustStore = False, ul_autoTrust = False\<rparr>)"

abbreviation opc_upd :: "(opc_stats \<Rightarrow> opc_stats) \<Rightarrow> 'n opc_client \<Rightarrow> 'n opc_client" where
  "opc_upd f c \<equiv> c\<lparr>ul_stats := f (ul_stats c)\<rparr>"

definition opc_count_error :: "'n opc_client \<Rightarrow> 'n opc_client" where
  "opc_count_error c = opc_upd (\<lambda>s. s\<lparr>us_ErrorCount := us_ErrorCount s + 1\<rparr>) c"

definition opc_count_reads :: "nat \<Rightarrow> 'n opc_client \<Rightarrow> 'n opc_client" where
  "opc_count_reads n c = opc_upd (\<lambda>s. s\<lparr>us_ReadCount := us_ReadCount s + n\<rparr>) c"

definition opc_count_write :: "'n opc_client \<Rightarrow> 'n opc_client" where
  "opc_count_write c = opc_upd (\<lambda>s. s\<lparr>us_WriteCount := us_WriteCount s + 1\<rparr>) c"

definition opc_add_failure :: "'n opc_client \<Rightarrow> 'n opc_client" where
  "opc_add_failure c = c\<lparr>ul_consecutiveFailures := ul_consecutiveFailures c + 1\<rparr>"

definition opc_reset_failures :: "'n opc_client \<Rightarrow> 'n opc_client" where
  "opc_reset_failures c = c\<lparr>ul_consecutiveFailures := 0\<rparr>"

definition opc_map :: "(time \<Rightarrow> 'n opc_client \<Rightarrow> 'n opc_client) \<Rightarrow> ('w, 'n) opc_ops
     \<Rightarrow> ('w, 'n) opc_state \<Rightarrow> ('w, 'n) opc_state" where
  "opc_map f ops st = (f (uo_now ops (snd st)) (fst st), snd st)"

definition opc_touch :: "('w, 'n) opc_ops \<Rightarrow> ('w, 'n) opc_state \<Rightarrow> ('w, 'n) opc_state" where
  "opc_touch ops = opc_map (\<lambda>now c. c\<lparr>ul_lastUsed := now\<rparr>) ops"

section \<open>The namespace table\<close>

fun index_uris :: "nat \<Rightarrow> string list \<Rightarrow> (string \<rightharpoonup> u16) \<Rightarrow> (string \<rightharpoonup> u16)" where
  "index_uris i [] m = m"
| "index_uris i (u # us) m = index_uris (i + 1) us (m(u \<mapsto> of_nat i))"

definition updateNamespaceTable :: "('w, 'n) opc_ops \<Rightarrow> ('w, 'n) opc_state \<Rightarrow> err option \<times> ('w, 'n) opc_state" where
  "updateNamespaceTable ops st = (case st of (c, w) \<Rightarrow>
     if \<not> ul_client c then (Some (Plain ''client not connected''), st)
     else case uo_NamespaceArray ops w of
       (Inl e, w1) \<Rightarrow> (Some (WrapPre ''failed to fetch namespace array: '' e), (c, w1))
     | (Inr arr, w1) \<Rightarrow>
         (None, (c\<lparr>ul_namespaceArray := arr, ul_namespaceMap := index_uris 0 arr Map.empty\<rparr>, w1)))"

definition GetNamespaceArray :: "'n opc_client \<Rightarrow> string list" where
  "GetNamespaceArray c = ul_namespaceArray c"

definition RefreshNamespaceTable :: "('w, 'n) opc_ops \<Rightarrow> ('w, 'n) opc_state \<Rightarrow> err option \<times> ('w, 'n) opc_state" where
  "RefreshNamespaceTable ops st = updateNamespaceTable ops ((fst st)\<lparr>ul_nodeCache := []\<rparr>, snd st)"

section \<open>Connecting\<close>

text \<open>The options: with endpoint discovery only if it is enabled and succeeds.\<close>

definition connection_options ::
  "('w, 'n) opc_ops \<Rightarrow> security_config \<Rightarrow> ('w, 'n) opc_state \<Rightarrow> client_option list res \<times> 'w" where
  "connection_options ops sec st = (case st of (c, w) \<Rightarrow>
     (let config = ul_config c in
      if \<not> oc_AutoSelectEndpoint config then (Ok (BuildClientOptions sec), w)
      else case uo_GetEndpoints ops (oc_EndpointURL config) (oc_Timeout config) w of (found, w1) \<Rightarrow>
        (case DiscoverAndSelectEndpoint found config of
           Inl e \<Rightarrow> (Ok (BuildClientOptions sec), w1)
         | Inr ep \<Rightarrow>
             if ul_trustStore c \<and> 0 < length (ep_ServerCertificate ep) then
               (case ValidateServerCertificate (uo_trust_env ops w1) (ep_ServerCertificate ep) (ul_autoTrust c)
                       (uo_store ops w1) of
                  (r, ts) \<Rightarrow>
                    (bind_outcome r (\<lambda>u. Ok (BuildOptionsFromEndpoint ep sec)), uo_put_store ops ts w1))
             else (Ok (BuildOptionsFromEndpoint ep sec), w1))))"

text \<open>Creating the library's client and connecting it; a failed handshake closes it again.\<close>

definition dial ::
  "('w, 'n) opc_ops \<Rightarrow> client_option list \<Rightarrow> ('w, 'n) opc_state \<Rightarrow> unit res \<times> ('w, 'n) opc_state" where
  "dial ops opts st = (case st of (c, w) \<Rightarrow>
     case uo_NewClient ops (oc_EndpointURL (ul_config c)) opts w of
       (Some e, w1) \<Rightarrow> (Err (Wrap ErrConnectionFailed ('': failed to create client: '' @ err_text e)),
           (c\<lparr>ul_lastError := Some e\<rparr>, w1))
     | (None, w1) \<Rightarrow>
         (case uo_Connect ops (oc_Timeout (ul_config c)) w1 of
            (Some e, w2) \<Rightarrow> (Err (wrap_v ErrConnectionFailed e),
                (c\<lparr>ul_lastError := Some e, ul_sessionState := SessionStateError\<rparr>, uo_Close ops w2))
          | (None, w2) \<Rightarrow> (Ok (), snd (updateNamespaceTable ops
                (c\<lparr>ul_client := True, ul_connected := True, ul_sessionState := SessionStateActive,
                   ul_lastError := None, ul_lastUsed := uo_now ops w2, ul_consecutiveFailures := 0\<rparr>, w2)))))"

definition opc_Connect :: "('w, 'n) opc_ops \<Rightarrow> ('w, 'n) opc_state \<Rightarrow> unit res \<times> ('w, 'n) opc_state" where
  "opc_Connect ops st = (case st of (c, w) \<Rightarrow>
     if ul_connected c then (Ok (), st)
     else
       let c1 = c\<lparr>ul_sessionState := SessionStateConnecting\<rparr> in
       case ValidateSecurityConfig (uo_pki ops w) (ul_config c) of
         Inl e \<Rightarrow> (Err (Wrap ErrConnectionFailed ('': security configuration error: '' @ err_text e)),
             (c1\<lparr>ul_lastError := Some e, ul_sessionState := SessionStateError\<rparr>, w))
       | Inr sec \<Rightarrow>
           (case connection_options ops sec (c1, w) of
              (Panic, w1) \<Rightarrow> (Panic, (c1, w1))
            | (Err e, w1) \<Rightarrow> (Err (wrap_v ErrConnectionFailed e),
                (c1\<lparr>ul_lastError := Some e, ul_sessionState := SessionStateError\<rparr>, w1))
            | (Ok opts, w1) \<Rightarrow>
                dial ops (opts @ [OptRequestTimeout (oc_RequestTimeout (ul_config c)),
                                  OptSessionTimeout (oc_SessionTimeout (ul_config c))]) (c1, w1)))"

definition opc_Disconnect :: "('w, 'n) opc_ops \<Rightarrow> ('w, 'n) opc_state \<Rightarrow> ('w, 'n) opc_state" where
  "opc_Disconnect ops st = (case st of (c, w) \<Rightarrow>
     if \<not> ul_connected c then st
     else (c\<lparr>ul_connected := False, ul_sessionState := SessionStateDisconnected, ul_client := False,
             ul_nodeCache := [], ul_namespaceMap := Map.empty, ul_namespaceArray := []\<rparr>,
           if ul_client c then uo_Close ops w else w))"

definition opc_reconnect :: "('w, 'n) opc_ops \<Rightarrow> ('w, 'n) opc_state \<Rightarrow> ('w, 'n) opc_state" where
  "opc_reconnect ops st = (case st of (c, w) \<Rightarrow>
     if ul_connected c then st
     else snd (opc_Connect ops
            (opc_Disconnect ops (c\<lparr>ul_sessionState := SessionStateConnecting\<rparr>, w))))"

section \<open>Node IDs\<close>

definition maxNodeCacheSize :: nat where "maxNodeCacheSize = 50000"

text \<open>What follows the first semicolon (\<open>strings.Index\<close> and the slice after it).\<close>

fun after_semicolon :: "string \<Rightarrow> string option" where
  "after_semicolon [] = None"
| "after_semicolon (x # xs) = (if x = CHR '';'' then Some xs else after_semicolon xs)"

definition buildNodeIDWithNamespace :: "string \<Rightarrow> u16 \<Rightarrow> string" where
  "buildNodeIDWithNamespace s nsIndex =
     (let rest = (if has_prefix s ''ns='' then (case after_semicolon s of Some r \<Rightarrow> r | None \<Rightarrow> s)
                  else if has_prefix s ''nsu='' then (case after_semicolon s of Some r \<Rightarrow> r | None \<Rightarrow> s)
                  else s)
      in ''ns='' @ show_nat (unat nsIndex) @ '';'' @ rest)"

definition parseExpandedNodeID :: "('w, 'n) opc_ops \<Rightarrow> 'n opc_client \<Rightarrow> string \<Rightarrow> err + 'n" where
  "parseExpandedNodeID ops c s =
     (if length (ul_namespaceArray c) = 0
      then Inl (Plain ''namespace table not available, cannot resolve URI-based NodeID'')
      else uo_ParseExpandedNodeID ops s (ul_namespaceArray c))"

text \<open>A full cache loses the first tenth of its size, in iteration order.\<close>

definition cache_node ::
  "('w, 'n) opc_ops \<Rightarrow> 'w \<Rightarrow> string \<Rightarrow> 'n \<Rightarrow> (string \<times> 'n) list \<Rightarrow> (string \<times> 'n) list" where
  "cache_node ops w s n cache =
     AList.update s n
       (if maxNodeCacheSize \<le> length cache
        then filter (\<lambda>e. fst e \<notin> set (take (maxNodeCacheSize div 10) (uo_order ops (map fst cache) w))) cache
        else cache)"

definition getNodeID :: "('w, 'n) opc_ops \<Rightarrow> string \<Rightarrow> ('w, 'n) opc_state \<Rightarrow> (err + 'n) \<times> ('w, 'n) opc_state" where
  "getNodeID ops s st = (case st of (c, w) \<Rightarrow>
     case map_of (ul_nodeCache c) s of
       Some n \<Rightarrow> (Inr n, st)
     | None \<Rightarrow>
         (case (if has_prefix s ''nsu='' then parseExpandedNodeID ops c s else uo_ParseNodeID ops s) of
            Inl e \<Rightarrow> (Inl (Wrap ErrOPCUAInvalidNodeID
                ('': invalid node ID '' @ s @ '': '' @ err_text e)), st)
          | Inr n \<Rightarrow> (Inr n, (c\<lparr>ul_nodeCache := cache_node ops w s n (ul_nodeCache c)\<rparr>, w))))"

definition resolveNamespaceURI :: "'n opc_client \<Rightarrow> string \<Rightarrow> err + u16" where
  "resolveNamespaceURI c uri = (case ul_namespaceMap c uri of
       Some i \<Rightarrow> Inr i
     | None \<Rightarrow> Inl (Plain (''namespace URI '' @ quoted uri @ '' not found in server's namespace table'')))"

definition getNodeIDForTag :: "('w, 'n) opc_ops \<Rightarrow> tag \<Rightarrow> ('w, 'n) opc_state \<Rightarrow> (err + 'n) \<times> ('w, 'n) opc_state" where
  "getNodeIDForTag ops t st =
     (if OPCNamespaceURI t \<noteq> [] then
        (case resolveNamespaceURI (fst st) (OPCNamespaceURI t) of
           Inl e \<Rightarrow> (Inl (WrapPre (''failed to resolve namespace URI '' @ quoted (OPCNamespaceURI t) @ '': '') e), st)
         | Inr nsIndex \<Rightarrow> getNodeID ops (buildNodeIDWithNamespace (OPCNodeID t) nsIndex) st)
      else getNodeID ops (OPCNodeID t) st)"
section \<open>Reading one tag\<close>

definition readNode ::
  "('w, 'n) opc_ops \<Rightarrow> 'n \<Rightarrow> tag \<Rightarrow> ('w, 'n) opc_state \<Rightarrow> data_point res \<times> ('w, 'n) opc_state" where
  "readNode ops n t st = (case st of (c, w) \<Rightarrow>
     if \<not> ul_client c then (Err ErrConnectionClosed, st)
     else case uo_Read ops [n] w of
       (Inl e, w1) \<Rightarrow> (Err (wrap_v ErrReadFailed e), (opc_add_failure c, w1))
     | (Inr [], w1) \<Rightarrow> (Err (Wrap ErrReadFailed '': no results returned''), (c, w1))
     | (Inr (r # rs), w1) \<Rightarrow>
         (Ok (processReadResult (uo_now ops w1) (ul_deviceID c) r t), (opc_reset_failures c, w1)))"

definition opc_backoff_step :: "('w, 'n) opc_ops \<Rightarrow> nat \<Rightarrow> ('w, 'n) opc_state \<Rightarrow> duration res \<times> ('w, 'n) opc_state" where
  "opc_backoff_step ops attempt st = (case st of (c, w) \<Rightarrow>
     (let delay = oc_RetryDelay (ul_config c);
          (r, w1) = uo_rand ops (backoff_delay delay attempt div 2) w
      in (calculateBackoff (\<lambda>n. r) delay attempt,
          (opc_upd (\<lambda>s. s\<lparr>us_RetryCount := us_RetryCount s + 1\<rparr>) c, w1))))"

definition opc_wait_step :: "('w, 'n) opc_ops \<Rightarrow> duration \<Rightarrow> ('w, 'n) opc_state \<Rightarrow> err option \<times> ('w, 'n) opc_state" where
  "opc_wait_step ops d st = (case st of (c, w) \<Rightarrow> (case uo_wait ops d w of (e, w1) \<Rightarrow> (e, (c, w1))))"

definition opc_hooks :: "('w, 'n) opc_ops \<Rightarrow> (('w, 'n) opc_state \<Rightarrow> 'a res \<times> ('w, 'n) opc_state)
     \<Rightarrow> (('w, 'n) opc_state, 'a) retry_hooks" where
  "opc_hooks ops f = \<lparr>h_backoff = opc_backoff_step ops, h_wait = opc_wait_step ops, h_op = f,
     h_retryable = opc_isRetryableError, h_connection = opc_isConnectionError,
     h_reconnect = opc_reconnect ops\<rparr>"

type_synonym opc_read_result = "(data_point option \<times> err option) res"

definition opc_error_point :: "('w, 'n) opc_ops \<Rightarrow> tag \<Rightarrow> err \<Rightarrow> ('w, 'n) opc_state \<Rightarrow> data_point" where
  "opc_error_point ops t e st =
     opc_createErrorDataPoint (uo_now ops (snd st)) (ul_deviceID (fst st)) t e"

definition opc_read_failed ::
  "('w, 'n) opc_ops \<Rightarrow> tag \<Rightarrow> err \<Rightarrow> ('w, 'n) opc_state \<Rightarrow> opc_read_result \<times> ('w, 'n) opc_state" where
  "opc_read_failed ops t e st =
     (Ok (Some (opc_error_point ops t e st), Some e), opc_map (\<lambda>now. opc_count_error) ops st)"

definition opc_ReadTag_body ::
  "('w, 'n) opc_ops \<Rightarrow> tag \<Rightarrow> ('w, 'n) opc_state \<Rightarrow> opc_read_result \<times> ('w, 'n) opc_state" where
  "opc_ReadTag_body ops t st =
     (if \<not> ul_connected (fst st) then (Ok (None, Some ErrConnectionClosed), st)
      else case getNodeIDForTag ops t st of
        (Inl e, st1) \<Rightarrow> opc_read_failed ops t e st1
      | (Inr n, st1) \<Rightarrow>
          (case run_retries (opc_hooks ops (readNode ops n t)) (oc_MaxRetries (ul_config (fst st1))) st1 of
             (Succeeded dp, st2) \<Rightarrow> (Ok (Some dp, None), opc_map (\<lambda>now. opc_count_reads 1) ops st2)
           | (NotTried, st2) \<Rightarrow> (Ok (None, None), opc_map (\<lambda>now. opc_count_reads 1) ops st2)
           | (Cancelled e, st2) \<Rightarrow> (Ok (None, Some e), st2)
           | (Fatal e, st2) \<Rightarrow> opc_read_failed ops t e st2
           | (Exhausted e, st2) \<Rightarrow> opc_read_failed ops t e st2
           | (Crashed, st2) \<Rightarrow> (Panic, st2)))"

definition opc_ReadTag ::
  "('w, 'n) opc_ops \<Rightarrow> tag \<Rightarrow> ('w, 'n) opc_state \<Rightarrow> opc_read_result \<times> ('w, 'n) opc_state" where
  "opc_ReadTag ops t st = (let start = uo_now ops (snd st) in
     case opc_ReadTag_body ops t (opc_touch ops st) of (r, st1) \<Rightarrow>
       (r, opc_map (\<lambda>now. opc_upd (\<lambda>s. s\<lparr>us_TotalReadTime := us_TotalReadTime s + time_sub now start\<rparr>)) ops st1))"

section \<open>Reading many tags\<close>

text \<open>Tags whose node ID cannot be resolved are left out.\<close>

fun resolve_tags ::
  "('w, 'n) opc_ops \<Rightarrow> tag list \<Rightarrow> ('w, 'n) opc_state \<Rightarrow> (tag \<times> 'n) list \<times> ('w, 'n) opc_state" where
  "resolve_tags ops [] st = ([], st)"
| "resolve_tags ops (t # ts) st = (case getNodeIDForTag ops t st of
       (Inl e, st1) \<Rightarrow> resolve_tags ops ts st1
     | (Inr n, st1) \<Rightarrow> (case resolve_tags ops ts st1 of (tns, st2) \<Rightarrow> ((t, n) # tns, st2)))"

text \<open>The answers and the tags asked for, pairwise, as long as there are both.\<close>

definition process_results :: "time \<Rightarrow> string \<Rightarrow> data_value list \<Rightarrow> tag list \<Rightarrow> data_point list" where
  "process_results now deviceID rs ts = map2 (processReadResult now deviceID) rs ts"

definition opc_ReadTags ::
  "('w, 'n) opc_ops \<Rightarrow> tag list \<Rightarrow> ('w, 'n) opc_state \<Rightarrow> data_point list res \<times> ('w, 'n) opc_state" where
  "opc_ReadTags ops ts st =
     (if length ts = 0 then (Ok [], st)
      else let st0 = opc_touch ops st in
        if \<not> ul_connected (fst st0) then (Err ErrConnectionClosed, st0)
        else case resolve_tags ops ts st0 of (valid, (c, w)) \<Rightarrow>
          if length valid = 0 then (Ok [], (c, w))
          else if \<not> ul_client c then (Err ErrConnectionClosed, (c, w))
          else case uo_Read ops (map snd valid) w of
            (Inl e, w1) \<Rightarrow> (Err (wrap_v ErrReadFailed e), (opc_count_error c, w1))
          | (Inr rs, w1) \<Rightarrow>
              (let results = process_results (uo_now ops w1) (ul_deviceID c) rs (map fst valid)
               in (Ok results, (opc_count_reads (length results) c, w1))))"

section \<open>Writing one tag\<close>

definition status_error :: "u32 \<Rightarrow> err" where
  "status_error s = Wrap ErrWriteFailed ('': status code '' @ show_nat (unat s))"

definition not_writable :: "tag \<Rightarrow> err" where
  "not_writable t = Wrap ErrWriteFailed ('': tag '' @ tag_ID t @ '' is not writable'')"

definition writeNode ::
  "('w, 'n) opc_ops \<Rightarrow> 'n \<Rightarrow> goval \<Rightarrow> ('w, 'n) opc_state \<Rightarrow> unit res \<times> ('w, 'n) opc_state" where
  "writeNode ops n v st = (case st of (c, w) \<Rightarrow>
     if \<not> ul_client c then (Err ErrConnectionClosed, st)
     else case uo_Write ops [\<lparr>wv_NodeID = n, wv_EncodingMask = DataValueValue, wv_Value = v,
                              wv_SourceTimestamp = None\<rparr>] w of
       (Inl e, w1) \<Rightarrow> (Err (wrap_v ErrWriteFailed e), (opc_add_failure c, w1))
     | (Inr [], w1) \<Rightarrow> (Err (Wrap ErrWriteFailed '': no results returned''), (c, w1))
     | (Inr (r # rs), w1) \<Rightarrow>
         if r \<noteq> StatusOK then (Err (status_error r), (opc_add_failure c, w1))
         else (Ok (), (opc_reset_failures c, w1)))"

definition opc_write_failed :: "('w, 'n) opc_ops \<Rightarrow> err \<Rightarrow> ('w, 'n) opc_state \<Rightarrow> unit res \<times> ('w, 'n) opc_state" where
  "opc_write_failed ops e st = (Err e, opc_map (\<lambda>now. opc_count_error) ops st)"

definition opc_WriteTag_body ::
  "('w, 'n) opc_ops \<Rightarrow> tag \<Rightarrow> goval \<Rightarrow> ('w, 'n) opc_state \<Rightarrow> unit res \<times> ('w, 'n) opc_state" where
  "opc_WriteTag_body ops t value st =
     (if \<not> ul_connected (fst st) then (Err ErrConnectionClosed, st)
      else if \<not> IsWritable t then (Err (not_writable t), st)
      else case getNodeIDForTag ops t st of
        (Inl e, st1) \<Rightarrow> opc_write_failed ops e st1
      | (Inr n, st1) \<Rightarrow>
          (case opc_valueToVariant (uo_values ops) value t of
             Panic \<Rightarrow> (Panic, st1)
           | Err e \<Rightarrow> opc_write_failed ops (wrap_v ErrWriteFailed e) st1
           | Ok v \<Rightarrow>
               (case run_retries (opc_hooks ops (writeNode ops n v)) (oc_MaxRetries (ul_config (fst st1))) st1 of
                  (Succeeded u, st2) \<Rightarrow> (Ok (), opc_map (\<lambda>now. opc_count_write) ops st2)
                | (NotTried, st2) \<Rightarrow> (Ok (), opc_map (\<lambda>now. opc_count_write) ops st2)
                | (Cancelled e, st2) \<Rightarrow> (Err e, st2)
                | (Fatal e, st2) \<Rightarrow> opc_write_failed ops e st2
                | (Exhausted e, st2) \<Rightarrow> opc_write_failed ops e st2
                | (Crashed, st2) \<Rightarrow> (Panic, st2))))"

definition opc_WriteTag ::
  "('w, 'n) opc_ops \<Rightarrow> tag \<Rightarrow> goval \<Rightarrow> ('w, 'n) opc_state \<Rightarrow> unit res \<times> ('w, 'n) opc_state" where
  "opc_WriteTag ops t value st = (let start = uo_now ops (snd st) in
     case opc_WriteTag_body ops t value (opc_touch ops st) of (r, st1) \<Rightarrow>
       (r, opc_map (\<lambda>now. opc_upd (\<lambda>s. s\<lparr>us_TotalWriteTime := us_TotalWriteTime s + time_sub now start\<rparr>)) ops st1))"

section \<open>Writing many tags\<close>

text \<open>
  What one write needs: the error that keeps it from being sent, or what is sent.  The batch sets a
  source timestamp and no bit of the encoding mask.
\<close>

definition prepare_write ::
  "('w, 'n) opc_ops \<Rightarrow> tag \<times> goval \<Rightarrow> ('w, 'n) opc_state \<Rightarrow> (err + 'n write_value) res \<times> ('w, 'n) opc_state" where
  "prepare_write ops x st = (case x of (t, value) \<Rightarrow>
     if \<not> IsWritable t then (Ok (Inl (not_writable t)), st)
     else case getNodeIDForTag ops t st of
       (Inl e, st1) \<Rightarrow> (Ok (Inl e), st1)
     | (Inr n, st1) \<Rightarrow>
         (case opc_valueToVariant (uo_values ops) value t of
            Panic \<Rightarrow> (Panic, st1)
          | Err e \<Rightarrow> (Ok (Inl e), st1)
          | Ok v \<Rightarrow> (Ok (Inr \<lparr>wv_NodeID = n, wv_EncodingMask = 0, wv_Value = v,
              wv_SourceTimestamp = Some (uo_now ops (snd st1))\<rparr>), st1)))"

fun opc_prepare_writes ::
  "('w, 'n) opc_ops \<Rightarrow> (tag \<times> goval) list \<Rightarrow> ('w, 'n) opc_state
     \<Rightarrow> (err + 'n write_value) list res \<times> ('w, 'n) opc_state" where
  "opc_prepare_writes ops [] st = (Ok [], st)"
| "opc_prepare_writes ops (x # xs) st = (case prepare_write ops x st of
       (Ok p, st1) \<Rightarrow> (case opc_prepare_writes ops xs st1 of
           (r, st2) \<Rightarrow> (bind_outcome r (\<lambda>ps. Ok (p # ps)), st2))
     | (Err e, st1) \<Rightarrow> (Err e, st1)
     | (Panic, st1) \<Rightarrow> (Panic, st1))"

definition first_errors :: "(err + 'n write_value) list \<Rightarrow> err option list" where
  "first_errors ps = map (\<lambda>p. case p of Inl e \<Rightarrow> Some e | Inr v \<Rightarrow> None) ps"

definition valid_writes :: "(err + 'n write_value) list \<Rightarrow> (nat \<times> 'n write_value) list" where
  "valid_writes ps = List.map_filter (\<lambda>(i, p). case p of Inl e \<Rightarrow> None | Inr v \<Rightarrow> Some (i, v)) (enumerate 0 ps)"

text \<open>The loop over the results and \<open>validIndices\<close>; surplus results are ignored.\<close>

fun apply_statuses ::
  "nat list \<Rightarrow> u32 list \<Rightarrow> err option list \<times> 'n opc_client \<Rightarrow> err option list \<times> 'n opc_client" where
  "apply_statuses (i # is) (r # rs) (errs, c) =
     apply_statuses is rs
       (if r \<noteq> StatusOK then (errs[i := Some (status_error r)], opc_count_error c)
        else (errs, opc_count_write c))"
| "apply_statuses is rs ec = ec"

definition opc_set_all :: "nat list \<Rightarrow> err \<Rightarrow> err option list \<Rightarrow> err option list" where
  "opc_set_all is e errs = foldl (\<lambda>es i. es[i := Some e]) errs is"

definition opc_WriteTags ::
  "('w, 'n) opc_ops \<Rightarrow> (tag \<times> goval) list \<Rightarrow> ('w, 'n) opc_state \<Rightarrow> err option list res \<times> ('w, 'n) opc_state" where
  "opc_WriteTags ops writes st =
     (if length writes = 0 then (Ok [], st)
      else let st0 = opc_touch ops st in
        if \<not> ul_connected (fst st0) then (Ok (replicate (length writes) (Some ErrConnectionClosed)), st0)
        else case opc_prepare_writes ops writes st0 of
          (Panic, st1) \<Rightarrow> (Panic, st1)
        | (Err e, st1) \<Rightarrow> (Err e, st1)
        | (Ok ps, (c, w)) \<Rightarrow>
            (let valid = valid_writes ps; errs = first_errors ps in
             if length valid = 0 then (Ok errs, (c, w))
             else if \<not> ul_client c then (Ok (opc_set_all (map fst valid) ErrConnectionClosed errs), (c, w))
             else case uo_Write ops (map snd valid) w of
               (Inl e, w1) \<Rightarrow> (Ok (opc_set_all (map fst valid) (wrap_v ErrWriteFailed e) errs), (opc_count_error c, w1))
             | (Inr rs, w1) \<Rightarrow>
                 (case apply_statuses (map fst valid) rs (errs, c) of (errs1, c1) \<Rightarrow> (Ok errs1, (c1, w1)))))"

section \<open>Statistics\<close>

record opc_stats_map =
  om_reads :: u64
  om_writes :: u64
  om_errors :: u64
  om_retries :: u64
  om_subscribes :: u64
  om_notifications :: u64
  om_read_ns :: u64
  om_write_ns :: u64

definition opc_GetStats :: "'n opc_client \<Rightarrow> opc_stats_map" where
  "opc_GetStats c = (let s = ul_stats c in
     \<lparr>om_reads = of_nat (us_ReadCount s), om_writes = of_nat (us_WriteCount s),
      om_errors = of_nat (us_ErrorCount s), om_retries = of_nat (us_RetryCount s),
      om_subscribes = of_nat (us_SubscribeCount s), om_notifications = of_nat (us_NotificationCount s),
      om_read_ns = word_of_int (us_TotalReadTime s), om_write_ns = word_of_int (us_TotalWriteTime s)\<rparr>)"
section \<open>The client's invariant\<close>

text \<open>What parsing a node ID gives without the cache.\<close>

definition parse_node :: "('w, 'n) opc_ops \<Rightarrow> string list \<Rightarrow> string \<Rightarrow> err + 'n" where
  "parse_node ops uris s =
     (if has_prefix s ''nsu='' then
        (if length uris = 0
         then Inl (Plain ''namespace table not available, cannot resolve URI-based NodeID'')
         else uo_ParseExpandedNodeID ops s uris)
      else uo_ParseNodeID ops s)"

text \<open>
  The library's client is there exactly while the client is connected, the session is active exactly
  then, the node cache is bounded, repeats no key, is empty without a connection and holds only what
  parsing gives under the current namespace table.
\<close>

definition cache_ok :: "('w, 'n) opc_ops \<Rightarrow> string list \<Rightarrow> (string \<times> 'n) list \<Rightarrow> bool" where
  "cache_ok ops uris cache \<longleftrightarrow> distinct (map fst cache) \<and> length cache \<le> maxNodeCacheSize
     \<and> (\<forall>s n. (s, n) \<in> set cache \<longrightarrow> parse_node ops uris s = Inr n)"

definition opc_client_ok :: "('w, 'n) opc_ops \<Rightarrow> 'n opc_client \<Rightarrow> bool" where
  "opc_client_ok ops c \<longleftrightarrow> ul_client c = ul_connected c
     \<and> (ul_sessionState c = SessionStateActive) = ul_connected c
     \<and> cache_ok ops (ul_namespaceArray c) (ul_nodeCache c)
     \<and> (\<not> ul_connected c \<longrightarrow> ul_nodeCache c = [])"

text \<open>Go visits every key of a map once.\<close>

definition order_ok :: "('w, 'n) opc_ops \<Rightarrow> bool" where
  "order_ok ops \<longleftrightarrow> (\<forall>ks w. set (uo_order ops ks w) = set ks)"

lemma cache_ok_Nil [simp]: "cache_ok ops uris []"
  by (simp add: cache_ok_def)

lemma set_update_subset: "set (AList.update k v al) \<subseteq> insert (k, v) (set al)"
  by (induction al) auto

lemma length_update_le: "length (AList.update k v al) \<le> Suc (length al)"
  by (induction al) auto

lemma cache_node_ok:
  assumes "order_ok ops" and ok: "cache_ok ops uris cache" and n: "parse_node ops uris s = Inr n"
  shows "cache_ok ops uris (cache_node ops w s n cache)"
proof -
  define kept where "kept = (if maxNodeCacheSize \<le> length cache
    then filter (\<lambda>e. fst e \<notin> set (take (maxNodeCacheSize div 10) (uo_order ops (map fst cache) w))) cache
    else cache)"
  have sub: "set kept \<subseteq> set cache" and dist: "distinct (map fst kept)"
    using ok by (auto simp: kept_def cache_ok_def distinct_map_filter)
  have "length kept < maxNodeCacheSize"
  proof (cases "maxNodeCacheSize \<le> length cache")
    case True
    have "uo_order ops (map fst cache) w \<noteq> []"
    proof
      assume "uo_order ops (map fst cache) w = []"
      then have "set (map fst cache) = {}" using assms(1) by (metis empty_set order_ok_def)
      then show False using True by (simp add: maxNodeCacheSize_def)
    qed
    then obtain k ks where order: "uo_order ops (map fst cache) w = k # ks" by (metis list.exhaust)
    then have "k \<in> set (map fst cache)" using assms(1) by (metis list.set_intros(1) order_ok_def)
    then obtain e where "e \<in> set cache" "fst e = k" by auto
    then have "length kept < length cache"
      using True order by (auto simp: kept_def maxNodeCacheSize_def intro!: length_filter_less)
    then show ?thesis using ok by (simp add: cache_ok_def)
  next
    case False
    then show ?thesis by (simp add: kept_def)
  qed
  then have "length (AList.update s n kept) \<le> maxNodeCacheSize"
    using length_update_le [of s n kept] by simp
  moreover have "parse_node ops uris s' = Inr n'" if "(s', n') \<in> set (AList.update s n kept)" for s' n'
    using that set_update_subset [of s n kept] sub ok n by (auto simp: cache_ok_def)
  moreover have "cache_node ops w s n cache = AList.update s n kept"
    by (simp add: cache_node_def kept_def)
  ultimately show ?thesis using dist by (simp add: cache_ok_def distinct_update)
qed

lemma getNodeID_parse:
  "getNodeID ops s (c, w) = (case map_of (ul_nodeCache c) s of
       Some n \<Rightarrow> (Inr n, (c, w))
     | None \<Rightarrow> (case parse_node ops (ul_namespaceArray c) s of
          Inl e \<Rightarrow> (Inl (Wrap ErrOPCUAInvalidNodeID
              ('': invalid node ID '' @ s @ '': '' @ err_text e)), (c, w))
        | Inr n \<Rightarrow> (Inr n, (c\<lparr>ul_nodeCache := cache_node ops w s n (ul_nodeCache c)\<rparr>, w))))"
proof -
  have "(if has_prefix s ''nsu='' then parseExpandedNodeID ops c s else uo_ParseNodeID ops s)
      = parse_node ops (ul_namespaceArray c) s"
    by (simp add: parse_node_def parseExpandedNodeID_def)
  then show ?thesis by (simp only: getNodeID_def prod.case)
qed

lemma getNodeID_keeps:
  assumes "order_ok ops" "opc_client_ok ops (fst st)" "ul_connected (fst st)"
  shows "opc_client_ok ops (fst (snd (getNodeID ops s st)))
    \<and> ul_connected (fst (snd (getNodeID ops s st)))
    \<and> ul_namespaceArray (fst (snd (getNodeID ops s st))) = ul_namespaceArray (fst st)
    \<and> ul_namespaceMap (fst (snd (getNodeID ops s st))) = ul_namespaceMap (fst st)
    \<and> ul_stats (fst (snd (getNodeID ops s st))) = ul_stats (fst st)
    \<and> ul_deviceID (fst (snd (getNodeID ops s st))) = ul_deviceID (fst st)
    \<and> ul_config (fst (snd (getNodeID ops s st))) = ul_config (fst st)
    \<and> snd (snd (getNodeID ops s st)) = snd st"
  using assms
  by (cases st) (auto simp: getNodeID_parse opc_client_ok_def cache_node_ok split: option.splits sum.splits)

lemma getNodeIDForTag_keeps:
  assumes "order_ok ops" "opc_client_ok ops (fst st)" "ul_connected (fst st)"
  shows "opc_client_ok ops (fst (snd (getNodeIDForTag ops t st)))
    \<and> ul_connected (fst (snd (getNodeIDForTag ops t st)))
    \<and> ul_namespaceArray (fst (snd (getNodeIDForTag ops t st))) = ul_namespaceArray (fst st)
    \<and> ul_namespaceMap (fst (snd (getNodeIDForTag ops t st))) = ul_namespaceMap (fst st)
    \<and> ul_stats (fst (snd (getNodeIDForTag ops t st))) = ul_stats (fst st)
    \<and> ul_deviceID (fst (snd (getNodeIDForTag ops t st))) = ul_deviceID (fst st)
    \<and> ul_config (fst (snd (getNodeIDForTag ops t st))) = ul_config (fst st)
    \<and> snd (snd (getNodeIDForTag ops t st)) = snd st"
  using assms getNodeID_keeps [OF assms] by (auto simp: getNodeIDForTag_def split: sum.splits)

lemma updates_ok [simp]:
  "opc_client_ok ops (opc_count_error c) = opc_client_ok ops c"
  "opc_client_ok ops (opc_count_reads n c) = opc_client_ok ops c"
  "opc_client_ok ops (opc_count_write c) = opc_client_ok ops c"
  "opc_client_ok ops (opc_add_failure c) = opc_client_ok ops c"
  "opc_client_ok ops (opc_reset_failures c) = opc_client_ok ops c"
  "opc_client_ok ops (c\<lparr>ul_stats := s\<rparr>) = opc_client_ok ops c"
  "opc_client_ok ops (c\<lparr>ul_lastUsed := u\<rparr>) = opc_client_ok ops c"
  by (simp_all add: opc_client_ok_def opc_count_error_def opc_count_reads_def opc_count_write_def
      opc_add_failure_def opc_reset_failures_def)

lemma updates_connected [simp]:
  "ul_connected (opc_count_error c) = ul_connected c"
  "ul_connected (opc_count_reads n c) = ul_connected c"
  "ul_connected (opc_count_write c) = ul_connected c"
  "ul_connected (opc_add_failure c) = ul_connected c"
  "ul_connected (opc_reset_failures c) = ul_connected c"
  by (simp_all add: opc_count_error_def opc_count_reads_def opc_count_write_def
      opc_add_failure_def opc_reset_failures_def)

text \<open>
  What an operation keeps: the invariant, and the connection.  \<open>live\<close> is both together, what the
  operations after the check of the connection flag start from.
\<close>

definition live :: "('w, 'n) opc_ops \<Rightarrow> ('w, 'n) opc_state \<Rightarrow> bool" where
  "live ops st \<longleftrightarrow> opc_client_ok ops (fst st) \<and> ul_connected (fst st)"

lemma live_getNodeIDForTag:
  "order_ok ops \<Longrightarrow> live ops st \<Longrightarrow> live ops (snd (getNodeIDForTag ops t st))"
  using getNodeIDForTag_keeps [of ops st t] by (simp add: live_def)

lemma live_readNode: "live ops st \<Longrightarrow> live ops (snd (readNode ops n t st))"
  by (auto simp: readNode_def live_def split: prod.splits sum.splits list.splits)

lemma live_writeNode: "live ops st \<Longrightarrow> live ops (snd (writeNode ops n v st))"
  by (auto simp: writeNode_def live_def split: prod.splits sum.splits list.splits)

lemma reconnect_connected: "ul_connected (fst st) \<Longrightarrow> opc_reconnect ops st = st"
  by (cases st) (simp add: opc_reconnect_def)

lemma live_hooks:
  "(\<And>s. live ops s \<Longrightarrow> live ops (snd (f s))) \<Longrightarrow> hooks_keep (live ops) (opc_hooks ops f)"
  by (auto simp: hooks_keep_def opc_hooks_def opc_backoff_step_def opc_wait_step_def live_def Let_def
      reconnect_connected split: prod.splits)

lemma live_map: "(\<And>now c. opc_client_ok ops (f now c) = opc_client_ok ops c \<and> ul_connected (f now c) = ul_connected c)
    \<Longrightarrow> live ops (opc_map f ops' st) = live ops st"
  by (simp add: live_def opc_map_def)

lemma live_touch [simp]: "live ops (opc_touch ops st) = live ops st"
  by (simp add: opc_touch_def live_map)

lemma live_count_error [simp]: "live ops (opc_map (\<lambda>now. opc_count_error) ops st) = live ops st"
  by (simp add: live_map)

lemma live_count_reads [simp]: "live ops (opc_map (\<lambda>now. opc_count_reads n) ops st) = live ops st"
  by (simp add: live_map)

lemma live_count_write [simp]: "live ops (opc_map (\<lambda>now. opc_count_write) ops st) = live ops st"
  by (simp add: live_map)

lemma live_run:
  assumes "live ops st" "\<And>s. live ops s \<Longrightarrow> live ops (snd (f s))" "run_retries (opc_hooks ops f) m st = (r, st')"
  shows "live ops st'"
  using run_retries_keeps [OF live_hooks [of ops f, OF assms(2)] assms(1), of m] assms(3) by simp
lemma live_read_failed [simp]: "live ops (snd (opc_read_failed ops t e st)) = live ops st"
  by (simp add: opc_read_failed_def)

lemma live_write_failed [simp]: "live ops (snd (opc_write_failed ops e st)) = live ops st"
  by (simp add: opc_write_failed_def)

lemma live_ReadTag_body:
  assumes "order_ok ops" "live ops st"
  shows "live ops (snd (opc_ReadTag_body ops t st))"
proof -
  obtain g st1 where g: "getNodeIDForTag ops t st = (g, st1)" by (cases "getNodeIDForTag ops t st")
  then have l1: "live ops st1" using live_getNodeIDForTag [OF assms, of t] by simp
  have c: "ul_connected (fst st)" using assms(2) by (simp add: live_def)
  show ?thesis
  proof (cases g)
    case (Inr n)
    obtain r st2 where r: "run_retries (opc_hooks ops (readNode ops n t))
        (oc_MaxRetries (ul_config (fst st1))) st1 = (r, st2)" by (metis prod.exhaust)
    have "live ops st2" by (rule live_run [OF l1 live_readNode r])
    then show ?thesis using c g Inr r by (cases r) (simp_all add: opc_ReadTag_body_def)
  qed (use c g l1 in \<open>simp add: opc_ReadTag_body_def\<close>)
qed

lemma live_WriteTag_body:
  assumes "order_ok ops" "live ops st"
  shows "live ops (snd (opc_WriteTag_body ops t v st))"
proof -
  obtain g st1 where g: "getNodeIDForTag ops t st = (g, st1)" by (cases "getNodeIDForTag ops t st")
  then have l1: "live ops st1" using live_getNodeIDForTag [OF assms, of t] by simp
  have c: "ul_connected (fst st)" using assms(2) by (simp add: live_def)
  show ?thesis
  proof (cases "IsWritable t \<and> (\<exists>n x. g = Inr n \<and> opc_valueToVariant (uo_values ops) v t = Ok x)")
    case True
    then obtain n x where n: "IsWritable t" "g = Inr n" "opc_valueToVariant (uo_values ops) v t = Ok x" by blast
    obtain r st2 where r: "run_retries (opc_hooks ops (writeNode ops n x))
        (oc_MaxRetries (ul_config (fst st1))) st1 = (r, st2)" by (metis prod.exhaust)
    have "live ops st2" by (rule live_run [OF l1 live_writeNode r])
    then show ?thesis using c g n r by (cases r) (simp_all add: opc_WriteTag_body_def)
  next
    case False
    then show ?thesis using c g l1 assms(2)
      by (cases g; cases "opc_valueToVariant (uo_values ops) v t") (auto simp: opc_WriteTag_body_def)
  qed
qed

lemma live_resolve_tags: "order_ok ops \<Longrightarrow> live ops st \<Longrightarrow> live ops (snd (resolve_tags ops ts st))"
proof (induction ts arbitrary: st)
  case (Cons t ts)
  obtain r st1 where g: "getNodeIDForTag ops t st = (r, st1)" by (cases "getNodeIDForTag ops t st")
  then have "live ops st1" using live_getNodeIDForTag [OF Cons.prems, of t] by simp
  then show ?case using Cons.IH [OF Cons.prems(1), of st1] g by (cases r) (auto split: prod.splits)
qed simp

lemma live_prepare_write: "order_ok ops \<Longrightarrow> live ops st \<Longrightarrow> live ops (snd (prepare_write ops x st))"
  using live_getNodeIDForTag [of ops st]
  by (auto simp: prepare_write_def split: prod.splits sum.splits outcome.splits) (metis snd_conv)+

lemma live_opc_prepare_writes: "order_ok ops \<Longrightarrow> live ops st \<Longrightarrow> live ops (snd (opc_prepare_writes ops xs st))"
proof (induction xs arbitrary: st)
  case (Cons x xs)
  obtain r st1 where g: "prepare_write ops x st = (r, st1)" by (cases "prepare_write ops x st")
  then have "live ops st1" using live_prepare_write [OF Cons.prems, of x] by simp
  then show ?case using Cons.IH [OF Cons.prems(1), of st1] g by (cases r) (auto split: prod.splits)
qed simp

lemma apply_statuses_ok:
  "opc_client_ok ops (snd (apply_statuses is rs (errs, c))) = opc_client_ok ops c
   \<and> ul_connected (snd (apply_statuses is rs (errs, c))) = ul_connected c"
  by (induction "is" rs "(errs, c)" arbitrary: errs c rule: apply_statuses.induct) auto

lemma live_ReadTags:
  assumes "order_ok ops" "live ops st"
  shows "live ops (snd (opc_ReadTags ops ts st))"
proof -
  have "live ops (opc_touch ops st)" using assms(2) by simp
  from live_resolve_tags [OF assms(1) this, of ts] this assms(2) show ?thesis
    by (auto simp: opc_ReadTags_def Let_def live_def split: prod.splits sum.splits)
qed

lemma live_WriteTags:
  assumes "order_ok ops" "live ops st"
  shows "live ops (snd (opc_WriteTags ops ws st))"
proof -
  have t: "live ops (opc_touch ops st)" using assms(2) by simp
  obtain r c w where p: "opc_prepare_writes ops ws (opc_touch ops st) = (r, (c, w))"
    by (metis prod.exhaust)
  have l: "live ops (c, w)" using live_opc_prepare_writes [OF assms(1) t, of ws] p by simp
  show ?thesis
  proof (cases r)
    case (Ok ps)
    then show ?thesis
      using p l t assms(2)
      by (auto simp: opc_WriteTags_def Let_def live_def apply_statuses_ok split: prod.splits sum.splits)
        (metis apply_statuses_ok snd_conv)+
  qed (use p l t assms(2) in \<open>auto simp: opc_WriteTags_def Let_def live_def\<close>)
qed

lemma live_ReadTag: "order_ok ops \<Longrightarrow> live ops st \<Longrightarrow> live ops (snd (opc_ReadTag ops t st))"
  using live_ReadTag_body [of ops "opc_touch ops st" t]
  by (auto simp: opc_ReadTag_def Let_def live_map split: prod.splits)

lemma live_WriteTag: "order_ok ops \<Longrightarrow> live ops st \<Longrightarrow> live ops (snd (opc_WriteTag ops t v st))"
  using live_WriteTag_body [of ops "opc_touch ops st" t v]
  by (auto simp: opc_WriteTag_def Let_def live_map split: prod.splits)

section \<open>Operations on one client\<close>

datatype opc_op =
    OpConnect
  | OpDisconnect
  | OpReconnect
  | OpRefresh
  | OpReadTag tag
  | OpReadTags "tag list"
  | OpWriteTag tag goval
  | OpWriteTags "(tag \<times> goval) list"

fun opc_step :: "('w, 'n) opc_ops \<Rightarrow> opc_op \<Rightarrow> ('w, 'n) opc_state \<Rightarrow> ('w, 'n) opc_state" where
  "opc_step ops OpConnect st = snd (opc_Connect ops st)"
| "opc_step ops OpDisconnect st = opc_Disconnect ops st"
| "opc_step ops OpReconnect st = opc_reconnect ops st"
| "opc_step ops OpRefresh st = snd (RefreshNamespaceTable ops st)"
| "opc_step ops (OpReadTag t) st = snd (opc_ReadTag ops t st)"
| "opc_step ops (OpReadTags ts) st = snd (opc_ReadTags ops ts st)"
| "opc_step ops (OpWriteTag t v) st = snd (opc_WriteTag ops t v st)"
| "opc_step ops (OpWriteTags ws) st = snd (opc_WriteTags ops ws st)"

lemma updateNamespaceTable_ok:
  "opc_client_ok ops (fst st) \<Longrightarrow> ul_nodeCache (fst st) = [] \<Longrightarrow>
     opc_client_ok ops (fst (snd (updateNamespaceTable ops st)))
     \<and> ul_connected (fst (snd (updateNamespaceTable ops st))) = ul_connected (fst st)"
  by (auto simp: updateNamespaceTable_def opc_client_ok_def split: prod.splits sum.splits)

lemma dial_ok:
  assumes "opc_client_ok ops c" "\<not> ul_connected c"
  shows "opc_client_ok ops (fst (snd (dial ops opts (c, w))))"
proof -
  have cache: "ul_nodeCache c = []" "\<not> ul_client c" using assms by (auto simp: opc_client_ok_def)
  show ?thesis
    using assms cache
    by (auto simp: dial_def split: prod.splits option.splits intro!: updateNamespaceTable_ok [THEN conjunct1])
      (auto simp: opc_client_ok_def)
qed

lemma Connect_ok:
  assumes "opc_client_ok ops (fst st)"
  shows "opc_client_ok ops (fst (snd (opc_Connect ops st)))
    \<and> (ul_connected (fst st) \<longrightarrow> ul_connected (fst (snd (opc_Connect ops st))))"
proof (cases "ul_connected (fst st)")
  case True
  then show ?thesis using assms by (auto simp: opc_Connect_def split: prod.splits)
next
  case False
  obtain c w where st: "st = (c, w)" by (cases st)
  have ok: "opc_client_ok ops (c\<lparr>ul_sessionState := SessionStateConnecting\<rparr>)"
    using assms False st by (simp add: opc_client_ok_def)
  moreover have "\<not> ul_connected (c\<lparr>ul_sessionState := SessionStateConnecting\<rparr>)" using False st by simp
  ultimately have "opc_client_ok ops (fst (snd (dial ops opts (c\<lparr>ul_sessionState := SessionStateConnecting\<rparr>, w'))))"
    for opts w' by (rule dial_ok)
  then show ?thesis
    using assms False st ok
    by (auto simp: opc_Connect_def Let_def opc_client_ok_def split: prod.splits sum.splits outcome.splits)
qed

lemma Disconnect_ok: "opc_client_ok ops (fst st) \<Longrightarrow> opc_client_ok ops (fst (opc_Disconnect ops st))"
  by (auto simp: opc_Disconnect_def opc_client_ok_def split: prod.splits)

lemma reconnect_ok: "opc_client_ok ops (fst st) \<Longrightarrow> opc_client_ok ops (fst (opc_reconnect ops st))"
proof (cases "ul_connected (fst st)")
  case False
  obtain c w where st: "st = (c, w)" by (cases st)
  assume "opc_client_ok ops (fst st)"
  then have "opc_client_ok ops (fst (opc_Disconnect ops (c\<lparr>ul_sessionState := SessionStateConnecting\<rparr>, w)))"
    using False st by (intro Disconnect_ok) (simp add: opc_client_ok_def)
  from Connect_ok [OF this] show ?thesis using False st by (simp add: opc_reconnect_def)
qed (simp add: reconnect_connected)

lemma disconnected_ops:
  assumes "\<not> ul_connected (fst st)"
  shows "opc_client_ok ops (fst (snd (opc_ReadTag ops t st))) = opc_client_ok ops (fst st)"
    and "opc_client_ok ops (fst (snd (opc_ReadTags ops ts st))) = opc_client_ok ops (fst st)"
    and "opc_client_ok ops (fst (snd (opc_WriteTag ops t v st))) = opc_client_ok ops (fst st)"
    and "opc_client_ok ops (fst (snd (opc_WriteTags ops ws st))) = opc_client_ok ops (fst st)"
  using assms
  by (auto simp: opc_ReadTag_def opc_ReadTag_body_def opc_ReadTags_def opc_WriteTag_def opc_WriteTag_body_def
      opc_WriteTags_def opc_touch_def opc_map_def Let_def split: prod.splits)

lemma Refresh_ok:
  assumes "opc_client_ok ops (fst st)"
  shows "opc_client_ok ops (fst (snd (RefreshNamespaceTable ops st)))
    \<and> ul_connected (fst (snd (RefreshNamespaceTable ops st))) = ul_connected (fst st)"
proof -
  have "opc_client_ok ops ((fst st)\<lparr>ul_nodeCache := []\<rparr>)" using assms by (simp add: opc_client_ok_def)
  then show ?thesis
    using updateNamespaceTable_ok [of ops "((fst st)\<lparr>ul_nodeCache := []\<rparr>, snd st)"]
    by (simp add: RefreshNamespaceTable_def)
qed

lemma step_ok:
  assumes "order_ok ops" "opc_client_ok ops (fst st)"
  shows "opc_client_ok ops (fst (opc_step ops x st))
    \<and> (ul_connected (fst st) \<and> x \<noteq> OpDisconnect \<longrightarrow> ul_connected (fst (opc_step ops x st)))"
proof (cases "ul_connected (fst st)")
  case True
  then have l: "live ops st" using assms(2) by (simp add: live_def)
  show ?thesis
    using True assms(2) live_ReadTag [OF assms(1) l] live_ReadTags [OF assms(1) l] live_WriteTag [OF assms(1) l]
      live_WriteTags [OF assms(1) l] Connect_ok [OF assms(2)] Refresh_ok [OF assms(2)]
    by (cases x) (auto simp: live_def reconnect_connected Disconnect_ok)
next
  case False
  then show ?thesis
    using assms(2) Connect_ok [OF assms(2)] Refresh_ok [OF assms(2)]
    by (cases x) (auto simp: reconnect_ok Disconnect_ok disconnected_ops)
qed

lemma run_ok:
  assumes "order_ok ops" "opc_client_ok ops (fst st)"
  shows "opc_client_ok ops (fst (fold (opc_step ops) xs st))
    \<and> (ul_connected (fst st) \<and> OpDisconnect \<notin> set xs \<longrightarrow> ul_connected (fst (fold (opc_step ops) xs st)))"
  using assms(2)
proof (induction xs arbitrary: st)
  case (Cons x xs)
  show ?case
    using Cons.IH [of "opc_step ops x st"] step_ok [OF assms(1) Cons.prems, of x] by auto
qed simp


end
