(* ===== verification/Opcua_Subscription.thy ===== *)
theory Opcua_Subscription
  imports Opcua_Nodes Polling Circuit_Breaker Go_Channel
begin

text \<open>
  \<open>internal/adapter/opcua/subscription.go\<close>: the subscriptions of one session, their monitored items
  and the notifications that the server pushes.  The library's calls are a parameter, and so is the
  callback that takes the data points.  An operation of the manager is atomic; a notification is
  first put into the subscription's channel and later taken out by its handler.  What a handler may
  still do while \<open>Unsubscribe\<close> waits for it changes nothing, since the subscription is inactive by
  then; notifications handled before \<open>Subscribe\<close> has set the active flag, which the code drops, are
  outside of the model.
\<close>

section \<open>State\<close>

record sub_config =
  sg_PublishInterval :: duration
  sg_SamplingInterval :: duration
  sg_QueueSize :: u32
  sg_DiscardOldest :: bool
  sg_DeadbandType :: string
  sg_DeadbandValue :: u64

definition DefaultSubscriptionConfig :: sub_config where
  "DefaultSubscriptionConfig = \<lparr>sg_PublishInterval = 1 * second, sg_SamplingInterval = 500 * millisecond,
     sg_QueueSize = 10, sg_DiscardOldest = True, sg_DeadbandType = ''None'', sg_DeadbandValue = f64_zero\<rparr>"

text \<open>A data change gives client handles and values; \<open>None\<close> is a nil item or a nil value.\<close>

datatype notification =
    NoValue
  | DataChange "(u32 \<times> data_value) option list"
  | EventList

record subscription =
  sb_ID :: u32
  sb_Device :: device
  sb_TagList :: "tag list"
  sb_MonitoredItems :: "string \<rightharpoonup> u32"
  sb_LastValues :: "string \<rightharpoonup> data_point"
  sb_opcuaSub :: bool
  sb_notifyCh :: "notification list"
  sb_publishInterval :: duration
  sb_active :: bool
  sb_handler :: bool

text \<open>A request to monitor a node; the filter is the deadband's type and value.\<close>

record 'n monitor_request =
  mr_NodeID :: 'n
  mr_ClientHandle :: u32
  mr_SamplingInterval :: u64
  mr_QueueSize :: u32
  mr_DiscardOldest :: bool
  mr_Filter :: "(u32 \<times> u64) option"

text \<open>The flag is whether the manager's context has been cancelled.\<close>

record ('w, 'n) sub_lib =
  sbl_Subscribe :: "bool \<Rightarrow> duration \<Rightarrow> 'w \<Rightarrow> (err + u32) \<times> 'w"
  sbl_Monitor :: "bool \<Rightarrow> u32 \<Rightarrow> 'n monitor_request list \<Rightarrow> 'w \<Rightarrow> (err + (u32 \<times> u32) list) \<times> 'w"
  sbl_Cancel :: "bool \<Rightarrow> u32 \<Rightarrow> 'w \<Rightarrow> err option \<times> 'w"

record 'w sub_manager =
  sm_subscriptions :: "string \<rightharpoonup> subscription"
  sm_running :: bool
  sm_cancelled :: bool
  sm_dataHandler :: "(data_point \<Rightarrow> 'w \<Rightarrow> 'w) option"

type_synonym ('w, 'n) sub_state = "'w sub_manager \<times> ('w, 'n) opc_state"

definition NewSubscriptionManager :: "(data_point \<Rightarrow> 'w \<Rightarrow> 'w) option \<Rightarrow> 'w sub_manager" where
  "NewSubscriptionManager handler = \<lparr>sm_subscriptions = Map.empty, sm_running = False, sm_cancelled = False,
     sm_dataHandler = handler\<rparr>"

definition sm_Start :: "bool \<Rightarrow> 'w sub_manager \<Rightarrow> err option \<times> 'w sub_manager" where
  "sm_Start connected sm =
     (if sm_running sm then (None, sm)
      else if \<not> connected then (Some ErrConnectionClosed, sm)
      else (None, sm\<lparr>sm_running := True\<rparr>))"

section \<open>Monitored items\<close>

definition createDeadbandFilter :: "sub_config \<Rightarrow> (u32 \<times> u64) option" where
  "createDeadbandFilter cfg =
     (if sg_DeadbandType cfg = ''Absolute'' then Some (1, sg_DeadbandValue cfg)
      else if sg_DeadbandType cfg = ''Percent'' then Some (2, sg_DeadbandValue cfg)
      else None)"

definition monitor_request_for :: "sub_config \<Rightarrow> u32 \<Rightarrow> 'n \<Rightarrow> 'n monitor_request" where
  "monitor_request_for cfg h n =
     \<lparr>mr_NodeID = n, mr_ClientHandle = h,
      mr_SamplingInterval = f64_of_int (milliseconds (sg_SamplingInterval cfg)),
      mr_QueueSize = sg_QueueSize cfg, mr_DiscardOldest = sg_DiscardOldest cfg,
      mr_Filter = (if sg_DeadbandType cfg \<noteq> ''None'' \<and> f64_positive (sg_DeadbandValue cfg)
                   then createDeadbandFilter cfg else None)\<rparr>"

text \<open>A tag whose node ID cannot be parsed is left out and takes no client handle.\<close>

fun monitor_requests ::
  "('w, 'n) opc_ops \<Rightarrow> sub_config \<Rightarrow> u32 \<Rightarrow> tag list \<Rightarrow> ('w, 'n) opc_state
     \<Rightarrow> 'n monitor_request list \<times> ('w, 'n) opc_state" where
  "monitor_requests ops cfg h [] st = ([], st)"
| "monitor_requests ops cfg h (t # ts) st = (case getNodeID ops (OPCNodeID t) st of
       (Inl e, st1) \<Rightarrow> monitor_requests ops cfg h ts st1
     | (Inr n, st1) \<Rightarrow> (case monitor_requests ops cfg (h + 1) ts st1 of
           (rs, st2) \<Rightarrow> (monitor_request_for cfg h n # rs, st2)))"

text \<open>The results are matched with the list of all tags.\<close>

fun map_items :: "tag list \<Rightarrow> (u32 \<times> u32) list \<Rightarrow> (string \<rightharpoonup> u32) \<Rightarrow> (string \<rightharpoonup> u32)" where
  "map_items (t # ts) ((status, item) # rs) m =
     map_items ts rs (if status = StatusOK then m(tag_ID t \<mapsto> item) else m)"
| "map_items ts rs m = m"

text \<open>
  The goroutine of the handler is started under any context; a cancelled one makes it return, in a step
  of its own (\<open>handler_quits\<close>).
\<close>

definition createOPCSubscription ::
  "('w, 'n) opc_ops \<Rightarrow> ('w, 'n) sub_lib \<Rightarrow> bool \<Rightarrow> subscription \<Rightarrow> sub_config \<Rightarrow> ('w, 'n) opc_state
     \<Rightarrow> (err + subscription) \<times> ('w, 'n) opc_state" where
  "createOPCSubscription ops lib cancelled sub cfg st = (case st of (c, w) \<Rightarrow>
     if \<not> ul_connected c then (Inl ErrConnectionClosed, st)
     else if \<not> ul_client c then (Inl ErrConnectionClosed, st)
     else case sbl_Subscribe lib cancelled (sg_PublishInterval cfg) w of
       (Inl e, w1) \<Rightarrow> (Inl (Wrap ErrOPCUASubscriptionFailed ('': failed to create subscription: '' @ err_text e)), (c, w1))
     | (Inr i, w1) \<Rightarrow>
         (case monitor_requests ops cfg 0 (sb_TagList sub) (c, w1) of (reqs, (c2, w2)) \<Rightarrow>
            if reqs = [] then (Inl (Plain ''no valid tags to monitor''), (c2, snd (sbl_Cancel lib cancelled i w2)))
            else case sbl_Monitor lib cancelled i reqs w2 of
              (Inl e, w3) \<Rightarrow>
                (Inl (Wrap ErrOPCUASubscriptionFailed ('': failed to create monitored items: '' @ err_text e)),
                 (c2, snd (sbl_Cancel lib cancelled i w3)))
            | (Inr rs, w3) \<Rightarrow>
                (Inr (sub\<lparr>sb_ID := i, sb_opcuaSub := True, sb_handler := True,
                          sb_MonitoredItems := map_items (sb_TagList sub) rs (sb_MonitoredItems sub)\<rparr>), (c2, w3))))"

section \<open>Subscribing and unsubscribing\<close>

definition new_subscription :: "device \<Rightarrow> tag list \<Rightarrow> sub_config \<Rightarrow> subscription" where
  "new_subscription d tags cfg = \<lparr>sb_ID = 0, sb_Device = d, sb_TagList = tags, sb_MonitoredItems = Map.empty,
     sb_LastValues = Map.empty, sb_opcuaSub = False, sb_notifyCh = [], sb_publishInterval = sg_PublishInterval cfg,
     sb_active = False, sb_handler = False\<rparr>"

text \<open>The cancellation's error is only logged.\<close>

definition unsubscribeDeviceLocked ::
  "('w, 'n) sub_lib \<Rightarrow> string \<Rightarrow> ('w, 'n) sub_state \<Rightarrow> err option \<times> ('w, 'n) sub_state" where
  "unsubscribeDeviceLocked lib deviceID st = (case st of (sm, (c, w)) \<Rightarrow>
     case sm_subscriptions sm deviceID of
       None \<Rightarrow> (Some ErrDeviceNotFound, st)
     | Some sub \<Rightarrow> (None, (sm\<lparr>sm_subscriptions := (sm_subscriptions sm)(deviceID := None)\<rparr>,
         (c, if sb_opcuaSub sub then snd (sbl_Cancel lib (sm_cancelled sm) (sb_ID sub) w) else w))))"

definition add_subscription ::
  "('w, 'n) opc_ops \<Rightarrow> ('w, 'n) sub_lib \<Rightarrow> device \<Rightarrow> tag list \<Rightarrow> sub_config \<Rightarrow> ('w, 'n) sub_state
     \<Rightarrow> err option \<times> ('w, 'n) sub_state" where
  "add_subscription ops lib d tags cfg st = (case st of (sm, ct) \<Rightarrow>
     case createOPCSubscription ops lib (sm_cancelled sm) (new_subscription d tags cfg) cfg ct of
       (Inl e, ct1) \<Rightarrow> (Some e, (sm\<lparr>sm_subscriptions := (sm_subscriptions sm)(dev_ID d := None)\<rparr>, ct1))
     | (Inr sub, ct1) \<Rightarrow>
         (None, (sm\<lparr>sm_subscriptions := (sm_subscriptions sm)(dev_ID d \<mapsto> sub\<lparr>sb_active := True\<rparr>)\<rparr>, ct1)))"

definition updateSubscriptionLocked ::
  "('w, 'n) opc_ops \<Rightarrow> ('w, 'n) sub_lib \<Rightarrow> device \<Rightarrow> tag list \<Rightarrow> sub_config \<Rightarrow> ('w, 'n) sub_state
     \<Rightarrow> err option \<times> ('w, 'n) sub_state" where
  "updateSubscriptionLocked ops lib d tags cfg st = (case unsubscribeDeviceLocked lib (dev_ID d) st of
     (e, st1) \<Rightarrow> if e \<noteq> None \<and> e \<noteq> Some ErrDeviceNotFound then (e, st1)
                 else add_subscription ops lib d tags cfg st1)"

definition sm_Subscribe ::
  "('w, 'n) opc_ops \<Rightarrow> ('w, 'n) sub_lib \<Rightarrow> device \<Rightarrow> tag list \<Rightarrow> sub_config \<Rightarrow> ('w, 'n) sub_state
     \<Rightarrow> err option \<times> ('w, 'n) sub_state" where
  "sm_Subscribe ops lib d tags cfg st =
     (if \<not> sm_running (fst st) then (Some ErrServiceNotStarted, st)
      else if sm_subscriptions (fst st) (dev_ID d) \<noteq> None then updateSubscriptionLocked ops lib d tags cfg st
      else add_subscription ops lib d tags cfg st)"

definition sm_Unsubscribe :: "('w, 'n) sub_lib \<Rightarrow> string \<Rightarrow> ('w, 'n) sub_state \<Rightarrow> err option \<times> ('w, 'n) sub_state" where
  "sm_Unsubscribe lib deviceID st = unsubscribeDeviceLocked lib deviceID st"

text \<open>\<open>ks\<close>: the order in which Go visits the map.  The context is cancelled before it is used to unsubscribe.\<close>

definition sm_Stop :: "('w, 'n) sub_lib \<Rightarrow> string list \<Rightarrow> ('w, 'n) sub_state \<Rightarrow> ('w, 'n) sub_state" where
  "sm_Stop lib ks st =
     (if \<not> sm_running (fst st) then st
      else case fold (\<lambda>k s. snd (unsubscribeDeviceLocked lib k s)) ks
                  ((fst st)\<lparr>sm_cancelled := True, sm_running := False\<rparr>, snd st) of
        (sm, ct) \<Rightarrow> (sm\<lparr>sm_subscriptions := Map.empty\<rparr>, ct))"


section \<open>Notifications\<close>

text \<open>The topic, as this file builds it.\<close>

definition notification_topic :: "string \<Rightarrow> tag \<Rightarrow> string" where
  "notification_topic prefix t =
     (let suffix = trim_space (TopicSuffix t);
          suffix = (if suffix = [] then tag_Name t else suffix);
          suffix = (if trim_space suffix = [] then tag_ID t else suffix);
          suffix = trim_space suffix;
          suffix = replace_char CHR ''/'' CHR ''_'' suffix;
          suffix = replace_char CHR ''#'' CHR ''_'' suffix;
          suffix = replace_char CHR ''+'' CHR ''_'' suffix;
          suffix = replace_char CHR '' '' CHR ''_'' suffix;
          suffix = trim_char CHR ''_'' suffix
      in if suffix = [] then prefix else prefix @ ''/'' @ suffix)"

definition pushed_point :: "time \<Rightarrow> 'n opc_client \<Rightarrow> device \<Rightarrow> data_value \<Rightarrow> tag \<Rightarrow> data_point" where
  "pushed_point now c d v t =
     (processReadResult now (ul_deviceID c) v t)\<lparr>dp_Topic := notification_topic (UNSPrefix d) t\<rparr>"

definition processDataChange ::
  "('w, 'n) opc_ops \<Rightarrow> (data_point \<Rightarrow> 'w \<Rightarrow> 'w) option \<Rightarrow> (u32 \<times> data_value) option
     \<Rightarrow> subscription \<times> ('w, 'n) opc_state \<Rightarrow> subscription \<times> ('w, 'n) opc_state" where
  "processDataChange ops handler item s = (case s of (sub, (c, w)) \<Rightarrow>
     case item of
       None \<Rightarrow> s
     | Some (h, v) \<Rightarrow>
         if unat h < length (sb_TagList sub) then
           let t = sb_TagList sub ! unat h;
               p = pushed_point (uo_now ops w) c (sb_Device sub) v t
           in (sub\<lparr>sb_LastValues := (sb_LastValues sub)(tag_ID t \<mapsto> p)\<rparr>,
               (opc_upd (\<lambda>u. u\<lparr>us_NotificationCount := us_NotificationCount u + 1\<rparr>) c,
                case handler of None \<Rightarrow> w | Some f \<Rightarrow> f p w))
         else s)"

definition processNotification ::
  "('w, 'n) opc_ops \<Rightarrow> (data_point \<Rightarrow> 'w \<Rightarrow> 'w) option \<Rightarrow> notification
     \<Rightarrow> subscription \<times> ('w, 'n) opc_state \<Rightarrow> subscription \<times> ('w, 'n) opc_state" where
  "processNotification ops handler notif s = (case notif of
       NoValue \<Rightarrow> s
     | EventList \<Rightarrow> s
     | DataChange items \<Rightarrow> fold (processDataChange ops handler) items s)"

text \<open>The case \<open>ctx.Done\<close> of the \<open>select\<close> in \<open>handleNotifications\<close>: the goroutine returns.\<close>

definition handler_quits :: "string \<Rightarrow> ('w, 'n) sub_state \<Rightarrow> ('w, 'n) sub_state" where
  "handler_quits k st = (case st of (sm, ct) \<Rightarrow>
     case sm_subscriptions sm k of
       None \<Rightarrow> st
     | Some sub \<Rightarrow>
         if sb_handler sub \<and> sm_cancelled sm
         then (sm\<lparr>sm_subscriptions := (sm_subscriptions sm)(k \<mapsto> sub\<lparr>sb_handler := False\<rparr>)\<rparr>, ct) else st)"

text \<open>
  A turn of \<open>handleNotifications\<close> that takes a notification if there is one; else it waits, or returns when
  the context is cancelled.  With both cases ready Go's \<open>select\<close> picks either: this one or \<open>handler_quits\<close>.
\<close>

definition handle_one :: "('w, 'n) opc_ops \<Rightarrow> string \<Rightarrow> ('w, 'n) sub_state \<Rightarrow> ('w, 'n) sub_state" where
  "handle_one ops k st = (case st of (sm, ct) \<Rightarrow>
     case sm_subscriptions sm k of
       None \<Rightarrow> st
     | Some sub \<Rightarrow>
         if \<not> sb_handler sub then st
         else case chan_recv (sb_notifyCh sub) of
           None \<Rightarrow> handler_quits k st
         | Some (n, rest) \<Rightarrow>
             let sub1 = sub\<lparr>sb_notifyCh := rest\<rparr> in
             if \<not> sb_active sub1 then (sm\<lparr>sm_subscriptions := (sm_subscriptions sm)(k \<mapsto> sub1)\<rparr>, ct)
             else case processNotification ops (sm_dataHandler sm) n (sub1, ct) of
               (sub2, ct2) \<Rightarrow> (sm\<lparr>sm_subscriptions := (sm_subscriptions sm)(k \<mapsto> sub2)\<rparr>, ct2))"

text \<open>The library's send to the channel of capacity 100; on a full channel it waits.\<close>

definition deliver :: "string \<Rightarrow> notification \<Rightarrow> ('w, 'n) sub_state \<Rightarrow> ('w, 'n) sub_state" where
  "deliver k n st = (case st of (sm, ct) \<Rightarrow>
     case sm_subscriptions sm k of
       None \<Rightarrow> st
     | Some sub \<Rightarrow>
         (case chan_send 100 (sb_notifyCh sub) n of
            None \<Rightarrow> st
          | Some q \<Rightarrow> (sm\<lparr>sm_subscriptions := (sm_subscriptions sm)(k \<mapsto> sub\<lparr>sb_notifyCh := q\<rparr>)\<rparr>, ct)))"

section \<open>What the manager tells\<close>

record sub_stats =
  st_TotalSubscriptions :: nat
  st_ActiveSubscriptions :: nat
  st_TotalMonitoredItems :: nat
  st_Running :: bool

definition sm_Stats :: "'w sub_manager \<Rightarrow> sub_stats" where
  "sm_Stats sm = (let m = sm_subscriptions sm in
     \<lparr>st_TotalSubscriptions = card (dom m),
      st_ActiveSubscriptions = card {k \<in> dom m. sb_active (the (m k))},
      st_TotalMonitoredItems = (\<Sum>k\<in>dom m. card (dom (sb_MonitoredItems (the (m k))))),
      st_Running = sm_running sm\<rparr>)"

definition sm_GetLastValue :: "'w sub_manager \<Rightarrow> string \<Rightarrow> string \<Rightarrow> data_point option" where
  "sm_GetLastValue sm deviceID tagID = (case sm_subscriptions sm deviceID of
       None \<Rightarrow> None
     | Some sub \<Rightarrow> sb_LastValues sub tagID)"

section \<open>Runs\<close>

datatype sub_op =
    SubStart
  | SubSubscribe device "tag list" sub_config
  | SubUnsubscribe string
  | SubDeliver string notification
  | SubHandle string
  | SubHandlerQuits string
  | SubStop "string list"

fun sub_step :: "('w, 'n) opc_ops \<Rightarrow> ('w, 'n) sub_lib \<Rightarrow> sub_op \<Rightarrow> ('w, 'n) sub_state \<Rightarrow> ('w, 'n) sub_state" where
  "sub_step ops lib SubStart st = (snd (sm_Start (ul_connected (fst (snd st))) (fst st)), snd st)"
| "sub_step ops lib (SubSubscribe d ts cfg) st = snd (sm_Subscribe ops lib d ts cfg st)"
| "sub_step ops lib (SubUnsubscribe k) st = snd (sm_Unsubscribe lib k st)"
| "sub_step ops lib (SubDeliver k n) st = deliver k n st"
| "sub_step ops lib (SubHandle k) st = handle_one ops k st"
| "sub_step ops lib (SubHandlerQuits k) st = handler_quits k st"
| "sub_step ops lib (SubStop ks) st = sm_Stop lib ks st"

section \<open>Facts\<close>

lemma notification_topic_alt: "notification_topic prefix t = topicForTag prefix t"
  by (simp add: notification_topic_def topicForTag_def sanitizeTopicSegment_def Let_def)

lemma processReadResult_device [simp]: "dp_DeviceID (processReadResult now d v t) = d"
  by (simp add: processReadResult_def Let_def opc_no_value_def AcquireDataPoint_def WithPriority_def
      WithRawValue_def WithSourceTimestamp_def split: option.splits)

lemma pushed_point_simps [simp]:
  "dp_TagID (pushed_point now c d v t) = tag_ID t"
  "dp_DeviceID (pushed_point now c d v t) = ul_deviceID c"
  "dp_Topic (pushed_point now c d v t) = topicForTag (UNSPrefix d) t"
  by (simp_all add: pushed_point_def notification_topic_alt)

lemma getNodeID_frame:
  "ul_connected (fst (snd (getNodeID ops s st))) = ul_connected (fst st)"
  "ul_client (fst (snd (getNodeID ops s st))) = ul_client (fst st)"
  "ul_deviceID (fst (snd (getNodeID ops s st))) = ul_deviceID (fst st)"
  "ul_namespaceArray (fst (snd (getNodeID ops s st))) = ul_namespaceArray (fst st)"
  "snd (snd (getNodeID ops s st)) = snd st"
  by (auto simp: getNodeID_def split: prod.splits option.splits sum.splits)

text \<open>The requests are those of the tags whose node IDs parse, numbered from \<open>h\<close>.\<close>

definition monitorable :: "('w, 'n) opc_ops \<Rightarrow> 'n opc_client \<Rightarrow> tag \<Rightarrow> 'n option" where
  "monitorable ops c t = (case parse_node ops (ul_namespaceArray c) (OPCNodeID t) of Inr n \<Rightarrow> Some n | Inl e \<Rightarrow> None)"

lemma monitorable_cong: "ul_namespaceArray c = ul_namespaceArray c' \<Longrightarrow> monitorable ops c = monitorable ops c'"
  by (simp add: monitorable_def fun_eq_iff)

lemma requests_spec:
  assumes "order_ok ops" "live ops st" "monitor_requests ops cfg h ts st = (reqs, st')"
  shows "live ops st' \<and> ul_namespaceArray (fst st') = ul_namespaceArray (fst st)
    \<and> ul_deviceID (fst st') = ul_deviceID (fst st) \<and> snd st' = snd st
    \<and> map mr_NodeID reqs = List.map_filter (monitorable ops (fst st)) ts
    \<and> (\<forall>i<length reqs. mr_ClientHandle (reqs ! i) = h + of_nat i)"
  using assms(2,3)
proof (induction ts arbitrary: h st reqs)
  case (Cons t ts)
  obtain r st1 where g: "getNodeID ops (OPCNodeID t) st = (r, st1)" by (rule prod.exhaust)
  have l: "live ops st1" "ul_namespaceArray (fst st1) = ul_namespaceArray (fst st)"
    "ul_deviceID (fst st1) = ul_deviceID (fst st)" "snd st1 = snd st"
    using getNodeID_keeps [OF assms(1), of st "OPCNodeID t"] Cons.prems(1) g by (auto simp: live_def)
  have m: "(\<exists>e. r = Inl e) \<and> monitorable ops (fst st) t = None
      \<or> (\<exists>n. r = Inr n \<and> monitorable ops (fst st) t = Some n)"
    using getNodeID_result [of ops "fst st" "OPCNodeID t" "snd st"] Cons.prems(1) g
    by (auto simp: live_def opc_client_ok_def monitorable_def split: sum.splits)
  note same = monitorable_cong [OF l(2), of ops]
  show ?case
  proof (cases r)
    case (Inl e)
    then show ?thesis using Cons.IH [OF l(1), of h reqs] Cons.prems(2) g m l same
      by (simp add: List.map_filter_simps)
  next
    case (Inr n)
    obtain rs st2 where rs: "monitor_requests ops cfg (h + 1) ts st1 = (rs, st2)" by (rule prod.exhaust)
    have reqs: "reqs = monitor_request_for cfg h n # rs" "st' = st2" using Cons.prems(2) g Inr rs by simp_all
    have "mr_ClientHandle (reqs ! i) = h + of_nat i" if "i < length reqs" for i
      using that Cons.IH [OF l(1) rs [folded reqs(2)]] reqs(1)
      by (cases i) (auto simp: monitor_request_for_def)
    then show ?thesis using Cons.IH [OF l(1) rs [folded reqs(2)]] reqs Inr m l same
      by (simp add: List.map_filter_simps monitor_request_for_def)
  qed
qed (auto simp: List.map_filter_simps)

lemma processDataChange_at:
  assumes "i < length (sb_TagList sub)" "length (sb_TagList sub) \<le> 2 ^ 32"
  shows "processDataChange ops handler (Some (of_nat i, v)) (sub, (c, w)) =
    (let t = sb_TagList sub ! i; p = pushed_point (uo_now ops w) c (sb_Device sub) v t
     in (sub\<lparr>sb_LastValues := (sb_LastValues sub)(tag_ID t \<mapsto> p)\<rparr>,
         (opc_upd (\<lambda>u. u\<lparr>us_NotificationCount := us_NotificationCount u + 1\<rparr>) c,
          case handler of None \<Rightarrow> w | Some f \<Rightarrow> f p w)))"
proof -
  have "unat (of_nat i :: u32) = i" using assms by (simp add: unsigned_of_nat take_bit_nat_eq_self)
  then show ?thesis using assms(1) by (simp add: processDataChange_def Let_def)
qed

section \<open>The manager's invariant\<close>

text \<open>
  \<open>D\<close>: the notifications that the library has delivered for the device.  What waits in the channel is among
  them, and what is kept as a tag's last value is the point made from an item of one of them, for the tag whose
  place in the list is the item's client handle.
\<close>

definition pushed_from :: "time \<Rightarrow> string \<Rightarrow> device \<Rightarrow> data_value \<Rightarrow> tag \<Rightarrow> data_point" where
  "pushed_from now client d v t = (processReadResult now client v t)\<lparr>dp_Topic := notification_topic (UNSPrefix d) t\<rparr>"

definition value_from :: "notification set \<Rightarrow> device \<Rightarrow> tag list \<Rightarrow> string \<Rightarrow> data_point \<Rightarrow> bool" where
  "value_from D d ts i p \<longleftrightarrow> (\<exists>items h v now c. DataChange items \<in> D \<and> Some (h, v) \<in> set items
     \<and> unat h < length ts \<and> tag_ID (ts ! unat h) = i \<and> p = pushed_from now c d v (ts ! unat h))"

definition from_delivered :: "notification set \<Rightarrow> subscription \<Rightarrow> bool" where
  "from_delivered D sub \<longleftrightarrow> set (sb_notifyCh sub) \<subseteq> D
     \<and> (\<forall>i p. sb_LastValues sub i = Some p \<longrightarrow> value_from D (sb_Device sub) (sb_TagList sub) i p)"

lemma value_fromI:
  assumes "DataChange items \<in> D" "Some (h, v) \<in> set items" "unat h < length ts"
  shows "value_from D d ts (tag_ID (ts ! unat h)) (pushed_from now c d v (ts ! unat h))"
  using assms unfolding value_from_def by blast

lemma pushed_point_from: "pushed_point now c d v t = pushed_from now (ul_deviceID c) d v t"
  by (simp add: pushed_point_def pushed_from_def)

text \<open>
  A registered subscription is the device's, active and known to the server; its channel is bounded and its
  items are items of its tags.
\<close>

definition sub_ok :: "notification set \<Rightarrow> string \<Rightarrow> subscription \<Rightarrow> bool" where
  "sub_ok D k sub \<longleftrightarrow> dev_ID (sb_Device sub) = k \<and> sb_active sub \<and> sb_opcuaSub sub
     \<and> length (sb_notifyCh sub) \<le> 100 \<and> dom (sb_MonitoredItems sub) \<subseteq> tag_ID ` set (sb_TagList sub)
     \<and> from_delivered D sub"

definition manager_ok :: "(string \<Rightarrow> notification set) \<Rightarrow> 'w sub_manager \<Rightarrow> bool" where
  "manager_ok D sm \<longleftrightarrow> (\<forall>k sub. sm_subscriptions sm k = Some sub \<longrightarrow>
     sub_ok (D k) k sub \<and> sm_running sm \<and> (sb_handler sub \<or> sm_cancelled sm))"

lemma from_delivered_mono: "D \<subseteq> D' \<Longrightarrow> from_delivered D sub \<Longrightarrow> from_delivered D' sub"
  unfolding from_delivered_def value_from_def by blast

lemma manager_ok_mono: "(\<And>k. D k \<subseteq> D' k) \<Longrightarrow> manager_ok D sm \<Longrightarrow> manager_ok D' sm"
  using from_delivered_mono unfolding manager_ok_def sub_ok_def by meson

lemma map_items_dom: "dom (map_items ts rs m) \<subseteq> dom m \<union> tag_ID ` set ts"
proof (induction ts rs m rule: map_items.induct)
  case (1 t ts status item rs m)
  then show ?case by (fastforce split: if_splits)
qed auto

lemma createOPCSubscription_ok:
  assumes "createOPCSubscription ops lib b (new_subscription d tags cfg) cfg ct = (Inr sub, ct')"
  shows "sub_ok D (dev_ID d) (sub\<lparr>sb_active := True\<rparr>) \<and> sb_handler sub"
proof -
  obtain i rs where "sub = (new_subscription d tags cfg)\<lparr>sb_ID := i, sb_opcuaSub := True, sb_handler := True,
      sb_MonitoredItems := map_items tags rs Map.empty\<rparr>"
    using assms by (auto simp: createOPCSubscription_def new_subscription_def split: prod.splits sum.splits if_splits)
  then show ?thesis
    using map_items_dom [of tags rs Map.empty] by (simp add: sub_ok_def from_delivered_def new_subscription_def)
qed

lemma unsubscribe_ok:
  "manager_ok D (fst st) \<Longrightarrow> manager_ok D (fst (snd (unsubscribeDeviceLocked lib k st)))
     \<and> sm_running (fst (snd (unsubscribeDeviceLocked lib k st))) = sm_running (fst st)"
  by (auto simp: unsubscribeDeviceLocked_def manager_ok_def split: prod.splits option.splits)

lemma add_subscription_ok:
  assumes "manager_ok D (fst st)" "sm_running (fst st)"
  shows "manager_ok D (fst (snd (add_subscription ops lib d tags cfg st)))"
proof -
  obtain sm ct r ct1 where st: "st = (sm, ct)"
    and c: "createOPCSubscription ops lib (sm_cancelled sm) (new_subscription d tags cfg) cfg ct = (r, ct1)"
    by (metis prod.exhaust)
  show ?thesis
  proof (cases r)
    case (Inr sub)
    then show ?thesis using createOPCSubscription_ok [of ops lib "sm_cancelled sm" d tags cfg ct sub ct1 "D (dev_ID d)"] assms c st
      by (auto simp: add_subscription_def manager_ok_def)
  qed (use assms c st in \<open>auto simp: add_subscription_def manager_ok_def\<close>)
qed

lemma Subscribe_ok:
  assumes "manager_ok D (fst st)"
  shows "manager_ok D (fst (snd (sm_Subscribe ops lib d tags cfg st)))"
proof -
  obtain e st1 where u: "unsubscribeDeviceLocked lib (dev_ID d) st = (e, st1)" by (rule prod.exhaust)
  then have "manager_ok D (fst st1)" "sm_running (fst st1) = sm_running (fst st)"
    using unsubscribe_ok [OF assms, of lib "dev_ID d"] by simp_all
  then show ?thesis
    using assms u add_subscription_ok [of D st ops lib d tags cfg] add_subscription_ok [of D st1 ops lib d tags cfg]
    by (simp add: sm_Subscribe_def updateSubscriptionLocked_def)
qed

lemma processDataChange_sub_ok:
  assumes "sub_ok D k (fst s)" "DataChange items \<in> D" "item \<in> set items"
  shows "sub_ok D k (fst (processDataChange ops handler item s))
    \<and> sb_handler (fst (processDataChange ops handler item s)) = sb_handler (fst s)"
proof (cases item)
  case (Some hv)
  obtain sub c w h v where s: "s = (sub, (c, w))" "hv = (h, v)" by (metis prod.exhaust)
  show ?thesis
  proof (cases "unat h < length (sb_TagList sub)")
    case True
    then have "from_delivered D (fst (processDataChange ops handler item s))"
      using assms s Some by (auto simp: sub_ok_def from_delivered_def processDataChange_def Let_def pushed_point_from value_fromI)
    then show ?thesis using assms s Some True by (simp add: processDataChange_def Let_def sub_ok_def)
  qed (use assms s Some in \<open>simp add: processDataChange_def\<close>)
qed (use assms in \<open>simp add: processDataChange_def split: prod.split\<close>)

lemma processNotification_sub_ok:
  assumes "sub_ok D k (fst s)" "n \<in> D"
  shows "sub_ok D k (fst (processNotification ops handler n s))
    \<and> sb_handler (fst (processNotification ops handler n s)) = sb_handler (fst s)"
proof (cases n)
  case (DataChange items)
  have "sub_ok D k (fst (fold (processDataChange ops handler) is s))
      \<and> sb_handler (fst (fold (processDataChange ops handler) is s)) = sb_handler (fst s)"
    if "set is \<subseteq> set items" "sub_ok D k (fst s)" for "is" s
    using that
  proof (induction "is" arbitrary: s)
    case (Cons i "is")
    have "sub_ok D k (fst (processDataChange ops handler i s))
        \<and> sb_handler (fst (processDataChange ops handler i s)) = sb_handler (fst s)"
      using Cons.prems assms(2) DataChange by (intro processDataChange_sub_ok [of D k s items]) auto
    then show ?case using Cons.IH [of "processDataChange ops handler i s"] Cons.prems(1) by simp
  qed simp
  then show ?thesis using assms(1) DataChange by (simp add: processNotification_def)
qed (use assms in \<open>simp_all add: processNotification_def\<close>)

lemma manager_ok_put:
  "manager_ok D sm \<Longrightarrow> sm_subscriptions sm k = Some old \<Longrightarrow> sub_ok (D k) k sub \<Longrightarrow> sb_handler sub \<or> sm_cancelled sm \<Longrightarrow>
     manager_ok D (sm\<lparr>sm_subscriptions := (sm_subscriptions sm)(k \<mapsto> sub)\<rparr>)"
  by (auto simp: manager_ok_def)

lemma handler_quits_ok: "manager_ok D (fst st) \<Longrightarrow> manager_ok D (fst (handler_quits k st))"
  by (auto simp: handler_quits_def manager_ok_def sub_ok_def from_delivered_def split: prod.splits option.splits)

lemma handle_one_ok:
  assumes "manager_ok D (fst st)"
  shows "manager_ok D (fst (handle_one ops k st))"
proof (cases "sm_subscriptions (fst st) k")
  case (Some sub)
  obtain sm ct where st: "st = (sm, ct)" by (rule prod.exhaust)
  have ok: "sub_ok (D k) k sub" "manager_ok D sm" "sm_subscriptions sm k = Some sub"
    using assms Some st by (auto simp: manager_ok_def)
  show ?thesis
  proof (cases "sb_handler sub")
    case True
    show ?thesis
    proof (cases "sb_notifyCh sub")
      case Nil
      then show ?thesis using handler_quits_ok [OF assms] ok st True by (simp add: handle_one_def)
    next
      case (Cons n rest)
      let ?sub = "sub\<lparr>sb_notifyCh := rest\<rparr>"
      have "sub_ok (D k) k ?sub" "n \<in> D k" using ok(1) Cons by (simp_all add: sub_ok_def from_delivered_def)
      then have p: "sub_ok (D k) k (fst (processNotification ops (sm_dataHandler sm) n (?sub, ct)))
          \<and> sb_handler (fst (processNotification ops (sm_dataHandler sm) n (?sub, ct)))"
        using processNotification_sub_ok [of "D k" k "(?sub, ct)" n ops "sm_dataHandler sm"] True by simp
      then have "manager_ok D (sm\<lparr>sm_subscriptions := (sm_subscriptions sm)
          (k \<mapsto> fst (processNotification ops (sm_dataHandler sm) n (?sub, ct)))\<rparr>)"
        by (intro manager_ok_put [OF ok(2,3)]) simp_all
      moreover have "sb_active sub" using ok(1) by (simp add: sub_ok_def)
      ultimately show ?thesis using ok Cons st True by (simp add: handle_one_def split_beta Let_def)
    qed
  qed (use assms ok st in \<open>simp add: handle_one_def\<close>)
qed (use assms in \<open>cases st; simp add: handle_one_def\<close>)

text \<open>The notifications that a run delivers for a device.\<close>

definition delivered :: "sub_op list \<Rightarrow> string \<Rightarrow> notification set" where
  "delivered xs k = {n. SubDeliver k n \<in> set xs}"

lemma deliver_ok:
  assumes "manager_ok D (fst st)" "\<And>i. D i \<subseteq> D' i" "n \<in> D' k"
  shows "manager_ok D' (fst (deliver k n st))"
proof -
  have "manager_ok D' (fst st)" using assms(1,2) by (rule manager_ok_mono [rotated])
  then show ?thesis using assms(3)
    by (auto simp: deliver_def manager_ok_def chan_send_def sub_ok_def from_delivered_def
        split: prod.splits option.splits if_splits)
qed

lemma sub_step_ok:
  assumes "manager_ok D (fst st)"
  shows "manager_ok (\<lambda>k. D k \<union> delivered [x] k) (fst (sub_step ops lib x st))"
proof (cases x)
  case (SubDeliver k n)
  then show ?thesis using deliver_ok [OF assms, of "\<lambda>k. D k \<union> delivered [x] k" n k] by (simp add: delivered_def)
next
  case SubStart
  then have "manager_ok D (fst (sub_step ops lib x st))" using assms by (auto simp: sm_Start_def manager_ok_def)
  then show ?thesis by (rule manager_ok_mono [rotated]) simp
next
  case (SubStop ks)
  then have "manager_ok D (fst (sub_step ops lib x st))" using assms by (auto simp: sm_Stop_def manager_ok_def split: prod.splits)
  then show ?thesis by (rule manager_ok_mono [rotated]) simp
next
  case (SubUnsubscribe k)
  then have "manager_ok D (fst (sub_step ops lib x st))" using unsubscribe_ok [OF assms, of lib k] by (simp add: sm_Unsubscribe_def)
  then show ?thesis by (rule manager_ok_mono [rotated]) simp
qed (rule manager_ok_mono [where D = D], simp, simp add: assms Subscribe_ok handle_one_ok handler_quits_ok)+

lemma sub_run_ok:
  "manager_ok D (fst st) \<Longrightarrow> manager_ok (\<lambda>k. D k \<union> delivered xs k) (fst (fold (sub_step ops lib) xs st))"
proof (induction xs arbitrary: D st)
  case (Cons x xs)
  have "manager_ok (\<lambda>k. (D k \<union> delivered [x] k) \<union> delivered xs k) (fst (fold (sub_step ops lib) xs (sub_step ops lib x st)))"
    by (rule Cons.IH [OF sub_step_ok [OF Cons.prems]])
  then show ?case unfolding fold_simps by (rule manager_ok_mono [rotated]) (auto simp: delivered_def)
qed (simp add: delivered_def)

text \<open>What happens between the operations of a stopped manager: nothing reaches the client or the handler.\<close>

lemma stopped_step:
  assumes "sm_subscriptions (fst st) = Map.empty" "\<not> sm_running (fst st)" "x \<noteq> SubStart"
  shows "sub_step ops lib x st = st"
  using assms by (cases st; cases x)
    (auto simp: sm_Subscribe_def sm_Unsubscribe_def unsubscribeDeviceLocked_def deliver_def handle_one_def handler_quits_def sm_Stop_def)

lemma stopped_run:
  "sm_subscriptions (fst st) = Map.empty \<Longrightarrow> \<not> sm_running (fst st) \<Longrightarrow> SubStart \<notin> set xs \<Longrightarrow>
     fold (sub_step ops lib) xs st = st"
  by (induction xs) (auto simp: stopped_step)

lemma fold_unsubscribe_running:
  "sm_running (fst (fold (\<lambda>k s. snd (unsubscribeDeviceLocked lib k s)) ks st)) = sm_running (fst st)"
  by (induction ks arbitrary: st)
    (auto simp: unsubscribeDeviceLocked_def split: prod.splits option.splits)

section \<open>A concrete subscription\<close>

text \<open>A server that accepts every subscription and monitors every item; the handler keeps the last point.\<close>

definition cell_lib :: "(cells, string) sub_lib" where
  "cell_lib = \<lparr>sbl_Subscribe = (\<lambda>b d w. (Inr 7, w)),
     sbl_Monitor = (\<lambda>b i rs w. (Inr (map (\<lambda>r. (StatusOK, mr_ClientHandle r + 100)) rs), w)),
     sbl_Cancel = (\<lambda>b i w. (None, w))\<rparr>"

text \<open>As \<open>cell_ops\<close>, with node IDs that start with an exclamation mark rejected.\<close>

definition picky_ops :: "(cells, string) opc_ops" where
  "picky_ops = cell_ops\<lparr>uo_ParseNodeID := (\<lambda>s. if has_prefix s ''!'' then Inl (Plain ''bad node'') else Inr s)\<rparr>"

definition pushed_device :: device where
  "pushed_device = raw_device\<lparr>dev_ID := ''ua'', UNSPrefix := ''plant/ua''\<rparr>"

definition bad_node_tag :: tag where
  "bad_node_tag = node_tag\<lparr>tag_ID := ''bad'', OPCNodeID := ''!''\<rparr>"

definition sample_value :: data_value where
  "sample_value = \<lparr>dv_Status = StatusOK, dv_Value = Some (VInt32 5), dv_SourceTimestamp = None\<rparr>"

lemma picky_order: "order_ok picky_ops"
  using cell_order by (simp add: order_ok_def picky_ops_def)

lemma picky_live: "live picky_ops (open_opc_client, w)"
  by (simp add: live_def opc_client_ok_def open_opc_client_def)

section \<open>The topics of push and poll\<close>

lemma pushed_topic_polled:
  assumes "t \<in> set ts" "distinct (map tag_ID ts)" "tag_ID t \<noteq> []"
  shows "dp_Topic (pushed_from now c d v t) = point_topic (UNSPrefix d) (tag_by_id ts) (pushed_from now c d v t)"
  using tag_by_id_distinct [OF assms(2,1,3)] by (simp add: point_topic_def pushed_from_def notification_topic_alt)

section \<open>Properties\<close>

text \<open>
  When every tag's node ID parses, a pushed value reaches the tag it was monitored for: the request
  with client handle \<open>i\<close> is for the node of tag \<open>i\<close>, and a notification with that handle becomes a
  data point of that tag, kept as its last value.
\<close>

theorem push_reaches_its_tag:
  assumes "order_ok ops" "live ops st" "monitor_requests ops cfg 0 tags st = (reqs, st')"
    and "\<forall>t\<in>set tags. monitorable ops (fst st) t \<noteq> None" "length tags \<le> 2 ^ 32" "i < length tags"
    and "sb_TagList sub = tags"
  shows "length reqs = length tags
    \<and> mr_NodeID (reqs ! i) = the (monitorable ops (fst st) (tags ! i))
    \<and> sb_LastValues (fst (processDataChange ops handler (Some (mr_ClientHandle (reqs ! i), v)) (sub, (c, w)))) (tag_ID (tags ! i))
        = Some (pushed_point (uo_now ops w) c (sb_Device sub) v (tags ! i))"
proof -
  have filt: "List.map_filter f ts = map (the \<circ> f) ts" if "\<forall>t\<in>set ts. f t \<noteq> None" for f :: "tag \<Rightarrow> 'b option" and ts
    using that by (induction ts) (auto simp: List.map_filter_simps)
  have nodes: "map mr_NodeID reqs = map (the \<circ> monitorable ops (fst st)) tags"
    and handles: "\<forall>i<length reqs. mr_ClientHandle (reqs ! i) = of_nat i"
    using requests_spec [OF assms(1-3)] filt [OF assms(4)] by auto
  have len: "length reqs = length tags" using arg_cong [OF nodes, of length] by simp
  have "mr_NodeID (reqs ! i) = the (monitorable ops (fst st) (tags ! i))"
    using arg_cong [OF nodes, of "\<lambda>xs. xs ! i"] assms(6) len by simp
  then show ?thesis using len handles assms(5-7)
    by (simp add: processDataChange_at Let_def)
qed

theorem push_reaches_its_tag_witness:
  "\<exists>reqs st'. monitor_requests cell_ops DefaultSubscriptionConfig 0 [node_tag] (open_opc_client, Map.empty) = (reqs, st')
     \<and> length reqs = 1 \<and> mr_NodeID (reqs ! 0) = OPCNodeID node_tag
     \<and> sb_LastValues (fst (processDataChange cell_ops None (Some (mr_ClientHandle (reqs ! 0), sample_value))
         (new_subscription pushed_device [node_tag] DefaultSubscriptionConfig, (open_opc_client, Map.empty)))) (tag_ID node_tag)
       = Some (pushed_point (uo_now cell_ops (Map.empty :: cells)) open_opc_client pushed_device sample_value node_tag)"
proof -
  obtain reqs st' where r: "monitor_requests cell_ops DefaultSubscriptionConfig 0 [node_tag] (open_opc_client, Map.empty) = (reqs, st')"
    by (rule prod.exhaust)
  have "monitorable cell_ops open_opc_client node_tag = Some (OPCNodeID node_tag)"
    by (simp add: monitorable_def parse_node_def node_tag_def zero_tag_def cell_ops_def)
  then show ?thesis
    using push_reaches_its_tag [OF cell_order cell_live r, where i = 0 and handler = None and c = open_opc_client and w = Map.empty
        and sub = "new_subscription pushed_device [node_tag] DefaultSubscriptionConfig" and v = sample_value] r
    by (simp add: new_subscription_def pushed_device_def)
qed

text \<open>
  C40: A tag whose node ID does not parse shifts the values of the tags behind it: it takes no client
  handle but keeps its place in the list by which handles are looked up, so the value pushed for the
  next tag is published as its own.
\<close>

theorem skipped_tag_shifts:
  assumes "order_ok ops" "live ops st" "monitor_requests ops cfg 0 (t1 # t2 # ts) st = (reqs, st')"
    and "monitorable ops (fst st) t1 = None" "monitorable ops (fst st) t2 = Some n"
    and "sb_TagList sub = t1 # t2 # ts"
  shows "mr_NodeID (reqs ! 0) = n
    \<and> sb_LastValues (fst (processDataChange ops handler (Some (mr_ClientHandle (reqs ! 0), v)) (sub, (c, w)))) (tag_ID t1)
        = Some (pushed_point (uo_now ops w) c (sb_Device sub) v t1)"
proof -
  have nodes: "map mr_NodeID reqs = n # List.map_filter (monitorable ops (fst st)) ts"
    and handles: "\<forall>i<length reqs. mr_ClientHandle (reqs ! i) = of_nat i"
    using requests_spec [OF assms(1-3)] assms(4,5) by (auto simp: List.map_filter_simps)
  obtain r rs where "reqs = r # rs" using nodes by (cases reqs) auto
  then have "mr_NodeID (reqs ! 0) = n" "mr_ClientHandle (reqs ! 0) = 0" using nodes handles by auto
  then show ?thesis using assms(6) by (simp add: processDataChange_def Let_def)
qed

theorem skipped_tag_shifts_witness:
  "\<exists>reqs st'. monitor_requests picky_ops DefaultSubscriptionConfig 0 [bad_node_tag, node_tag] (open_opc_client, Map.empty) = (reqs, st')
     \<and> mr_NodeID (reqs ! 0) = OPCNodeID node_tag
     \<and> map_option dp_TagID (sb_LastValues (fst (processDataChange picky_ops None (Some (mr_ClientHandle (reqs ! 0), sample_value))
         (new_subscription pushed_device [bad_node_tag, node_tag] DefaultSubscriptionConfig, (open_opc_client, Map.empty)))) ''bad'')
       = Some ''bad''"
proof -
  obtain reqs st' where r: "monitor_requests picky_ops DefaultSubscriptionConfig 0 [bad_node_tag, node_tag] (open_opc_client, Map.empty) = (reqs, st')"
    by (rule prod.exhaust)
  show ?thesis
    using skipped_tag_shifts [OF picky_order picky_live r, where n = "OPCNodeID node_tag" and handler = None and c = open_opc_client
        and w = Map.empty and v = sample_value and sub = "new_subscription pushed_device [bad_node_tag, node_tag] DefaultSubscriptionConfig"] r
    by (simp add: monitorable_def parse_node_def node_tag_def zero_tag_def cell_ops_def new_subscription_def
        picky_ops_def bad_node_tag_def)
qed

text \<open>
  C38: However starting, subscribing, pushing, handling, unsubscribing and stopping are interleaved, every
  registered subscription is its device's, active and known to the server, and its channel holds at most 100
  notifications.  The last value kept for a tag ID is the point made of an item that the library delivered for
  this device, and of no other tag than the one whose place in the tag list is the item's client handle; when
  the tag IDs are distinct and not empty it is on the topic that polling gives to that tag.  A handler runs for
  the subscription, unless the manager's context is cancelled, as it stays when a stopped manager is started
  again: then the subscription can be active with nobody to handle what is pushed.
\<close>

theorem subscriptions_consistent:
  assumes "fold (sub_step ops lib) xs (NewSubscriptionManager handler, ct) = (sm, ct')"
    and "sm_subscriptions sm k = Some sub"
  shows "sub_ok (delivered xs k) k sub \<and> (sb_handler sub \<or> sm_cancelled sm)
    \<and> (\<forall>i p. distinct (map tag_ID (sb_TagList sub)) \<and> i \<noteq> [] \<and> sb_LastValues sub i = Some p \<longrightarrow>
         dp_Topic p = point_topic (UNSPrefix (sb_Device sub)) (tag_by_id (sb_TagList sub)) p)"
proof -
  have "manager_ok (\<lambda>k. {} \<union> delivered xs k) (fst (fold (sub_step ops lib) xs (NewSubscriptionManager handler, ct)))"
    by (rule sub_run_ok) (simp add: NewSubscriptionManager_def manager_ok_def)
  then have ok: "sub_ok (delivered xs k) k sub" "sb_handler sub \<or> sm_cancelled sm"
    using assms by (simp_all add: manager_ok_def)
  have "dp_Topic p = point_topic (UNSPrefix (sb_Device sub)) (tag_by_id (sb_TagList sub)) p"
    if "distinct (map tag_ID (sb_TagList sub))" "i \<noteq> []" "sb_LastValues sub i = Some p" for i p
  proof -
    note last = that(3)
    obtain h v now c where p: "unat h < length (sb_TagList sub)" "tag_ID (sb_TagList sub ! unat h) = i"
        "p = pushed_from now c (sb_Device sub) v (sb_TagList sub ! unat (h :: u32))"
      using ok(1) last unfolding sub_ok_def from_delivered_def value_from_def by blast
    show ?thesis using pushed_topic_polled [OF nth_mem [OF p(1)] that(1)] p(2) that(2) unfolding p(3) by simp
  qed
  then show ?thesis using ok by blast
qed

text \<open>A run in which a value is pushed and handled.\<close>

abbreviation pushed_run :: "sub_op list" where
  "pushed_run \<equiv> [SubStart, SubSubscribe pushed_device [node_tag] DefaultSubscriptionConfig,
     SubDeliver ''ua'' (DataChange [Some (0, sample_value)]), SubHandle ''ua'']"

lemmas run_simps = NewSubscriptionManager_def sm_Start_def sm_Subscribe_def add_subscription_def createOPCSubscription_def
  open_opc_client_def cell_lib_def pushed_device_def new_subscription_def getNodeID_def node_tag_def zero_tag_def
  cell_ops_def deliver_def chan_send_def handle_one_def processNotification_def processDataChange_def

theorem subscriptions_consistent_witness:
  "\<exists>sm ct' sub p. fold (sub_step cell_ops cell_lib) pushed_run (NewSubscriptionManager None, (open_opc_client, Map.empty)) = (sm, ct')
     \<and> sm_subscriptions sm ''ua'' = Some sub \<and> sb_LastValues sub (tag_ID node_tag) = Some p
     \<and> dp_Topic p = point_topic (UNSPrefix (sb_Device sub)) (tag_by_id (sb_TagList sub)) p"
proof -
  obtain sm ct' where r: "fold (sub_step cell_ops cell_lib) pushed_run (NewSubscriptionManager None, (open_opc_client, Map.empty)) = (sm, ct')"
    by (rule prod.exhaust)
  then have "\<exists>sub p. sm_subscriptions sm ''ua'' = Some sub \<and> sb_TagList sub = [node_tag] \<and> sb_LastValues sub (tag_ID node_tag) = Some p"
    by (auto simp: run_simps Let_def)
  then obtain sub p where sub: "sm_subscriptions sm ''ua'' = Some sub" "sb_TagList sub = [node_tag]" "sb_LastValues sub (tag_ID node_tag) = Some p"
    by blast
  moreover have "tag_ID node_tag \<noteq> []" by (simp add: node_tag_def)
  ultimately have "dp_Topic p = point_topic (UNSPrefix (sb_Device sub)) (tag_by_id (sb_TagList sub)) p"
    using subscriptions_consistent [OF r sub(1)] by simp
  then show ?thesis using r sub by blast
qed

text \<open>
  A manager that is stopped and started again keeps its cancelled context: a device that is subscribed then has
  an active subscription whose handler has gone, and no value pushed for it is ever published.
\<close>

definition deaf :: "string \<Rightarrow> 'w sub_manager \<Rightarrow> bool" where
  "deaf k sm \<longleftrightarrow> (\<exists>sub. sm_subscriptions sm k = Some sub \<and> sb_active sub \<and> \<not> sb_handler sub)"

theorem restarted_manager_deaf:
  "deaf ''ua'' (fst (fold (sub_step cell_ops cell_lib) [SubStart, SubStop [], SubStart,
       SubSubscribe pushed_device [node_tag] DefaultSubscriptionConfig, SubHandlerQuits ''ua'']
     (NewSubscriptionManager None, (open_opc_client, Map.empty))))"
  by (simp add: deaf_def handler_quits_def sm_Stop_def run_simps)

lemma deaf_ignores_pushes:
  assumes "deaf k (fst st)"
  shows "snd (sub_step ops lib (SubDeliver k n) st) = snd st" "sub_step ops lib (SubHandle k) st = st"
    "deaf k (fst (sub_step ops lib (SubDeliver k n) st))"
  using assms by (auto simp: deaf_def deliver_def handle_one_def split: prod.splits option.splits)

text \<open>
  Push and poll agree on topics: the point pushed for a tag carries the topic that the polling
  service gives to a polled point of that tag, when the device's tag IDs are distinct and not empty.
\<close>

theorem push_topic_is_poll_topic:
  assumes "t \<in> set ts" "distinct (map tag_ID ts)" "tag_ID t \<noteq> []"
  shows "dp_Topic (pushed_point now c d v t)
    = point_topic (UNSPrefix d) (tag_by_id ts) (processReadResult now (ul_deviceID c) v t)"
  using tag_by_id_distinct [OF assms(2,1,3)] by (simp add: point_topic_def)

theorem push_topic_is_poll_topic_witness:
  "dp_Topic (pushed_point 0 open_opc_client pushed_device sample_value node_tag)
    = point_topic ''plant/ua'' (tag_by_id [node_tag]) (processReadResult 0 (ul_deviceID open_opc_client) sample_value node_tag)"
  using push_topic_is_poll_topic [of node_tag "[node_tag]" 0 open_opc_client pushed_device sample_value]
  by (simp add: pushed_device_def) (simp add: node_tag_def)

text \<open>
  After \<open>Stop\<close> nothing is pushed any more: whatever else is done, short of starting the manager again,
  the client's state and the world stay as they are.
\<close>

theorem stopped_manager_silent:
  assumes "sm_running (fst st)" "SubStart \<notin> set xs"
  shows "fold (sub_step ops lib) xs (sm_Stop lib ks st) = sm_Stop lib ks st
    \<and> sm_subscriptions (fst (sm_Stop lib ks st)) = Map.empty"
proof -
  let ?f = "fold (\<lambda>k s. snd (unsubscribeDeviceLocked lib k s)) ks
      ((fst st)\<lparr>sm_cancelled := True, sm_running := False\<rparr>, snd st)"
  have "\<not> sm_running (fst ?f)" by (simp add: fold_unsubscribe_running)
  then have "sm_subscriptions (fst (sm_Stop lib ks st)) = Map.empty" "\<not> sm_running (fst (sm_Stop lib ks st))"
    using assms(1) by (auto simp: sm_Stop_def split_beta)
  then show ?thesis using stopped_run [OF _ _ assms(2)] by blast
qed

theorem stopped_manager_silent_witness:
  "fold (sub_step cell_ops cell_lib) [SubHandle ''ua''] (sm_Stop cell_lib [] ((NewSubscriptionManager None)\<lparr>sm_running := True\<rparr>, (open_opc_client, Map.empty)))
    = sm_Stop cell_lib [] ((NewSubscriptionManager None)\<lparr>sm_running := True\<rparr>, (open_opc_client, Map.empty))"
  using stopped_manager_silent [of "((NewSubscriptionManager None)\<lparr>sm_running := True\<rparr>, (open_opc_client, Map.empty))" "[SubHandle ''ua'']"
      cell_ops cell_lib "[]"]
  by simp

end
