(* ===== verification/Opcua_Browse.thy ===== *)
theory Opcua_Browse
  imports Opcua_Nodes
begin

text \<open>
  Browsing in \<open>internal/adapter/opcua/client.go\<close>: a tree of the server's nodes down to a depth, with the
  attributes of every node.  \<open>None\<close> is a browse that never ends: the server keeps sending continuation
  points.
\<close>

section \<open>What the library answers\<close>

text \<open>The dynamic types the code asserts; \<open>None\<close> is a nil pointer of the type.\<close>

datatype 'n attr_value =
    AttrLocalizedText "string option"
  | AttrQualifiedName "string option"
  | AttrInt32 u32
  | AttrNodeID "'n option"
  | AttrUint8 byte
  | AttrOther

datatype attribute = DisplayName | BrowseName | NodeClass | DataTypeAttr | AccessLevel

record 'n browse_page =
  bp_StatusCode :: u32
  bp_References :: "'n list"
  bp_ContinuationPoint :: bytes

text \<open>
  A result of \<open>ub_ReadAttributes\<close> is its status and what \<open>Value()\<close> of its variant gives; \<open>ub_Browse\<close>
  gets the limit on the references of a page.
\<close>

record ('w, 'n) browse_ops =
  ub_client :: "('w, 'n) opc_ops"
  ub_ReadAttributes :: "'n \<Rightarrow> attribute list \<Rightarrow> 'w \<Rightarrow> (err + (u32 \<times> 'n attr_value res) list) \<times> 'w"
  ub_Browse :: "nat \<Rightarrow> 'n \<Rightarrow> 'w \<Rightarrow> (err + 'n browse_page list) \<times> 'w"
  ub_BrowseNext :: "bytes \<Rightarrow> 'w \<Rightarrow> (err + 'n browse_page list) \<times> 'w"
  ub_String :: "'n \<Rightarrow> string"
  ub_Namespace :: "'n \<Rightarrow> u16"
  ub_IntID :: "'n \<Rightarrow> u32"
  ub_ObjectsFolder :: 'n

datatype browse_result = BrowseResult
  (br_NodeID: string)
  (br_DisplayName: string)
  (br_BrowseName: string)
  (br_NodeClass: u32)
  (br_NodeClassName: string)
  (br_DataType: string)
  (br_AccessLevel: string)
  (br_HasChildren: bool)
  (br_Children: "browse_result list")

section \<open>Names\<close>

definition nodeClassToString :: "u32 \<Rightarrow> string" where
  "nodeClassToString nc =
     (if nc = 1 then ''Object'' else if nc = 2 then ''Variable'' else if nc = 4 then ''Method''
      else if nc = 8 then ''ObjectType'' else if nc = 16 then ''VariableType''
      else if nc = 32 then ''ReferenceType'' else if nc = 64 then ''DataType''
      else if nc = 128 then ''View'' else ''Unknown'')"

definition builtin_type_names :: "(u32 \<times> string) list" where
  "builtin_type_names = [(1, ''Boolean''), (2, ''SByte''), (3, ''Byte''), (4, ''Int16''), (5, ''UInt16''),
     (6, ''Int32''), (7, ''UInt32''), (8, ''Int64''), (9, ''UInt64''), (10, ''Float''), (11, ''Double''),
     (12, ''String''), (13, ''DateTime''), (14, ''Guid''), (15, ''ByteString''), (16, ''XmlElement''),
     (17, ''NodeId''), (19, ''StatusCode''), (21, ''LocalizedText''), (22, ''ExtensionObject''),
     (24, ''BaseDataType'')]"

definition dataTypeNodeIDToString :: "('w, 'n) browse_ops \<Rightarrow> 'n \<Rightarrow> string" where
  "dataTypeNodeIDToString ops n =
     (if ub_Namespace ops n \<noteq> 0 then ub_String ops n
      else case map_of builtin_type_names (ub_IntID ops n) of Some s \<Rightarrow> s | None \<Rightarrow> ub_String ops n)"

fun join_with :: "string \<Rightarrow> string list \<Rightarrow> string" where
  "join_with sep [] = []"
| "join_with sep [x] = x"
| "join_with sep (x # y # zs) = x @ sep @ join_with sep (y # zs)"

definition accessLevelToString :: "byte \<Rightarrow> string" where
  "accessLevelToString al =
     (let parts = (if al AND 1 \<noteq> 0 then [''Read''] else []) @ (if al AND 2 \<noteq> 0 then [''Write''] else [])
                @ (if al AND 4 \<noteq> 0 then [''HistoryRead''] else []) @ (if al AND 8 \<noteq> 0 then [''HistoryWrite''] else [])
      in if length parts = 0 then ''None'' else join_with '', '' parts)"

section \<open>Attributes\<close>

text \<open>The value of the \<open>i\<close>-th result, if there is one and its status is good.\<close>

definition good_value :: "nat \<Rightarrow> (u32 \<times> 'n attr_value res) list \<Rightarrow> 'n attr_value option res" where
  "good_value i rs =
     (if i < length rs \<and> fst (rs ! i) = StatusOK then bind_outcome (snd (rs ! i)) (\<lambda>v. Ok (Some v)) else Ok None)"

record node_attributes =
  na_DisplayName :: string
  na_BrowseName :: string
  na_NodeClass :: u32
  na_NodeClassName :: string

definition no_attributes :: node_attributes where
  "no_attributes = \<lparr>na_DisplayName = [], na_BrowseName = [], na_NodeClass = 0, na_NodeClassName = []\<rparr>"

definition parse_attributes :: "(u32 \<times> 'n attr_value res) list \<Rightarrow> node_attributes res" where
  "parse_attributes rs =
     bind_outcome (good_value 0 rs) (\<lambda>d.
     bind_outcome (good_value 1 rs) (\<lambda>b.
     bind_outcome (good_value 2 rs) (\<lambda>c.
       Ok \<lparr>na_DisplayName = (case d of Some (AttrLocalizedText (Some s)) \<Rightarrow> s | _ \<Rightarrow> []),
           na_BrowseName = (case b of Some (AttrQualifiedName (Some s)) \<Rightarrow> s | _ \<Rightarrow> []),
           na_NodeClass = (case c of Some (AttrInt32 i) \<Rightarrow> i | _ \<Rightarrow> 0),
           na_NodeClassName = (case c of Some (AttrInt32 i) \<Rightarrow> nodeClassToString i | _ \<Rightarrow> [])\<rparr>)))"

text \<open>An error of the read is logged and leaves the attributes empty.\<close>

definition readNodeAttributes ::
  "('w, 'n) browse_ops \<Rightarrow> 'n \<Rightarrow> ('w, 'n) opc_state \<Rightarrow> node_attributes res \<times> ('w, 'n) opc_state" where
  "readNodeAttributes ops n st = (case st of (c, w) \<Rightarrow>
     if \<not> ul_client c then (Ok no_attributes, st)
     else case ub_ReadAttributes ops n [DisplayName, BrowseName, NodeClass] w of
       (Inl e, w1) \<Rightarrow> (Ok no_attributes, (c, w1))
     | (Inr rs, w1) \<Rightarrow> (parse_attributes rs, (c, w1)))"

definition readVariableAttributes ::
  "('w, 'n) browse_ops \<Rightarrow> 'n \<Rightarrow> ('w, 'n) opc_state \<Rightarrow> (string \<times> string) res \<times> ('w, 'n) opc_state" where
  "readVariableAttributes ops n st = (case st of (c, w) \<Rightarrow>
     if \<not> ul_client c then (Ok ([], []), st)
     else case ub_ReadAttributes ops n [DataTypeAttr, AccessLevel] w of
       (Inl e, w1) \<Rightarrow> (Ok ([], []), (c, w1))
     | (Inr rs, w1) \<Rightarrow>
         (bind_outcome (good_value 0 rs) (\<lambda>d. bind_outcome (good_value 1 rs) (\<lambda>a.
            Ok ((case d of Some (AttrNodeID (Some m)) \<Rightarrow> dataTypeNodeIDToString ops m | _ \<Rightarrow> []),
                (case a of Some (AttrUint8 al) \<Rightarrow> accessLevelToString al | _ \<Rightarrow> [])))), (c, w1)))"

section \<open>Children\<close>

text \<open>
  The loop over the continuation points: an error, an empty answer or a bad status ends it with what
  has been collected.
\<close>

partial_function (option) collect_pages ::
  "('w, 'n) browse_ops \<Rightarrow> 'n list \<Rightarrow> bytes \<Rightarrow> 'w \<Rightarrow> ('n list \<times> 'w) option" where
  "collect_pages ops refs cp w =
     (if length cp = 0 then Some (refs, w)
      else case ub_BrowseNext ops cp w of
        (Inr (p # ps), w1) \<Rightarrow>
          if bp_StatusCode p = StatusOK
          then collect_pages ops (refs @ bp_References p) (bp_ContinuationPoint p) w1
          else Some (refs, w1)
      | (_, w1) \<Rightarrow> Some (refs, w1))"

definition browseChildren ::
  "('w, 'n) browse_ops \<Rightarrow> 'n \<Rightarrow> ('w, 'n) opc_state \<Rightarrow> ((err + 'n list) \<times> ('w, 'n) opc_state) option" where
  "browseChildren ops n st = (case st of (c, w) \<Rightarrow>
     if \<not> ul_client c then Some (Inl ErrConnectionClosed, st)
     else case ub_Browse ops 1000 n w of
       (Inl e, w1) \<Rightarrow> Some (Inl e, (c, w1))
     | (Inr [], w1) \<Rightarrow> Some (Inr [], (c, w1))
     | (Inr (p # ps), w1) \<Rightarrow>
         if bp_StatusCode p \<noteq> StatusOK
         then Some (Inl (Plain (''browse failed: status code '' @ show_nat (unat (bp_StatusCode p)))), (c, w1))
         else (case collect_pages ops (bp_References p) (bp_ContinuationPoint p) w1 of
             None \<Rightarrow> None
           | Some (refs, w2) \<Rightarrow> Some (Inr refs, (c, w2))))"

definition checkHasChildren ::
  "('w, 'n) browse_ops \<Rightarrow> 'n \<Rightarrow> ('w, 'n) opc_state \<Rightarrow> bool \<times> ('w, 'n) opc_state" where
  "checkHasChildren ops n st = (case st of (c, w) \<Rightarrow>
     if \<not> ul_client c then (False, st)
     else case ub_Browse ops 1 n w of
       (Inr (p # ps), w1) \<Rightarrow> (bp_StatusCode p = StatusOK \<and> 0 < length (bp_References p), (c, w1))
     | (_, w1) \<Rightarrow> (False, (c, w1)))"

section \<open>The tree\<close>

text \<open>The attributes of one node, with those of a variable; class 2 is \<open>ua.NodeClassVariable\<close>.\<close>

definition read_node_info ::
  "('w, 'n) browse_ops \<Rightarrow> 'n \<Rightarrow> ('w, 'n) opc_state
     \<Rightarrow> (node_attributes \<times> string \<times> string) res \<times> ('w, 'n) opc_state" where
  "read_node_info ops n st = (case readNodeAttributes ops n st of
       (Panic, st1) \<Rightarrow> (Panic, st1)
     | (Err e, st1) \<Rightarrow> (Err e, st1)
     | (Ok a, st1) \<Rightarrow>
         if na_NodeClass a = 2 then
           (case readVariableAttributes ops n st1 of (v, st2) \<Rightarrow> (bind_outcome v (\<lambda>x. Ok (a, x)), st2))
         else (Ok (a, [], []), st1))"

definition node_result :: "('w, 'n) browse_ops \<Rightarrow> 'n \<Rightarrow> node_attributes \<times> string \<times> string \<Rightarrow> bool
     \<Rightarrow> browse_result list \<Rightarrow> browse_result" where
  "node_result ops n info has children = (case info of (a, dt, al) \<Rightarrow>
     BrowseResult (ub_String ops n) (na_DisplayName a) (na_BrowseName a) (na_NodeClass a) (na_NodeClassName a)
       dt al has children)"

text \<open>
  \<open>left\<close> is \<open>maxDepth - currentDepth\<close>.  A child whose browse fails is left out.
\<close>

function (sequential) browseNode ::
  "('w, 'n) browse_ops \<Rightarrow> nat \<Rightarrow> 'n \<Rightarrow> ('w, 'n) opc_state \<Rightarrow> (browse_result res \<times> ('w, 'n) opc_state) option"
and browse_all ::
  "('w, 'n) browse_ops \<Rightarrow> nat \<Rightarrow> 'n list \<Rightarrow> ('w, 'n) opc_state \<Rightarrow> (browse_result list res \<times> ('w, 'n) opc_state) option"
where
  "browseNode ops left n st =
     (if \<not> ul_client (fst st) then Some (Err ErrConnectionClosed, st)
      else case read_node_info ops n st of
        (Panic, st1) \<Rightarrow> Some (Panic, st1)
      | (Err e, st1) \<Rightarrow> Some (Err e, st1)
      | (Ok info, st1) \<Rightarrow>
          (case left of
             0 \<Rightarrow> (case checkHasChildren ops n st1 of
                 (has, st2) \<Rightarrow> Some (Ok (node_result ops n info has []), st2))
           | Suc k \<Rightarrow>
               (case browseChildren ops n st1 of
                  None \<Rightarrow> None
                | Some (Inl e, st2) \<Rightarrow> Some (Ok (node_result ops n info False []), st2)
                | Some (Inr refs, st2) \<Rightarrow>
                    (case browse_all ops k refs st2 of
                       None \<Rightarrow> None
                     | Some (Ok cs, st3) \<Rightarrow> Some (Ok (node_result ops n info (0 < length refs) cs), st3)
                     | Some (Err e, st3) \<Rightarrow> Some (Err e, st3)
                     | Some (Panic, st3) \<Rightarrow> Some (Panic, st3)))))"
| "browse_all ops left [] st = Some (Ok [], st)"
| "browse_all ops left (r # rs) st =
     (case browseNode ops left r st of
        None \<Rightarrow> None
      | Some (Panic, st1) \<Rightarrow> Some (Panic, st1)
      | Some (Err e, st1) \<Rightarrow> browse_all ops left rs st1
      | Some (Ok b, st1) \<Rightarrow>
          (case browse_all ops left rs st1 of
             None \<Rightarrow> None
           | Some (Ok bs, st2) \<Rightarrow> Some (Ok (b # bs), st2)
           | Some (Err e, st2) \<Rightarrow> Some (Err e, st2)
           | Some (Panic, st2) \<Rightarrow> Some (Panic, st2)))"
  by pat_completeness auto
termination
  by (relation "inv_image (less_than <*lex*> less_than)
        (\<lambda>x. case x of Inl (ops, left, n, st) \<Rightarrow> (left, 0) | Inr (ops, left, rs, st) \<Rightarrow> (left, Suc (length rs)))")
    auto

declare browseNode.simps [simp del]

definition opc_Browse ::
  "('w, 'n) browse_ops \<Rightarrow> string \<Rightarrow> int \<Rightarrow> ('w, 'n) opc_state \<Rightarrow> (browse_result res \<times> ('w, 'n) opc_state) option" where
  "opc_Browse ops nodeID maxDepth st =
     (if \<not> ul_connected (fst st) then Some (Err ErrConnectionClosed, st)
      else let st0 = opc_touch (ub_client ops) st in
        case (if nodeID = [] then (Inr (ub_ObjectsFolder ops), st0) else getNodeID (ub_client ops) nodeID st0) of
          (Inl e, st1) \<Rightarrow> Some (Err (WrapPre ''invalid node ID: '' e), st1)
        | (Inr n, st1) \<Rightarrow> browseNode ops (nat (if maxDepth < 1 then 1 else maxDepth)) n st1)"

section \<open>Facts\<close>

fun height :: "browse_result \<Rightarrow> nat" where
  "height (BrowseResult i d b nc nn dt al has cs) = (if cs = [] then 0 else Suc (fold max (map height cs) 0))"

lemma fold_max_le: "(\<forall>x\<in>set xs. x \<le> n) \<Longrightarrow> a \<le> n \<Longrightarrow> fold max xs (a :: nat) \<le> n"
  by (induction xs arbitrary: a) auto

lemma browse_height:
  "browseNode ops left n st = Some (Ok r, st1) \<Longrightarrow> height r \<le> left"
  "browse_all ops left' rs st' = Some (Ok bs, st2) \<Longrightarrow> \<forall>b\<in>set bs. height b \<le> left'"
proof (induction ops left n st and ops left' rs st' arbitrary: r st1 and bs st2 rule: browseNode_browse_all.induct)
  case (1 ops left n st)
  obtain i st1' where i: "read_node_info ops n st = (i, st1')" by (cases "read_node_info ops n st")
  obtain info where info: "i = Ok info" "ul_client (fst st)"
    using "1.prems" i by (subst (asm) browseNode.simps) (auto split: if_splits outcome.splits)
  show ?case
  proof (cases left)
    case 0
    then show ?thesis
      using "1.prems" i info by (subst (asm) browseNode.simps) (auto simp: node_result_def split: prod.splits)
  next
    case (Suc k)
    obtain x where x: "browseChildren ops n st1' = Some x"
      using "1.prems" i info Suc by (subst (asm) browseNode.simps) (auto split: option.splits)
    obtain y st2' where y: "x = (y, st2')" by (cases x)
    show ?thesis
    proof (cases y)
      case (Inl e)
      then show ?thesis
        using "1.prems" i info Suc x y by (subst (asm) browseNode.simps) (auto simp: node_result_def split: prod.splits)
    next
      case (Inr refs)
      then obtain cs st3 where cs: "browse_all ops k refs st2' = Some (Ok cs, st3)"
          and r: "r = node_result ops n info (0 < length refs) cs"
        using "1.prems" i info Suc x y
        by (subst (asm) browseNode.simps) (auto split: option.splits prod.splits outcome.splits)
      have "\<forall>b\<in>set cs. height b \<le> k"
        using "1.IH" [OF _ i [symmetric] info(1) Suc x] info(2) y Inr cs by simp
      then show ?thesis
        using Suc by (auto simp: r node_result_def intro!: fold_max_le split: prod.splits)
    qed
  qed
next
  case (3 ops left r rs st)
  obtain x st1' where x: "browseNode ops left r st = Some (x, st1')"
    using "3.prems" by (auto split: option.splits)
  show ?case
  proof (cases x)
    case (Ok b)
    then obtain bs' st2' where "browse_all ops left rs st1' = Some (Ok bs', st2')" "bs = b # bs'"
      using "3.prems" x by (auto split: option.splits prod.splits outcome.splits)
    then show ?thesis using "3.IH"(1) [of b st1'] "3.IH"(2) [OF x refl Ok] x Ok by auto
  next
    case (Err e)
    then show ?thesis using "3.prems" x "3.IH"(3) [OF x refl Err] by auto
  qed (use "3.prems" x in auto)
qed simp

text \<open>A server that runs out of continuation points: \<open>m\<close> counts those left.\<close>

definition pages_end :: "('w, 'n) browse_ops \<Rightarrow> ('w \<Rightarrow> nat) \<Rightarrow> bool" where
  "pages_end ops m \<longleftrightarrow> (\<forall>cp w p ps w1. ub_BrowseNext ops cp w = (Inr (p # ps), w1)
     \<and> bp_StatusCode p = StatusOK \<and> bp_ContinuationPoint p \<noteq> [] \<longrightarrow> m w1 < m w)"

lemma collect_pages_returns:
  assumes "pages_end ops m"
  shows "\<exists>y. collect_pages ops refs cp w = Some y"
proof (induction "m w" arbitrary: refs cp w rule: less_induct)
  case less
  show ?case
  proof (cases "cp = [] \<or> (\<nexists>p ps w1. ub_BrowseNext ops cp w = (Inr (p # ps), w1) \<and> bp_StatusCode p = StatusOK)")
    case True
    then show ?thesis
      by (subst collect_pages.simps) (auto split: sum.splits list.splits prod.splits)
  next
    case False
    then obtain p ps w1 where n: "cp \<noteq> []" "ub_BrowseNext ops cp w = (Inr (p # ps), w1)" "bp_StatusCode p = StatusOK"
      by blast
    have "\<exists>y. collect_pages ops (refs @ bp_References p) (bp_ContinuationPoint p) w1 = Some y"
    proof (cases "bp_ContinuationPoint p = []")
      case True
      then show ?thesis by (subst collect_pages.simps) simp
    next
      case c: False
      have "m w1 < m w" using assms n(2,3) c unfolding pages_end_def by blast
      then show ?thesis by (rule less)
    qed
    then show ?thesis using n by (subst collect_pages.simps) simp
  qed
qed

lemma browseChildren_returns: "pages_end ops m \<Longrightarrow> \<exists>y. browseChildren ops n st = Some y"
proof -
  assume e: "pages_end ops m"
  have "\<exists>y. collect_pages ops refs cp w = Some y" for refs cp w by (rule collect_pages_returns [OF e])
  then show ?thesis
    by (auto simp: browseChildren_def split: prod.splits sum.splits list.splits option.splits)
      (metis option.distinct(1))
qed

lemma browse_returns:
  assumes "pages_end ops m"
  shows "\<exists>y. browseNode ops left n st = Some y" "\<exists>y. browse_all ops left' rs st' = Some y"
  using assms
proof (induction ops left n st and ops left' rs st' rule: browseNode_browse_all.induct)
  case (1 ops left n st)
  obtain i st1 where i: "read_node_info ops n st = (i, st1)" by (cases "read_node_info ops n st")
  obtain x st2 where x: "browseChildren ops n st1 = Some (x, st2)"
    using browseChildren_returns [OF "1.prems", of n st1] by auto
  show ?case
  proof (cases "\<exists>info k refs. ul_client (fst st) \<and> i = Ok info \<and> left = Suc k \<and> x = Inr refs")
    case True
    then obtain info k refs where t: "ul_client (fst st)" "i = Ok info" "left = Suc k" "x = Inr refs" by blast
    have "\<exists>y. browse_all ops k refs st2 = Some y"
      using "1.IH" [OF _ i [symmetric] t(2,3) x refl t(4) "1.prems"] t(1) by simp
    then show ?thesis using i t x
      by (subst browseNode.simps) (auto split: option.splits prod.splits outcome.splits)
  next
    case False
    then show ?thesis using i x
      by (subst browseNode.simps) (auto split: prod.splits outcome.splits nat.splits sum.splits)
  qed
next
  case (3 ops left r rs st)
  obtain x st1 where x: "browseNode ops left r st = Some (x, st1)" using "3.IH"(1) [OF "3.prems"] by auto
  show ?case
  proof (cases x)
    case (Ok b)
    then have "\<exists>y. browse_all ops left rs st1 = Some y" using "3.IH"(2) [OF x refl Ok "3.prems"] by simp
    then show ?thesis using x Ok by (auto split: prod.splits outcome.splits)
  next
    case (Err e)
    then have "\<exists>y. browse_all ops left rs st1 = Some y" using "3.IH"(3) [OF x refl Err "3.prems"] by simp
    then show ?thesis using x Err by auto
  qed (use x in auto)
qed simp

section \<open>Properties\<close>

text \<open>
  C34: When the server runs out of continuation points, a browse returns, and its tree is at most as deep
  as asked for (one level for a depth below 1).
\<close>

theorem browse_bounded:
  assumes "pages_end ops m"
  shows "\<exists>r st1. opc_Browse ops nodeID maxDepth st = Some (r, st1)
    \<and> (\<forall>t. r = Ok t \<longrightarrow> height t \<le> nat (max 1 maxDepth))"
proof (cases "ul_connected (fst st)")
  case False
  then show ?thesis by (simp add: opc_Browse_def)
next
  case True
  obtain g st1 where g: "(if nodeID = [] then (Inr (ub_ObjectsFolder ops), opc_touch (ub_client ops) st)
      else getNodeID (ub_client ops) nodeID (opc_touch (ub_client ops) st)) = (g, st1)" by (metis prod.exhaust)
  show ?thesis
  proof (cases g)
    case (Inl e)
    then show ?thesis using True g by (simp add: opc_Browse_def Let_def)
  next
    case (Inr n)
    let ?d = "nat (if maxDepth < 1 then 1 else maxDepth)"
    obtain r st2 where b: "browseNode ops ?d n st1 = Some (r, st2)"
      using browse_returns(1) [OF assms] by (metis prod.exhaust)
    have "?d = nat (max 1 maxDepth)" by (simp add: max_def)
    then show ?thesis using True g Inr b browse_height(1) [of ops ?d n st1] by (simp add: opc_Browse_def Let_def)
  qed
qed
text \<open>Every node has one child, sent in two pages.\<close>

definition chain_browse :: "(cells, string) browse_ops" where
  "chain_browse = \<lparr>ub_client = cell_ops, ub_ReadAttributes = (\<lambda>n as w. (Inr [], w)),
     ub_Browse = (\<lambda>k n w. (Inr [\<lparr>bp_StatusCode = StatusOK, bp_References = [], bp_ContinuationPoint = [1]\<rparr>], w)),
     ub_BrowseNext = (\<lambda>cp w. (Inr [\<lparr>bp_StatusCode = StatusOK, bp_References = [''n''], bp_ContinuationPoint = []\<rparr>], w)),
     ub_String = (\<lambda>n. n), ub_Namespace = (\<lambda>n. 0), ub_IntID = (\<lambda>n. 0), ub_ObjectsFolder = ''i=85''\<rparr>"

theorem browse_bounded_witness:
  "\<exists>r st1. opc_Browse chain_browse [] 3 (open_opc_client, Map.empty) = Some (r, st1)
    \<and> (\<exists>t. r = Ok t \<and> height t \<le> 3)"
proof -
  have e: "pages_end chain_browse (\<lambda>w. 0)" by (simp add: pages_end_def chain_browse_def)
  have attrs: "read_node_info chain_browse n (c, w) = (Ok (no_attributes, [], []), (c, w))" for n c w
    by (simp add: read_node_info_def readNodeAttributes_def chain_browse_def parse_attributes_def good_value_def
        no_attributes_def)
  have kids: "browseChildren chain_browse n (c, w) = Some (Inr [''n''], (c, w))" if "ul_client c" for n c w
  proof -
    have "collect_pages chain_browse [] [1] w = Some ([''n''], w)"
      by (subst collect_pages.simps) (simp add: chain_browse_def, subst collect_pages.simps, simp)
    then show ?thesis using that by (simp add: browseChildren_def chain_browse_def)
  qed
  have run: "\<exists>t. browseNode chain_browse k n (c, w) = Some (Ok t, (c, w))" if "ul_client c" for k n c w
  proof (induction k arbitrary: n)
    case 0
    then show ?case using that attrs
      by (subst browseNode.simps) (simp add: checkHasChildren_def, simp add: chain_browse_def)
  next
    case (Suc k)
    then obtain t where "browseNode chain_browse k ''n'' (c, w) = Some (Ok t, (c, w))" by blast
    then show ?case using that attrs kids by (subst browseNode.simps) simp
  qed
  let ?st = "opc_touch cell_ops (open_opc_client, Map.empty)"
  have "ul_client (fst ?st)" by (simp add: opc_touch_def opc_map_def open_opc_client_def)
  then obtain t where "browseNode chain_browse 3 ''i=85'' ?st = Some (Ok t, ?st)"
    using run [of "fst ?st" 3 "''i=85''" "snd ?st"] by (simp only: prod.collapse) blast
  moreover have "ub_client chain_browse = cell_ops" "ub_ObjectsFolder chain_browse = ''i=85''"
    by (simp_all add: chain_browse_def)
  moreover have "ul_connected open_opc_client" by (simp add: open_opc_client_def)
  ultimately have "opc_Browse chain_browse [] 3 (open_opc_client, Map.empty) = Some (Ok t, ?st)"
    by (simp add: opc_Browse_def)
  then show ?thesis using browse_bounded [OF e, of "[]" 3 "(open_opc_client, Map.empty)"] by auto
qed


end
