(* ===== verification/Opcua_Load.thy ===== *)
theory Opcua_Load
  imports Opcua_Conversion Go_Channel
begin

text \<open>
  \<open>internal/adapter/opcua/loadshaping.go\<close>: the in-flight counters, the brownout mode, the three priority
  queues and their workers, as a step relation over the goroutines that call the pool and those that
  work the queues off.  A load of a counter and the increment that follows are separate steps, as in
  the code.  \<open>None\<close> as a session is the nil session of \<open>checkGlobalLoadAndQueue\<close>.
\<close>

section \<open>State\<close>

record load_config =
  lc_arch :: arch
  lc_maxGlobalInFlight :: int
  lc_brownoutThreshold :: u64
  lc_MaxInFlightPerEndpoint :: int
  lc_PriorityQueueSize :: nat

abbreviation PriorityTelemetry :: nat where "PriorityTelemetry \<equiv> 0"
abbreviation PriorityControl :: nat where "PriorityControl \<equiv> 1"
abbreviation PrioritySafety :: nat where "PrioritySafety \<equiv> 2"

text \<open>\<open>int64(float64(p.maxGlobalInFlight) * p.brownoutThreshold)\<close>, and its half in Go's division.\<close>

definition threshold :: "load_config \<Rightarrow> int" where
  "threshold cfg = sint (fp_to_i64 (lc_arch cfg)
     (f64_dec (f64_mul (f64_of_int (lc_maxGlobalInFlight cfg)) (lc_brownoutThreshold cfg))))"

definition half_threshold :: "load_config \<Rightarrow> int" where
  "half_threshold cfg = sgn (threshold cfg) * (\<bar>threshold cfg\<bar> div 2)"

text \<open>\<open>rq_id\<close> names the call; it stands for its context and its result channel.\<close>

record request =
  rq_id :: nat
  rq_priority :: nat
  rq_session :: "string option"

text \<open>
  Where a call is in \<open>checkGlobalLoadAndQueueWithSession\<close>; \<open>Loaded\<close> has read \<open>globalInFlight\<close>, \<open>Counted\<close>
  has incremented the counters in order to queue, \<open>Running\<close> executes the operation itself.  \<open>CallPanic\<close>
  is a call that panicked after it was counted.
\<close>

datatype caller =
    Out
  | AtContext nat nat "string option"
  | AtBreaker nat nat "string option"
  | AtBrownout nat nat "string option"
  | AtEndpoint nat nat "string option"
  | AtGlobal nat nat "string option"
  | Loaded int nat nat "string option"
  | Counted nat nat "string option"
  | Waiting nat
  | Running "string option"
  | Returned "err option"
  | CallPanic "string option"

text \<open>Where a worker is in \<open>priorityQueueProcessor\<close>: the three nested selects, then the request.\<close>

datatype worker = AtSafety | AtControl | AtBlocked | Holding request | Executing request | Exited

record load_state =
  ls_global :: int
  ls_inFlight :: "string \<Rightarrow> int"
  ls_brownout :: bool
  ls_queues :: "request list list"
  ls_closed :: bool
  ls_queuesClosed :: bool
  ls_breakerOpen :: "string \<Rightarrow> bool"
  ls_context :: "nat \<Rightarrow> err option"
  ls_result :: "nat \<Rightarrow> err option option"
  ls_next :: nat
  ls_callers :: "caller list"
  ls_workers :: "worker list"

text \<open>\<open>NewConnectionPool\<close>: empty queues and idle workers; \<open>n\<close> goroutines may call.\<close>

definition initial_load :: "nat \<Rightarrow> nat \<Rightarrow> load_state" where
  "initial_load n workers = \<lparr>ls_global = 0, ls_inFlight = (\<lambda>e. 0), ls_brownout = False,
     ls_queues = [[], [], []], ls_closed = False, ls_queuesClosed = False, ls_breakerOpen = (\<lambda>e. False),
     ls_context = (\<lambda>r. None), ls_result = (\<lambda>r. None), ls_next = 0,
     ls_callers = replicate n Out, ls_workers = replicate workers AtSafety\<rparr>"

text \<open>The two counters are always changed together.\<close>

definition add_flight :: "string option \<Rightarrow> int \<Rightarrow> load_state \<Rightarrow> load_state" where
  "add_flight session d s = s\<lparr>ls_global := ls_global s + d,
     ls_inFlight := (case session of None \<Rightarrow> ls_inFlight s
       | Some e \<Rightarrow> (ls_inFlight s)(e := ls_inFlight s e + d))\<rparr>"

definition session_open :: "load_state \<Rightarrow> string option \<Rightarrow> bool" where
  "session_open s session = (case session of None \<Rightarrow> False | Some e \<Rightarrow> ls_breakerOpen s e)"

section \<open>The calls\<close>

definition endpoint_full :: "load_config \<Rightarrow> load_state \<Rightarrow> string option \<Rightarrow> bool" where
  "endpoint_full cfg s session = (case session of None \<Rightarrow> False
     | Some e \<Rightarrow> 0 < lc_MaxInFlightPerEndpoint cfg \<and> lc_MaxInFlightPerEndpoint cfg \<le> ls_inFlight s e)"

text \<open>The decision on the loaded value of the global counter.\<close>

definition admit :: "load_config \<Rightarrow> int \<Rightarrow> nat \<Rightarrow> nat \<Rightarrow> string option \<Rightarrow> load_state \<Rightarrow> caller \<times> load_state" where
  "admit cfg current r prio session s =
     (if threshold cfg \<le> current \<and> prio = PriorityTelemetry
      then (Returned (Some ErrServiceOverloaded), s\<lparr>ls_brownout := True\<rparr>)
      else if lc_maxGlobalInFlight cfg \<le> current
      then (if ls_closed s then (Returned (Some ErrServiceStopped), s)
            else (Counted r prio session, add_flight session 1 s))
      else (Running session,
            (add_flight session 1 s)\<lparr>ls_brownout :=
               (if ls_brownout s \<and> current < half_threshold cfg then False else ls_brownout s)\<rparr>))"

text \<open>
  The non-blocking send to the queue of the priority: indexing the array of three queues panics on
  another priority, and sending on a closed channel panics.
\<close>

definition submit :: "load_config \<Rightarrow> nat \<Rightarrow> nat \<Rightarrow> string option \<Rightarrow> load_state \<Rightarrow> caller \<times> load_state" where
  "submit cfg r prio session s =
     (if length (ls_queues s) \<le> prio \<or> ls_queuesClosed s then (CallPanic session, s)
      else case chan_send (lc_PriorityQueueSize cfg) (ls_queues s ! prio)
                  \<lparr>rq_id = r, rq_priority = prio, rq_session = session\<rparr> of
        Some q \<Rightarrow> (Waiting r, s\<lparr>ls_queues := (ls_queues s)[prio := q]\<rparr>)
      | None \<Rightarrow> (Returned (Some ErrServiceOverloaded), add_flight session (- 1) s))"

fun caller_move :: "load_config \<Rightarrow> caller \<Rightarrow> load_state \<Rightarrow> (caller \<times> load_state) option" where
  "caller_move cfg (AtContext r prio session) s =
     Some (case ls_context s r of Some e \<Rightarrow> (Returned (Some e), s) | None \<Rightarrow> (AtBreaker r prio session, s))"
| "caller_move cfg (AtBreaker r prio session) s =
     Some (if session_open s session then (Returned (Some ErrCircuitBreakerOpen), s)
           else (AtBrownout r prio session, s))"
| "caller_move cfg (AtBrownout r prio session) s =
     Some (if ls_brownout s \<and> prio = PriorityTelemetry then (Returned (Some ErrServiceOverloaded), s)
           else (AtEndpoint r prio session, s))"
| "caller_move cfg (AtEndpoint r prio session) s =
     Some (if endpoint_full cfg s session \<and> prio = PriorityTelemetry
           then (Returned (Some ErrServiceOverloaded), s) else (AtGlobal r prio session, s))"
| "caller_move cfg (AtGlobal r prio session) s = Some (Loaded (ls_global s) r prio session, s)"
| "caller_move cfg (Loaded current r prio session) s = Some (admit cfg current r prio session s)"
| "caller_move cfg (Counted r prio session) s = Some (submit cfg r prio session s)"
| "caller_move cfg (Returned e) s = Some (Out, s)"
| "caller_move cfg c s = None"

section \<open>The workers\<close>

text \<open>The queues a select looks at, and whether one of its cases is ready.\<close>

fun looks_at :: "worker \<Rightarrow> nat list" where
  "looks_at AtSafety = [PrioritySafety]"
| "looks_at AtControl = [PrioritySafety, PriorityControl]"
| "looks_at AtBlocked = [PrioritySafety, PriorityControl, PriorityTelemetry]"
| "looks_at w = []"

definition nothing_ready :: "worker \<Rightarrow> load_state \<Rightarrow> bool" where
  "nothing_ready w s \<longleftrightarrow> list_all (\<lambda>q. ls_queues s ! q = []) (looks_at w) \<and> \<not> ls_closed s"

text \<open>The \<open>default\<close> case of the two outer selects.\<close>

fun next_level :: "worker \<Rightarrow> worker" where
  "next_level AtSafety = AtControl"
| "next_level AtControl = AtBlocked"
| "next_level w = w"

definition answer :: "request \<Rightarrow> err option \<Rightarrow> load_state \<Rightarrow> load_state" where
  "answer rq e s = add_flight (rq_session rq) (- 1) (s\<lparr>ls_result := (ls_result s)(rq_id rq \<mapsto> e)\<rparr>)"

definition examine :: "request \<Rightarrow> load_state \<Rightarrow> worker \<times> load_state" where
  "examine rq s = (case ls_context s (rq_id rq) of
       Some e \<Rightarrow> (AtSafety, answer rq (Some e) s)
     | None \<Rightarrow>
         if session_open s (rq_session rq) then (AtSafety, answer rq (Some ErrCircuitBreakerOpen) s)
         else (Executing rq, s))"

section \<open>Health check\<close>

definition checkGlobalHealth :: "load_config \<Rightarrow> load_state \<Rightarrow> load_state" where
  "checkGlobalHealth cfg s =
     (if threshold cfg \<le> ls_global s \<and> \<not> ls_brownout s then s\<lparr>ls_brownout := True\<rparr>
      else if ls_global s < half_threshold cfg \<and> ls_brownout s then s\<lparr>ls_brownout := False\<rparr>
      else s)"

definition GetGlobalLoad :: "load_config \<Rightarrow> load_state \<Rightarrow> int \<times> int \<times> bool" where
  "GetGlobalLoad cfg s = (ls_global s, lc_maxGlobalInFlight cfg, ls_brownout s)"

section \<open>Steps\<close>

abbreviation put_caller :: "nat \<Rightarrow> caller \<Rightarrow> load_state \<Rightarrow> load_state" where
  "put_caller i c s \<equiv> s\<lparr>ls_callers := (ls_callers s)[i := c]\<rparr>"

abbreviation put_worker :: "nat \<Rightarrow> worker \<Rightarrow> load_state \<Rightarrow> load_state" where
  "put_worker j w s \<equiv> s\<lparr>ls_workers := (ls_workers s)[j := w]\<rparr>"

inductive load_step :: "load_config \<Rightarrow> load_state \<Rightarrow> load_state \<Rightarrow> bool" for cfg where
  call: "i < length (ls_callers s) \<Longrightarrow> ls_callers s ! i = Out \<Longrightarrow>
    load_step cfg s (put_caller i (AtContext (ls_next s) prio session) (s\<lparr>ls_next := Suc (ls_next s)\<rparr>))"
| move: "i < length (ls_callers s) \<Longrightarrow> caller_move cfg (ls_callers s ! i) s = Some (c, s') \<Longrightarrow>
    load_step cfg s (put_caller i c s')"
| operation_done: "i < length (ls_callers s) \<Longrightarrow> ls_callers s ! i = Running session \<Longrightarrow>
    load_step cfg s (put_caller i (Returned e) (add_flight session (- 1) s))"
| result: "i < length (ls_callers s) \<Longrightarrow> ls_callers s ! i = Waiting r \<Longrightarrow> ls_result s r = Some e \<Longrightarrow>
    load_step cfg s (put_caller i (Returned e) (s\<lparr>ls_result := (ls_result s)(r := None)\<rparr>))"
| give_up: "i < length (ls_callers s) \<Longrightarrow> ls_callers s ! i = Waiting r \<Longrightarrow> ls_context s r = Some e \<Longrightarrow>
    load_step cfg s (put_caller i (Returned (Some e)) s)"
| receive: "j < length (ls_workers s) \<Longrightarrow> q \<in> set (looks_at (ls_workers s ! j)) \<Longrightarrow>
    chan_recv (ls_queues s ! q) = Some (rq, rest) \<Longrightarrow>
    load_step cfg s (put_worker j (Holding rq) (s\<lparr>ls_queues := (ls_queues s)[q := rest]\<rparr>))"
| default: "j < length (ls_workers s) \<Longrightarrow> ls_workers s ! j = AtSafety \<or> ls_workers s ! j = AtControl \<Longrightarrow>
    nothing_ready (ls_workers s ! j) s \<Longrightarrow>
    load_step cfg s (put_worker j (next_level (ls_workers s ! j)) s)"
| stop_worker: "j < length (ls_workers s) \<Longrightarrow> looks_at (ls_workers s ! j) \<noteq> [] \<Longrightarrow> ls_closed s \<Longrightarrow>
    load_step cfg s (put_worker j Exited s)"
| examine: "j < length (ls_workers s) \<Longrightarrow> ls_workers s ! j = Holding rq \<Longrightarrow> examine rq s = (w, s') \<Longrightarrow>
    load_step cfg s (put_worker j w s')"
| worked: "j < length (ls_workers s) \<Longrightarrow> ls_workers s ! j = Executing rq \<Longrightarrow>
    load_step cfg s (put_worker j AtSafety (answer rq e s))"
| health: "load_step cfg s (checkGlobalHealth cfg s)"
| breaker: "load_step cfg s (s\<lparr>ls_breakerOpen := b\<rparr>)"
| cancel: "load_step cfg s (s\<lparr>ls_context := (ls_context s)(r \<mapsto> e)\<rparr>)"
| shutdown: "\<not> ls_closed s \<Longrightarrow> load_step cfg s (s\<lparr>ls_closed := True\<rparr>)"
| close_queues: "ls_closed s \<Longrightarrow> list_all (\<lambda>w. w = Exited) (ls_workers s) \<Longrightarrow>
    load_step cfg s (s\<lparr>ls_queuesClosed := True\<rparr>)"

inductive load_reachable :: "load_config \<Rightarrow> nat \<Rightarrow> nat \<Rightarrow> load_state \<Rightarrow> bool" for cfg n workers where
  start: "load_reachable cfg n workers (initial_load n workers)"
| step: "load_reachable cfg n workers s \<Longrightarrow> load_step cfg s s' \<Longrightarrow> load_reachable cfg n workers s'"
section \<open>What the counters count\<close>

definition caller_counts :: "(string option \<Rightarrow> bool) \<Rightarrow> caller \<Rightarrow> bool" where
  "caller_counts P c = (case c of Counted r p x \<Rightarrow> P x | Running x \<Rightarrow> P x | CallPanic x \<Rightarrow> P x | _ \<Rightarrow> False)"

definition worker_counts :: "(string option \<Rightarrow> bool) \<Rightarrow> worker \<Rightarrow> bool" where
  "worker_counts P w = (case w of Holding rq \<Rightarrow> P (rq_session rq) | Executing rq \<Rightarrow> P (rq_session rq) | _ \<Rightarrow> False)"

definition queue_counts :: "(string option \<Rightarrow> bool) \<Rightarrow> request list \<Rightarrow> int" where
  "queue_counts P q = int (length (filter (\<lambda>rq. P (rq_session rq)) q))"

text \<open>All that has been counted for sessions in \<open>P\<close> and not given back.\<close>

definition counted :: "(string option \<Rightarrow> bool) \<Rightarrow> load_state \<Rightarrow> int" where
  "counted P s = int (length (filter (caller_counts P) (ls_callers s)))
     + sum_list (map (queue_counts P) (ls_queues s))
     + int (length (filter (worker_counts P) (ls_workers s)))"

text \<open>
  Of these, the operations that are running, about to be queued, queued or with a worker; and the calls that
  panicked after they were counted, whose counts are lost.
\<close>

definition live_counts :: "(string option \<Rightarrow> bool) \<Rightarrow> caller \<Rightarrow> bool" where
  "live_counts P c = (case c of Counted r p x \<Rightarrow> P x | Running x \<Rightarrow> P x | _ \<Rightarrow> False)"

definition panicked :: "(string option \<Rightarrow> bool) \<Rightarrow> caller \<Rightarrow> bool" where
  "panicked P c = (case c of CallPanic x \<Rightarrow> P x | _ \<Rightarrow> False)"

definition in_flight :: "(string option \<Rightarrow> bool) \<Rightarrow> load_state \<Rightarrow> int" where
  "in_flight P s = int (length (filter (live_counts P) (ls_callers s)))
     + sum_list (map (queue_counts P) (ls_queues s))
     + int (length (filter (worker_counts P) (ls_workers s)))"

definition leaked :: "(string option \<Rightarrow> bool) \<Rightarrow> load_state \<Rightarrow> int" where
  "leaked P s = int (length (filter (panicked P) (ls_callers s)))"

lemma counted_split: "counted P s = in_flight P s + leaked P s"
proof -
  have "length (filter (caller_counts P) cs) = length (filter (live_counts P) cs) + length (filter (panicked P) cs)" for cs
    by (induction cs) (auto simp: caller_counts_def live_counts_def panicked_def split: caller.splits)
  then show ?thesis by (simp add: counted_def in_flight_def leaked_def)
qed

abbreviation one :: "bool \<Rightarrow> int" where "one b \<equiv> (if b then 1 else 0)"

lemma count_update:
  "i < length xs \<Longrightarrow> int (length (filter P (xs[i := x]))) = int (length (filter P xs)) - one (P (xs ! i)) + one (P x)"
  using length_filter_update [of i xs P x] by (auto split: if_splits)

lemma sum_update: "q < length xs \<Longrightarrow> sum_list (xs[q := x]) = sum_list xs - xs ! q + (x :: int)"
proof (induction xs arbitrary: q)
  case (Cons y ys)
  then show ?case by (cases q) auto
qed simp

lemma counted_put_caller:
  "i < length (ls_callers s) \<Longrightarrow> counted P (put_caller i c s)
     = counted P s - one (caller_counts P (ls_callers s ! i)) + one (caller_counts P c)"
  by (simp add: counted_def count_update)

lemma counted_put_worker:
  "j < length (ls_workers s) \<Longrightarrow> counted P (put_worker j w s)
     = counted P s - one (worker_counts P (ls_workers s ! j)) + one (worker_counts P w)"
  by (simp add: counted_def count_update)

lemma counted_put_queue:
  "q < length (ls_queues s) \<Longrightarrow> counted P (s\<lparr>ls_queues := (ls_queues s)[q := xs]\<rparr>)
     = counted P s - queue_counts P (ls_queues s ! q) + queue_counts P xs"
  by (simp add: counted_def map_update sum_update)

lemma counted_frame [simp]:
  "counted P (add_flight x d s) = counted P s"
  "counted P (s\<lparr>ls_brownout := b\<rparr>) = counted P s"
  "counted P (s\<lparr>ls_next := k\<rparr>) = counted P s"
  "counted P (s\<lparr>ls_result := f\<rparr>) = counted P s"
  "counted P (s\<lparr>ls_context := g\<rparr>) = counted P s"
  "counted P (s\<lparr>ls_breakerOpen := h\<rparr>) = counted P s"
  "counted P (s\<lparr>ls_closed := b\<rparr>) = counted P s"
  "counted P (s\<lparr>ls_queuesClosed := b\<rparr>) = counted P s"
  by (simp_all add: counted_def add_flight_def)

lemma add_flight_frame [simp]:
  "ls_callers (add_flight x d s) = ls_callers s" "ls_workers (add_flight x d s) = ls_workers s"
  "ls_queues (add_flight x d s) = ls_queues s" "ls_closed (add_flight x d s) = ls_closed s"
  "ls_queuesClosed (add_flight x d s) = ls_queuesClosed s" "ls_result (add_flight x d s) = ls_result s"
  "ls_context (add_flight x d s) = ls_context s" "ls_next (add_flight x d s) = ls_next s"
  "ls_brownout (add_flight x d s) = ls_brownout s" "ls_breakerOpen (add_flight x d s) = ls_breakerOpen s"
  by (simp_all add: add_flight_def)

text \<open>
  The counters and what they count move together: one step changes both by \<open>d\<close>, for one session.
\<close>

definition moves_together :: "load_state \<Rightarrow> load_state \<Rightarrow> bool" where
  "moves_together s s' \<longleftrightarrow> (\<exists>x d. (\<forall>P. counted P s' = counted P s + (if P x then d else 0))
     \<and> ls_global s' = ls_global (add_flight x d s) \<and> ls_inFlight s' = ls_inFlight (add_flight x d s))"

lemma moves_togetherI:
  assumes "\<And>P. counted P s' = counted P s + (if P x then d else 0)"
    and "ls_global s' = ls_global (add_flight x d s)" "ls_inFlight s' = ls_inFlight (add_flight x d s)"
  shows "moves_together s s'"
  using assms unfolding moves_together_def by blast

lemma moves_none:
  assumes "\<And>P. counted P s' = counted P s" "ls_global s' = ls_global s" "ls_inFlight s' = ls_inFlight s"
  shows "moves_together s s'"
  using assms by (intro moves_togetherI [where x = None and d = 0]) (auto simp: add_flight_def split: option.split)

text \<open>The same for what a call does before it is put back.\<close>

lemma caller_move_together:
  assumes i: "i < length (ls_callers s)" and m: "caller_move cfg (ls_callers s ! i) s = Some (c, s')"
    and three: "length (ls_queues s) = 3"
  shows "moves_together s (put_caller i c s')"
proof -
  have keep: "moves_together s (put_caller i c' s'')"
    if "\<And>P. caller_counts P c' = caller_counts P (ls_callers s ! i)" "\<And>P. counted P s'' = counted P s"
      "ls_callers s'' = ls_callers s" "ls_global s'' = ls_global s" "ls_inFlight s'' = ls_inFlight s" for c' s''
    using that i by (intro moves_none) (simp_all add: counted_def count_update)
  have stay: "moves_together s (put_caller i c s')"
    if "s' = s \<and> (\<forall>P. caller_counts P c = caller_counts P (ls_callers s ! i))"
    using that keep [of c s] by simp
  show ?thesis
  proof (cases "ls_callers s ! i")
    case (Loaded cur r p x)
    then have "caller_counts P (ls_callers s ! i) = False" for P by (simp add: caller_counts_def)
    moreover have "admit cfg cur r p x s = (c, s')" using m Loaded by simp
    ultimately show ?thesis
      using i by (intro moves_togetherI [where x = x and d = "if caller_counts (\<lambda>x. True) c then 1 else 0"])
        (auto simp: admit_def counted_def count_update caller_counts_def add_flight_def fun_eq_iff
          split: if_splits option.splits)
  next
    case (Counted r p x)
    have sub: "submit cfg r p x s = (c, s')" using m Counted by simp
    let ?rq = "\<lparr>rq_id = r, rq_priority = p, rq_session = x\<rparr>"
    consider "c = CallPanic x" "s' = s" | "p < 3" "c = Waiting r" "s' = s\<lparr>ls_queues := (ls_queues s)[p := ls_queues s ! p @ [?rq]]\<rparr>"
      | "c = Returned (Some ErrServiceOverloaded)" "s' = add_flight x (- 1) s"
      using sub three by (auto simp: submit_def chan_send_def split: if_splits)
    then show ?thesis
    proof cases
      case 1
      then show ?thesis using Counted by (intro keep) (simp_all add: caller_counts_def)
    next
      case 2
      have "counted P (put_caller i c s') = counted P s" for P
        using 2 Counted i three
        by (simp add: counted_def count_update map_update sum_update caller_counts_def queue_counts_def)
      then show ?thesis using 2 by (intro moves_none) simp_all
    next
      case 3
      then show ?thesis using Counted i
        by (intro moves_togetherI [where x = x and d = "- 1"])
          (simp_all add: counted_def count_update caller_counts_def add_flight_def)
    qed
  qed (rule stay, use m in \<open>force simp: caller_counts_def split: if_splits option.splits\<close>)+
qed

lemma step_moves_together:
  assumes "load_step cfg s s'" "length (ls_queues s) = 3"
  shows "moves_together s s'"
  using assms
proof (cases rule: load_step.cases)
  case (call i prio session)
  then show ?thesis by (intro moves_none) (simp_all add: counted_def count_update caller_counts_def)
next
  case (move i c s'')
  then show ?thesis using caller_move_together assms(2) by simp
next
  case (operation_done i session e)
  then show ?thesis
    by (intro moves_togetherI [where x = session and d = "- 1"])
      (simp_all add: counted_def count_update caller_counts_def add_flight_def)
next
  case (result i r e)
  then show ?thesis by (intro moves_none) (simp_all add: counted_def count_update caller_counts_def)
next
  case (give_up i r e)
  then show ?thesis by (intro moves_none) (simp_all add: counted_def count_update caller_counts_def)
next
  case (receive j q rq rest)
  have q: "q < 3" using receive(3) by (cases "ls_workers s ! j") auto
  have "ls_queues s ! q = rq # rest" using receive(4) by (cases "ls_queues s ! q") auto
  moreover have "\<not> worker_counts P (ls_workers s ! j)" for P
    using receive(3) by (cases "ls_workers s ! j") (auto simp: worker_counts_def)
  ultimately show ?thesis using receive q assms(2)
    by (intro moves_none)
      (simp_all add: counted_def count_update map_update sum_update worker_counts_def queue_counts_def)
next
  case (default j)
  then show ?thesis
    by (intro moves_none) (auto simp: counted_def count_update worker_counts_def)
next
  case (stop_worker j)
  then have "\<not> worker_counts P (ls_workers s ! j)" for P
    by (cases "ls_workers s ! j") (auto simp: worker_counts_def)
  then show ?thesis using stop_worker
    by (intro moves_none) (simp_all add: counted_def count_update worker_counts_def)
next
  case (examine j rq w s'')
  have "w = Executing rq \<and> s'' = s \<or> w = AtSafety \<and> (\<exists>e. s'' = answer rq e s)"
    using examine(4) by (auto simp: examine_def split: option.splits if_splits)
  then show ?thesis
  proof
    assume "w = Executing rq \<and> s'' = s"
    then show ?thesis using examine by (intro moves_none) (simp_all add: counted_def count_update worker_counts_def)
  next
    assume "w = AtSafety \<and> (\<exists>e. s'' = answer rq e s)"
    then show ?thesis using examine
      by (intro moves_togetherI [where x = "rq_session rq" and d = "- 1"])
        (auto simp: counted_def count_update worker_counts_def answer_def, auto simp: add_flight_def split: option.split)
  qed
next
  case (worked j rq e)
  then show ?thesis
    by (intro moves_togetherI [where x = "rq_session rq" and d = "- 1"])
      (auto simp: counted_def count_update worker_counts_def answer_def, auto simp: add_flight_def split: option.split)
qed (auto intro!: moves_none simp: checkGlobalHealth_def)
section \<open>Invariants\<close>

definition counters_ok :: "load_state \<Rightarrow> bool" where
  "counters_ok s \<longleftrightarrow> length (ls_queues s) = 3 \<and> ls_global s = counted (\<lambda>x. True) s
     \<and> (\<forall>e. ls_inFlight s e = counted (\<lambda>x. x = Some e) s)"

lemma caller_move_queues: "caller_move cfg c s = Some (c', s') \<Longrightarrow> length (ls_queues s') = length (ls_queues s)"
  by (cases c) (auto simp: admit_def submit_def split: if_splits option.splits)

lemma examine_queues: "examine rq s = (w, s') \<Longrightarrow> ls_queues s' = ls_queues s"
  by (auto simp: examine_def answer_def split: if_splits option.splits)

lemma step_queues: "load_step cfg s s' \<Longrightarrow> length (ls_queues s') = length (ls_queues s)"
  by (cases rule: load_step.cases)
    (auto simp: caller_move_queues examine_queues answer_def checkGlobalHealth_def)

lemma step_counters:
  assumes "load_step cfg s s'" "counters_ok s"
  shows "counters_ok s'"
proof -
  have "moves_together s s'" using assms by (intro step_moves_together) (auto simp: counters_ok_def)
  then obtain x d where m: "\<And>P. counted P s' = counted P s + (if P x then d else 0)"
      "ls_global s' = ls_global (add_flight x d s)" "ls_inFlight s' = ls_inFlight (add_flight x d s)"
    unfolding moves_together_def by blast
  have "ls_inFlight s' e = counted (\<lambda>x. x = Some e) s'" for e
    using m assms(2) by (auto simp: counters_ok_def add_flight_def split: option.splits)
  then show ?thesis using m assms step_queues [OF assms(1)] by (simp add: counters_ok_def add_flight_def)
qed

lemma initial_counters: "counters_ok (initial_load n k)"
  by (simp add: counters_ok_def counted_def initial_load_def caller_counts_def worker_counts_def queue_counts_def)

lemma reachable_counters: "load_reachable cfg n k s \<Longrightarrow> counters_ok s"
  by (induction rule: load_reachable.induct) (auto simp: initial_counters step_counters)

text \<open>Telemetry is refused before it could be queued.\<close>

definition no_telemetry :: "load_state \<Rightarrow> bool" where
  "no_telemetry s \<longleftrightarrow> length (ls_queues s) = 3 \<and> ls_queues s ! 0 = []
     \<and> (\<forall>i<length (ls_callers s). \<forall>r x. ls_callers s ! i \<noteq> Counted r 0 x)"

lemma step_no_telemetry:
  assumes "threshold cfg \<le> lc_maxGlobalInFlight cfg" and "load_step cfg s s'" "no_telemetry s"
  shows "no_telemetry s'"
  using assms(2,3) step_queues [OF assms(2)]
proof (cases rule: load_step.cases)
  case (move i c s'')
  have callers: "ls_callers s'' = ls_callers s"
    using move(3) by (cases "ls_callers s ! i")
      (auto simp: admit_def submit_def split: if_splits option.splits)
  have "c \<noteq> Counted r 0 x" for r x
    using move(3) assms(1,3) by (cases "ls_callers s ! i")
      (auto simp: admit_def submit_def split: if_splits option.splits)
  moreover have "ls_queues s'' ! 0 = []"
    using move(2,3) assms(3) by (cases "ls_callers s ! i")
      (auto simp: admit_def submit_def no_telemetry_def nth_list_update split: if_splits option.splits)
  ultimately show ?thesis
    using move assms(3) callers caller_move_queues [OF move(3)] by (auto simp: no_telemetry_def nth_list_update)
next
  case (receive j q rq rest)
  then show ?thesis using assms(3)
    by (cases "q = 0") (auto simp: no_telemetry_def)
next
  case (examine j rq w s'')
  have "ls_callers s'' = ls_callers s"
    using examine(4) by (auto simp: examine_def answer_def split: if_splits option.splits)
  then show ?thesis using examine assms(3) examine_queues [OF examine(4)] by (simp add: no_telemetry_def)
qed (auto simp: no_telemetry_def nth_list_update answer_def checkGlobalHealth_def)

text \<open>A call that waits has its request in exactly the hands it should be in.\<close>

fun caller_id :: "caller \<Rightarrow> nat option" where
  "caller_id (AtContext r p x) = Some r"
| "caller_id (AtBreaker r p x) = Some r"
| "caller_id (AtBrownout r p x) = Some r"
| "caller_id (AtEndpoint r p x) = Some r"
| "caller_id (AtGlobal r p x) = Some r"
| "caller_id (Loaded n r p x) = Some r"
| "caller_id (Counted r p x) = Some r"
| "caller_id (Waiting r) = Some r"
| "caller_id c = None"

fun worker_id :: "worker \<Rightarrow> nat option" where
  "worker_id (Holding rq) = Some (rq_id rq)"
| "worker_id (Executing rq) = Some (rq_id rq)"
| "worker_id w = None"

definition in_hand :: "load_state \<Rightarrow> nat \<Rightarrow> bool" where
  "in_hand s r \<longleftrightarrow> (\<exists>q<length (ls_queues s). \<exists>rq\<in>set (ls_queues s ! q). rq_id rq = r)
     \<or> (\<exists>j<length (ls_workers s). worker_id (ls_workers s ! j) = Some r) \<or> ls_result s r \<noteq> None"

definition calls_ok :: "load_state \<Rightarrow> bool" where
  "calls_ok s \<longleftrightarrow> (\<forall>i<length (ls_callers s). \<forall>r. caller_id (ls_callers s ! i) = Some r \<longrightarrow>
       r < ls_next s \<and> (\<forall>j<length (ls_callers s). j \<noteq> i \<longrightarrow> caller_id (ls_callers s ! j) \<noteq> Some r)
       \<and> (ls_callers s ! i = Waiting r \<longrightarrow> in_hand s r))"

lemma calls_okD:
  "calls_ok s \<Longrightarrow> i < length (ls_callers s) \<Longrightarrow> ls_callers s ! i = Waiting r \<Longrightarrow> in_hand s r"
  by (simp add: calls_ok_def)

text \<open>One call moves on and keeps its name; the others stay in hand.\<close>

lemma calls_ok_move:
  assumes ok: "calls_ok s" and i: "i < length (ls_callers s)"
    and callers: "ls_callers s' = (ls_callers s)[i := c]" and nxt: "ls_next s \<le> ls_next s'"
    and name: "\<And>r. caller_id c = Some r \<Longrightarrow>
        caller_id (ls_callers s ! i) = Some r \<or> ls_next s \<le> r \<and> r < ls_next s'"
    and mine: "\<And>r. c = Waiting r \<Longrightarrow> in_hand s' r"
    and others: "\<And>r. in_hand s r \<Longrightarrow> caller_id (ls_callers s ! i) \<noteq> Some r \<Longrightarrow> in_hand s' r"
  shows "calls_ok s'"
  unfolding calls_ok_def
proof (intro allI impI)
  fix k r
  assume k: "k < length (ls_callers s')" and r: "caller_id (ls_callers s' ! k) = Some r"
  have old: "caller_id (ls_callers s ! m) = Some q \<Longrightarrow> q < ls_next s
      \<and> (\<forall>j<length (ls_callers s). j \<noteq> m \<longrightarrow> caller_id (ls_callers s ! j) \<noteq> Some q)
      \<and> (ls_callers s ! m = Waiting q \<longrightarrow> in_hand s q)" if "m < length (ls_callers s)" for m q
    using ok that by (simp add: calls_ok_def)
  show "r < ls_next s' \<and> (\<forall>j<length (ls_callers s'). j \<noteq> k \<longrightarrow> caller_id (ls_callers s' ! j) \<noteq> Some r)
      \<and> (ls_callers s' ! k = Waiting r \<longrightarrow> in_hand s' r)"
  proof (cases "k = i")
    case True
    then have c: "caller_id c = Some r" "ls_callers s' ! k = c" using r i callers by simp_all
    show ?thesis
    proof (cases "caller_id (ls_callers s ! i) = Some r")
      case True
      then show ?thesis using old [OF i True] c \<open>k = i\<close> callers nxt mine by auto
    next
      case False
      then have "ls_next s \<le> r" "r < ls_next s'" using name [OF c(1)] by auto
      moreover have "caller_id (ls_callers s ! j) \<noteq> Some r" if "j < length (ls_callers s)" for j
        using old [OF that] \<open>ls_next s \<le> r\<close> by force
      ultimately show ?thesis using c \<open>k = i\<close> callers mine by auto
    qed
  next
    case False
    then have ck: "ls_callers s' ! k = ls_callers s ! k" "k < length (ls_callers s)" using k callers by simp_all
    note o = old [OF ck(2) r [unfolded ck(1)]]
    have "caller_id (ls_callers s' ! j) \<noteq> Some r" if "j < length (ls_callers s')" "j \<noteq> k" for j
      using that o callers name [of r] i by (cases "j = i") auto
    moreover have "ls_callers s' ! k = Waiting r \<Longrightarrow> in_hand s' r"
      using o False i by (intro others) (auto simp: ck(1))
    ultimately show ?thesis using o nxt by simp
  qed
qed

lemma calls_ok_same:
  assumes "calls_ok s" "ls_callers s' = ls_callers s" "ls_next s' = ls_next s" "\<And>r. in_hand s r \<Longrightarrow> in_hand s' r"
  shows "calls_ok s'"
  using assms by (auto simp: calls_ok_def)

lemma in_hand_queue_put:
  "p < length (ls_queues s) \<Longrightarrow> set (ls_queues s ! p) \<subseteq> set q \<Longrightarrow> in_hand s r \<Longrightarrow>
     in_hand (s\<lparr>ls_queues := (ls_queues s)[p := q]\<rparr>) r"
proof -
  assume p: "p < length (ls_queues s)" and sub: "set (ls_queues s ! p) \<subseteq> set q" and h: "in_hand s r"
  have "\<exists>k<length (ls_queues s). \<exists>rq\<in>set ((ls_queues s)[p := q] ! k). rq_id rq = r"
    if "k < length (ls_queues s)" "rq \<in> set (ls_queues s ! k)" "rq_id rq = r" for k rq
    using that sub p by (intro exI [of _ k]) (auto simp: nth_list_update)
  then show ?thesis using h unfolding in_hand_def by auto
qed

lemma in_hand_cong:
  "ls_queues s' = ls_queues s \<Longrightarrow> ls_workers s' = ls_workers s \<Longrightarrow> ls_result s' = ls_result s \<Longrightarrow>
     in_hand s' r = in_hand s r"
  by (simp add: in_hand_def)


lemma in_hand_frame [simp]:
  "in_hand (add_flight x d s) r = in_hand s r"
  "in_hand (s\<lparr>ls_callers := cs\<rparr>) r = in_hand s r"
  "in_hand (s\<lparr>ls_next := k\<rparr>) r = in_hand s r"
  "in_hand (s\<lparr>ls_brownout := b\<rparr>) r = in_hand s r"
  by (simp_all add: in_hand_def)

lemma caller_move_in_hand:
  assumes "caller_move cfg c s = Some (c', s')" "in_hand s r" "length (ls_queues s) = 3"
  shows "in_hand s' r"
proof (cases c)
  case (Loaded cur q p x)
  then show ?thesis using assms by (auto simp: admit_def split: if_splits)
next
  case (Counted q p x)
  have "in_hand (s\<lparr>ls_queues := (ls_queues s)[p := ls_queues s ! p @ [y]]\<rparr>) r" if "p < 3" for y
    using that assms by (intro in_hand_queue_put) auto
  then show ?thesis using assms Counted
    by (auto simp: submit_def chan_send_def not_le split: if_splits)
qed (use assms in \<open>auto split: if_splits option.splits\<close>)

lemma caller_move_calls:
  assumes "caller_move cfg c s = Some (c', s')" "length (ls_queues s) = 3"
  shows "ls_callers s' = ls_callers s \<and> ls_next s' = ls_next s
    \<and> (\<forall>r. caller_id c' = Some r \<longrightarrow> caller_id c = Some r) \<and> (\<forall>r. c' = Waiting r \<longrightarrow> in_hand s' r)"
proof (cases c)
  case (Counted q p x)
  have "in_hand (s\<lparr>ls_queues := (ls_queues s)[p := ls_queues s ! p @ [\<lparr>rq_id = q, rq_priority = p, rq_session = x\<rparr>]]\<rparr>) q"
    if "p < 3"
    using that assms(2) by (auto simp: in_hand_def)
  then show ?thesis using assms Counted
    by (auto simp: submit_def chan_send_def not_le split: if_splits)
qed (use assms in \<open>auto simp: admit_def split: if_splits option.splits\<close>)

text \<open>What a worker does with the request it has leaves the other requests in hand.\<close>

lemma in_hand_answer:
  assumes "j < length (ls_workers s)" "\<And>q. worker_id (ls_workers s ! j) = Some q \<Longrightarrow> q = rq_id rq" "in_hand s r"
  shows "in_hand (put_worker j w (answer rq e s)) r"
proof (cases "r = rq_id rq")
  case False
  have "\<exists>k<length (ls_workers s). worker_id ((ls_workers s)[j := w] ! k) = Some r"
    if "k < length (ls_workers s)" "worker_id (ls_workers s ! k) = Some r" for k
    using that assms(2) [of r] False by (intro exI [of _ k]) (cases "k = j", auto)
  then show ?thesis using assms(3) False by (auto simp: in_hand_def answer_def)
qed (simp add: in_hand_def answer_def)

lemma in_hand_worker:
  assumes "j < length (ls_workers s)" "worker_id w = worker_id (ls_workers s ! j)" "in_hand s r"
  shows "in_hand (put_worker j w s) r"
proof -
  have "\<exists>k<length (ls_workers s). worker_id ((ls_workers s)[j := w] ! k) = Some r"
    if "k < length (ls_workers s)" "worker_id (ls_workers s ! k) = Some r" for k
    using that assms(2) by (intro exI [of _ k]) (cases "k = j", auto)
  then show ?thesis using assms(3) by (auto simp: in_hand_def)
qed

lemma in_hand_receive:
  assumes "j < length (ls_workers s)" "worker_id (ls_workers s ! j) = None" "q < length (ls_queues s)"
    and "ls_queues s ! q = rq # rest" "in_hand s r"
  shows "in_hand (put_worker j (Holding rq) (s\<lparr>ls_queues := (ls_queues s)[q := rest]\<rparr>)) r"
proof -
  let ?ws = "(ls_workers s)[j := Holding rq]"
  consider (queue) k y where "k < length (ls_queues s)" "y \<in> set (ls_queues s ! k)" "rq_id y = r"
    | (worker) k where "k < length (ls_workers s)" "worker_id (ls_workers s ! k) = Some r"
    | (result) "ls_result s r \<noteq> None"
    using assms(5) by (auto simp: in_hand_def)
  then show ?thesis
  proof cases
    case queue
    show ?thesis
    proof (cases "k = q \<and> y = rq")
      case True
      then have "worker_id (?ws ! j) = Some r" using assms(1) queue(3) by simp
      then show ?thesis using assms(1) by (auto simp: in_hand_def)
    next
      case False
      then have "y \<in> set ((ls_queues s)[q := rest] ! k)"
        using queue assms(3,4) by (auto simp: nth_list_update)
      then show ?thesis using queue by (auto simp: in_hand_def)
    qed
  next
    case worker
    then have "k \<noteq> j" using assms(2) by auto
    then have "worker_id (?ws ! k) = Some r" using worker by simp
    then show ?thesis using worker(1) by (auto simp: in_hand_def)
  qed (simp add: in_hand_def)
qed

lemma worker_id_level: "looks_at w \<noteq> [] \<Longrightarrow> worker_id w = None"
  by (cases w) auto

lemma step_calls_ok:
  assumes "load_step cfg s s'" "length (ls_queues s) = 3" and ok: "calls_ok s"
  shows "calls_ok s'"
  using assms(1)
proof (cases rule: load_step.cases)
  case (call i prio session)
  then show ?thesis by (intro calls_ok_move [OF ok call(2)]) auto
next
  case (move i c s'')
  note m = caller_move_calls [OF move(3) assms(2)]
  show ?thesis
    using move m caller_move_in_hand [OF move(3) _ assms(2)]
    by (intro calls_ok_move [OF ok move(2)]) auto
next
  case (operation_done i session e)
  then show ?thesis by (intro calls_ok_move [OF ok operation_done(2)]) auto
next
  case (result i r e)
  have "in_hand s' q" if "in_hand s q" "q \<noteq> r" for q
    using that result by (simp add: in_hand_def)
  then show ?thesis using result by (intro calls_ok_move [OF ok result(2)]) auto
next
  case (give_up i r e)
  then show ?thesis by (intro calls_ok_move [OF ok give_up(2)]) auto
next
  case (receive j q rq rest)
  have "q < length (ls_queues s)" using receive(3) assms(2) by (cases "ls_workers s ! j") auto
  moreover have "ls_queues s ! q = rq # rest" using receive(4) by (cases "ls_queues s ! q") auto
  moreover have "worker_id (ls_workers s ! j) = None" using receive(3) by (intro worker_id_level) auto
  ultimately show ?thesis
    using receive(1) in_hand_receive [OF receive(2), of q rq rest] by (intro calls_ok_same [OF ok]) auto
next
  case (default j)
  have "worker_id (next_level (ls_workers s ! j)) = worker_id (ls_workers s ! j)"
    using default(3) by auto
  then show ?thesis using default(1) in_hand_worker [OF default(2)] by (intro calls_ok_same [OF ok]) auto
next
  case (stop_worker j)
  then have "worker_id Exited = worker_id (ls_workers s ! j)" using worker_id_level by simp
  then show ?thesis using stop_worker(1) in_hand_worker [OF stop_worker(2)] by (intro calls_ok_same [OF ok]) auto
next
  case (examine j rq w s'')
  consider "w = Executing rq" "s'' = s" | e where "w = AtSafety" "s'' = answer rq e s"
    using examine(4) by (auto simp: examine_def split: option.splits if_splits)
  then show ?thesis
  proof cases
    case 1
    then show ?thesis using examine in_hand_worker [OF examine(2), of w] by (intro calls_ok_same [OF ok]) auto
  next
    case 2
    then show ?thesis using examine in_hand_answer [OF examine(2), of rq] 
      by (intro calls_ok_same [OF ok]) (auto simp: answer_def)
  qed
next
  case (worked j rq e)
  then show ?thesis using in_hand_answer [OF worked(2), of rq]
    by (intro calls_ok_same [OF ok]) (auto simp: answer_def)
qed (auto intro!: calls_ok_same [OF ok] simp: checkGlobalHealth_def in_hand_def)

lemma initial_calls: "calls_ok (initial_load n k)"
  by (simp add: calls_ok_def initial_load_def)

lemma reachable_calls: "load_reachable cfg n k s \<Longrightarrow> calls_ok s"
proof (induction rule: load_reachable.induct)
  case (step s s')
  then show ?case using step_calls_ok reachable_counters by (auto simp: counters_ok_def)
qed (rule initial_calls)
section \<open>Runs\<close>

text \<open>An unhindered call of a priority above telemetry gets as far as loading the counter.\<close>

lemma enter:
  assumes r: "load_reachable cfg n k s" and i: "i < length (ls_callers s)" "ls_callers s ! i = Out"
    and ctx: "ls_context s (ls_next s) = None" and prio: "0 < prio" and brk: "\<not> session_open s x"
  shows "load_reachable cfg n k (put_caller i (Loaded (ls_global s) (ls_next s) prio x) (s\<lparr>ls_next := Suc (ls_next s)\<rparr>))"
proof -
  let ?r = "ls_next s" and ?s = "s\<lparr>ls_next := Suc (ls_next s)\<rparr>"
  have go: "load_reachable cfg n k (put_caller i c' ?s)"
    if "load_reachable cfg n k (put_caller i c ?s)" "caller_move cfg c (put_caller i c ?s) = Some (c', put_caller i c ?s)"
    for c c'
  proof -
    have "load_step cfg (put_caller i c ?s) (put_caller i c' (put_caller i c ?s))"
      using that(2) i(1) by (intro load_step.move) auto
    then show ?thesis using that(1) load_reachable.step by fastforce
  qed
  have "load_reachable cfg n k (put_caller i (AtContext ?r prio x) ?s)"
    using r load_step.call [OF i, of cfg prio x] by (rule load_reachable.step)
  then have "load_reachable cfg n k (put_caller i (AtBreaker ?r prio x) ?s)" by (rule go) (simp add: ctx)
  then have "load_reachable cfg n k (put_caller i (AtBrownout ?r prio x) ?s)"
    by (rule go) (use brk in \<open>simp add: session_open_def split: option.splits\<close>)
  then have "load_reachable cfg n k (put_caller i (AtEndpoint ?r prio x) ?s)" by (rule go) (use prio in simp)
  then have "load_reachable cfg n k (put_caller i (AtGlobal ?r prio x) ?s)" by (rule go) (use prio in simp)
  then show ?thesis by (rule go) simp
qed

lemma no_session_open [simp]: "\<not> session_open s None"
  by (simp add: session_open_def)

lemma next_move:
  assumes "load_reachable cfg n k s" "i < length (ls_callers s)" "caller_move cfg (ls_callers s ! i) s = Some (c, s')"
  shows "load_reachable cfg n k (put_caller i c s')"
  using assms load_step.move load_reachable.step by blast

lemma all_loaded:
  "m \<le> n \<Longrightarrow> load_reachable cfg n k ((initial_load n k)\<lparr>ls_next := m,
     ls_callers := map (\<lambda>r. Loaded 0 r 1 None) [0..<m] @ replicate (n - m) Out\<rparr>)"
proof (induction m)
  case 0
  have "(initial_load n k)\<lparr>ls_next := 0, ls_callers := replicate n Out\<rparr> = initial_load n k"
    by (simp add: initial_load_def)
  then show ?case using load_reachable.start [of cfg n k] by simp
next
  case (Suc m)
  then obtain d where d: "n - m = Suc d" by (cases "n - m") auto
  let ?s = "(initial_load n k)\<lparr>ls_next := m, ls_callers := map (\<lambda>r. Loaded 0 r 1 None) [0..<m] @ replicate (n - m) Out\<rparr>"
  have "load_reachable cfg n k (put_caller m (Loaded (ls_global ?s) (ls_next ?s) 1 None) (?s\<lparr>ls_next := Suc (ls_next ?s)\<rparr>))"
    using Suc d by (intro enter) (auto simp: nth_append initial_load_def)
  moreover have "(map (\<lambda>r. Loaded 0 r 1 None) [0..<m] @ replicate (n - m) Out)[m := Loaded 0 m 1 None]
      = map (\<lambda>r. Loaded 0 r 1 None) [0..<Suc m] @ replicate (n - Suc m) Out"
    using d by (simp add: list_update_append)
  ultimately show ?case by (simp add: initial_load_def)
qed

lemma all_running:
  assumes "0 < lc_maxGlobalInFlight cfg" "m \<le> n"
  shows "load_reachable cfg n k ((initial_load n k)\<lparr>ls_next := n, ls_global := int m,
     ls_callers := replicate m (Running None) @ map (\<lambda>r. Loaded 0 r 1 None) [m..<n]\<rparr>)"
  using assms(2)
proof (induction m)
  case 0
  have "(initial_load n k)\<lparr>ls_next := n, ls_global := 0, ls_callers := cs\<rparr>
      = (initial_load n k)\<lparr>ls_next := n, ls_callers := cs\<rparr>" for cs by (simp add: initial_load_def)
  then show ?case using all_loaded [of n n cfg k] by simp
next
  case (Suc m)
  let ?cs = "replicate m (Running None) @ map (\<lambda>r. Loaded 0 r 1 None) [m..<n]"
  let ?s = "(initial_load n k)\<lparr>ls_next := n, ls_global := int m, ls_callers := ?cs\<rparr>"
  have u: "[m..<n] = m # [Suc m..<n]" using Suc.prems by (simp add: upt_conv_Cons)
  have "?cs ! m = Loaded 0 m 1 None" by (simp add: u nth_append)
  then have "caller_move cfg (ls_callers ?s ! m) ?s = Some (Running None, ?s\<lparr>ls_global := int (Suc m)\<rparr>)"
    using assms(1) by (simp add: admit_def add_flight_def initial_load_def)
  then have "load_reachable cfg n k (put_caller m (Running None) (?s\<lparr>ls_global := int (Suc m)\<rparr>))"
    using Suc by (intro next_move [where s = ?s]) auto
  moreover have "?cs[m := Running None] = replicate (Suc m) (Running None) @ map (\<lambda>r. Loaded 0 r 1 None) [Suc m..<n]"
    by (simp add: u list_update_append replicate_append_same [symmetric])
  ultimately show ?case by (simp add: initial_load_def)
qed

text \<open>A pool whose limit is two operations, with brownout from one half of it.\<close>

definition sample_load :: load_config where
  "sample_load = \<lparr>lc_arch = \<lparr>oob_i64 = (\<lambda>x. 0x8000000000000000), oob_u64 = (\<lambda>x. 0x8000000000000000)\<rparr>, lc_maxGlobalInFlight = 2, lc_brownoutThreshold = 0x3FE0000000000000,
     lc_MaxInFlightPerEndpoint = 1, lc_PriorityQueueSize = 1\<rparr>"

lemma sample_threshold: "threshold sample_load = 1"
  by (simp add: threshold_def sample_load_def fp_to_i64_def float_eval)

text \<open>One control call, counted and queued under a limit of zero operations.\<close>

definition tight_load :: load_config where
  "tight_load = sample_load\<lparr>lc_maxGlobalInFlight := 0\<rparr>"

abbreviation queued_state :: load_state where
  "queued_state \<equiv> (initial_load 1 1)\<lparr>ls_next := 1, ls_global := 1, ls_callers := [Waiting 0],
     ls_queues := [[], [\<lparr>rq_id = 0, rq_priority = 1, rq_session = None\<rparr>], []]\<rparr>"

lemma queued_reachable: "load_reachable tight_load 1 1 queued_state"
proof -
  let ?q = "[[], [\<lparr>rq_id = 0, rq_priority = 1, rq_session = None\<rparr>], []]"
  let ?s1 = "(initial_load 1 1)\<lparr>ls_next := 1, ls_callers := [Loaded 0 0 1 None]\<rparr>"
  let ?s2 = "(initial_load 1 1)\<lparr>ls_next := 1, ls_global := 1, ls_callers := [Counted 0 1 None]\<rparr>"
  have "caller_move tight_load (ls_callers ?s1 ! 0) ?s1 = Some (Counted 0 1 None, ?s1\<lparr>ls_global := 1\<rparr>)"
    by (simp add: admit_def tight_load_def add_flight_def initial_load_def)
  moreover have "load_reachable tight_load 1 1 ?s1" using all_loaded [of 1 1 tight_load 1] by simp
  ultimately have "load_reachable tight_load 1 1 (put_caller 0 (Counted 0 1 None) (?s1\<lparr>ls_global := 1\<rparr>))"
    using next_move [of tight_load 1 1 ?s1 0] by simp
  then have "load_reachable tight_load 1 1 ?s2" by (simp add: initial_load_def)
  moreover have "caller_move tight_load (ls_callers ?s2 ! 0) ?s2 = Some (Waiting 0, ?s2\<lparr>ls_queues := ?q\<rparr>)"
    by (simp add: submit_def chan_send_def tight_load_def sample_load_def initial_load_def)
  ultimately have "load_reachable tight_load 1 1 (put_caller 0 (Waiting 0) (?s2\<lparr>ls_queues := ?q\<rparr>))"
    using next_move [of tight_load 1 1 ?s2 0] by simp
  then show ?thesis by (simp add: initial_load_def)
qed

text \<open>At the limit, a call of a higher priority is counted and goes on to queue its operation.\<close>

lemma enter_queue:
  assumes "load_reachable cfg n k s" "i < length (ls_callers s)" "ls_callers s ! i = Out"
    and "ls_context s (ls_next s) = None" "0 < prio" "\<not> session_open s x"
    and "lc_maxGlobalInFlight cfg \<le> ls_global s" "\<not> ls_closed s"
  shows "load_reachable cfg n k (put_caller i (Counted (ls_next s) prio x) (add_flight x 1 (s\<lparr>ls_next := Suc (ls_next s)\<rparr>)))"
proof -
  let ?s = "put_caller i (Loaded (ls_global s) (ls_next s) prio x) (s\<lparr>ls_next := Suc (ls_next s)\<rparr>)"
  have r: "load_reachable cfg n k ?s" using assms by (intro enter) auto
  have m: "caller_move cfg (ls_callers ?s ! i) ?s = Some (Counted (ls_next s) prio x, add_flight x 1 ?s)"
    using assms by (simp add: admit_def)
  have "load_reachable cfg n k (put_caller i (Counted (ls_next s) prio x) (add_flight x 1 ?s))"
    by (rule next_move [OF r _ m]) (use assms(2) in simp)
  then show ?thesis by (simp add: add_flight_def cong: option.case_cong)
qed

text \<open>
  Two calls for one endpoint under a limit of zero operations: the first is queued, the second, of a priority
  there is no queue for, has panicked.
\<close>

abbreviation one_queued_one_panicked :: load_state where
  "one_queued_one_panicked \<equiv> (initial_load 2 1)\<lparr>ls_next := 2, ls_global := 2, ls_inFlight := (\<lambda>e. 0)(''plc'' := 2),
     ls_callers := [Waiting 0, CallPanic (Some ''plc'')],
     ls_queues := [[], [\<lparr>rq_id = 0, rq_priority = 1, rq_session = Some ''plc''\<rparr>], []]\<rparr>"

lemma one_queued_one_panicked_reachable: "load_reachable tight_load 2 1 one_queued_one_panicked"
proof -
  let ?x = "Some ''plc''" and ?q = "[[], [\<lparr>rq_id = 0, rq_priority = 1, rq_session = Some ''plc''\<rparr>], []]"
  let ?s1 = "(initial_load 2 1)\<lparr>ls_next := 1, ls_global := 1, ls_inFlight := (\<lambda>e. 0)(''plc'' := 1), ls_callers := [Counted 0 1 ?x, Out]\<rparr>"
  let ?s2 = "?s1\<lparr>ls_callers := [Waiting 0, Out], ls_queues := ?q\<rparr>"
  let ?s3 = "?s2\<lparr>ls_next := 2, ls_global := 2, ls_inFlight := (\<lambda>e. 0)(''plc'' := 2), ls_callers := [Waiting 0, Counted 1 3 ?x]\<rparr>"
  have two: "replicate 2 Out = [Out, Out]" by (simp add: numeral_2_eq_2)
  have r1: "load_reachable tight_load 2 1 ?s1"
    using enter_queue [OF load_reachable.start [of tight_load 2 1], of 0 1 ?x]
    by (simp add: initial_load_def session_open_def tight_load_def add_flight_def two)
  have m1: "caller_move tight_load (ls_callers ?s1 ! 0) ?s1 = Some (Waiting 0, ?s1\<lparr>ls_queues := ?q\<rparr>)"
    by (simp add: submit_def chan_send_def tight_load_def sample_load_def initial_load_def)
  have "load_reachable tight_load 2 1 (put_caller 0 (Waiting 0) (?s1\<lparr>ls_queues := ?q\<rparr>))"
    by (rule next_move [OF r1 _ m1]) simp
  then have "load_reachable tight_load 2 1 ?s2" by (simp add: initial_load_def)
  then have s3: "load_reachable tight_load 2 1 ?s3"
    using enter_queue [of tight_load 2 1 ?s2 1 3 ?x]
    by (simp add: initial_load_def session_open_def tight_load_def add_flight_def numeral_2_eq_2)
  have m3: "caller_move tight_load (ls_callers ?s3 ! 1) ?s3 = Some (CallPanic ?x, ?s3)"
    by (simp add: submit_def initial_load_def)
  have "load_reachable tight_load 2 1 (put_caller 1 (CallPanic ?x) ?s3)"
    by (rule next_move [OF s3 _ m3]) simp
  then show ?thesis by (simp add: initial_load_def)
qed

section \<open>Properties\<close>

text \<open>
  C32: In every reachable state the global counter is the number of operations that are running, about to be
  queued, queued or with a worker, plus the number of calls that have panicked after they were counted;
  and the counter of every endpoint is the same sum over the operations of its session.  So no path through
  the load control - refused, queued, cancelled, expired or executed - leaks a count, with one exception: a
  call that panics on its way into the queue (a priority that has no queue, or a queue that is closed) never
  gives its count back.
\<close>

theorem inflight_accounted:
  assumes "load_reachable cfg n k s"
  shows "ls_global s = in_flight (\<lambda>x. True) s + leaked (\<lambda>x. True) s
    \<and> (\<forall>e. ls_inFlight s e = in_flight (\<lambda>x. x = Some e) s + leaked (\<lambda>x. x = Some e) s)"
  using reachable_counters [OF assms] by (simp add: counters_ok_def counted_split)

theorem inflight_accounted_witness:
  "ls_global one_queued_one_panicked = 2 \<and> in_flight (\<lambda>x. True) one_queued_one_panicked = 1
     \<and> leaked (\<lambda>x. True) one_queued_one_panicked = 1
     \<and> ls_inFlight one_queued_one_panicked ''plc''
       = in_flight (\<lambda>x. x = Some ''plc'') one_queued_one_panicked + leaked (\<lambda>x. x = Some ''plc'') one_queued_one_panicked"
proof -
  note a = inflight_accounted [OF one_queued_one_panicked_reachable]
  have g: "ls_global one_queued_one_panicked = 2" by simp
  have l: "leaked (\<lambda>x. True) one_queued_one_panicked = 1" by (simp add: leaked_def panicked_def)
  have "in_flight (\<lambda>x. True) one_queued_one_panicked = 1" using conjunct1 [OF a, unfolded g l] by linarith
  then show ?thesis using g l spec [OF conjunct2 [OF a], of "''plc''"] by (intro conjI)
qed

text \<open>
  C33: A call that waits for the result of its queued operation is never forgotten: its request is in a
  queue or with a worker, or its result is there to be taken.
\<close>

theorem waiting_call_in_hand:
  assumes "load_reachable cfg n k s" "i < length (ls_callers s)" "ls_callers s ! i = Waiting r"
  shows "in_hand s r"
  using reachable_calls [OF assms(1)] assms(2,3) by (rule calls_okD)

theorem waiting_call_in_hand_witness: "in_hand queued_state 0"
  using waiting_call_in_hand [OF queued_reachable, of 0 0] by simp

text \<open>
  When the brownout threshold is at most the global limit, no telemetry is ever queued: the third
  queue stays empty, so the workers only ever see control and safety operations.
\<close>

theorem telemetry_never_queued:
  assumes "load_reachable cfg n k s" "threshold cfg \<le> lc_maxGlobalInFlight cfg"
  shows "ls_queues s ! PriorityTelemetry = []"
proof -
  have "no_telemetry s" using assms(1)
  proof (induction rule: load_reachable.induct)
    case start
    then show ?case by (simp add: no_telemetry_def initial_load_def)
  next
    case (step s s')
    then show ?case using step_no_telemetry [OF assms(2)] by blast
  qed
  then show ?thesis by (simp add: no_telemetry_def)
qed

theorem telemetry_never_queued_witness: "ls_queues (initial_load 1 1) ! PriorityTelemetry = []"
  using telemetry_never_queued [OF load_reachable.start [of sample_load 1 1]]
  by (simp add: sample_threshold) (simp add: sample_load_def)

text \<open>
  The global limit is not a limit on what runs at once: the counter is loaded before it is
  incremented, so any number of concurrent control operations can all be admitted under any positive
  limit.
\<close>

theorem limit_overshoot:
  assumes "0 < lc_maxGlobalInFlight cfg"
  shows "\<exists>s. load_reachable cfg n k s \<and> ls_callers s = replicate n (Running None) \<and> ls_global s = int n"
  using all_running [OF assms le_refl, of n k] by (intro exI conjI) auto

theorem limit_overshoot_witness:
  "\<exists>s. load_reachable sample_load 100 1 s \<and> ls_callers s = replicate 100 (Running None) \<and> ls_global s = int 100"
  using limit_overshoot [of sample_load 100 1] by (simp add: sample_load_def)

text \<open>
  A tag's priority is not checked: an operation of priority 3 or more that arrives while the pool is
  at its global limit panics on the array of the three queues, after it has been counted.
\<close>

theorem high_priority_panics:
  assumes "load_reachable cfg n k s" "i < length (ls_callers s)" "ls_callers s ! i = Out"
    and "ls_context s (ls_next s) = None" "\<not> ls_closed s" "lc_maxGlobalInFlight cfg \<le> ls_global s" "(3 :: nat) \<le> prio"
  shows "\<exists>s'. load_reachable cfg n k s' \<and> ls_callers s' ! i = CallPanic None \<and> ls_global s' = ls_global s + 1"
proof -
  let ?r = "ls_next s"
  define s1 where "s1 = put_caller i (Loaded (ls_global s) ?r prio None) (s\<lparr>ls_next := Suc ?r\<rparr>)"
  define s2 where "s2 = put_caller i (Counted ?r prio None) (add_flight None 1 s1)"
  have "load_reachable cfg n k s1" unfolding s1_def using assms by (intro enter) auto
  then have "load_reachable cfg n k s2"
    unfolding s2_def using assms by (intro next_move [where s = s1]) (simp_all add: s1_def admit_def)
  moreover have "length (ls_queues s) = 3" using reachable_counters [OF assms(1)] by (simp add: counters_ok_def)
  then have "caller_move cfg (ls_callers s2 ! i) s2 = Some (CallPanic None, s2)"
    using assms by (simp add: s2_def s1_def submit_def)
  moreover have "i < length (ls_callers s2)" using assms(2) by (simp add: s2_def s1_def)
  ultimately have "load_reachable cfg n k (put_caller i (CallPanic None) s2)" by (intro next_move)
  then show ?thesis
    using assms(2) by (intro exI [of _ "put_caller i (CallPanic None) s2"]) (simp add: s2_def s1_def add_flight_def)
qed

theorem high_priority_panics_witness:
  "\<exists>s'. load_reachable tight_load 1 1 s' \<and> ls_callers s' ! 0 = CallPanic None \<and> ls_global s' = 1"
  using high_priority_panics [OF load_reachable.start [of tight_load 1 1], of 0 3]
  by (simp add: initial_load_def tight_load_def)

text \<open>A call whose request is queued while all workers have gone.\<close>

definition stranded :: "load_state \<Rightarrow> nat \<Rightarrow> nat \<Rightarrow> bool" where
  "stranded s i r \<longleftrightarrow> list_all (\<lambda>w. w = Exited) (ls_workers s) \<and> i < length (ls_callers s)
     \<and> ls_callers s ! i = Waiting r \<and> ls_result s r = None \<and> ls_context s r = None"

text \<open>
  Closing the pool does not answer the operations still queued: once the workers have gone, a
  waiting call stays where it is, whatever else happens, until its own context ends.
\<close>

theorem stranded_until_cancelled:
  assumes "load_step cfg s s'" "stranded s i r"
  shows "stranded s' i r \<or> ls_context s' r \<noteq> None"
  using assms(1)
proof (cases rule: load_step.cases)
  case (move m c s'')
  have "caller_move cfg (Waiting r) s = None" by simp
  then have "m \<noteq> i" using move(3) assms(2) by (auto simp: stranded_def)
  moreover have "ls_callers s'' = ls_callers s \<and> ls_workers s'' = ls_workers s \<and> ls_result s'' = ls_result s
      \<and> ls_context s'' = ls_context s"
    using move(3) by (cases "ls_callers s ! m")
      (auto simp: admit_def submit_def split: if_splits option.splits)
  ultimately show ?thesis using move(1) assms(2) by (simp add: stranded_def)
next
  case (call m prio session)
  then have "m \<noteq> i" using assms(2) by (auto simp: stranded_def)
  then show ?thesis using call(1) assms(2) by (simp add: stranded_def)
next
  case (operation_done m session e)
  then have "m \<noteq> i" using assms(2) by (auto simp: stranded_def)
  then show ?thesis using operation_done(1) assms(2) by (simp add: stranded_def)
next
  case (result m q e)
  then have "m \<noteq> i" using assms(2) by (auto simp: stranded_def)
  then show ?thesis using result(1) assms(2) by (simp add: stranded_def)
next
  case (give_up m q e)
  then have "m \<noteq> i" using assms(2) by (auto simp: stranded_def)
  then show ?thesis using give_up(1) assms(2) by (simp add: stranded_def)
next
  case (receive j q rq rest)
  then show ?thesis using assms(2) by (simp add: stranded_def list_all_length)
next
  case (default j)
  then show ?thesis using assms(2) by (auto simp: stranded_def list_all_length)
next
  case (stop_worker j)
  then show ?thesis using assms(2) by (simp add: stranded_def list_all_length)
next
  case (examine j rq w s'')
  then show ?thesis using assms(2) by (simp add: stranded_def list_all_length)
next
  case (worked j rq e)
  then show ?thesis using assms(2) by (simp add: stranded_def list_all_length)
qed (use assms(2) in \<open>auto simp: stranded_def checkGlobalHealth_def\<close>)

theorem stranded_until_cancelled_witness:
  "let s = queued_state\<lparr>ls_workers := [Exited], ls_closed := True\<rparr>
   in stranded (s\<lparr>ls_queuesClosed := True\<rparr>) 0 0 \<or> ls_context (s\<lparr>ls_queuesClosed := True\<rparr>) 0 \<noteq> None"
proof -
  let ?s = "queued_state\<lparr>ls_workers := [Exited], ls_closed := True\<rparr>"
  have "load_step tight_load ?s (?s\<lparr>ls_queuesClosed := True\<rparr>)" by (rule load_step.close_queues) simp_all
  moreover have "stranded ?s 0 0" by (simp add: stranded_def initial_load_def)
  ultimately show ?thesis using stranded_until_cancelled by (simp only: Let_def)
qed

end
