(* ===== verification/Opcua_Pool.thy ===== *)
theory Opcua_Pool
  imports Opcua_Subscription Opcua_Browse Opcua_Load
begin

text \<open>
  \<open>internal/adapter/opcua/pool.go\<close>, the sessions of \<open>session.go\<close> and the health part of \<open>health.go\<close>: one
  session per endpoint, shared by the devices behind it, with a breaker per endpoint and one per
  device, the browse cache, background reconnects and the reaper.

  An operation is atomic.  The bindings of a session are the keys of its map of devices, the binding
  itself is held by the pool; the recovery state of a session, which is never filled, is left out.
  The counters and queues of the load shaping are part of the world, since other calls act on them
  too: a request enters them by the steps of \<open>Opcua_Load\<close>, and \<open>oe_queued\<close> says how the wait for a
  worker ends.  An operation that a worker still executes after its caller has given up is not
  modelled.  Loops over maps visit the keys in the order of a list given to them.
\<close>

section \<open>State\<close>

record opc_pool_config =
  op_MaxConnections :: int
  op_IdleTimeout :: duration
  op_HealthCheckPeriod :: duration
  op_ConnectionTimeout :: duration
  op_RetryAttempts :: int
  op_RetryDelay :: duration
  op_SecurityPolicy :: string
  op_SecurityMode :: string
  op_AuthMode :: string
  op_MaxNodesPerRead :: int
  op_MaxNodesPerWrite :: int
  op_MaxGlobalInFlight :: int
  op_BrownoutThreshold :: u64
  op_PriorityQueueSize :: int
  op_NumWorkers :: int
  op_MaxInFlightPerEndpoint :: int
  op_MaxTTL :: duration

record 'b device_binding =
  bn_Device :: device
  bn_EndpointKey :: string
  bn_breaker :: 'b

record ('w, 'n, 'b) opc_session =
  os_client :: "'n opc_client"
  os_endpointURL :: string
  os_breaker :: 'b
  os_devices :: "string set"
  os_createdAt :: time
  os_lastError :: "err option"
  os_connectFailures :: nat
  os_nextReconnectAt :: "time option"
  os_subscriptionMgr :: "'w sub_manager option"
  os_lastPublishTime :: time
  os_hasActiveSubscriptions :: bool

record ('w, 'n, 'b) opc_pool =
  op_config :: opc_pool_config
  op_sessions :: "string \<rightharpoonup> ('w, 'n, 'b) opc_session"
  op_devices :: "string \<rightharpoonup> 'b device_binding"
  op_closed :: bool
  op_browseCache :: "string \<rightharpoonup> browse_result \<times> time"
  op_trustStore :: bool
  op_autoTrust :: bool

text \<open>The library acts for the session of an endpoint; \<open>oe_load\<close> are the load shaping's counters and queues.\<close>

record ('w, 'n, 'b) opc_pool_env =
  oe_ops :: "string \<Rightarrow> ('w, 'n) opc_ops"
  oe_browse :: "string \<Rightarrow> ('w, 'n) browse_ops"
  oe_subs :: "string \<Rightarrow> ('w, 'n) sub_lib"
  oe_breaker :: "'b breaker_lib"
  oe_now :: "'w \<Rightarrow> time"
  oe_pki :: "'w \<Rightarrow> pki_env"
  oe_arch :: arch
  oe_load :: "'w \<Rightarrow> load_state"
  oe_put_load :: "load_state \<Rightarrow> 'w \<Rightarrow> 'w"
  oe_queued :: "nat \<Rightarrow> 'w \<Rightarrow> err option \<times> 'w"

type_synonym ('w, 'n, 'b) op_state = "('w, 'n, 'b) opc_pool \<times> 'w"

abbreviation put_session :: "string \<Rightarrow> ('w, 'n, 'b) opc_session \<Rightarrow> ('w, 'n, 'b) opc_pool \<Rightarrow> ('w, 'n, 'b) opc_pool" where
  "put_session k s p \<equiv> p\<lparr>op_sessions := (op_sessions p)(k \<mapsto> s)\<rparr>"

text \<open>
  \<open>NewConnectionPool\<close> with \<open>cpus\<close> processors: a negative queue size and a negative number of goroutines
  panic.  The start-up jitter only sleeps.
\<close>

definition opc_pool_defaults :: "int \<Rightarrow> opc_pool_config \<Rightarrow> opc_pool_config" where
  "opc_pool_defaults cpus cfg =
     (let global = default_if (op_MaxGlobalInFlight cfg) 1000 in
      cfg\<lparr>op_MaxConnections := default_if (op_MaxConnections cfg) 100,
          op_IdleTimeout := default_if (op_IdleTimeout cfg) (300 * second),
          op_HealthCheckPeriod := default_if (op_HealthCheckPeriod cfg) (30 * second),
          op_ConnectionTimeout := default_if (op_ConnectionTimeout cfg) (15 * second),
          op_MaxNodesPerRead := default_if (op_MaxNodesPerRead cfg) 500,
          op_MaxNodesPerWrite := default_if (op_MaxNodesPerWrite cfg) 100,
          op_MaxGlobalInFlight := global,
          op_BrownoutThreshold :=
            (if f64_eq (op_BrownoutThreshold cfg) f64_zero then 0x3FE999999999999A else op_BrownoutThreshold cfg),
          op_PriorityQueueSize := default_if (op_PriorityQueueSize cfg) 1000,
          op_NumWorkers := default_if (op_NumWorkers cfg) (cpus * 2),
          op_MaxInFlightPerEndpoint :=
            default_if (op_MaxInFlightPerEndpoint cfg) (sgn global * (\<bar>global\<bar> div 10))\<rparr>)"

definition opc_NewConnectionPool :: "int \<Rightarrow> opc_pool_config \<Rightarrow> ('w, 'n, 'b) opc_pool res" where
  "opc_NewConnectionPool cpus config =
     (let cfg = opc_pool_defaults cpus config in
      if op_PriorityQueueSize cfg < 0 \<or> 2 + op_NumWorkers cfg < 0 then Panic
      else Ok \<lparr>op_config = cfg, op_sessions = Map.empty, op_devices = Map.empty, op_closed = False,
        op_browseCache = Map.empty, op_trustStore = False, op_autoTrust = False\<rparr>)"

definition SetTrustStore :: "bool \<Rightarrow> ('w, 'n, 'b) opc_pool \<Rightarrow> ('w, 'n, 'b) opc_pool" where
  "SetTrustStore autoTrust p = p\<lparr>op_trustStore := True, op_autoTrust := autoTrust\<rparr>"

section \<open>Endpoints\<close>

definition bytes_of :: "string \<Rightarrow> bytes" where
  "bytes_of s = map of_char s"

definition endpoint_url :: "connection_config \<Rightarrow> string" where
  "endpoint_url cn = (if OPCEndpointURL cn = [] then ''opc.tcp://'' @ Host cn @ '':'' @ show_int (Port cn) else OPCEndpointURL cn)"

definition overriding :: "string \<Rightarrow> string \<Rightarrow> string" where
  "overriding own dflt = (if own \<noteq> [] then own else dflt)"

definition short_hash :: "pki_env \<Rightarrow> bytes \<Rightarrow> string" where
  "short_hash pki bs = hex_of (take 8 (pe_sha256 pki bs))"

text \<open>The contents of the certificate's file are hashed, or its name when it cannot be read.\<close>

definition endpointKey :: "pki_env \<Rightarrow> opc_pool_config \<Rightarrow> device \<Rightarrow> string" where
  "endpointKey pki cfg d =
     (let cn = Connection d;
          authHash = (if OPCUsername cn \<noteq> [] then short_hash pki (bytes_of (OPCUsername cn @ '':'' @ OPCPassword cn)) else []);
          certHash = (if OPCCertFile cn \<noteq> [] then
              (case pe_ReadFile pki (OPCCertFile cn) of
                 Inr contents \<Rightarrow> short_hash pki contents
               | Inl e \<Rightarrow> short_hash pki (bytes_of (OPCCertFile cn)))
            else [])
      in endpoint_url cn @ ''|'' @ overriding (OPCSecurityPolicy cn) (op_SecurityPolicy cfg) @ ''|''
         @ overriding (OPCSecurityMode cn) (op_SecurityMode cfg) @ ''|''
         @ overriding (OPCAuthMode cn) (op_AuthMode cfg) @ ''|'' @ authHash @ ''|'' @ certHash)"

definition opc_client_config :: "opc_pool_config \<Rightarrow> device \<Rightarrow> opc_config" where
  "opc_client_config cfg d = (let cn = Connection d in
     \<lparr>oc_EndpointURL = endpoint_url cn,
      oc_SecurityPolicy = overriding (OPCSecurityPolicy cn) (op_SecurityPolicy cfg),
      oc_SecurityMode = overriding (OPCSecurityMode cn) (op_SecurityMode cfg),
      oc_AuthMode = overriding (OPCAuthMode cn) (op_AuthMode cfg),
      oc_Username = OPCUsername cn, oc_Password = OPCPassword cn,
      oc_CertificateFile = OPCCertFile cn, oc_PrivateKeyFile = OPCKeyFile cn,
      oc_ServerCertificateFile = OPCServerCertFile cn,
      oc_InsecureSkipVerify = OPCInsecureSkipVerify cn, oc_AutoSelectEndpoint = OPCAutoSelectEndpoint cn,
      oc_ApplicationName = OPCApplicationName cn, oc_ApplicationURI = OPCApplicationURI cn,
      oc_Timeout = op_ConnectionTimeout cfg, oc_KeepAlive = 30 * second,
      oc_MaxRetries = op_RetryAttempts cfg, oc_RetryDelay = op_RetryDelay cfg,
      oc_RequestTimeout = default_if (Timeout cn) (5 * second), oc_SessionTimeout = 0,
      oc_PublishingInterval = 0, oc_SamplingInterval = 0, oc_QueueSize = 0\<rparr>)"

definition newClientForEndpoint :: "time \<Rightarrow> ('w, 'n, 'b) opc_pool \<Rightarrow> device \<Rightarrow> 'n opc_client res" where
  "newClientForEndpoint now p d =
     bind_outcome (opc_NewClient now (dev_ID d) (opc_client_config (op_config p) d))
       (\<lambda>c. Ok (if op_trustStore p then c\<lparr>ul_trustStore := True, ul_autoTrust := op_autoTrust p\<rparr> else c))"

section \<open>Breakers\<close>

definition endpoint_settings :: "string \<Rightarrow> breaker_settings" where
  "endpoint_settings k = \<lparr>bs_Name = ''opcua-endpoint-'' @ take 32 k, bs_MaxRequests = 3, bs_Interval = 60 * second,
     bs_Timeout = 60 * second, bs_FailureThreshold = 5, bs_FailureRatio = 0x3FE3333333333333\<rparr>"

text \<open>The device's breaker counts failures in a row and has no ratio.\<close>

definition device_settings :: "device \<Rightarrow> breaker_settings" where
  "device_settings d = breaker_overrides (CircuitBreaker (Connection d))
     \<lparr>bs_Name = ''opcua-device-'' @ dev_ID d, bs_MaxRequests = 1, bs_Interval = 30 * second,
      bs_Timeout = 15 * second, bs_FailureThreshold = 5, bs_FailureRatio = f64_zero\<rparr>"

definition device_ready_to_trip :: "breaker_settings \<Rightarrow> u32 \<Rightarrow> bool" where
  "device_ready_to_trip s consecutive \<longleftrightarrow> bs_FailureThreshold s \<le> consecutive"

section \<open>Reconnecting\<close>

definition opc_canAttemptReconnect :: "('w, 'n, 'b) opc_session \<Rightarrow> time \<Rightarrow> bool" where
  "opc_canAttemptReconnect s now = (case os_nextReconnectAt s of None \<Rightarrow> True | Some t \<Rightarrow> \<not> now < t)"

definition reconnect_base :: "err \<Rightarrow> duration \<Rightarrow> duration" where
  "reconnect_base e baseDelay =
     (let base = (if baseDelay < 1 * second then 1 * second else baseDelay)
      in if isTooManySessionsError e then 60 * second
         else if opc_contains (err_text e) ''EOF'' then 30 * second
         else if base < 5 * second then 5 * second else base)"

definition opc_recordConnectResult ::
  "time \<Rightarrow> err option \<Rightarrow> duration \<Rightarrow> ('w, 'n, 'b) opc_session \<Rightarrow> ('w, 'n, 'b) opc_session" where
  "opc_recordConnectResult now e baseDelay s = (case e of
       None \<Rightarrow> s\<lparr>os_lastError := None, os_connectFailures := 0, os_nextReconnectAt := None\<rparr>
     | Some x \<Rightarrow>
         (let n = os_connectFailures s + 1;
              delay = wrap64 (reconnect_base x baseDelay * 2 ^ min (n - 1) 6);
              delay = (if 300 * second < delay then 300 * second else delay)
          in s\<lparr>os_lastError := Some x, os_connectFailures := n, os_nextReconnectAt := Some (now + delay)\<rparr>))"

text \<open>A connection attempt and the record of its result.\<close>

definition connect_session ::
  "('w, 'n, 'b) opc_pool_env \<Rightarrow> string \<Rightarrow> duration \<Rightarrow> ('w, 'n, 'b) opc_session \<Rightarrow> 'w
     \<Rightarrow> unit res \<times> ('w, 'n, 'b) opc_session \<times> 'w" where
  "connect_session env k baseDelay s w =
     (let now = oe_now env w in
      case opc_Connect (oe_ops env k) (os_client s, w) of (r, (c, w1)) \<Rightarrow>
        (r, (case r of Ok _ \<Rightarrow> opc_recordConnectResult now None baseDelay (s\<lparr>os_client := c\<rparr>)
             | Err e \<Rightarrow> opc_recordConnectResult now (Some e) baseDelay (s\<lparr>os_client := c\<rparr>)
             | Panic \<Rightarrow> s\<lparr>os_client := c\<rparr>), w1))"

section \<open>Getting a client\<close>

definition ClearBrowseCacheForEndpoint :: "string \<Rightarrow> ('w, 'n, 'b) opc_pool \<Rightarrow> ('w, 'n, 'b) opc_pool" where
  "ClearBrowseCacheForEndpoint k p =
     p\<lparr>op_browseCache := (\<lambda>key. if has_prefix key (k @ ''|'') then None else op_browseCache p key)\<rparr>"

definition ClearBrowseCache :: "('w, 'n, 'b) opc_pool \<Rightarrow> ('w, 'n, 'b) opc_pool" where
  "ClearBrowseCache p = p\<lparr>op_browseCache := Map.empty\<rparr>"

text \<open>A device whose endpoint has changed leaves the session of the old one.\<close>

definition leave_old_endpoint :: "string \<Rightarrow> string \<Rightarrow> ('w, 'n, 'b) opc_pool \<Rightarrow> ('w, 'n, 'b) opc_pool" where
  "leave_old_endpoint deviceID k p = (case op_devices p deviceID of
       None \<Rightarrow> p
     | Some b \<Rightarrow>
         if bn_EndpointKey b = k then p
         else (case op_sessions p (bn_EndpointKey b) of
             None \<Rightarrow> p
           | Some s \<Rightarrow> put_session (bn_EndpointKey b) (s\<lparr>os_devices := os_devices s - {deviceID}\<rparr>) p)
           \<lparr>op_devices := (op_devices p)(deviceID := None)\<rparr>)"

definition new_binding :: "('w, 'n, 'b) opc_pool_env \<Rightarrow> device \<Rightarrow> string \<Rightarrow> 'b device_binding" where
  "new_binding env d k = \<lparr>bn_Device = d, bn_EndpointKey = k, bn_breaker = bl_new (oe_breaker env) (device_settings d)\<rparr>"

definition backoff_error :: "err option \<Rightarrow> err" where
  "backoff_error e = (case e of
       Some x \<Rightarrow> Wrap ErrConnectionFailed ('': reconnect backoff active: '' @ err_text x)
     | None \<Rightarrow> Wrap ErrConnectionFailed '': reconnect backoff active'')"

definition bind_device ::
  "('w, 'n, 'b) opc_pool_env \<Rightarrow> device \<Rightarrow> string \<Rightarrow> ('w, 'n, 'b) opc_session \<Rightarrow> ('w, 'n, 'b) opc_pool \<Rightarrow> ('w, 'n, 'b) opc_pool" where
  "bind_device env d k s p =
     (if dev_ID d \<in> os_devices s then put_session k s p
      else (put_session k (s\<lparr>os_devices := insert (dev_ID d) (os_devices s)\<rparr>) p)
             \<lparr>op_devices := (op_devices p)(dev_ID d \<mapsto> new_binding env d k)\<rparr>)"

definition getClientFromExistingSession ::
  "('w, 'n, 'b) opc_pool_env \<Rightarrow> device \<Rightarrow> string \<Rightarrow> ('w, 'n, 'b) opc_session \<Rightarrow> ('w, 'n, 'b) op_state
     \<Rightarrow> unit res \<times> ('w, 'n, 'b) op_state" where
  "getClientFromExistingSession env d k s st = (case st of (p, w) \<Rightarrow>
     (let p1 = bind_device env d k s p; s1 = the (op_sessions p1 k) in
      if ul_connected (os_client s1) then (Ok (), (p1, w))
      else if \<not> opc_canAttemptReconnect s1 (oe_now env w) then (Err (backoff_error (os_lastError s1)), (p1, w))
      else case connect_session env k (op_RetryDelay (op_config p)) s1 w of
        (r, s2, w1) \<Rightarrow>
          (r, ((case r of Ok _ \<Rightarrow> ClearBrowseCacheForEndpoint k | _ \<Rightarrow> id) (put_session k s2 p1), w1))))"

definition createNewSession ::
  "('w, 'n, 'b) opc_pool_env \<Rightarrow> device \<Rightarrow> string \<Rightarrow> ('w, 'n, 'b) op_state \<Rightarrow> unit res \<times> ('w, 'n, 'b) op_state" where
  "createNewSession env d k st = (case st of (p, w) \<Rightarrow>
     case newClientForEndpoint (oe_now env w) p d of
       Err e \<Rightarrow> (Err e, st)
     | Panic \<Rightarrow> (Panic, st)
     | Ok c \<Rightarrow>
         (let s = \<lparr>os_client = c, os_endpointURL = oc_EndpointURL (ul_config c),
                   os_breaker = bl_new (oe_breaker env) (endpoint_settings k), os_devices = {dev_ID d},
                   os_createdAt = oe_now env w, os_lastError = None, os_connectFailures = 0,
                   os_nextReconnectAt = None, os_subscriptionMgr = None, os_lastPublishTime = 0,
                   os_hasActiveSubscriptions = False\<rparr>;
              p1 = p\<lparr>op_devices := (op_devices p)(dev_ID d \<mapsto> new_binding env d k)\<rparr>
          in case connect_session env k (op_RetryDelay (op_config p)) s w of
               (r, s1, w1) \<Rightarrow> (r, (put_session k s1 p1, w1))))"

definition opc_GetClient ::
  "('w, 'n, 'b) opc_pool_env \<Rightarrow> device \<Rightarrow> ('w, 'n, 'b) op_state \<Rightarrow> unit res \<times> ('w, 'n, 'b) op_state" where
  "opc_GetClient env d st = (case st of (p, w) \<Rightarrow>
     if op_closed p then (Err ErrServiceStopped, st)
     else let k = endpointKey (oe_pki env w) (op_config p) d; p1 = leave_old_endpoint (dev_ID d) k p in
       case op_sessions p1 k of
         Some s \<Rightarrow> getClientFromExistingSession env d k s (p1, w)
       | None \<Rightarrow>
           if op_MaxConnections (op_config p1) \<le> int (card (dom (op_sessions p1))) then (Err ErrPoolExhausted, (p1, w))
           else createNewSession env d k (p1, w))"

section \<open>Entering the load control\<close>

definition load_limits :: "('w, 'n, 'b) opc_pool_env \<Rightarrow> opc_pool_config \<Rightarrow> load_config" where
  "load_limits env cfg = \<lparr>lc_arch = oe_arch env, lc_maxGlobalInFlight = op_MaxGlobalInFlight cfg,
     lc_brownoutThreshold = op_BrownoutThreshold cfg, lc_MaxInFlightPerEndpoint = op_MaxInFlightPerEndpoint cfg,
     lc_PriorityQueueSize = nat (op_PriorityQueueSize cfg)\<rparr>"

text \<open>The moves of one call, until it has been decided.\<close>

fun run_call :: "nat \<Rightarrow> load_config \<Rightarrow> caller \<Rightarrow> load_state \<Rightarrow> caller \<times> load_state" where
  "run_call 0 cfg c s = (c, s)"
| "run_call (Suc n) cfg c s = (case c of Returned e \<Rightarrow> (c, s)
     | _ \<Rightarrow> (case caller_move cfg c s of None \<Rightarrow> (c, s) | Some (c1, s1) \<Rightarrow> run_call n cfg c1 s1))"

definition breaker_seen :: "('w, 'n, 'b) opc_pool_env \<Rightarrow> string \<Rightarrow> 'b \<Rightarrow> 'w \<Rightarrow> load_state" where
  "breaker_seen env k b w = (oe_load env w)\<lparr>ls_breakerOpen :=
     (ls_breakerOpen (oe_load env w))(k := (bl_state (oe_breaker env) (oe_now env w) b = StateOpen))\<rparr>"

text \<open>\<open>Ok None\<close>: the operation runs now, in this goroutine or in the worker that took it.\<close>

definition enter_load ::
  "('w, 'n, 'b) opc_pool_env \<Rightarrow> load_config \<Rightarrow> nat \<Rightarrow> string \<Rightarrow> 'b \<Rightarrow> 'w \<Rightarrow> err option res \<times> 'w" where
  "enter_load env cfg prio k b w =
     (let s = breaker_seen env k b w; r = ls_next s in
      case run_call 7 cfg (AtContext r prio (Some k)) (s\<lparr>ls_next := Suc r\<rparr>) of
        (Running x, s1) \<Rightarrow> (Ok None, oe_put_load env s1 w)
      | (Returned e, s1) \<Rightarrow> (Ok e, oe_put_load env s1 w)
      | (CallPanic x, s1) \<Rightarrow> (Panic, oe_put_load env s1 w)
      | (Waiting q, s1) \<Rightarrow> (case oe_queued env q (oe_put_load env s1 w) of
            (Some e, w1) \<Rightarrow> (Ok (Some e), w1)
          | (None, w1) \<Rightarrow>
              (case Opcua_Load.examine \<lparr>rq_id = q, rq_priority = prio, rq_session = Some k\<rparr> (breaker_seen env k b w1) of
                 (Executing rq, s2) \<Rightarrow> (Ok None, oe_put_load env s2 w1)
               | (_, s2) \<Rightarrow> (Ok (case ls_result s2 q of Some e \<Rightarrow> e | None \<Rightarrow> None), oe_put_load env s2 w1)))
      | (_, s1) \<Rightarrow> (Panic, w))"

definition leave_load :: "('w, 'n, 'b) opc_pool_env \<Rightarrow> string \<Rightarrow> 'w \<Rightarrow> 'w" where
  "leave_load env k w = oe_put_load env (add_flight (Some k) (- 1) (oe_load env w)) w"

section \<open>Two breakers\<close>

text \<open>The device's breaker runs inside the endpoint's; both see every error, also a refusal of the inner one.\<close>

definition two_tier_error :: "('w, 'n, 'b) opc_pool_env \<Rightarrow> string \<Rightarrow> time \<Rightarrow> 'b \<Rightarrow> 'b \<Rightarrow> err \<Rightarrow> err" where
  "two_tier_error env deviceID now eb db e =
     (if e = BreakerOpenState then
        (if bl_state (oe_breaker env) now eb = StateOpen then Wrap ErrCircuitBreakerOpen '': endpoint breaker open''
         else if bl_state (oe_breaker env) now db = StateOpen
         then Wrap ErrCircuitBreakerOpen ('': device breaker open for '' @ deviceID)
         else ErrCircuitBreakerOpen)
      else e)"

definition executeWithTwoTierBreaker ::
  "('w, 'n, 'b) opc_pool_env \<Rightarrow> string \<Rightarrow> 'b \<Rightarrow> 'b \<Rightarrow> (('w, 'n) opc_state \<Rightarrow> ('a \<times> err option) res \<times> ('w, 'n) opc_state)
     \<Rightarrow> ('w, 'n) opc_state \<Rightarrow> 'a res \<times> 'b \<times> 'b \<times> ('w, 'n) opc_state" where
  "executeWithTwoTierBreaker env deviceID eb db fn cw =
     (case Execute (oe_breaker env) (\<lambda>(d, s). oe_now env (snd s))
            (\<lambda>(d, s). case Execute (oe_breaker env) (\<lambda>s. oe_now env (snd s)) fn d s of (r, d1, s1) \<Rightarrow> (r, (d1, s1)))
            eb (db, cw) of
        (r, eb1, (db1, cw1)) \<Rightarrow>
          ((case r of
              Ok (x, Some e) \<Rightarrow> Err (two_tier_error env deviceID (oe_now env (snd cw1)) eb1 db1 e)
            | Ok (Some (Some x), None) \<Rightarrow> Ok x
            | _ \<Rightarrow> Panic), eb1, db1, cw1))"

section \<open>Requests\<close>

text \<open>What every request does around its operation on the session's client.\<close>

definition opc_request ::
  "('w, 'n, 'b) opc_pool_env \<Rightarrow> nat \<Rightarrow> device
     \<Rightarrow> (('w, 'n) opc_ops \<Rightarrow> ('w, 'n) opc_state \<Rightarrow> ('a \<times> err option) res \<times> ('w, 'n) opc_state)
     \<Rightarrow> ('w, 'n, 'b) op_state \<Rightarrow> 'a res \<times> ('w, 'n, 'b) op_state" where
  "opc_request env prio d fn st = (case opc_GetClient env d st of
       (Panic, st1) \<Rightarrow> (Panic, st1)
     | (Err e, st1) \<Rightarrow> (Err e, st1)
     | (Ok _, (p, w)) \<Rightarrow>
         (case op_devices p (dev_ID d) of
            None \<Rightarrow> (Err ErrDeviceNotFound, (p, w))
          | Some bn \<Rightarrow> (case op_sessions p (bn_EndpointKey bn) of
              None \<Rightarrow> (Err ErrDeviceNotFound, (p, w))
            | Some s \<Rightarrow>
                (let k = bn_EndpointKey bn in
                 case enter_load env (load_limits env (op_config p)) prio k (os_breaker s) w of
                   (Ok None, w1) \<Rightarrow>
                     (case executeWithTwoTierBreaker env (dev_ID d) (os_breaker s) (bn_breaker bn) (fn (oe_ops env k))
                             (os_client s, w1) of
                        (r, eb, db, (c, w2)) \<Rightarrow>
                          (r, ((put_session k (s\<lparr>os_client := c, os_breaker := eb\<rparr>) p)
                                 \<lparr>op_devices := (op_devices p)(dev_ID d \<mapsto> bn\<lparr>bn_breaker := db\<rparr>)\<rparr>, leave_load env k w2)))
                 | (Ok (Some e), w1) \<Rightarrow> (Err e, (p, w1))
                 | (Err e, w1) \<Rightarrow> (Err e, (p, w1))
                 | (Panic, w1) \<Rightarrow> (Panic, (p, w1))))))"

text \<open>Batches of at most \<open>m\<close> tags; with no positive \<open>m\<close> the slice expression panics.\<close>

function read_batches ::
  "('w, 'n) opc_ops \<Rightarrow> nat \<Rightarrow> tag list \<Rightarrow> ('w, 'n) opc_state \<Rightarrow> data_point list res \<times> ('w, 'n) opc_state" where
  "read_batches ops m ts st =
     (if ts = [] then (Ok [], st)
      else if m = 0 then (Panic, st)
      else case opc_ReadTags ops (take m ts) st of
        (Ok xs, st1) \<Rightarrow> (case read_batches ops m (drop m ts) st1 of
            (Ok ys, st2) \<Rightarrow> (Ok (xs @ ys), st2)
          | (Err e, st2) \<Rightarrow> (Err e, st2)
          | (Panic, st2) \<Rightarrow> (Panic, st2))
      | (Err e, st1) \<Rightarrow> (Err e, st1)
      | (Panic, st1) \<Rightarrow> (Panic, st1))"
  by pat_completeness auto
termination by (relation "measure (\<lambda>(ops, m, ts, st). length ts)") auto

declare read_batches.simps [simp del]

definition read_within_limit ::
  "('w, 'n) opc_ops \<Rightarrow> int \<Rightarrow> tag list \<Rightarrow> ('w, 'n) opc_state \<Rightarrow> data_point list res \<times> ('w, 'n) opc_state" where
  "read_within_limit ops m ts st =
     (if int (length ts) \<le> m then opc_ReadTags ops ts st else read_batches ops (nat m) ts st)"

definition top_priority :: "tag list \<Rightarrow> nat" where
  "top_priority ts = fold (\<lambda>t p. max p (unat (tag_Priority t))) ts PriorityTelemetry"

definition op_ReadTags ::
  "('w, 'n, 'b) opc_pool_env \<Rightarrow> device \<Rightarrow> tag list \<Rightarrow> ('w, 'n, 'b) op_state \<Rightarrow> data_point list res \<times> ('w, 'n, 'b) op_state" where
  "op_ReadTags env d ts st = opc_request env (top_priority ts) d
     (\<lambda>ops s. either_result [] (read_within_limit ops (op_MaxNodesPerRead (op_config (fst st))) ts s)) st"

text \<open>The error's data point of the client is dropped.\<close>

definition op_ReadTag ::
  "('w, 'n, 'b) opc_pool_env \<Rightarrow> device \<Rightarrow> tag \<Rightarrow> ('w, 'n, 'b) op_state \<Rightarrow> data_point option res \<times> ('w, 'n, 'b) op_state" where
  "op_ReadTag env d t st = opc_request env (unat (tag_Priority t)) d (\<lambda>ops. opc_ReadTag ops t) st"

definition op_WriteTag ::
  "('w, 'n, 'b) opc_pool_env \<Rightarrow> device \<Rightarrow> tag \<Rightarrow> goval \<Rightarrow> ('w, 'n, 'b) op_state \<Rightarrow> unit res \<times> ('w, 'n, 'b) op_state" where
  "op_WriteTag env d t v st = opc_request env (max PriorityControl (unat (tag_Priority t))) d
     (\<lambda>ops s. either_result () (opc_WriteTag ops t v s)) st"

text \<open>The breakers are told of a success whatever the writes return; an error of the way there answers every write.\<close>

definition op_WriteTags ::
  "('w, 'n, 'b) opc_pool_env \<Rightarrow> device \<Rightarrow> (tag \<times> goval) list \<Rightarrow> ('w, 'n, 'b) op_state
     \<Rightarrow> err option list res \<times> ('w, 'n, 'b) op_state" where
  "op_WriteTags env d writes st =
     (case opc_request env PriorityControl d (\<lambda>ops s. either_result [] (opc_WriteTags ops writes s)) st of
        (Err e, st1) \<Rightarrow> (Ok (replicate (length writes) (Some e)), st1)
      | x \<Rightarrow> x)"

section \<open>Browsing\<close>

definition browse_key :: "string \<Rightarrow> string \<Rightarrow> int \<Rightarrow> string" where
  "browse_key k nodeID maxDepth = k @ ''|'' @ nodeID @ ''|'' @ show_int maxDepth"

text \<open>Through the endpoint's breaker only; \<open>None\<close> is a browse that does not return.\<close>

definition browse_uncached ::
  "('w, 'n, 'b) opc_pool_env \<Rightarrow> string \<Rightarrow> string \<Rightarrow> string \<Rightarrow> int \<Rightarrow> ('w, 'n, 'b) opc_session \<Rightarrow> ('w, 'n, 'b) op_state
     \<Rightarrow> (browse_result res \<times> ('w, 'n, 'b) op_state) option" where
  "browse_uncached env k key nodeID maxDepth s st = (case st of (p, w) \<Rightarrow>
     case bl_before (oe_breaker env) (oe_now env w) (os_breaker s) of
       (Some e, b) \<Rightarrow> Some (Err (if e = BreakerOpenState then Wrap ErrCircuitBreakerOpen '': endpoint breaker open'' else e),
           (put_session k (s\<lparr>os_breaker := b\<rparr>) p, w))
     | (None, b) \<Rightarrow> (case opc_Browse (oe_browse env k) nodeID maxDepth (os_client s, w) of
           None \<Rightarrow> None
         | Some (r, (c, w1)) \<Rightarrow>
             (let now = oe_now env w1;
                  s1 = s\<lparr>os_client := c, os_breaker := bl_after (oe_breaker env) now (\<exists>x. r = Ok x) b\<rparr>;
                  p1 = put_session k s1 p
              in Some (case r of
                   Ok x \<Rightarrow> (Ok x, (p1\<lparr>op_browseCache := (op_browseCache p)(key \<mapsto> (x, now + 60 * second))\<rparr>, w1))
                 | Err e \<Rightarrow> (Err (if e = BreakerOpenState then Wrap ErrCircuitBreakerOpen '': endpoint breaker open'' else e), (p1, w1))
                 | Panic \<Rightarrow> (Panic, (p1, w1))))))"

definition BrowseNodes ::
  "('w, 'n, 'b) opc_pool_env \<Rightarrow> string \<Rightarrow> string \<Rightarrow> int \<Rightarrow> ('w, 'n, 'b) op_state
     \<Rightarrow> (browse_result res \<times> ('w, 'n, 'b) op_state) option" where
  "BrowseNodes env deviceID nodeID maxDepth st = (case st of (p, w) \<Rightarrow>
     case op_devices p deviceID of
       None \<Rightarrow> Some (Err ErrDeviceNotFound, st)
     | Some bn \<Rightarrow> (case op_sessions p (bn_EndpointKey bn) of
         None \<Rightarrow> Some (Err ErrDeviceNotFound, st)
       | Some s \<Rightarrow>
           (let k = bn_EndpointKey bn; key = browse_key k nodeID maxDepth in
            case op_browseCache p key of
              Some (r, expires) \<Rightarrow>
                if oe_now env w < expires then Some (Ok r, st)
                else browse_uncached env k key nodeID maxDepth s (p\<lparr>op_browseCache := (op_browseCache p)(key := None)\<rparr>, w)
            | None \<Rightarrow> browse_uncached env k key nodeID maxDepth s (p, w))))"

section \<open>Subscriptions\<close>

definition device_sub_config :: "device \<Rightarrow> sub_config" where
  "device_sub_config d = (let cn = Connection d in DefaultSubscriptionConfig\<lparr>
     sg_PublishInterval := (if 0 < OPCPublishInterval cn then OPCPublishInterval cn
                            else sg_PublishInterval DefaultSubscriptionConfig),
     sg_SamplingInterval := (if 0 < OPCSamplingInterval cn then OPCSamplingInterval cn
                             else sg_SamplingInterval DefaultSubscriptionConfig)\<rparr>)"

definition started_manager ::
  "(data_point \<Rightarrow> 'w \<Rightarrow> 'w) option \<Rightarrow> ('w, 'n, 'b) opc_session \<Rightarrow> err + 'w sub_manager" where
  "started_manager onData s = (case os_subscriptionMgr s of
       Some m \<Rightarrow> Inr m
     | None \<Rightarrow> (case sm_Start (ul_connected (os_client s)) (NewSubscriptionManager onData) of
           (Some e, m) \<Rightarrow> Inl (WrapPre ''failed to start subscription manager: '' e)
         | (None, m) \<Rightarrow> Inr m))"

text \<open>The callback of the first device stays the callback of all devices of the session.\<close>

definition SubscribeDevice ::
  "('w, 'n, 'b) opc_pool_env \<Rightarrow> device \<Rightarrow> tag list \<Rightarrow> (data_point \<Rightarrow> 'w \<Rightarrow> 'w) option \<Rightarrow> ('w, 'n, 'b) op_state
     \<Rightarrow> unit res \<times> ('w, 'n, 'b) op_state" where
  "SubscribeDevice env d ts onData st = (case opc_GetClient env d st of
       (Panic, st1) \<Rightarrow> (Panic, st1)
     | (Err e, st1) \<Rightarrow> (Err (WrapPre ''failed to get client for subscription: '' e), st1)
     | (Ok _, (p, w)) \<Rightarrow>
         (case op_devices p (dev_ID d) of
            None \<Rightarrow> (Err ErrDeviceNotFound, (p, w))
          | Some bn \<Rightarrow> (case op_sessions p (bn_EndpointKey bn) of
              None \<Rightarrow> (Err ErrDeviceNotFound, (p, w))
            | Some s \<Rightarrow>
                (let k = bn_EndpointKey bn in
                 case started_manager onData s of
                   Inl e \<Rightarrow> (Err e, (p, w))
                 | Inr m \<Rightarrow>
                     (case sm_Subscribe (oe_ops env k) (oe_subs env k) d ts (device_sub_config d) (m, (os_client s, w)) of
                        (Some e, (m1, (c, w1))) \<Rightarrow>
                          (Err e, (put_session k (s\<lparr>os_client := c, os_subscriptionMgr := Some m1\<rparr>) p, w1))
                      | (None, (m1, (c, w1))) \<Rightarrow>
                          (Ok (), (put_session k (s\<lparr>os_client := c, os_subscriptionMgr := Some m1,
                             os_hasActiveSubscriptions := True, os_lastPublishTime := oe_now env w1\<rparr>) p, w1)))))))"

definition UnsubscribeDevice ::
  "('w, 'n, 'b) opc_pool_env \<Rightarrow> string \<Rightarrow> ('w, 'n, 'b) op_state \<Rightarrow> err option \<times> ('w, 'n, 'b) op_state" where
  "UnsubscribeDevice env deviceID st = (case st of (p, w) \<Rightarrow>
     case op_devices p deviceID of
       None \<Rightarrow> (Some ErrDeviceNotFound, st)
     | Some bn \<Rightarrow> (case op_sessions p (bn_EndpointKey bn) of
         None \<Rightarrow> (Some ErrDeviceNotFound, st)
       | Some s \<Rightarrow> (case os_subscriptionMgr s of
           None \<Rightarrow> (None, st)
         | Some m \<Rightarrow>
             (let k = bn_EndpointKey bn in
              case sm_Unsubscribe (oe_subs env k) deviceID (m, (os_client s, w)) of
                (Some e, (m1, (c, w1))) \<Rightarrow> (Some e, (put_session k (s\<lparr>os_client := c, os_subscriptionMgr := Some m1\<rparr>) p, w1))
              | (None, (m1, (c, w1))) \<Rightarrow>
                  (None, (put_session k (s\<lparr>os_client := c, os_subscriptionMgr := Some m1,
                     os_hasActiveSubscriptions := 0 < st_ActiveSubscriptions (sm_Stats m1)\<rparr>) p, w1))))))"

text \<open>A turn of the handler of a device's notifications, and the library's delivery of one.\<close>

definition with_manager ::
  "('w sub_manager \<times> ('w, 'n) opc_state \<Rightarrow> 'w sub_manager \<times> ('w, 'n) opc_state) \<Rightarrow> string
     \<Rightarrow> ('w, 'n, 'b) op_state \<Rightarrow> ('w, 'n, 'b) op_state" where
  "with_manager f k st = (case st of (p, w) \<Rightarrow>
     case op_sessions p k of
       None \<Rightarrow> st
     | Some s \<Rightarrow> (case os_subscriptionMgr s of
         None \<Rightarrow> st
       | Some m \<Rightarrow> (case f (m, (os_client s, w)) of
           (m1, (c, w1)) \<Rightarrow> (put_session k (s\<lparr>os_client := c, os_subscriptionMgr := Some m1\<rparr>) p, w1))))"

section \<open>Removing and closing\<close>

text \<open>The session's subscription manager is not stopped here.\<close>

definition op_RemoveClient :: "('w, 'n, 'b) opc_pool_env \<Rightarrow> string \<Rightarrow> ('w, 'n, 'b) op_state \<Rightarrow> err option \<times> ('w, 'n, 'b) op_state" where
  "op_RemoveClient env deviceID st = (case st of (p, w) \<Rightarrow>
     case op_devices p deviceID of
       None \<Rightarrow> (Some ErrDeviceNotFound, st)
     | Some bn \<Rightarrow>
         (let k = bn_EndpointKey bn; p1 = p\<lparr>op_devices := (op_devices p)(deviceID := None)\<rparr> in
          case op_sessions p k of
            None \<Rightarrow> (None, (p1, w))
          | Some s \<Rightarrow>
              (let left = os_devices s - {deviceID} in
               if left = {} then
                 (case opc_Disconnect (oe_ops env k) (os_client s, w) of
                    (c, w1) \<Rightarrow> (None, (p1\<lparr>op_sessions := (op_sessions p)(k := None)\<rparr>, w1)))
               else (None, (put_session k (s\<lparr>os_devices := left\<rparr>) p1, w)))))"

definition stop_manager :: "('w, 'n) sub_lib \<Rightarrow> string list \<Rightarrow> ('w, 'n, 'b) opc_session \<times> 'w \<Rightarrow> ('w, 'n, 'b) opc_session \<times> 'w" where
  "stop_manager lib ks sw = (case sw of (s, w) \<Rightarrow>
     case os_subscriptionMgr s of
       None \<Rightarrow> (s, w)
     | Some m \<Rightarrow> (case sm_Stop lib ks (m, (os_client s, w)) of
         (m1, (c, w1)) \<Rightarrow> (s\<lparr>os_client := c, os_subscriptionMgr := None\<rparr>, w1)))"

text \<open>\<open>ks\<close> is the order of the devices' subscriptions.\<close>

definition close_session :: "('w, 'n, 'b) opc_pool_env \<Rightarrow> string list \<Rightarrow> string \<Rightarrow> ('w, 'n, 'b) opc_session \<Rightarrow> 'w \<Rightarrow> 'w" where
  "close_session env ks k s w = (case stop_manager (oe_subs env k) ks (s, w) of
     (s1, w1) \<Rightarrow> snd (opc_Disconnect (oe_ops env k) (os_client s1, w1)))"

fun close_sessions ::
  "('w, 'n, 'b) opc_pool_env \<Rightarrow> string list \<Rightarrow> (string \<rightharpoonup> ('w, 'n, 'b) opc_session) \<Rightarrow> string list \<Rightarrow> 'w \<Rightarrow> 'w" where
  "close_sessions env ds m [] w = w"
| "close_sessions env ds m (k # ks) w = close_sessions env ds m ks
     (case m k of None \<Rightarrow> w | Some s \<Rightarrow> close_session env ds k s w)"

text \<open>
  Closing tells the workers to stop, waits for them and closes the queues; a second \<open>Close\<close> closes a
  closed channel.  \<open>Disconnect\<close> never returns an error.
\<close>

definition op_Close ::
  "('w, 'n, 'b) opc_pool_env \<Rightarrow> string list \<Rightarrow> string list \<Rightarrow> ('w, 'n, 'b) op_state \<Rightarrow> unit res \<times> ('w, 'n, 'b) op_state" where
  "op_Close env ds ks st = (case st of (p, w) \<Rightarrow>
     if op_closed p then (Panic, st)
     else
       let w1 = oe_put_load env ((oe_load env w)\<lparr>ls_closed := True, ls_queuesClosed := True\<rparr>) w
       in (Ok (), (p\<lparr>op_closed := True, op_sessions := Map.empty, op_devices := Map.empty\<rparr>,
                   close_sessions env ds (op_sessions p) ks w1)))"

section \<open>Health checks and the reaper\<close>

definition checkSessionHealth :: "('w, 'n, 'b) opc_pool_env \<Rightarrow> string \<Rightarrow> ('w, 'n, 'b) op_state \<Rightarrow> ('w, 'n, 'b) op_state" where
  "checkSessionHealth env k st = (case st of (p, w) \<Rightarrow>
     case op_sessions p k of
       None \<Rightarrow> st
     | Some s \<Rightarrow>
         if bl_state (oe_breaker env) (oe_now env w) (os_breaker s) = StateOpen then st
         else if ul_connected (os_client s) then st
         else if \<not> opc_canAttemptReconnect s (oe_now env w) then st
         else case connect_session env k (op_RetryDelay (op_config p)) s w of
           (r, s1, w1) \<Rightarrow> (put_session k s1 p, w1))"

definition op_health_tick :: "('w, 'n, 'b) opc_pool_env \<Rightarrow> string list \<Rightarrow> ('w, 'n, 'b) op_state \<Rightarrow> ('w, 'n, 'b) op_state" where
  "op_health_tick env ks st =
     (if op_closed (fst st) then st
      else case fold (checkSessionHealth env) ks st of (p, w) \<Rightarrow>
        (p, oe_put_load env (checkGlobalHealth (load_limits env (op_config p)) (oe_load env w)) w))"

definition hasRecentActivity :: "time \<Rightarrow> duration \<Rightarrow> ('w, 'n, 'b) opc_session \<Rightarrow> bool" where
  "hasRecentActivity now idleTimeout s \<longleftrightarrow>
     time_sub now (ul_lastUsed (os_client s)) < idleTimeout
     \<or> (os_hasActiveSubscriptions s \<and> time_sub now (os_lastPublishTime s) < idleTimeout)"

definition session_due :: "opc_pool_config \<Rightarrow> time \<Rightarrow> ('w, 'n, 'b) opc_session \<Rightarrow> bool" where
  "session_due cfg now s \<longleftrightarrow> \<not> hasRecentActivity now (op_IdleTimeout cfg) s
     \<or> (0 < op_MaxTTL cfg \<and> op_MaxTTL cfg < time_sub now (os_createdAt s))"

text \<open>Only bindings that still belong to the session go with it.\<close>

definition drop_bindings :: "string \<Rightarrow> string set \<Rightarrow> (string \<rightharpoonup> 'b device_binding) \<Rightarrow> (string \<rightharpoonup> 'b device_binding)" where
  "drop_bindings k D m = (\<lambda>d. if d \<in> D \<and> map_option bn_EndpointKey (m d) = Some k then None else m d)"

definition reap_session :: "('w, 'n, 'b) opc_pool_env \<Rightarrow> string list \<Rightarrow> string \<Rightarrow> ('w, 'n, 'b) op_state \<Rightarrow> ('w, 'n, 'b) op_state" where
  "reap_session env ds k st = (case st of (p, w) \<Rightarrow>
     case op_sessions p k of
       None \<Rightarrow> st
     | Some s \<Rightarrow>
         if session_due (op_config p) (oe_now env w) s then
           (p\<lparr>op_sessions := (op_sessions p)(k := None), op_devices := drop_bindings k (os_devices s) (op_devices p)\<rparr>,
            close_session env ds k s w)
         else st)"

definition reapIdleSessions :: "('w, 'n, 'b) opc_pool_env \<Rightarrow> string list \<Rightarrow> string list \<Rightarrow> ('w, 'n, 'b) op_state \<Rightarrow> ('w, 'n, 'b) op_state" where
  "reapIdleSessions env ds ks st =
     (let due = filter (\<lambda>k. case op_sessions (fst st) k of None \<Rightarrow> False
            | Some s \<Rightarrow> session_due (op_config (fst st)) (oe_now env (snd st)) s) ks
      in fold (reap_session env ds) due st)"

definition op_reaper_tick :: "('w, 'n, 'b) opc_pool_env \<Rightarrow> string list \<Rightarrow> string list \<Rightarrow> ('w, 'n, 'b) op_state \<Rightarrow> ('w, 'n, 'b) op_state" where
  "op_reaper_tick env ds ks st = (if op_closed (fst st) then st else reapIdleSessions env ds ks st)"

section \<open>What the pool tells\<close>

definition op_HealthCheck :: "('w, 'n, 'b) opc_pool \<Rightarrow> err option" where
  "op_HealthCheck p = (if op_closed p then Some ErrServiceStopped else None)"

record opc_pool_stats =
  ot_TotalSessions :: nat
  ot_ActiveSessions :: nat
  ot_TotalDevices :: nat
  ot_MaxSessions :: int
  ot_GlobalInFlight :: int
  ot_MaxGlobalInFlight :: int
  ot_BrownoutMode :: bool

definition op_Stats :: "load_state \<Rightarrow> ('w, 'n, 'b) opc_pool \<Rightarrow> opc_pool_stats" where
  "op_Stats load p = \<lparr>ot_TotalSessions = card (dom (op_sessions p)),
     ot_ActiveSessions = card {k \<in> dom (op_sessions p). ul_connected (os_client (the (op_sessions p k)))},
     ot_TotalDevices = card (dom (op_devices p)), ot_MaxSessions = op_MaxConnections (op_config p),
     ot_GlobalInFlight = ls_global load, ot_MaxGlobalInFlight = op_MaxGlobalInFlight (op_config p),
     ot_BrownoutMode = ls_brownout load\<rparr>"

record opc_device_health =
  oh_DeviceID :: string
  oh_EndpointKey :: string
  oh_Connected :: bool
  oh_EndpointBreakerOpen :: bool
  oh_DeviceBreakerOpen :: bool
  oh_CircuitBreakerOpen :: bool
  oh_LastError :: "err option"
  oh_SessionState :: session_state
  oh_DevicesOnSession :: nat

definition op_GetDeviceHealth :: "'b breaker_lib \<Rightarrow> time \<Rightarrow> ('w, 'n, 'b) opc_pool \<Rightarrow> string \<Rightarrow> opc_device_health option" where
  "op_GetDeviceHealth lib now p deviceID = (case op_devices p deviceID of
       None \<Rightarrow> None
     | Some bn \<Rightarrow> (case op_sessions p (bn_EndpointKey bn) of
         None \<Rightarrow> None
       | Some s \<Rightarrow>
           (let eo = bl_state lib now (os_breaker s) = StateOpen; dv = bl_state lib now (bn_breaker bn) = StateOpen in
            Some \<lparr>oh_DeviceID = deviceID, oh_EndpointKey = take 50 (bn_EndpointKey bn),
              oh_Connected = ul_connected (os_client s), oh_EndpointBreakerOpen = eo, oh_DeviceBreakerOpen = dv,
              oh_CircuitBreakerOpen = (eo \<or> dv), oh_LastError = os_lastError s,
              oh_SessionState = ul_sessionState (os_client s), oh_DevicesOnSession = card (os_devices s)\<rparr>)))"

record opc_session_health =
  oj_EndpointKey :: string
  oj_EndpointURL :: string
  oj_Connected :: bool
  oj_CircuitBreakerOpen :: bool
  oj_LastError :: "err option"
  oj_SessionState :: session_state
  oj_DeviceIDs :: "string set"

definition op_GetSessionHealth :: "'b breaker_lib \<Rightarrow> time \<Rightarrow> ('w, 'n, 'b) opc_pool \<Rightarrow> string \<Rightarrow> opc_session_health option" where
  "op_GetSessionHealth lib now p k = (case op_sessions p k of
       None \<Rightarrow> None
     | Some s \<Rightarrow> Some \<lparr>oj_EndpointKey = k, oj_EndpointURL = os_endpointURL s,
         oj_Connected = ul_connected (os_client s),
         oj_CircuitBreakerOpen = (bl_state lib now (os_breaker s) = StateOpen), oj_LastError = os_lastError s,
         oj_SessionState = ul_sessionState (os_client s), oj_DeviceIDs = os_devices s\<rparr>)"

definition op_GetAllSessionsHealth :: "'b breaker_lib \<Rightarrow> time \<Rightarrow> ('w, 'n, 'b) opc_pool \<Rightarrow> string \<rightharpoonup> opc_session_health" where
  "op_GetAllSessionsHealth lib now p = op_GetSessionHealth lib now p"

section \<open>Runs\<close>

datatype 'w op_op =
    OpReadTags device "tag list"
  | OpReadTag device tag
  | OpWriteTag device tag goval
  | OpWriteTags device "(tag \<times> goval) list"
  | OpBrowse string string int
  | OpSubscribe device "tag list" "(data_point \<Rightarrow> 'w \<Rightarrow> 'w) option"
  | OpUnsubscribe string
  | OpDeliver string string notification
  | OpHandle string string
  | OpClearBrowse
  | OpRemove string
  | OpHealthTick "string list"
  | OpReaperTick "string list" "string list"
  | OpClose "string list" "string list"

text \<open>A browse that does not return changes nothing that another operation could see.\<close>

fun op_step :: "('w, 'n, 'b) opc_pool_env \<Rightarrow> 'w op_op \<Rightarrow> ('w, 'n, 'b) op_state \<Rightarrow> ('w, 'n, 'b) op_state" where
  "op_step env (OpReadTags d ts) st = snd (op_ReadTags env d ts st)"
| "op_step env (OpReadTag d t) st = snd (op_ReadTag env d t st)"
| "op_step env (OpWriteTag d t v) st = snd (op_WriteTag env d t v st)"
| "op_step env (OpWriteTags d ws) st = snd (op_WriteTags env d ws st)"
| "op_step env (OpBrowse i n depth) st = (case BrowseNodes env i n depth st of None \<Rightarrow> st | Some (r, st1) \<Rightarrow> st1)"
| "op_step env (OpSubscribe d ts f) st = snd (SubscribeDevice env d ts f st)"
| "op_step env (OpUnsubscribe i) st = snd (UnsubscribeDevice env i st)"
| "op_step env (OpDeliver k i n) st = with_manager (deliver i n) k st"
| "op_step env (OpHandle k i) st = with_manager (handle_one (oe_ops env k) i) k st"
| "op_step env OpClearBrowse st = (ClearBrowseCache (fst st), snd st)"
| "op_step env (OpRemove i) st = snd (op_RemoveClient env i st)"
| "op_step env (OpHealthTick ks) st = op_health_tick env ks st"
| "op_step env (OpReaperTick ds ks) st = op_reaper_tick env ds ks st"
| "op_step env (OpClose ds ks) st = snd (op_Close env ds ks st)"

section \<open>Bindings and sessions\<close>

text \<open>Which endpoint a device is bound to, and which devices a session has.\<close>

definition bound :: "('w, 'n, 'b) opc_pool \<Rightarrow> string \<rightharpoonup> string" where
  "bound p d = map_option bn_EndpointKey (op_devices p d)"

definition members :: "('w, 'n, 'b) opc_pool \<Rightarrow> string \<rightharpoonup> string set" where
  "members p k = map_option os_devices (op_sessions p k)"

definition bindings_agree :: "('w, 'n, 'b) opc_pool \<Rightarrow> bool" where
  "bindings_agree p \<longleftrightarrow> (\<forall>d k. bound p d = Some k \<longleftrightarrow> (\<exists>D. members p k = Some D \<and> d \<in> D))"

definition op_keys :: "('w, 'n, 'b) op_state \<Rightarrow> string set" where
  "op_keys st = dom (op_sessions (fst st))"

definition op_limit :: "('w, 'n, 'b) op_state \<Rightarrow> int" where
  "op_limit st = op_MaxConnections (op_config (fst st))"

text \<open>What an operation does to both at most: the configuration and the agreement stay, and there is at most one new session, below the limit.\<close>

definition op_rel :: "('w, 'n, 'b) op_state \<Rightarrow> ('w, 'n, 'b) op_state \<Rightarrow> bool" where
  "op_rel st st' \<longleftrightarrow> op_config (fst st') = op_config (fst st)
     \<and> (bindings_agree (fst st) \<longrightarrow> bindings_agree (fst st'))
     \<and> (op_keys st' \<subseteq> op_keys st \<or> (\<exists>k. op_keys st' \<subseteq> insert k (op_keys st) \<and> int (card (op_keys st)) < op_limit st))"

definition same_view :: "('w, 'n, 'b) op_state \<Rightarrow> ('w, 'n, 'b) op_state \<Rightarrow> bool" where
  "same_view st st' \<longleftrightarrow> op_config (fst st') = op_config (fst st) \<and> bound (fst st') = bound (fst st)
     \<and> members (fst st') = members (fst st) \<and> op_closed (fst st') = op_closed (fst st)"

lemma op_keys_members: "op_keys st = dom (members (fst st))"
  by (auto simp: op_keys_def members_def dom_def)

lemma same_view_refl [simp]: "same_view st st"
  by (simp add: same_view_def)

lemma same_view_trans: "same_view st st1 \<Longrightarrow> same_view st1 st2 \<Longrightarrow> same_view st st2"
  by (simp add: same_view_def)

lemma same_view_rel: "op_rel st st1 \<Longrightarrow> same_view st1 st2 \<Longrightarrow> op_rel st st2"
  by (auto simp: op_rel_def same_view_def op_keys_members bindings_agree_def)

lemma op_rel_refl: "op_rel st st"
  by (simp add: op_rel_def)

lemma agreeD: "bindings_agree p \<Longrightarrow> members p k = Some D \<Longrightarrow> d \<in> D \<Longrightarrow> bound p d = Some k"
  by (auto simp: bindings_agree_def)

lemma agreeE: "bindings_agree p \<Longrightarrow> bound p d = Some k \<Longrightarrow> \<exists>D. members p k = Some D \<and> d \<in> D"
  by (simp add: bindings_agree_def)

lemma agreeI:
  assumes "\<And>d k. bound p d = Some k \<Longrightarrow> \<exists>D. members p k = Some D \<and> d \<in> D"
    and "\<And>d k D. members p k = Some D \<Longrightarrow> d \<in> D \<Longrightarrow> bound p d = Some k"
  shows "bindings_agree p"
  using assms by (fastforce simp: bindings_agree_def)

lemma members_put: "members (put_session k s p) = (members p)(k \<mapsto> os_devices s)"
  by (auto simp: members_def)

lemma view_simps [simp]:
  "bound (p\<lparr>op_sessions := ms\<rparr>) = bound p" "members (p\<lparr>op_devices := m\<rparr>) = members p"
  "bound (p\<lparr>op_browseCache := bc\<rparr>) = bound p" "members (p\<lparr>op_browseCache := bc\<rparr>) = members p"
  "bound (p\<lparr>op_closed := b\<rparr>) = bound p" "members (p\<lparr>op_closed := b\<rparr>) = members p"
  by (simp_all add: bound_def members_def fun_eq_iff)

lemma members_at: "op_sessions p k = Some s \<Longrightarrow> members p k = Some (os_devices s)"
  by (simp add: members_def)

lemma put_same: "op_sessions p k = Some s \<Longrightarrow> os_devices s' = os_devices s \<Longrightarrow> same_view (p, w) (put_session k s' p, w')"
  by (auto simp: same_view_def members_def)

lemma record_devices [simp]: "os_devices (opc_recordConnectResult now e b s) = os_devices s"
  by (simp add: opc_recordConnectResult_def Let_def split: option.split)

lemma connect_devices: "connect_session env k b s w = (r, s1, w1) \<Longrightarrow> os_devices s1 = os_devices s"
  by (auto simp: connect_session_def Let_def split: prod.splits outcome.splits)

lemma clear_view [simp]:
  "bound (ClearBrowseCacheForEndpoint k p) = bound p" "members (ClearBrowseCacheForEndpoint k p) = members p"
  "op_config (ClearBrowseCacheForEndpoint k p) = op_config p"
  "op_closed (ClearBrowseCacheForEndpoint k p) = op_closed p"
  by (simp_all add: ClearBrowseCacheForEndpoint_def)

text \<open>Leaving an endpoint.\<close>

lemma leave_view:
  "members (leave_old_endpoint d k p) = (case bound p d of
       Some k' \<Rightarrow> if k' = k then members p else (members p)(k' := map_option (\<lambda>D. D - {d}) (members p k'))
     | None \<Rightarrow> members p)"
  "bound (leave_old_endpoint d k p) = (if bound p d = Some k then bound p else (bound p)(d := None))"
  "op_config (leave_old_endpoint d k p) = op_config p"
  "op_closed (leave_old_endpoint d k p) = op_closed p"
  by (auto simp: leave_old_endpoint_def bound_def members_def fun_eq_iff split: option.splits)

lemma leave_agree: "bindings_agree p \<Longrightarrow> bindings_agree (leave_old_endpoint d k p)"
proof (rule agreeI, goal_cases)
  case (1 x j)
  then show ?case using agreeE [OF 1(1), of x j]
    by (cases "bound p d") (auto simp: leave_view split: if_splits)
next
  case (2 x j D)
  then show ?case using agreeD [OF 2(1), of j _ x]
    by (cases "bound p d") (auto simp: leave_view split: if_splits)
qed

lemma leave_keys: "op_keys (leave_old_endpoint d k p, w) = op_keys (p, w')"
  by (auto simp: op_keys_members leave_view split: option.splits if_splits)

text \<open>Joining one.\<close>

lemma bind_view:
  assumes "op_sessions p k = Some s"
  shows "members (bind_device env d k s p) = (members p)(k \<mapsto> insert (dev_ID d) (os_devices s))"
    and "bound (bind_device env d k s p) = (if dev_ID d \<in> os_devices s then bound p else (bound p)(dev_ID d \<mapsto> k))"
    and "op_config (bind_device env d k s p) = op_config p"
    and "os_devices (the (op_sessions (bind_device env d k s p) k)) = insert (dev_ID d) (os_devices s)"
    and "\<exists>s1. op_sessions (bind_device env d k s p) k = Some s1"
  using assms by (auto simp: bind_device_def insert_absorb new_binding_def members_def bound_def fun_eq_iff)

lemma bind_agree:
  assumes "bindings_agree p" "op_sessions p k = Some s" "bound p (dev_ID d) = None \<or> bound p (dev_ID d) = Some k"
  shows "bindings_agree (bind_device env d k s p)"
proof (rule agreeI, goal_cases)
  case (1 x j)
  then show ?case using assms members_at [OF assms(2)] agreeE [OF assms(1), of x j]
    by (auto simp: bind_view [OF assms(2)] split: if_splits)
next
  case (2 x j D)
  then show ?case using assms members_at [OF assms(2)] agreeD [OF assms(1), of j _ x] agreeD [OF assms(1), of j _ "dev_ID d"]
    by (auto simp: bind_view [OF assms(2)] split: if_splits)
qed

lemma existing_rel:
  assumes "op_sessions p k = Some s" "bound p (dev_ID d) = None \<or> bound p (dev_ID d) = Some k"
  shows "op_rel (p, w) (snd (getClientFromExistingSession env d k s (p, w)))"
proof -
  let ?p1 = "bind_device env d k s p" and ?s1 = "the (op_sessions (bind_device env d k s p) k)"
  have "op_rel (p, w) (?p1, w)"
    using bind_agree [OF _ assms(1)] assms bind_view [OF assms(1), of env d]
    by (auto simp: op_rel_def op_keys_members members_at)
  moreover have "same_view (?p1, w) (snd (getClientFromExistingSession env d k s (p, w)))"
  proof -
    obtain r s2 w1 where c: "connect_session env k (op_RetryDelay (op_config p)) ?s1 w = (r, s2, w1)"
      by (metis prod_cases3)
    obtain s1 where s1: "op_sessions ?p1 k = Some s1" using bind_view(5) [OF assms(1)] by blast
    have v: "same_view (?p1, w) (put_session k s2 ?p1, w1)"
      using put_same [OF s1] connect_devices [OF c] s1 by simp
    show ?thesis using c v
      by (auto simp: getClientFromExistingSession_def Let_def same_view_def split: outcome.splits)
  qed
  ultimately show ?thesis by (rule same_view_rel)
qed

lemma agree_new:
  assumes "bindings_agree p" "members p k = None" "bound p d = None \<or> bound p d = Some k"
    and q: "members q = (members p)(k \<mapsto> {d})" "bound q = (bound p)(d \<mapsto> k)"
  shows "bindings_agree q"
proof (rule agreeI, goal_cases)
  case (1 x j)
  then show ?case using agreeE [OF assms(1), of x j] assms(2) by (cases "x = d") (auto simp: q)
next
  case (2 x j D)
  then show ?case using agreeD [OF assms(1), of j D x] agreeE [OF assms(1), of d k] assms(2,3)
    by (cases "j = k") (auto simp: q)
qed

lemma new_session_rel:
  assumes "op_sessions p k = None" "bound p (dev_ID d) = None \<or> bound p (dev_ID d) = Some k"
    and "int (card (dom (op_sessions p))) < op_MaxConnections (op_config p)"
  shows "op_rel (p, w) (snd (createNewSession env d k (p, w)))"
proof (cases "newClientForEndpoint (oe_now env w) p d")
  case (Ok c)
  let ?s = "\<lparr>os_client = c, os_endpointURL = oc_EndpointURL (ul_config c),
     os_breaker = bl_new (oe_breaker env) (endpoint_settings k), os_devices = {dev_ID d},
     os_createdAt = oe_now env w, os_lastError = None, os_connectFailures = 0,
     os_nextReconnectAt = None, os_subscriptionMgr = None, os_lastPublishTime = 0,
     os_hasActiveSubscriptions = False\<rparr>"
  obtain r s1 w1 where c: "connect_session env k (op_RetryDelay (op_config p)) ?s w = (r, s1, w1)"
    by (metis prod_cases3)
  have D: "os_devices s1 = {dev_ID d}" using connect_devices [OF c] by simp
  have m: "members p k = None" using assms(1) by (simp add: members_def)
  let ?p = "put_session k s1 (p\<lparr>op_devices := (op_devices p)(dev_ID d \<mapsto> new_binding env d k)\<rparr>)"
  have "members ?p = (members p)(k \<mapsto> {dev_ID d})" "bound ?p = (bound p)(dev_ID d \<mapsto> k)"
    by (auto simp: D new_binding_def members_def bound_def fun_eq_iff)
  then have "bindings_agree p \<Longrightarrow> bindings_agree ?p" using agree_new [OF _ m assms(2)] by blast
  then show ?thesis using Ok c assms(3)
    by (auto simp: createNewSession_def op_rel_def op_keys_def op_limit_def Let_def)
qed (simp_all add: createNewSession_def op_rel_refl)

lemma GetClient_rel: "op_rel st (snd (opc_GetClient env d st))"
proof (cases st)
  case (Pair p w)
  let ?k = "endpointKey (oe_pki env w) (op_config p) d"
  let ?p1 = "leave_old_endpoint (dev_ID d) ?k p"
  have b: "bound ?p1 (dev_ID d) = None \<or> bound ?p1 (dev_ID d) = Some ?k" by (simp add: leave_view)
  have l: "op_rel (p, w) (?p1, w)"
    using leave_agree [of p "dev_ID d" ?k] leave_keys [of "dev_ID d" ?k p w w] by (auto simp: op_rel_def leave_view)
  have chain: "op_rel (p, w) st2" if "op_rel (?p1, w) st2" for st2 :: "('a, 'b, 'c) op_state"
    using that l leave_keys [of "dev_ID d" ?k p w w] by (auto simp: op_rel_def leave_view op_limit_def)
  show ?thesis
  proof (cases "op_sessions ?p1 ?k")
    case None
    show ?thesis
    proof (cases "op_MaxConnections (op_config ?p1) \<le> int (card (dom (op_sessions ?p1)))")
      case False
      then have "op_rel (?p1, w) (snd (createNewSession env d ?k (?p1, w)))"
        using new_session_rel [OF None b, of w env] by simp
      then have "op_rel (p, w) (snd (createNewSession env d ?k (?p1, w)))" by (rule chain)
      then show ?thesis using Pair None False op_rel_refl [of "(p, w)"] by (simp add: opc_GetClient_def Let_def)
    qed (use Pair None l op_rel_refl [of "(p, w)"] in \<open>simp add: opc_GetClient_def Let_def\<close>)
  next
    case (Some s)
    then show ?thesis using Pair chain [OF existing_rel [OF Some b]] op_rel_refl [of "(p, w)"]
      by (auto simp: opc_GetClient_def Let_def)
  qed
qed

lemma put_both:
  assumes "op_sessions p k = Some s" "os_devices s' = os_devices s"
    and "op_devices p d = Some bn" "bn_EndpointKey bn' = bn_EndpointKey bn"
  shows "same_view (p, w) ((put_session k s' p)\<lparr>op_devices := (op_devices p)(d \<mapsto> bn')\<rparr>, w')"
  using assms by (auto simp: same_view_def members_def bound_def fun_eq_iff)

lemma request_view:
  assumes "opc_GetClient env d st = (Ok u, st1)"
  shows "same_view st1 (snd (opc_request env prio d fn st))"
proof (cases st1)
  case (Pair p w)
  show ?thesis
  proof (cases "op_devices p (dev_ID d)")
    case (Some bn)
    show ?thesis
    proof (cases "op_sessions p (bn_EndpointKey bn)")
      case s: (Some s)
      obtain g w1 where g: "enter_load env (load_limits env (op_config p)) prio (bn_EndpointKey bn) (os_breaker s) w = (g, w1)"
        by (rule prod.exhaust)
      obtain r eb db c w2 where x: "executeWithTwoTierBreaker env (dev_ID d) (os_breaker s) (bn_breaker bn)
          (fn (oe_ops env (bn_EndpointKey bn))) (os_client s, w1) = (r, eb, db, (c, w2))"
        by (metis prod.exhaust)
      have v: "same_view (p, w) ((put_session (bn_EndpointKey bn) (s\<lparr>os_client := c, os_breaker := eb\<rparr>) p)
          \<lparr>op_devices := (op_devices p)(dev_ID d \<mapsto> bn\<lparr>bn_breaker := db\<rparr>)\<rparr>, leave_load env (bn_EndpointKey bn) w2)"
        by (rule put_both [OF s _ Some]) simp_all
      have v2: "same_view (p, w) (p, w')" for w' by (simp add: same_view_def)
      show ?thesis
        using assms Pair Some s g x v v2 by (cases g) (auto simp: opc_request_def Let_def split: option.splits)
    qed (use assms Pair Some in \<open>simp add: opc_request_def\<close>)
  qed (use assms Pair in \<open>simp add: opc_request_def\<close>)
qed

lemma request_rel: "op_rel st (snd (opc_request env prio d fn st))"
proof -
  obtain r st1 where g: "opc_GetClient env d st = (r, st1)" by (rule prod.exhaust)
  have rel: "op_rel st st1" using GetClient_rel [of st env d] g by simp
  show ?thesis
  proof (cases r)
    case (Ok u)
    then show ?thesis using same_view_rel [OF rel request_view] g by blast
  qed (use g rel in \<open>simp_all add: opc_request_def\<close>)
qed

lemma WriteTags_rel: "op_rel st (snd (op_WriteTags env d ws st))"
proof -
  obtain r st1 where "opc_request env 1 d (\<lambda>ops s. either_result [] (opc_WriteTags ops ws s)) st = (r, st1)"
    by (rule prod.exhaust)
  then show ?thesis
    using request_rel [of st env 1 d "\<lambda>ops s. either_result [] (opc_WriteTags ops ws s)"]
    by (cases r) (simp_all add: op_WriteTags_def)
qed

lemma subscribe_rel: "op_rel st (snd (SubscribeDevice env d ts f st))"
proof -
  obtain r p w where g: "opc_GetClient env d st = (r, (p, w))" by (metis prod.exhaust)
  have rel: "op_rel st (p, w)" using GetClient_rel [of st env d] g by simp
  have "same_view (p, w) (snd (SubscribeDevice env d ts f st))"
    using g by (auto simp: SubscribeDevice_def Let_def put_same split: outcome.splits option.splits sum.splits prod.splits)
  then show ?thesis by (rule same_view_rel [OF rel])
qed

lemma unsubscribe_view: "same_view st (snd (UnsubscribeDevice env i st))"
  by (cases st) (auto simp: UnsubscribeDevice_def Let_def put_same split: option.splits prod.splits)

lemma with_manager_view: "same_view st (with_manager f k st)"
  by (cases st) (auto simp: with_manager_def put_same split: option.splits prod.splits)

lemma browse_view: "BrowseNodes env i n depth st = Some (r, st1) \<Longrightarrow> same_view st st1"
proof -
  assume b: "BrowseNodes env i n depth st = Some (r, st1)"
  have u: "same_view (p, w) st2"
    if "op_sessions p k = Some s" "browse_uncached env k key n depth s (p', w) = Some (q, st2)"
      "op_sessions p' = op_sessions p" "bound p' = bound p" "members p' = members p" "op_config p' = op_config p" "op_closed p' = op_closed p"
    for p p' :: "('a, 'b, 'c) opc_pool" and w k key s q st2
  proof -
    have "same_view (p', w) st2"
      using that(1-3)
      by (auto simp: browse_uncached_def Let_def same_view_def members_def
          split: prod.splits option.splits outcome.splits)
    then show ?thesis using that(4-7) by (simp add: same_view_def)
  qed
  show ?thesis
  proof (cases st)
    case (Pair p w)
    show ?thesis using b Pair
      by (auto simp: BrowseNodes_def Let_def split: option.splits prod.splits if_splits intro: u)
  qed
qed

lemma health_view: "same_view st (fold (checkSessionHealth env) ks st)"
proof (induction ks arbitrary: st)
  case (Cons k ks)
  have "same_view st (checkSessionHealth env k st)"
    by (cases st) (auto simp: checkSessionHealth_def Let_def put_same connect_devices split: option.splits prod.splits)
  then show ?case using Cons.IH [of "checkSessionHealth env k st"] same_view_trans by simp
qed simp

lemma health_tick_view: "same_view st (op_health_tick env ks st)"
  using health_view [of st env ks] by (auto simp: op_health_tick_def same_view_def split: prod.splits)

text \<open>Leaving a session for good.\<close>

lemma remove_rel: "op_rel st (snd (op_RemoveClient env i st))"
proof (cases st)
  case (Pair p w)
  show ?thesis
  proof (cases "op_devices p i")
    case (Some bn)
    let ?k = "bn_EndpointKey bn"
    have b: "bound p i = Some ?k" by (simp add: bound_def Some)
    have agree: "bindings_agree q"
      if "bindings_agree p" "bound q = (bound p)(i := None)"
        "members q = (members p)(?k := (if D - {i} = {} then None else Some (D - {i})))" "members p ?k = Some D"
      for q :: "('a, 'b, 'c) opc_pool" and D
    proof (rule agreeI, goal_cases)
      case (1 x j)
      then show ?case using agreeE [OF that(1), of x j] that(2-4) by (auto split: if_splits)
    next
      case (2 x j E)
      then show ?case using agreeD [OF that(1), of j _ x] agreeD [OF that(1), of j _ i] that(2-4) b
        by (auto split: if_splits)
    qed
    show ?thesis
    proof (cases "op_sessions p ?k")
      case None
      then have "\<not> bindings_agree p" using b by (auto simp: members_def dest: agreeE)
      then show ?thesis using Pair Some None by (simp add: op_RemoveClient_def op_rel_def op_keys_def)
    next
      case s: (Some s)
      obtain c w1 where d: "opc_Disconnect (oe_ops env ?k) (os_client s, w) = (c, w1)" by (rule prod.exhaust)
      show ?thesis
      proof (cases "os_devices s - {i} = {}")
        case True
        let ?q = "p\<lparr>op_devices := (op_devices p)(i := None), op_sessions := (op_sessions p)(?k := None)\<rparr>"
        have "bound ?q = (bound p)(i := None)" "members ?q = (members p)(?k := None)"
          by (auto simp: bound_def members_def fun_eq_iff)
        then have "bindings_agree p \<Longrightarrow> bindings_agree ?q" using agree [of ?q "os_devices s"] True members_at [OF s] by simp
        then show ?thesis using Pair Some s d True
          by (auto simp: op_RemoveClient_def Let_def op_rel_def op_keys_def)
      next
        case False
        let ?q = "put_session ?k (s\<lparr>os_devices := os_devices s - {i}\<rparr>) (p\<lparr>op_devices := (op_devices p)(i := None)\<rparr>)"
        have "bound ?q = (bound p)(i := None)" "members ?q = (members p)(?k := Some (os_devices s - {i}))"
          by (auto simp: bound_def members_def fun_eq_iff)
        then have "bindings_agree p \<Longrightarrow> bindings_agree ?q" using agree [of ?q "os_devices s"] False members_at [OF s] by simp
        then show ?thesis using Pair Some s False
          by (auto simp: op_RemoveClient_def Let_def op_rel_def op_keys_def)
      qed
    qed
  qed (use Pair in \<open>simp add: op_RemoveClient_def op_rel_refl\<close>)
qed

text \<open>The keys only shrink.\<close>

definition op_shrinks :: "('w, 'n, 'b) op_state \<Rightarrow> ('w, 'n, 'b) op_state \<Rightarrow> bool" where
  "op_shrinks st st' \<longleftrightarrow> op_config (fst st') = op_config (fst st) \<and> op_keys st' \<subseteq> op_keys st
     \<and> (bindings_agree (fst st) \<longrightarrow> bindings_agree (fst st'))"

lemma shrinks_rel: "op_shrinks st st' \<Longrightarrow> op_rel st st'"
  by (simp add: op_shrinks_def op_rel_def)

lemma reap_shrinks: "op_shrinks st (reap_session env ds k st)"
proof (cases st)
  case (Pair p w)
  show ?thesis
  proof (cases "op_sessions p k")
    case (Some s)
    let ?q = "p\<lparr>op_sessions := (op_sessions p)(k := None), op_devices := drop_bindings k (os_devices s) (op_devices p)\<rparr>"
    have v: "members ?q = (members p)(k := None)"
      "bound ?q = (\<lambda>d. if d \<in> os_devices s \<and> bound p d = Some k then None else bound p d)"
      by (auto simp: members_def bound_def fun_eq_iff drop_bindings_def)
    have agree: "bindings_agree q" if a: "bindings_agree p" and q: "members q = (members p)(k := None)"
        "bound q = (\<lambda>d. if d \<in> os_devices s \<and> bound p d = Some k then None else bound p d)"
      for q :: "('a, 'b, 'c) opc_pool"
    proof (rule agreeI, goal_cases)
      case (1 x j)
      then have "bound p x = Some j" "\<not> (x \<in> os_devices s \<and> j = k)" by (auto simp: q(2) split: if_splits)
      moreover obtain D where "members p j = Some D" "x \<in> D" using agreeE [OF a \<open>bound p x = Some j\<close>] by blast
      ultimately show ?case using members_at [OF Some] by (auto simp: q(1))
    next
      case (2 x j E)
      then show ?case using agreeD [OF a, of j E x] by (auto simp: q split: if_splits)
    qed
    have "bindings_agree p \<Longrightarrow> bindings_agree ?q" by (rule agree [OF _ v])
    then show ?thesis using Pair Some by (auto simp: reap_session_def op_shrinks_def op_keys_def)
  qed (use Pair in \<open>simp add: reap_session_def op_shrinks_def\<close>)
qed

lemma shrinks_trans: "op_shrinks a b \<Longrightarrow> op_shrinks b c \<Longrightarrow> op_shrinks a c"
  by (auto simp: op_shrinks_def)

lemma reap_fold_shrinks: "op_shrinks st (fold (reap_session env ds) ks st)"
proof (induction ks arbitrary: st)
  case (Cons k ks)
  have "op_shrinks (reap_session env ds k st) (fold (reap_session env ds) ks (reap_session env ds k st))"
    by (rule Cons.IH)
  then show ?case using shrinks_trans [OF reap_shrinks] by (simp only: fold_Cons comp_apply) blast
qed (simp add: op_shrinks_def)

lemma reaper_rel: "op_rel st (op_reaper_tick env ds ks st)"
  by (simp add: op_reaper_tick_def op_rel_refl reapIdleSessions_def Let_def shrinks_rel [OF reap_fold_shrinks])

lemma close_rel: "op_rel st (snd (op_Close env ds ks st))"
  by (cases st) (auto simp: op_Close_def Let_def op_rel_def op_keys_def bindings_agree_def bound_def members_def)

lemma op_step_rel: "op_rel st (op_step env x st)"
proof (cases x)
  case (OpBrowse i n depth)
  show ?thesis
  proof (cases "BrowseNodes env i n depth st")
    case (Some y)
    then show ?thesis using OpBrowse same_view_rel [OF op_rel_refl browse_view, of env i n depth st "fst y" "snd y"]
      by (simp add: split_beta)
  qed (simp add: OpBrowse op_rel_refl)
next
  case OpClearBrowse
  have "same_view st (ClearBrowseCache (fst st), snd st)" by (simp add: same_view_def ClearBrowseCache_def)
  then show ?thesis using OpClearBrowse same_view_rel [OF op_rel_refl] by simp
qed (auto simp: op_ReadTags_def op_ReadTag_def op_WriteTag_def request_rel WriteTags_rel subscribe_rel remove_rel reaper_rel
    close_rel same_view_rel [OF op_rel_refl] unsubscribe_view with_manager_view health_tick_view)

interpretation opc_size: bounded_pool "op_step env" op_keys op_limit for env
proof unfold_locales
  fix x and s :: "('a, 'b, 'c) op_state"
  have g: "op_rel s (op_step env x s)" by (rule op_step_rel)
  show "op_limit (op_step env x s) = op_limit s" using g by (simp add: op_rel_def op_limit_def)
  assume f: "finite (op_keys s)"
  show "finite (op_keys (op_step env x s))" using g f unfolding op_rel_def by (metis finite_insert finite_subset)
  show "int (card (op_keys (op_step env x s))) \<le> max (int (card (op_keys s))) (op_limit s)"
    using g f unfolding op_rel_def by (metis card_grow)
qed

lemma run_agree: "bindings_agree (fst st) \<Longrightarrow> bindings_agree (fst (fold (op_step env) xs st))"
proof (induction xs arbitrary: st)
  case (Cons x xs)
  then show ?case using op_step_rel [of st env x] by (simp add: op_rel_def)
qed simp

lemma new_pool_facts:
  assumes "opc_NewConnectionPool cpus cfg = Ok p"
  shows "op_sessions p = Map.empty" "bindings_agree p" "op_limit (p, w) = default_if (op_MaxConnections cfg) 100"
  using assms by (auto simp: opc_NewConnectionPool_def Let_def bindings_agree_def bound_def members_def op_limit_def
      opc_pool_defaults_def split: if_splits)

end
