(* ===== verification/Opcua_Sharing.thy ===== *)
theory Opcua_Sharing
  imports Opcua_Pool
begin

text \<open>
  What sharing a session means for the devices behind one endpoint: the pool as an abstract registry of
  open endpoints and of the endpoint of every device, the behaviour of one request on a shared
  session, reconnecting and reaping.
\<close>

section \<open>The pool as a registry\<close>

text \<open>Which endpoints are open, and which of them a device uses.\<close>

record registry =
  rg_open :: "string set"
  rg_binding :: "string \<rightharpoonup> string"
  rg_closed :: bool

definition registry_of :: "('w, 'n, 'b) op_state \<Rightarrow> registry" where
  "registry_of st = \<lparr>rg_open = op_keys st, rg_binding = bound (fst st), rg_closed = op_closed (fst st)\<rparr>"

text \<open>A device asks for an endpoint: it leaves another one, and opens a new one only below the limit.\<close>

definition reg_join :: "int \<Rightarrow> string \<Rightarrow> string \<Rightarrow> registry \<Rightarrow> registry" where
  "reg_join limit k d g =
     (if rg_closed g then g
      else let b = (if rg_binding g d = Some k then rg_binding g else (rg_binding g)(d := None)) in
        if k \<in> rg_open g then g\<lparr>rg_binding := b(d \<mapsto> k)\<rparr>
        else if limit \<le> int (card (rg_open g)) then g\<lparr>rg_binding := b\<rparr>
        else g\<lparr>rg_open := insert k (rg_open g), rg_binding := b(d \<mapsto> k)\<rparr>)"

text \<open>A device is removed; with the last one its endpoint is closed.\<close>

definition reg_leave :: "string \<Rightarrow> registry \<Rightarrow> registry" where
  "reg_leave d g = (case rg_binding g d of
       None \<Rightarrow> g
     | Some k \<Rightarrow> let b = (rg_binding g)(d := None)
         in g\<lparr>rg_open := (if k \<in> ran b then rg_open g else rg_open g - {k}), rg_binding := b\<rparr>)"

definition reg_drop :: "string set \<Rightarrow> registry \<Rightarrow> registry" where
  "reg_drop K g = g\<lparr>rg_open := rg_open g - K,
     rg_binding := (\<lambda>d. case rg_binding g d of Some k \<Rightarrow> if k \<in> K then None else Some k | None \<Rightarrow> None)\<rparr>"

fun reg_step :: "int \<Rightarrow> (device \<Rightarrow> string) \<Rightarrow> 'w op_op \<Rightarrow> registry \<Rightarrow> registry \<Rightarrow> bool" where
  "reg_step n key (OpReadTags d ts) g g' = (g' = reg_join n (key d) (dev_ID d) g)"
| "reg_step n key (OpReadTag d t) g g' = (g' = reg_join n (key d) (dev_ID d) g)"
| "reg_step n key (OpWriteTag d t v) g g' = (g' = reg_join n (key d) (dev_ID d) g)"
| "reg_step n key (OpWriteTags d ws) g g' = (g' = reg_join n (key d) (dev_ID d) g)"
| "reg_step n key (OpSubscribe d ts f) g g' = (g' = reg_join n (key d) (dev_ID d) g)"
| "reg_step n key (OpRemove d) g g' = (g' = reg_leave d g)"
| "reg_step n key (OpReaperTick ds ks) g g' = (\<exists>K. K \<subseteq> set ks \<and> g' = reg_drop K g)"
| "reg_step n key (OpClose ds ks) g g' =
     (g' = (if rg_closed g then g else \<lparr>rg_open = {}, rg_binding = Map.empty, rg_closed = True\<rparr>))"
| "reg_step n key x g g' = (g' = g)"

section \<open>The simulation\<close>

lemma same_view_registry: "same_view st st' \<Longrightarrow> registry_of st' = registry_of st"
  by (simp add: same_view_def registry_of_def op_keys_members)

lemma registry_eq:
  "dom (members (fst st)) = rg_open g \<Longrightarrow> bound (fst st) = rg_binding g \<Longrightarrow> op_closed (fst st) = rg_closed g
     \<Longrightarrow> registry_of st = g"
  by (simp add: registry_of_def op_keys_members)

lemma endpoint_url_nonempty: "endpoint_url cn \<noteq> []"
  by (simp add: endpoint_url_def)

lemma newClient_Ok: "\<exists>c. newClientForEndpoint now p d = Ok c"
  by (auto simp: newClientForEndpoint_def opc_NewClient_def opc_client_config_def Let_def endpoint_url_nonempty)

lemma existing_registry:
  assumes "op_sessions p k = Some s"
  shows "dom (members (fst (snd (getClientFromExistingSession env d k s (p, w))))) = dom (members p)
    \<and> bound (fst (snd (getClientFromExistingSession env d k s (p, w))))
        = (if dev_ID d \<in> os_devices s then bound p else (bound p)(dev_ID d \<mapsto> k))
    \<and> op_closed (fst (snd (getClientFromExistingSession env d k s (p, w)))) = op_closed p"
proof -
  let ?p1 = "bind_device env d k s p" and ?s1 = "the (op_sessions (bind_device env d k s p) k)"
  obtain r s2 w1 where c: "connect_session env k (op_RetryDelay (op_config p)) ?s1 w = (r, s2, w1)"
    by (metis prod_cases3)
  have k: "k \<in> dom (members p)" using members_at [OF assms] by auto
  have closed: "op_closed ?p1 = op_closed p" by (simp add: bind_device_def)
  show ?thesis using c k closed
    by (auto simp: getClientFromExistingSession_def Let_def bind_view [OF assms] members_put split: outcome.splits if_splits)
qed

lemma new_session_registry:
  "dom (members (fst (snd (createNewSession env d k (p, w))))) = insert k (dom (members p))
   \<and> bound (fst (snd (createNewSession env d k (p, w)))) = (bound p)(dev_ID d \<mapsto> k)
   \<and> op_closed (fst (snd (createNewSession env d k (p, w)))) = op_closed p"
proof -
  obtain c where c: "newClientForEndpoint (oe_now env w) p d = Ok c" using newClient_Ok by blast
  show ?thesis
    by (auto simp: createNewSession_def c Let_def new_binding_def members_def bound_def fun_eq_iff dom_def split: prod.splits)
qed

lemma GetClient_registry:
  assumes "bindings_agree (fst st)"
  shows "registry_of (snd (opc_GetClient env d st)) = reg_join (op_limit st)
     (endpointKey (oe_pki env (snd st)) (op_config (fst st)) d) (dev_ID d) (registry_of st)"
proof (cases st)
  case (Pair p w)
  let ?k = "endpointKey (oe_pki env w) (op_config p) d"
  let ?p1 = "leave_old_endpoint (dev_ID d) ?k p"
  let ?b = "if bound p (dev_ID d) = Some ?k then bound p else (bound p)(dev_ID d := None)"
  have p1: "bindings_agree ?p1" using leave_agree assms Pair by simp
  have keys: "dom (members ?p1) = dom (members p)" using leave_keys [of "dev_ID d" ?k p w w] by (simp add: op_keys_members)
  have dom: "dom (op_sessions q) = dom (members q)" for q :: "('a, 'b, 'c) opc_pool" by (auto simp: members_def dom_def)
  note lv = leave_view [of "dev_ID d" ?k p]
  show ?thesis
  proof (cases "op_closed p")
    case True
    then show ?thesis using Pair by (simp add: opc_GetClient_def registry_of_def reg_join_def)
  next
    case open': False
    show ?thesis
    proof (cases "op_sessions ?p1 ?k")
      case (Some s)
      have k: "?k \<in> dom (members p)" using Some keys by (auto simp: members_def)
      have "?b = bound ?p1" "dev_ID d \<in> os_devices s \<Longrightarrow> bound ?p1 (dev_ID d) = Some ?k"
        using agreeD [OF p1 members_at [OF Some], of "dev_ID d"] lv by simp_all
      then have b: "(if dev_ID d \<in> os_devices s then bound ?p1 else (bound ?p1)(dev_ID d \<mapsto> ?k)) = ?b(dev_ID d \<mapsto> ?k)"
        by (simp only: fun_upd_idem split: if_split) (auto simp only: fun_upd_idem)
      show ?thesis
        using existing_registry [OF Some, of env d w] Pair open' Some k keys b lv
        by (intro registry_eq) (simp_all add: opc_GetClient_def Let_def reg_join_def registry_of_def op_keys_members)
    next
      case None
      then have "members ?p1 ?k = None" by (simp add: members_def)
      then have k: "?k \<notin> dom (members p)" unfolding keys [symmetric] by (simp add: domIff)
      show ?thesis
        using new_session_registry [of env d ?k ?p1 w] Pair open' None k keys lv dom [of ?p1]
        by (intro registry_eq) (simp_all add: opc_GetClient_def Let_def reg_join_def registry_of_def op_keys_members op_limit_def)
    qed
  qed
qed

lemma request_registry:
  assumes "bindings_agree (fst st)"
  shows "registry_of (snd (opc_request env prio d fn st)) = reg_join (op_limit st)
     (endpointKey (oe_pki env (snd st)) (op_config (fst st)) d) (dev_ID d) (registry_of st)"
proof -
  obtain r st1 where g: "opc_GetClient env d st = (r, st1)" by (rule prod.exhaust)
  have "registry_of (snd (opc_request env prio d fn st)) = registry_of st1"
  proof (cases r)
    case (Ok u)
    then show ?thesis using same_view_registry [OF request_view] g by blast
  qed (simp_all add: opc_request_def g)
  then show ?thesis using GetClient_registry [OF assms, of env d] g by simp
qed

lemma WriteTags_registry:
  assumes "bindings_agree (fst st)"
  shows "registry_of (snd (op_WriteTags env d ws st)) = reg_join (op_limit st)
     (endpointKey (oe_pki env (snd st)) (op_config (fst st)) d) (dev_ID d) (registry_of st)"
proof -
  obtain r st1 where "opc_request env 1 d (\<lambda>ops s. either_result [] (opc_WriteTags ops ws s)) st = (r, st1)"
    by (rule prod.exhaust)
  then show ?thesis
    using request_registry [OF assms, of env 1 d "\<lambda>ops s. either_result [] (opc_WriteTags ops ws s)"]
    by (cases r) (simp_all add: op_WriteTags_def)
qed

lemma subscribe_registry:
  assumes "bindings_agree (fst st)"
  shows "registry_of (snd (SubscribeDevice env d ts f st)) = reg_join (op_limit st)
     (endpointKey (oe_pki env (snd st)) (op_config (fst st)) d) (dev_ID d) (registry_of st)"
proof -
  obtain r p w where g: "opc_GetClient env d st = (r, (p, w))" by (metis prod.exhaust)
  have "same_view (p, w) (snd (SubscribeDevice env d ts f st))"
    using g by (auto simp: SubscribeDevice_def Let_def put_same split: outcome.splits option.splits sum.splits prod.splits)
  then have "registry_of (snd (SubscribeDevice env d ts f st)) = registry_of (p, w)" by (rule same_view_registry)
  then show ?thesis using GetClient_registry [OF assms, of env d] g by simp
qed

lemma remove_registry:
  assumes "bindings_agree (fst st)"
  shows "registry_of (snd (op_RemoveClient env i st)) = reg_leave i (registry_of st)"
proof (cases st)
  case (Pair p w)
  show ?thesis
  proof (cases "op_devices p i")
    case (Some bn)
    let ?k = "bn_EndpointKey bn"
    have b: "bound p i = Some ?k" by (simp add: bound_def Some)
    then obtain D where D: "members p ?k = Some D" "i \<in> D" using assms Pair agreeE [of p i ?k] by auto
    then obtain s where s: "op_sessions p ?k = Some s" "os_devices s = D" by (auto simp: members_def)
    have keep: "?k \<in> ran ((bound p)(i := None)) \<longleftrightarrow> D - {i} \<noteq> {}"
    proof
      assume "?k \<in> ran ((bound p)(i := None))"
      then obtain j where j: "j \<noteq> i" "bound p j = Some ?k" by (auto simp: ran_def split: if_splits)
      then have "j \<in> D" using agreeE [of p j ?k] assms Pair D by simp
      then show "D - {i} \<noteq> {}" using j by blast
    next
      assume "D - {i} \<noteq> {}"
      then obtain j where j: "j \<noteq> i" "j \<in> D" by blast
      then have "bound p j = Some ?k" using agreeD [of p ?k D j] assms Pair D by simp
      then show "?k \<in> ran ((bound p)(i := None))" using j by (auto simp: ran_def)
    qed
    have k: "?k \<in> op_keys (p, w)" using s by (auto simp: op_keys_def)
    obtain c w1 where d: "opc_Disconnect (oe_ops env ?k) (os_client s, w) = (c, w1)" by (rule prod.exhaust)
    have bd: "bound (p\<lparr>op_devices := (op_devices p)(i := None)\<rparr>) = (bound p)(i := None)"
      by (auto simp: bound_def fun_eq_iff)
    show ?thesis
      using Pair Some s d keep k b bd
      by (auto simp: op_RemoveClient_def Let_def reg_leave_def registry_of_def op_keys_def insert_absorb)
  qed (use Pair in \<open>simp add: op_RemoveClient_def reg_leave_def registry_of_def bound_def\<close>)
qed

lemma reg_drop_empty: "reg_drop {} g = g"
  by (simp add: reg_drop_def fun_eq_iff split: option.split)

lemma reg_drop_drop: "reg_drop K (reg_drop L g) = reg_drop (L \<union> K) g"
proof (rule registry.equality)
  show "rg_open (reg_drop K (reg_drop L g)) = rg_open (reg_drop (L \<union> K) g)" by (auto simp: reg_drop_def)
  show "rg_binding (reg_drop K (reg_drop L g)) = rg_binding (reg_drop (L \<union> K) g)"
    by (rule ext) (simp add: reg_drop_def split: option.split)
qed (simp_all add: reg_drop_def)

lemma reap_registry:
  assumes "bindings_agree (fst st)"
  shows "registry_of (reap_session env ds k st) = registry_of st
    \<or> registry_of (reap_session env ds k st) = reg_drop {k} (registry_of st)"
proof (cases st)
  case (Pair p w)
  show ?thesis
  proof (cases "op_sessions p k")
    case (Some s)
    let ?q = "p\<lparr>op_sessions := (op_sessions p)(k := None), op_devices := drop_bindings k (os_devices s) (op_devices p)\<rparr>"
    show ?thesis
    proof (cases "session_due (op_config p) (oe_now env w) s")
      case True
      have agree: "bound p d = Some k \<Longrightarrow> d \<in> os_devices s" for d
        using agreeE [of p d k] members_at [OF Some] assms Pair by auto
      have b: "bound ?q d = (case bound p d of Some j \<Rightarrow> if j \<in> {k} then None else Some j | None \<Rightarrow> None)" for d
        using agree [of d] by (cases "op_devices p d") (simp_all add: bound_def drop_bindings_def)
      have "registry_of (?q, w') = reg_drop {k} (registry_of (p, w))" for w'
      proof (rule registry.equality)
        show "rg_open (registry_of (?q, w')) = rg_open (reg_drop {k} (registry_of (p, w)))"
          by (auto simp: registry_of_def reg_drop_def op_keys_def)
        show "rg_binding (registry_of (?q, w')) = rg_binding (reg_drop {k} (registry_of (p, w)))"
          by (rule ext) (simp only: registry_of_def reg_drop_def registry.simps fst_conv b)
      qed (simp_all add: registry_of_def reg_drop_def)
      then show ?thesis using Pair Some True by (simp add: reap_session_def)
    qed (use Pair Some in \<open>simp add: reap_session_def\<close>)
  qed (use Pair in \<open>simp add: reap_session_def\<close>)
qed

lemma reap_fold_registry:
  "bindings_agree (fst st) \<Longrightarrow> \<exists>K\<subseteq>set ks. registry_of (fold (reap_session env ds) ks st) = reg_drop K (registry_of st)"
proof (induction ks arbitrary: st)
  case (Cons k ks)
  let ?st = "reap_session env ds k st"
  have "bindings_agree (fst ?st)" using reap_shrinks [of st env ds k] Cons.prems by (simp add: op_shrinks_def)
  then obtain K where K: "K \<subseteq> set ks" "registry_of (fold (reap_session env ds) ks ?st) = reg_drop K (registry_of ?st)"
    using Cons.IH by blast
  show ?case
    using reap_registry [OF Cons.prems, of env ds k]
  proof
    assume "registry_of ?st = registry_of st"
    then show ?thesis using K by (intro exI [of _ K]) auto
  next
    assume "registry_of ?st = reg_drop {k} (registry_of st)"
    then have "registry_of (fold (reap_session env ds) ks ?st) = reg_drop ({k} \<union> K) (registry_of st)"
      using K by (simp only: reg_drop_drop)
    then show ?thesis using K by (intro exI [of _ "{k} \<union> K"]) auto
  qed
qed (simp add: reg_drop_empty)

lemma reaper_registry:
  assumes "bindings_agree (fst st)"
  shows "\<exists>K\<subseteq>set ks. registry_of (op_reaper_tick env ds ks st) = reg_drop K (registry_of st)"
proof (cases "op_closed (fst st)")
  case True
  then show ?thesis by (auto simp: op_reaper_tick_def reg_drop_empty intro: exI [of _ "{}"])
next
  case False
  define due where "due = filter (\<lambda>k. case op_sessions (fst st) k of None \<Rightarrow> False
      | Some s \<Rightarrow> session_due (op_config (fst st)) (oe_now env (snd st)) s) ks"
  have sub: "set due \<subseteq> set ks" unfolding due_def by (rule filter_is_subset)
  have fold: "op_reaper_tick env ds ks st = fold (reap_session env ds) due st"
    unfolding op_reaper_tick_def reapIdleSessions_def due_def Let_def using False by (simp only: if_False)
  obtain K where K: "K \<subseteq> set due"
    "registry_of (fold (reap_session env ds) due st) = reg_drop K (registry_of st)"
    using reap_fold_registry [OF assms] by blast
  show ?thesis unfolding fold by (intro exI [of _ K] conjI K(2) order_trans [OF K(1) sub])
qed

lemma close_registry:
  "registry_of (snd (op_Close env ds ks st)) = (if rg_closed (registry_of st) then registry_of st
     else \<lparr>rg_open = {}, rg_binding = Map.empty, rg_closed = True\<rparr>)"
  by (cases st) (simp add: op_Close_def Let_def registry_of_def op_keys_def bound_def fun_eq_iff)

lemma browse_registry:
  "registry_of (case BrowseNodes env i n depth st of None \<Rightarrow> st | Some (r, st1) \<Rightarrow> st1) = registry_of st"
proof (cases "BrowseNodes env i n depth st")
  case (Some y)
  then show ?thesis using same_view_registry [OF browse_view, of env i n depth st "fst y" "snd y"] by (simp add: split_beta)
qed simp

lemma step_registry:
  assumes "bindings_agree (fst st)"
  shows "reg_step (op_limit st) (endpointKey (oe_pki env (snd st)) (op_config (fst st))) x
     (registry_of st) (registry_of (op_step env x st))"
proof (cases x)
  case OpClearBrowse
  then show ?thesis by (simp add: ClearBrowseCache_def registry_of_def op_keys_def bound_def fun_eq_iff)
next
  case (OpReaperTick ds ks)
  then show ?thesis using reaper_registry [OF assms, of ks env ds] by auto
next
  case (OpBrowse i n depth)
  then show ?thesis by (simp only: reg_step.simps op_step.simps browse_registry)
next
  case (OpClose ds ks)
  then show ?thesis by (simp only: reg_step.simps op_step.simps close_registry)
qed (simp_all only: reg_step.simps op_step.simps op_ReadTags_def op_ReadTag_def op_WriteTag_def request_registry [OF assms]
    WriteTags_registry [OF assms] subscribe_registry [OF assms] remove_registry [OF assms]
    same_view_registry [OF unsubscribe_view] same_view_registry [OF with_manager_view] same_view_registry [OF health_tick_view])

section \<open>An example\<close>

text \<open>Two devices behind one server; the world is the server's nodes, the breakers keep what they are told.\<close>

definition told_breaker :: "(breaker_state \<times> bool list) breaker_lib" where
  "told_breaker = \<lparr>bl_new = (\<lambda>s. (StateClosed, [])),
     bl_before = (\<lambda>t b. (if fst b = StateOpen then Some BreakerOpenState else None, b)),
     bl_after = (\<lambda>t ok b. (fst b, snd b @ [ok])), bl_state = (\<lambda>t b. fst b)\<rparr>"

definition shared_env :: "(cells, string, breaker_state \<times> bool list) opc_pool_env" where
  "shared_env = \<lparr>oe_ops = (\<lambda>k. cell_ops), oe_browse = (\<lambda>k. chain_browse), oe_subs = (\<lambda>k. cell_lib),
     oe_breaker = told_breaker, oe_now = (\<lambda>w. 400 * second), oe_pki = (\<lambda>w. sample_pki),
     oe_arch = \<lparr>oob_i64 = (\<lambda>x. 0), oob_u64 = (\<lambda>x. 0)\<rparr>, oe_load = (\<lambda>w. initial_load 1 1),
     oe_put_load = (\<lambda>s w. w), oe_queued = (\<lambda>q w. (None, w))\<rparr>"

definition shared_config :: opc_pool_config where
  "shared_config = \<lparr>op_MaxConnections = 2, op_IdleTimeout = 300 * second, op_HealthCheckPeriod = 30 * second,
     op_ConnectionTimeout = 15 * second, op_RetryAttempts = 0, op_RetryDelay = second, op_SecurityPolicy = ''None'',
     op_SecurityMode = ''None'', op_AuthMode = ''Anonymous'', op_MaxNodesPerRead = 500, op_MaxNodesPerWrite = 100,
     op_MaxGlobalInFlight = 1000, op_BrownoutThreshold = 0x3FE999999999999A, op_PriorityQueueSize = 1000,
     op_NumWorkers = 4, op_MaxInFlightPerEndpoint = 100, op_MaxTTL = 0\<rparr>"

definition shared_device :: "string \<Rightarrow> device" where
  "shared_device i = raw_device\<lparr>dev_ID := i, dev_Protocol := ProtocolOPCUA,
     Connection := zero_connection\<lparr>Host := ''server'', Port := 4840\<rparr>\<rparr>"

abbreviation shared_key :: string where
  "shared_key \<equiv> endpointKey sample_pki shared_config (shared_device ''a'')"

definition shared_session :: "(cells, string, breaker_state \<times> bool list) opc_session" where
  "shared_session = \<lparr>os_client = open_opc_client\<lparr>ul_deviceID := ''a''\<rparr>, os_endpointURL = ''opc.tcp://server:4840'',
     os_breaker = (StateClosed, []), os_devices = {''a''}, os_createdAt = 0, os_lastError = None, os_connectFailures = 0,
     os_nextReconnectAt = None, os_subscriptionMgr = None, os_lastPublishTime = 0, os_hasActiveSubscriptions = True\<rparr>"

definition shared_pool :: "(cells, string, breaker_state \<times> bool list) opc_pool" where
  "shared_pool = \<lparr>op_config = shared_config, op_sessions = [shared_key \<mapsto> shared_session],
     op_devices = [''a'' \<mapsto> \<lparr>bn_Device = shared_device ''a'', bn_EndpointKey = shared_key, bn_breaker = (StateClosed, [])\<rparr>],
     op_closed = False, op_browseCache = Map.empty, op_trustStore = False, op_autoTrust = False\<rparr>"

lemma shared_agree: "bindings_agree shared_pool"
  by (auto simp: bindings_agree_def bound_def members_def shared_pool_def shared_session_def)

lemma shared_key_same: "endpointKey sample_pki shared_config (shared_device i) = shared_key"
  by (simp add: endpointKey_def shared_device_def)

section \<open>Properties\<close>

text \<open>
  C37: However many devices use it and whatever happens, the OPC UA pool never holds more sessions than its
  configured maximum.
\<close>

theorem sessions_within_limit:
  assumes "opc_NewConnectionPool cpus cfg = Ok p" "0 \<le> op_MaxConnections cfg"
  shows "int (card (dom (op_sessions (fst (fold (op_step env) xs (p, w)))))) \<le> default_if (op_MaxConnections cfg) 100"
proof -
  have "op_keys (p, w) = {}" using new_pool_facts(1) [OF assms(1)] by (simp add: op_keys_def)
  then have "int (card (op_keys (fold (op_step env) xs (p, w)))) \<le> op_limit (p, w)"
    using opc_size.run_bound [of "(p, w)" env xs] new_pool_facts(3) [OF assms(1), of w] assms(2)
    by (simp add: default_if_def max_def split: if_splits)
  then show ?thesis using new_pool_facts(3) [OF assms(1), of w] by (simp add: op_keys_def)
qed

lemma shared_new: "\<exists>p. opc_NewConnectionPool 4 shared_config = Ok p \<and> op_config p = shared_config"
  by (auto simp: opc_NewConnectionPool_def opc_pool_defaults_def Let_def shared_config_def default_if_def f64_eq_def
      f64_dec_def fp_decode_def decode_mag_def float_consts signed_mag_def)

theorem sessions_within_limit_witness:
  "\<exists>p. opc_NewConnectionPool 4 shared_config = Ok p
    \<and> int (card (dom (op_sessions (fst (fold (op_step shared_env) [OpReadTags (shared_device ''a'') [], OpReadTags (shared_device ''b'') []]
        (p, Map.empty)))))) \<le> 2"
proof -
  obtain p :: "(cells, string, breaker_state \<times> bool list) opc_pool" where p: "opc_NewConnectionPool 4 shared_config = Ok p"
    using shared_new by blast
  have b: "0 \<le> op_MaxConnections shared_config" "default_if (op_MaxConnections shared_config) 100 = 2"
    by (simp_all add: shared_config_def default_if_def)
  show ?thesis unfolding b(2) [symmetric] using p sessions_within_limit [OF p b(1)] by blast
qed

text \<open>
  C36: In every run of a new OPC UA pool, a device is bound to an endpoint exactly when the session open for
  that endpoint lists the device.  So a device is listed by one session at most, none lists a device that has
  gone elsewhere, and no device is bound to a session that was closed.  Nothing is said of sessions that list
  no device: the one that the last device has left for another endpoint is such a session, until it is closed.
\<close>

theorem devices_bound_to_sessions:
  assumes "opc_NewConnectionPool cpus cfg = Ok p"
  shows "map_option bn_EndpointKey (op_devices (fst (fold (op_step env) xs (p, w))) i) = Some k
    \<longleftrightarrow> (\<exists>s. op_sessions (fst (fold (op_step env) xs (p, w))) k = Some s \<and> i \<in> os_devices s)"
proof -
  have "bindings_agree (fst (fold (op_step env) xs (p, w)))"
    using run_agree [of "(p, w)" env xs] new_pool_facts(2) [OF assms] by simp
  then have "bound (fst (fold (op_step env) xs (p, w))) i = Some k
      \<longleftrightarrow> (\<exists>D. members (fst (fold (op_step env) xs (p, w))) k = Some D \<and> i \<in> D)"
    by (simp only: bindings_agree_def)
  then show ?thesis unfolding bound_def members_def by auto
qed

theorem devices_bound_to_sessions_witness:
  "\<exists>p. opc_NewConnectionPool 4 shared_config = Ok p
    \<and> (map_option bn_EndpointKey (op_devices (fst (fold (op_step shared_env) [OpReadTags (shared_device ''a'') []] (p, Map.empty))) ''a'')
          = Some shared_key
        \<longleftrightarrow> (\<exists>s. op_sessions (fst (fold (op_step shared_env) [OpReadTags (shared_device ''a'') []] (p, Map.empty))) shared_key
          = Some s \<and> ''a'' \<in> os_devices s))"
proof -
  obtain p :: "(cells, string, breaker_state \<times> bool list) opc_pool" where p: "opc_NewConnectionPool 4 shared_config = Ok p"
    using shared_new by blast
  show ?thesis using devices_bound_to_sessions [OF p] p by blast
qed

text \<open>
  C35: The OPC UA pool refines a registry of open endpoints and of the endpoint of each device: a request
  joins the device to its endpoint, leaving another one and opening a new one only below the limit;
  removing a device closes an endpoint with its last device; the reaper drops endpoints with all
  their devices; closing drops everything; nothing else changes the registry.
\<close>

theorem pool_refines_registry:
  assumes "opc_NewConnectionPool cpus cfg = Ok p" "st = fold (op_step env) xs (p, w)"
  shows "reg_step (op_limit st) (endpointKey (oe_pki env (snd st)) (op_config (fst st))) x
     (registry_of st) (registry_of (op_step env x st))"
proof -
  have "bindings_agree (fst st)" using run_agree [of "(p, w)" env xs] new_pool_facts(2) [OF assms(1)] assms(2) by simp
  then show ?thesis by (rule step_registry)
qed

theorem pool_refines_registry_witness:
  "\<exists>p. opc_NewConnectionPool 4 shared_config = Ok p
    \<and> registry_of (op_step shared_env (OpRemove ''a'') (p, Map.empty :: cells)) = reg_leave ''a'' (registry_of (p, Map.empty :: cells))"
proof -
  obtain p :: "(cells, string, breaker_state \<times> bool list) opc_pool" where p: "opc_NewConnectionPool 4 shared_config = Ok p"
    using shared_new by blast
  show ?thesis
    using pool_refines_registry [OF p, of _ shared_env "[]" Map.empty "OpRemove ''a''"] p by (auto simp: fold_simps)
qed


end
