(* ===== verification/Opcua_Sessions.thy ===== *)
theory Opcua_Sessions
  imports Opcua_Sharing
begin

text \<open>
  What sharing a session means for the devices behind one endpoint: whose name the points carry, what a
  refused device does to the endpoint's breaker, when a session is reaped and when it is tried again.
\<close>

section \<open>Requests on a shared session\<close>

text \<open>What getting a client leaves of the session that is already there.\<close>

lemma GetClient_session:
  assumes "bindings_agree p" "op_sessions p k = Some s" "k = endpointKey (oe_pki env w) (op_config p) d"
    and g: "opc_GetClient env d (p, w) = (Ok u, (q, w1))"
  obtains bn s1 where "op_devices q (dev_ID d) = Some bn" "bn_EndpointKey bn = k" "op_sessions q k = Some s1"
    "ul_deviceID (os_client s1) = ul_deviceID (os_client s)" "os_breaker s1 = os_breaker s"
proof -
  let ?p1 = "leave_old_endpoint (dev_ID d) k p"
  have p1: "bindings_agree ?p1" by (rule leave_agree [OF assms(1)])
  have s: "op_sessions ?p1 k = Some s"
    using assms(2) by (auto simp: leave_old_endpoint_def split: option.splits)
  have e: "getClientFromExistingSession env d k s (?p1, w) = (Ok u, (q, w1))"
    using g s assms(3) by (auto simp: opc_GetClient_def Let_def split: if_splits)
  have b: "bound q (dev_ID d) = Some k"
    using existing_registry [OF s, of env d w] agreeD [OF p1 members_at [OF s], of "dev_ID d"] e
    by (simp split: if_splits)
  have frame: "ul_deviceID (os_client s2) = ul_deviceID (os_client s0) \<and> os_breaker s2 = os_breaker s0"
    if "connect_session env k dl s0 w0 = (r, s2, w2)" for dl s0 w0 r s2 w2
  proof -
    obtain x c w3 where c: "opc_Connect (oe_ops env k) (os_client s0, w0) = (x, (c, w3))" by (metis prod.exhaust)
    then have "ul_deviceID c = ul_deviceID (os_client s0)"
      using opc_Connect_frame(3) [of "oe_ops env k" "(os_client s0, w0)"] by simp
    then show ?thesis using that c by (auto simp: connect_session_def opc_recordConnectResult_def Let_def split: outcome.splits)
  qed
  obtain s0 where s0: "op_sessions (bind_device env d k s ?p1) k = Some s0" "os_client s0 = os_client s" "os_breaker s0 = os_breaker s"
  proof (cases "dev_ID d \<in> os_devices s")
    case True
    then show ?thesis using that [of s] by (simp add: bind_device_def)
  next
    case False
    then show ?thesis using that [of "s\<lparr>os_devices := insert (dev_ID d) (os_devices s)\<rparr>"] by (simp add: bind_device_def)
  qed
  have "\<exists>s1. op_sessions q k = Some s1 \<and> ul_deviceID (os_client s1) = ul_deviceID (os_client s) \<and> os_breaker s1 = os_breaker s"
    using e s0 frame
    by (auto simp: getClientFromExistingSession_def Let_def ClearBrowseCacheForEndpoint_def
        split: if_splits prod.splits outcome.splits)
  moreover obtain bn where "op_devices q (dev_ID d) = Some bn" "bn_EndpointKey bn = k"
    using b by (auto simp: bound_def)
  ultimately show ?thesis using that by blast
qed

lemma resolve_tags_device: "ul_deviceID (fst (snd (resolve_tags ops ts st))) = ul_deviceID (fst st)"
proof (induction ts arbitrary: st)
  case (Cons t ts)
  obtain g st1 where g: "getNodeIDForTag ops t st = (g, st1)" by (rule prod.exhaust)
  then have "ul_deviceID (fst st1) = ul_deviceID (fst st)"
    using getNodeIDForTag_frame [of ops t st] by (simp add: opc_frame_def)
  then show ?case using g Cons.IH [of st1] by (cases g) (auto split: prod.split)
qed simp

lemma process_results_device: "x \<in> set (process_results now d rs ts) \<Longrightarrow> dp_DeviceID x = d"
  by (auto simp: process_results_def)

lemma ReadTags_device:
  "opc_ReadTags ops ts st = (r, st') \<Longrightarrow> ul_deviceID (fst st') = ul_deviceID (fst st)
     \<and> (\<forall>dps x. r = Ok dps \<longrightarrow> x \<in> set dps \<longrightarrow> dp_DeviceID x = ul_deviceID (fst st))"
proof -
  assume r: "opc_ReadTags ops ts st = (r, st')"
  obtain valid c w where v: "resolve_tags ops ts (opc_touch ops st) = (valid, (c, w))" by (metis prod.exhaust)
  have t: "ul_deviceID (fst (opc_touch ops st)) = ul_deviceID (fst st)"
    by (simp add: opc_touch_def opc_map_def)
  then have c: "ul_deviceID c = ul_deviceID (fst st)"
    using resolve_tags_device [of ops ts "opc_touch ops st"] v by simp
  show ?thesis using r v t c
    by (auto simp: opc_ReadTags_def Let_def opc_count_error_def opc_count_reads_def process_results_device
        split: if_splits sum.splits prod.splits)
qed

lemma read_batches_device:
  "read_batches ops m ts st = (r, st') \<Longrightarrow> (\<forall>dps x. r = Ok dps \<longrightarrow> x \<in> set dps \<longrightarrow> dp_DeviceID x = ul_deviceID (fst st))"
proof (induction ops m ts st arbitrary: r st' rule: read_batches.induct)
  case (1 ops m ts st)
  show ?case
  proof (cases "ts = [] \<or> m = 0")
    case False
    obtain a st1 where a: "opc_ReadTags ops (take m ts) st = (a, st1)" by (rule prod.exhaust)
    note d = ReadTags_device [OF a]
    show ?thesis
    proof (cases a)
      case (Ok xs)
      obtain b st2 where b: "read_batches ops m (drop m ts) st1 = (b, st2)" by (rule prod.exhaust)
      have "\<forall>dps x. b = Ok dps \<longrightarrow> x \<in> set dps \<longrightarrow> dp_DeviceID x = ul_deviceID (fst st1)"
        using "1.IH" False a Ok b by simp
      then show ?thesis using "1.prems" a b d False Ok
        by (auto simp: read_batches.simps [of ops m ts st] split: outcome.splits)
    qed (use "1.prems" a False in \<open>auto simp: read_batches.simps [of ops m ts st]\<close>)
  qed (use "1.prems" in \<open>auto simp: read_batches.simps [of ops m ts st] split: if_splits\<close>)
qed

lemma request_result:
  assumes "opc_GetClient env d (p0, w0) = (Ok u, (p, w))" "op_devices p (dev_ID d) = Some bn"
    "op_sessions p (bn_EndpointKey bn) = Some s" "opc_request env prio d fn (p0, w0) = (Ok x, st')"
  obtains w1 cw where "fn (oe_ops env (bn_EndpointKey bn)) (os_client s, w1) = (Ok (x, None), cw)"
proof -
  let ?k = "bn_EndpointKey bn"
  obtain a w1 where a: "enter_load env (load_limits env (op_config p)) prio ?k (os_breaker s) w = (a, w1)" by (rule prod.exhaust)
  obtain r eb db c w2 where e: "executeWithTwoTierBreaker env (dev_ID d) (os_breaker s) (bn_breaker bn) (fn (oe_ops env ?k))
      (os_client s, w1) = (r, eb, db, (c, w2))" by (metis prod_cases3 prod.exhaust)
  have "a = Ok None \<and> r = Ok x"
    using assms a e by (auto simp: opc_request_def Let_def split: outcome.splits option.splits)
  then have "\<exists>cw. fn (oe_ops env ?k) (os_client s, w1) = (Ok (x, None), cw)"
    using e by (auto simp: executeWithTwoTierBreaker_def Execute_def split: prod.splits option.splits outcome.splits)
  then show ?thesis using that by blast
qed

lemma read_device_id:
  assumes "bindings_agree p" "op_sessions p k = Some s" "k = endpointKey (oe_pki env w) (op_config p) d"
    and r: "op_ReadTags env d ts (p, w) = (Ok dps, st')" and x: "x \<in> set dps"
  shows "dp_DeviceID x = ul_deviceID (os_client s)"
proof -
  obtain a q w1 where g: "opc_GetClient env d (p, w) = (a, (q, w1))" by (metis prod.exhaust)
  then obtain u where u: "a = Ok u" using r by (cases a) (auto simp: op_ReadTags_def opc_request_def)
  obtain bn s1 where b: "op_devices q (dev_ID d) = Some bn" "bn_EndpointKey bn = k" "op_sessions q k = Some s1"
    "ul_deviceID (os_client s1) = ul_deviceID (os_client s)"
    using GetClient_session [OF assms(1-3) g [unfolded u]] by blast
  have req: "opc_request env (top_priority ts) d
     (\<lambda>ops s. either_result [] (read_within_limit ops (op_MaxNodesPerRead (op_config p)) ts s)) (p, w) = (Ok dps, st')"
    using r by (simp only: op_ReadTags_def fst_conv)
  have s1: "op_sessions q (bn_EndpointKey bn) = Some s1" using b by simp
  obtain w2 cw where "either_result [] (read_within_limit (oe_ops env k) (op_MaxNodesPerRead (op_config p)) ts (os_client s1, w2))
      = (Ok (dps, None), cw)"
    using request_result [OF g [unfolded u] b(1) s1 req] unfolding b(2) by blast
  then have "read_within_limit (oe_ops env k) (op_MaxNodesPerRead (op_config p)) ts (os_client s1, w2) = (Ok dps, cw)"
    by (auto simp: either_result_def split: prod.splits outcome.splits)
  then have "dp_DeviceID x = ul_deviceID (os_client s1)"
    using x ReadTags_device [of _ ts "(os_client s1, w2)" "Ok dps" cw]
      read_batches_device [of _ _ ts "(os_client s1, w2)" "Ok dps" cw]
    by (cases "int (length ts) \<le> op_MaxNodesPerRead (op_config p)") (simp_all add: read_within_limit_def)
  then show ?thesis using b(4) by simp
qed

lemma created_session:
  assumes "opc_GetClient env d (p, w) = (r, (q, w1))" "op_sessions p k = None"
    "k = endpointKey (oe_pki env w) (op_config p) d" "op_sessions q k = Some s"
  shows "ul_deviceID (os_client s) = dev_ID d"
proof -
  let ?p1 = "leave_old_endpoint (dev_ID d) k p"
  have n: "op_sessions ?p1 k = None" using assms(2) by (auto simp: leave_old_endpoint_def split: option.splits)
  obtain c where c: "newClientForEndpoint (oe_now env w) ?p1 d = Ok c" using newClient_Ok by blast
  then have i: "ul_deviceID c = dev_ID d"
    by (auto simp: newClientForEndpoint_def opc_NewClient_def Let_def split: if_splits)
  let ?s = "\<lparr>os_client = c, os_endpointURL = oc_EndpointURL (ul_config c),
                   os_breaker = bl_new (oe_breaker env) (endpoint_settings k), os_devices = {dev_ID d},
                   os_createdAt = oe_now env w, os_lastError = None, os_connectFailures = 0,
                   os_nextReconnectAt = None, os_subscriptionMgr = None, os_lastPublishTime = 0,
                   os_hasActiveSubscriptions = False\<rparr> :: ('a, 'b, 'c) opc_session"
  obtain x s1 w2 where x: "connect_session env k (op_RetryDelay (op_config ?p1)) ?s w = (x, s1, w2)" by (metis prod_cases3)
  have "ul_deviceID (os_client s1) = ul_deviceID c"
  proof -
    obtain y c1 w3 where y: "opc_Connect (oe_ops env k) (c, w) = (y, (c1, w3))" by (metis prod.exhaust)
    then have "ul_deviceID c1 = ul_deviceID c" using opc_Connect_frame(3) [of "oe_ops env k" "(c, w)"] by simp
    then show ?thesis using x y by (auto simp: connect_session_def opc_recordConnectResult_def Let_def split: outcome.splits)
  qed
  moreover have "op_sessions q k = Some s1"
    using assms n c x by (auto simp: opc_GetClient_def Let_def createNewSession_def split: if_splits)
  ultimately show ?thesis using i assms(4) by simp
qed

section \<open>Sessions that push\<close>

lemma processDataChange_used: "ul_lastUsed (fst (snd (processDataChange ops h item s))) = ul_lastUsed (fst (snd s))"
  by (cases s) (auto simp: processDataChange_def Let_def split: option.splits)

lemma notification_used: "ul_lastUsed (fst (snd (processNotification ops h n s))) = ul_lastUsed (fst (snd s))"
proof -
  have "ul_lastUsed (fst (snd (fold (processDataChange ops h) items s))) = ul_lastUsed (fst (snd s))" for items
    by (induction items arbitrary: s) (simp_all add: processDataChange_used)
  then show ?thesis by (cases n) (simp_all add: processNotification_def)
qed

lemma push_used:
  "ul_lastUsed (fst (snd (deliver i n st))) = ul_lastUsed (fst (snd st))"
  "ul_lastUsed (fst (snd (handle_one ops i st))) = ul_lastUsed (fst (snd st))"
proof -
  show "ul_lastUsed (fst (snd (deliver i n st))) = ul_lastUsed (fst (snd st))"
    by (cases st) (simp add: deliver_def split: option.split)
  obtain sm ct where st: "st = (sm, ct)" by (rule prod.exhaust)
  have "ul_lastUsed (fst ct2) = ul_lastUsed (fst ct)"
    if "processNotification ops h n (sub, ct) = (sub2, ct2)" for h n sub sub2 ct2
    using notification_used [of ops h n "(sub, ct)"] that by simp
  then show "ul_lastUsed (fst (snd (handle_one ops i st))) = ul_lastUsed (fst (snd st))"
    using st by (auto simp: handle_one_def handler_quits_def Let_def split: option.split prod.split)
qed

text \<open>What the reaper looks at.\<close>

definition session_clock :: "('w, 'n, 'b) opc_session \<Rightarrow> time \<times> time \<times> time \<times> bool" where
  "session_clock s = (ul_lastUsed (os_client s), os_lastPublishTime s, os_createdAt s, os_hasActiveSubscriptions s)"

lemma due_by_clock:
  "session_clock s = session_clock s' \<Longrightarrow> session_due cfg now s = session_due cfg now s'"
  by (simp add: session_clock_def session_due_def hasRecentActivity_def)

text \<open>The operations of the library and of the notification handlers.\<close>

fun pushes :: "'w op_op \<Rightarrow> bool" where
  "pushes (OpDeliver k i n) = True"
| "pushes (OpHandle k i) = True"
| "pushes x = False"

lemma with_manager_clock:
  assumes "\<And>m ct. ul_lastUsed (fst (snd (f (m, ct)))) = ul_lastUsed (fst ct)"
  shows "map_option session_clock (op_sessions (fst (with_manager f j st)) k) = map_option session_clock (op_sessions (fst st) k)
    \<and> op_config (fst (with_manager f j st)) = op_config (fst st) \<and> op_closed (fst (with_manager f j st)) = op_closed (fst st)"
proof (cases st)
  case (Pair p w)
  show ?thesis
  proof (cases "op_sessions p j")
    case (Some s)
    show ?thesis
    proof (cases "os_subscriptionMgr s")
      case m: (Some m)
      obtain m1 c w1 where f: "f (m, (os_client s, w)) = (m1, (c, w1))" by (metis prod_cases3)
      then have "ul_lastUsed c = ul_lastUsed (os_client s)" using assms [of m "(os_client s, w)"] by simp
      then show ?thesis using Pair Some m f by (simp add: with_manager_def session_clock_def)
    qed (simp add: with_manager_def Pair Some)
  qed (simp add: with_manager_def Pair)
qed

lemma push_clock:
  "pushes x \<Longrightarrow> map_option session_clock (op_sessions (fst (op_step env x st)) k) = map_option session_clock (op_sessions (fst st) k)
     \<and> op_config (fst (op_step env x st)) = op_config (fst st) \<and> op_closed (fst (op_step env x st)) = op_closed (fst st)"
proof (cases x)
  case (OpDeliver j i n)
  have "ul_lastUsed (fst (snd (deliver i n (m, ct)))) = ul_lastUsed (fst ct)"
    for m :: "'a sub_manager" and ct :: "'b opc_client \<times> 'a"
    by (simp only: push_used snd_conv)
  then show ?thesis unfolding OpDeliver op_step.simps by (rule with_manager_clock)
next
  case (OpHandle j i)
  have "ul_lastUsed (fst (snd (handle_one (oe_ops env j) i (m, ct)))) = ul_lastUsed (fst ct)" for m ct
    by (simp only: push_used snd_conv)
  then show ?thesis unfolding OpHandle op_step.simps by (rule with_manager_clock)
qed simp_all

lemma pushes_clock:
  "list_all pushes xs \<Longrightarrow> map_option session_clock (op_sessions (fst (fold (op_step env) xs st)) k)
       = map_option session_clock (op_sessions (fst st) k)
     \<and> op_config (fst (fold (op_step env) xs st)) = op_config (fst st)
     \<and> op_closed (fst (fold (op_step env) xs st)) = op_closed (fst st)"
proof (induction xs arbitrary: st)
  case (Cons x xs)
  then show ?case using push_clock [of x env st k] by simp
qed simp

lemma reaped_first:
  assumes "op_sessions p k = Some s" "\<not> op_closed p" "session_due (op_config p) (oe_now env w) s"
  shows "op_sessions (fst (op_reaper_tick env ds (k # ks) (p, w))) k = None"
proof -
  define due where "due = filter (\<lambda>k. case op_sessions p k of None \<Rightarrow> False
      | Some s \<Rightarrow> session_due (op_config (fst (p, w))) (oe_now env (snd (p, w))) s) ks"
  have "op_reaper_tick env ds (k # ks) (p, w) = fold (reap_session env ds) due (reap_session env ds k (p, w))"
    using assms by (simp add: op_reaper_tick_def reapIdleSessions_def due_def)
  moreover have "op_keys (fold (reap_session env ds) due (reap_session env ds k (p, w))) \<subseteq> op_keys (reap_session env ds k (p, w))"
    using reap_fold_shrinks [of "reap_session env ds k (p, w)" env ds due] by (simp add: op_shrinks_def)
  moreover have "k \<notin> op_keys (reap_session env ds k (p, w))"
    using assms by (simp add: reap_session_def op_keys_def)
  ultimately have "k \<notin> op_keys (op_reaper_tick env ds (k # ks) (p, w))" by (simp only:) blast
  then show ?thesis by (simp only: op_keys_def domIff not_not)
qed

section \<open>The example\<close>

abbreviation control_tag :: tag where
  "control_tag \<equiv> node_tag\<lparr>tag_Priority := 1\<rparr>"

abbreviation tag_cells :: cells where
  "tag_cells \<equiv> [''ns=2;s=T'' \<mapsto> VInt32 5]"

abbreviation control_point :: "string \<Rightarrow> data_point" where
  "control_point i \<equiv> processReadResult 0 i \<lparr>dv_Status = StatusOK, dv_Value = Some (VInt32 5), dv_SourceTimestamp = None\<rparr> control_tag"

lemma control_tag_read:
  "fst (opc_ReadTags cell_ops [control_tag] (open_opc_client\<lparr>ul_deviceID := i\<rparr>, tag_cells)) = Ok [control_point i]"
  by (simp add: opc_ReadTags_def opc_touch_def opc_map_def open_opc_client_def getNodeIDForTag_def node_tag_def zero_tag_def
      getNodeID_def cell_ops_def process_results_def)

lemma shared_enter: "enter_load shared_env (load_limits shared_env shared_config) (Suc 0) k (StateClosed, bs) w = (Ok None, w)"
  by (simp add: enter_load_def Let_def shared_env_def breaker_seen_def told_breaker_def initial_load_def numeral_eq_Suc endpoint_full_def session_open_def load_limits_def shared_config_def admit_def)

lemma shared_env_fields:
  "oe_pki shared_env w = sample_pki" "oe_ops shared_env k = cell_ops" "oe_breaker shared_env = told_breaker"
  "oe_now shared_env w = 400 * second" "oe_load shared_env w = initial_load 1 1" "oe_put_load shared_env s w = w"
  by (simp_all add: shared_env_def)

lemma shared_pool_fields:
  "op_config shared_pool = shared_config" "op_closed shared_pool = False"
  "op_sessions shared_pool = [shared_key \<mapsto> shared_session]"
  "op_devices shared_pool i = (if i = ''a'' then Some \<lparr>bn_Device = shared_device ''a'', bn_EndpointKey = shared_key,
     bn_breaker = (StateClosed, [])\<rparr> else None)"
  by (simp_all add: shared_pool_def)

lemma connected_session_reused:
  assumes "ul_connected (os_client s)"
  shows "getClientFromExistingSession env d k s (p, w) = (Ok (), (bind_device env d k s p, w))"
proof -
  have "ul_connected (os_client (the (op_sessions (bind_device env d k s p) k)))" using assms by (simp add: bind_device_def)
  then show ?thesis by (simp add: getClientFromExistingSession_def Let_def)
qed

lemma member_get:
  assumes "\<not> op_closed p" "op_devices p (dev_ID d) = Some bn" "bn_EndpointKey bn = endpointKey (oe_pki env w) (op_config p) d"
    and "op_sessions p (bn_EndpointKey bn) = Some s" "dev_ID d \<in> os_devices s" "ul_connected (os_client s)"
  shows "opc_GetClient env d (p, w) = (Ok (), (p, w))"
proof -
  have "put_session (bn_EndpointKey bn) s p = p" using assms(4) by (simp add: fun_upd_idem)
  then show ?thesis
    using assms connected_session_reused [OF assms(6), of env d "bn_EndpointKey bn" p w]
    by (simp add: opc_GetClient_def Let_def leave_old_endpoint_def bind_device_def)
qed

lemma shared_get:
  "opc_GetClient shared_env (shared_device ''b'') (shared_pool, w)
     = (Ok (), (bind_device shared_env (shared_device ''b'') shared_key shared_session shared_pool, w))"
proof -
  have c: "ul_connected (os_client shared_session)" by (simp add: shared_session_def open_opc_client_def)
  have i: "dev_ID (shared_device ''b'') = ''b''" by (simp add: shared_device_def)
  have l: "leave_old_endpoint ''b'' shared_key shared_pool = shared_pool" by (simp add: leave_old_endpoint_def shared_pool_fields)
  show ?thesis
    by (simp add: opc_GetClient_def Let_def shared_env_fields shared_key_same [of "''b''"] i l connected_session_reused [OF c]
        shared_pool_fields)
qed

lemma shared_bind:
  defines "q \<equiv> bind_device shared_env (shared_device ''b'') shared_key shared_session shared_pool"
  shows "op_config q = shared_config" "op_devices q (dev_ID (shared_device ''b'')) = Some (new_binding shared_env (shared_device ''b'') shared_key)"
    "op_sessions q shared_key = Some (shared_session\<lparr>os_devices := {''a'', ''b''}\<rparr>)"
  by (auto simp: q_def bind_device_def shared_session_def shared_device_def shared_pool_fields)

lemma shared_read:
  "fst (op_ReadTags shared_env (shared_device ''b'') [control_tag] (shared_pool, tag_cells)) = Ok [control_point ''a'']"
proof -
  have p: "top_priority [control_tag] = Suc 0" by (simp add: top_priority_def)
  have c: "os_client (shared_session\<lparr>os_devices := D\<rparr>) = open_opc_client\<lparr>ul_deviceID := ''a''\<rparr>"
    "os_breaker (shared_session\<lparr>os_devices := D\<rparr>) = (StateClosed, [])" for D by (simp_all add: shared_session_def)
  have b: "bn_EndpointKey (new_binding shared_env d k) = k" "bn_breaker (new_binding shared_env d k) = (StateClosed, [])" for d k
    by (simp_all add: new_binding_def shared_env_fields told_breaker_def)
  have r: "read_within_limit cell_ops (op_MaxNodesPerRead shared_config) ts st = opc_ReadTags cell_ops ts st"
    if "length ts \<le> 1" for ts st using that by (simp add: read_within_limit_def shared_config_def)
  obtain st where st: "opc_ReadTags cell_ops [control_tag] (open_opc_client\<lparr>ul_deviceID := ''a''\<rparr>, tag_cells) = (Ok [control_point ''a''], st)"
    using control_tag_read by (metis prod.collapse)
  show ?thesis
    by (cases st) (simp add: Let_def op_ReadTags_def p opc_request_def shared_get shared_bind b c shared_enter r st shared_env_fields shared_pool_fields
       executeWithTwoTierBreaker_def Execute_def either_result_def told_breaker_def)
qed

section \<open>Properties\<close>

text \<open>
  The points read for a device over a shared session carry the device ID of the session's client: that
  of the device that opened the session (\<open>created_session\<close>), whichever device they were read for.
\<close>

theorem shared_session_device_id:
  assumes "bindings_agree p" "op_sessions p k = Some s" "k = endpointKey (oe_pki env w) (op_config p) d"
    and "op_ReadTags env d ts (p, w) = (Ok dps, st')"
  shows "list_all (\<lambda>x. dp_DeviceID x = ul_deviceID (os_client s)) dps"
  using read_device_id [OF assms] by (simp add: list_all_iff)

theorem shared_session_device_id_witness:
  "\<exists>dps. fst (op_ReadTags shared_env (shared_device ''b'') [control_tag] (shared_pool, tag_cells)) = Ok dps
     \<and> length dps = 1 \<and> list_all (\<lambda>x. dp_DeviceID x = ''a'') dps"
proof -
  obtain st' where r: "op_ReadTags shared_env (shared_device ''b'') [control_tag] (shared_pool, tag_cells) = (Ok [control_point ''a''], st')"
    using shared_read by (metis prod.collapse)
  have "list_all (\<lambda>x. dp_DeviceID x = ul_deviceID (os_client shared_session)) [control_point ''a'']"
    by (rule shared_session_device_id [OF shared_agree _ _ r])
      (simp_all add: shared_pool_fields shared_env_fields shared_key_same [of "''b''"])
  then show ?thesis using r by (simp add: shared_session_def)
qed

text \<open>
  The endpoint's breaker counts the errors of single devices: whatever error comes out of a device's
  breaker, its own refusal or an error that \<open>IsDeviceError\<close> puts down to the device, the endpoint's
  breaker is told of a failure.
\<close>

theorem device_errors_count_for_endpoint:
  assumes "bl_before (oe_breaker env) (oe_now env (snd cw)) eb = (None, eb1)"
    and "Execute (oe_breaker env) (\<lambda>s. oe_now env (snd s)) fn db cw = (Ok (x, Some e), db1, cw1)"
  shows "executeWithTwoTierBreaker env i eb db fn cw
    = (Err (two_tier_error env i (oe_now env (snd cw1)) (bl_after (oe_breaker env) (oe_now env (snd cw1)) False eb1) db1 e),
       bl_after (oe_breaker env) (oe_now env (snd cw1)) False eb1, db1, cw1)"
  using assms by (cases cw1) (simp add: executeWithTwoTierBreaker_def Execute_def [of "oe_breaker env" "\<lambda>(d, s). oe_now env (snd s)"]
      split: option.split)

theorem device_errors_count_for_endpoint_witness:
  "let e = Plain ''BadNodeIdUnknown''; fn = (\<lambda>s. (Ok (None :: data_point option, Some e), s)) in
   IsDeviceError e \<and> \<not> IsEndpointError e
   \<and> fst (snd (executeWithTwoTierBreaker shared_env ''b'' (StateClosed, [True]) (StateClosed, []) fn (open_opc_client, Map.empty)))
       = (StateClosed, [True, False])
   \<and> fst (snd (executeWithTwoTierBreaker shared_env ''b'' (StateClosed, [True]) (StateOpen, []) fn (open_opc_client, Map.empty)))
       = (StateClosed, [True, False])"
proof -
  let ?e = "Plain ''BadNodeIdUnknown''"
  let ?fn = "\<lambda>s :: (cells, string) opc_state. (Ok (None :: data_point option, Some ?e), s)"
  have "IsDeviceError ?e \<and> \<not> IsEndpointError ?e"
    by (simp add: IsDeviceError_def IsEndpointError_def mentions_any_def opc_contains_iff)
  moreover have "fst (snd (executeWithTwoTierBreaker shared_env ''b'' (StateClosed, [True]) (StateClosed, []) ?fn (open_opc_client, Map.empty)))
       = (StateClosed, [True, False])"
    by (subst device_errors_count_for_endpoint [where e = ?e and ?eb1.0 = "(StateClosed, [True])"])
      (simp_all add: Execute_def shared_env_fields told_breaker_def)
  moreover have "fst (snd (executeWithTwoTierBreaker shared_env ''b'' (StateClosed, [True]) (StateOpen, []) ?fn (open_opc_client, Map.empty)))
       = (StateClosed, [True, False])"
    by (subst device_errors_count_for_endpoint [where e = BreakerOpenState and ?eb1.0 = "(StateClosed, [True])"])
      (simp_all add: Execute_def shared_env_fields told_breaker_def)
  ultimately show ?thesis by (simp only: Let_def simp_thms)
qed

text \<open>
  C39: Publishing does not keep a session: whatever notifications are delivered and handled, a session with
  active subscriptions is reaped once the idle timeout has passed since its last request and since
  its last successful subscribe call.
\<close>

theorem subscribed_session_reaped:
  assumes "op_sessions p k = Some s" "\<not> op_closed p" "list_all pushes xs" "fold (op_step env) xs (p, w) = (q, w1)"
    and "op_IdleTimeout (op_config p) \<le> time_sub (oe_now env w1) (ul_lastUsed (os_client s))"
    and "op_IdleTimeout (op_config p) \<le> time_sub (oe_now env w1) (os_lastPublishTime s)"
  shows "op_sessions (fst (op_reaper_tick env ds (k # ks) (q, w1))) k = None"
proof -
  have q: "map_option session_clock (op_sessions q k) = Some (session_clock s)" "op_config q = op_config p" "\<not> op_closed q"
    using pushes_clock [OF assms(3), of env "(p, w)" k] assms(1,2,4) by simp_all
  then obtain s1 where s1: "op_sessions q k = Some s1" "session_clock s1 = session_clock s" by auto
  have "session_due (op_config q) (oe_now env w1) s"
    using assms(5,6) q(2) by (simp add: session_due_def hasRecentActivity_def)
  then show ?thesis using reaped_first [OF s1(1) q(3)] due_by_clock [OF s1(2)] by blast
qed

theorem subscribed_session_reaped_witness:
  "op_sessions (fst (op_reaper_tick shared_env [] [shared_key]
     (fold (op_step shared_env) [OpDeliver shared_key ''a'' NoValue, OpHandle shared_key ''a''] (shared_pool, Map.empty)))) shared_key = None"
proof -
  let ?xs = "[OpDeliver shared_key ''a'' NoValue, OpHandle shared_key ''a'']"
  obtain q w1 where f: "fold (op_step shared_env) ?xs (shared_pool, Map.empty) = (q, w1)" by (rule prod.exhaust)
  have "op_sessions (fst (op_reaper_tick shared_env [] [shared_key] (q, w1))) shared_key = None"
    by (rule subscribed_session_reaped [where s = shared_session, OF _ _ _ f])
      (simp_all add: shared_pool_fields shared_env_fields shared_config_def shared_session_def open_opc_client_def time_sub_def)
  then show ?thesis by (simp only: f)
qed

text \<open>
  While an endpoint's breaker is open, its requests are refused before they are counted: the error is
  \<open>ErrCircuitBreakerOpen\<close> and the session's client is not used.
\<close>

theorem open_endpoint_refused:
  assumes "opc_GetClient env d st = (Ok u, (p, w))" "op_devices p (dev_ID d) = Some bn"
    and "op_sessions p (bn_EndpointKey bn) = Some s" "bl_state (oe_breaker env) (oe_now env w) (os_breaker s) = StateOpen"
    and "ls_context (oe_load env w) (ls_next (oe_load env w)) = None"
  shows "fst (opc_request env prio d fn st) = Err ErrCircuitBreakerOpen \<and> fst (snd (opc_request env prio d fn st)) = p"
  using assms by (simp add: opc_request_def Let_def enter_load_def breaker_seen_def session_open_def numeral_eq_Suc)

theorem open_endpoint_refused_witness:
  "fst (opc_request shared_env 1 (shared_device ''a'') (\<lambda>ops. opc_ReadTag ops node_tag)
     (put_session shared_key (shared_session\<lparr>os_breaker := (StateOpen, [])\<rparr>) shared_pool, Map.empty)) = Err ErrCircuitBreakerOpen"
proof -
  let ?s = "shared_session\<lparr>os_breaker := (StateOpen, [])\<rparr>" and ?d = "shared_device ''a''"
  let ?p = "put_session shared_key ?s shared_pool"
  have d: "dev_ID ?d = ''a''" by (simp add: shared_device_def)
  have "opc_GetClient shared_env ?d (?p, Map.empty) = (Ok (), (?p, Map.empty))"
    by (rule member_get [where s = ?s and bn = "\<lparr>bn_Device = ?d, bn_EndpointKey = shared_key, bn_breaker = (StateClosed, [])\<rparr>"])
      (simp_all add: d shared_pool_fields shared_env_fields shared_session_def open_opc_client_def)
  then show ?thesis
    using open_endpoint_refused [of shared_env ?d "(?p, Map.empty)" "()" ?p Map.empty _ ?s 1 "\<lambda>ops. opc_ReadTag ops node_tag"]
    by (simp add: d shared_pool_fields shared_env_fields told_breaker_def initial_load_def)
qed

lemma failed_connect_delay:
  assumes "base < 2 ^ 56"
  obtains t where "os_nextReconnectAt (opc_recordConnectResult now (Some e) base s) = Some t" "now + 5 * second \<le> t"
proof -
  let ?b = "reconnect_base e base" and ?n = "min (os_connectFailures s) 6"
  have b: "5 * second \<le> ?b" "?b < 2 ^ 56" using assms by (auto simp: reconnect_base_def Let_def)
  have n: "1 \<le> (2 :: int) ^ ?n" by simp
  have "(2 :: int) ^ ?n \<le> 2 ^ 6" by (rule power_increasing) simp_all
  then have "?b * 2 ^ ?n \<le> 2 ^ 56 * 2 ^ 6" using b by (intro mult_mono) auto
  moreover have "5 * second * 1 \<le> ?b * 2 ^ ?n" using b n by (intro mult_mono) auto
  ultimately have "wrap64 (?b * 2 ^ ?n) = ?b * 2 ^ ?n" "5 * second \<le> ?b * 2 ^ ?n"
    by (auto intro!: wrap64_id)
  then show ?thesis
    using that by (auto simp: opc_recordConnectResult_def Let_def)
qed

text \<open>
  After a failed connection attempt the endpoint is left alone for at least five seconds: requests of any of
  its devices are refused with the last error, and nothing is sent.
\<close>

theorem endpoint_backs_off:
  assumes "op_sessions p k = Some (opc_recordConnectResult now (Some e) base s)" "\<not> ul_connected (os_client s)"
    and "k = endpointKey (oe_pki env w) (op_config p) d" "\<not> op_closed p" "base < 2 ^ 56" "oe_now env w < now + 5 * second"
  shows "fst (opc_GetClient env d (p, w)) = Err (backoff_error (Some e)) \<and> snd (snd (opc_GetClient env d (p, w))) = w"
proof -
  let ?s = "opc_recordConnectResult now (Some e) base s" and ?p1 = "leave_old_endpoint (dev_ID d) k p"
  have keep: "op_sessions ?p1 k = Some ?s" using assms(1) by (auto simp: leave_old_endpoint_def split: option.splits)
  obtain t where t: "os_nextReconnectAt ?s = Some t" "now + 5 * second \<le> t" by (rule failed_connect_delay [OF assms(5)])
  define s1 where "s1 = the (op_sessions (bind_device env d k ?s ?p1) k)"
  have s1: "os_client s1 = os_client ?s" "os_nextReconnectAt s1 = Some t" "os_lastError s1 = os_lastError ?s"
    using t(1) by (auto simp: s1_def bind_device_def)
  moreover have "os_lastError ?s = Some e" "os_client ?s = os_client s"
    by (simp_all add: opc_recordConnectResult_def Let_def)
  ultimately have "getClientFromExistingSession env d k ?s (?p1, w)
      = (Err (backoff_error (Some e)), (bind_device env d k ?s ?p1, w))"
    using assms(2,6) t(2) by (simp add: getClientFromExistingSession_def Let_def s1_def [symmetric] opc_canAttemptReconnect_def)
  then show ?thesis using assms(3,4) keep by (simp add: opc_GetClient_def Let_def)
qed

theorem endpoint_backs_off_witness:
  "fst (opc_GetClient shared_env (shared_device ''b'') (put_session shared_key
     (opc_recordConnectResult (399 * second) (Some ErrConnectionClosed) second
        (shared_session\<lparr>os_client := open_opc_client\<lparr>ul_connected := False\<rparr>\<rparr>)) shared_pool, Map.empty))
   = Err (backoff_error (Some ErrConnectionClosed))"
  by (rule conjunct1, rule endpoint_backs_off [where now = "399 * second" and base = second
      and s = "shared_session\<lparr>os_client := open_opc_client\<lparr>ul_connected := False\<rparr>\<rparr>" and k = shared_key])
    (simp_all add: shared_pool_fields shared_env_fields shared_key_same [of "''b''"] shared_session_def)

end
