(* ===== verification/Go_Float_Exact.thy ===== *)
theory Go_Float_Exact
  imports Go_Float
begin

text \<open>
  Floating-point computations that do not round: products of integers below \<open>2^53\<close> and what is a
  power of two away from one.
\<close>

lemma f64_enc_scaled:
  assumes "0 < n" "n < 2 ^ 53" "- 1000 \<le> e" "e \<le> 900" "53 \<le> k + bitlen n"
  obtains j where "j = 53 - bitlen n" "canonical f64 (n * 2 ^ j) (e - int j)"
    "f64_dec (f64_enc (FFin s (n * 2 ^ k) (e - int k))) = FFin s (n * 2 ^ j) (e - int j)"
proof -
  have m: "0 < n" "n < 2 ^ (fbits f64 + 1)" using assms by (simp_all add: f64_def)
  have e: "emin f64 \<le> e" "e - emin f64 + 1 < 2 ^ ebits f64 - 1" using assms by (simp_all add: float_consts)
  let ?t = "last_place f64 n e"
  define j where "j = nat (e - ?t)"
  have c: "canonical f64 (n * 2 ^ j) ?t" unfolding j_def by (rule canonical_normalise(1) [OF m e])
  have le: "?t \<le> e" by (rule canonical_normalise(2) [OF m e])
  have t: "?t = e - int j" using le by (simp add: j_def)
  have b: "1 \<le> bitlen n" "bitlen n \<le> 53" using assms(1) bitlen_le [OF assms(2)] by (cases "bitlen n"; simp)+
  then have "?t = e + int (bitlen n) - 53" using assms(3) by (simp add: last_place_def float_consts)
  then have j: "j = 53 - bitlen n" using b t by simp
  have nk: "n * 2 ^ k = (n * 2 ^ j) * 2 ^ (k - j)" using j assms(5) b by (simp flip: power_add)
  have ek: "e - int k = ?t - int (k - j)" using j assms(5) b t by simp
  have "fp_round f64 (n * 2 ^ k) (e - int k) = mag_of f64 (n * 2 ^ j) ?t"
    unfolding nk ek by (rule fp_round_scaled [OF c])
  then have "f64_dec (f64_enc (FFin s (n * 2 ^ k) (e - int k))) = FFin s (n * 2 ^ j) ?t"
    by (rule f64_dec_enc_FFin [OF c])
  then show ?thesis using that [OF j] c t by simp
qed

text \<open>The number that an integer becomes.\<close>

lemma f64_of_nat_dec:
  assumes "0 < n" "n < 2 ^ 53"
  shows "f64_dec (f64_of_int (int n)) = FFin False (n * 2 ^ (53 - bitlen n)) (- int (53 - bitlen n))"
    and "canonical f64 (n * 2 ^ (53 - bitlen n)) (- int (53 - bitlen n))"
proof -
  let ?t = "last_place f64 n 0"
  have m: "0 < n" "n < 2 ^ (fbits f64 + 1)" using assms by (simp_all add: f64_def)
  have e: "emin f64 \<le> 0" "0 - emin f64 + 1 < 2 ^ ebits f64 - 1" by (simp_all add: float_consts)
  have "bitlen n \<le> 53" by (rule bitlen_le [OF assms(2)])
  then have t: "?t = - int (53 - bitlen n)" "nat (0 - ?t) = 53 - bitlen n"
    by (simp_all add: last_place_def float_consts)
  show "canonical f64 (n * 2 ^ (53 - bitlen n)) (- int (53 - bitlen n))"
    using canonical_normalise(1) [OF m e, unfolded t(2)] unfolding t(1) .
  show "f64_dec (f64_of_int (int n)) = FFin False (n * 2 ^ (53 - bitlen n)) (- int (53 - bitlen n))"
    using f64_dec_enc_FFin [OF canonical_normalise(1) [OF m e] fp_round_normalise [OF m e], of False, unfolded t(2)]
    unfolding t(1) by (simp add: f64_of_int_def fp_of_int_def)
qed

lemma bitlen_mult:
  assumes "0 < m" "0 < n"
  shows "bitlen m + bitlen n \<le> Suc (bitlen (m * n))"
proof -
  have "2 ^ (bitlen m + bitlen n) \<le> (2 * m) * (2 * n)"
    unfolding power_add by (rule mult_le_mono [OF bitlen_lower [OF assms(1)] bitlen_lower [OF assms(2)]])
  also have "\<dots> = 4 * (m * n)" by simp
  also have "\<dots> < 2 ^ (bitlen (m * n) + 2)" using bitlen_upper [of "m * n"] by simp
  finally have "bitlen m + bitlen n < bitlen (m * n) + 2" by (rule power_less_imp_less_exp [rotated]) simp
  then show ?thesis by simp
qed

lemma f64_mul_nat:
  assumes "0 < m" "0 < n" "m * n < 2 ^ 53"
  shows "f64_mul (f64_of_int (int m)) (f64_of_int (int n)) = f64_of_int (int (m * n))"
proof -
  have b: "m < 2 ^ 53" "n < 2 ^ 53" using assms(1,2) by (intro le_less_trans [OF _ assms(3)]; simp)+
  have mn: "0 < m * n" using assms by simp
  let ?k = "(53 - bitlen m) + (53 - bitlen n)"
  have "bitlen m \<le> 53" "bitlen n \<le> 53" using b by (intro bitlen_le; simp)+
  then have k: "53 \<le> ?k + bitlen (m * n)" using bitlen_mult [OF assms(1,2)] bitlen_le [OF assms(3)] by simp
  obtain j where j: "j = 53 - bitlen (m * n)" "canonical f64 (m * n * 2 ^ j) (0 - int j)"
    "f64_dec (f64_enc (FFin False (m * n * 2 ^ ?k) (0 - int ?k))) = FFin False (m * n * 2 ^ j) (0 - int j)"
    using f64_enc_scaled [OF mn assms(3), of 0 ?k False] k by auto
  have "f64_mul (f64_of_int (int m)) (f64_of_int (int n)) = f64_enc (FFin False (m * n * 2 ^ ?k) (0 - int ?k))"
    unfolding f64_mul_def f64_of_nat_dec(1) [OF assms(1) b(1)] f64_of_nat_dec(1) [OF assms(2) b(2)]
    by (simp add: power_add algebra_simps)
  then have "f64_dec (f64_mul (f64_of_int (int m)) (f64_of_int (int n))) = f64_dec (f64_of_int (int (m * n)))"
    unfolding f64_of_nat_dec(1) [OF mn assms(3)] using j by simp
  moreover have "f64_dec (f64_of_int (int (m * n))) \<noteq> FNaN" unfolding f64_of_nat_dec(1) [OF mn assms(3)] by simp
  ultimately show ?thesis by (metis f64_enc_dec)
qed

lemma f64_div_nat:
  assumes "0 < m" "0 < n" "m * n < 2 ^ 53"
  shows "f64_div (f64_of_int (int (m * n))) (f64_of_int (int n)) = f64_of_int (int m)"
proof -
  have b: "m < 2 ^ 53" "n < 2 ^ 53" using assms(1,2) by (intro le_less_trans [OF _ assms(3)]; simp)+
  have mn: "0 < m * n" using assms by simp
  define u where "u = 53 - bitlen (m * n)"
  define t where "t = 53 - bitlen n"
  have bn: "bitlen n \<le> 53" by (rule bitlen_le [OF b(2)])
  have k: "fbits f64 + 3 + bitlen (n * 2 ^ t) = 108"
    using assms(2) bn by (simp add: bitlen_mult_pow2 t_def f64_def)
  define K where "K = u + 109 - t"
  have tK: "t \<le> u + 108" by (simp add: t_def)
  have w: "(2::nat) ^ u * 2 ^ 108 = 2 ^ (u + 108 - t) * 2 ^ t"
    using tK by (simp only: power_add [symmetric] le_add_diff_inverse2)
  have e: "m * n * 2 ^ u * 2 ^ 108 = (m * 2 ^ (u + 108 - t)) * (n * 2 ^ t)"
  proof -
    have "m * n * 2 ^ u * 2 ^ 108 = m * n * (2 ^ u * 2 ^ 108)" by (simp only: mult.assoc)
    then show ?thesis unfolding w by (simp only: mult_ac)
  qed
  have q: "(m * n * 2 ^ u * 2 ^ 108) div (n * 2 ^ t) = m * 2 ^ (u + 108 - t)"
    "(m * n * 2 ^ u * 2 ^ 108) mod (n * 2 ^ t) = 0"
    unfolding e using assms(2) by simp_all
  have KS: "K = Suc (u + 108 - t)" using tK by (simp add: K_def)
  have K: "2 * (m * 2 ^ (u + 108 - t)) = m * 2 ^ K" "- int u - - int t - int 108 - 1 = 0 - int K"
    unfolding KS using tK by simp_all
  have "fp_div f64 (FFin False (m * n * 2 ^ u) (- int u)) (FFin False (n * 2 ^ t) (- int t))
      = FFin False (m * 2 ^ K) (0 - int K)"
    unfolding fp_div.simps Let_def k q K [symmetric] using assms(2) by simp
  then have d: "f64_div (f64_of_int (int (m * n))) (f64_of_int (int n)) = f64_enc (FFin False (m * 2 ^ K) (0 - int K))"
    unfolding f64_div_def f64_of_nat_dec(1) [OF mn assms(3)] f64_of_nat_dec(1) [OF assms(2) b(2)] u_def t_def by simp
  have Kb: "53 \<le> K + bitlen m" using tK by (simp add: K_def t_def)
  have nn: "- 1000 \<le> (0::int)" "(0::int) \<le> 900" by simp_all
  obtain j where j: "j = 53 - bitlen m" "f64_dec (f64_enc (FFin False (m * 2 ^ K) (0 - int K))) = FFin False (m * 2 ^ j) (0 - int j)"
    by (rule f64_enc_scaled [OF assms(1) b(1) nn Kb])
  have "f64_dec (f64_div (f64_of_int (int (m * n))) (f64_of_int (int n))) = f64_dec (f64_of_int (int m))"
    unfolding d j(2) f64_of_nat_dec(1) [OF assms(1) b(1)] by (simp add: j(1))
  moreover have "f64_dec (f64_of_int (int m)) \<noteq> FNaN" unfolding f64_of_nat_dec(1) [OF assms(1) b(1)] by simp
  ultimately show ?thesis by (metis f64_enc_dec)
qed

end
