(* ===== verification/Go_Duration.thy ===== *)
theory Go_Duration
  imports S7_Address Go_Value Go_Float_Exact
begin

text \<open>
  \<open>time.Duration.String\<close> and \<open>time.ParseDuration\<close>, which the device configuration uses for every
  interval.  Strings are bytes: the micro sign is two of them.  \<open>String\<close> fills a buffer from its end;
  here the text already written is an argument.  \<open>ParseDuration\<close> adds the fraction of a term with
  floating-point arithmetic.  The lemmas show that this arithmetic is exact on what \<open>String\<close> writes, so
  that every duration is read back as it was.
\<close>

section \<open>Printing\<close>

fun fmtFrac :: "nat \<Rightarrow> nat \<Rightarrow> bool \<Rightarrow> string \<Rightarrow> string \<times> nat" where
  "fmtFrac 0 v p buf = (if p then CHR ''.'' # buf else buf, v)"
| "fmtFrac (Suc prec) v p buf =
     (let p' = (p \<or> v mod 10 \<noteq> 0)
      in fmtFrac prec (v div 10) p' (if p' then char_of (48 + v mod 10) # buf else buf))"

definition micro_sign :: string where
  "micro_sign = [CHR 0xC2, CHR 0xB5]"

definition print_small :: "nat \<Rightarrow> string \<Rightarrow> nat \<Rightarrow> string" where
  "print_small prec unit u = (case fmtFrac prec u False unit of (buf, v) \<Rightarrow> show_nat v @ buf)"

definition print_large :: "nat \<Rightarrow> string" where
  "print_large u = (case fmtFrac 9 u False ''s'' of (buf, v) \<Rightarrow>
     let buf1 = show_nat (v mod 60) @ buf; minutes = v div 60 in
     if minutes = 0 then buf1
     else
       let buf2 = show_nat (minutes mod 60) @ ''m'' @ buf1; hours = minutes div 60 in
       if hours = 0 then buf2 else show_nat hours @ ''h'' @ buf2)"

definition magnitude_text :: "nat \<Rightarrow> string" where
  "magnitude_text u =
     (if u < 10 ^ 9 then
        (if u < 10 ^ 3 then print_small 0 ''ns'' u
         else if u < 10 ^ 6 then print_small 3 (micro_sign @ ''s'') u
         else print_small 6 ''ms'' u)
      else print_large u)"

definition duration_String :: "duration \<Rightarrow> string" where
  "duration_String d =
     (let u = nat \<bar>d\<bar> in if u = 0 then ''0s'' else (if d < 0 then ''-'' else []) @ magnitude_text u)"

section \<open>Parsing\<close>

text \<open>The \<open>quote\<close> of package \<open>time\<close>.\<close>

definition lower_hex :: "nat \<Rightarrow> char" where
  "lower_hex n = char_of (if n < 10 then 48 + n else 87 + n)"

definition time_quote :: "string \<Rightarrow> string" where
  "time_quote s = ''\"'' @ concat (map (\<lambda>c. let n = (of_char c :: nat) in
       if 128 \<le> n \<or> n < 32 then [CHR 0x5C, CHR ''x'', lower_hex (n div 16), lower_hex (n mod 16)]
       else if c = CHR ''\"'' \<or> c = CHR 0x5C then [CHR 0x5C, c] else [c]) s) @ ''\"''"

definition invalid_duration :: "string \<Rightarrow> err" where
  "invalid_duration orig = Plain (''time: invalid duration '' @ time_quote orig)"

text \<open>\<open>None\<close> is the overflow error.\<close>

fun leadingInt :: "nat \<Rightarrow> string \<Rightarrow> (nat \<times> string) option" where
  "leadingInt x [] = Some (x, [])"
| "leadingInt x (c # cs) =
     (if \<not> is_digit c then Some (x, c # cs)
      else if 2 ^ 63 div 10 < x then None
      else if 2 ^ 63 < x * 10 + digit_val c then None
      else leadingInt (x * 10 + digit_val c) cs)"

text \<open>After an overflow the digits are skipped.\<close>

fun leadingFraction :: "nat \<Rightarrow> u64 \<Rightarrow> bool \<Rightarrow> string \<Rightarrow> nat \<times> u64 \<times> string" where
  "leadingFraction x scale overflow [] = (x, scale, [])"
| "leadingFraction x scale overflow (c # cs) =
     (if \<not> is_digit c then (x, scale, c # cs)
      else if overflow \<or> (2 ^ 63 - 1) div 10 < x \<or> 2 ^ 63 < x * 10 + digit_val c
      then leadingFraction x scale True cs
      else leadingFraction (x * 10 + digit_val c) (f64_mul scale (f64_of_int 10)) False cs)"

definition unitMap :: "string \<Rightarrow> nat option" where
  "unitMap u = map_of [(''ns'', 1), (micro_sign @ ''s'', 10 ^ 3), ([CHR 0xCE, CHR 0xBC, CHR ''s''], 10 ^ 3),
     (''us'', 10 ^ 3), (''ms'', 10 ^ 6), (''s'', 10 ^ 9), (''m'', 60 * 10 ^ 9), (''h'', 3600 * 10 ^ 9)] u"

text \<open>\<open>uint64(float64(f) * (float64(unit) / scale))\<close>, which stays below the largest unit.\<close>

definition fraction_part :: "nat \<Rightarrow> nat \<Rightarrow> u64 \<Rightarrow> nat" where
  "fraction_part f unit scale =
     (case fp_trunc (f64_dec (f64_mul (f64_of_int (int f)) (f64_div (f64_of_int (int unit)) scale))) of
        Some i \<Rightarrow> nat i | None \<Rightarrow> 0)"

definition number_end :: "char \<Rightarrow> bool" where
  "number_end c \<longleftrightarrow> c = CHR ''.'' \<or> is_digit c"

text \<open>The unit of a term, its value and the total so far: the rest of the loop's body.\<close>

definition parse_unit :: "string \<Rightarrow> nat \<Rightarrow> nat \<Rightarrow> u64 \<Rightarrow> nat \<Rightarrow> string \<Rightarrow> err + (nat \<times> string)" where
  "parse_unit orig v f scale d s =
     (let u = takeWhile (\<lambda>c. \<not> number_end c) s; rest = dropWhile (\<lambda>c. \<not> number_end c) s in
      if u = [] then Inl (Plain (''time: missing unit in duration '' @ time_quote orig))
      else case unitMap u of
        None \<Rightarrow> Inl (Plain (''time: unknown unit '' @ time_quote u @ '' in duration '' @ time_quote orig))
      | Some unit \<Rightarrow>
          if 2 ^ 63 div unit < v then Inl (invalid_duration orig)
          else
            let v1 = v * unit; v2 = (if 0 < f then (v1 + fraction_part f unit scale) mod 2 ^ 64 else v1) in
            if 0 < f \<and> 2 ^ 63 < v2 then Inl (invalid_duration orig)
            else let d1 = (d + v2) mod 2 ^ 64 in
              if 2 ^ 63 < d1 then Inl (invalid_duration orig) else Inr (d1, rest))"

text \<open>The digits of a term: the integer part, the fraction's digits and its scale, and what follows.\<close>

definition parse_number :: "string \<Rightarrow> (nat \<times> nat \<times> u64 \<times> string) option" where
  "parse_number s =
     (case leadingInt 0 s of
        None \<Rightarrow> None
      | Some (v, s1) \<Rightarrow>
          let pre = (length s \<noteq> length s1) in
          if s1 \<noteq> [] \<and> hd s1 = CHR ''.'' then
            (case leadingFraction 0 f64_one False (tl s1) of (f, scale, s2) \<Rightarrow>
               if pre \<or> length (tl s1) \<noteq> length s2 then Some (v, f, scale, s2) else None)
          else if pre then Some (v, 0, f64_one, s1) else None)"

text \<open>The body of the loop over the terms.\<close>

definition parse_term :: "string \<Rightarrow> nat \<Rightarrow> string \<Rightarrow> err + (nat \<times> string)" where
  "parse_term orig d s =
     (if \<not> number_end (hd s) then Inl (invalid_duration orig)
      else case parse_number s of
        None \<Rightarrow> Inl (invalid_duration orig)
      | Some (v, f, scale, s1) \<Rightarrow> parse_unit orig v f scale d s1)"

lemma leadingInt_length: "leadingInt x s = Some (v, s1) \<Longrightarrow> length s1 \<le> length s"
  by (induction x s rule: leadingInt.induct) (auto split: if_splits)

lemma leadingFraction_length: "leadingFraction x sc ov s = (f, scale, s1) \<Longrightarrow> length s1 \<le> length s"
  by (induction x sc ov s rule: leadingFraction.induct) (auto split: if_splits)

lemma parse_unit_length: "parse_unit orig v f scale d s = Inr (d1, s1) \<Longrightarrow> length s1 < length s"
proof -
  assume "parse_unit orig v f scale d s = Inr (d1, s1)"
  then have "takeWhile (\<lambda>c. \<not> number_end c) s \<noteq> []" "s1 = dropWhile (\<lambda>c. \<not> number_end c) s"
    by (auto simp: parse_unit_def Let_def split: option.splits if_splits)
  then have "s = takeWhile (\<lambda>c. \<not> number_end c) s @ s1" "takeWhile (\<lambda>c. \<not> number_end c) s \<noteq> []" by simp_all
  then show ?thesis by (metis length_append length_greater_0_conv less_add_same_cancel2)
qed

lemma parse_number_length:
  assumes "parse_number s = Some (v, f, scale, s1)"
  shows "length s1 \<le> length s"
proof -
  obtain v' r where r: "leadingInt 0 s = Some (v', r)"
    using assms by (cases "leadingInt 0 s") (auto simp: parse_number_def)
  obtain f' sc s2 where f: "leadingFraction 0 f64_one False (tl r) = (f', sc, s2)"
    by (cases "leadingFraction 0 f64_one False (tl r)")
  have "s1 = s2 \<or> s1 = r" using assms by (simp add: parse_number_def r f Let_def split: if_splits)
  then show ?thesis using leadingInt_length [OF r] leadingFraction_length [OF f] by auto
qed

lemma parse_term_length:
  assumes "parse_term orig d s = Inr (d1, s1)"
  shows "length s1 < length s"
proof -
  obtain v f sc r where r: "parse_number s = Some (v, f, sc, r)"
    using assms by (cases "parse_number s") (auto simp: parse_term_def split: if_splits)
  then have "parse_unit orig v f sc d r = Inr (d1, s1)"
    using assms by (simp add: parse_term_def split: if_splits)
  then show ?thesis using parse_unit_length parse_number_length [OF r] by (meson less_le_trans)
qed

function parse_terms :: "string \<Rightarrow> nat \<Rightarrow> string \<Rightarrow> err + nat" where
  "parse_terms orig d s =
     (if s = [] then Inr d
      else case parse_term orig d s of Inl e \<Rightarrow> Inl e | Inr (d1, s1) \<Rightarrow> parse_terms orig d1 s1)"
  by pat_completeness auto
termination
  by (relation "measure (\<lambda>(orig, d, s). length s)") (auto dest: parse_term_length)

declare parse_terms.simps [simp del]

definition strip_sign :: "string \<Rightarrow> bool \<times> string" where
  "strip_sign s = (case s of
       [] \<Rightarrow> (False, [])
     | c # cs \<Rightarrow> if c = CHR ''-'' \<or> c = CHR ''+'' then (c = CHR ''-'', cs) else (False, s))"

definition ParseDuration :: "string \<Rightarrow> err + duration" where
  "ParseDuration orig = (case strip_sign orig of (neg, s) \<Rightarrow>
     if s = ''0'' then Inr 0
     else if s = [] then Inl (invalid_duration orig)
     else case parse_terms orig 0 s of
       Inl e \<Rightarrow> Inl e
     | Inr d \<Rightarrow> if neg then Inr (- int d)
         else if 2 ^ 63 - 1 < d then Inl (invalid_duration orig) else Inr (int d))"

section \<open>What the fraction printer writes\<close>

fun pad :: "nat \<Rightarrow> nat \<Rightarrow> string" where
  "pad 0 v = []"
| "pad (Suc p) v = pad p (v div 10) @ [char_of (48 + v mod 10)]"

lemma pad_length [simp]: "length (pad p v) = p"
  by (induction p arbitrary: v) auto

lemma pad_digits: "list_all is_digit (pad p v)"
  by (induction p arbitrary: v) (auto simp: is_digit_char_of)

lemma mod_pow10_Suc: "v mod 10 ^ Suc p = v div 10 mod 10 ^ p * 10 + v mod 10" for v :: nat
  by (simp add: mod_mult2_eq)

lemma pad_val: "digits_val 0 (pad p v) = v mod 10 ^ p"
  by (induction p arbitrary: v) (simp_all add: digits_val_append digit_val_char_of mod_pow10_Suc del: power_Suc)

lemma fmtFrac_True: "fmtFrac p v True buf = (CHR ''.'' # pad p v @ buf, v div 10 ^ p)"
  by (induction p arbitrary: v buf) (simp_all add: div_mult2_eq)

text \<open>The fraction's digits, the trailing zeros left out.\<close>

definition fraction_text :: "nat \<Rightarrow> nat \<Rightarrow> string \<Rightarrow> bool" where
  "fraction_text p r t \<longleftrightarrow> (if r = 0 then t = []
     else \<exists>ds. t = CHR ''.'' # ds \<and> list_all is_digit ds \<and> ds \<noteq> [] \<and> length ds \<le> p
       \<and> digits_val 0 ds * 10 ^ (p - length ds) = r)"

lemma fmtFrac_text:
  obtains t where "fmtFrac p v False buf = (t @ buf, v div 10 ^ p)" "fraction_text p (v mod 10 ^ p) t"
proof -
  have "\<exists>t. fmtFrac p v False buf = (t @ buf, v div 10 ^ p) \<and> fraction_text p (v mod 10 ^ p) t"
  proof (induction p arbitrary: v buf)
    case 0
    show ?case by (simp add: fraction_text_def)
  next
    case (Suc p)
    show ?case
    proof (cases "v mod 10 = 0")
      case True
      obtain t where t: "fmtFrac p (v div 10) False buf = (t @ buf, v div 10 div 10 ^ p)"
        "fraction_text p (v div 10 mod 10 ^ p) t" using Suc.IH by blast
      have m: "v mod 10 ^ Suc p = v div 10 mod 10 ^ p * 10" using True by (simp add: mod_pow10_Suc del: power_Suc)
      have "fraction_text (Suc p) (v mod 10 ^ Suc p) t"
      proof (cases "v div 10 mod 10 ^ p = 0")
        case True
        then show ?thesis using t(2) unfolding m by (simp add: fraction_text_def)
      next
        case False
        then obtain ds where ds: "t = CHR ''.'' # ds" "list_all is_digit ds" "ds \<noteq> []" "length ds \<le> p"
          "digits_val 0 ds * 10 ^ (p - length ds) = v div 10 mod 10 ^ p" using t(2) by (auto simp: fraction_text_def)
        have "digits_val 0 ds * 10 ^ (Suc p - length ds) = v div 10 mod 10 ^ p * 10"
          using ds(4,5) by (simp add: Suc_diff_le)
        then show ?thesis using ds False unfolding m by (auto simp: fraction_text_def)
      qed
      moreover have "fmtFrac (Suc p) v False buf = (t @ buf, v div 10 ^ Suc p)"
        using True t(1) by (simp add: div_mult2_eq)
      ultimately show ?thesis by blast
    next
      case False
      have "v mod 10 ^ Suc p \<noteq> 0" using False by (simp add: mod_pow10_Suc del: power_Suc)
      then have "fraction_text (Suc p) (v mod 10 ^ Suc p) (CHR ''.'' # pad (Suc p) v)"
        using pad_digits [of "Suc p" v] pad_val [of "Suc p" v] unfolding fraction_text_def
        by (metis diff_self_eq_0 le_refl mult_1_right pad_length power_0 list.size(3) old.nat.distinct(2))
      moreover have "fmtFrac (Suc p) v False buf = ((CHR ''.'' # pad (Suc p) v) @ buf, v div 10 ^ Suc p)"
        using False by (simp add: fmtFrac_True div_mult2_eq)
      ultimately show ?thesis by blast
    qed
  qed
  then show ?thesis using that by blast
qed

section \<open>Reading numbers\<close>

lemma digits_val_ge: "x * 10 ^ length ds \<le> digits_val x ds"
proof (induction ds arbitrary: x)
  case (Cons c cs)
  have "x * 10 ^ length (c # cs) \<le> (x * 10 + digit_val c) * 10 ^ length cs" by (simp add: algebra_simps)
  also have "\<dots> \<le> digits_val x (c # cs)" using Cons.IH by simp
  finally show ?case .
qed simp

lemma digits_val_mono: "x \<le> digits_val x ds"
  using digits_val_ge [of x ds] by (metis le_trans mult_le_mono2 mult_1_right one_le_numeral one_le_power)

definition stops :: "string \<Rightarrow> bool" where
  "stops s \<longleftrightarrow> s = [] \<or> \<not> is_digit (hd s)"

lemma leadingInt_digits:
  "list_all is_digit ds \<Longrightarrow> stops rest \<Longrightarrow> digits_val x ds \<le> 2 ^ 63
     \<Longrightarrow> leadingInt x (ds @ rest) = Some (digits_val x ds, rest)"
proof (induction ds arbitrary: x)
  case Nil
  then show ?case by (cases rest) (auto simp: stops_def)
next
  case (Cons c cs)
  have "x * 10 + digit_val c \<le> 2 ^ 63" using Cons.prems(3) digits_val_mono [of "x * 10 + digit_val c" cs] by simp
  moreover from this have "x \<le> 2 ^ 63 div 10" by simp
  ultimately show ?case using Cons by simp
qed

lemma leadingFraction_digits:
  "list_all is_digit ds \<Longrightarrow> stops rest \<Longrightarrow> digits_val x ds < 10 ^ 15 \<Longrightarrow> k + length ds \<le> 15
     \<Longrightarrow> leadingFraction x (f64_of_int (int (10 ^ k))) False (ds @ rest)
       = (digits_val x ds, f64_of_int (int (10 ^ (k + length ds))), rest)"
proof (induction ds arbitrary: x k)
  case Nil
  then show ?case by (cases rest) (auto simp: stops_def)
next
  case (Cons c cs)
  have a: "x * 10 + digit_val c < 10 ^ 15" using Cons.prems(3) digits_val_mono [of "x * 10 + digit_val c" cs] by simp
  have "(10::nat) ^ k * 10 = 10 ^ Suc k" by simp
  also have "\<dots> \<le> 10 ^ 15" using Cons.prems(4) by (intro power_increasing) auto
  also have "\<dots> < 2 ^ 53" by simp
  finally have "(10::nat) ^ k * 10 < 2 ^ 53" .
  then have "f64_mul (f64_of_int (int (10 ^ k))) (f64_of_int 10) = f64_of_int (int (10 ^ Suc k))"
    using f64_mul_nat [of "10 ^ k" 10] by (simp add: mult.commute)
  then show ?case using Cons.IH [of "x * 10 + digit_val c" "Suc k"] Cons.prems a by simp
qed

section \<open>Reading a term\<close>

lemma f64_of_int_1: "f64_of_int 1 = f64_one"
  by (simp add: f64_of_int_def fp_of_int_def f64_enc_def fp_encode_def fp_round_def last_place_def float_consts
      bitlen_numeral Let_def)

lemma fraction_part_exact:
  assumes "0 < f" "j \<le> p" "p \<le> 15" "f * 10 ^ (p - j) < 2 ^ 53"
  shows "fraction_part f (10 ^ p) (f64_of_int (int (10 ^ j))) = f * 10 ^ (p - j)"
proof -
  have w: "(10::nat) ^ p = 10 ^ (p - j) * 10 ^ j" using assms(2) by (simp flip: power_add)
  have "(10::nat) ^ p \<le> 10 ^ 15" using assms(3) by (intro power_increasing) auto
  also have "\<dots> < 2 ^ 53" by simp
  finally have lt: "(10::nat) ^ (p - j) * 10 ^ j < 2 ^ 53" unfolding w .
  have "f64_div (f64_of_int (int (10 ^ p))) (f64_of_int (int (10 ^ j))) = f64_of_int (int (10 ^ (p - j)))"
    unfolding w by (rule f64_div_nat [OF _ _ lt]) simp_all
  moreover have "f64_mul (f64_of_int (int f)) (f64_of_int (int (10 ^ (p - j)))) = f64_of_int (int (f * 10 ^ (p - j)))"
    by (rule f64_mul_nat [OF assms(1) _ assms(4)]) simp
  moreover have "fp_trunc (f64_dec (f64_of_int (int (f * 10 ^ (p - j))))) = Some (int (f * 10 ^ (p - j)))"
  proof (rule f64_of_int_exact)
    have "int (f * 10 ^ (p - j)) < int (2 ^ 53)" by (rule iffD2 [OF of_nat_less_iff assms(4)])
    then show "\<bar>int (f * 10 ^ (p - j))\<bar> < 2 ^ 53" by simp
  qed
  ultimately show ?thesis by (simp only: fraction_part_def option.case nat_int)
qed

text \<open>What a fraction's text stands for, as \<open>parse_number\<close> returns it.\<close>

lemma parse_number_plain:
  assumes "v \<le> 2 ^ 63" "after \<noteq> []" "\<not> number_end (hd after)"
  shows "parse_number (show_nat v @ after) = Some (v, 0, f64_one, after)"
proof -
  have st: "stops after" using assms(2,3) by (simp add: stops_def number_end_def)
  have le: "digits_val 0 (show_nat v) \<le> 2 ^ 63" using assms(1) by (simp add: digits_val_show_nat)
  have "leadingInt 0 (show_nat v @ after) = Some (v, after)"
    using leadingInt_digits [OF show_nat_digits st le] by (simp add: digits_val_show_nat)
  then show ?thesis using assms(3) by (simp add: parse_number_def number_end_def)
qed

lemma parse_number_fraction:
  assumes "v \<le> 2 ^ 63" "after \<noteq> []" "\<not> number_end (hd after)"
    "list_all is_digit ds" "length ds \<le> 15" "digits_val 0 ds < 10 ^ 15"
  shows "parse_number (show_nat v @ CHR ''.'' # ds @ after)
    = Some (v, digits_val 0 ds, f64_of_int (int (10 ^ length ds)), after)"
proof -
  have st: "stops after" using assms(2,3) by (simp add: stops_def number_end_def)
  have dot: "stops (CHR ''.'' # ds @ after)" by (simp add: stops_def is_digit_def)
  have le: "digits_val 0 (show_nat v) \<le> 2 ^ 63" using assms(1) by (simp add: digits_val_show_nat)
  have i: "leadingInt 0 (show_nat v @ CHR ''.'' # ds @ after) = Some (v, CHR ''.'' # ds @ after)"
    using leadingInt_digits [OF show_nat_digits dot le] by (simp add: digits_val_show_nat)
  have f: "leadingFraction 0 f64_one False (ds @ after) = (digits_val 0 ds, f64_of_int (int (10 ^ length ds)), after)"
    using leadingFraction_digits [OF assms(4) st assms(6), of 0] assms(5) by (simp add: f64_of_int_1)
  show ?thesis unfolding parse_number_def i by (simp add: f)
qed

text \<open>The texts \<open>String\<close> puts after a number.\<close>

definition unit_text :: "string \<Rightarrow> bool" where
  "unit_text u \<longleftrightarrow> u \<noteq> [] \<and> list_all (\<lambda>c. \<not> number_end c) u"

definition term_start :: "string \<Rightarrow> bool" where
  "term_start s \<longleftrightarrow> s = [] \<or> number_end (hd s)"

lemma take_unit:
  "unit_text u \<Longrightarrow> term_start rest \<Longrightarrow> takeWhile (\<lambda>c. \<not> number_end c) (u @ rest) = u"
  "unit_text u \<Longrightarrow> term_start rest \<Longrightarrow> dropWhile (\<lambda>c. \<not> number_end c) (u @ rest) = rest"
proof -
  assume u: "unit_text u" and r: "term_start rest"
  have a: "\<And>c. c \<in> set u \<Longrightarrow> \<not> number_end c" using u by (auto simp: unit_text_def list_all_iff)
  have b: "takeWhile (\<lambda>c. \<not> number_end c) rest = []" "dropWhile (\<lambda>c. \<not> number_end c) rest = rest"
    using r by (cases rest; simp add: term_start_def)+
  show "takeWhile (\<lambda>c. \<not> number_end c) (u @ rest) = u" using a b by (simp add: takeWhile_append2)
  show "dropWhile (\<lambda>c. \<not> number_end c) (u @ rest) = rest" using a b by (simp add: dropWhile_append2)
qed

lemma parse_unit_value:
  assumes "unit_text u" "term_start rest" "unitMap u = Some w" "0 < w" "d + v * w + x \<le> 2 ^ 63"
    "f = 0 \<and> x = 0 \<or> 0 < f \<and> fraction_part f w sc = x"
  shows "parse_unit orig v f sc d (u @ rest) = Inr (d + v * w + x, rest)"
proof -
  have ne: "u \<noteq> []" using assms(1) by (simp add: unit_text_def)
  have "v * w \<le> 2 ^ 63" using assms(5) by simp
  then have v: "v \<le> 2 ^ 63 div w" using assms(4) by (simp add: less_eq_div_iff_mult_less_eq)
  show ?thesis
    unfolding parse_unit_def Let_def take_unit [OF assms(1,2)] assms(3) option.case
    using ne v assms(5,6) by auto
qed

lemma digit_starts [simp]: "number_end (hd (show_nat v))"
proof -
  obtain c cs where c: "show_nat v = c # cs" by (cases "show_nat v") auto
  then show ?thesis using show_nat_digits [of v] by (simp add: number_end_def)
qed

lemma parse_term_plain:
  assumes "unit_text u" "term_start rest" "unitMap u = Some w" "0 < w" "d + v * w \<le> 2 ^ 63"
  shows "parse_term orig d (show_nat v @ u @ rest) = Inr (d + v * w, rest)"
proof -
  have "v \<le> v * w" using assms(4) by simp
  then have v: "v \<le> 2 ^ 63" using assms(5) by linarith
  have u: "u @ rest \<noteq> []" "\<not> number_end (hd (u @ rest))" using assms(1) by (cases u; simp add: unit_text_def)+
  have "parse_unit orig v 0 f64_one d (u @ rest) = Inr (d + v * w + 0, rest)"
    by (rule parse_unit_value [OF assms(1-4)]) (use assms(5) in simp_all)
  then show ?thesis by (simp add: parse_term_def digit_starts parse_number_plain [OF v u])
qed

lemma parse_term_fraction:
  assumes "unit_text u" "term_start rest" "unitMap u = Some (10 ^ p)" "p \<le> 9" "d + v * 10 ^ p + r \<le> 2 ^ 63"
    "fraction_text p r t" "r < 10 ^ p"
  shows "parse_term orig d (show_nat v @ t @ u @ rest) = Inr (d + v * 10 ^ p + r, rest)"
proof (cases "r = 0")
  case True
  have "parse_term orig d (show_nat v @ u @ rest) = Inr (d + v * 10 ^ p, rest)"
    by (rule parse_term_plain [OF assms(1-3)]) (use assms(5) in simp_all)
  then show ?thesis using assms(6) True by (simp add: fraction_text_def)
next
  case False
  then obtain ds where ds: "t = CHR ''.'' # ds" "list_all is_digit ds" "ds \<noteq> []" "length ds \<le> p"
    "digits_val 0 ds * 10 ^ (p - length ds) = r" using assms(6) by (auto simp: fraction_text_def)
  have "v \<le> v * 10 ^ p" by simp
  then have v: "v \<le> 2 ^ 63" using assms(5) by linarith
  have u: "u @ rest \<noteq> []" "\<not> number_end (hd (u @ rest))" using assms(1) by (cases u; simp add: unit_text_def)+
  have p9: "(10::nat) ^ p \<le> 10 ^ 9" using assms(4) by (intro power_increasing) auto
  have "digits_val 0 ds \<le> r" using ds(5) by (metis le_refl mult_le_mono2 mult_1_right one_le_numeral one_le_power)
  then have lt: "digits_val 0 ds < 10 ^ 15" using assms(7) p9 by simp
  have pos: "0 < digits_val 0 ds" using False ds(5) by (cases "digits_val 0 ds") auto
  have r53: "digits_val 0 ds * 10 ^ (p - length ds) < 2 ^ 53" unfolding ds(5) using assms(7) p9 by simp
  have fp: "fraction_part (digits_val 0 ds) (10 ^ p) (f64_of_int (int (10 ^ length ds))) = r"
    using fraction_part_exact [OF pos ds(4) _ r53] assms(4) ds(5) by simp
  have l15: "length ds \<le> 15" using ds(4) assms(4) by simp
  have "parse_unit orig v (digits_val 0 ds) (f64_of_int (int (10 ^ length ds))) d (u @ rest) = Inr (d + v * 10 ^ p + r, rest)"
    by (rule parse_unit_value [OF assms(1-3) _ assms(5)]) (use pos fp in simp_all)
  then show ?thesis unfolding ds(1)
    using digit_starts [of v] parse_number_fraction [OF v u ds(2) l15 lt] by (simp add: parse_term_def)
qed

section \<open>Durations are read back\<close>

lemma parse_terms_Nil [simp]: "parse_terms orig d [] = Inr d"
  by (simp add: parse_terms.simps)

lemma parse_terms_step:
  "parse_term orig d s = Inr (d1, s1) \<Longrightarrow> s \<noteq> [] \<Longrightarrow> parse_terms orig d s = parse_terms orig d1 s1"
  by (simp add: parse_terms.simps [of orig d s])

text \<open>A body of printed terms: it starts with a number and more follows.\<close>

definition term_body :: "string \<Rightarrow> bool" where
  "term_body s \<longleftrightarrow> (\<exists>v rest. s = show_nat v @ rest \<and> rest \<noteq> [])"

lemma term_body_start: "term_body s \<Longrightarrow> s \<noteq> [] \<and> s \<noteq> ''0'' \<and> number_end (hd s)"
proof -
  assume "term_body s"
  then obtain v rest where s: "s = show_nat v @ rest" "rest \<noteq> []" by (auto simp: term_body_def)
  have "2 \<le> length s" using s by (cases "show_nat v"; cases rest) auto
  then have "s \<noteq> [] \<and> s \<noteq> ''0''" by auto
  then show ?thesis using s by simp
qed

lemma unit_texts:
  "unit_text ''ns''" "unit_text (micro_sign @ ''s'')" "unit_text ''ms''" "unit_text ''s''" "unit_text ''m''" "unit_text ''h''"
  by (simp_all add: unit_text_def number_end_def is_digit_def micro_sign_def)

lemma unit_values:
  "unitMap ''ns'' = Some (10 ^ 0)" "unitMap (micro_sign @ ''s'') = Some (10 ^ 3)" "unitMap ''ms'' = Some (10 ^ 6)"
  "unitMap ''s'' = Some (10 ^ 9)" "unitMap ''m'' = Some (60 * 10 ^ 9)" "unitMap ''h'' = Some (3600 * 10 ^ 9)"
  by (simp_all add: unitMap_def micro_sign_def)

lemma print_small_parsed:
  assumes "unit_text w" "unitMap w = Some (10 ^ p)" "p \<le> 9" "u \<le> 2 ^ 63"
  shows "parse_terms orig 0 (print_small p w u) = Inr u" "term_body (print_small p w u)"
proof -
  obtain t where t: "fmtFrac p u False w = (t @ w, u div 10 ^ p)" "fraction_text p (u mod 10 ^ p) t"
    using fmtFrac_text .
  have s: "print_small p w u = show_nat (u div 10 ^ p) @ t @ w @ []" by (simp add: print_small_def t(1))
  have w: "w \<noteq> []" using assms(1) by (simp add: unit_text_def)
  have "0 + u div 10 ^ p * 10 ^ p + u mod 10 ^ p = u" by (simp only: add_0 div_mult_mod_eq)
  then have "parse_term orig 0 (print_small p w u) = Inr (u, [])" unfolding s
    using parse_term_fraction [OF assms(1) _ assms(2,3) _ t(2), of "[]" 0 "u div 10 ^ p" orig] assms(4)
    by (simp add: term_start_def)
  then show "parse_terms orig 0 (print_small p w u) = Inr u" using parse_terms_step s by fastforce
  show "term_body (print_small p w u)" unfolding s term_body_def using w by blast
qed

lemma print_large_parsed:
  assumes "u \<le> 2 ^ 63"
  shows "parse_terms orig 0 (print_large u) = Inr u" "term_body (print_large u)"
proof -
  obtain t where t: "fmtFrac 9 u False ''s'' = (t @ ''s'', u div 10 ^ 9)" "fraction_text 9 (u mod 10 ^ 9) t"
    using fmtFrac_text .
  define v where "v = u div 10 ^ 9"
  define r where "r = u mod 10 ^ 9"
  define sec where "sec = show_nat (v mod 60) @ t @ ''s''"
  define mn where "mn = show_nat (v div 60 mod 60) @ ''m'' @ sec"
  have u: "u = v * 10 ^ 9 + r" unfolding v_def r_def by (rule div_mult_mod_eq [symmetric])
  have secs: "parse_terms orig d sec = Inr (d + (v mod 60) * 10 ^ 9 + r)" if "d + (v mod 60) * 10 ^ 9 + r \<le> 2 ^ 63" for d
    using parse_terms_step [OF parse_term_fraction [OF unit_texts(4) _ unit_values(4) _ that t(2) [folded r_def], of "[]"]]
    unfolding sec_def by (simp add: term_start_def r_def)
  have ts: "term_start sec" "term_start mn" by (simp_all add: sec_def mn_def term_start_def)
  have mins: "parse_terms orig d mn = parse_terms orig (d + (v div 60 mod 60) * (60 * 10 ^ 9)) sec"
    if "d + (v div 60 mod 60) * (60 * 10 ^ 9) \<le> 2 ^ 63" for d
    using parse_terms_step [OF parse_term_plain [OF unit_texts(5) ts(1) unit_values(5) _ that]] unfolding mn_def by simp
  have hrs: "parse_terms orig 0 (show_nat (v div 60 div 60) @ ''h'' @ mn)
      = parse_terms orig (v div 60 div 60 * (3600 * 10 ^ 9)) mn" if "v div 60 div 60 * (3600 * 10 ^ 9) \<le> 2 ^ 63"
    using parse_terms_step [OF parse_term_plain [OF unit_texts(6) ts(2) unit_values(6), of 0 "v div 60 div 60"]] that by simp
  have p: "print_large u = (if v div 60 = 0 then sec else if v div 60 div 60 = 0 then mn
      else show_nat (v div 60 div 60) @ ''h'' @ mn)"
    unfolding print_large_def t(1) v_def [symmetric] Let_def prod.case sec_def mn_def by (simp only: append_assoc)
  have all: "v div 60 div 60 * (3600 * 10 ^ 9) + (v div 60 mod 60) * (60 * 10 ^ 9) + (v mod 60) * 10 ^ 9 + r = u"
  proof -
    obtain a b c where abc: "a = v div 60 div 60" "b = v div 60 mod 60" "c = v mod 60" by blast
    have "v = (a * 60 + b) * 60 + c" unfolding abc by simp
    then show ?thesis unfolding u abc [symmetric] by simp
  qed
  show "parse_terms orig 0 (print_large u) = Inr u"
  proof (cases "v div 60 = 0")
    case True
    then show ?thesis using secs [of 0] all assms by (simp add: p)
  next
    case m: False
    show ?thesis
    proof (cases "v div 60 div 60 = 0")
      case True
      then show ?thesis using m mins [of 0] secs all assms by (simp add: p)
    next
      case False
      then show ?thesis using m hrs mins secs all assms by (simp add: p)
    qed
  qed
  show "term_body (print_large u)" unfolding p sec_def mn_def term_body_def by auto
qed

definition int64 :: "int \<Rightarrow> bool" where
  "int64 i \<longleftrightarrow> - (2 ^ 63) \<le> i \<and> i < 2 ^ 63"

lemma magnitude_parsed:
  assumes "u \<le> 2 ^ 63"
  shows "parse_terms orig 0 (magnitude_text u) = Inr u" "term_body (magnitude_text u)"
  using print_small_parsed [OF unit_texts(1) unit_values(1) _ assms] print_small_parsed [OF unit_texts(2) unit_values(2) _ assms]
    print_small_parsed [OF unit_texts(3) unit_values(3) _ assms] print_large_parsed [OF assms]
  by (simp_all add: magnitude_text_def)

lemma strip_sign_body:
  assumes "term_body s" shows "strip_sign s = (False, s)" "strip_sign (CHR ''-'' # s) = (True, s)"
proof -
  obtain c cs where s: "s = c # cs" "number_end c" using term_body_start [OF assms] by (cases s) auto
  then have "c \<noteq> CHR ''-''" "c \<noteq> CHR ''+''" by (auto simp: number_end_def is_digit_def)
  then show "strip_sign s = (False, s)" by (simp add: s strip_sign_def)
  show "strip_sign (CHR ''-'' # s) = (True, s)" by (simp add: strip_sign_def)
qed

lemma show_nat_zero: "show_nat 0 = ''0''"
  by code_simp

lemma duration_read_back:
  assumes "int64 d"
  shows "ParseDuration (duration_String d) = Inr d"
proof (cases "d = 0")
  case True
  have "parse_terms orig 0 ''0s'' = Inr 0" for orig
    using parse_terms_step [OF parse_term_plain [OF unit_texts(4) _ unit_values(4), of "[]" 0 0 orig]]
    by (simp add: term_start_def show_nat_zero)
  then show ?thesis using True by (simp add: duration_String_def ParseDuration_def strip_sign_def)
next
  case False
  define u where "u = nat \<bar>d\<bar>"
  have u: "u \<noteq> 0" "u \<le> 2 ^ 63" using False assms by (auto simp: u_def int64_def nat_le_iff abs_le_iff)
  note b = magnitude_parsed [OF u(2)]
  have t: "duration_String d = (if d < 0 then ''-'' else []) @ magnitude_text u"
    using u(1) by (simp add: duration_String_def u_def [symmetric] Let_def)
  have ne: "magnitude_text u \<noteq> ''0''" "magnitude_text u \<noteq> []" using term_body_start [OF b(2)] by auto
  show ?thesis
  proof (cases "d < 0")
    case True
    then have "int u = - d" by (simp add: u_def)
    then show ?thesis using True ne b by (simp add: t ParseDuration_def strip_sign_body [OF b(2)])
  next
    case False
    then have "int u = d" by (simp add: u_def)
    moreover from this have "\<not> 2 ^ 63 - 1 < u" using assms by (simp add: int64_def)
    ultimately show ?thesis using False ne b by (simp add: t ParseDuration_def strip_sign_body [OF b(2)])
  qed
qed

lemma parse_unit_bound: "parse_unit orig v f scale d s = Inr (d1, s1) \<Longrightarrow> d1 \<le> 2 ^ 63"
  by (auto simp: parse_unit_def Let_def split: option.splits if_splits)

lemma parse_terms_bound: "parse_terms orig d s = Inr n \<Longrightarrow> d \<le> 2 ^ 63 \<Longrightarrow> n \<le> 2 ^ 63"
proof (induction orig d s rule: parse_terms.induct)
  case (1 orig d s)
  show ?case
  proof (cases "s = []")
    case True
    then show ?thesis using "1.prems" by simp
  next
    case False
    obtain d1 s1 where t: "parse_term orig d s = Inr (d1, s1)" "parse_terms orig d1 s1 = Inr n"
      using "1.prems"(1) False by (auto simp: parse_terms.simps [of orig d s] split: sum.splits)
    have "d1 \<le> 2 ^ 63" using t(1) parse_unit_bound
      by (auto simp: parse_term_def split: if_splits option.splits)
    then show ?thesis using "1.IH" [OF False t(1) refl] t(2) by blast
  qed
qed

lemma ParseDuration_int64: "ParseDuration s = Inr d \<Longrightarrow> int64 d"
  using parse_terms_bound [of s 0] by (auto simp: ParseDuration_def int64_def split: prod.splits if_splits sum.splits)

end
