(* ===== verification/Device_Config.thy ===== *)
theory Device_Config
  imports Domain Go_Duration
begin

text \<open>
  \<open>internal/adapter/config/devices.go\<close>: the YAML form of the devices, its conversion to the domain's
  devices and back, and the loading and saving of the device file.  Reading and writing files and the
  YAML library are the environment; the clock is a function of the number of the reading.  Durations
  are text in the file (\<open>Go_Duration\<close>).
\<close>

section \<open>The enumerated types as text\<close>

definition protocol_of_text :: "string \<Rightarrow> protocol" where
  "protocol_of_text s =
     (if s = ''modbus-tcp'' then ProtocolModbusTCP else if s = ''modbus-rtu'' then ProtocolModbusRTU
      else if s = ''opcua'' then ProtocolOPCUA else if s = ''s7'' then ProtocolS7
      else if s = ''mqtt'' then ProtocolMQTT else Protocol_other s)"

definition data_type_of_text :: "string \<Rightarrow> data_type" where
  "data_type_of_text s =
     (if s = ''bool'' then DataTypeBool else if s = ''int16'' then DataTypeInt16
      else if s = ''uint16'' then DataTypeUInt16 else if s = ''int32'' then DataTypeInt32
      else if s = ''uint32'' then DataTypeUInt32 else if s = ''int64'' then DataTypeInt64
      else if s = ''uint64'' then DataTypeUInt64 else if s = ''float32'' then DataTypeFloat32
      else if s = ''float64'' then DataTypeFloat64 else DataType_other s)"

definition register_type_of_text :: "string \<Rightarrow> register_type" where
  "register_type_of_text s =
     (if s = ''coil'' then RegisterTypeCoil else if s = ''discrete_input'' then RegisterTypeDiscreteInput
      else if s = ''holding_register'' then RegisterTypeHoldingRegister
      else if s = ''input_register'' then RegisterTypeInputRegister else RegisterType_other s)"

definition byte_order_of_text :: "string \<Rightarrow> byte_order" where
  "byte_order_of_text s =
     (if s = ''big_endian'' then ByteOrderBigEndian else if s = ''little_endian'' then ByteOrderLittleEndian
      else if s = ''mid_big'' then ByteOrderMidBigEndian else if s = ''mid_little'' then ByteOrderMidLitEndian
      else ByteOrder_other s)"

fun byte_order_text :: "byte_order \<Rightarrow> string" where
  "byte_order_text ByteOrderBigEndian = ''big_endian''"
| "byte_order_text ByteOrderLittleEndian = ''little_endian''"
| "byte_order_text ByteOrderMidBigEndian = ''mid_big''"
| "byte_order_text ByteOrderMidLitEndian = ''mid_little''"
| "byte_order_text (ByteOrder_other s) = s"

definition access_mode_of_text :: "string \<Rightarrow> access_mode" where
  "access_mode_of_text s =
     (if s = ''read'' then AccessModeReadOnly else if s = ''write'' then AccessModeWriteOnly
      else if s = ''readwrite'' then AccessModeReadWrite else AccessMode_other s)"

fun access_mode_text :: "access_mode \<Rightarrow> string" where
  "access_mode_text AccessModeReadOnly = ''read''"
| "access_mode_text AccessModeWriteOnly = ''write''"
| "access_mode_text AccessModeReadWrite = ''readwrite''"
| "access_mode_text (AccessMode_other s) = s"

definition deadband_type_of_text :: "string \<Rightarrow> deadband_type" where
  "deadband_type_of_text s =
     (if s = ''none'' then DeadbandTypeNone else if s = ''absolute'' then DeadbandTypeAbsolute
      else if s = ''percent'' then DeadbandTypePercent else DeadbandType_other s)"

fun deadband_type_text :: "deadband_type \<Rightarrow> string" where
  "deadband_type_text DeadbandTypeNone = ''none''"
| "deadband_type_text DeadbandTypeAbsolute = ''absolute''"
| "deadband_type_text DeadbandTypePercent = ''percent''"
| "deadband_type_text (DeadbandType_other s) = s"

section \<open>The YAML structures\<close>

record yaml_connection =
  yc_Host :: string
  yc_Port :: int
  yc_Timeout :: string
  yc_RetryCount :: int
  yc_RetryDelay :: string
  yc_SlaveID :: int
  yc_OPCEndpointURL :: string
  yc_OPCSecurityPolicy :: string
  yc_OPCSecurityMode :: string
  yc_OPCAuthMode :: string
  yc_OPCUsername :: string
  yc_OPCPassword :: string
  yc_OPCCertFile :: string
  yc_OPCKeyFile :: string
  yc_OPCServerCertFile :: string
  yc_OPCInsecureSkipVerify :: bool
  yc_OPCAutoSelectEndpoint :: bool
  yc_OPCApplicationName :: string
  yc_OPCApplicationURI :: string
  yc_OPCUseSubscriptions :: "bool option"
  yc_OPCPublishInterval :: string
  yc_OPCSamplingInterval :: string
  yc_S7Rack :: int
  yc_S7Slot :: int

record yaml_tag =
  yt_ID :: string
  yt_Name :: string
  yt_Description :: string
  yt_DataType :: string
  yt_ScaleFactor :: u64
  yt_Offset :: u64
  yt_Unit :: string
  yt_TopicSuffix :: string
  yt_PollInterval :: string
  yt_DeadbandType :: string
  yt_DeadbandValue :: u64
  yt_Enabled :: bool
  yt_AccessMode :: string
  yt_Metadata :: "string \<rightharpoonup> string"
  yt_Address :: int
  yt_RegisterType :: string
  yt_ByteOrder :: string
  yt_RegisterCount :: int
  yt_BitPosition :: "int option"
  yt_OPCNodeID :: string
  yt_S7Address :: string

record yaml_device =
  yd_ID :: string
  yd_Name :: string
  yd_Description :: string
  yd_Protocol :: string
  yd_Enabled :: bool
  yd_UNSPrefix :: string
  yd_PollInterval :: string
  yd_Connection :: yaml_connection
  yd_Tags :: "yaml_tag list"
  yd_Metadata :: "string \<rightharpoonup> string"

record devices_file =
  df_Version :: string
  df_Devices :: "yaml_device list"

section \<open>From the file\<close>

text \<open>An interval that may be left out: its default, or its text parsed.\<close>

definition interval_or :: "duration \<Rightarrow> string \<Rightarrow> string \<Rightarrow> err + duration" where
  "interval_or dflt what s =
     (if s = [] then Inr dflt
      else case ParseDuration s of Inl e \<Rightarrow> Inl (WrapPre what e) | Inr d \<Rightarrow> Inr d)"

definition validate_modbus_connection :: "yaml_connection \<Rightarrow> err option" where
  "validate_modbus_connection c =
     (if yc_Host c = [] then Some (Plain ''modbus device requires host'')
      else if yc_Port c = 0 then Some (Plain ''modbus device requires port'')
      else if yc_SlaveID c < 1 \<or> 247 < yc_SlaveID c
      then Some (Plain (''modbus slave_id must be between 1 and 247, got '' @ show_int (yc_SlaveID c)))
      else None)"

definition validateConnectionConfig :: "yaml_device \<Rightarrow> err option" where
  "validateConnectionConfig dc =
     (let c = yd_Connection dc in
      case protocol_of_text (yd_Protocol dc) of
        ProtocolModbusTCP \<Rightarrow> validate_modbus_connection c
      | ProtocolModbusRTU \<Rightarrow> validate_modbus_connection c
      | ProtocolOPCUA \<Rightarrow> if yc_OPCEndpointURL c = [] then Some (Plain ''OPC UA device requires opc_endpoint_url'') else None
      | ProtocolS7 \<Rightarrow>
          if yc_Host c = [] then Some (Plain ''S7 device requires host'')
          else if yc_S7Rack c < 0 then Some (Plain ''S7 rack must be non-negative'')
          else if yc_S7Slot c < 0 then Some (Plain ''S7 slot must be non-negative'')
          else None
      | _ \<Rightarrow> None)"

text \<open>
  \<open>opcUseSubscriptions\<close>: what the file says, or the default of the protocol.
\<close>

definition opcUseSubscriptions :: "yaml_device \<Rightarrow> bool" where
  "opcUseSubscriptions dc = (case yc_OPCUseSubscriptions (yd_Connection dc) of
       Some b \<Rightarrow> b
     | None \<Rightarrow> protocol_of_text (yd_Protocol dc) = ProtocolOPCUA)"

definition convertTagConfig :: "yaml_tag \<Rightarrow> err + tag" where
  "convertTagConfig tc =
     (case (if yt_PollInterval tc = [] then Inr None
            else case ParseDuration (yt_PollInterval tc) of
              Inl e \<Rightarrow> Inl (WrapPre ''invalid poll interval: '' e) | Inr d \<Rightarrow> Inr (Some d)) of
        Inl e \<Rightarrow> Inl e
      | Inr pollInterval \<Rightarrow>
          let bitPosition = map_option word_of_int (yt_BitPosition tc);
              scaleFactor = (if f64_eq (yt_ScaleFactor tc) f64_zero then f64_one else yt_ScaleFactor tc);
              byteOrder = (if yt_ByteOrder tc = [] then ByteOrderBigEndian else byte_order_of_text (yt_ByteOrder tc));
              registerCount = (if (word_of_int (yt_RegisterCount tc) :: u16) = 0 then 1 else word_of_int (yt_RegisterCount tc));
              accessMode = (if yt_AccessMode tc = [] then AccessModeReadOnly else access_mode_of_text (yt_AccessMode tc))
          in Inr (zero_tag\<lparr>tag_ID := yt_ID tc, tag_Name := yt_Name tc, tag_Description := yt_Description tc,
               DataType := data_type_of_text (yt_DataType tc), ScaleFactor := scaleFactor, Offset := yt_Offset tc,
               tag_Unit := yt_Unit tc, TopicSuffix := yt_TopicSuffix tc, tag_PollInterval := pollInterval,
               DeadbandType := deadband_type_of_text (yt_DeadbandType tc), DeadbandValue := yt_DeadbandValue tc,
               tag_Enabled := yt_Enabled tc, AccessMode := accessMode, tag_Metadata := yt_Metadata tc,
               Address := word_of_int (yt_Address tc), RegisterType := register_type_of_text (yt_RegisterType tc),
               ByteOrder := byteOrder, RegisterCount := registerCount, BitPosition := bitPosition,
               OPCNodeID := yt_OPCNodeID tc, S7Address := yt_S7Address tc\<rparr>))"

fun convert_tags :: "yaml_tag list \<Rightarrow> err + tag list" where
  "convert_tags [] = Inr []"
| "convert_tags (tc # tcs) = (case convertTagConfig tc of
       Inl e \<Rightarrow> Inl (WrapPre (''error in tag '' @ yt_ID tc @ '': '') e)
     | Inr t \<Rightarrow> (case convert_tags tcs of Inl e \<Rightarrow> Inl e | Inr ts \<Rightarrow> Inr (t # ts)))"

text \<open>
  The connection of a device: \<open>uint8\<close> cuts the slave ID, and what the file cannot say is zero.
\<close>

definition convert_connection ::
  "yaml_device \<Rightarrow> duration \<Rightarrow> duration \<Rightarrow> duration \<Rightarrow> duration \<Rightarrow> connection_config" where
  "convert_connection dc timeout retryDelay publish sampling = (let c = yd_Connection dc in
     \<lparr>Host = yc_Host c, Port = yc_Port c, Timeout = timeout, RetryCount = yc_RetryCount c, RetryDelay = retryDelay,
      SlaveID = word_of_int (yc_SlaveID c), SerialPort = [], BaudRate = 0, DataBits = 0, Parity = [], StopBits = 0,
      OPCEndpointURL = yc_OPCEndpointURL c, OPCSecurityPolicy = yc_OPCSecurityPolicy c,
      OPCSecurityMode = yc_OPCSecurityMode c, OPCAuthMode = yc_OPCAuthMode c, OPCUsername = yc_OPCUsername c,
      OPCPassword = yc_OPCPassword c, OPCCertFile = yc_OPCCertFile c, OPCKeyFile = yc_OPCKeyFile c,
      OPCServerCertFile = yc_OPCServerCertFile c, OPCInsecureSkipVerify = yc_OPCInsecureSkipVerify c,
      OPCAutoSelectEndpoint = yc_OPCAutoSelectEndpoint c, OPCApplicationName = yc_OPCApplicationName c,
      OPCApplicationURI = yc_OPCApplicationURI c, OPCPublishInterval = publish, OPCSamplingInterval = sampling,
      OPCUseSubscriptions = opcUseSubscriptions dc, S7Rack = yc_S7Rack c, S7Slot = yc_S7Slot c,
      S7PDUSize = 0, S7Timeout = 0, CircuitBreaker = None\<rparr>)"

text \<open>The two readings of the clock are arguments.\<close>

definition build_device ::
  "time \<Rightarrow> time \<Rightarrow> yaml_device \<Rightarrow> connection_config \<Rightarrow> tag list \<Rightarrow> duration \<Rightarrow> device" where
  "build_device t1 t2 dc cn tags pollInterval =
     \<lparr>dev_ID = yd_ID dc, dev_Name = yd_Name dc, dev_Description = yd_Description dc,
      dev_Protocol = protocol_of_text (yd_Protocol dc), Connection = cn, Tags = tags, PollInterval = pollInterval,
      dev_Enabled = yd_Enabled dc, UNSPrefix = yd_UNSPrefix dc, dev_Metadata = yd_Metadata dc,
      CreatedAt = t1, UpdatedAt = t2, ConfigVersion = 0, ActiveConfigVersion = 0, LastKnownGoodVersion = 0\<rparr>"

definition convertDeviceConfig :: "time \<Rightarrow> time \<Rightarrow> yaml_device \<Rightarrow> err + device" where
  "convertDeviceConfig t1 t2 dc = (let c = yd_Connection dc in
     case interval_or (5 * second) ''invalid timeout: '' (yc_Timeout c) of Inl e \<Rightarrow> Inl e | Inr timeout \<Rightarrow>
     case interval_or (100 * millisecond) ''invalid retry delay: '' (yc_RetryDelay c) of Inl e \<Rightarrow> Inl e | Inr retryDelay \<Rightarrow>
     case interval_or 0 ''invalid opc_publish_interval: '' (yc_OPCPublishInterval c) of Inl e \<Rightarrow> Inl e | Inr publish \<Rightarrow>
     case interval_or 0 ''invalid opc_sampling_interval: '' (yc_OPCSamplingInterval c) of Inl e \<Rightarrow> Inl e | Inr sampling \<Rightarrow>
     case convert_tags (yd_Tags dc) of Inl e \<Rightarrow> Inl e | Inr tags \<Rightarrow>
     case interval_or second ''invalid poll interval: '' (yd_PollInterval dc) of Inl e \<Rightarrow> Inl e | Inr pollInterval \<Rightarrow>
     case ValidateDevice (build_device t1 t2 dc (convert_connection dc timeout retryDelay publish sampling) tags pollInterval) of
       (d, Some e) \<Rightarrow> Inl e
     | (d, None) \<Rightarrow> Inr d)"

text \<open>
  The loop over the file's devices: the index of the device, the IDs seen with their index, and the
  clock, read twice for each device that is converted.
\<close>

fun load_loop :: "(nat \<Rightarrow> time) \<Rightarrow> (string \<rightharpoonup> nat) \<Rightarrow> nat \<Rightarrow> yaml_device list \<Rightarrow> err + device list" where
  "load_loop clock seenIDs idx [] = Inr []"
| "load_loop clock seenIDs idx (dc # dcs) =
     (case seenIDs (yd_ID dc) of
        Some prevIdx \<Rightarrow> Inl (Plain (''duplicate device ID '' @ [CHR 0x27] @ yd_ID dc @ [CHR 0x27] @ '' at index ''
          @ show_nat idx @ '' (first seen at index '' @ show_nat prevIdx @ '')''))
      | None \<Rightarrow>
          (case validateConnectionConfig dc of
             Some e \<Rightarrow> Inl (WrapPre (''error in device '' @ yd_ID dc @ '': '') e)
           | None \<Rightarrow>
               (case convertDeviceConfig (clock (2 * idx)) (clock (2 * idx + 1)) dc of
                  Inl e \<Rightarrow> Inl (WrapPre (''error in device '' @ yd_ID dc @ '': '') e)
                | Inr d \<Rightarrow>
                    (case load_loop clock (seenIDs(yd_ID dc \<mapsto> idx)) (Suc idx) dcs of
                       Inl e \<Rightarrow> Inl e | Inr ds \<Rightarrow> Inr (d # ds)))))"

text \<open>The file system and the YAML library.\<close>

record 'w file_env =
  fe_ReadFile :: "string \<Rightarrow> 'w \<Rightarrow> err + bytes"
  fe_WriteFile :: "string \<Rightarrow> bytes \<Rightarrow> nat \<Rightarrow> 'w \<Rightarrow> err option \<times> 'w"
  fe_Unmarshal :: "bytes \<Rightarrow> err + devices_file"
  fe_Marshal :: "devices_file \<Rightarrow> err + bytes"

definition LoadDevices :: "'w file_env \<Rightarrow> (nat \<Rightarrow> time) \<Rightarrow> string \<Rightarrow> 'w \<Rightarrow> err + device list" where
  "LoadDevices env clock path w =
     (case fe_ReadFile env path w of
        Inl e \<Rightarrow> Inl (WrapPre ''failed to read devices file: '' e)
      | Inr data \<Rightarrow>
          (case fe_Unmarshal env data of
             Inl e \<Rightarrow> Inl (WrapPre ''failed to parse devices file: '' e)
           | Inr file \<Rightarrow> load_loop clock Map.empty 0 (df_Devices file)))"

section \<open>To the file\<close>

definition durationToString :: "duration \<Rightarrow> string" where
  "durationToString d = (if d = 0 then [] else duration_String d)"

definition convertToTagConfig :: "tag \<Rightarrow> yaml_tag" where
  "convertToTagConfig t =
     \<lparr>yt_ID = tag_ID t, yt_Name = tag_Name t, yt_Description = tag_Description t,
      yt_DataType = data_type_text (DataType t), yt_ScaleFactor = ScaleFactor t, yt_Offset = Offset t,
      yt_Unit = tag_Unit t, yt_TopicSuffix = TopicSuffix t,
      yt_PollInterval = (case tag_PollInterval t of None \<Rightarrow> [] | Some d \<Rightarrow> duration_String d),
      yt_DeadbandType = deadband_type_text (DeadbandType t), yt_DeadbandValue = DeadbandValue t,
      yt_Enabled = tag_Enabled t, yt_AccessMode = access_mode_text (AccessMode t), yt_Metadata = tag_Metadata t,
      yt_Address = uint (Address t), yt_RegisterType = register_type_text (RegisterType t),
      yt_ByteOrder = byte_order_text (ByteOrder t), yt_RegisterCount = uint (RegisterCount t),
      yt_BitPosition = map_option uint (BitPosition t), yt_OPCNodeID = OPCNodeID t, yt_S7Address = S7Address t\<rparr>"

definition convertToDeviceConfig :: "device \<Rightarrow> yaml_device" where
  "convertToDeviceConfig d = (let c = Connection d in
     \<lparr>yd_ID = dev_ID d, yd_Name = dev_Name d, yd_Description = dev_Description d,
      yd_Protocol = protocol_text (dev_Protocol d), yd_Enabled = dev_Enabled d, yd_UNSPrefix = UNSPrefix d,
      yd_PollInterval = duration_String (PollInterval d),
      yd_Connection =
        \<lparr>yc_Host = Host c, yc_Port = Port c, yc_Timeout = duration_String (Timeout c), yc_RetryCount = RetryCount c,
         yc_RetryDelay = duration_String (RetryDelay c), yc_SlaveID = uint (SlaveID c),
         yc_OPCEndpointURL = OPCEndpointURL c, yc_OPCSecurityPolicy = OPCSecurityPolicy c,
         yc_OPCSecurityMode = OPCSecurityMode c, yc_OPCAuthMode = OPCAuthMode c, yc_OPCUsername = OPCUsername c,
         yc_OPCPassword = OPCPassword c, yc_OPCCertFile = OPCCertFile c, yc_OPCKeyFile = OPCKeyFile c,
         yc_OPCServerCertFile = OPCServerCertFile c, yc_OPCInsecureSkipVerify = OPCInsecureSkipVerify c,
         yc_OPCAutoSelectEndpoint = OPCAutoSelectEndpoint c, yc_OPCApplicationName = OPCApplicationName c,
         yc_OPCApplicationURI = OPCApplicationURI c, yc_OPCUseSubscriptions = Some (OPCUseSubscriptions c),
         yc_OPCPublishInterval = durationToString (OPCPublishInterval c),
         yc_OPCSamplingInterval = durationToString (OPCSamplingInterval c), yc_S7Rack = S7Rack c, yc_S7Slot = S7Slot c\<rparr>,
      yd_Tags = map convertToTagConfig (Tags d), yd_Metadata = dev_Metadata d\<rparr>)"

definition file_of_devices :: "device list \<Rightarrow> devices_file" where
  "file_of_devices devices = \<lparr>df_Version = ''1.0'', df_Devices = map convertToDeviceConfig devices\<rparr>"

text \<open>The mode \<open>0600\<close> is 384.\<close>

definition SaveDevices :: "'w file_env \<Rightarrow> string \<Rightarrow> device list \<Rightarrow> 'w \<Rightarrow> err option \<times> 'w" where
  "SaveDevices env path devices w =
     (case fe_Marshal env (file_of_devices devices) of
        Inl e \<Rightarrow> (Some (WrapPre ''failed to marshal devices: '' e), w)
      | Inr data \<Rightarrow>
          (case fe_WriteFile env path data 384 w of
             (Some e, w1) \<Rightarrow> (Some (WrapPre ''failed to write devices file: '' e), w1)
           | (None, w1) \<Rightarrow> (None, w1)))"

section \<open>Texts are read back\<close>

lemma enum_texts [simp]:
  "protocol_text (protocol_of_text s) = s"
  "data_type_text (data_type_of_text s) = s"
  "register_type_text (register_type_of_text s) = s"
  "byte_order_text (byte_order_of_text s) = s"
  "access_mode_text (access_mode_of_text s) = s"
  "deadband_type_text (deadband_type_of_text s) = s"
  by (simp_all add: protocol_of_text_def data_type_of_text_def register_type_of_text_def byte_order_of_text_def
      access_mode_of_text_def deadband_type_of_text_def)

lemma duration_String_ne [simp]: "duration_String d \<noteq> []"
proof (cases "d = 0")
  case False
  have "\<And>u. magnitude_text u \<noteq> []"
    by (simp add: magnitude_text_def print_small_def print_large_def Let_def split: prod.split)
  then show ?thesis using False by (simp add: duration_String_def Let_def)
qed (simp add: duration_String_def)

lemma interval_read_back: "int64 d \<Longrightarrow> interval_or dflt what (duration_String d) = Inr d"
  by (simp add: interval_or_def duration_read_back)

lemma interval_read_back_zero: "int64 d \<Longrightarrow> interval_or 0 what (durationToString d) = Inr d"
  by (simp add: interval_or_def durationToString_def duration_read_back)

lemma interval_int64: "interval_or dflt what s = Inr d \<Longrightarrow> int64 dflt \<Longrightarrow> int64 d"
  by (auto simp: interval_or_def split: if_splits sum.splits dest: ParseDuration_int64)

section \<open>Tags\<close>

text \<open>What a tag of a file is like: the defaults are filled in, and the file can say it again.\<close>

definition file_tag :: "tag \<Rightarrow> bool" where
  "file_tag t \<longleftrightarrow> convertTagConfig (convertToTagConfig t) = Inr t \<and> RegisterCount t \<noteq> 0
     \<and> ByteOrder t \<noteq> ByteOrder_other [] \<and> \<not> f64_eq (ScaleFactor t) f64_zero"

lemma byte_order_other_iff [simp]: "byte_order_of_text s = ByteOrder_other [] \<longleftrightarrow> s = []"
  by (simp add: byte_order_of_text_def)

lemma converted_tag:
  assumes "convertTagConfig tc = Inr t"
  shows "file_tag t" "tag_ID t = yt_ID tc"
proof -
  define pi where "pi = tag_PollInterval t"
  define bo where "bo = (if yt_ByteOrder tc = [] then ByteOrderBigEndian else byte_order_of_text (yt_ByteOrder tc))"
  define am where "am = (if yt_AccessMode tc = [] then AccessModeReadOnly else access_mode_of_text (yt_AccessMode tc))"
  define rc where "rc = (if (word_of_int (yt_RegisterCount tc) :: u16) = 0 then 1 else word_of_int (yt_RegisterCount tc) :: u16)"
  define sf where "sf = (if f64_eq (yt_ScaleFactor tc) f64_zero then f64_one else yt_ScaleFactor tc)"
  define bp where "bp = (map_option word_of_int (yt_BitPosition tc) :: u8 option)"
  have pi: "case pi of None \<Rightarrow> True | Some d \<Rightarrow> int64 d"
    using assms by (auto simp: convertTagConfig_def Let_def pi_def split: if_splits sum.splits dest: ParseDuration_int64)
  have t: "t = zero_tag\<lparr>tag_ID := yt_ID tc, tag_Name := yt_Name tc, tag_Description := yt_Description tc,
               DataType := data_type_of_text (yt_DataType tc), ScaleFactor := sf, Offset := yt_Offset tc,
               tag_Unit := yt_Unit tc, TopicSuffix := yt_TopicSuffix tc, tag_PollInterval := pi,
               DeadbandType := deadband_type_of_text (yt_DeadbandType tc), DeadbandValue := yt_DeadbandValue tc,
               tag_Enabled := yt_Enabled tc, AccessMode := am, tag_Metadata := yt_Metadata tc,
               Address := word_of_int (yt_Address tc), RegisterType := register_type_of_text (yt_RegisterType tc),
               ByteOrder := bo, RegisterCount := rc, BitPosition := bp,
               OPCNodeID := yt_OPCNodeID tc, S7Address := yt_S7Address tc\<rparr>"
    using assms by (auto simp: convertTagConfig_def Let_def pi_def bo_def am_def rc_def sf_def bp_def split: if_splits sum.splits)
  have bo': "byte_order_text bo \<noteq> []" "byte_order_of_text (byte_order_text bo) = bo" "bo \<noteq> ByteOrder_other []"
    by (auto simp: bo_def) (simp add: byte_order_of_text_def)
  have am': "access_mode_text am \<noteq> []" "access_mode_of_text (access_mode_text am) = am"
    by (auto simp: am_def) (simp add: access_mode_of_text_def)
  have rc': "rc \<noteq> 0" by (simp add: rc_def)
  have sf': "\<not> f64_eq sf f64_zero" by (simp add: sf_def f64_one_not_zero)
  have bp': "map_option word_of_int (map_option uint bp) = bp" by (cases bp) simp_all
  have pd: "(if (case pi of None \<Rightarrow> [] | Some d \<Rightarrow> duration_String d) = [] then Inr None
       else case ParseDuration (case pi of None \<Rightarrow> [] | Some d \<Rightarrow> duration_String d) of
         Inl e \<Rightarrow> Inl (WrapPre ''invalid poll interval: '' e) | Inr d \<Rightarrow> Inr (Some d)) = Inr pi"
    using pi by (cases pi) (simp_all add: duration_read_back)
  have sel: "yt_PollInterval (convertToTagConfig t) = (case pi of None \<Rightarrow> [] | Some d \<Rightarrow> duration_String d)"
    "yt_BitPosition (convertToTagConfig t) = map_option uint bp" "yt_ScaleFactor (convertToTagConfig t) = sf"
    "yt_ByteOrder (convertToTagConfig t) = byte_order_text bo" "yt_RegisterCount (convertToTagConfig t) = uint rc"
    "yt_AccessMode (convertToTagConfig t) = access_mode_text am"
    by (simp_all add: convertToTagConfig_def t)
  have "convertTagConfig (convertToTagConfig t) = Inr t"
    unfolding convertTagConfig_def sel pd sum.case Let_def bp' bo'(2) am'(2)
    by (simp add: bo' am' rc' sf') (simp add: convertToTagConfig_def t)
  then show "file_tag t" using bo' rc' sf' by (simp add: file_tag_def t)
  show "tag_ID t = yt_ID tc" by (simp add: t)
qed

text \<open>Validation changes nothing in it.\<close>

lemma file_tag_validated:
  assumes "file_tag t" "ValidateForProtocol t p = (t', None)"
  shows "t' = t"
proof -
  have m: "validate_modbus_tag t = (s, None) \<Longrightarrow> s = t" for s
    using assms(1) by (auto simp: validate_modbus_tag_def file_tag_def Let_def split: if_splits)
  have "default_scale t = t" using assms(1) by (simp add: default_scale_def file_tag_def)
  then show ?thesis using assms(2) m
    by (auto simp: ValidateForProtocol_def split: if_splits protocol.splits prod.splits option.splits)
qed

lemma file_tags_validated:
  "\<forall>t\<in>set ts. file_tag t \<Longrightarrow> validate_tags d p ts = (ts', None) \<Longrightarrow> ts' = ts"
proof (induction ts arbitrary: ts')
  case (Cons t ts)
  obtain t1 where t: "ValidateForProtocol t p = (t1, None)"
    using Cons.prems(2) by (auto split: prod.splits option.splits)
  obtain ts1 where ts: "validate_tags d p ts = (ts1, None)" "ts' = t1 # ts1"
    using Cons.prems(2) by (auto simp: t split: prod.splits)
  then show ?case using Cons.IH [OF _ ts(1)] Cons.prems(1) file_tag_validated [OF _ t] by simp
qed simp

lemma convert_tags_file: "convert_tags tcs = Inr ts \<Longrightarrow> \<forall>t\<in>set ts. file_tag t"
proof (induction tcs arbitrary: ts)
  case (Cons tc tcs)
  obtain t ts' where "convertTagConfig tc = Inr t" "convert_tags tcs = Inr ts'" "ts = t # ts'"
    using Cons.prems by (auto split: sum.splits)
  then show ?case using Cons.IH converted_tag by auto
qed simp

lemma convert_saved_tags: "\<forall>t\<in>set ts. file_tag t \<Longrightarrow> convert_tags (map convertToTagConfig ts) = Inr ts"
  by (induction ts) (simp_all add: file_tag_def)

section \<open>Devices\<close>

text \<open>
  What a loaded device is like.  Loading it from the file again gives it back, with the times of the
  new load.
\<close>

definition file_device :: "device \<Rightarrow> bool" where
  "file_device d \<longleftrightarrow> validateConnectionConfig (convertToDeviceConfig d) = None
     \<and> (\<forall>t1 t2. convertDeviceConfig t1 t2 (convertToDeviceConfig d) = Inr (d\<lparr>CreatedAt := t1, UpdatedAt := t2\<rparr>))"

lemma validated_device:
  assumes "ValidateDevice d = (d', None)" "\<forall>t\<in>set (Tags d). file_tag t"
  shows "d' = d"
proof -
  obtain ts where "validate_tags (dev_ID d) (dev_Protocol d) (Tags d) = (ts, None)" "d' = d\<lparr>Tags := ts\<rparr>"
    using assms(1) by (auto simp: ValidateDevice_def split: if_splits prod.splits)
  then show ?thesis using file_tags_validated [OF assms(2)] by fastforce
qed

lemma validated_other_times:
  "ValidateDevice d = (d, None) \<Longrightarrow> ValidateDevice (d\<lparr>CreatedAt := t1, UpdatedAt := t2\<rparr>) = (d\<lparr>CreatedAt := t1, UpdatedAt := t2\<rparr>, None)"
proof -
  assume v: "ValidateDevice d = (d, None)"
  obtain ts where ts: "validate_tags (dev_ID d) (dev_Protocol d) (Tags d) = (ts, None)" "d = d\<lparr>Tags := ts\<rparr>"
    using v by (auto simp: ValidateDevice_def split: if_splits prod.splits)
  have "Tags d = ts" by (subst ts(2)) simp
  then show ?thesis using v ts(1) by (auto simp: ValidateDevice_def split: if_splits)
qed

lemma converted_device:
  assumes "convertDeviceConfig t1 t2 dc = Inr d"
  obtains timeout retryDelay publish sampling tags pollInterval where
    "int64 timeout" "int64 retryDelay" "int64 publish" "int64 sampling" "int64 pollInterval"
    "convert_tags (yd_Tags dc) = Inr tags"
    "d = build_device t1 t2 dc (convert_connection dc timeout retryDelay publish sampling) tags pollInterval"
    "ValidateDevice d = (d, None)"
proof -
  let ?c = "yd_Connection dc"
  obtain timeout where 1: "interval_or (5 * second) ''invalid timeout: '' (yc_Timeout ?c) = Inr timeout"
    using assms by (auto simp: convertDeviceConfig_def Let_def split: sum.splits)
  obtain retryDelay where 2: "interval_or (100 * millisecond) ''invalid retry delay: '' (yc_RetryDelay ?c) = Inr retryDelay"
    using assms by (auto simp: convertDeviceConfig_def Let_def split: sum.splits)
  obtain publish where 3: "interval_or 0 ''invalid opc_publish_interval: '' (yc_OPCPublishInterval ?c) = Inr publish"
    using assms by (auto simp: convertDeviceConfig_def Let_def split: sum.splits)
  obtain sampling where 4: "interval_or 0 ''invalid opc_sampling_interval: '' (yc_OPCSamplingInterval ?c) = Inr sampling"
    using assms by (auto simp: convertDeviceConfig_def Let_def split: sum.splits)
  obtain tags where 5: "convert_tags (yd_Tags dc) = Inr tags"
    using assms by (auto simp: convertDeviceConfig_def Let_def split: sum.splits)
  obtain pollInterval where 6: "interval_or second ''invalid poll interval: '' (yd_PollInterval dc) = Inr pollInterval"
    using assms by (auto simp: convertDeviceConfig_def Let_def split: sum.splits)
  let ?d = "build_device t1 t2 dc (convert_connection dc timeout retryDelay publish sampling) tags pollInterval"
  have v: "ValidateDevice ?d = (d, None)"
    using assms unfolding convertDeviceConfig_def Let_def 1 2 3 4 5 6 sum.case by (simp split: prod.splits option.splits)
  have "\<forall>t\<in>set (Tags ?d). file_tag t" using convert_tags_file [OF 5] by (simp add: build_device_def)
  from validated_device [OF v this] have d: "d = ?d" .
  have i: "int64 timeout" "int64 retryDelay" "int64 publish" "int64 sampling" "int64 pollInterval"
    using interval_int64 [OF 1] interval_int64 [OF 2] interval_int64 [OF 3] interval_int64 [OF 4] interval_int64 [OF 6]
    by (simp_all add: int64_def)
  show ?thesis by (rule that [OF i 5 d]) (use v d in simp)
qed

lemma slave_id_kept: "1 \<le> s \<Longrightarrow> s \<le> 247 \<Longrightarrow> uint (word_of_int s :: u8) = s"
  by (simp add: word_of_int_inverse)

lemma loaded_file_device:
  assumes c: "convertDeviceConfig t1 t2 dc = Inr d" and v: "validateConnectionConfig dc = None"
  shows "file_device d" "dev_ID d = yd_ID dc" "CreatedAt d = t1" "UpdatedAt d = t2"
proof -
  obtain timeout retryDelay publish sampling tags pollInterval where
    i: "int64 timeout" "int64 retryDelay" "int64 publish" "int64 sampling" "int64 pollInterval"
    and t: "convert_tags (yd_Tags dc) = Inr tags"
    and d: "d = build_device t1 t2 dc (convert_connection dc timeout retryDelay publish sampling) tags pollInterval"
    and ok: "ValidateDevice d = (d, None)"
    by (rule converted_device [OF c])
  let ?cn = "convert_connection dc timeout retryDelay publish sampling"
  let ?dc = "convertToDeviceConfig d"
  have s: "Connection d = ?cn" "Tags d = tags" "PollInterval d = pollInterval" "dev_Protocol d = protocol_of_text (yd_Protocol dc)"
    by (simp_all add: d build_device_def)
  have cn: "Timeout ?cn = timeout" "RetryDelay ?cn = retryDelay" "OPCPublishInterval ?cn = publish" "OPCSamplingInterval ?cn = sampling"
    by (simp_all add: convert_connection_def Let_def)
  have "validateConnectionConfig ?dc = None"
    using v
    by (auto simp: validateConnectionConfig_def convertToDeviceConfig_def d build_device_def convert_connection_def Let_def
        validate_modbus_connection_def slave_id_kept split: protocol.splits if_splits)
  moreover have "convertDeviceConfig u1 u2 ?dc = Inr (d\<lparr>CreatedAt := u1, UpdatedAt := u2\<rparr>)" for u1 u2
  proof -
    have sel: "yc_Timeout (yd_Connection ?dc) = duration_String timeout" "yc_RetryDelay (yd_Connection ?dc) = duration_String retryDelay"
      "yc_OPCPublishInterval (yd_Connection ?dc) = durationToString publish"
      "yc_OPCSamplingInterval (yd_Connection ?dc) = durationToString sampling"
      "yd_PollInterval ?dc = duration_String pollInterval" "yd_Tags ?dc = map convertToTagConfig tags"
      by (simp_all add: convertToDeviceConfig_def Let_def s cn)
    have b: "build_device u1 u2 ?dc (convert_connection ?dc timeout retryDelay publish sampling) tags pollInterval
        = d\<lparr>CreatedAt := u1, UpdatedAt := u2\<rparr>"
      by (simp add: d build_device_def convertToDeviceConfig_def convert_connection_def opcUseSubscriptions_def Let_def)
    show ?thesis
      unfolding convertDeviceConfig_def Let_def sel
      by (simp add: interval_read_back interval_read_back_zero i convert_saved_tags [OF convert_tags_file [OF t]] b
          validated_other_times [OF ok])
  qed
  ultimately show "file_device d" by (simp add: file_device_def)
  show "dev_ID d = yd_ID dc" "CreatedAt d = t1" "UpdatedAt d = t2" by (simp_all add: d build_device_def)
qed

section \<open>The loop over the devices\<close>

text \<open>What a load makes of each device, given the two times it reads for it.\<close>

fun loaded_as :: "(time \<Rightarrow> time \<Rightarrow> device \<Rightarrow> device) \<Rightarrow> (nat \<Rightarrow> time) \<Rightarrow> nat \<Rightarrow> device list \<Rightarrow> device list" where
  "loaded_as f clock idx [] = []"
| "loaded_as f clock idx (d # ds) = f (clock (2 * idx)) (clock (2 * idx + 1)) d # loaded_as f clock (Suc idx) ds"

definition restamp :: "time \<Rightarrow> time \<Rightarrow> device \<Rightarrow> device" where
  "restamp t1 t2 d = d\<lparr>CreatedAt := t1, UpdatedAt := t2\<rparr>"

lemma load_loop_devices:
  "load_loop clock seen idx dcs = Inr ds \<Longrightarrow> (\<forall>d\<in>set ds. file_device d)
     \<and> map dev_ID ds = map yd_ID dcs \<and> distinct (map dev_ID ds) \<and> (\<forall>d\<in>set ds. seen (dev_ID d) = None)"
proof (induction dcs arbitrary: seen idx ds)
  case (Cons dc dcs)
  have sn: "seen (yd_ID dc) = None" using Cons.prems by (auto split: option.splits)
  have v: "validateConnectionConfig dc = None" using Cons.prems by (auto simp: sn split: option.splits)
  obtain d where d: "convertDeviceConfig (clock (2 * idx)) (clock (2 * idx + 1)) dc = Inr d"
    using Cons.prems by (auto simp: sn v split: sum.splits)
  obtain ds' where ds': "load_loop clock (seen(yd_ID dc \<mapsto> idx)) (Suc idx) dcs = Inr ds'" "ds = d # ds'"
    using Cons.prems d by (auto simp: sn v split: sum.splits)
  note l = loaded_file_device [OF d v]
  have ih: "\<forall>d\<in>set ds'. file_device d" "map dev_ID ds' = map yd_ID dcs" "distinct (map dev_ID ds')"
    "\<forall>d\<in>set ds'. (seen(yd_ID dc \<mapsto> idx)) (dev_ID d) = None"
    using Cons.IH [OF ds'(1)] by blast+
  have "\<forall>e\<in>set ds'. dev_ID e \<noteq> dev_ID d \<and> seen (dev_ID e) = None"
    using ih(4) l(2) by (metis fun_upd_apply option.distinct(1))
  then have "dev_ID d \<notin> dev_ID ` set ds'" "\<forall>e\<in>set ds'. seen (dev_ID e) = None" by auto
  then have "distinct (map dev_ID (d # ds'))" "\<forall>e\<in>set (d # ds'). seen (dev_ID e) = None"
    "\<forall>e\<in>set (d # ds'). file_device e"
    using ih(1,3) l(1,2) sn by simp_all
  moreover have "map dev_ID (d # ds') = map yd_ID (dc # dcs)" using ih(2) l(2) by simp
  ultimately show ?case unfolding ds'(2) by blast
qed simp

lemma load_loop_saved:
  "\<forall>d\<in>set ds. validateConnectionConfig (convertToDeviceConfig d) = None
       \<and> (\<forall>t1 t2. convertDeviceConfig t1 t2 (convertToDeviceConfig d) = Inr (f t1 t2 d))
     \<Longrightarrow> distinct (map dev_ID ds) \<Longrightarrow> \<forall>d\<in>set ds. seen (dev_ID d) = None
     \<Longrightarrow> load_loop clock seen idx (map convertToDeviceConfig ds) = Inr (loaded_as f clock idx ds)"
proof (induction ds arbitrary: seen idx)
  case (Cons d ds)
  have id: "yd_ID (convertToDeviceConfig d) = dev_ID d" by (simp add: convertToDeviceConfig_def Let_def)
  have "\<forall>e\<in>set ds. (seen(dev_ID d \<mapsto> idx)) (dev_ID e) = None"
    using Cons.prems(2,3) by (auto simp: image_iff)
  then have "load_loop clock (seen(dev_ID d \<mapsto> idx)) (Suc idx) (map convertToDeviceConfig ds) = Inr (loaded_as f clock (Suc idx) ds)"
    using Cons.IH Cons.prems(1,2) by simp
  then show ?case using Cons.prems(1,3) by (simp add: id)
qed simp

lemma file_of_devices_distinct:
  assumes "LoadDevices env clock path w = Inr ds"
  shows "\<forall>d\<in>set ds. file_device d" "distinct (map dev_ID ds)"
proof -
  obtain fl :: devices_file where "load_loop clock Map.empty 0 (df_Devices fl) = Inr ds"
    using assms by (auto simp: LoadDevices_def split: sum.splits)
  then show "\<forall>d\<in>set ds. file_device d" "distinct (map dev_ID ds)" using load_loop_devices by blast+
qed

section \<open>What loaded devices satisfy\<close>

definition connection_complete :: "device \<Rightarrow> bool" where
  "connection_complete d = (let c = Connection d in
     case dev_Protocol d of
       ProtocolModbusTCP \<Rightarrow> Host c \<noteq> [] \<and> Port c \<noteq> 0 \<and> 1 \<le> SlaveID c \<and> SlaveID c \<le> 247
     | ProtocolModbusRTU \<Rightarrow> Host c \<noteq> [] \<and> Port c \<noteq> 0 \<and> 1 \<le> SlaveID c \<and> SlaveID c \<le> 247
     | ProtocolOPCUA \<Rightarrow> OPCEndpointURL c \<noteq> []
     | ProtocolS7 \<Rightarrow> Host c \<noteq> [] \<and> 0 \<le> S7Rack c \<and> 0 \<le> S7Slot c
     | _ \<Rightarrow> True)"

lemma slave_id_range: "\<not> (uint s < 1 \<or> 247 < uint s) \<longleftrightarrow> 1 \<le> s \<and> s \<le> 247" for s :: u8
  by (simp add: word_le_def not_less)

lemma saved_connection_valid:
  assumes "protocol_of_text (protocol_text (dev_Protocol d)) = dev_Protocol d"
  shows "validateConnectionConfig (convertToDeviceConfig d) = None \<longleftrightarrow> connection_complete d"
proof -
  let ?c = "yd_Connection (convertToDeviceConfig d)"
  have p: "protocol_of_text (yd_Protocol (convertToDeviceConfig d)) = dev_Protocol d"
    using assms by (simp add: convertToDeviceConfig_def Let_def)
  have c: "yc_Host ?c = Host (Connection d)" "yc_Port ?c = Port (Connection d)" "yc_SlaveID ?c = uint (SlaveID (Connection d))"
    "yc_OPCEndpointURL ?c = OPCEndpointURL (Connection d)" "yc_S7Rack ?c = S7Rack (Connection d)" "yc_S7Slot ?c = S7Slot (Connection d)"
    by (simp_all add: convertToDeviceConfig_def Let_def)
  have m: "validate_modbus_connection ?c = None \<longleftrightarrow>
      Host (Connection d) \<noteq> [] \<and> Port (Connection d) \<noteq> 0 \<and> 1 \<le> SlaveID (Connection d) \<and> SlaveID (Connection d) \<le> 247"
    unfolding slave_id_range [symmetric] by (simp add: validate_modbus_connection_def c)
  show ?thesis
    by (cases "dev_Protocol d") (simp_all add: validateConnectionConfig_def p c m connection_complete_def not_less Let_def)
qed

lemma file_device_valid:
  assumes "file_device d"
  shows "ValidateDevice d = (d, None)" "connection_complete d"
proof -
  have c: "convertDeviceConfig (CreatedAt d) (UpdatedAt d) (convertToDeviceConfig d) = Inr d"
    using assms by (simp add: file_device_def)
  obtain cn tags pollInterval where d: "d = build_device (CreatedAt d) (UpdatedAt d) (convertToDeviceConfig d) cn tags pollInterval"
    and v: "ValidateDevice d = (d, None)" using converted_device [OF c] by metis
  show "ValidateDevice d = (d, None)" by (rule v)
  have "dev_Protocol d = protocol_of_text (protocol_text (dev_Protocol d))"
    by (subst d) (simp add: build_device_def convertToDeviceConfig_def Let_def)
  then show "connection_complete d" using saved_connection_valid assms by (simp add: file_device_def)
qed

lemma loaded_ids:
  assumes "LoadDevices env clock path w = Inr ds" "fe_ReadFile env path w = Inr data" "fe_Unmarshal env data = Inr fl"
  shows "map dev_ID ds = map yd_ID (df_Devices fl)"
  using assms load_loop_devices by (fastforce simp: LoadDevices_def)

section \<open>An example\<close>

definition demo_yaml_tag :: yaml_tag where
  "demo_yaml_tag = \<lparr>yt_ID = ''t1'', yt_Name = ''flow'', yt_Description = [], yt_DataType = ''float32'', yt_ScaleFactor = 0,
     yt_Offset = 0, yt_Unit = [], yt_TopicSuffix = ''flow'', yt_PollInterval = ''250ms'', yt_DeadbandType = [],
     yt_DeadbandValue = 0, yt_Enabled = True, yt_AccessMode = [], yt_Metadata = Map.empty, yt_Address = 40,
     yt_RegisterType = ''holding_register'', yt_ByteOrder = [], yt_RegisterCount = 2, yt_BitPosition = None,
     yt_OPCNodeID = [], yt_S7Address = []\<rparr>"

definition demo_yaml_connection :: yaml_connection where
  "demo_yaml_connection = \<lparr>yc_Host = ''plc'', yc_Port = 502, yc_Timeout = [], yc_RetryCount = 3, yc_RetryDelay = [],
     yc_SlaveID = 1, yc_OPCEndpointURL = [], yc_OPCSecurityPolicy = [], yc_OPCSecurityMode = [], yc_OPCAuthMode = [],
     yc_OPCUsername = [], yc_OPCPassword = [], yc_OPCCertFile = [], yc_OPCKeyFile = [], yc_OPCServerCertFile = [],
     yc_OPCInsecureSkipVerify = False, yc_OPCAutoSelectEndpoint = False, yc_OPCApplicationName = [],
     yc_OPCApplicationURI = [], yc_OPCUseSubscriptions = None, yc_OPCPublishInterval = [],
     yc_OPCSamplingInterval = [], yc_S7Rack = 0, yc_S7Slot = 0\<rparr>"

definition demo_yaml :: yaml_device where
  "demo_yaml = \<lparr>yd_ID = ''d1'', yd_Name = ''pump'', yd_Description = [], yd_Protocol = ''modbus-tcp'', yd_Enabled = True,
     yd_UNSPrefix = ''plant'', yd_PollInterval = ''2s'', yd_Connection = demo_yaml_connection,
     yd_Tags = [demo_yaml_tag], yd_Metadata = Map.empty\<rparr>"

definition demo_tag :: tag where
  "demo_tag = zero_tag\<lparr>tag_ID := ''t1'', tag_Name := ''flow'', DataType := DataTypeFloat32, ScaleFactor := f64_one,
     TopicSuffix := ''flow'', tag_PollInterval := Some (250 * millisecond), tag_Enabled := True,
     AccessMode := AccessModeReadOnly, Address := 40, RegisterType := RegisterTypeHoldingRegister,
     ByteOrder := ByteOrderBigEndian, RegisterCount := 2\<rparr>"

definition demo_loaded :: device where
  "demo_loaded = build_device 5 5 demo_yaml
     (convert_connection demo_yaml (5 * second) (100 * millisecond) 0 0) [demo_tag] (2 * second)"

definition demo_env :: "(string \<rightharpoonup> bytes) file_env" where
  "demo_env = \<lparr>
     fe_ReadFile = (\<lambda>p w. case w p of None \<Rightarrow> Inl (Plain ''no such file'') | Some b \<Rightarrow> Inr b),
     fe_WriteFile = (\<lambda>p b m w. (None, w(p \<mapsto> b))),
     fe_Unmarshal = (\<lambda>b. if b = [0] then Inr \<lparr>df_Version = ''1.0'', df_Devices = [demo_yaml]\<rparr>
        else Inr (file_of_devices [demo_loaded])),
     fe_Marshal = (\<lambda>f. Inr [1])\<rparr>"

lemma plain_duration:
  assumes "unit_text u" "unitMap u = Some n" "0 < n" "v * n < 2 ^ 63"
  shows "ParseDuration (show_nat v @ u) = Inr (int (v * n))"
proof -
  have "u \<noteq> []" using assms(1) by (simp add: unit_text_def)
  then have b: "term_body (show_nat v @ u)" by (auto simp: term_body_def)
  have "parse_term orig 0 (show_nat v @ u @ []) = Inr (0 + v * n, [])" for orig
    by (rule parse_term_plain [OF assms(1) _ assms(2,3)]) (use assms(4) in \<open>simp_all add: term_start_def\<close>)
  then have "parse_terms orig 0 (show_nat v @ u) = Inr (v * n)" for orig using parse_terms_step by fastforce
  then show ?thesis using assms(4) term_body_start [OF b] by (simp add: ParseDuration_def strip_sign_body [OF b])
qed

lemma demo_durations:
  "ParseDuration ''250ms'' = Inr (250 * millisecond)" "ParseDuration ''2s'' = Inr (2 * second)"
proof -
  have "show_nat 250 = ''250''" "show_nat 2 = ''2''" by code_simp+
  then show "ParseDuration ''250ms'' = Inr (250 * millisecond)" "ParseDuration ''2s'' = Inr (2 * second)"
    using plain_duration [OF unit_texts(3) unit_values(3), of 250] plain_duration [OF unit_texts(4) unit_values(4), of 2]
    by simp_all
qed

lemma zero_eq_zero: "f64_eq f64_zero f64_zero"
  by (simp add: f64_eq_def f64_dec_def fp_decode_def decode_mag_def float_consts signed_mag_def)

lemma demo_tag_converted: "convertTagConfig demo_yaml_tag = Inr demo_tag"
  unfolding convertTagConfig_def demo_yaml_tag_def
  by (simp add: demo_durations zero_eq_zero demo_tag_def zero_tag_def data_type_of_text_def deadband_type_of_text_def
      register_type_of_text_def)

lemma demo_validated: "ValidateDevice demo_loaded = (demo_loaded, None)"
proof -
  have "validate_modbus_tag demo_tag = (demo_tag, None)"
    by (simp add: validate_modbus_tag_def demo_tag_def zero_tag_def ExpectedRegisterCount_def Let_def)
  then have "ValidateForProtocol demo_tag ProtocolModbusTCP = (demo_tag, None)"
    using f64_one_not_zero by (simp add: ValidateForProtocol_def default_scale_def) (simp add: demo_tag_def zero_tag_def)
  then show ?thesis
    by (simp add: ValidateDevice_def demo_loaded_def build_device_def demo_yaml_def protocol_of_text_def)
qed

lemma demo_load: "LoadDevices demo_env (\<lambda>_. 5) ''a'' [''a'' \<mapsto> [0]] = Inr [demo_loaded]"
proof -
  have c: "validateConnectionConfig demo_yaml = None"
    by (simp add: validateConnectionConfig_def demo_yaml_def protocol_of_text_def validate_modbus_connection_def demo_yaml_connection_def)
  have "convertDeviceConfig 5 5 demo_yaml = Inr demo_loaded"
    using demo_validated
    by (simp add: convertDeviceConfig_def interval_or_def demo_yaml_connection_def demo_yaml_def [THEN arg_cong, of yd_Connection]
        demo_yaml_def [THEN arg_cong, of yd_Tags] demo_yaml_def [THEN arg_cong, of yd_PollInterval]
        demo_durations demo_tag_converted demo_loaded_def)
  then show ?thesis using c by (simp add: LoadDevices_def demo_env_def)
qed

section \<open>Properties\<close>

text \<open>
  Devices that were loaded, saved and loaded again are the same devices in the same order, up to the
  times of the load: every interval, enumeration, number and default survives the text form, no ID
  clashes and no device is refused.  The YAML library reads back the file at hand, and a file that was
  written is read as it was written.
\<close>

theorem saved_devices_reload:
  assumes "LoadDevices env clock path w = Inr devices"
    and "SaveDevices env path' devices w1 = (None, w2)"
    and yaml: "\<And>data. fe_Marshal env (file_of_devices devices) = Inr data
      \<Longrightarrow> fe_Unmarshal env data = Inr (file_of_devices devices)"
    and files: "\<And>data w'. fe_WriteFile env path' data 384 w1 = (None, w') \<Longrightarrow> fe_ReadFile env path' w' = Inr data"
  shows "LoadDevices env clock' path' w2 = Inr (loaded_as restamp clock' 0 devices)"
proof -
  obtain data where d: "fe_Marshal env (file_of_devices devices) = Inr data" "fe_WriteFile env path' data 384 w1 = (None, w2)"
    using assms(2) by (auto simp: SaveDevices_def split: sum.splits prod.splits option.splits)
  have "load_loop clock' Map.empty 0 (map convertToDeviceConfig devices) = Inr (loaded_as restamp clock' 0 devices)"
    by (rule load_loop_saved) (use file_of_devices_distinct [OF assms(1)] in \<open>simp_all add: file_device_def restamp_def\<close>)
  then show ?thesis by (simp add: LoadDevices_def files [OF d(2)] yaml [OF d(1)] file_of_devices_def)
qed

theorem saved_devices_reload_witness:
  "LoadDevices demo_env (\<lambda>_. 9) ''b'' [''a'' \<mapsto> [0], ''b'' \<mapsto> [1]] = Inr [demo_loaded\<lparr>CreatedAt := 9, UpdatedAt := 9\<rparr>]"
proof -
  have "SaveDevices demo_env ''b'' [demo_loaded] [''a'' \<mapsto> [0]] = (None, [''a'' \<mapsto> [0], ''b'' \<mapsto> [1]])"
    by (simp add: SaveDevices_def demo_env_def)
  from saved_devices_reload [OF demo_load this, of "\<lambda>_. 9"] show ?thesis by (auto simp: demo_env_def restamp_def)
qed

text \<open>
  C21: What the loader returns is fit for use: the IDs are distinct, every device has passed validation
  with its defaults filled in, and its connection has what the adapter of its protocol needs (a slave
  ID from 1 to 247 under Modbus).
\<close>

theorem loaded_devices_valid:
  assumes "LoadDevices env clock path w = Inr devices"
  shows "distinct (map dev_ID devices)
    \<and> (\<forall>d\<in>set devices. ValidateDevice d = (d, None) \<and> connection_complete d)"
  using file_of_devices_distinct [OF assms] file_device_valid by blast

theorem loaded_devices_valid_witness:
  "ValidateDevice demo_loaded = (demo_loaded, None) \<and> connection_complete demo_loaded"
  using loaded_devices_valid [OF demo_load] by simp

text \<open>
  The loader sets a register count that the file leaves out to 1 before it validates, so that the
  validation does not infer it: a Modbus tag of 32 or 64 bits without \<open>register_count\<close> is refused.
\<close>

theorem wide_tag_needs_register_count:
  assumes "convertTagConfig tc = Inr t" "yt_RegisterCount tc = 0" "1 < ExpectedRegisterCount t" "is_modbus p"
  shows "\<exists>t' e. ValidateForProtocol t p = (t', Some e)"
proof -
  have r: "RegisterCount t = 1"
    using assms(1,2) by (auto simp: convertTagConfig_def Let_def split: if_splits sum.splits)
  have "\<exists>e. validate_modbus_tag t = (t, Some e)"
    using assms(3) by (auto simp: validate_modbus_tag_def r Let_def)
  then show ?thesis using assms(4) by (auto simp: ValidateForProtocol_def is_modbus_def split: option.splits)
qed

theorem wide_tag_needs_register_count_witness:
  "\<exists>t' e. ValidateForProtocol (demo_tag\<lparr>RegisterCount := 1\<rparr>) ProtocolModbusTCP = (t', Some e)"
proof -
  have "convertTagConfig (demo_yaml_tag\<lparr>yt_RegisterCount := 0\<rparr>) = Inr (demo_tag\<lparr>RegisterCount := 1\<rparr>)"
    unfolding convertTagConfig_def demo_yaml_tag_def
    by (simp add: demo_durations zero_eq_zero demo_tag_def zero_tag_def data_type_of_text_def deadband_type_of_text_def
        register_type_of_text_def)
  from wide_tag_needs_register_count [OF this, of ProtocolModbusTCP] show ?thesis
    by (simp add: demo_yaml_tag_def demo_tag_def zero_tag_def ExpectedRegisterCount_def is_modbus_def)
qed

text \<open>Addresses and bit positions out of range are cut without an error.\<close>

lemma tag_numbers_cut:
  assumes "convertTagConfig tc = Inr t"
  shows "uint (Address t) = yt_Address tc mod 2 ^ 16"
    "\<And>b. yt_BitPosition tc = Some b \<Longrightarrow> map_option uint (BitPosition t) = Some (b mod 2 ^ 8)"
  using assms by (auto simp: convertTagConfig_def Let_def uint_word_of_int split: if_splits sum.splits)

end
