(* ===== verification/Device_Manager.thy ===== *)
theory Device_Manager
  imports Device_Config
begin

text \<open>
  The device manager of \<open>internal/api/handlers.go\<close>: the devices by their ID, kept in step with the
  device file, and the normalisation of the tags' topic suffixes.  The order in which Go ranges over the
  map is a function of the environment.  A call that never returns is \<open>None\<close>: the loop that makes a
  suffix unique can run forever.
\<close>

section \<open>Topic suffixes\<close>

text \<open>\<open>strings.Trim(s, "_")\<close> and the four \<open>ReplaceAll\<close>.\<close>

definition trim_underscores :: "string \<Rightarrow> string" where
  "trim_underscores s = rev (dropWhile (\<lambda>c. c = CHR ''_'') (rev (dropWhile (\<lambda>c. c = CHR ''_'') s)))"

definition replace_reserved :: "string \<Rightarrow> string" where
  "replace_reserved s = map (\<lambda>c. if c \<in> set ''/#+ '' then CHR ''_'' else c) s"

text \<open>The suffix of the tag at index \<open>i\<close> before it is made unique.\<close>

definition chosen_suffix :: "nat \<Rightarrow> tag \<Rightarrow> string" where
  "chosen_suffix i t =
     (let s0 = trim_space (TopicSuffix t);
          s1 = (if s0 = [] then tag_Name t else s0);
          s2 = (if trim_space s1 = [] then tag_ID t else s1)
      in if trim_space s2 = [] then ''tag_'' @ show_nat (i + 1) else s2)"

definition base_suffix :: "nat \<Rightarrow> tag \<Rightarrow> string" where
  "base_suffix i t = trim_underscores (replace_reserved (trim_space (chosen_suffix i t)))"

text \<open>The loop \<open>for used[suffix]\<close>.\<close>

partial_function (option) unique_suffix :: "string set \<Rightarrow> string \<Rightarrow> nat \<Rightarrow> string \<Rightarrow> string option" where
  "unique_suffix used base i suffix =
     (if suffix \<in> used then unique_suffix used base i (base @ ''_'' @ show_nat (i + 1)) else Some suffix)"

fun normalize_tags :: "string set \<Rightarrow> nat \<Rightarrow> tag list \<Rightarrow> tag list option" where
  "normalize_tags used i [] = Some []"
| "normalize_tags used i (t # ts) =
     (case unique_suffix used (base_suffix i t) i (base_suffix i t) of
        None \<Rightarrow> None
      | Some s \<Rightarrow> (case normalize_tags (insert s used) (Suc i) ts of
          None \<Rightarrow> None | Some ts' \<Rightarrow> Some (t\<lparr>TopicSuffix := s\<rparr> # ts')))"

definition normalizeDeviceTopics :: "device \<Rightarrow> device option" where
  "normalizeDeviceTopics d = (case normalize_tags {} 0 (Tags d) of
       None \<Rightarrow> None | Some ts \<Rightarrow> Some (d\<lparr>Tags := ts\<rparr>))"

section \<open>The manager\<close>

text \<open>The callbacks report to the polling service; they may be missing.\<close>

record 'w device_manager =
  dm_devices :: "string \<rightharpoonup> device"
  dm_devicesPath :: string
  dm_onDeviceAdd :: "(device \<Rightarrow> 'w \<Rightarrow> err option \<times> 'w) option"
  dm_onDeviceEdit :: "(device \<Rightarrow> 'w \<Rightarrow> err option \<times> 'w) option"
  dm_onDeviceDel :: "(string \<Rightarrow> 'w \<Rightarrow> err option \<times> 'w) option"

text \<open>The files, and the devices in the order in which the map is ranged over.\<close>

record 'w manager_env = "'w file_env" +
  me_range :: "(string \<rightharpoonup> device) \<Rightarrow> 'w \<Rightarrow> device list"

definition NewDeviceManager :: "string \<Rightarrow> 'w device_manager" where
  "NewDeviceManager devicesPath = \<lparr>dm_devices = Map.empty, dm_devicesPath = devicesPath,
     dm_onDeviceAdd = None, dm_onDeviceEdit = None, dm_onDeviceDel = None\<rparr>"

definition SetCallbacks ::
  "(device \<Rightarrow> 'w \<Rightarrow> err option \<times> 'w) option \<Rightarrow> (device \<Rightarrow> 'w \<Rightarrow> err option \<times> 'w) option
    \<Rightarrow> (string \<Rightarrow> 'w \<Rightarrow> err option \<times> 'w) option \<Rightarrow> 'w device_manager \<Rightarrow> 'w device_manager" where
  "SetCallbacks onAdd onEdit onDel dm =
     dm\<lparr>dm_onDeviceAdd := onAdd, dm_onDeviceEdit := onEdit, dm_onDeviceDel := onDel\<rparr>"

text \<open>The loop of \<open>LoadDevices\<close> over what the file holds.\<close>

fun put_devices :: "(string \<rightharpoonup> device) \<Rightarrow> device list \<Rightarrow> (string \<rightharpoonup> device) option" where
  "put_devices m [] = Some m"
| "put_devices m (d # ds) = (case normalizeDeviceTopics d of
       None \<Rightarrow> None | Some d' \<Rightarrow> put_devices (m(dev_ID d' \<mapsto> d')) ds)"

definition manager_LoadDevices ::
  "'w manager_env \<Rightarrow> (nat \<Rightarrow> time) \<Rightarrow> 'w device_manager \<times> 'w \<Rightarrow> (err option \<times> 'w device_manager \<times> 'w) option" where
  "manager_LoadDevices env clock st = (case st of (dm, w) \<Rightarrow>
     (case LoadDevices (file_env.truncate env) clock (dm_devicesPath dm) w of
        Inl e \<Rightarrow> Some (Some e, dm, w)
      | Inr devices \<Rightarrow> (case put_devices Map.empty devices of
            None \<Rightarrow> None
          | Some m \<Rightarrow> Some (None, dm\<lparr>dm_devices := m\<rparr>, w))))"

definition saveDevicesUnlocked :: "'w manager_env \<Rightarrow> 'w device_manager \<times> 'w \<Rightarrow> err option \<times> 'w" where
  "saveDevicesUnlocked env st = (case st of (dm, w) \<Rightarrow>
     SaveDevices (file_env.truncate env) (dm_devicesPath dm) (me_range env (dm_devices dm) w) w)"

definition manager_SaveDevices :: "'w manager_env \<Rightarrow> 'w device_manager \<times> 'w \<Rightarrow> err option \<times> 'w" where
  "manager_SaveDevices env st = saveDevicesUnlocked env st"

definition GetDevices :: "'w manager_env \<Rightarrow> 'w device_manager \<times> 'w \<Rightarrow> device list" where
  "GetDevices env st = (case st of (dm, w) \<Rightarrow> me_range env (dm_devices dm) w)"

definition GetDevice :: "string \<Rightarrow> 'w device_manager \<Rightarrow> device option" where
  "GetDevice i dm = dm_devices dm i"

text \<open>A failed callback is only logged.\<close>

definition run_callback :: "('x \<Rightarrow> 'w \<Rightarrow> err option \<times> 'w) option \<Rightarrow> 'x \<Rightarrow> 'w \<Rightarrow> 'w" where
  "run_callback cb x w = (case cb of None \<Rightarrow> w | Some f \<Rightarrow> snd (f x w))"

text \<open>The two readings of the clock are \<open>t1\<close> and \<open>t2\<close>.\<close>

definition manager_AddDevice ::
  "'w manager_env \<Rightarrow> time \<Rightarrow> time \<Rightarrow> device \<Rightarrow> 'w device_manager \<times> 'w
    \<Rightarrow> (err option \<times> 'w device_manager \<times> 'w) option" where
  "manager_AddDevice env t1 t2 device st = (case st of (dm, w) \<Rightarrow>
     if dm_devices dm (dev_ID device) \<noteq> None
     then Some (Some (Plain (''device with ID '' @ dev_ID device @ '' already exists'')), dm, w)
     else case normalizeDeviceTopics device of
       None \<Rightarrow> None
     | Some d1 \<Rightarrow>
         (case ValidateDevice (d1\<lparr>CreatedAt := t1, UpdatedAt := t2\<rparr>) of
            (d2, Some e) \<Rightarrow> Some (Some (WrapPre ''invalid device: '' e), dm, w)
          | (d2, None) \<Rightarrow>
              let dm1 = dm\<lparr>dm_devices := (dm_devices dm)(dev_ID d2 \<mapsto> d2)\<rparr> in
              (case saveDevicesUnlocked env (dm1, w) of
                 (Some e, w1) \<Rightarrow> Some (Some (WrapPre ''failed to persist device: '' e),
                   dm1\<lparr>dm_devices := (dm_devices dm1)(dev_ID d2 := None)\<rparr>, w1)
               | (None, w1) \<Rightarrow> Some (None, dm1, run_callback (dm_onDeviceAdd dm1) d2 w1))))"

definition manager_UpdateDevice ::
  "'w manager_env \<Rightarrow> time \<Rightarrow> device \<Rightarrow> 'w device_manager \<times> 'w
    \<Rightarrow> (err option \<times> 'w device_manager \<times> 'w) option" where
  "manager_UpdateDevice env t device st = (case st of (dm, w) \<Rightarrow>
     if dm_devices dm (dev_ID device) = None
     then Some (Some (Plain (''device with ID '' @ dev_ID device @ '' not found'')), dm, w)
     else case normalizeDeviceTopics device of
       None \<Rightarrow> None
     | Some d1 \<Rightarrow>
         (case ValidateDevice (d1\<lparr>UpdatedAt := t\<rparr>) of
            (d2, Some e) \<Rightarrow> Some (Some (WrapPre ''invalid device: '' e), dm, w)
          | (d2, None) \<Rightarrow>
              let oldDevice = dm_devices dm (dev_ID d2);
                  dm1 = dm\<lparr>dm_devices := (dm_devices dm)(dev_ID d2 \<mapsto> d2)\<rparr> in
              (case saveDevicesUnlocked env (dm1, w) of
                 (Some e, w1) \<Rightarrow> Some (Some (WrapPre ''failed to persist device: '' e),
                   dm1\<lparr>dm_devices := (dm_devices dm1)(dev_ID d2 := oldDevice)\<rparr>, w1)
               | (None, w1) \<Rightarrow> Some (None, dm1, run_callback (dm_onDeviceEdit dm1) d2 w1))))"

definition manager_DeleteDevice ::
  "'w manager_env \<Rightarrow> string \<Rightarrow> 'w device_manager \<times> 'w \<Rightarrow> err option \<times> 'w device_manager \<times> 'w" where
  "manager_DeleteDevice env i st = (case st of (dm, w) \<Rightarrow>
     (case dm_devices dm i of
        None \<Rightarrow> (Some (Plain (''device with ID '' @ i @ '' not found'')), dm, w)
      | Some device \<Rightarrow>
          let dm1 = dm\<lparr>dm_devices := (dm_devices dm)(i := None)\<rparr> in
          (case saveDevicesUnlocked env (dm1, w) of
             (Some e, w1) \<Rightarrow> (Some (WrapPre ''failed to persist device deletion: '' e),
               dm1\<lparr>dm_devices := (dm_devices dm1)(i \<mapsto> device)\<rparr>, w1)
           | (None, w1) \<Rightarrow> (None, dm1, run_callback (dm_onDeviceDel dm1) i w1))))"

section \<open>When a suffix is found\<close>

lemma unique_suffix_fresh [simp]: "suffix \<notin> used \<Longrightarrow> unique_suffix used base i suffix = Some suffix"
  by (simp add: unique_suffix.simps)

lemma unique_suffix_once: "suffix \<in> used \<Longrightarrow> base @ ''_'' @ show_nat (i + 1) \<notin> used
    \<Longrightarrow> unique_suffix used base i suffix = Some (base @ ''_'' @ show_nat (i + 1))"
  by (subst unique_suffix.simps) (simp add: unique_suffix.simps)

lemma unique_suffix_new:
  assumes "unique_suffix used base i suffix = Some s" shows "s \<notin> used"
proof (rule unique_suffix.raw_induct [where P = "\<lambda>used base i suffix s. s \<notin> used", OF _ assms])
  fix f :: "string set \<Rightarrow> string \<Rightarrow> nat \<Rightarrow> string \<Rightarrow> string option" and used base i suffix s
  assume "\<And>used base i suffix s. f used base i suffix = Some s \<Longrightarrow> s \<notin> used"
    and "(if suffix \<in> used then f used base i (base @ ''_'' @ show_nat (i + 1)) else Some suffix) = Some s"
  then show "s \<notin> used" by (metis option.inject)
qed

lemma unique_suffix_shape:
  assumes "unique_suffix used base i suffix = Some s" shows "s = suffix \<or> s = base @ ''_'' @ show_nat (i + 1)"
proof (rule unique_suffix.raw_induct [where P = "\<lambda>used base i suffix s. s = suffix \<or> s = base @ ''_'' @ show_nat (i + 1)", OF _ assms])
  fix f :: "string set \<Rightarrow> string \<Rightarrow> nat \<Rightarrow> string \<Rightarrow> string option" and used base i suffix s
  assume "\<And>used base i suffix s. f used base i suffix = Some s \<Longrightarrow> s = suffix \<or> s = base @ ''_'' @ show_nat (i + 1)"
    and "(if suffix \<in> used then f used base i (base @ ''_'' @ show_nat (i + 1)) else Some suffix) = Some s"
  then show "s = suffix \<or> s = base @ ''_'' @ show_nat (i + 1)" by (metis option.inject)
qed

text \<open>When the first choice and the fallback are both taken, the loop runs forever.\<close>

lemma unique_suffix_hangs:
  assumes "suffix \<in> used" "base @ ''_'' @ show_nat (i + 1) \<in> used"
  shows "unique_suffix used base i suffix = None"
  using unique_suffix_new [of used base i suffix] unique_suffix_shape [of used base i suffix] assms
  by (cases "unique_suffix used base i suffix") auto

definition fallback_suffix :: "nat \<Rightarrow> tag \<Rightarrow> string" where
  "fallback_suffix i t = base_suffix i t @ ''_'' @ show_nat (i + 1)"

section \<open>What normalisation gives\<close>

definition topic_safe :: "string \<Rightarrow> bool" where
  "topic_safe s \<longleftrightarrow> set s \<inter> set ''/#+ '' = {}"

lemma set_dropWhile_sub: "set (dropWhile P s) \<subseteq> set s"
  by (auto dest: set_dropWhileD)

lemma base_suffix_safe: "topic_safe (base_suffix i t)"
proof -
  have "set (trim_underscores s) \<subseteq> set s" for s
    unfolding trim_underscores_def using set_dropWhile_sub by (metis (no_types, lifting) set_rev subset_trans)
  then have "set (base_suffix i t) \<subseteq> set (replace_reserved (trim_space (chosen_suffix i t)))"
    by (simp add: base_suffix_def)
  moreover have "set (replace_reserved s) \<inter> set ''/#+ '' = {}" for s by (auto simp: replace_reserved_def)
  ultimately show ?thesis unfolding topic_safe_def by blast
qed

lemma digits_safe: "topic_safe (show_nat n)"
proof -
  have "\<forall>c\<in>set (show_nat n). is_digit c" using show_nat_digits by (simp add: list_all_iff)
  moreover have "\<not> is_digit c" if "c \<in> set ''/#+ ''" for c using that by (auto simp: is_digit_def)
  ultimately show ?thesis by (auto simp: topic_safe_def)
qed

lemma fallback_safe: "topic_safe (fallback_suffix i t)"
  using base_suffix_safe [of i t] digits_safe [of "i + 1"] by (auto simp: topic_safe_def fallback_suffix_def)

lemma normalize_tags_result:
  "normalize_tags used i ts = Some ts' \<Longrightarrow> distinct (map TopicSuffix ts') \<and> used \<inter> TopicSuffix ` set ts' = {}
     \<and> (\<forall>t\<in>set ts'. topic_safe (TopicSuffix t)) \<and> map (\<lambda>t. t\<lparr>TopicSuffix := []\<rparr>) ts' = map (\<lambda>t. t\<lparr>TopicSuffix := []\<rparr>) ts"
proof (induction used i ts arbitrary: ts' rule: normalize_tags.induct)
  case (2 used i t ts)
  obtain s r where s: "unique_suffix used (base_suffix i t) i (base_suffix i t) = Some s"
    and r: "normalize_tags (insert s used) (Suc i) ts = Some r" "ts' = t\<lparr>TopicSuffix := s\<rparr> # r"
    using "2.prems" by (auto split: option.splits)
  have "s \<notin> used" by (rule unique_suffix_new [OF s])
  moreover have "topic_safe s"
    using unique_suffix_shape [OF s] base_suffix_safe fallback_safe [unfolded fallback_suffix_def] by metis
  moreover note "2.IH" [OF s r(1)]
  ultimately show ?case by (auto simp: r(2))
qed simp

text \<open>What is true of a device whose topics have been normalised.\<close>

definition topics_ok :: "device \<Rightarrow> bool" where
  "topics_ok d \<longleftrightarrow> distinct (map TopicSuffix (Tags d)) \<and> (\<forall>t\<in>set (Tags d). topic_safe (TopicSuffix t))"

lemma normalized_ok:
  assumes "normalizeDeviceTopics d = Some d'"
  shows "topics_ok d'" "d' = d\<lparr>Tags := Tags d'\<rparr>" "map (\<lambda>t. t\<lparr>TopicSuffix := []\<rparr>) (Tags d') = map (\<lambda>t. t\<lparr>TopicSuffix := []\<rparr>) (Tags d)"
  using assms normalize_tags_result [of "{}" 0 "Tags d"]
  by (auto simp: normalizeDeviceTopics_def topics_ok_def split: option.splits)

section \<open>When normalisation returns\<close>

lemma after_underscore:
  assumes "list_all is_digit a" "list_all is_digit b" "xs @ CHR ''_'' # a = ys @ CHR ''_'' # b"
  shows "a = b"
proof -
  have t: "takeWhile (\<lambda>c. c \<noteq> CHR ''_'') (rev (zs @ CHR ''_'' # d)) = rev d" if "list_all is_digit d" for zs d
  proof -
    have "\<forall>c\<in>set d. c \<noteq> CHR ''_''" using that by (auto simp: list_all_iff is_digit_def)
    then show ?thesis by (simp add: takeWhile_append)
  qed
  show ?thesis using t [OF assms(1), of xs] t [OF assms(2), of ys] assms(3) by simp
qed

lemma fallback_index: "fallback_suffix i t = fallback_suffix j u \<Longrightarrow> i = j"
proof -
  assume "fallback_suffix i t = fallback_suffix j u"
  then have "show_nat (i + 1) = show_nat (j + 1)"
    using after_underscore [OF show_nat_digits show_nat_digits] by (simp add: fallback_suffix_def)
  then show ?thesis using digits_val_show_nat [of "i + 1"] digits_val_show_nat [of "j + 1"] by simp
qed

text \<open>No tag's fallback is what another tag starts with.\<close>

definition fallbacks_free :: "tag list \<Rightarrow> bool" where
  "fallbacks_free ts \<longleftrightarrow> (\<forall>i<length ts. \<forall>j<i. fallback_suffix i (ts ! i) \<noteq> base_suffix j (ts ! j))"

lemma normalize_tags_returns:
  assumes "fallbacks_free (us @ ts)"
    "\<forall>s\<in>used. \<exists>j<length us. s = base_suffix j (us ! j) \<or> s = fallback_suffix j (us ! j)"
  shows "\<exists>ts'. normalize_tags used (length us) ts = Some ts'"
  using assms
proof (induction ts arbitrary: us used)
  case (Cons t ts)
  let ?i = "length us"
  have "\<exists>s. unique_suffix used (base_suffix ?i t) ?i (base_suffix ?i t) = Some s \<and> (s = base_suffix ?i t \<or> s = fallback_suffix ?i t)"
  proof (cases "base_suffix ?i t \<in> used")
    case True
    have "fallback_suffix ?i t \<notin> used"
    proof
      assume "fallback_suffix ?i t \<in> used"
      then obtain j where j: "j < ?i" "fallback_suffix ?i t = base_suffix j (us ! j) \<or> fallback_suffix ?i t = fallback_suffix j (us ! j)"
        using Cons.prems(2) by blast
      have "fallback_suffix ?i t \<noteq> base_suffix j (us ! j)"
        using Cons.prems(1) j(1) unfolding fallbacks_free_def
        by (metis (no_types, lifting) length_append less_add_same_cancel1 length_greater_0_conv list.distinct(1) nth_append nth_append_length)
      then show False using j fallback_index by blast
    qed
    then show ?thesis using unique_suffix_once [OF True] by (simp add: fallback_suffix_def)
  qed simp
  then obtain s where s: "unique_suffix used (base_suffix ?i t) ?i (base_suffix ?i t) = Some s"
    "s = base_suffix ?i t \<or> s = fallback_suffix ?i t" by blast
  have "\<exists>j<length (us @ [t]). r = base_suffix j ((us @ [t]) ! j) \<or> r = fallback_suffix j ((us @ [t]) ! j)"
    if rin: "r \<in> insert s used" for r
  proof (cases "r = s")
    case True
    then show ?thesis using s(2) by (intro exI [of _ ?i]) simp
  next
    case False
    then have "r \<in> used" using rin by simp
    from bspec [OF Cons.prems(2) this] obtain j where j: "j < ?i" "r = base_suffix j (us ! j) \<or> r = fallback_suffix j (us ! j)"
      by (elim exE conjE) (rule that)
    have "(us @ [t]) ! j = us ! j" using j(1) by (simp add: nth_append)
    then show ?thesis using j by (intro exI [of _ j]) simp
  qed
  then have "\<exists>ts'. normalize_tags (insert s used) (length (us @ [t])) ts = Some ts'"
    using Cons.IH [of "us @ [t]" "insert s used"] Cons.prems(1) by (simp only: append_assoc append_Cons append_Nil) blast
  then obtain ts' where "normalize_tags (insert s used) (Suc ?i) ts = Some ts'" by auto
  then show ?case by (simp only: normalize_tags.simps s(1) option.case) blast
qed simp

lemma normalization_returns: "fallbacks_free (Tags d) \<Longrightarrow> \<exists>d'. normalizeDeviceTopics d = Some d'"
  using normalize_tags_returns [of "[]" "Tags d" "{}"] by (auto simp: normalizeDeviceTopics_def)

section \<open>Edits\<close>

datatype edit = Adding time time device | Updating time device | Deleting string

fun run_edit :: "'w manager_env \<Rightarrow> edit \<Rightarrow> 'w device_manager \<times> 'w \<Rightarrow> (err option \<times> 'w device_manager \<times> 'w) option" where
  "run_edit env (Adding t1 t2 d) st = manager_AddDevice env t1 t2 d st"
| "run_edit env (Updating t d) st = manager_UpdateDevice env t d st"
| "run_edit env (Deleting i) st = Some (manager_DeleteDevice env i st)"

text \<open>
  The abstract store: devices by ID.  An edit is refused and changes nothing, or it changes the one
  device it names; what is put in has normalised topics and has passed validation.
\<close>

definition accepted :: "device \<Rightarrow> device \<Rightarrow> bool" where
  "accepted d d' \<longleftrightarrow> topics_ok d' \<and> ValidateDevice d' = (d', None) \<and> dev_ID d' = dev_ID d \<and> Connection d' = Connection d
     \<and> dev_Protocol d' = dev_Protocol d"

inductive store_step :: "(string \<rightharpoonup> device) \<Rightarrow> edit \<Rightarrow> bool \<Rightarrow> (string \<rightharpoonup> device) \<Rightarrow> bool" where
  refused: "store_step m e False m"
| added: "m (dev_ID d) = None \<Longrightarrow> accepted d d' \<Longrightarrow> store_step m (Adding t1 t2 d) True (m(dev_ID d \<mapsto> d'))"
| updated: "m (dev_ID d) \<noteq> None \<Longrightarrow> accepted d d' \<Longrightarrow> store_step m (Updating t d) True (m(dev_ID d \<mapsto> d'))"
| deleted: "m i \<noteq> None \<Longrightarrow> store_step m (Deleting i) True (m(i := None))"

text \<open>The device file was written with the devices of the manager.\<close>

definition file_written :: "'w manager_env \<Rightarrow> 'w device_manager \<Rightarrow> 'w \<Rightarrow> 'w \<Rightarrow> bool" where
  "file_written env dm w w1 \<longleftrightarrow> (\<exists>data. fe_Marshal env (file_of_devices (me_range env (dm_devices dm) w)) = Inr data
     \<and> fe_WriteFile env (dm_devicesPath dm) data 384 w = (None, w1))"

lemma saved_written: "saveDevicesUnlocked env (dm, w) = (None, w1) \<Longrightarrow> file_written env dm w w1"
  by (auto simp: saveDevicesUnlocked_def SaveDevices_def file_written_def file_env.defs split: sum.splits prod.splits option.splits)

lemma validate_tag_topic: "ValidateForProtocol t p = (t', None) \<Longrightarrow> TopicSuffix t' = TopicSuffix t"
  by (auto simp: ValidateForProtocol_def validate_modbus_tag_def default_scale_def Let_def
      split: if_splits protocol.splits prod.splits option.splits)

lemma validate_tags_topics: "validate_tags d p ts = (ts', None) \<Longrightarrow> map TopicSuffix ts' = map TopicSuffix ts"
proof (induction ts arbitrary: ts')
  case (Cons t ts)
  obtain t1 where t: "ValidateForProtocol t p = (t1, None)" using Cons.prems by (auto split: prod.splits option.splits)
  obtain ts1 where ts: "validate_tags d p ts = (ts1, None)" "ts' = t1 # ts1" using Cons.prems by (auto simp: t split: prod.splits)
  then show ?case using Cons.IH validate_tag_topic [OF t] by simp
qed simp

lemma topics_ok_map: "topics_ok d \<longleftrightarrow> distinct (map TopicSuffix (Tags d)) \<and> (\<forall>s\<in>set (map TopicSuffix (Tags d)). topic_safe s)"
  by (simp add: topics_ok_def)

lemma validated_fields:
  assumes "ValidateDevice d = (d', None)"
  shows "d' = d\<lparr>Tags := Tags d'\<rparr>" "map TopicSuffix (Tags d') = map TopicSuffix (Tags d)" "ValidateDevice d' = (d', None)"
proof -
  obtain ts where ts: "validate_tags (dev_ID d) (dev_Protocol d) (Tags d) = (ts, None)" "d' = d\<lparr>Tags := ts\<rparr>"
    using assms by (auto simp: ValidateDevice_def split: if_splits prod.splits)
  show "d' = d\<lparr>Tags := Tags d'\<rparr>" by (simp add: ts(2))
  show "map TopicSuffix (Tags d') = map TopicSuffix (Tags d)" using validate_tags_topics [OF ts(1)] by (simp add: ts(2))
  show "ValidateDevice d' = (d', None)" using assms ts validate_tags_idem [OF ts(1)] validate_tags_all [OF ts(1)]
    by (auto simp: ValidateDevice_def list_all2_lengthD split: if_splits)
qed

lemma accepted_by:
  assumes "normalizeDeviceTopics d = Some d1" "ValidateDevice (d1\<lparr>CreatedAt := t1, UpdatedAt := t2\<rparr>) = (d2, None)"
  shows "accepted d d2"
proof -
  note n = normalized_ok [OF assms(1)] and v = validated_fields [OF assms(2)]
  have "topics_ok d2" using n(1) v(2) unfolding topics_ok_map by simp
  moreover have "dev_ID d1 = dev_ID d" "Connection d1 = Connection d" "dev_Protocol d1 = dev_Protocol d" by (subst n(2); simp)+
  moreover have "dev_ID d2 = dev_ID d1" "Connection d2 = Connection d1" "dev_Protocol d2 = dev_Protocol d1" by (subst v(1); simp)+
  ultimately show ?thesis using v(3) by (simp add: accepted_def)
qed

lemma manager_update_self: "dm\<lparr>dm_devices := dm_devices dm\<rparr> = (dm :: 'w device_manager)"
  by simp

lemma add_outcome:
  assumes "manager_AddDevice env t1 t2 d (dm, w) = Some (r, dm', w')"
  shows "(r \<noteq> None \<and> dm' = dm) \<or> (\<exists>d' w1. r = None \<and> dm_devices dm (dev_ID d) = None \<and> accepted d d'
    \<and> dm' = dm\<lparr>dm_devices := (dm_devices dm)(dev_ID d \<mapsto> d')\<rparr> \<and> file_written env dm' w w1
    \<and> w' = run_callback (dm_onDeviceAdd dm) d' w1)"
proof (cases "dm_devices dm (dev_ID d)")
  case (Some x)
  then show ?thesis using assms by (auto simp: manager_AddDevice_def)
next
  case None
  obtain d1 where n: "normalizeDeviceTopics d = Some d1"
    using assms None by (auto simp: manager_AddDevice_def split: option.splits)
  obtain d2 v where v: "ValidateDevice (d1\<lparr>CreatedAt := t1, UpdatedAt := t2\<rparr>) = (d2, v)"
    by (cases "ValidateDevice (d1\<lparr>CreatedAt := t1, UpdatedAt := t2\<rparr>)")
  show ?thesis
  proof (cases v)
    case (Some e)
    then show ?thesis using assms None n v by (auto simp: manager_AddDevice_def)
  next
    case vn: None
    have a: "accepted d d2" using accepted_by [OF n] v vn by blast
    then have i: "dev_ID d2 = dev_ID d" by (simp add: accepted_def)
    let ?dm1 = "dm\<lparr>dm_devices := (dm_devices dm)(dev_ID d \<mapsto> d2)\<rparr>"
    obtain s w1 where s: "saveDevicesUnlocked env (?dm1, w) = (s, w1)" by (cases "saveDevicesUnlocked env (?dm1, w)")
    have undone: "?dm1\<lparr>dm_devices := (dm_devices ?dm1)(dev_ID d := None)\<rparr> = dm"
      using None by (simp add: fun_upd_idem)
    show ?thesis
    proof (cases s)
      case (Some e)
      then show ?thesis using assms None n v vn s i undone by (auto simp: manager_AddDevice_def Let_def)
    next
      case sn: None
      have eqs: "r = None" "dm' = ?dm1" "w' = run_callback (dm_onDeviceAdd dm) d2 w1"
        using assms None n v vn s sn i by (auto simp: manager_AddDevice_def Let_def)
      have fw: "file_written env dm' w w1" unfolding eqs by (rule saved_written) (use s sn in simp)
      show ?thesis by (intro disjI2 exI [of _ d2] exI [of _ w1] conjI) (use eqs fw None a in simp_all)
    qed
  qed
qed

lemma update_outcome:
  assumes "manager_UpdateDevice env t d (dm, w) = Some (r, dm', w')"
  shows "(r \<noteq> None \<and> dm' = dm) \<or> (\<exists>d' w1. r = None \<and> dm_devices dm (dev_ID d) \<noteq> None \<and> accepted d d'
    \<and> dm' = dm\<lparr>dm_devices := (dm_devices dm)(dev_ID d \<mapsto> d')\<rparr> \<and> file_written env dm' w w1
    \<and> w' = run_callback (dm_onDeviceEdit dm) d' w1)"
proof (cases "dm_devices dm (dev_ID d)")
  case None
  then show ?thesis using assms by (auto simp: manager_UpdateDevice_def)
next
  case (Some old)
  obtain d1 where n: "normalizeDeviceTopics d = Some d1"
    using assms Some by (auto simp: manager_UpdateDevice_def split: option.splits)
  obtain d2 v where v: "ValidateDevice (d1\<lparr>UpdatedAt := t\<rparr>) = (d2, v)" by (cases "ValidateDevice (d1\<lparr>UpdatedAt := t\<rparr>)")
  show ?thesis
  proof (cases v)
    case (Some e)
    then show ?thesis using assms \<open>dm_devices dm (dev_ID d) = Some old\<close> n v by (auto simp: manager_UpdateDevice_def)
  next
    case vn: None
    have "d1\<lparr>UpdatedAt := t\<rparr> = d1\<lparr>CreatedAt := CreatedAt d1, UpdatedAt := t\<rparr>" by simp
    then have a: "accepted d d2" using accepted_by [OF n, where ?t1.0 = "CreatedAt d1" and ?t2.0 = t] v vn by simp
    then have i: "dev_ID d2 = dev_ID d" by (simp add: accepted_def)
    let ?dm1 = "dm\<lparr>dm_devices := (dm_devices dm)(dev_ID d \<mapsto> d2)\<rparr>"
    obtain s w1 where s: "saveDevicesUnlocked env (?dm1, w) = (s, w1)" by (cases "saveDevicesUnlocked env (?dm1, w)")
    have undone: "?dm1\<lparr>dm_devices := (dm_devices ?dm1)(dev_ID d := Some old)\<rparr> = dm"
      using Some by (simp add: fun_upd_idem)
    show ?thesis
    proof (cases s)
      case (Some e)
      then show ?thesis using assms \<open>dm_devices dm (dev_ID d) = Some old\<close> n v vn s i undone by (auto simp: manager_UpdateDevice_def Let_def)
    next
      case sn: None
      have eqs: "r = None" "dm' = ?dm1" "w' = run_callback (dm_onDeviceEdit dm) d2 w1"
        using assms Some n v vn s sn i by (auto simp: manager_UpdateDevice_def Let_def)
      have fw: "file_written env dm' w w1" unfolding eqs by (rule saved_written) (use s sn in simp)
      show ?thesis by (intro disjI2 exI [of _ d2] exI [of _ w1] conjI) (use eqs fw Some a in simp_all)
    qed
  qed
qed

lemma delete_outcome:
  assumes "manager_DeleteDevice env i (dm, w) = (r, dm', w')"
  shows "(r \<noteq> None \<and> dm' = dm) \<or> (\<exists>w1. r = None \<and> dm_devices dm i \<noteq> None
    \<and> dm' = dm\<lparr>dm_devices := (dm_devices dm)(i := None)\<rparr> \<and> file_written env dm' w w1
    \<and> w' = run_callback (dm_onDeviceDel dm) i w1)"
proof (cases "dm_devices dm i")
  case None
  then show ?thesis using assms by (auto simp: manager_DeleteDevice_def)
next
  case (Some old)
  let ?dm1 = "dm\<lparr>dm_devices := (dm_devices dm)(i := None)\<rparr>"
  obtain s w1 where s: "saveDevicesUnlocked env (?dm1, w) = (s, w1)" by (cases "saveDevicesUnlocked env (?dm1, w)")
  have undone: "?dm1\<lparr>dm_devices := (dm_devices ?dm1)(i := Some old)\<rparr> = dm" using Some by (simp add: fun_upd_idem)
  show ?thesis
  proof (cases s)
    case (Some e)
    then show ?thesis using assms \<open>dm_devices dm i = Some old\<close> s undone by (auto simp: manager_DeleteDevice_def Let_def)
  next
    case sn: None
    have eqs: "r = None" "dm' = ?dm1" "w' = run_callback (dm_onDeviceDel dm) i w1"
      using assms Some s sn by (auto simp: manager_DeleteDevice_def Let_def)
    have fw: "file_written env dm' w w1" unfolding eqs by (rule saved_written) (use s sn in simp)
    show ?thesis by (intro disjI2 exI [of _ w1] conjI) (use eqs fw Some in simp_all)
  qed
qed

text \<open>
  What a refused edit can leave behind: nothing, or what a failed write of the device file left of it.
\<close>

definition only_failed_save :: "'w manager_env \<Rightarrow> string \<Rightarrow> 'w \<Rightarrow> 'w \<Rightarrow> bool" where
  "only_failed_save env path w w' \<longleftrightarrow> w' = w \<or> (\<exists>ds data e. fe_Marshal env (file_of_devices ds) = Inr data
     \<and> fe_WriteFile env path data 384 w = (Some e, w'))"

lemma save_failed: "saveDevicesUnlocked env (dm, w) = (Some e, w1) \<Longrightarrow> only_failed_save env (dm_devicesPath dm) w w1"
  by (auto simp: saveDevicesUnlocked_def SaveDevices_def only_failed_save_def file_env.defs split: sum.splits prod.splits option.splits)

lemma refused_leaves:
  assumes "run_edit env e (dm, w) = Some (Some err, dm', w')"
  shows "dm' = dm \<and> only_failed_save env (dm_devicesPath dm) w w'"
proof -
  have refl: "only_failed_save env (dm_devicesPath dm) w w" by (simp add: only_failed_save_def)
  have save: "only_failed_save env (dm_devicesPath dm) w w1"
    if "saveDevicesUnlocked env (dm\<lparr>dm_devices := m\<rparr>, w) = (Some x, w1)" for m x w1
    using save_failed [OF that] by simp
  show ?thesis
  proof (cases e)
    case (Adding t1 t2 d)
    then show ?thesis using assms refl add_outcome [of env t1 t2 d dm w "Some err" dm' w']
      by (auto simp: manager_AddDevice_def Let_def split: if_split_asm option.split_asm prod.split_asm dest: save)
  next
    case (Updating t d)
    then show ?thesis using assms refl update_outcome [of env t d dm w "Some err" dm' w']
      by (auto simp: manager_UpdateDevice_def Let_def split: if_split_asm option.split_asm prod.split_asm dest: save)
  next
    case (Deleting i)
    then show ?thesis using assms refl delete_outcome [of env i dm w "Some err" dm' w']
      by (auto simp: manager_DeleteDevice_def Let_def split: if_split_asm option.split_asm prod.split_asm dest: save)
  qed
qed

section \<open>The states of a manager\<close>

text \<open>
  A new manager, with callbacks set, then loads and edits in any order; the rest of the world changes
  between them.
\<close>

inductive managed :: "'w manager_env \<Rightarrow> 'w device_manager \<times> 'w \<Rightarrow> bool" for env where
  created: "managed env (SetCallbacks onAdd onEdit onDel (NewDeviceManager path), w)"
| loaded: "managed env st \<Longrightarrow> manager_LoadDevices env clock st = Some (r, st') \<Longrightarrow> managed env st'"
| edited: "managed env st \<Longrightarrow> run_edit env e st = Some (r, st') \<Longrightarrow> managed env st'"
| elsewhere: "managed env (dm, w) \<Longrightarrow> managed env (dm, w')"

definition store_ok :: "(string \<rightharpoonup> device) \<Rightarrow> bool" where
  "store_ok m \<longleftrightarrow> finite (dom m) \<and> (\<forall>i d. m i = Some d \<longrightarrow> dev_ID d = i \<and> topics_ok d)"

lemma store_ok_empty [simp]: "store_ok Map.empty"
  by (simp add: store_ok_def)

lemma store_ok_put: "store_ok m \<Longrightarrow> dev_ID d = i \<Longrightarrow> topics_ok d \<Longrightarrow> store_ok (m(i \<mapsto> d))"
  by (simp add: store_ok_def)

lemma store_ok_remove: "store_ok m \<Longrightarrow> store_ok (m(i := None))"
  by (simp add: store_ok_def)

lemma store_step_ok: "store_step m e ok m' \<Longrightarrow> store_ok m \<Longrightarrow> store_ok m'"
  by (induction rule: store_step.induct) (auto simp: accepted_def intro: store_ok_put store_ok_remove)

lemma put_devices_ok: "put_devices m ds = Some m' \<Longrightarrow> store_ok m \<Longrightarrow> store_ok m'"
proof (induction m ds rule: put_devices.induct)
  case (2 m d ds)
  obtain d' where d: "normalizeDeviceTopics d = Some d'" using "2.prems"(1) by (auto split: option.splits)
  then have "put_devices (m(dev_ID d' \<mapsto> d')) ds = Some m'" using "2.prems"(1) by simp
  from "2.IH" [OF d this] show ?case using store_ok_put [OF "2.prems"(2) refl normalized_ok(1) [OF d]] by blast
qed simp

lemma edit_refines:
  assumes "run_edit env e (dm, w) = Some (r, dm', w')"
  shows "store_step (dm_devices dm) e (r = None) (dm_devices dm')" "dm' = dm\<lparr>dm_devices := dm_devices dm'\<rparr>"
    "r = None \<Longrightarrow> \<exists>w1. file_written env dm' w w1"
proof -
  have "store_step (dm_devices dm) e (r = None) (dm_devices dm') \<and> dm' = dm\<lparr>dm_devices := dm_devices dm'\<rparr>
      \<and> (r = None \<longrightarrow> (\<exists>w1. file_written env dm' w w1))"
  proof (cases e)
    case (Adding t1 t2 d)
    then show ?thesis using add_outcome [of env t1 t2 d dm w r dm' w'] assms by (auto intro: store_step.intros)
  next
    case (Updating t d)
    have "manager_UpdateDevice env t d (dm, w) = Some (r, dm', w')" using assms Updating by simp
    from update_outcome [OF this] show ?thesis
    proof (elim disjE exE conjE)
      assume "r \<noteq> None" "dm' = dm"
      then show ?thesis by (auto intro: store_step.intros)
    next
      fix d' w1
      assume u: "r = None" "dm_devices dm (dev_ID d) \<noteq> None" "accepted d d'"
        "dm' = dm\<lparr>dm_devices := (dm_devices dm)(dev_ID d \<mapsto> d')\<rparr>" "file_written env dm' w w1"
      have "store_step (dm_devices dm) (Updating t d) True ((dm_devices dm)(dev_ID d \<mapsto> d'))"
        by (rule store_step.updated [where m = "dm_devices dm" and d = d, OF u(2,3)])
      then show ?thesis using u(1,4,5) Updating by auto
    qed
  next
    case (Deleting i)
    then have "manager_DeleteDevice env i (dm, w) = (r, dm', w')" using assms by simp
    from delete_outcome [OF this] show ?thesis using Deleting by (auto intro!: store_step.deleted intro: store_step.refused)
  qed
  then show "store_step (dm_devices dm) e (r = None) (dm_devices dm')" "dm' = dm\<lparr>dm_devices := dm_devices dm'\<rparr>"
    "r = None \<Longrightarrow> \<exists>w1. file_written env dm' w w1" by blast+
qed

lemma managed_store_ok: "managed env st \<Longrightarrow> store_ok (dm_devices (fst st))"
proof (induction rule: managed.induct)
  case (loaded st clock r st')
  obtain dm w where st: "st = (dm, w)" by (cases st)
  show ?case
  proof (cases "LoadDevices (file_env.truncate env) clock (dm_devicesPath dm) w")
    case (Inl e)
    then show ?thesis using loaded by (auto simp: manager_LoadDevices_def st)
  next
    case (Inr ds)
    then obtain m where m: "put_devices Map.empty ds = Some m" "st' = (dm\<lparr>dm_devices := m\<rparr>, w)"
      using loaded.hyps(2) by (auto simp: manager_LoadDevices_def st split: option.splits)
    then show ?thesis using put_devices_ok [OF m(1)] by simp
  qed
next
  case (edited st e r st')
  obtain dm w where st: "st = (dm, w)" by (cases st)
  obtain dm' w' where st': "st' = (dm', w')" by (cases st')
  have "store_step (dm_devices dm) e (r = None) (dm_devices dm')"
    by (rule edit_refines(1)) (use edited.hyps(2) in \<open>simp add: st st'\<close>)
  then show ?case using store_step_ok edited.IH by (simp add: st st')
qed (simp_all add: SetCallbacks_def NewDeviceManager_def)

section \<open>What a restart keeps\<close>

text \<open>
  The tag and the device that the loader makes of a saved one: what the file has no field for is zero
  again, and an empty byte order, register count or access mode becomes the loader's default.
\<close>

definition tag_after_restart :: "tag \<Rightarrow> tag" where
  "tag_after_restart t = t\<lparr>tag_Priority := 0, OPCNamespaceURI := [], OPCNamespaceIndex := 0, S7Area := S7Area_other [],
     S7DBNumber := 0, S7Offset := 0, S7BitOffset := 0,
     ScaleFactor := (if f64_eq (ScaleFactor t) f64_zero then f64_one else ScaleFactor t),
     ByteOrder := (if ByteOrder t = ByteOrder_other [] then ByteOrderBigEndian else ByteOrder t),
     RegisterCount := (if RegisterCount t = 0 then 1 else RegisterCount t),
     AccessMode := (if AccessMode t = AccessMode_other [] then AccessModeReadOnly else AccessMode t)\<rparr>"

definition device_after_restart :: "time \<Rightarrow> time \<Rightarrow> device \<Rightarrow> device" where
  "device_after_restart t1 t2 d = d\<lparr>Tags := map tag_after_restart (Tags d),
     Connection := (Connection d)\<lparr>SerialPort := [], BaudRate := 0, DataBits := 0, Parity := [], StopBits := 0,
       S7PDUSize := 0, S7Timeout := 0, CircuitBreaker := None\<rparr>,
     CreatedAt := t1, UpdatedAt := t2, ConfigVersion := 0, ActiveConfigVersion := 0, LastKnownGoodVersion := 0\<rparr>"

text \<open>
  Values as Go has them: an enumerated value is the constant of its text, and a duration has 64 bits.
\<close>

definition go_tag :: "tag \<Rightarrow> bool" where
  "go_tag t \<longleftrightarrow> data_type_of_text (data_type_text (DataType t)) = DataType t
     \<and> register_type_of_text (register_type_text (RegisterType t)) = RegisterType t
     \<and> byte_order_of_text (byte_order_text (ByteOrder t)) = ByteOrder t
     \<and> access_mode_of_text (access_mode_text (AccessMode t)) = AccessMode t
     \<and> deadband_type_of_text (deadband_type_text (DeadbandType t)) = DeadbandType t
     \<and> (case tag_PollInterval t of None \<Rightarrow> True | Some d \<Rightarrow> int64 d)"

definition go_device :: "device \<Rightarrow> bool" where
  "go_device d \<longleftrightarrow> protocol_of_text (protocol_text (dev_Protocol d)) = dev_Protocol d \<and> (\<forall>t\<in>set (Tags d). go_tag t)
     \<and> int64 (PollInterval d) \<and> int64 (Timeout (Connection d)) \<and> int64 (RetryDelay (Connection d))
     \<and> int64 (OPCPublishInterval (Connection d)) \<and> int64 (OPCSamplingInterval (Connection d))"

lemma tag_read_back:
  assumes "go_tag t"
  shows "convertTagConfig (convertToTagConfig t) = Inr (tag_after_restart t)"
proof -
  let ?y = "convertToTagConfig t"
  have pd: "(if yt_PollInterval ?y = [] then Inr None
       else case ParseDuration (yt_PollInterval ?y) of
         Inl e \<Rightarrow> Inl (WrapPre ''invalid poll interval: '' e) | Inr d \<Rightarrow> Inr (Some d)) = Inr (tag_PollInterval t)"
    using assms by (cases "tag_PollInterval t") (simp_all add: convertToTagConfig_def go_tag_def duration_read_back)
  have bp: "map_option word_of_int (yt_BitPosition ?y) = BitPosition t"
    by (cases "BitPosition t") (simp_all add: convertToTagConfig_def)
  have bo: "byte_order_text (ByteOrder t) = [] \<longleftrightarrow> ByteOrder t = ByteOrder_other []" by (cases "ByteOrder t") simp_all
  have am: "access_mode_text (AccessMode t) = [] \<longleftrightarrow> AccessMode t = AccessMode_other []" by (cases "AccessMode t") simp_all
  show ?thesis
    unfolding convertTagConfig_def pd bp sum.case Let_def
    using assms unfolding go_tag_def by (simp add: convertToTagConfig_def tag_after_restart_def zero_tag_def bo am)
qed

lemma tags_read_back: "\<forall>t\<in>set ts. go_tag t \<Longrightarrow> convert_tags (map convertToTagConfig ts) = Inr (map tag_after_restart ts)"
  by (induction ts) (simp_all add: tag_read_back)

lemma modbus_ok_fixed:
  assumes "modbus_tag_ok t" shows "validate_modbus_tag t = (t, None)" "default_scale t = t"
proof -
  have "ExpectedRegisterCount t \<noteq> 0" by (simp add: ExpectedRegisterCount_def split: data_type.splits)
  then have "RegisterCount t \<noteq> 0" using assms by (auto simp: modbus_tag_ok_def)
  then show "validate_modbus_tag t = (t, None)" using assms
    by (cases "BitPosition t") (auto simp: validate_modbus_tag_iff modbus_tag_ok_def not_less)
  show "default_scale t = t" using assms by (simp add: modbus_tag_ok_def default_scale_def)
qed

lemma tag_after_restart_fields [simp]:
  "tag_ID (tag_after_restart t) = tag_ID t" "tag_Name (tag_after_restart t) = tag_Name t"
  "TopicSuffix (tag_after_restart t) = TopicSuffix t" "DataType (tag_after_restart t) = DataType t"
  "OPCNodeID (tag_after_restart t) = OPCNodeID t" "S7Address (tag_after_restart t) = S7Address t"
  "RegisterType (tag_after_restart t) = RegisterType t" "BitPosition (tag_after_restart t) = BitPosition t"
  "default_scale (tag_after_restart t) = tag_after_restart t"
  using f64_one_not_zero by (simp_all add: tag_after_restart_def default_scale_def)

lemma tag_after_restart_modbus: "modbus_tag_ok t \<Longrightarrow> modbus_tag_ok (tag_after_restart t)"
proof -
  assume t: "modbus_tag_ok t"
  have "ExpectedRegisterCount t \<noteq> 0" by (simp add: ExpectedRegisterCount_def split: data_type.splits)
  then have r: "RegisterCount t \<noteq> 0" using t by (auto simp: modbus_tag_ok_def)
  have "RegisterCount (tag_after_restart t) = RegisterCount t" "ByteOrder (tag_after_restart t) = ByteOrder t"
    "ScaleFactor (tag_after_restart t) = ScaleFactor t"
    using t r by (simp_all add: tag_after_restart_def modbus_tag_ok_def)
  moreover have "ExpectedRegisterCount (tag_after_restart t) = ExpectedRegisterCount t"
    by (rule ExpectedRegisterCount_cong) simp
  ultimately show ?thesis using t by (simp add: modbus_tag_ok_def)
qed

lemma tag_after_restart_valid:
  assumes "ValidateForProtocol t p = (t, None)"
  shows "ValidateForProtocol (tag_after_restart t) p = (tag_after_restart t, None)"
proof (cases "is_modbus p")
  case True
  have "modbus_tag_ok t" by (rule ValidateForProtocol_modbus_ok [OF assms True])
  from modbus_ok_fixed(1) [OF tag_after_restart_modbus [OF this]] show ?thesis
    using assms True unfolding ValidateForProtocol_ok by (auto simp: common_ok_def is_modbus_def)
next
  case False
  then show ?thesis using assms unfolding ValidateForProtocol_ok
    by (cases p) (simp_all add: common_ok_def is_modbus_def)
qed

lemma tags_after_restart_valid:
  "validate_tags i p ts = (ts, None) \<Longrightarrow> validate_tags i p (map tag_after_restart ts) = (map tag_after_restart ts, None)"
proof (induction ts)
  case (Cons t ts)
  obtain t1 where t: "ValidateForProtocol t p = (t1, None)" using Cons.prems by (auto split: prod.splits option.splits)
  obtain ts1 where ts: "validate_tags i p ts = (ts1, None)" "t # ts = t1 # ts1" using Cons.prems by (auto simp: t split: prod.splits)
  then show ?case using Cons.IH tag_after_restart_valid [of t p] t by simp
qed simp

lemma device_after_restart_valid:
  assumes "ValidateDevice d = (d, None)"
  shows "ValidateDevice (device_after_restart t1 t2 d) = (device_after_restart t1 t2 d, None)"
proof -
  obtain ts where ts: "validate_tags (dev_ID d) (dev_Protocol d) (Tags d) = (ts, None)" "d = d\<lparr>Tags := ts\<rparr>"
    using assms by (auto simp: ValidateDevice_def split: if_splits prod.splits)
  have "Tags d = ts" by (subst ts(2)) simp
  then have v: "validate_tags (dev_ID d) (dev_Protocol d) (map tag_after_restart (Tags d)) = (map tag_after_restart (Tags d), None)"
    using tags_after_restart_valid ts(1) by simp
  have "\<not> (dev_ID d = [] \<or> dev_Name d = [] \<or> dev_Protocol d = Protocol_other [] \<or> length (Tags d) = 0
      \<or> PollInterval d < millisecond * 100 \<or> UNSPrefix d = [])"
    using assms by (auto simp: ValidateDevice_def split: if_splits)
  then show ?thesis using v by (simp add: ValidateDevice_def device_after_restart_def)
qed

lemma device_read_back:
  assumes "go_device d" "ValidateDevice d = (d, None)"
  shows "convertDeviceConfig t1 t2 (convertToDeviceConfig d) = Inr (device_after_restart t1 t2 d)"
proof -
  let ?dc = "convertToDeviceConfig d" and ?c = "Connection d"
  have sel: "yc_Timeout (yd_Connection ?dc) = duration_String (Timeout ?c)" "yc_RetryDelay (yd_Connection ?dc) = duration_String (RetryDelay ?c)"
    "yc_OPCPublishInterval (yd_Connection ?dc) = durationToString (OPCPublishInterval ?c)"
    "yc_OPCSamplingInterval (yd_Connection ?dc) = durationToString (OPCSamplingInterval ?c)"
    "yd_PollInterval ?dc = duration_String (PollInterval d)" "yd_Tags ?dc = map convertToTagConfig (Tags d)"
    by (simp_all add: convertToDeviceConfig_def Let_def)
  have i: "int64 (Timeout ?c)" "int64 (RetryDelay ?c)" "int64 (OPCPublishInterval ?c)" "int64 (OPCSamplingInterval ?c)"
    "int64 (PollInterval d)" "\<forall>t\<in>set (Tags d). go_tag t" "protocol_of_text (protocol_text (dev_Protocol d)) = dev_Protocol d"
    using assms(1) by (simp_all add: go_device_def)
  have "build_device t1 t2 ?dc (convert_connection ?dc (Timeout ?c) (RetryDelay ?c) (OPCPublishInterval ?c) (OPCSamplingInterval ?c))
      (map tag_after_restart (Tags d)) (PollInterval d) = device_after_restart t1 t2 d"
    using i(7) by (simp add: build_device_def convertToDeviceConfig_def convert_connection_def opcUseSubscriptions_def
        device_after_restart_def Let_def)
  then show ?thesis unfolding convertDeviceConfig_def Let_def sel
    by (simp add: interval_read_back interval_read_back_zero i(1-5) tags_read_back [OF i(6)]
        device_after_restart_valid [OF assms(2)])
qed

section \<open>Examples\<close>

text \<open>The environment of \<open>demo_env\<close>; the map is ranged over as \<open>[''d1'']\<close>.\<close>

definition demo_manager_env :: "(string \<rightharpoonup> bytes) manager_env" where
  "demo_manager_env = file_env.extend demo_env
     \<lparr>me_range = (\<lambda>m w. case m ''d1'' of None \<Rightarrow> [] | Some d \<Rightarrow> [d])\<rparr>"

definition demo_manager :: "(string \<rightharpoonup> bytes) device_manager" where
  "demo_manager = NewDeviceManager ''a''"

text \<open>Three tags with the suffixes \<open>a_3\<close>, \<open>a\<close> and \<open>a\<close>.\<close>

definition clashing_device :: device where
  "clashing_device = demo_loaded\<lparr>Tags := [demo_tag\<lparr>tag_ID := ''t1'', TopicSuffix := ''a_3''\<rparr>,
     demo_tag\<lparr>tag_ID := ''t2'', TopicSuffix := ''a''\<rparr>, demo_tag\<lparr>tag_ID := ''t3'', TopicSuffix := ''a''\<rparr>]\<rparr>"

definition hostless_device :: device where
  "hostless_device = demo_loaded\<lparr>Connection := (Connection demo_loaded)\<lparr>Host := []\<rparr>\<rparr>"

lemma base_suffix_plain: "trim_space s = s \<Longrightarrow> s \<noteq> [] \<Longrightarrow> replace_reserved s = s \<Longrightarrow> trim_underscores s = s
    \<Longrightarrow> base_suffix i (t\<lparr>TopicSuffix := s\<rparr>) = s"
  by (simp add: base_suffix_def chosen_suffix_def Let_def)

lemma demo_bases:
  "base_suffix i (t\<lparr>TopicSuffix := ''flow''\<rparr>) = ''flow''" "base_suffix i (t\<lparr>TopicSuffix := ''a''\<rparr>) = ''a''"
  "base_suffix i (t\<lparr>TopicSuffix := ''a_3''\<rparr>) = ''a_3''"
  by (rule base_suffix_plain; simp add: trim_space_def is_space_def replace_reserved_def trim_underscores_def)+

lemma show_nat_3: "show_nat 3 = ''3''"
  by code_simp

lemma clashing_hangs: "normalizeDeviceTopics clashing_device = None"
proof -
  have "unique_suffix {''a'', ''a_3''} ''a'' 2 ''a'' = None" by (rule unique_suffix_hangs) (simp_all add: show_nat_3)
  then show ?thesis by (simp add: normalizeDeviceTopics_def clashing_device_def demo_bases numeral_2_eq_2 insert_commute)
qed

lemma demo_tags: "Tags demo_loaded = [demo_tag]" "normalize_tags {} 0 [demo_tag] = Some [demo_tag]"
proof -
  show "Tags demo_loaded = [demo_tag]" by (simp add: demo_loaded_def build_device_def)
  have t: "demo_tag = demo_tag\<lparr>TopicSuffix := ''flow''\<rparr>" by (simp add: demo_tag_def)
  then have "base_suffix 0 demo_tag = ''flow''" by (metis demo_bases(1))
  then show "normalize_tags {} 0 [demo_tag] = Some [demo_tag]" using t by simp
qed

lemma same_tags: "d\<lparr>Tags := ts\<rparr> = d \<longleftrightarrow> ts = Tags d" for d :: device
proof
  assume "d\<lparr>Tags := ts\<rparr> = d"
  then have "Tags (d\<lparr>Tags := ts\<rparr>) = Tags d" by simp
  then show "ts = Tags d" by simp
qed simp

lemma demo_normalized: "normalizeDeviceTopics demo_loaded = Some demo_loaded"
  using demo_tags by (simp add: normalizeDeviceTopics_def same_tags)

lemma hostless_normalized: "normalizeDeviceTopics hostless_device = Some hostless_device"
  using demo_tags by (simp add: normalizeDeviceTopics_def hostless_device_def same_tags)

lemma hostless_validated:
  "ValidateDevice (hostless_device\<lparr>CreatedAt := t1, UpdatedAt := t2\<rparr>) = (hostless_device\<lparr>CreatedAt := t1, UpdatedAt := t2\<rparr>, None)"
proof -
  have "validate_tags (dev_ID demo_loaded) (dev_Protocol demo_loaded) (Tags demo_loaded) = (Tags demo_loaded, None)"
    using demo_validated by (auto simp: ValidateDevice_def same_tags split: if_splits prod.splits)
  then show ?thesis using demo_validated
    by (simp add: ValidateDevice_def hostless_device_def same_tags split: if_splits)
qed

lemma demo_id: "dev_ID demo_loaded = ''d1''"
  by (simp add: demo_loaded_def build_device_def demo_yaml_def)

lemma demo_range: "me_range demo_manager_env [''d1'' \<mapsto> d] w = [d]"
  by (simp add: demo_manager_env_def file_env.defs)

lemma demo_saved: "saveDevicesUnlocked (demo_manager_env\<lparr>fe_Unmarshal := u\<rparr>) (demo_manager\<lparr>dm_devices := m\<rparr>, w) = (None, w(''a'' \<mapsto> [1]))"
  by (simp add: saveDevicesUnlocked_def SaveDevices_def demo_manager_env_def demo_env_def demo_manager_def NewDeviceManager_def
      file_env.defs)

lemma demo_add:
  assumes "normalizeDeviceTopics d = Some d" "ValidateDevice (d\<lparr>CreatedAt := 1, UpdatedAt := 2\<rparr>) = (d\<lparr>CreatedAt := 1, UpdatedAt := 2\<rparr>, None)"
    "dev_ID d = ''d1''"
  shows "manager_AddDevice (demo_manager_env\<lparr>fe_Unmarshal := u\<rparr>) 1 2 d (demo_manager, w)
    = Some (None, demo_manager\<lparr>dm_devices := [''d1'' \<mapsto> d\<lparr>CreatedAt := 1, UpdatedAt := 2\<rparr>]\<rparr>, w(''a'' \<mapsto> [1]))"
proof -
  have n: "dm_devices demo_manager = Map.empty" "dm_onDeviceAdd demo_manager = None"
    by (simp_all add: demo_manager_def NewDeviceManager_def)
  show ?thesis using assms demo_saved
    by (simp add: manager_AddDevice_def n Let_def run_callback_def)
qed

lemma restamped_valid: "ValidateDevice d = (d, None) \<Longrightarrow> ValidateDevice (d\<lparr>CreatedAt := t1, UpdatedAt := t2\<rparr>) = (d\<lparr>CreatedAt := t1, UpdatedAt := t2\<rparr>, None)"
  by (rule validated_other_times)

lemma load_loop_valid: "load_loop clock seen idx dcs = Inr ds \<Longrightarrow> dc \<in> set dcs \<Longrightarrow> validateConnectionConfig dc = None"
proof (induction dcs arbitrary: seen idx ds)
  case (Cons x dcs)
  then show ?case by (auto split: option.splits sum.splits)
qed simp

lemma truncate_sel [simp]:
  "fe_ReadFile (file_env.truncate env) = fe_ReadFile env" "fe_WriteFile (file_env.truncate env) = fe_WriteFile env"
  "fe_Marshal (file_env.truncate env) = fe_Marshal env" "fe_Unmarshal (file_env.truncate env) = fe_Unmarshal env"
  by (simp_all add: file_env.defs)

section \<open>Properties\<close>

text \<open>
  C19: The device manager refines a store of devices.  An edit that reports an error leaves the devices as
  they were, also when the file could not be written; an edit that reports success changes the one
  device it names, to one with normalised topics that passed validation, and the device file was then
  written with exactly the devices of the store.
\<close>

theorem edits_refine_store:
  assumes "run_edit env e (dm, w) = Some (r, dm', w')"
  shows "store_step (dm_devices dm) e (r = None) (dm_devices dm') \<and> dm' = dm\<lparr>dm_devices := dm_devices dm'\<rparr>
    \<and> (r = None \<longrightarrow> (\<exists>w1. file_written env dm' w w1))"
  using edit_refines [OF assms] by blast

theorem edits_refine_store_witness:
  "store_step Map.empty (Adding 1 2 demo_loaded) True [''d1'' \<mapsto> demo_loaded\<lparr>CreatedAt := 1, UpdatedAt := 2\<rparr>]"
proof -
  have "run_edit demo_manager_env (Adding 1 2 demo_loaded) (demo_manager, Map.empty)
    = Some (None, demo_manager\<lparr>dm_devices := [''d1'' \<mapsto> demo_loaded\<lparr>CreatedAt := 1, UpdatedAt := 2\<rparr>]\<rparr>, [''a'' \<mapsto> [1]])"
    using demo_add [OF demo_normalized restamped_valid [OF demo_validated] demo_id, of "fe_Unmarshal demo_manager_env"] by simp
  from edits_refine_store [OF this] show ?thesis by (simp add: demo_manager_def NewDeviceManager_def)
qed

text \<open>
  C22: In every state of a manager, whatever was loaded and edited before, a device is found under its own
  ID, the topic suffixes of its tags are distinct, and none holds a character with a meaning in an MQTT
  topic or a blank.
\<close>

theorem managed_topics_distinct:
  assumes "managed env (dm, w)" and "GetDevice i dm = Some d"
  shows "dev_ID d = i \<and> distinct (map TopicSuffix (Tags d)) \<and> (\<forall>t\<in>set (Tags d). set (TopicSuffix t) \<inter> set ''/#+ '' = {})"
  using managed_store_ok [OF assms(1)] assms(2)
  by (simp add: store_ok_def GetDevice_def topics_ok_def topic_safe_def)

theorem managed_topics_distinct_witness:
  "dev_ID (demo_loaded\<lparr>CreatedAt := 1, UpdatedAt := 2\<rparr>) = ''d1''"
proof -
  let ?d = "demo_loaded\<lparr>CreatedAt := 1, UpdatedAt := 2\<rparr>"
  have "managed demo_manager_env (demo_manager, Map.empty)"
    using managed.created [of demo_manager_env None None None "''a''" Map.empty]
    by (simp add: demo_manager_def SetCallbacks_def NewDeviceManager_def)
  then have "managed demo_manager_env (demo_manager\<lparr>dm_devices := [''d1'' \<mapsto> ?d]\<rparr>, [''a'' \<mapsto> [1]])"
    by (rule managed.edited [of _ _ "Adding 1 2 demo_loaded" None])
      (use demo_add [OF demo_normalized restamped_valid [OF demo_validated] demo_id, of "fe_Unmarshal demo_manager_env" Map.empty] in simp)
  from managed_topics_distinct [OF this, of "''d1''" ?d] show ?thesis by (simp add: GetDevice_def)
qed

text \<open>
  C23: Normalising the topics returns when no tag's fallback suffix is the suffix another tag starts from.
\<close>

theorem normalisation_returns:
  assumes "fallbacks_free (Tags d)"
  shows "\<exists>d'. normalizeDeviceTopics d = Some d'"
  by (rule normalization_returns [OF assms])

theorem normalisation_returns_witness: "\<exists>d'. normalizeDeviceTopics demo_loaded = Some d'"
  by (rule normalisation_returns) (simp add: demo_tags fallbacks_free_def)

text \<open>
  Otherwise it may not return: adding a device with the topic suffixes \<open>a_3\<close>, \<open>a\<close> and \<open>a\<close> loops
  forever, with the manager's lock held.
\<close>

theorem add_may_hang:
  "manager_AddDevice env t1 t2 clashing_device (NewDeviceManager path, w) = None"
  by (simp add: manager_AddDevice_def NewDeviceManager_def clashing_hangs)

text \<open>
  C18: What a restart keeps.  Devices that are valid, have a complete connection and distinct IDs come back
  from the file in their order; of each, exactly the fields that the file has no place for are reset
  and the loader's defaults filled in.
\<close>

theorem restart_keeps_devices:
  assumes "SaveDevices env path devices w = (None, w1)" and "distinct (map dev_ID devices)"
    and "\<forall>d\<in>set devices. go_device d \<and> ValidateDevice d = (d, None) \<and> connection_complete d"
    and yaml: "\<And>data. fe_Marshal env (file_of_devices devices) = Inr data
      \<Longrightarrow> fe_Unmarshal env data = Inr (file_of_devices devices)"
    and files: "\<And>data w'. fe_WriteFile env path data 384 w = (None, w') \<Longrightarrow> fe_ReadFile env path w' = Inr data"
  shows "LoadDevices env clock path w1 = Inr (loaded_as device_after_restart clock 0 devices)"
proof -
  obtain data where d: "fe_Marshal env (file_of_devices devices) = Inr data" "fe_WriteFile env path data 384 w = (None, w1)"
    using assms(1) by (auto simp: SaveDevices_def split: sum.splits prod.splits option.splits)
  have "validateConnectionConfig (convertToDeviceConfig d) = None
      \<and> (\<forall>t1 t2. convertDeviceConfig t1 t2 (convertToDeviceConfig d) = Inr (device_after_restart t1 t2 d))" if "d \<in> set devices" for d
    using bspec [OF assms(3) that] saved_connection_valid [of d] device_read_back [of d] by (simp add: go_device_def)
  then have "load_loop clock Map.empty 0 (map convertToDeviceConfig devices) = Inr (loaded_as device_after_restart clock 0 devices)"
    by (intro load_loop_saved) (use assms(2) in simp_all)
  then show ?thesis by (simp add: LoadDevices_def files [OF d(2)] yaml [OF d(1)] file_of_devices_def)
qed

theorem restart_keeps_devices_witness:
  "LoadDevices demo_env (\<lambda>_. 9) ''b'' [''b'' \<mapsto> [1]] = Inr [device_after_restart 9 9 demo_loaded]"
proof -
  have s: "SaveDevices demo_env ''b'' [demo_loaded] Map.empty = (None, [''b'' \<mapsto> [1]])" by (simp add: SaveDevices_def demo_env_def)
  have "go_tag demo_tag"
    by (simp add: go_tag_def demo_tag_def zero_tag_def data_type_of_text_def register_type_of_text_def byte_order_of_text_def
        access_mode_of_text_def deadband_type_of_text_def int64_def)
  then have g: "go_device demo_loaded"
    by (simp add: go_device_def demo_tags) (simp add: demo_loaded_def build_device_def demo_yaml_def convert_connection_def
        int64_def protocol_of_text_def Let_def)
  have c: "connection_complete demo_loaded"
    by (simp add: connection_complete_def demo_loaded_def build_device_def demo_yaml_def convert_connection_def
        protocol_of_text_def demo_yaml_connection_def Let_def)
  have "\<forall>d\<in>set [demo_loaded]. go_device d \<and> ValidateDevice d = (d, None) \<and> connection_complete d"
    using g c demo_validated by simp
  from restart_keeps_devices [OF s _ this, of "\<lambda>_. 9"] show ?thesis by (auto simp: demo_env_def)
qed

text \<open>
  C20: The manager accepts and saves devices that the loader refuses: once a device whose connection lacks
  what its protocol needs has been added with success, the device file as it stands cannot be loaded,
  and none of the devices is.
\<close>

theorem incomplete_device_stops_restart:
  assumes "manager_AddDevice env t1 t2 d (dm, w) = Some (None, dm', w')" and "\<not> connection_complete d"
    and "range": "set (me_range env (dm_devices dm') w) = ran (dm_devices dm')"
    and yaml: "\<And>data. fe_Marshal env (file_of_devices (me_range env (dm_devices dm') w)) = Inr data
      \<Longrightarrow> fe_Unmarshal env data = Inr (file_of_devices (me_range env (dm_devices dm') w))"
    and files: "\<And>data w1. fe_WriteFile env (dm_devicesPath dm) data 384 w = (None, w1)
      \<Longrightarrow> fe_ReadFile env (dm_devicesPath dm) w1 = Inr data"
    and callback: "\<And>x w1. fe_ReadFile env (dm_devicesPath dm) (run_callback (dm_onDeviceAdd dm) x w1)
      = fe_ReadFile env (dm_devicesPath dm) w1"
  shows "\<exists>e. manager_LoadDevices env clock (dm', w') = Some (Some e, dm', w')"
proof -
  obtain d' w1 where a: "accepted d d'" "dm' = dm\<lparr>dm_devices := (dm_devices dm)(dev_ID d \<mapsto> d')\<rparr>"
    "file_written env dm' w w1" "w' = run_callback (dm_onDeviceAdd dm) d' w1"
    using add_outcome [OF assms(1)] by blast
  obtain data where d: "fe_Marshal env (file_of_devices (me_range env (dm_devices dm') w)) = Inr data"
    "fe_WriteFile env (dm_devicesPath dm) data 384 w = (None, w1)" using a(2,3) by (auto simp: file_written_def)
  have m: "convertToDeviceConfig d' \<in> set (map convertToDeviceConfig (me_range env (dm_devices dm') w))"
    using a(2) "range" by (auto simp: ran_def)
  have p: "dev_Protocol d' = dev_Protocol d" "Connection d' = Connection d" using a(1) by (simp_all add: accepted_def)
  have "\<not> connection_complete d'" using assms(2) by (simp add: connection_complete_def p)
  moreover from this have "protocol_of_text (protocol_text (dev_Protocol d')) = dev_Protocol d'"
    by (cases "dev_Protocol d'") (simp_all add: connection_complete_def protocol_of_text_def)
  ultimately have v: "validateConnectionConfig (convertToDeviceConfig d') \<noteq> None" using saved_connection_valid by blast
  have "LoadDevices (file_env.truncate env) clock (dm_devicesPath dm) w'
      = load_loop clock Map.empty 0 (map convertToDeviceConfig (me_range env (dm_devices dm') w))"
    by (simp add: LoadDevices_def a(4) callback files [OF d(2)] yaml [OF d(1)] file_of_devices_def)
  then obtain e where "LoadDevices (file_env.truncate env) clock (dm_devicesPath dm) w' = Inl e"
    using load_loop_valid [OF _ m] v by (cases "load_loop clock Map.empty 0 (map convertToDeviceConfig (me_range env (dm_devices dm') w))") auto
  then show ?thesis by (simp add: manager_LoadDevices_def a(2))
qed

theorem incomplete_device_stops_restart_witness:
  "\<exists>(env :: (string \<rightharpoonup> bytes) manager_env) dm w e. manager_LoadDevices env (\<lambda>_. 9) (dm, w) = Some (Some e, dm, w)
     \<and> dm_devices dm = [''d1'' \<mapsto> hostless_device\<lparr>CreatedAt := 1, UpdatedAt := 2\<rparr>]"
proof -
  let ?d = "hostless_device\<lparr>CreatedAt := 1, UpdatedAt := 2\<rparr>"
  let ?env = "demo_manager_env\<lparr>fe_Unmarshal := \<lambda>b. Inr (file_of_devices [?d])\<rparr>"
  let ?dm = "demo_manager\<lparr>dm_devices := [''d1'' \<mapsto> ?d]\<rparr>"
  have i: "dev_ID hostless_device = ''d1''" by (simp add: hostless_device_def demo_id)
  have a: "manager_AddDevice ?env 1 2 hostless_device (demo_manager, Map.empty) = Some (None, ?dm, [''a'' \<mapsto> [1]])"
    by (rule demo_add [OF hostless_normalized hostless_validated i])
  have c: "\<not> connection_complete hostless_device"
    by (simp add: connection_complete_def hostless_device_def demo_loaded_def build_device_def demo_yaml_def protocol_of_text_def Let_def)

  have cb: "dm_onDeviceAdd demo_manager = None" "dm_devicesPath demo_manager = ''a''"
    by (simp_all add: demo_manager_def NewDeviceManager_def)
  have "\<exists>e. manager_LoadDevices ?env (\<lambda>_. 9) (?dm, [''a'' \<mapsto> [1]]) = Some (Some e, ?dm, [''a'' \<mapsto> [1]])"
  proof (rule incomplete_device_stops_restart [OF a c])
    show "fe_ReadFile ?env (dm_devicesPath demo_manager) w1 = Inr data"
      if "fe_WriteFile ?env (dm_devicesPath demo_manager) data 384 Map.empty = (None, w1)" for data w1
      using that by (auto simp: demo_manager_env_def demo_env_def file_env.defs)
  qed (simp_all add: demo_range cb run_callback_def)
  moreover have "dm_devices ?dm = [''d1'' \<mapsto> ?d]" by simp
  ultimately show ?thesis by blast
qed

text \<open>
  A writable Modbus tag without an explicit access mode is read-only after a restart: the access mode was
  derived from the register type, and the loader fills in \<open>read\<close>.
\<close>

lemma write_access_lost:
  assumes "AccessMode t = AccessMode_other []" "RegisterType t = RegisterTypeCoil \<or> RegisterType t = RegisterTypeHoldingRegister"
  shows "IsWritable t \<and> \<not> IsWritable (tag_after_restart t)"
  using assms by (auto simp: IsWritable_def tag_after_restart_def)

end
