(* ===== verification/Gateway_Config.thy ===== *)
theory Gateway_Config
  imports Domain
begin

text \<open>
  \<open>internal/adapter/config/config.go\<close>: the gateway's configuration, the defaults and the environment
  variables it is put together from, and its validation.  Merging them is the \<open>viper\<close> library: a
  parameter, given everything the code tells it.
\<close>

section \<open>The configuration\<close>

record http_config =
  hc_Port :: int
  hc_ReadTimeout :: duration
  hc_WriteTimeout :: duration
  hc_IdleTimeout :: duration

record api_config =
  ac_AuthEnabled :: bool
  ac_APIKey :: string
  ac_MaxRequestBodySize :: int
  ac_AllowedOrigins :: "string list"

record gw_mqtt_config =
  gm_BrokerURL :: string
  gm_ClientID :: string
  gm_Username :: string
  gm_Password :: string
  gm_CleanSession :: bool
  gm_QoS :: byte
  gm_KeepAlive :: duration
  gm_ConnectTimeout :: duration
  gm_ReconnectDelay :: duration
  gm_MaxReconnect :: int
  gm_TLSEnabled :: bool
  gm_TLSCertFile :: string
  gm_TLSKeyFile :: string
  gm_TLSCAFile :: string
  gm_BufferSize :: int

record gw_modbus_config =
  gb_MaxConnections :: int
  gb_IdleTimeout :: duration
  gb_HealthCheckPeriod :: duration
  gb_ConnectionTimeout :: duration
  gb_RetryAttempts :: int
  gb_RetryDelay :: duration

record gw_opcua_config =
  go_MaxConnections :: int
  go_IdleTimeout :: duration
  go_HealthCheckPeriod :: duration
  go_ConnectionTimeout :: duration
  go_RetryAttempts :: int
  go_RetryDelay :: duration
  go_DefaultSecurityPolicy :: string
  go_DefaultSecurityMode :: string
  go_DefaultAuthMode :: string
  go_TrustStorePath :: string
  go_AutoTrust :: bool
  go_CertCheckInterval :: duration

record gw_s7_config =
  gs_MaxConnections :: int
  gs_IdleTimeout :: duration
  gs_HealthCheckPeriod :: duration
  gs_ConnectionTimeout :: duration
  gs_RetryAttempts :: int
  gs_RetryDelay :: duration
  gs_CBMaxRequests :: u32
  gs_CBInterval :: duration
  gs_CBTimeout :: duration
  gs_CBFailureThreshold :: u32

record gw_polling_config =
  gp_WorkerCount :: int
  gp_BatchSize :: int
  gp_DefaultInterval :: duration
  gp_MaxRetries :: int
  gp_ShutdownTimeout :: duration

record gw_logging_config =
  gl_Level :: string
  gl_Format :: string
  gl_Output :: string
  gl_TimeFormat :: string

record gw_ntp_config =
  gn_Enabled :: bool
  gn_Server :: string
  gn_CheckInterval :: duration
  gn_WarnThreshold :: duration
  gn_CritThreshold :: duration

record gateway_config =
  gc_Environment :: string
  gc_DevicesConfigPath :: string
  gc_HTTP :: http_config
  gc_API :: api_config
  gc_MQTT :: gw_mqtt_config
  gc_Modbus :: gw_modbus_config
  gc_OPCUA :: gw_opcua_config
  gc_S7 :: gw_s7_config
  gc_Polling :: gw_polling_config
  gc_Logging :: gw_logging_config
  gc_NTP :: gw_ntp_config

section \<open>Defaults and environment variables\<close>

datatype setting = SString string | SInt int | SBool bool | SDuration duration | SStrings "string list"

definition setDefaults :: "(string \<times> setting) list" where
  "setDefaults = [
     (''environment'', SString ''development''),
     (''devices_config_path'', SString ''./config/devices.yaml''),
     (''http.port'', SInt 8080),
     (''http.read_timeout'', SDuration (10 * second)),
     (''http.write_timeout'', SDuration (10 * second)),
     (''http.idle_timeout'', SDuration (60 * second)),
     (''api.auth_enabled'', SBool False),
     (''api.api_key'', SString []),
     (''api.max_request_body_size'', SInt 1048576),
     (''api.allowed_origins'', SStrings []),
     (''mqtt.broker_url'', SString ''tcp://localhost:1883''),
     (''mqtt.client_id'', SString ''protocol-gateway''),
     (''mqtt.clean_session'', SBool True),
     (''mqtt.qos'', SInt 1),
     (''mqtt.keep_alive'', SDuration (30 * second)),
     (''mqtt.connect_timeout'', SDuration (10 * second)),
     (''mqtt.reconnect_delay'', SDuration (5 * second)),
     (''mqtt.max_reconnect'', SInt (- 1)),
     (''mqtt.buffer_size'', SInt 10000),
     (''modbus.max_connections'', SInt 100),
     (''modbus.idle_timeout'', SDuration (300 * second)),
     (''modbus.health_check_period'', SDuration (30 * second)),
     (''modbus.connection_timeout'', SDuration (10 * second)),
     (''modbus.retry_attempts'', SInt 3),
     (''modbus.retry_delay'', SDuration (100 * millisecond)),
     (''opcua.max_connections'', SInt 50),
     (''opcua.idle_timeout'', SDuration (300 * second)),
     (''opcua.health_check_period'', SDuration (30 * second)),
     (''opcua.connection_timeout'', SDuration (15 * second)),
     (''opcua.retry_attempts'', SInt 3),
     (''opcua.retry_delay'', SDuration (500 * millisecond)),
     (''opcua.default_security_policy'', SString ''None''),
     (''opcua.default_security_mode'', SString ''None''),
     (''opcua.default_auth_mode'', SString ''Anonymous''),
     (''opcua.trust_store_path'', SString ''./pki''),
     (''opcua.auto_trust'', SBool False),
     (''opcua.cert_check_interval'', SDuration (3600 * second)),
     (''s7.max_connections'', SInt 100),
     (''s7.idle_timeout'', SDuration (300 * second)),
     (''s7.health_check_period'', SDuration (30 * second)),
     (''s7.connection_timeout'', SDuration (10 * second)),
     (''s7.retry_attempts'', SInt 3),
     (''s7.retry_delay'', SDuration (5 * second)),
     (''s7.cb_max_requests'', SInt 3),
     (''s7.cb_interval'', SDuration (10 * second)),
     (''s7.cb_timeout'', SDuration (30 * second)),
     (''s7.cb_failure_threshold'', SInt 5),
     (''polling.worker_count'', SInt 10),
     (''polling.batch_size'', SInt 50),
     (''polling.default_interval'', SDuration second),
     (''polling.max_retries'', SInt 3),
     (''polling.shutdown_timeout'', SDuration (30 * second)),
     (''logging.level'', SString ''info''),
     (''logging.format'', SString ''json''),
     (''logging.output'', SString ''stdout''),
     (''logging.time_format'', SString ''2006-01-02T15:04:05Z07:00''),
     (''ntp.enabled'', SBool True),
     (''ntp.server'', SString ''pool.ntp.org''),
     (''ntp.check_interval'', SDuration (300 * second)),
     (''ntp.warn_threshold'', SDuration (500 * millisecond)),
     (''ntp.crit_threshold'', SDuration (2 * second))]"

definition bindEnvVars :: "(string \<times> string) list" where
  "bindEnvVars = [
     (''mqtt.broker_url'', ''MQTT_BROKER_URL''),
     (''mqtt.username'', ''MQTT_USERNAME''),
     (''mqtt.password'', ''MQTT_PASSWORD''),
     (''mqtt.client_id'', ''MQTT_CLIENT_ID''),
     (''environment'', ''ENVIRONMENT''),
     (''devices_config_path'', ''DEVICES_CONFIG_PATH''),
     (''http.port'', ''HTTP_PORT''),
     (''api.auth_enabled'', ''API_AUTH_ENABLED''),
     (''api.api_key'', ''API_KEY''),
     (''api.max_request_body_size'', ''API_MAX_REQUEST_BODY_SIZE''),
     (''logging.level'', ''LOG_LEVEL''),
     (''logging.format'', ''LOG_FORMAT'')]"

section \<open>Loading\<close>

text \<open>That the devices file is missing is not an error.\<close>

definition ValidateConfig :: "gateway_config \<Rightarrow> err option" where
  "ValidateConfig c =
     (if gm_BrokerURL (gc_MQTT c) = [] then Some (Plain ''MQTT broker URL is required'')
      else if hc_Port (gc_HTTP c) \<le> 0 \<or> 65535 < hc_Port (gc_HTTP c)
      then Some (Plain (''invalid HTTP port: '' @ show_int (hc_Port (gc_HTTP c))))
      else if gp_WorkerCount (gc_Polling c) \<le> 0 then Some (Plain ''polling worker count must be positive'')
      else if gb_MaxConnections (gc_Modbus c) \<le> 0 then Some (Plain ''modbus max connections must be positive'')
      else None)"

text \<open>What \<open>viper\<close> is told, and what it answers.\<close>

record viper_setup =
  vs_Defaults :: "(string \<times> setting) list"
  vs_ConfigName :: string
  vs_ConfigType :: string
  vs_ConfigPaths :: "string list"
  vs_EnvPrefix :: string
  vs_KeyReplacer :: "(string \<times> string) list"
  vs_AutomaticEnv :: bool
  vs_EnvVars :: "(string \<times> string) list"

datatype config_read = ReadOk | ReadNotFound | ReadError err

record viper =
  vp_ReadInConfig :: "viper_setup \<Rightarrow> config_read"
  vp_Unmarshal :: "viper_setup \<Rightarrow> err + gateway_config"

definition file_setup :: viper_setup where
  "file_setup = \<lparr>vs_Defaults = setDefaults, vs_ConfigName = ''config'', vs_ConfigType = ''yaml'',
     vs_ConfigPaths = [''.'', ''./config'', ''/etc/protocol-gateway''], vs_EnvPrefix = [], vs_KeyReplacer = [],
     vs_AutomaticEnv = False, vs_EnvVars = []\<rparr>"

definition LoadConfig :: "viper \<Rightarrow> err + gateway_config" where
  "LoadConfig v =
     (case vp_ReadInConfig v file_setup of
        ReadError e \<Rightarrow> Inl (WrapPre ''error reading config file: '' e)
      | _ \<Rightarrow>
          (case vp_Unmarshal v (file_setup\<lparr>vs_EnvPrefix := ''GATEWAY'', vs_KeyReplacer := [(''.'', ''_'')],
              vs_AutomaticEnv := True, vs_EnvVars := bindEnvVars\<rparr>) of
             Inl e \<Rightarrow> Inl (WrapPre ''error unmarshaling config: '' e)
           | Inr cfg \<Rightarrow>
               (case ValidateConfig cfg of
                  Some e \<Rightarrow> Inl (WrapPre ''configuration validation failed: '' e)
                | None \<Rightarrow> Inr cfg)))"

section \<open>What a loaded configuration satisfies\<close>

lemma ValidateConfig_ok:
  "ValidateConfig c = None \<longleftrightarrow> gm_BrokerURL (gc_MQTT c) \<noteq> [] \<and> 1 \<le> hc_Port (gc_HTTP c) \<and> hc_Port (gc_HTTP c) \<le> 65535
     \<and> 1 \<le> gp_WorkerCount (gc_Polling c) \<and> 1 \<le> gb_MaxConnections (gc_Modbus c)"
  by (auto simp: ValidateConfig_def)

lemma LoadConfig_valid: "LoadConfig v = Inr cfg \<Longrightarrow> ValidateConfig cfg = None"
  by (auto simp: LoadConfig_def split: config_read.splits sum.splits option.splits)

text \<open>Every key with an environment variable of its own, but for the credentials, has a default.\<close>

lemma env_vars_have_defaults:
  "set (map fst bindEnvVars) - set (map fst setDefaults) = {''mqtt.username'', ''mqtt.password''}"
  by (simp add: bindEnvVars_def setDefaults_def insert_Diff_if)

end
