(* ===== verification/Http_Api.thy ===== *)
theory Http_Api
  imports Device_Manager Gateway_Config Mqtt_Publisher
begin

text \<open>
  The HTTP side of \<open>internal/api/handlers.go\<close>: the security middleware and the handlers of the devices.
  A request and the response that is being written are records; \<open>net/http\<close> and \<open>encoding/json\<close> are the
  standard library: what is used of the response writer and of \<open>MaxBytesReader\<close> is defined here, the two
  JSON functions are parameters.  A handler acts on a state of any type, and is \<open>None\<close> when it does
  not return.  The body of a request is never nil in a server.
\<close>

section \<open>Requests and responses\<close>

record body =
  bd_Content :: string
  bd_Limit :: "int option"

record http_request =
  rq_Method :: string
  rq_Path :: string
  rq_Header :: "string \<Rightarrow> string"
  rq_Query :: "string \<Rightarrow> string"
  rq_Body :: body

text \<open>\<open>rp_Sent\<close> is the header as it was when the status was written.\<close>

record response =
  rp_Header :: "string \<rightharpoonup> string"
  rp_Status :: "int option"
  rp_Sent :: "string \<rightharpoonup> string"
  rp_Body :: string

definition fresh_response :: response where
  "fresh_response = \<lparr>rp_Header = Map.empty, rp_Status = None, rp_Sent = Map.empty, rp_Body = []\<rparr>"

type_synonym 's handler = "http_request \<Rightarrow> response \<times> 's \<Rightarrow> (response \<times> 's) option"

text \<open>\<open>http.MaxBytesReader\<close>: what can be read, and whether reading ends in an error.\<close>

definition MaxBytesReader :: "body \<Rightarrow> int \<Rightarrow> body" where
  "MaxBytesReader b n = b\<lparr>bd_Limit := Some (case bd_Limit b of None \<Rightarrow> n | Some m \<Rightarrow> min m n)\<rparr>"

definition readable :: "body \<Rightarrow> string \<times> bool" where
  "readable b = (case bd_Limit b of
       None \<Rightarrow> (bd_Content b, False)
     | Some n \<Rightarrow> if int (length (bd_Content b)) \<le> n then (bd_Content b, False)
         else (take (nat n) (bd_Content b), True))"

text \<open>\<open>Header().Set\<close>, \<open>WriteHeader\<close>, \<open>Write\<close> and \<open>http.Error\<close>.\<close>

definition set_header :: "string \<Rightarrow> string \<Rightarrow> response \<Rightarrow> response" where
  "set_header k v p = p\<lparr>rp_Header := (rp_Header p)(k \<mapsto> v)\<rparr>"

definition WriteHeader :: "int \<Rightarrow> response \<Rightarrow> response" where
  "WriteHeader code p = (if rp_Status p = None then p\<lparr>rp_Status := Some code, rp_Sent := rp_Header p\<rparr> else p)"

definition write_text :: "string \<Rightarrow> response \<Rightarrow> response" where
  "write_text s p = (let p1 = WriteHeader 200 p in p1\<lparr>rp_Body := rp_Body p1 @ s\<rparr>)"

definition http_Error :: "string \<Rightarrow> int \<Rightarrow> response \<Rightarrow> response" where
  "http_Error msg code p = write_text (msg @ [CHR 0x0A]) (WriteHeader code
     (set_header ''X-Content-Type-Options'' ''nosniff'' (set_header ''Content-Type'' ''text/plain; charset=utf-8'' p)))"

text \<open>A handler that writes nothing answers 200.\<close>

definition status_of :: "response \<Rightarrow> int" where
  "status_of p = (case rp_Status p of None \<Rightarrow> 200 | Some c \<Rightarrow> c)"

text \<open>\<open>json.NewEncoder(w).Encode(v)\<close>, given what marshalling \<open>v\<close> gives: an error writes nothing.\<close>

definition encode_to :: "err + string \<Rightarrow> response \<Rightarrow> err option \<times> response" where
  "encode_to m p = (case m of Inl e \<Rightarrow> (Some e, p) | Inr s \<Rightarrow> (None, write_text (s @ [CHR 0x0A]) p))"

definition json_header :: "response \<Rightarrow> response" where
  "json_header = set_header ''Content-Type'' ''application/json''"

section \<open>The middleware\<close>

definition presented_key :: "http_request \<Rightarrow> string" where
  "presented_key r = (if rq_Header r ''X-API-Key'' = [] then rq_Query r ''api_key'' else rq_Header r ''X-API-Key'')"

definition RequireAuth :: "api_config \<Rightarrow> 's handler \<Rightarrow> 's handler" where
  "RequireAuth cfg next r st = (case st of (p, s) \<Rightarrow>
     if \<not> ac_AuthEnabled cfg then next r (p, s)
     else if presented_key r = [] then Some (http_Error ''Unauthorized: API key required'' 401 p, s)
     else if presented_key r \<noteq> ac_APIKey cfg then Some (http_Error ''Unauthorized: Invalid API key'' 401 p, s)
     else next r (p, s))"

definition limited :: "api_config \<Rightarrow> http_request \<Rightarrow> http_request" where
  "limited cfg r = (if 0 < ac_MaxRequestBodySize cfg
     then r\<lparr>rq_Body := MaxBytesReader (rq_Body r) (ac_MaxRequestBodySize cfg)\<rparr> else r)"

definition LimitRequestBody :: "api_config \<Rightarrow> 's handler \<Rightarrow> 's handler" where
  "LimitRequestBody cfg next r st = next (limited cfg r) st"

definition allowed_origin :: "string list \<Rightarrow> string \<Rightarrow> string option" where
  "allowed_origin origins origin =
     (if origins = [] then Some ''*''
      else if list_ex (\<lambda>o1. o1 = ''*'' \<or> o1 = origin) origins then Some origin else None)"

text \<open>The first result says that the request was a preflight request, which is answered.\<close>

definition CORS :: "api_config \<Rightarrow> http_request \<Rightarrow> response \<Rightarrow> bool \<times> response" where
  "CORS cfg r p =
     (let origin = rq_Header r ''Origin'' in
      if origin = [] then (False, p)
      else case allowed_origin (ac_AllowedOrigins cfg) origin of
        None \<Rightarrow> (False, p)
      | Some a \<Rightarrow>
          (let p1 = set_header ''Access-Control-Max-Age'' ''86400''
                (set_header ''Access-Control-Allow-Headers'' ''Content-Type, X-API-Key''
                (set_header ''Access-Control-Allow-Methods'' ''GET, POST, PUT, DELETE, OPTIONS''
                (set_header ''Access-Control-Allow-Origin'' a p)))
           in if rq_Method r = ''OPTIONS'' then (True, WriteHeader 200 p1) else (False, p1)))"

definition Secure :: "api_config \<Rightarrow> 's handler \<Rightarrow> 's handler" where
  "Secure cfg next r st = (case st of (p, s) \<Rightarrow>
     (case CORS cfg r p of
        (True, p1) \<Rightarrow> Some (p1, s)
      | (False, p1) \<Rightarrow>
          (let r1 = limited cfg r in
           if ac_AuthEnabled cfg \<and> presented_key r1 \<noteq> ac_APIKey cfg
           then Some (http_Error ''Unauthorized'' 401 p1, s)
           else next r1 (p1, s))))"

definition ReadOnly :: "api_config \<Rightarrow> 's handler \<Rightarrow> 's handler" where
  "ReadOnly cfg next r st = (case st of (p, s) \<Rightarrow>
     (case CORS cfg r p of
        (True, p1) \<Rightarrow> Some (p1, s)
      | (False, p1) \<Rightarrow> next (limited cfg r) (p1, s)))"

section \<open>The handler of the API\<close>

record log_entry =
  le_Timestamp :: string
  le_Level :: string
  le_Source :: string
  le_Message :: string
  le_Raw :: string

text \<open>The first argument of the operations is the timeout of their context.\<close>

record 'w log_provider =
  lp_ListContainers :: "duration \<Rightarrow> 'w \<Rightarrow> (err + string list) \<times> 'w"
  lp_TailLogs :: "duration \<Rightarrow> string \<Rightarrow> int \<Rightarrow> 'w \<Rightarrow> (err + log_entry list) \<times> 'w"

record 'w api_handler =
  ah_deviceManager :: "'w device_manager"
  ah_topicTracker :: "(int \<Rightarrow> 'w \<Rightarrow> topic_stat list) option"
  ah_subscriptions :: "('w \<Rightarrow> string list) option"
  ah_logProvider :: "'w log_provider option"
  ah_connectionTester :: "(duration \<Rightarrow> device \<Rightarrow> tag \<Rightarrow> 'w \<Rightarrow> (data_point option \<times> err option) \<times> 'w) option"

definition NewAPIHandler :: "'w device_manager \<Rightarrow> 'w api_handler" where
  "NewAPIHandler dm = \<lparr>ah_deviceManager = dm, ah_topicTracker = None, ah_subscriptions = None,
     ah_logProvider = None, ah_connectionTester = None\<rparr>"

definition SetTopicTracker :: "(int \<Rightarrow> 'w \<Rightarrow> topic_stat list) \<Rightarrow> 'w api_handler \<Rightarrow> 'w api_handler" where
  "SetTopicTracker f h = h\<lparr>ah_topicTracker := Some f\<rparr>"

definition SetSubscriptionProvider :: "('w \<Rightarrow> string list) \<Rightarrow> 'w api_handler \<Rightarrow> 'w api_handler" where
  "SetSubscriptionProvider f h = h\<lparr>ah_subscriptions := Some f\<rparr>"

definition SetLogProvider :: "'w log_provider \<Rightarrow> 'w api_handler \<Rightarrow> 'w api_handler" where
  "SetLogProvider f h = h\<lparr>ah_logProvider := Some f\<rparr>"

definition SetConnectionTester ::
  "(duration \<Rightarrow> device \<Rightarrow> tag \<Rightarrow> 'w \<Rightarrow> (data_point option \<times> err option) \<times> 'w) \<Rightarrow> 'w api_handler \<Rightarrow> 'w api_handler" where
  "SetConnectionTester f h = h\<lparr>ah_connectionTester := Some f\<rparr>"

text \<open>What is encoded: a device list, a device, or a map of strings as the list of its entries.\<close>

datatype api_value = JDevices "device list" | JDevice device | JStrings "(string \<times> string) list"

text \<open>\<open>he_clock w k\<close> is the reading number \<open>k\<close> of the clock in a call, made in the world \<open>w\<close>.\<close>

record 'w http_env =
  he_manager :: "'w manager_env"
  he_Decode :: "string \<times> bool \<Rightarrow> err + device"
  he_Encode :: "api_value \<Rightarrow> err + string"
  he_clock :: "'w \<Rightarrow> nat \<Rightarrow> time"

type_synonym 'w api_state = "'w api_handler \<times> 'w"

definition not_allowed :: "response \<Rightarrow> response" where
  "not_allowed = http_Error ''Method not allowed'' 405"

definition respond_json :: "'w http_env \<Rightarrow> api_value \<Rightarrow> response \<Rightarrow> response" where
  "respond_json env v p = (case encode_to (he_Encode env v) (json_header p) of
       (Some e, p1) \<Rightarrow> http_Error ''Internal server error'' 500 p1
     | (None, p1) \<Rightarrow> p1)"

definition GetDevicesHandler :: "'w http_env \<Rightarrow> 'w api_state handler" where
  "GetDevicesHandler env r st = (case st of (p, h, w) \<Rightarrow>
     if rq_Method r \<noteq> ''GET'' then Some (not_allowed p, h, w)
     else Some (respond_json env (JDevices (GetDevices (he_manager env) (ah_deviceManager h, w))) p, h, w))"

definition GetDeviceHandler :: "'w http_env \<Rightarrow> 'w api_state handler" where
  "GetDeviceHandler env r st = (case st of (p, h, w) \<Rightarrow>
     if rq_Method r \<noteq> ''GET'' then Some (not_allowed p, h, w)
     else let i = rq_Query r ''id'' in
       if i = [] then Some (http_Error ''Device ID is required'' 400 p, h, w)
       else case GetDevice i (ah_deviceManager h) of
         None \<Rightarrow> Some (http_Error ''Device not found'' 404 p, h, w)
       | Some d \<Rightarrow> Some (respond_json env (JDevice d) p, h, w))"

definition bad_body :: "response \<Rightarrow> response" where
  "bad_body = http_Error ''Invalid request body'' 400"

definition status_message :: "string \<Rightarrow> string \<Rightarrow> api_value" where
  "status_message s m = JStrings [(''status'', s), (''message'', m)]"

definition CreateDeviceHandler :: "'w http_env \<Rightarrow> 'w api_state handler" where
  "CreateDeviceHandler env r st = (case st of (p, h, w) \<Rightarrow>
     if rq_Method r \<noteq> ''POST'' then Some (not_allowed p, h, w)
     else case he_Decode env (readable (rq_Body r)) of
       Inl e \<Rightarrow> Some (bad_body p, h, w)
     | Inr d \<Rightarrow>
         (case manager_AddDevice (he_manager env) (he_clock env w 0) (he_clock env w 1) d (ah_deviceManager h, w) of
            None \<Rightarrow> None
          | Some (Some e, dm, w1) \<Rightarrow> Some (http_Error (err_text e) 400 p, h\<lparr>ah_deviceManager := dm\<rparr>, w1)
          | Some (None, dm, w1) \<Rightarrow> Some (snd (encode_to (he_Encode env (status_message ''success'' ''Device created''))
                (WriteHeader 201 (json_header p))), h\<lparr>ah_deviceManager := dm\<rparr>, w1)))"

definition UpdateDeviceHandler :: "'w http_env \<Rightarrow> 'w api_state handler" where
  "UpdateDeviceHandler env r st = (case st of (p, h, w) \<Rightarrow>
     if rq_Method r \<noteq> ''PUT'' then Some (not_allowed p, h, w)
     else case he_Decode env (readable (rq_Body r)) of
       Inl e \<Rightarrow> Some (bad_body p, h, w)
     | Inr d \<Rightarrow>
         (case manager_UpdateDevice (he_manager env) (he_clock env w 0) d (ah_deviceManager h, w) of
            None \<Rightarrow> None
          | Some (Some e, dm, w1) \<Rightarrow> Some (http_Error (err_text e) 400 p, h\<lparr>ah_deviceManager := dm\<rparr>, w1)
          | Some (None, dm, w1) \<Rightarrow> Some (snd (encode_to (he_Encode env (status_message ''success'' ''Device updated''))
                (json_header p)), h\<lparr>ah_deviceManager := dm\<rparr>, w1)))"

definition DeleteDeviceHandler :: "'w http_env \<Rightarrow> 'w api_state handler" where
  "DeleteDeviceHandler env r st = (case st of (p, h, w) \<Rightarrow>
     if rq_Method r \<noteq> ''DELETE'' then Some (not_allowed p, h, w)
     else let i = rq_Query r ''id'' in
       if i = [] then Some (http_Error ''Device ID is required'' 400 p, h, w)
       else case manager_DeleteDevice (he_manager env) i (ah_deviceManager h, w) of
         (Some e, dm, w1) \<Rightarrow> Some (http_Error (err_text e) 404 p, h\<lparr>ah_deviceManager := dm\<rparr>, w1)
       | (None, dm, w1) \<Rightarrow> Some (snd (encode_to (he_Encode env (status_message ''success'' ''Device deleted''))
             (json_header p)), h\<lparr>ah_deviceManager := dm\<rparr>, w1))"

section \<open>Testing a connection\<close>

text \<open>The message has a dash of three bytes.\<close>

definition validation_only :: string where
  "validation_only = ''Connection test passed (validation only '' @ [CHR 0xE2, CHR 0x80, CHR 0x94]
     @ '' no protocol pool available)''"

definition test_result :: "string \<Rightarrow> string \<Rightarrow> duration \<Rightarrow> device \<Rightarrow> api_value" where
  "test_result s m elapsed d = JStrings [(''status'', s), (''message'', m),
     (''elapsed'', duration_String elapsed), (''protocol'', protocol_text (dev_Protocol d))]"

text \<open>The readings of the clock are before and after the read.\<close>

definition TestConnectionHandler :: "'w http_env \<Rightarrow> 'w api_state handler" where
  "TestConnectionHandler env r st = (case st of (p, h, w) \<Rightarrow>
     if rq_Method r \<noteq> ''POST'' then Some (not_allowed p, h, w)
     else case he_Decode env (readable (rq_Body r)) of
       Inl e \<Rightarrow> Some (bad_body p, h, w)
     | Inr d0 \<Rightarrow>
         (case ValidateDevice d0 of
            (d, Some e) \<Rightarrow> Some (http_Error (''Validation error: '' @ err_text e) 400 p, h, w)
          | (d, None) \<Rightarrow>
              (case ah_connectionTester h of
                 None \<Rightarrow> Some (snd (encode_to (he_Encode env (status_message ''success'' validation_only)) (json_header p)), h, w)
               | Some tester \<Rightarrow>
                   (case Tags d of
                      [] \<Rightarrow> Some (http_Error ''Device has no tags to test'' 400 p, h, w)
                    | t # ts \<Rightarrow>
                        (let timeout = (if Timeout (Connection d) = 0 then 10 * second else Timeout (Connection d)) in
                         case tester timeout d t w of
                           ((x, e), w1) \<Rightarrow>
                             (let elapsed = time_sub (he_clock env w1 1) (he_clock env w 0); p1 = json_header p in
                              case e of
                                Some e1 \<Rightarrow> Some (snd (encode_to (he_Encode env
                                    (test_result ''error'' (''Connection test failed: '' @ err_text e1) elapsed d))
                                    (WriteHeader 503 p1)), h, w1)
                              | None \<Rightarrow> Some (snd (encode_to (he_Encode env
                                    (test_result ''success'' ''Connection test passed'' elapsed d)) p1), h, w1)))))))"
section \<open>What the middleware guarantees\<close>

lemma status_of_simps [simp]:
  "status_of (http_Error m c p) = (case rp_Status p of None \<Rightarrow> c | Some c0 \<Rightarrow> c0)"
  "status_of (set_header k v p) = status_of p"
  "status_of (WriteHeader c p) = (case rp_Status p of None \<Rightarrow> c | Some c0 \<Rightarrow> c0)"
  "rp_Status (set_header k v p) = rp_Status p"
  "rp_Body (set_header k v p) = rp_Body p"
  "rp_Status (WriteHeader c p) = (case rp_Status p of None \<Rightarrow> Some c | Some c0 \<Rightarrow> Some c0)"
  "rp_Body (WriteHeader c p) = rp_Body p"
  by (simp_all add: status_of_def http_Error_def write_text_def WriteHeader_def set_header_def Let_def split: option.splits)

lemma status_of_encoded [simp]: "status_of (snd (encode_to m p)) = status_of p"
  by (auto simp: encode_to_def status_of_def write_text_def WriteHeader_def Let_def split: sum.splits option.splits)

lemma status_of_json [simp]: "status_of (json_header p) = status_of p" "rp_Status (json_header p) = rp_Status p"
  by (simp_all add: json_header_def)

lemma status_of_fresh [simp]: "rp_Status fresh_response = None" "status_of fresh_response = 200"
  by (simp_all add: fresh_response_def status_of_def)

lemma limited_request [simp]: "presented_key (limited cfg r) = presented_key r" "rq_Method (limited cfg r) = rq_Method r"
  "rq_Query (limited cfg r) = rq_Query r" "rq_Path (limited cfg r) = rq_Path r"
  by (simp_all add: presented_key_def limited_def)

lemma CORS_status:
  assumes "CORS cfg r p = (b, p1)" "rp_Status p = None"
  shows "status_of p1 = 200" "b \<Longrightarrow> rq_Method r = ''OPTIONS''" "\<not> b \<Longrightarrow> rp_Status p1 = None" "rp_Body p1 = rp_Body p"
  using assms by (auto simp: CORS_def Let_def status_of_def split: if_splits option.splits)

lemma limited_body:
  assumes "0 < ac_MaxRequestBodySize cfg"
  shows "int (length (fst (readable (rq_Body (limited cfg r))))) \<le> ac_MaxRequestBodySize cfg"
  using assms by (auto simp: limited_def MaxBytesReader_def readable_def split: option.splits)

lemma read_untouched:
  assumes "int (length (bd_Content (rq_Body r))) \<le> ac_MaxRequestBodySize cfg" "bd_Limit (rq_Body r) = None"
  shows "readable (rq_Body (limited cfg r)) = (bd_Content (rq_Body r), False)"
  using assms by (simp add: limited_def MaxBytesReader_def readable_def)

text \<open>Who may see the answer: the origin that asked, or anyone when no origin is configured.\<close>

lemma allowed_origin_iff:
  "allowed_origin os o1 = Some a \<longleftrightarrow> (os = [] \<and> a = ''*'') \<or> (os \<noteq> [] \<and> a = o1 \<and> (''*'' \<in> set os \<or> o1 \<in> set os))"
  by (auto simp: allowed_origin_def list_ex_iff)

section \<open>Properties\<close>

text \<open>
  With authentication on, a request without the configured key never gets to the handler:
  whatever the handler, the answer is the same, the state is untouched, and the answer is 401, or 200
  without a body to a preflight request.
\<close>

theorem wrong_key_stopped:
  assumes "ac_AuthEnabled cfg" and "presented_key r \<noteq> ac_APIKey cfg"
  shows "\<exists>p'. (\<forall>inner. Secure cfg inner r (fresh_response, s) = Some (p', s))
    \<and> (status_of p' = 401 \<or> status_of p' = 200 \<and> rq_Method r = ''OPTIONS'' \<and> rp_Body p' = [])"
proof -
  obtain b p1 where c: "CORS cfg r fresh_response = (b, p1)" by (cases "CORS cfg r fresh_response")
  note st = CORS_status [OF c]
  have e: "rp_Body p1 = []" using st(4) by (simp add: fresh_response_def)
  show ?thesis
  proof (cases b)
    case True
    then have "\<forall>inner. Secure cfg inner r (fresh_response, s) = Some (p1, s)" by (simp add: Secure_def c)
    then show ?thesis using st(1,2) True e by auto
  next
    case False
    then have "\<forall>inner. Secure cfg inner r (fresh_response, s) = Some (http_Error ''Unauthorized'' 401 p1, s)"
      using assms by (simp add: Secure_def c)
    then show ?thesis using st(3) False by auto
  qed
qed

definition secret_config :: api_config where
  "secret_config = \<lparr>ac_AuthEnabled = True, ac_APIKey = ''k'', ac_MaxRequestBodySize = 4, ac_AllowedOrigins = [''http://a'']\<rparr>"

definition plain_request :: "string \<Rightarrow> http_request" where
  "plain_request m = \<lparr>rq_Method = m, rq_Path = ''/api/devices'', rq_Header = (\<lambda>k. []), rq_Query = (\<lambda>k. []),
     rq_Body = \<lparr>bd_Content = ''123456'', bd_Limit = None\<rparr>\<rparr>"

lemma plain_key [simp]: "presented_key (plain_request m) = []"
  by (simp add: presented_key_def plain_request_def)

theorem wrong_key_stopped_witness:
  "\<exists>p'. (\<forall>inner. Secure secret_config inner (plain_request ''POST'') (fresh_response, 0 :: nat) = Some (p', 0))
    \<and> (status_of p' = 401 \<or> status_of p' = 200 \<and> rq_Method (plain_request ''POST'') = ''OPTIONS'' \<and> rp_Body p' = [])"
  by (rule wrong_key_stopped) (simp_all add: secret_config_def)

text \<open>
  C16: With authentication on and no key configured, \<open>Secure\<close> is no protection at all: a request
  without a key is treated as the read-only endpoints treat it.  \<open>RequireAuth\<close>, which nothing
  uses, refuses it; and the validation of the configuration does not ask for a key.
\<close>

theorem empty_key_lets_through:
  assumes "ac_AuthEnabled cfg" and "ac_APIKey cfg = []" and "presented_key r = []"
  shows "Secure cfg inner r (p, s) = ReadOnly cfg inner r (p, s)
    \<and> RequireAuth cfg inner r (p, s) = Some (http_Error ''Unauthorized: API key required'' 401 p, s)
    \<and> ValidateConfig (c\<lparr>gc_API := cfg\<rparr>) = ValidateConfig c"
proof (intro conjI)
  show "Secure cfg inner r (p, s) = ReadOnly cfg inner r (p, s)"
    by (cases "CORS cfg r p"; cases "fst (CORS cfg r p)") (simp_all add: Secure_def ReadOnly_def assms)
qed (simp_all add: RequireAuth_def ValidateConfig_def assms)

theorem empty_key_lets_through_witness:
  "Secure (secret_config\<lparr>ac_APIKey := []\<rparr>) (\<lambda>r st. Some (fresh_response, True)) (plain_request ''POST'') (fresh_response, False)
     = Some (fresh_response, True)"
  using empty_key_lets_through [where cfg = "secret_config\<lparr>ac_APIKey := []\<rparr>" and r = "plain_request ''POST''"
      and inner = "\<lambda>r st. Some (fresh_response, True)" and p = fresh_response and s = False]
  by (simp add: secret_config_def) (simp add: ReadOnly_def CORS_def plain_request_def)

text \<open>
  The limit of the body: behind both kinds of middleware a handler is only ever called with a
  request of which it can read at most \<open>max_request_body_size\<close> bytes.
\<close>

theorem body_limited:
  assumes "0 < ac_MaxRequestBodySize cfg"
    and agree: "\<And>r' st'. int (length (fst (readable (rq_Body r')))) \<le> ac_MaxRequestBodySize cfg \<Longrightarrow> inner r' st' = other r' st'"
  shows "Secure cfg inner r (p, s) = Secure cfg other r (p, s) \<and> ReadOnly cfg inner r (p, s) = ReadOnly cfg other r (p, s)"
proof -
  have "inner (limited cfg r) st' = other (limited cfg r) st'" for st'
    by (rule agree) (rule limited_body [OF assms(1)])
  then show ?thesis
    by (cases "CORS cfg r p"; cases "fst (CORS cfg r p)") (simp_all add: Secure_def ReadOnly_def Let_def)
qed

theorem body_limited_witness:
  "Secure (secret_config\<lparr>ac_AuthEnabled := False\<rparr>) (\<lambda>r st. Some (fresh_response, min 4 (length (fst (readable (rq_Body r))))))
      (plain_request ''POST'') (fresh_response, 9)
    = Secure (secret_config\<lparr>ac_AuthEnabled := False\<rparr>) (\<lambda>r st. Some (fresh_response, length (fst (readable (rq_Body r)))))
      (plain_request ''POST'') (fresh_response, 9)"
  using body_limited [where cfg = "secret_config\<lparr>ac_AuthEnabled := False\<rparr>" and r = "plain_request ''POST''"
      and inner = "\<lambda>r st. Some (fresh_response, min 4 (length (fst (readable (rq_Body r)))))"
      and other = "\<lambda>r st. Some (fresh_response, length (fst (readable (rq_Body r))))" and p = fresh_response and s = 9]
  by (simp add: secret_config_def)

end
