(* ===== verification/Http_Runtime.thy ===== *)
theory Http_Runtime
  imports Http_Api Polling Command_Handler "HOL-Library.Multiset" "HOL-Library.List_Lexorder" "HOL-Library.Char_ord"
begin

text \<open>
  \<open>internal/api/runtime_handlers.go\<close> and \<open>runtime.go\<close>: the overview of the topics, and the logs of
  containers, which are read with the docker command.  Running a command, the JSON encoder
  and \<open>sort.Slice\<close> are parameters (what the latter does with equal routes is not specified); splitting
  text into words and the format of time stamps are the standard library's, over ASCII text.
\<close>

section \<open>Topics and routes\<close>

record topic_route =
  tr_DeviceID :: string
  tr_DeviceName :: string
  tr_Protocol :: string
  tr_Enabled :: bool
  tr_UNSPrefix :: string
  tr_TagID :: string
  tr_TagName :: string
  tr_TopicSuffix :: string
  tr_FullTopic :: string
  tr_AccessMode :: string

record topics_overview =
  tov_GeneratedAt :: time
  tov_ActiveTopics :: "topic_stat list"
  tov_Subscriptions :: "string list"
  tov_Routes :: "topic_route list"

datatype runtime_value = JOverview topics_overview | JContainers "string list" | JLogs string "log_entry list"

record 'w runtime_env =
  re_manager :: "'w manager_env"
  re_Encode :: "runtime_value \<Rightarrow> err + string"
  re_sort :: "topic_route list \<Rightarrow> topic_route list"
  re_now :: "'w \<Rightarrow> time"

text \<open>\<open>strconv.Atoi\<close>, with its errors as \<open>None\<close>.\<close>

definition parse_digits :: "string \<Rightarrow> int option" where
  "parse_digits s = (if s = [] \<or> \<not> list_all is_digit s then None else Some (int (digits_val 0 s)))"

definition strconv_Atoi :: "string \<Rightarrow> int option" where
  "strconv_Atoi s =
     (let v = (case s of
          [] \<Rightarrow> None
        | c # cs \<Rightarrow> if c = CHR ''-'' then map_option uminus (parse_digits cs)
            else if c = CHR ''+'' then parse_digits cs else parse_digits s)
      in case v of None \<Rightarrow> None | Some n \<Rightarrow> if - (2 ^ 63) \<le> n \<and> n < 2 ^ 63 then Some n else None)"

definition int_param :: "string \<Rightarrow> int \<Rightarrow> int" where
  "int_param v d = (if v = [] then d else case strconv_Atoi v of None \<Rightarrow> d | Some n \<Rightarrow> n)"

definition route_of :: "device \<Rightarrow> tag \<Rightarrow> topic_route" where
  "route_of d t = \<lparr>tr_DeviceID = dev_ID d, tr_DeviceName = dev_Name d, tr_Protocol = protocol_text (dev_Protocol d),
     tr_Enabled = (dev_Enabled d \<and> tag_Enabled t), tr_UNSPrefix = UNSPrefix d, tr_TagID = tag_ID t,
     tr_TagName = tag_Name t, tr_TopicSuffix = TopicSuffix t,
     tr_FullTopic = (if TopicSuffix t \<noteq> [] then UNSPrefix d @ ''/'' @ TopicSuffix t else UNSPrefix d),
     tr_AccessMode = access_mode_text (AccessMode t)\<rparr>"

definition routes_of :: "device list \<Rightarrow> topic_route list" where
  "routes_of ds = concat (map (\<lambda>d. map (route_of d) (Tags d)) ds)"

text \<open>The order of the routes; strings are compared byte by byte.\<close>

definition route_less :: "topic_route \<Rightarrow> topic_route \<Rightarrow> bool" where
  "route_less a b = (if tr_DeviceID a \<noteq> tr_DeviceID b then tr_DeviceID a < tr_DeviceID b
     else tr_FullTopic a < tr_FullTopic b)"

definition is_route_sort :: "(topic_route list \<Rightarrow> topic_route list) \<Rightarrow> bool" where
  "is_route_sort f \<longleftrightarrow> (\<forall>xs. mset (f xs) = mset xs \<and> sorted_wrt (\<lambda>a b. \<not> route_less b a) (f xs))"

definition topics_overview_of :: "'w runtime_env \<Rightarrow> http_request \<Rightarrow> 'w api_state \<Rightarrow> topics_overview" where
  "topics_overview_of env r st = (case st of (h, w) \<Rightarrow>
     \<lparr>tov_GeneratedAt = re_now env w,
      tov_ActiveTopics = (case ah_topicTracker h of
          None \<Rightarrow> [] | Some f \<Rightarrow> f (int_param (rq_Query r ''limit'') 200) w),
      tov_Subscriptions = (case ah_subscriptions h of None \<Rightarrow> [] | Some f \<Rightarrow> sort (f w)),
      tov_Routes = re_sort env (routes_of (GetDevices (re_manager env) (ah_deviceManager h, w)))\<rparr>)"

definition send_runtime :: "'w runtime_env \<Rightarrow> runtime_value \<Rightarrow> response \<Rightarrow> response" where
  "send_runtime env v p = snd (encode_to (re_Encode env v) (json_header p))"

definition TopicsOverviewHandler :: "'w runtime_env \<Rightarrow> 'w api_state handler" where
  "TopicsOverviewHandler env r st = (case st of (p, s) \<Rightarrow>
     if rq_Method r \<noteq> ''GET'' then Some (not_allowed p, s)
     else Some (send_runtime env (JOverview (topics_overview_of env r s)) p, s))"

section \<open>Containers and logs\<close>

definition ListContainersHandler :: "'w runtime_env \<Rightarrow> 'w api_state handler" where
  "ListContainersHandler env r st = (case st of (p, h, w) \<Rightarrow>
     if rq_Method r \<noteq> ''GET'' then Some (not_allowed p, h, w)
     else case ah_logProvider h of
       None \<Rightarrow> Some (http_Error ''logs endpoint not configured'' 501 p, h, w)
     | Some lp \<Rightarrow>
         (case lp_ListContainers lp (3 * second) w of
            (Inl e, w1) \<Rightarrow> Some (http_Error (err_text e) 502 p, h, w1)
          | (Inr cs, w1) \<Rightarrow> Some (send_runtime env (JContainers (sort cs)) p, h, w1)))"

definition LogsHandler :: "'w runtime_env \<Rightarrow> 'w api_state handler" where
  "LogsHandler env r st = (case st of (p, h, w) \<Rightarrow>
     if rq_Method r \<noteq> ''GET'' then Some (not_allowed p, h, w)
     else case ah_logProvider h of
       None \<Rightarrow> Some (http_Error ''logs endpoint not configured'' 501 p, h, w)
     | Some lp \<Rightarrow>
         (let container = rq_Query r ''container'' in
          if container = [] then Some (http_Error ''container is required'' 400 p, h, w)
          else case lp_TailLogs lp (5 * second) container (int_param (rq_Query r ''tail'') 300) w of
            (Inl e, w1) \<Rightarrow> Some (http_Error (err_text e) 502 p, h, w1)
          | (Inr es, w1) \<Rightarrow> Some (send_runtime env (JLogs container es) p, h, w1)))"

section \<open>Words and lines\<close>

text \<open>\<open>strings.Fields\<close>.\<close>

function Fields :: "string \<Rightarrow> string list" where
  "Fields s = (let s1 = dropWhile is_space s in
     if s1 = [] then []
     else takeWhile (\<lambda>c. \<not> is_space c) s1 # Fields (dropWhile (\<lambda>c. \<not> is_space c) s1))"
  by pat_completeness auto
termination
proof (relation "measure length")
  fix s s1 assume s1: "s1 = dropWhile is_space s" "s1 \<noteq> []"
  then obtain c cs where c: "s1 = c # cs" "\<not> is_space c"
    by (metis hd_dropWhile list.exhaust_sel)
  have "length (dropWhile (\<lambda>c. \<not> is_space c) s1) < length s1" using c length_dropWhile_le [of "\<lambda>c. \<not> is_space c" cs] by simp
  also have "\<dots> \<le> length s" unfolding s1 by (rule length_dropWhile_le)
  finally show "(dropWhile (\<lambda>c. \<not> is_space c) s1, s) \<in> measure length" by simp
qed simp

declare Fields.simps [simp del]

text \<open>\<open>strings.Join(parts, " ")\<close>.\<close>

fun join_words :: "string list \<Rightarrow> string" where
  "join_words [] = []"
| "join_words [x] = x"
| "join_words (x # y # zs) = x @ '' '' @ join_words (y # zs)"

text \<open>\<open>strings.TrimPrefix\<close> and \<open>strings.Index\<close>.\<close>

definition trim_prefix :: "string \<Rightarrow> string \<Rightarrow> string" where
  "trim_prefix s p = (if has_prefix s p then drop (length p) s else s)"

fun string_index :: "string \<Rightarrow> string \<Rightarrow> nat option" where
  "string_index [] p = (if p = [] then Some 0 else None)"
| "string_index (x # xs) p = (if has_prefix (x # xs) p then Some 0 else map_option Suc (string_index xs p))"

text \<open>
  A \<open>bufio.Scanner\<close> over the lines: a last line without its end counts when it is not empty, and a line that does
  not fit the buffer of 64 kB is an error.
\<close>

definition scan_lines :: "string \<Rightarrow> err + string list" where
  "scan_lines out =
     (let ls = split_on (CHR 0x0A) out; ls1 = (if List.last ls = [] then butlast ls else ls) in
      if list_ex (\<lambda>l. 65536 \<le> length l) ls1 then Inl (Plain ''bufio.Scanner: token too long'') else Inr ls1)"

definition trim_right_cr :: "string \<Rightarrow> string" where
  "trim_right_cr s = rev (dropWhile (\<lambda>c. c = CHR 0x0D) (rev s))"

section \<open>Time stamps\<close>

text \<open>
  What \<open>time.Parse\<close> accepts for \<open>RFC3339Nano\<close>: the hour may have one digit, the fraction any number of
  them, after a point or a comma.
\<close>

definition two_digits :: "string \<Rightarrow> (nat \<times> string) option" where
  "two_digits s = (case s of a # b # rest \<Rightarrow> if is_digit a \<and> is_digit b then Some (10 * digit_val a + digit_val b, rest) else None
     | _ \<Rightarrow> None)"

definition one_or_two_digits :: "string \<Rightarrow> (nat \<times> string) option" where
  "one_or_two_digits s = (case two_digits s of Some x \<Rightarrow> Some x
     | None \<Rightarrow> (case s of a # rest \<Rightarrow> if is_digit a then Some (digit_val a, rest) else None | [] \<Rightarrow> None))"

definition literal :: "char \<Rightarrow> string \<Rightarrow> string option" where
  "literal c s = (case s of x # xs \<Rightarrow> if x = c then Some xs else None | [] \<Rightarrow> None)"

definition leap_year :: "nat \<Rightarrow> bool" where
  "leap_year y \<longleftrightarrow> y mod 4 = 0 \<and> (y mod 100 \<noteq> 0 \<or> y mod 400 = 0)"

definition days_in_month :: "nat \<Rightarrow> nat \<Rightarrow> nat" where
  "days_in_month y m = (if m = 2 then (if leap_year y then 29 else 28)
     else if m \<in> {4, 6, 9, 11} then 30 else 31)"

definition zone_ok :: "string \<Rightarrow> bool" where
  "zone_ok s \<longleftrightarrow> s = ''Z'' \<or> (case s of
       sign # rest \<Rightarrow> (sign = CHR ''+'' \<or> sign = CHR ''-'') \<and> (case two_digits rest of
           Some (h, r1) \<Rightarrow> h \<le> 24 \<and> (case literal CHR '':'' r1 of
               Some r2 \<Rightarrow> (case two_digits r2 of Some (m, r3) \<Rightarrow> m \<le> 60 \<and> r3 = [] | None \<Rightarrow> False)
             | None \<Rightarrow> False)
         | None \<Rightarrow> False)
     | [] \<Rightarrow> False)"

definition skip_fraction :: "string \<Rightarrow> string" where
  "skip_fraction s = (case s of
       p # c # cs \<Rightarrow> if (p = CHR ''.'' \<or> p = CHR '','') \<and> is_digit c then dropWhile is_digit cs else s
     | _ \<Rightarrow> s)"

definition clock_ok :: "string \<Rightarrow> bool" where
  "clock_ok s = (case one_or_two_digits s of Some (h, s1) \<Rightarrow> h < 24 \<and>
       (case Option.bind (literal CHR '':'' s1) two_digits of Some (m, s2) \<Rightarrow> m < 60 \<and>
          (case Option.bind (literal CHR '':'' s2) two_digits of Some (sec, s3) \<Rightarrow> sec < 60 \<and> zone_ok (skip_fraction s3)
           | None \<Rightarrow> False)
        | None \<Rightarrow> False)
     | None \<Rightarrow> False)"

definition rfc3339_ok :: "string \<Rightarrow> bool" where
  "rfc3339_ok s = (let y = take 4 s in length y = 4 \<and> list_all is_digit y \<and>
     (case Option.bind (literal CHR ''-'' (drop 4 s)) two_digits of Some (m, s1) \<Rightarrow> 1 \<le> m \<and> m \<le> 12 \<and>
        (case Option.bind (literal CHR ''-'' s1) two_digits of Some (d, s2) \<Rightarrow>
             1 \<le> d \<and> d \<le> days_in_month (digits_val 0 y) m \<and>
             (case literal CHR ''T'' s2 of Some s3 \<Rightarrow> clock_ok s3 | None \<Rightarrow> False)
         | None \<Rightarrow> False)
      | None \<Rightarrow> False))"

section \<open>Log lines\<close>

text \<open>The value ends at a space; a quoted one that does not end is none.\<close>

definition extractKV :: "string \<Rightarrow> string \<Rightarrow> string" where
  "extractKV s key = (let needle = key @ ''='' in
     case string_index s needle of
       None \<Rightarrow> []
     | Some idx \<Rightarrow> (let rest = drop (idx + length needle) s in
         case rest of
           [] \<Rightarrow> []
         | c # cs \<Rightarrow>
             if c = CHR 0x22 then (case string_index cs [CHR 0x22] of None \<Rightarrow> [] | Some n \<Rightarrow> take n cs)
             else takeWhile (\<lambda>x. x \<noteq> CHR '' '') rest))"

definition extractSource :: "string \<Rightarrow> string" where
  "extractSource msg =
     (if extractKV msg ''component'' \<noteq> [] then extractKV msg ''component''
      else if extractKV msg ''service'' \<noteq> [] then extractKV msg ''service'' else [])"

definition level_names :: "string list" where
  "level_names = [''TRC'', ''DBG'', ''INF'', ''WRN'', ''ERR'', ''FTL'']"

definition parseGatewayStyle :: "string \<Rightarrow> log_entry" where
  "parseGatewayStyle s =
     (let parts = Fields s in
      if 4 \<le> length parts then
        (let msg = trim_space (join_words (drop 4 parts)) in
         \<lparr>le_Timestamp = parts ! 0 @ '' '' @ parts ! 1, le_Level = parts ! 3, le_Source = extractSource msg,
          le_Message = msg, le_Raw = s\<rparr>)
      else
        (let level = foldl (\<lambda>l tok. if tok \<in> set level_names then tok else l) [] parts in
         \<lparr>le_Timestamp = [], le_Level = level, le_Source = extractSource s, le_Message = trim_space s, le_Raw = s\<rparr>))"

definition parseLogLine :: "string \<Rightarrow> log_entry" where
  "parseLogLine line =
     (let fields = Fields line in
      if 2 \<le> length fields \<and> rfc3339_ok (fields ! 0) then
        (let parsed = parseGatewayStyle (trim_space (trim_prefix line (fields ! 0)));
             p1 = (if le_Timestamp parsed = [] then parsed\<lparr>le_Timestamp := fields ! 0\<rparr> else parsed)
         in p1\<lparr>le_Raw := line\<rparr>)
      else (parseGatewayStyle line)\<lparr>le_Raw := line\<rparr>)"

section \<open>The docker command\<close>

text \<open>The command is its list of arguments; \<open>cmd.Output\<close> gives what it printed.\<close>

type_synonym 'w run_command = "duration \<Rightarrow> string list \<Rightarrow> 'w \<Rightarrow> (err + string) \<times> 'w"

definition name_char :: "char \<Rightarrow> bool" where
  "name_char c = (let n = (of_char c :: nat) in (48 \<le> n \<and> n \<le> 57) \<or> (65 \<le> n \<and> n \<le> 90) \<or> (97 \<le> n \<and> n \<le> 122))"

definition containerNameRe :: "string \<Rightarrow> bool" where
  "containerNameRe s = (case s of [] \<Rightarrow> False
     | c # cs \<Rightarrow> name_char c \<and> list_all (\<lambda>x. name_char x \<or> x \<in> set ''_.-'') cs \<and> length cs \<le> 127)"

definition docker_ListContainers :: "'w run_command \<Rightarrow> duration \<Rightarrow> 'w \<Rightarrow> (err + string list) \<times> 'w" where
  "docker_ListContainers run timeout w =
     (case run timeout [''docker'', ''ps'', ''--format'', ''{{.Names}}''] w of
        (Inl e, w1) \<Rightarrow> (Inl (WrapPre ''docker ps failed: '' e), w1)
      | (Inr out, w1) \<Rightarrow> (Inr (filter (\<lambda>n. n \<noteq> []) (map trim_space (split_on (CHR 0x0A) (trim_space out)))), w1))"

definition clamp_tail :: "int \<Rightarrow> int" where
  "clamp_tail n = (let n1 = (if n \<le> 0 then 300 else n) in if 5000 < n1 then 5000 else n1)"

definition docker_TailLogs :: "'w run_command \<Rightarrow> duration \<Rightarrow> string \<Rightarrow> int \<Rightarrow> 'w \<Rightarrow> (err + log_entry list) \<times> 'w" where
  "docker_TailLogs run timeout container tail w =
     (if \<not> containerNameRe container then (Inl (Plain ''invalid container name''), w)
      else case run timeout [''docker'', ''logs'', ''--timestamps'', ''--tail'', show_int (clamp_tail tail), container] w of
        (Inl e, w1) \<Rightarrow> (Inl (WrapPre ''docker logs failed: '' e), w1)
      | (Inr out, w1) \<Rightarrow>
          (case scan_lines out of
             Inl e \<Rightarrow> (Inl (WrapPre ''failed to parse docker logs: '' e), w1)
           | Inr ls \<Rightarrow> (Inr (map parseLogLine (filter (\<lambda>l. trim_space l \<noteq> []) (map trim_right_cr ls))), w1)))"

definition NewDockerCLILogProvider :: "'w run_command \<Rightarrow> 'w log_provider" where
  "NewDockerCLILogProvider run =
     \<lparr>lp_ListContainers = docker_ListContainers run, lp_TailLogs = docker_TailLogs run\<rparr>"
section \<open>Words\<close>

definition good_word :: "string \<Rightarrow> bool" where
  "good_word s \<longleftrightarrow> s \<noteq> [] \<and> list_all (\<lambda>c. \<not> is_space c) s"

lemma space_is_space [simp]: "is_space CHR '' ''"
  by (simp add: is_space_def)

lemma takeWhile_word: "list_all P w \<Longrightarrow> \<not> P c \<Longrightarrow> takeWhile P (w @ c # s) = w"
  by (induction w) auto

lemma dropWhile_word: "list_all P w \<Longrightarrow> \<not> P c \<Longrightarrow> dropWhile P (w @ c # s) = c # s"
  by (induction w) auto

lemma list_all_takes: "list_all P w \<Longrightarrow> takeWhile P w = w" "list_all P w \<Longrightarrow> dropWhile P w = []"
  by (induction w) auto

lemma word_starts: "good_word w \<Longrightarrow> dropWhile is_space (w @ s) = w @ s"
  by (cases w) (simp_all add: good_word_def)

lemma Fields_space: "Fields (CHR '' '' # s) = Fields s"
  by (subst (1 2) Fields.simps) simp

lemma Fields_nil [simp]: "Fields [] = []"
  by (simp add: Fields.simps)

lemma Fields_word: "good_word w \<Longrightarrow> Fields (w @ '' '' @ s) = w # Fields s"
  using word_starts [of w "'' '' @ s"]
  by (subst Fields.simps) (simp add: Let_def good_word_def takeWhile_word dropWhile_word Fields_space)

lemma Fields_last: "good_word w \<Longrightarrow> Fields w = [w]"
  using word_starts [of w "[]"] by (subst Fields.simps) (simp add: Let_def good_word_def list_all_takes)

lemma Fields_join: "list_all good_word ws \<Longrightarrow> Fields (join_words ws) = ws"
  by (induction ws rule: join_words.induct) (simp_all add: Fields_last Fields_word [simplified])

lemma join_words_Cons: "ws \<noteq> [] \<Longrightarrow> join_words (w # ws) = w @ '' '' @ join_words ws"
  by (cases ws) simp_all

lemma join_words_ends:
  assumes "list_all good_word ws" "ws \<noteq> []"
  shows "join_words ws \<noteq> [] \<and> \<not> is_space (hd (join_words ws)) \<and> \<not> is_space (List.last (join_words ws))"
  using assms
proof (induction ws rule: join_words.induct)
  case (2 w)
  then show ?case using hd_in_set [of w] last_in_set [of w] by (auto simp: good_word_def list_all_iff)
next
  case (3 w y zs)
  then show ?case using hd_in_set [of w] by (auto simp: good_word_def list_all_iff)
qed simp

lemma trim_join: "list_all good_word ws \<Longrightarrow> trim_space (join_words ws) = join_words ws"
  using join_words_ends [of ws] by (cases "ws = []") (auto simp: trim_space_def intro: trim_space_id [unfolded trim_space_def])

lemma trim_space_space: "trim_space (CHR '' '' # s) = trim_space s"
  by (simp add: trim_space_def)

lemma has_own_prefix [simp]: "has_prefix (p @ s) p"
  by (simp add: has_prefix_iff)

section \<open>Topics as they are polled\<close>

lemma base_is_sanitized: "base_suffix i t = sanitizeTopicSegment (chosen_suffix i t)"
proof -
  have "replace_reserved s = map (\<lambda>c. if c \<in> topic_separators then CHR ''_'' else c) s" for s
    by (auto simp: replace_reserved_def topic_separators_def)
  then show ?thesis by (simp add: base_suffix_def sanitize_alt trim_underscores_def trim_char_def)
qed

text \<open>Text in which the only white space is the blank.\<close>

definition plain_text :: "string \<Rightarrow> bool" where
  "plain_text s \<longleftrightarrow> (\<forall>c\<in>set s. is_space c \<longrightarrow> c = CHR '' '')"

definition plain_tag :: "tag \<Rightarrow> bool" where
  "plain_tag t \<longleftrightarrow> plain_text (TopicSuffix t) \<and> plain_text (tag_Name t) \<and> plain_text (tag_ID t)"

definition clean_suffix :: "string \<Rightarrow> bool" where
  "clean_suffix s \<longleftrightarrow> clean_segment s \<and> (\<forall>c\<in>set s. \<not> is_space c)"

lemma digits_plain: "\<forall>c\<in>set (show_nat n). is_digit c"
  using show_nat_digits [of n] by (simp add: list_all_iff)

lemma digit_not [simp]: "is_digit c \<Longrightarrow> \<not> is_space c" "is_digit c \<Longrightarrow> c \<notin> topic_separators" "is_digit c \<Longrightarrow> c \<noteq> CHR ''_''"
  by (auto simp: is_digit_def is_space_def topic_separators_def)

lemma set_trim_space: "set (trim_space s) \<subseteq> set s"
  by (auto simp: trim_space_def dest!: set_dropWhileD)

lemma chosen_plain:
  assumes "plain_tag t" shows "plain_text (chosen_suffix i t)"
proof -
  have "plain_text (trim_space (TopicSuffix t))" using assms set_trim_space by (auto simp: plain_tag_def plain_text_def)
  moreover have "plain_text (''tag_'' @ show_nat (i + 1))"
  proof -
    have "\<forall>c\<in>set ''tag_''. \<not> is_space c" by (simp add: is_space_def)
    then show ?thesis using digits_plain [of "i + 1"] digit_not(1) unfolding plain_text_def by (metis Un_iff set_append)
  qed
  ultimately show ?thesis using assms by (auto simp: chosen_suffix_def Let_def plain_tag_def)
qed

lemma base_clean:
  assumes "plain_tag t" "base_suffix i t \<noteq> []" shows "clean_suffix (base_suffix i t)"
proof -
  let ?s = "chosen_suffix i t" and ?f = "\<lambda>c. if c \<in> topic_separators then CHR ''_'' else c"
  have "\<not> is_space c" if c: "c \<in> set (base_suffix i t)" for c
  proof -
    have "c \<in> ?f ` set (trim_space ?s)"
      using c set_trim_char unfolding base_is_sanitized sanitize_alt by (metis (no_types, lifting) in_mono list.set_map)
    then obtain x where x: "x \<in> set ?s" "c = ?f x" using set_trim_space by blast
    have "is_space x \<longrightarrow> x = CHR '' ''" using x(1) chosen_plain [OF assms(1)] by (auto simp: plain_text_def)
    then show ?thesis using x(2) by (auto simp: is_space_def topic_separators_def)
  qed
  then show ?thesis using sanitize_clean assms(2) by (simp add: clean_suffix_def base_is_sanitized)
qed

lemma fallback_clean:
  assumes "clean_suffix b" shows "clean_suffix (b @ ''_'' @ show_nat n)"
proof -
  have "show_nat n \<noteq> []" by simp
  then have "List.last (show_nat n) \<noteq> CHR ''_''" using digits_plain [of n] last_in_set digit_not(3) by blast
  then show ?thesis using assms digits_plain [of n]
    by (auto simp: clean_suffix_def clean_segment_def is_space_def topic_separators_def is_digit_def)
qed

lemma normalized_clean:
  "normalize_tags used i ts = Some ts' \<Longrightarrow> [] \<notin> used \<Longrightarrow> list_all plain_tag ts
    \<Longrightarrow> \<forall>t\<in>set ts'. TopicSuffix t \<noteq> [] \<Longrightarrow> \<forall>t\<in>set ts'. clean_suffix (TopicSuffix t)"
proof (induction used i ts arbitrary: ts' rule: normalize_tags.induct)
  case (2 used i t ts)
  obtain s r where s: "unique_suffix used (base_suffix i t) i (base_suffix i t) = Some s"
    and r: "normalize_tags (insert s used) (Suc i) ts = Some r" "ts' = t\<lparr>TopicSuffix := s\<rparr> # r"
    using "2.prems" by (auto split: option.splits)
  have ne: "s \<noteq> []" using "2.prems"(4) by (simp add: r(2))
  have "base_suffix i t \<noteq> []" using ne s "2.prems"(2) by auto
  then have b: "clean_suffix (base_suffix i t)" using base_clean "2.prems"(3) by simp
  then have "clean_suffix s" using unique_suffix_shape [OF s] fallback_clean by metis
  moreover have "\<forall>t\<in>set r. clean_suffix (TopicSuffix t)" using "2.IH" [OF s r(1)] "2.prems" ne by (simp add: r(2))
  ultimately show ?case by (simp add: r(2))
qed simp

lemma clean_topic:
  assumes "clean_suffix (TopicSuffix t)" shows "topicForTag prefix t = prefix @ ''/'' @ TopicSuffix t"
proof -
  have ne: "TopicSuffix t \<noteq> []" using assms by (auto simp: clean_suffix_def clean_segment_def)
  then have e: "\<not> is_space (hd (TopicSuffix t))" "\<not> is_space (List.last (TopicSuffix t))"
    using assms by (auto simp: clean_suffix_def)
  then show ?thesis using ne sanitize_id [OF _ e] assms trim_space_id [OF ne e]
    by (simp add: topicForTag_def Let_def clean_suffix_def)
qed

lemma validated_suffixes:
  assumes "ValidateDevice d = (d', None)" shows "\<forall>t\<in>set (Tags d). TopicSuffix t \<noteq> []"
proof -
  obtain ts where ts: "validate_tags (dev_ID d) (dev_Protocol d) (Tags d) = (ts, None)"
    using assms by (auto simp: ValidateDevice_def split: if_splits prod.splits)
  have v: "ValidateForProtocol t p = (t', None) \<Longrightarrow> TopicSuffix t \<noteq> []" for t t' p
    by (auto simp: ValidateForProtocol_def split: if_splits)
  show ?thesis
  proof
    fix t assume "t \<in> set (Tags d)"
    then obtain i where i: "i < length (Tags d)" "t = Tags d ! i" by (auto simp: in_set_conv_nth)
    have "ValidateForProtocol t (dev_Protocol d) = (ts ! i, None)"
      using list_all2_nthD [OF validate_tags_all [OF ts] i(1)] by (simp add: i(2))
    then show "TopicSuffix t \<noteq> []" by (rule v)
  qed
qed

section \<open>Properties\<close>

text \<open>
  C13: The overview shows the topics that are polled: a device with plain names that was normalised and
  passed its validation, as adding and updating a device do, has as the full topic of each of its routes the
  topic on which the polling service publishes the tag.
\<close>

theorem overview_shows_polled_topics:
  assumes "normalizeDeviceTopics d = Some d1"
    and "ValidateDevice (d1\<lparr>CreatedAt := t1, UpdatedAt := t2\<rparr>) = (d2, None)"
    and "list_all plain_tag (Tags d)" and "t \<in> set (Tags d2)"
  shows "tr_FullTopic (route_of d2 t) = topicForTag (UNSPrefix d2) t"
proof -
  note v = validated_fields [OF assms(2)]
  obtain ts where ts: "normalize_tags {} 0 (Tags d) = Some ts" "Tags d1 = ts"
    using assms(1) by (auto simp: normalizeDeviceTopics_def split: option.splits)
  have ne: "\<forall>t\<in>set ts. TopicSuffix t \<noteq> []" using validated_suffixes [OF assms(2)] by (simp add: ts(2))
  have "\<forall>s\<in>TopicSuffix ` set ts. clean_suffix s" using normalized_clean [OF ts(1) _ assms(3) ne] by simp
  moreover have "TopicSuffix t \<in> TopicSuffix ` set ts"
  proof -
    have "TopicSuffix t \<in> set (map TopicSuffix (Tags d2))" using assms(4) by simp
    also have "map TopicSuffix (Tags d2) = map TopicSuffix ts" using v(2) by (simp add: ts(2))
    finally show ?thesis by simp
  qed
  ultimately have c: "clean_suffix (TopicSuffix t)" by blast
  then have "TopicSuffix t \<noteq> []" by (auto simp: clean_suffix_def clean_segment_def)
  then show ?thesis using clean_topic [OF c] by (simp add: route_of_def)
qed

theorem overview_shows_polled_topics_witness:
  "tr_FullTopic (route_of (demo_loaded\<lparr>CreatedAt := 1, UpdatedAt := 2\<rparr>) demo_tag) = topicForTag ''plant'' demo_tag"
proof -
  have "list_all plain_tag (Tags demo_loaded)"
    by (simp add: demo_tags plain_tag_def plain_text_def is_space_def) (simp add: demo_tag_def)
  from overview_shows_polled_topics [OF demo_normalized restamped_valid [OF demo_validated] this, of demo_tag]
  show ?thesis by (simp add: demo_tags) (simp add: demo_loaded_def build_device_def demo_yaml_def)
qed

text \<open>
  The overview lists every tag of every device once, whatever the sort does with equal keys, and lists
  them by device and topic.
\<close>

theorem overview_complete:
  assumes "is_route_sort (re_sort env)" and "ah_deviceManager h = dm"
  shows "\<exists>ov. TopicsOverviewHandler env r (p, h, w) = (if rq_Method r \<noteq> ''GET'' then Some (not_allowed p, h, w)
        else Some (send_runtime env (JOverview ov) p, h, w))
    \<and> mset (tov_Routes ov) = (\<Sum>d\<in>#mset (GetDevices (re_manager env) (dm, w)). image_mset (route_of d) (mset (Tags d)))
    \<and> sorted_wrt (\<lambda>a b. \<not> route_less b a) (tov_Routes ov)"
proof -
  have "mset (routes_of ds) = (\<Sum>d\<in>#mset ds. image_mset (route_of d) (mset (Tags d)))" for ds
    by (induction ds) (simp_all add: routes_of_def)
  then show ?thesis using assms
    by (intro exI [of _ "topics_overview_of env r (h, w)"]) (simp add: TopicsOverviewHandler_def topics_overview_of_def is_route_sort_def)
qed

definition safe_command :: "string list \<Rightarrow> bool" where
  "safe_command argv \<longleftrightarrow> argv = [''docker'', ''ps'', ''--format'', ''{{.Names}}'']
     \<or> (\<exists>n c. argv = [''docker'', ''logs'', ''--timestamps'', ''--tail'', show_int n, c] \<and> 1 \<le> n \<and> n \<le> 5000
          \<and> c \<noteq> [] \<and> name_char (hd c) \<and> length c \<le> 128 \<and> (\<forall>x\<in>set c. name_char x \<or> x \<in> set ''_.-''))"

lemma tail_command_safe:
  "containerNameRe c \<Longrightarrow> safe_command [''docker'', ''logs'', ''--timestamps'', ''--tail'', show_int (clamp_tail n), c]"
  unfolding safe_command_def
  by (intro disjI2 exI [of _ "clamp_tail n"] exI [of _ c])
    (auto simp: containerNameRe_def clamp_tail_def Let_def list_all_iff split: list.splits)

text \<open>
  C14: What docker is asked to do: whatever the request, the only commands ever run are the listing of the
  containers and the logs of one, with between 1 and 5000 lines and a name that cannot be taken for an
  option.  Two ways of running commands that agree on those cannot be told apart.
\<close>

theorem only_safe_commands:
  assumes "\<And>timeout argv w. safe_command argv \<Longrightarrow> run timeout argv w = run' timeout argv w"
  shows "lp_ListContainers (NewDockerCLILogProvider run) t w = lp_ListContainers (NewDockerCLILogProvider run') t w
    \<and> lp_TailLogs (NewDockerCLILogProvider run) t c n w = lp_TailLogs (NewDockerCLILogProvider run') t c n w"
proof -
  have "run t [''docker'', ''ps'', ''--format'', ''{{.Names}}''] w = run' t [''docker'', ''ps'', ''--format'', ''{{.Names}}''] w"
    by (rule assms) (simp add: safe_command_def)
  moreover have "docker_TailLogs run t c n w = docker_TailLogs run' t c n w"
    using assms [OF tail_command_safe] by (simp add: docker_TailLogs_def)
  ultimately show ?thesis by (simp add: NewDockerCLILogProvider_def docker_ListContainers_def)
qed

text \<open>Two worlds that count the commands run, of which one would notice an unsafe one.\<close>

theorem only_safe_commands_witness:
  "docker_TailLogs (\<lambda>t argv n. (Inr [], Suc n)) 5 ''gw_1'' 7 (0 :: nat) = docker_TailLogs (\<lambda>t argv n. (Inr [], if safe_command argv then Suc n else 9)) 5 ''gw_1'' 7 0"
  using only_safe_commands [where run = "\<lambda>t argv n. (Inr [], Suc n)" and run' = "\<lambda>t argv n. (Inr [], if safe_command argv then Suc n else 9)"
      and t = 5 and c = "''gw_1''" and n = 7 and w = "0 :: nat"]
  by (simp add: NewDockerCLILogProvider_def)

text \<open>
  A line of the gateway's own console log, with the time stamp that docker puts before it, is taken
  apart into what it was put together from: date and time, level, message.
\<close>

theorem console_line_parsed:
  assumes "rfc3339_ok stamp" and "list_all good_word (stamp # date # clock # utc # level # msg)"
  shows "parseLogLine (join_words (stamp # date # clock # utc # level # msg)) =
    \<lparr>le_Timestamp = date @ '' '' @ clock, le_Level = level, le_Source = extractSource (join_words msg),
     le_Message = join_words msg, le_Raw = join_words (stamp # date # clock # utc # level # msg)\<rparr>"
proof -
  let ?rest = "date # clock # utc # level # msg"
  have r: "list_all good_word ?rest" "list_all good_word msg" using assms(2) by simp_all
  have f: "Fields (join_words (stamp # ?rest)) = stamp # ?rest" by (rule Fields_join [OF assms(2)])
  have "trim_prefix (join_words (stamp # ?rest)) stamp = CHR '' '' # join_words ?rest"
    by (simp add: trim_prefix_def)
  then have t: "trim_space (trim_prefix (join_words (stamp # ?rest)) stamp) = join_words ?rest"
    by (simp only: trim_space_space trim_join [OF r(1)])
  have g: "parseGatewayStyle (join_words ?rest) = \<lparr>le_Timestamp = date @ '' '' @ clock, le_Level = level,
      le_Source = extractSource (join_words msg), le_Message = join_words msg, le_Raw = join_words ?rest\<rparr>"
    unfolding parseGatewayStyle_def Fields_join [OF r(1)] by (simp add: trim_join [OF r(2)] Let_def)
  show ?thesis unfolding parseLogLine_def f by (simp add: assms(1) t g del: join_words.simps)
qed

end
