(* ===== verification/Gateway_Web.thy ===== *)
theory Gateway_Web
  imports Http_Runtime Opcua_Pool Polling_Service
begin

text \<open>
  The endpoints of \<open>cmd/gateway/main.go\<close>: browsing, the certificates, the status, and which path is
  served by what behind which middleware.  The state is that of the API with its world, and the OPC
  UA pool with its own, in which the store of certificates lives.  The probes of \<open>Health_Checker\<close>, the
  Prometheus handler and the static files only answer: they are a parameter.
\<close>

section \<open>Browsing\<close>

definition hasPrefix :: "string \<Rightarrow> string \<Rightarrow> bool" where
  "hasPrefix s prefix \<longleftrightarrow> length prefix \<le> length s \<and> take (length prefix) s = prefix"

text \<open>The loop over the characters; the number wraps at 64 bits.\<close>

fun parse_loop :: "u64 \<Rightarrow> string \<Rightarrow> u64 option" where
  "parse_loop n [] = Some n"
| "parse_loop n (c # cs) = (if \<not> is_digit c then None else parse_loop (n * 10 + of_nat (digit_val c)) cs)"

definition parseInt :: "string \<Rightarrow> err + int" where
  "parseInt s = (case parse_loop 0 s of None \<Rightarrow> Inl (Plain ''invalid number'') | Some n \<Rightarrow> Inr (sint n))"

definition browse_depth :: "string \<Rightarrow> int" where
  "browse_depth s = (if s = [] then 1
     else case parseInt s of Inl e \<Rightarrow> 1 | Inr d \<Rightarrow> if 0 < d then (if 5 < d then 5 else d) else 1)"

datatype web_value =
    JBrowse browse_result
  | JCerts "cert_listing list" nat
  | JMap "(string \<times> string) list"

record ('w, 'v, 'n, 'b) web_env =
  we_http :: "'w http_env"
  we_runtime :: "'w runtime_env"
  we_opcua :: "('v, 'n, 'b) opc_pool_env"
  we_trust :: "'v \<Rightarrow> trust_env"
  we_store :: "'v \<Rightarrow> trust_store"
  we_put_store :: "trust_store \<Rightarrow> 'v \<Rightarrow> 'v"
  we_Encode :: "web_value \<Rightarrow> err + string"
  we_Fingerprint :: "string \<times> bool \<Rightarrow> err + string"
  we_answer :: "http_request \<Rightarrow> response \<Rightarrow> response"

definition send_web :: "('w, 'v, 'n, 'b) web_env \<Rightarrow> web_value \<Rightarrow> response \<Rightarrow> response" where
  "send_web env v p = snd (encode_to (we_Encode env v) (json_header p))"

definition browse_prefix :: string where
  "browse_prefix = ''/api/browse/''"

text \<open>The handler reads the device manager; its own state is the pool.  A panic is a call that does not return.\<close>

definition handleBrowse ::
  "('w, 'v, 'n, 'b) web_env \<Rightarrow> 'w device_manager \<Rightarrow> (('v, 'n, 'b) op_state) handler" where
  "handleBrowse env dm r st = (case st of (p, s) \<Rightarrow>
     if rq_Method r \<noteq> ''GET'' then Some (not_allowed p, s)
     else if \<not> hasPrefix (rq_Path r) browse_prefix then Some (http_Error ''Invalid path'' 400 p, s)
     else let deviceID = drop (length browse_prefix) (rq_Path r) in
       if deviceID = [] then Some (http_Error ''Device ID is required'' 400 p, s)
       else let nodeID = rq_Query r ''node_id''; maxDepth = browse_depth (rq_Query r ''max_depth'') in
         case GetDevice deviceID dm of
           None \<Rightarrow> Some (http_Error ''Device not found'' 404 p, s)
         | Some d \<Rightarrow>
             if dev_Protocol d \<noteq> ProtocolOPCUA
             then Some (http_Error ''Browse is only supported for OPC UA devices'' 400 p, s)
             else case opc_GetClient (we_opcua env) d s of
               (Panic, s1) \<Rightarrow> None
             | (Err e, s1) \<Rightarrow> Some (http_Error (''Failed to connect to device: '' @ err_text e) 503 p, s1)
             | (Ok _, s1) \<Rightarrow>
                 (case BrowseNodes (we_opcua env) deviceID nodeID maxDepth s1 of
                    None \<Rightarrow> None
                  | Some (Panic, s2) \<Rightarrow> None
                  | Some (Err e, s2) \<Rightarrow> Some (http_Error (''Browse failed: '' @ err_text e) 500 p, s2)
                  | Some (Ok b, s2) \<Rightarrow> Some (send_web env (JBrowse b) p, s2)))"

section \<open>Certificates\<close>

definition handleTrustedCerts :: "('w, 'v, 'n, 'b) web_env \<Rightarrow> ('v, 'n, 'b) op_state handler" where
  "handleTrustedCerts env r st = (case st of (p, pool, v) \<Rightarrow>
     let te = we_trust env v; ts = we_store env v in
     if rq_Method r = ''GET'' then
       (case ListTrustedCerts (oe_arch (we_opcua env)) te ts of
          Inl e \<Rightarrow> Some (http_Error (''Failed to list trusted certificates: '' @ err_text e) 500 p, pool, v)
        | Inr cs \<Rightarrow> Some (send_web env (JCerts cs (length cs)) p, pool, v))
     else if rq_Method r = ''DELETE'' then
       (let fp = rq_Query r ''fingerprint'' in
        if fp = [] then Some (http_Error ''fingerprint query parameter is required'' 400 p, pool, v)
        else case RemoveTrustedCert te fp ts of
          (Some e, ts1) \<Rightarrow> Some (http_Error (''Failed to remove certificate: '' @ err_text e) 404 p, pool, we_put_store env ts1 v)
        | (None, ts1) \<Rightarrow> Some (send_web env (JMap [(''status'', ''removed''), (''fingerprint'', fp)]) p, pool, we_put_store env ts1 v))
     else Some (not_allowed p, pool, v))"

definition handleRejectedCerts :: "('w, 'v, 'n, 'b) web_env \<Rightarrow> ('v, 'n, 'b) op_state handler" where
  "handleRejectedCerts env r st = (case st of (p, pool, v) \<Rightarrow>
     if rq_Method r \<noteq> ''GET'' then Some (not_allowed p, pool, v)
     else case ListRejectedCerts (oe_arch (we_opcua env)) (we_trust env v) (we_store env v) of
       Inl e \<Rightarrow> Some (http_Error (''Failed to list rejected certificates: '' @ err_text e) 500 p, pool, v)
     | Inr cs \<Rightarrow> Some (send_web env (JCerts cs (length cs)) p, pool, v))"

definition handleTrustCert :: "('w, 'v, 'n, 'b) web_env \<Rightarrow> ('v, 'n, 'b) op_state handler" where
  "handleTrustCert env r st = (case st of (p, pool, v) \<Rightarrow>
     if rq_Method r \<noteq> ''POST'' then Some (not_allowed p, pool, v)
     else case we_Fingerprint env (readable (rq_Body r)) of
       Inl e \<Rightarrow> Some (http_Error ''Invalid JSON body'' 400 p, pool, v)
     | Inr fp \<Rightarrow>
         if fp = [] then Some (http_Error ''fingerprint is required'' 400 p, pool, v)
         else (case PromoteCert (we_trust env v) fp (we_store env v) of
             (Some e, ts1) \<Rightarrow> Some (http_Error (''Failed to promote certificate: '' @ err_text e) 404 p, pool, we_put_store env ts1 v)
           | (None, ts1) \<Rightarrow> Some (send_web env (JMap [(''status'', ''trusted''), (''fingerprint'', fp)]) p, pool, we_put_store env ts1 v)))"

section \<open>Devices, status and metrics\<close>

definition devices_endpoint :: "'w http_env \<Rightarrow> 'w api_state handler" where
  "devices_endpoint env r st =
     (if rq_Method r = ''GET'' then
        (if rq_Query r ''id'' \<noteq> [] then GetDeviceHandler env r st else GetDevicesHandler env r st)
      else if rq_Method r = ''POST'' then CreateDeviceHandler env r st
      else if rq_Method r = ''PUT'' then UpdateDeviceHandler env r st
      else if rq_Method r = ''DELETE'' then DeleteDeviceHandler env r st
      else Some (not_allowed (fst st), snd st))"

definition serviceName :: string where "serviceName = ''protocol-gateway''"
definition serviceVersion :: string where "serviceVersion = ''2.0.0''"

definition json_field :: "string \<Rightarrow> string \<Rightarrow> string" where
  "json_field k v = [CHR 0x22] @ k @ [CHR 0x22] @ '':'' @ v"

definition json_text :: "string \<Rightarrow> string" where
  "json_text s = [CHR 0x22] @ s @ [CHR 0x22]"

definition status_text :: "polling_stats \<Rightarrow> string" where
  "status_text s = ''{'' @ json_field ''service'' (json_text serviceName) @ '','' @ json_field ''version'' (json_text serviceVersion)
     @ '','' @ json_field ''polling'' (''{'' @ json_field ''total_polls'' (show_nat (TotalPolls s))
     @ '','' @ json_field ''success_polls'' (show_nat (SuccessPolls s)) @ '','' @ json_field ''failed_polls'' (show_nat (FailedPolls s))
     @ '','' @ json_field ''skipped_polls'' (show_nat (SkippedPolls s)) @ '','' @ json_field ''points_read'' (show_nat (PointsRead s))
     @ '','' @ json_field ''points_published'' (show_nat (PointsPublished s)) @ ''}'') @ ''}''"

definition status_endpoint :: "polling_stats \<Rightarrow> response \<Rightarrow> response" where
  "status_endpoint s p = write_text (status_text s) (WriteHeader 200 (json_header p))"

definition metrics_endpoint :: "bool \<Rightarrow> (response \<Rightarrow> response) \<Rightarrow> response \<Rightarrow> response" where
  "metrics_endpoint isReady prometheus p =
     (if \<not> isReady then write_text (''# Gateway is initializing, metrics not yet ready'' @ [CHR 0x0A]) (WriteHeader 503 p)
      else prometheus p)"

section \<open>The routes\<close>

datatype web_endpoint =
    EDevices | ETestConnection | EBrowse | ETrusted | ERejected | ETrust | ETopics | EContainers | ELogs
  | EStatus | EMetrics | EAnswer

datatype protection = Unprotected | Secured | ReadOnlyProtected

text \<open>The patterns in the order of their registration; those of the certificates need a trust store.\<close>

definition web_routes :: "bool \<Rightarrow> (string \<times> protection \<times> web_endpoint) list" where
  "web_routes trust =
     [(''/health'', Unprotected, EAnswer), (''/health/live'', Unprotected, EAnswer), (''/health/ready'', Unprotected, EAnswer),
      (''/metrics'', Unprotected, EMetrics), (''/status'', Unprotected, EStatus),
      (''/api/devices'', Secured, EDevices), (''/api/test-connection'', Secured, ETestConnection),
      (browse_prefix, ReadOnlyProtected, EBrowse)]
     @ (if trust then
         [(''/api/opcua/certificates/trusted'', Secured, ETrusted),
          (''/api/opcua/certificates/rejected'', ReadOnlyProtected, ERejected),
          (''/api/opcua/certificates/trust'', Secured, ETrust)] else [])
     @ [(''/api/topics'', ReadOnlyProtected, ETopics), (''/api/logs/containers'', ReadOnlyProtected, EContainers),
        (''/api/logs'', ReadOnlyProtected, ELogs), (''/'', Unprotected, EAnswer)]"

text \<open>
  \<open>http.ServeMux\<close>: a pattern matches its own path, and what is below it when it ends in a slash; the longest match wins.
\<close>

definition pattern_matches :: "string \<Rightarrow> string \<Rightarrow> bool" where
  "pattern_matches pat path \<longleftrightarrow> path = pat \<or> (pat \<noteq> [] \<and> List.last pat = CHR ''/'' \<and> has_prefix path pat)"

definition matching :: "string \<Rightarrow> (string \<times> protection \<times> web_endpoint) list \<Rightarrow> (string \<times> protection \<times> web_endpoint) option" where
  "matching path rs = fold (\<lambda>e best. if pattern_matches (fst e) path
       \<and> (case best of None \<Rightarrow> True | Some b \<Rightarrow> length (fst b) < length (fst e)) then Some e else best) rs None"

record ('w, 'v, 'n, 'b) web =
  web_api :: "'w api_state"
  web_opcua :: "('v, 'n, 'b) op_state"
  web_stats :: polling_stats
  web_ready :: bool

definition on_api :: "'w api_state handler \<Rightarrow> ('w, 'v, 'n, 'b) web handler" where
  "on_api f r st = (case st of (p, s) \<Rightarrow>
     map_option (\<lambda>(p1, a). (p1, s\<lparr>web_api := a\<rparr>)) (f r (p, web_api s)))"

definition on_opcua :: "('v, 'n, 'b) op_state handler \<Rightarrow> ('w, 'v, 'n, 'b) web handler" where
  "on_opcua f r st = (case st of (p, s) \<Rightarrow>
     map_option (\<lambda>(p1, u). (p1, s\<lparr>web_opcua := u\<rparr>)) (f r (p, web_opcua s)))"

fun run_endpoint :: "('w, 'v, 'n, 'b) web_env \<Rightarrow> web_endpoint \<Rightarrow> ('w, 'v, 'n, 'b) web handler" where
  "run_endpoint env EDevices r st = on_api (devices_endpoint (we_http env)) r st"
| "run_endpoint env ETestConnection r st = on_api (TestConnectionHandler (we_http env)) r st"
| "run_endpoint env EBrowse r st = on_opcua (handleBrowse env (ah_deviceManager (fst (web_api (snd st))))) r st"
| "run_endpoint env ETrusted r st = on_opcua (handleTrustedCerts env) r st"
| "run_endpoint env ERejected r st = on_opcua (handleRejectedCerts env) r st"
| "run_endpoint env ETrust r st = on_opcua (handleTrustCert env) r st"
| "run_endpoint env ETopics r st = on_api (TopicsOverviewHandler (we_runtime env)) r st"
| "run_endpoint env EContainers r st = on_api (ListContainersHandler (we_runtime env)) r st"
| "run_endpoint env ELogs r st = on_api (LogsHandler (we_runtime env)) r st"
| "run_endpoint env EStatus r st = Some (status_endpoint (web_stats (snd st)) (fst st), snd st)"
| "run_endpoint env EMetrics r st = Some (metrics_endpoint (web_ready (snd st)) (we_answer env r) (fst st), snd st)"
| "run_endpoint env EAnswer r st = Some (we_answer env r (fst st), snd st)"

definition serve :: "('w, 'v, 'n, 'b) web_env \<Rightarrow> api_config \<Rightarrow> ('w, 'v, 'n, 'b) web handler" where
  "serve env cfg r st = (case matching (rq_Path r) (web_routes (op_trustStore (fst (web_opcua (snd st))))) of
       None \<Rightarrow> Some (http_Error ''404 page not found'' 404 (fst st), snd st)
     | Some (pat, Unprotected, e) \<Rightarrow> run_endpoint env e r st
     | Some (pat, Secured, e) \<Rightarrow> Secure cfg (run_endpoint env e) r st
     | Some (pat, ReadOnlyProtected, e) \<Rightarrow> ReadOnly cfg (run_endpoint env e) r st)"
section \<open>The effect of a request on the devices\<close>

text \<open>The edit that a request to \<open>/api/devices\<close> asks for.\<close>

definition requested_edit :: "'w http_env \<Rightarrow> http_request \<Rightarrow> 'w \<Rightarrow> edit option" where
  "requested_edit env r w =
     (if rq_Method r = ''POST'' then (case he_Decode env (readable (rq_Body r)) of
          Inl e \<Rightarrow> None | Inr d \<Rightarrow> Some (Adding (he_clock env w 0) (he_clock env w 1) d))
      else if rq_Method r = ''PUT'' then (case he_Decode env (readable (rq_Body r)) of
          Inl e \<Rightarrow> None | Inr d \<Rightarrow> Some (Updating (he_clock env w 0) d))
      else if rq_Method r = ''DELETE'' then (if rq_Query r ''id'' = [] then None else Some (Deleting (rq_Query r ''id'')))
      else None)"

lemma devices_endpoint_edit:
  assumes "devices_endpoint env r (fresh_response, h, w) = Some (p', h', w')" "requested_edit env r w = Some e"
  obtains res dm where "run_edit (he_manager env) e (ah_deviceManager h, w) = Some (res, dm, w')"
    "h' = h\<lparr>ah_deviceManager := dm\<rparr>" "status_of p' \<in> {200, 201} \<longleftrightarrow> res = None" "status_of p' \<in> {200, 201, 400, 404}"
proof -
  consider (add) d where "rq_Method r = ''POST''" "he_Decode env (readable (rq_Body r)) = Inr d"
      "e = Adding (he_clock env w 0) (he_clock env w 1) d"
    | (upd) d where "rq_Method r = ''PUT''" "he_Decode env (readable (rq_Body r)) = Inr d" "e = Updating (he_clock env w 0) d"
    | (del) "rq_Method r = ''DELETE''" "rq_Query r ''id'' \<noteq> []" "e = Deleting (rq_Query r ''id'')"
    using assms(2) by (auto simp: requested_edit_def split: if_splits sum.splits)
  then show thesis
  proof cases
    case add
    then show thesis using assms(1)
      by (auto simp: devices_endpoint_def CreateDeviceHandler_def split: option.splits prod.splits intro: that)
  next
    case upd
    then show thesis using assms(1)
      by (auto simp: devices_endpoint_def UpdateDeviceHandler_def split: option.splits prod.splits intro: that)
  next
    case del
    then show thesis using assms(1)
      by (auto simp: devices_endpoint_def DeleteDeviceHandler_def Let_def split: option.splits prod.splits intro: that)
  qed
qed

lemma devices_endpoint_reads:
  assumes "devices_endpoint env r (p, h, w) = Some (p', h', w')" "requested_edit env r w = None"
  shows "h' = h \<and> w' = w"
  using assms
  by (auto simp: devices_endpoint_def requested_edit_def GetDevicesHandler_def GetDeviceHandler_def
      CreateDeviceHandler_def UpdateDeviceHandler_def DeleteDeviceHandler_def Let_def
      split: if_splits sum.splits option.splits)

section \<open>What a request without the key can reach\<close>

lemma secure_refuses:
  assumes "ac_AuthEnabled cfg" "presented_key r \<noteq> ac_APIKey cfg" "Secure cfg h r (p, s) = Some (p', s')"
  shows "s' = s"
  using assms by (cases "CORS cfg r p"; cases "fst (CORS cfg r p)") (auto simp: Secure_def)

lemma read_only_runs:
  assumes "ReadOnly cfg h r (p, s) = Some (p', s')"
  shows "s' = s \<or> (\<exists>p1. h (limited cfg r) (p1, s) = Some (p', s'))"
  using assms by (cases "CORS cfg r p"; cases "fst (CORS cfg r p)") (auto simp: ReadOnly_def)

lemma matching_in: "matching path rs = Some e \<Longrightarrow> e \<in> set rs \<and> pattern_matches (fst e) path"
proof -
  have "fold (\<lambda>e best. if pattern_matches (fst e) path
       \<and> (case best of None \<Rightarrow> True | Some b \<Rightarrow> length (fst b) < length (fst e)) then Some e else best) rs b = Some e
    \<Longrightarrow> b = Some e \<or> (e \<in> set rs \<and> pattern_matches (fst e) path)" for b
  proof (induction rs arbitrary: b)
    case (Cons x xs)
    then show ?case by (fastforce split: if_splits)
  qed simp
  then show "matching path rs = Some e \<Longrightarrow> e \<in> set rs \<and> pattern_matches (fst e) path" unfolding matching_def by blast
qed

text \<open>The endpoints that are not secured change neither the devices nor, except browsing, the pool.\<close>

lemma runtime_keeps_manager:
  "TopicsOverviewHandler env r (p, a) = Some (p', a') \<Longrightarrow> ah_deviceManager (fst a') = ah_deviceManager (fst a)"
  "ListContainersHandler env r (p, a) = Some (p', a') \<Longrightarrow> ah_deviceManager (fst a') = ah_deviceManager (fst a)"
  "LogsHandler env r (p, a) = Some (p', a') \<Longrightarrow> ah_deviceManager (fst a') = ah_deviceManager (fst a)"
  by (auto simp: TopicsOverviewHandler_def ListContainersHandler_def LogsHandler_def Let_def
      split: prod.splits if_splits option.splits sum.splits)

lemma open_endpoints:
  assumes "(pat, prot, e) \<in> set (web_routes trust)" "prot \<noteq> Secured" "run_endpoint env e r (p, s) = Some (p', s')"
  shows "ah_deviceManager (fst (web_api s')) = ah_deviceManager (fst (web_api s)) \<and> (pat \<noteq> browse_prefix \<longrightarrow> web_opcua s' = web_opcua s)"
proof -
  have e: "e \<in> {EBrowse, ERejected, ETopics, EContainers, ELogs, EStatus, EMetrics, EAnswer}"
    "e = EBrowse \<Longrightarrow> pat = browse_prefix"
    using assms(1,2) by (auto simp: web_routes_def split: if_splits)
  have rej: "handleRejectedCerts env r (p, u) = Some (p', u') \<Longrightarrow> u' = u" for u u'
    by (auto simp: handleRejectedCerts_def split: prod.splits if_splits sum.splits)
  show ?thesis using e(1) assms(3) e(2) rej [of "web_opcua s"] runtime_keeps_manager [of "we_runtime env" r p "web_api s" p']
    by (elim insertE emptyE) (auto simp: on_api_def on_opcua_def)
qed

section \<open>Depth\<close>

lemma parse_loop_digits:
  "list_all is_digit s \<Longrightarrow> parse_loop n s = Some (of_nat (digits_val (unat n) s))"
proof (induction s arbitrary: n)
  case (Cons c cs)
  have "unat (n * 10 + of_nat (digit_val c) :: u64) = (unat n * 10 + digit_val c) mod 2 ^ 64"
    by (simp add: unat_word_ariths unat_of_nat mod_simps)
  moreover have "(of_nat (digits_val (a mod 2 ^ 64) cs) :: u64) = of_nat (digits_val a cs)" for a
  proof (induction cs arbitrary: a)
    case Nil
    show ?case by (simp add: word_of_nat_eq_iff take_bit_eq_mod)
  next
    case (Cons x xs)
    have "((a mod 2 ^ 64) * 10 + digit_val x) mod 2 ^ 64 = (a * 10 + digit_val x) mod 2 ^ 64" 
      by (metis mod_add_left_eq mod_mult_left_eq)
    then show ?case using Cons.IH [of "(a mod 2 ^ 64) * 10 + digit_val x"] Cons.IH [of "a * 10 + digit_val x"] by simp
  qed
  ultimately show ?case using Cons by simp
qed simp

section \<open>Properties\<close>

text \<open>
  C12: With authentication on, a request without the key, to whatever path, leaves the devices as they
  are, and the OPC UA pool and its certificates too unless it is a request to browse.
\<close>

theorem no_key_no_change:
  assumes "ac_AuthEnabled cfg" and "presented_key r \<noteq> ac_APIKey cfg"
    and "serve env cfg r (p, s) = Some (p', s')"
  shows "ah_deviceManager (fst (web_api s')) = ah_deviceManager (fst (web_api s))
    \<and> (\<not> has_prefix (rq_Path r) browse_prefix \<longrightarrow> web_opcua s' = web_opcua s)"
proof (cases "matching (rq_Path r) (web_routes (op_trustStore (fst (web_opcua s))))")
  case None
  then show ?thesis using assms(3) by (simp add: serve_def)
next
  case (Some m)
  obtain pat prot e where m: "m = (pat, prot, e)" by (cases m)
  note i = matching_in [OF Some, unfolded m, simplified]
  have b: "pat = browse_prefix \<Longrightarrow> has_prefix (rq_Path r) browse_prefix"
    using i by (auto simp: pattern_matches_def has_prefix_iff)
  show ?thesis
  proof (cases prot)
    case Secured
    then have "Secure cfg (run_endpoint env e) r (p, s) = Some (p', s')" using assms(3) Some m by (simp add: serve_def)
    then have "s' = s" by (rule secure_refuses [OF assms(1,2)])
    then show ?thesis by simp
  next
    case Unprotected
    then have "run_endpoint env e r (p, s) = Some (p', s')" using assms(3) Some m by (simp add: serve_def)
    from open_endpoints [OF _ _ this] i Unprotected b show ?thesis by blast
  next
    case ReadOnlyProtected
    then have "ReadOnly cfg (run_endpoint env e) r (p, s) = Some (p', s')" using assms(3) Some m by (simp add: serve_def)
    from read_only_runs [OF this]
    have "s' = s \<or> (\<exists>p1. run_endpoint env e (limited cfg r) (p1, s) = Some (p', s'))" .
    then show ?thesis using open_endpoints [of pat prot e] i ReadOnlyProtected b by blast
  qed
qed

lemma devices_route: "matching ''/api/devices'' (web_routes trust) = Some (''/api/devices'', Secured, EDevices)"
  by (cases trust) (simp_all add: matching_def web_routes_def pattern_matches_def browse_prefix_def)

theorem no_key_no_change_witness:
  "\<forall>(env :: (nat, nat, nat, nat) web_env) s. \<exists>p' s'. serve env secret_config (plain_request ''DELETE'') (fresh_response, s) = Some (p', s')
     \<and> ah_deviceManager (fst (web_api s')) = ah_deviceManager (fst (web_api s)) \<and> web_opcua s' = web_opcua s"
proof (intro allI)
  fix env :: "(nat, nat, nat, nat) web_env" and s :: "(nat, nat, nat, nat) web"
  let ?r = "plain_request ''DELETE''"
  have path: "rq_Path ?r = ''/api/devices''" by (simp add: plain_request_def)
  have "\<exists>p'. serve env secret_config ?r (fresh_response, s) = Some (p', s)"
    by (simp add: serve_def path devices_route) (simp add: Secure_def CORS_def Let_def secret_config_def plain_request_def presented_key_def limited_def)
  then obtain p' where s: "serve env secret_config ?r (fresh_response, s) = Some (p', s)" by blast
  have "ac_AuthEnabled secret_config" "presented_key ?r \<noteq> ac_APIKey secret_config" by (simp_all add: secret_config_def)
  from no_key_no_change [OF this s] s path
  show "\<exists>p' s'. serve env secret_config ?r (fresh_response, s) = Some (p', s')
     \<and> ah_deviceManager (fst (web_api s')) = ah_deviceManager (fst (web_api s)) \<and> web_opcua s' = web_opcua s"
    by blast
qed

text \<open>
  C11: The answer tells what happened to the devices.  A request to \<open>/api/devices\<close> that asks for no edit, or
  whose body does not decode, changes nothing.  One that does is answered 200, 201, 400 or 404: with 200 or
  201 exactly when the edit was made, and then the device file was written.  With 400 or 404 the handler and
  its manager are as they were and no callback has run; the only trace can be what a failed write left of the
  device file (\<open>os.WriteFile\<close> is not atomic, so that may be a truncated file).
\<close>

theorem status_tells_effect:
  assumes "devices_endpoint env r (fresh_response, h, w) = Some (p', h', w')"
  shows "case requested_edit env r w of
      None \<Rightarrow> h' = h \<and> w' = w
    | Some e \<Rightarrow> status_of p' \<in> {200, 201, 400, 404}
        \<and> store_step (dm_devices (ah_deviceManager h)) e (status_of p' \<in> {200, 201}) (dm_devices (ah_deviceManager h'))
        \<and> (status_of p' \<in> {200, 201} \<longrightarrow> (\<exists>w1. file_written (he_manager env) (ah_deviceManager h') w w1))
        \<and> (status_of p' \<in> {400, 404} \<longrightarrow> h' = h
             \<and> only_failed_save (he_manager env) (dm_devicesPath (ah_deviceManager h)) w w')"
proof (cases "requested_edit env r w")
  case None
  then show ?thesis using devices_endpoint_reads [OF assms] by simp
next
  case (Some e)
  obtain res dm where run: "run_edit (he_manager env) e (ah_deviceManager h, w) = Some (res, dm, w')"
    and h': "h' = h\<lparr>ah_deviceManager := dm\<rparr>" and st: "status_of p' \<in> {200, 201} \<longleftrightarrow> res = None" "status_of p' \<in> {200, 201, 400, 404}"
    by (rule devices_endpoint_edit [OF assms Some])
  have left: "h' = h \<and> only_failed_save (he_manager env) (dm_devicesPath (ah_deviceManager h)) w w'"
    if "status_of p' \<in> {400, 404}"
  proof -
    have "status_of p' \<notin> {200, 201}" using that by auto
    then obtain err where "res = Some err" using st(1) by (cases res) simp_all
    then show ?thesis using refused_leaves run h' by fastforce
  qed
  show ?thesis unfolding Some using edit_refines [OF run] st left by (simp only: h' option.case) simp
qed

definition demo_http :: "(string \<rightharpoonup> bytes) http_env" where
  "demo_http = \<lparr>he_manager = demo_manager_env, he_Decode = (\<lambda>b. Inr demo_loaded), he_Encode = (\<lambda>v. Inr []),
     he_clock = (\<lambda>w k. int k + 1)\<rparr>"

theorem status_tells_effect_witness:
  "\<exists>p' h' w'. devices_endpoint demo_http (plain_request ''POST'') (fresh_response, NewAPIHandler demo_manager, Map.empty) = Some (p', h', w')
     \<and> status_of p' = 201 \<and> store_step Map.empty (Adding 1 2 demo_loaded) True (dm_devices (ah_deviceManager h'))"
proof -
  let ?d = "demo_loaded\<lparr>CreatedAt := 1, UpdatedAt := 2\<rparr>" and ?r = "plain_request ''POST''"
  have add: "manager_AddDevice demo_manager_env 1 2 demo_loaded (demo_manager, Map.empty)
      = Some (None, demo_manager\<lparr>dm_devices := [''d1'' \<mapsto> ?d]\<rparr>, [''a'' \<mapsto> [1]])"
    using demo_add [OF demo_normalized restamped_valid [OF demo_validated] demo_id, of "fe_Unmarshal demo_manager_env" Map.empty] by simp
  have m: "rq_Method ?r = ''POST''" by (simp add: plain_request_def)
  define h where "h = (NewAPIHandler demo_manager)\<lparr>ah_deviceManager := demo_manager\<lparr>dm_devices := [''d1'' \<mapsto> ?d]\<rparr>\<rparr>"
  have "\<exists>p'. devices_endpoint demo_http ?r (fresh_response, NewAPIHandler demo_manager, Map.empty) = Some (p', h, [''a'' \<mapsto> [1]])
      \<and> status_of p' = 201"
    by (simp add: devices_endpoint_def CreateDeviceHandler_def m demo_http_def NewAPIHandler_def add h_def)
  then obtain p' where p: "devices_endpoint demo_http ?r (fresh_response, NewAPIHandler demo_manager, Map.empty) = Some (p', h, [''a'' \<mapsto> [1]])"
    and st: "status_of p' = 201" by blast
  have "requested_edit demo_http ?r Map.empty = Some (Adding 1 2 demo_loaded)" by (simp add: requested_edit_def m demo_http_def)
  from status_tells_effect [OF p, unfolded this] have "store_step Map.empty (Adding 1 2 demo_loaded) True (dm_devices (ah_deviceManager h))"
    by (simp add: st NewAPIHandler_def demo_manager_def NewDeviceManager_def)
  then show ?thesis using p st by blast
qed

text \<open>
  C17: How deep a browse may go: between 1 and 5 levels whatever the query says, also where the number
  wraps at 64 bits; a number below \<open>2^63\<close> counts as it is written.
\<close>

theorem browse_depth_bounded:
  "1 \<le> browse_depth s \<and> browse_depth s \<le> 5
    \<and> (list_all is_digit s \<and> s \<noteq> [] \<and> int (digits_val 0 s) < 2 ^ 63 \<longrightarrow> browse_depth s = max 1 (min 5 (int (digits_val 0 s))))"
proof -
  have "sint (of_nat n :: u64) = int n" if "int n < 2 ^ 63" for n
    using that by (simp add: signed_of_nat signed_take_bit_int_eq_self)
  then have "list_all is_digit s \<and> s \<noteq> [] \<and> int (digits_val 0 s) < 2 ^ 63 \<Longrightarrow> parseInt s = Inr (int (digits_val 0 s))"
    by (simp add: parseInt_def parse_loop_digits)
  then show ?thesis by (auto simp: browse_depth_def split: sum.splits)
qed

theorem browse_depth_bounded_witness: "browse_depth ''3'' = 3"
  using browse_depth_bounded [of "''3''"] by (simp add: is_digit_def digit_val_def)

end
