(* ===== verification/Health_Checker.thy ===== *)
theory Health_Checker
  imports Go_Error
begin

text \<open>
  \<open>internal/health/checker.go\<close>: registered checks, their states with protection against flapping, the
  operational state of the service, the cached result and the HTTP probes.

  A run of all checks is a value of the state: the checks it started with, the results it has, and
  how far it is; any number of runs are under way at once (the background loop and
  \<open>RunChecksNow\<close>), and what a check answers is a parameter of the step.  Registering, removing and the
  update of one check's status are atomic; between the update of the operational state and the
  publication of the result other steps happen.  A missing failure count reads as 0.  The callback of
  a state change is the list of its calls.
\<close>

section \<open>State\<close>

datatype operational_state =
  StateStarting | StateRunning | StateDegraded | StateRecovering | StateShuttingDown | StateOffline

datatype check_severity = SeverityInfo | SeverityWarning | SeverityCritical | OtherSeverity int

definition severity_String :: "check_severity \<Rightarrow> string" where
  "severity_String s = (case s of SeverityInfo \<Rightarrow> ''info'' | SeverityWarning \<Rightarrow> ''warning''
     | SeverityCritical \<Rightarrow> ''critical'' | OtherSeverity i \<Rightarrow> ''unknown'')"

text \<open>The texts \<open>"healthy"\<close>, \<open>"degraded"\<close>, \<open>"unhealthy"\<close> and \<open>"unknown"\<close>.\<close>

datatype health_status = Healthy | Degraded | Unhealthy | Unknown

record health_config =
  hc_ServiceName :: string
  hc_ServiceVersion :: string
  hc_CheckTimeout :: duration
  hc_CheckInterval :: duration
  hc_FailureThreshold :: int
  hc_RecoveryThreshold :: int

record check_status =
  cs_Name :: string
  cs_Status :: health_status
  cs_Severity :: string
  cs_Error :: string
  cs_LastCheck :: "time option"
  cs_ConsecutiveFails :: int
  cs_LastStateChange :: "time option"

record health_response =
  hr_Status :: health_status
  hr_State :: operational_state
  hr_Service :: string
  hr_Version :: string
  hr_Timestamp :: time
  hr_Checks :: "string \<rightharpoonup> check_status"

datatype run_phase = Checking | Decided | Published

record check_run =
  cr_pending :: "string \<rightharpoonup> check_severity"
  cr_response :: health_response
  cr_hasCriticalFailure :: bool
  cr_hasWarningFailure :: bool
  cr_phase :: run_phase

text \<open>The background loop waits for its run, waits for the ticker or the stop channel, or has returned.\<close>

datatype check_loop = LoopOff | LoopRun nat | LoopSelect | LoopExited

record health_checker =
  hk_config :: health_config
  hk_checks :: "string \<rightharpoonup> check_severity"
  hk_statuses :: "string \<rightharpoonup> check_status"
  hk_failureCounts :: "string \<Rightarrow> int"
  hk_cachedResult :: "health_response option"
  hk_state :: operational_state
  hk_lastStateChange :: time
  hk_onStateChange :: bool
  hk_reported :: "(operational_state \<times> operational_state) list"
  hk_started :: bool
  hk_stopped :: bool
  hk_loop :: check_loop
  hk_runs :: "check_run list"

definition health_defaults :: "health_config \<Rightarrow> health_config" where
  "health_defaults c = c\<lparr>
     hc_CheckTimeout := (if hc_CheckTimeout c = 0 then 5000000000 else hc_CheckTimeout c),
     hc_CheckInterval := (if hc_CheckInterval c = 0 then 10000000000 else hc_CheckInterval c),
     hc_FailureThreshold := (if hc_FailureThreshold c = 0 then 3 else hc_FailureThreshold c),
     hc_RecoveryThreshold := (if hc_RecoveryThreshold c = 0 then 2 else hc_RecoveryThreshold c)\<rparr>"

definition NewChecker :: "health_config \<Rightarrow> time \<Rightarrow> health_checker" where
  "NewChecker config now = \<lparr>hk_config = health_defaults config, hk_checks = Map.empty, hk_statuses = Map.empty,
     hk_failureCounts = (\<lambda>n. 0), hk_cachedResult = None, hk_state = StateStarting, hk_lastStateChange = now,
     hk_onStateChange = False, hk_reported = [], hk_started = False, hk_stopped = False, hk_loop = LoopOff, hk_runs = []\<rparr>"

section \<open>Checks\<close>

definition new_status :: "string \<Rightarrow> check_severity \<Rightarrow> health_status \<Rightarrow> check_status" where
  "new_status name sev st = \<lparr>cs_Name = name, cs_Status = st, cs_Severity = severity_String sev, cs_Error = [],
     cs_LastCheck = None, cs_ConsecutiveFails = 0, cs_LastStateChange = None\<rparr>"

definition AddCheckWithSeverity :: "string \<Rightarrow> check_severity \<Rightarrow> health_checker \<Rightarrow> health_checker" where
  "AddCheckWithSeverity name sev h = h\<lparr>hk_checks := (hk_checks h)(name \<mapsto> sev),
     hk_statuses := (hk_statuses h)(name \<mapsto> new_status name sev Unknown)\<rparr>"

definition AddCheck :: "string \<Rightarrow> health_checker \<Rightarrow> health_checker" where
  "AddCheck name h = AddCheckWithSeverity name SeverityCritical h"

definition RemoveCheck :: "string \<Rightarrow> health_checker \<Rightarrow> health_checker" where
  "RemoveCheck name h = h\<lparr>hk_checks := (hk_checks h)(name := None), hk_statuses := (hk_statuses h)(name := None),
     hk_failureCounts := (hk_failureCounts h)(name := 0)\<rparr>"

text \<open>The status after the answer of a check; \<open>old\<close> is its status so far and \<open>fails\<close> its count of failures.\<close>

definition next_status ::
  "int \<Rightarrow> string \<Rightarrow> check_severity \<Rightarrow> check_status option \<Rightarrow> int \<Rightarrow> err option \<Rightarrow> time \<Rightarrow> check_status \<times> int" where
  "next_status threshold name sev old fails e now =
     (let status = (new_status name sev Unknown)\<lparr>cs_LastCheck := Some now,
            cs_LastStateChange := (case old of None \<Rightarrow> None | Some o1 \<Rightarrow> cs_LastStateChange o1),
            cs_ConsecutiveFails := (case old of None \<Rightarrow> 0 | Some o1 \<Rightarrow> cs_ConsecutiveFails o1)\<rparr>
      in case e of
        Some x \<Rightarrow>
          (let n = fails + 1; s1 = status\<lparr>cs_ConsecutiveFails := n, cs_Error := err_text x\<rparr> in
           (if threshold \<le> n
            then s1\<lparr>cs_Status := Unhealthy,
                   cs_LastStateChange := (if map_option cs_Status old \<noteq> Some Unhealthy then Some now else cs_LastStateChange s1)\<rparr>
            else s1\<lparr>cs_Status := (if map_option cs_Status old = Some Healthy then Healthy else Degraded)\<rparr>, n))
      | None \<Rightarrow>
          (let s1 = status\<lparr>cs_ConsecutiveFails := 0, cs_Status := Healthy\<rparr> in
           (if threshold \<le> fails \<or> map_option cs_Status old \<noteq> Some Healthy
            then s1\<lparr>cs_LastStateChange := Some now\<rparr> else s1, 0)))"

definition updateCheckStatus ::
  "string \<Rightarrow> check_severity \<Rightarrow> err option \<Rightarrow> time \<Rightarrow> health_checker \<Rightarrow> check_status \<times> health_checker" where
  "updateCheckStatus name sev e now h =
     (case next_status (hc_FailureThreshold (hk_config h)) name sev (hk_statuses h name) (hk_failureCounts h name) e now of
        (status, n) \<Rightarrow> (status, h\<lparr>hk_statuses := (hk_statuses h)(name \<mapsto> status),
          hk_failureCounts := (hk_failureCounts h)(name := n)\<rparr>))"

section \<open>The operational state\<close>

definition next_state :: "health_status \<Rightarrow> operational_state \<Rightarrow> operational_state" where
  "next_state st s = (case s of
       StateStarting \<Rightarrow> if st = Healthy then StateRunning else StateDegraded
     | StateRunning \<Rightarrow> if st = Degraded \<or> st = Unhealthy then StateDegraded else StateRunning
     | StateDegraded \<Rightarrow> if st = Healthy then StateRecovering else StateDegraded
     | StateRecovering \<Rightarrow> if st = Healthy then StateRunning else StateDegraded
     | StateShuttingDown \<Rightarrow> StateShuttingDown
     | StateOffline \<Rightarrow> StateOffline)"

definition updateOperationalState :: "health_status \<Rightarrow> health_checker \<Rightarrow> health_checker" where
  "updateOperationalState st h = h\<lparr>hk_state := next_state st (hk_state h)\<rparr>"

definition SetState :: "operational_state \<Rightarrow> time \<Rightarrow> health_checker \<Rightarrow> health_checker" where
  "SetState st now h = (if hk_state h = st then h
     else h\<lparr>hk_state := st, hk_lastStateChange := now,
            hk_reported := (if hk_onStateChange h then hk_reported h @ [(hk_state h, st)] else hk_reported h)\<rparr>)"

definition OnStateChange :: "health_checker \<Rightarrow> health_checker" where
  "OnStateChange h = h\<lparr>hk_onStateChange := True\<rparr>"

section \<open>A run of the checks\<close>

definition new_run :: "time \<Rightarrow> health_checker \<Rightarrow> check_run" where
  "new_run now h = \<lparr>cr_pending = hk_checks h,
     cr_response = \<lparr>hr_Status = Healthy, hr_State = hk_state h, hr_Service = hc_ServiceName (hk_config h),
       hr_Version = hc_ServiceVersion (hk_config h), hr_Timestamp = now, hr_Checks = Map.empty\<rparr>,
     cr_hasCriticalFailure = False, cr_hasWarningFailure = False, cr_phase = Checking\<rparr>"

definition record_check :: "string \<Rightarrow> check_severity \<Rightarrow> check_status \<Rightarrow> check_run \<Rightarrow> check_run" where
  "record_check name sev st r = r\<lparr>cr_pending := (cr_pending r)(name := None),
     cr_response := (cr_response r)\<lparr>hr_Checks := (hr_Checks (cr_response r))(name \<mapsto> st)\<rparr>,
     cr_hasCriticalFailure := (cr_hasCriticalFailure r \<or> cs_Status st = Unhealthy \<and> sev = SeverityCritical),
     cr_hasWarningFailure := (cr_hasWarningFailure r \<or> cs_Status st = Unhealthy \<and> sev = SeverityWarning)\<rparr>"

definition overall_status :: "check_run \<Rightarrow> health_status" where
  "overall_status r = (if cr_hasCriticalFailure r then Unhealthy else if cr_hasWarningFailure r then Degraded else Healthy)"

definition put_run :: "nat \<Rightarrow> check_run \<Rightarrow> health_checker \<Rightarrow> health_checker" where
  "put_run i r h = h\<lparr>hk_runs := (hk_runs h)[i := r]\<rparr>"

text \<open>One answer of a check; the end of the run, in its two parts.\<close>

definition check_answered :: "nat \<Rightarrow> string \<Rightarrow> err option \<Rightarrow> time \<Rightarrow> health_checker \<Rightarrow> health_checker" where
  "check_answered i name e now h = (case cr_pending (hk_runs h ! i) name of
       None \<Rightarrow> h
     | Some sev \<Rightarrow> (case updateCheckStatus name sev e now h of
         (st, h1) \<Rightarrow> put_run i (record_check name sev st (hk_runs h ! i)) h1))"

definition run_decided :: "nat \<Rightarrow> health_checker \<Rightarrow> health_checker" where
  "run_decided i h = (let r = hk_runs h ! i; st = overall_status r in
     put_run i (r\<lparr>cr_response := (cr_response r)\<lparr>hr_Status := st\<rparr>, cr_phase := Decided\<rparr>) (updateOperationalState st h))"

definition run_published :: "nat \<Rightarrow> health_checker \<Rightarrow> health_checker" where
  "run_published i h = (let r = hk_runs h ! i; resp = (cr_response r)\<lparr>hr_State := hk_state h\<rparr> in
     (put_run i (r\<lparr>cr_response := resp, cr_phase := Published\<rparr>) h)\<lparr>hk_cachedResult := Some resp\<rparr>)"

section \<open>Probes\<close>

definition Check :: "time \<Rightarrow> health_checker \<Rightarrow> health_response" where
  "Check now h = (case hk_cachedResult h of Some r \<Rightarrow> r
     | None \<Rightarrow> \<lparr>hr_Status = Unknown, hr_State = hk_state h, hr_Service = hc_ServiceName (hk_config h),
         hr_Version = hc_ServiceVersion (hk_config h), hr_Timestamp = now, hr_Checks = Map.empty\<rparr>)"

definition HealthHandler :: "time \<Rightarrow> health_checker \<Rightarrow> int \<times> health_response" where
  "HealthHandler now h = (let r = Check now h in (if hr_Status r = Unhealthy then 503 else 200, r))"

definition LivenessHandler :: "time \<Rightarrow> health_checker \<Rightarrow> int \<times> health_response" where
  "LivenessHandler now h =
     (let down = hk_state h = StateOffline \<or> hk_state h = StateShuttingDown in
      (if down then 503 else 200,
       \<lparr>hr_Status = (if down then Unhealthy else Healthy), hr_State = hk_state h,
        hr_Service = hc_ServiceName (hk_config h), hr_Version = hc_ServiceVersion (hk_config h),
        hr_Timestamp = now, hr_Checks = Map.empty\<rparr>))"

definition ReadinessHandler :: "time \<Rightarrow> health_checker \<Rightarrow> int \<times> health_response" where
  "ReadinessHandler now h = (let r = Check now h in
     (if hr_Status r = Unhealthy \<or> hr_State r = StateStarting then 503 else 200, r))"

definition GetStatus :: "string \<Rightarrow> health_checker \<Rightarrow> check_status option" where
  "GetStatus name h = hk_statuses h name"

definition IsHealthy :: "time \<Rightarrow> health_checker \<Rightarrow> bool" where
  "IsHealthy now h \<longleftrightarrow> hr_Status (Check now h) = Healthy"

definition IsReady :: "time \<Rightarrow> health_checker \<Rightarrow> bool" where
  "IsReady now h \<longleftrightarrow> hr_Status (Check now h) \<noteq> Unhealthy \<and> hk_state h \<noteq> StateStarting"

section \<open>Steps\<close>

text \<open>
  \<open>stop_begin\<close> and \<open>stop_end\<close> are the two halves of \<open>Stop\<close>, around its wait for the loop; a loop in
  its select may take the tick although the stop channel is closed.
\<close>

inductive health_step :: "health_checker \<Rightarrow> health_checker \<Rightarrow> bool" where
  add: "health_step h (AddCheckWithSeverity name sev h)"
| remove: "health_step h (RemoveCheck name h)"
| on_change: "health_step h (OnStateChange h)"
| start: "\<not> hk_started h \<Longrightarrow>
    health_step h (h\<lparr>hk_started := True, hk_runs := hk_runs h @ [new_run now h], hk_loop := LoopRun (length (hk_runs h))\<rparr>)"
| tick: "hk_loop h = LoopSelect \<Longrightarrow>
    health_step h (h\<lparr>hk_runs := hk_runs h @ [new_run now h], hk_loop := LoopRun (length (hk_runs h))\<rparr>)"
| run_now: "health_step h (h\<lparr>hk_runs := hk_runs h @ [new_run now h]\<rparr>)"
| check: "i < length (hk_runs h) \<Longrightarrow> cr_phase (hk_runs h ! i) = Checking \<Longrightarrow> cr_pending (hk_runs h ! i) name \<noteq> None \<Longrightarrow>
    health_step h (check_answered i name e now h)"
| decide: "i < length (hk_runs h) \<Longrightarrow> cr_phase (hk_runs h ! i) = Checking \<Longrightarrow> cr_pending (hk_runs h ! i) = Map.empty \<Longrightarrow>
    health_step h (run_decided i h)"
| publish: "i < length (hk_runs h) \<Longrightarrow> cr_phase (hk_runs h ! i) = Decided \<Longrightarrow> health_step h (run_published i h)"
| next_turn: "hk_loop h = LoopRun i \<Longrightarrow> cr_phase (hk_runs h ! i) = Published \<Longrightarrow> health_step h (h\<lparr>hk_loop := LoopSelect\<rparr>)"
| stop_begin: "hk_started h \<Longrightarrow> \<not> hk_stopped h \<Longrightarrow>
    health_step h ((SetState StateShuttingDown now h)\<lparr>hk_stopped := True\<rparr>)"
| loop_exit: "hk_loop h = LoopSelect \<Longrightarrow> hk_stopped h \<Longrightarrow> health_step h (h\<lparr>hk_loop := LoopExited\<rparr>)"
| stop_end: "hk_started h \<Longrightarrow> hk_stopped h \<Longrightarrow> hk_loop h = LoopExited \<Longrightarrow> health_step h (SetState StateOffline now h)"

inductive health_reachable :: "health_config \<Rightarrow> health_checker \<Rightarrow> bool" for config where
  new: "health_reachable config (NewChecker config now)"
| step: "health_reachable config h \<Longrightarrow> health_step h h' \<Longrightarrow> health_reachable config h'"

section \<open>Facts\<close>

text \<open>How many of the last answers were failures.\<close>

definition fails_in_row :: "(err option \<times> time) list \<Rightarrow> nat" where
  "fails_in_row es = length (takeWhile (\<lambda>(e, now). e \<noteq> None) (rev es))"

lemma fails_in_row_snoc:
  "fails_in_row (es @ [(e, now)]) = (if e = None then 0 else Suc (fails_in_row es))"
  by (simp add: fails_in_row_def)

definition answer_check :: "string \<Rightarrow> check_severity \<Rightarrow> err option \<times> time \<Rightarrow> health_checker \<Rightarrow> health_checker" where
  "answer_check name sev a h = snd (updateCheckStatus name sev (fst a) (snd a) h)"

lemma answer_check_config [simp]: "hk_config (answer_check name sev a h) = hk_config h"
  by (simp add: answer_check_def updateCheckStatus_def split: prod.split)

lemma answers_config [simp]: "hk_config (fold (answer_check name sev) es h) = hk_config h"
  by (induction es arbitrary: h) simp_all

text \<open>
  What a history of answers makes of a status.  The count goes on from \<open>c0\<close>, what it was when the check was
  registered, until the first success.
\<close>

definition fails_counted :: "int \<Rightarrow> (err option \<times> time) list \<Rightarrow> int" where
  "fails_counted c0 es = int (fails_in_row es) + (if None \<in> fst ` set es then 0 else c0)"

lemma fails_counted_snoc:
  "fails_counted c0 (es @ [(Some x, now)]) = fails_counted c0 es + 1" "fails_counted c0 (es @ [(None, now)]) = 0"
  by (simp_all add: fails_counted_def fails_in_row_snoc)

definition status_after :: "int \<Rightarrow> int \<Rightarrow> (err option \<times> time) list \<Rightarrow> health_status" where
  "status_after threshold c0 es =
     (if es = [] then Unknown
      else if threshold \<le> fails_counted c0 es then Unhealthy
      else if None \<in> fst ` set es then Healthy else Degraded)"

lemma history_status:
  fixes name :: string
  assumes "0 < hc_FailureThreshold (hk_config h)"
  defines "c0 \<equiv> hk_failureCounts h name" and "n \<equiv> hc_FailureThreshold (hk_config h)"
  shows "\<exists>st. hk_statuses (fold (answer_check name sev) es (AddCheckWithSeverity name sev h)) name = Some st
    \<and> cs_Status st = status_after n c0 es
    \<and> hk_failureCounts (fold (answer_check name sev) es (AddCheckWithSeverity name sev h)) name = fails_counted c0 es"
proof (induction es rule: rev_induct)
  case Nil
  then show ?case
    by (simp add: AddCheckWithSeverity_def new_status_def status_after_def fails_counted_def fails_in_row_def c0_def)
next
  case (snoc a es)
  define h1 where "h1 = fold (answer_check name sev) es (AddCheckWithSeverity name sev h)"
  have step: "fold (answer_check name sev) (es @ [a]) (AddCheckWithSeverity name sev h) = answer_check name sev a h1"
    by (simp add: h1_def)
  obtain e now where a: "a = (e, now)" by (rule prod.exhaust)
  obtain st where st: "hk_statuses h1 name = Some st" "cs_Status st = status_after n c0 es"
    "hk_failureCounts h1 name = fails_counted c0 es"
    using snoc.IH unfolding h1_def by blast
  have c: "hc_FailureThreshold (hk_config h1) = n" by (simp add: h1_def AddCheckWithSeverity_def n_def)
  have healthy: "status_after n c0 es = Healthy \<longleftrightarrow> es \<noteq> [] \<and> fails_counted c0 es < n \<and> None \<in> fst ` set es"
    by (auto simp: status_after_def)
  show ?case
  proof (cases e)
    case None
    have "status_after n c0 (es @ [a]) = Healthy"
      using assms(1) by (simp add: status_after_def a None fails_counted_snoc n_def)
    then show ?thesis unfolding step using st a None
      by (simp add: answer_check_def updateCheckStatus_def next_status_def Let_def fails_counted_snoc)
  next
    case (Some x)
    have s: "status_after n c0 (es @ [a]) = (if n \<le> fails_counted c0 es + 1 then Unhealthy
        else if status_after n c0 es = Healthy then Healthy else Degraded)"
      unfolding healthy by (auto simp: status_after_def a Some fails_counted_snoc)
    show ?thesis unfolding step s using st a c Some
      by (simp add: answer_check_def updateCheckStatus_def next_status_def Let_def fails_counted_snoc)
  qed
qed

text \<open>A run's flags tell of the statuses it has; what it has answered is no longer pending.\<close>

definition has_unhealthy :: "string \<Rightarrow> health_response \<Rightarrow> bool" where
  "has_unhealthy sev r \<longleftrightarrow> (\<exists>n st. hr_Checks r n = Some st \<and> cs_Status st = Unhealthy \<and> cs_Severity st = sev)"

definition status_by_severity :: "health_response \<Rightarrow> health_status" where
  "status_by_severity r = (if has_unhealthy ''critical'' r then Unhealthy
     else if has_unhealthy ''warning'' r then Degraded else Healthy)"

definition run_ok :: "check_run \<Rightarrow> bool" where
  "run_ok r \<longleftrightarrow> cr_hasCriticalFailure r = has_unhealthy ''critical'' (cr_response r)
     \<and> cr_hasWarningFailure r = has_unhealthy ''warning'' (cr_response r)
     \<and> dom (cr_pending r) \<inter> dom (hr_Checks (cr_response r)) = {}
     \<and> (cr_phase r \<noteq> Checking \<longrightarrow> hr_Status (cr_response r) = status_by_severity (cr_response r))"

definition health_ok :: "health_checker \<Rightarrow> bool" where
  "health_ok h \<longleftrightarrow> list_all run_ok (hk_runs h)
     \<and> (\<forall>r. hk_cachedResult h = Some r \<longrightarrow> hr_Status r = status_by_severity r)
     \<and> (hk_stopped h \<longrightarrow> hk_state h \<in> {StateShuttingDown, StateOffline})
     \<and> (\<not> hk_stopped h \<longrightarrow> hk_reported h = [])"

lemma severity_String_eq [simp]:
  "severity_String s = ''critical'' \<longleftrightarrow> s = SeverityCritical" "severity_String s = ''warning'' \<longleftrightarrow> s = SeverityWarning"
  by (cases s; simp add: severity_String_def)+

lemma new_run_ok: "run_ok (new_run now h)"
  by (simp add: run_ok_def new_run_def has_unhealthy_def)

lemma has_unhealthy_upd:
  assumes "hr_Checks r name = None"
  shows "has_unhealthy sev (r\<lparr>hr_Checks := (hr_Checks r)(name \<mapsto> st)\<rparr>)
     \<longleftrightarrow> has_unhealthy sev r \<or> (cs_Status st = Unhealthy \<and> cs_Severity st = sev)"
proof
  assume "has_unhealthy sev (r\<lparr>hr_Checks := (hr_Checks r)(name \<mapsto> st)\<rparr>)"
  then obtain n s where "((hr_Checks r)(name \<mapsto> st)) n = Some s" "cs_Status s = Unhealthy" "cs_Severity s = sev"
    by (auto simp: has_unhealthy_def)
  then show "has_unhealthy sev r \<or> (cs_Status st = Unhealthy \<and> cs_Severity st = sev)"
    by (cases "n = name") (auto simp: has_unhealthy_def)
next
  assume "has_unhealthy sev r \<or> (cs_Status st = Unhealthy \<and> cs_Severity st = sev)"
  then show "has_unhealthy sev (r\<lparr>hr_Checks := (hr_Checks r)(name \<mapsto> st)\<rparr>)"
  proof
    assume "has_unhealthy sev r"
    then obtain n s where n: "hr_Checks r n = Some s" "cs_Status s = Unhealthy" "cs_Severity s = sev"
      by (auto simp: has_unhealthy_def)
    then have "n \<noteq> name" using assms by auto
    then show ?thesis unfolding has_unhealthy_def using n by (intro exI [of _ n] exI [of _ s]) simp
  next
    assume "cs_Status st = Unhealthy \<and> cs_Severity st = sev"
    then show ?thesis unfolding has_unhealthy_def by (intro exI [of _ name] exI [of _ st]) simp
  qed
qed

lemma has_unhealthy_cong: "hr_Checks r = hr_Checks r' \<Longrightarrow> has_unhealthy sev r = has_unhealthy sev r'"
  by (simp add: has_unhealthy_def)

lemma status_by_severity_cong: "hr_Checks r = hr_Checks r' \<Longrightarrow> status_by_severity r = status_by_severity r'"
  using has_unhealthy_cong [of r r'] by (simp add: status_by_severity_def)

lemma checks_only [simp]:
  "has_unhealthy sev (r\<lparr>hr_Status := x\<rparr>) = has_unhealthy sev r" "has_unhealthy sev (r\<lparr>hr_State := s\<rparr>) = has_unhealthy sev r"
  "status_by_severity (r\<lparr>hr_Status := x\<rparr>) = status_by_severity r"
  "status_by_severity (r\<lparr>hr_State := s\<rparr>) = status_by_severity r"
  by (rule has_unhealthy_cong status_by_severity_cong, simp)+

lemma next_status_severity:
  "next_status thr name sev old fails e now = (st, n) \<Longrightarrow> cs_Severity st = severity_String sev"
  by (auto simp: next_status_def new_status_def Let_def split: option.splits if_splits)

lemma record_check_ok:
  assumes "run_ok r" "cr_pending r name = Some sev" "cr_phase r = Checking" "cs_Severity st = severity_String sev"
  shows "run_ok (record_check name sev st r)"
proof -
  have "name \<in> dom (cr_pending r)" using assms(2) by auto
  then have "hr_Checks (cr_response r) name = None" using assms(1) by (auto simp: run_ok_def)
  then show ?thesis using assms
    by (auto simp: run_ok_def record_check_def has_unhealthy_upd)
qed

lemma overall_status_ok: "run_ok r \<Longrightarrow> overall_status r = status_by_severity (cr_response r)"
  by (simp add: run_ok_def overall_status_def status_by_severity_def)

lemma step_health_ok: "health_step h h' \<Longrightarrow> health_ok h \<Longrightarrow> health_ok h'"
proof (induction rule: health_step.induct)
  case (check i h name e now)
  obtain sev where sev: "cr_pending (hk_runs h ! i) name = Some sev" using check(3) by auto
  obtain st n where ns: "next_status (hc_FailureThreshold (hk_config h)) name sev (hk_statuses h name) (hk_failureCounts h name) e now
      = (st, n)" by (rule prod.exhaust)
  have "run_ok (hk_runs h ! i)" using check(1,4) by (simp add: health_ok_def list_all_length)
  then have "run_ok (record_check name sev st (hk_runs h ! i))"
    using record_check_ok [OF _ sev check(2)] next_status_severity [OF ns] by simp
  then show ?case using check sev ns
    by (simp add: check_answered_def updateCheckStatus_def health_ok_def put_run_def list_all_length nth_list_update)
next
  case (decide i h)
  let ?r = "hk_runs h ! i"
  have r: "run_ok ?r" using decide(1,4) by (simp add: health_ok_def list_all_length)
  have "run_ok (?r\<lparr>cr_response := (cr_response ?r)\<lparr>hr_Status := overall_status ?r\<rparr>, cr_phase := Decided\<rparr>)"
    using r overall_status_ok [OF r] by (simp add: run_ok_def)
  moreover have "next_state st s \<in> {StateShuttingDown, StateOffline}" if "s \<in> {StateShuttingDown, StateOffline}" for st s
    using that by (auto simp: next_state_def)
  ultimately show ?case using decide
    by (simp add: run_decided_def Let_def health_ok_def put_run_def updateOperationalState_def list_all_length nth_list_update)
next
  case (publish i h)
  let ?r = "hk_runs h ! i"
  have r: "run_ok ?r" using publish(1,3) by (simp add: health_ok_def list_all_length)
  have p: "hr_Status (cr_response ?r) = status_by_severity (cr_response ?r)" using r publish(2) by (simp add: run_ok_def)
  then have "run_ok (?r\<lparr>cr_response := (cr_response ?r)\<lparr>hr_State := hk_state h\<rparr>, cr_phase := Published\<rparr>)"
    using r by (simp add: run_ok_def)
  then show ?case using publish p
    by (simp add: run_published_def Let_def health_ok_def put_run_def list_all_length nth_list_update)
qed (auto simp: health_ok_def AddCheckWithSeverity_def RemoveCheck_def OnStateChange_def SetState_def new_run_ok)

lemma reachable_health_ok: "health_reachable config h \<Longrightarrow> health_ok h"
proof (induction rule: health_reachable.induct)
  case (new now)
  then show ?case by (simp add: health_ok_def NewChecker_def)
qed (rule step_health_ok)

definition healthy_in_row :: "health_status list \<Rightarrow> nat" where
  "healthy_in_row rs = length (takeWhile (\<lambda>s. s = Healthy) (rev rs))"

lemma healthy_in_row_snoc: "healthy_in_row (rs @ [s]) = (if s = Healthy then Suc (healthy_in_row rs) else 0)"
  by (simp add: healthy_in_row_def)

lemma healthy_in_row_le: "healthy_in_row rs \<le> length rs"
  unfolding healthy_in_row_def using length_takeWhile_le [of "\<lambda>s. s = Healthy" "rev rs"] by simp

definition state_after :: "health_status list \<Rightarrow> operational_state" where
  "state_after rs =
     (if rs = [] then StateStarting
      else if healthy_in_row rs = 0 then StateDegraded
      else if healthy_in_row rs = length rs \<or> 2 \<le> healthy_in_row rs then StateRunning
      else StateRecovering)"

section \<open>Properties\<close>

text \<open>
  C24: The status of a check is a function of its answers since it was registered.  It is unknown before the
  first answer.  After that, with a positive \<open>FailureThreshold\<close>, it is unhealthy exactly when the failures counted since the last success have
  reached \<open>FailureThreshold\<close>; otherwise it is healthy if some answer was a success, and degraded if none was.
  The count starts from what it was at the registration, which is 0 for a new name but what an earlier
  registration left when a check is registered again.  In particular one success ends an unhealthy status,
  whatever \<open>RecoveryThreshold\<close> is.
\<close>

theorem status_of_history:
  assumes "0 < hc_FailureThreshold (hk_config h)"
  shows "map_option cs_Status (hk_statuses (fold (answer_check name sev) es (AddCheckWithSeverity name sev h)) name)
    = Some (status_after (hc_FailureThreshold (hk_config h)) (hk_failureCounts h name) es)"
  using history_status [OF assms, of name sev es] by auto

abbreviation two_fails :: health_checker where
  "two_fails \<equiv> fold (answer_check ''db'' SeverityCritical) [(Some ErrConnectionClosed, 1), (Some ErrConnectionClosed, 2)]
     (AddCheckWithSeverity ''db'' SeverityCritical (NewChecker \<lparr>hc_ServiceName = [], hc_ServiceVersion = [], hc_CheckTimeout = 0,
         hc_CheckInterval = 0, hc_FailureThreshold = 0, hc_RecoveryThreshold = 0\<rparr> 0))"

lemma two_fails_count: "hk_failureCounts two_fails ''db'' = 2" "hc_FailureThreshold (hk_config two_fails) = 3"
  by (simp_all add: answer_check_def updateCheckStatus_def next_status_def Let_def AddCheckWithSeverity_def NewChecker_def
      health_defaults_def)

text \<open>A check registered again after two failures is unhealthy after the next one, and healthy after a success.\<close>

theorem status_of_history_witness:
  "map_option cs_Status (hk_statuses (fold (answer_check ''db'' SeverityCritical) [(Some ErrConnectionClosed, 3)]
      (AddCheckWithSeverity ''db'' SeverityCritical two_fails)) ''db'') = Some Unhealthy
   \<and> map_option cs_Status (hk_statuses (fold (answer_check ''db'' SeverityCritical) [(Some ErrConnectionClosed, 3), (None, 4)]
      (AddCheckWithSeverity ''db'' SeverityCritical two_fails)) ''db'') = Some Healthy"
proof -
  have "0 < hc_FailureThreshold (hk_config two_fails)" by (simp only: two_fails_count)
  from status_of_history [OF this, of "''db''" SeverityCritical]
  show ?thesis unfolding two_fails_count
    by (simp only:) (simp add: status_after_def fails_counted_def fails_in_row_def)
qed

text \<open>
  C25: However runs, registrations and removals interleave, the published result is unhealthy exactly when a
  critical check of it is unhealthy, and degraded exactly when none is but a check of severity warning
  is; informational checks never matter.
\<close>

theorem published_by_severity:
  assumes "health_reachable config h" "hk_cachedResult h = Some r"
  shows "hr_Status r = (if has_unhealthy ''critical'' r then Unhealthy
    else if has_unhealthy ''warning'' r then Degraded else Healthy)"
  using reachable_health_ok [OF assms(1)] assms(2) by (simp add: health_ok_def status_by_severity_def)

definition plain_health :: health_config where
  "plain_health = \<lparr>hc_ServiceName = ''gateway'', hc_ServiceVersion = ''1'', hc_CheckTimeout = 0, hc_CheckInterval = 0,
     hc_FailureThreshold = 1, hc_RecoveryThreshold = 0\<rparr>"

abbreviation warned_health :: health_checker where
  "warned_health \<equiv> run_published 0 (run_decided 0 (check_answered 0 ''ntp'' (Some ErrConnectionClosed) 2
     (let h = AddCheckWithSeverity ''ntp'' SeverityWarning (NewChecker plain_health 0) in h\<lparr>hk_runs := hk_runs h @ [new_run 1 h]\<rparr>)))"

lemmas health_defs = new_run_def AddCheckWithSeverity_def NewChecker_def check_answered_def updateCheckStatus_def put_run_def
  record_check_def run_decided_def run_published_def updateOperationalState_def overall_status_def next_status_def
  new_status_def plain_health_def health_defaults_def next_state_def Let_def

lemma warned_reachable: "health_reachable plain_health warned_health"
proof -
  let ?a = "AddCheckWithSeverity ''ntp'' SeverityWarning (NewChecker plain_health 0)"
  let ?b = "?a\<lparr>hk_runs := hk_runs ?a @ [new_run 1 ?a]\<rparr>"
  let ?c = "check_answered 0 ''ntp'' (Some ErrConnectionClosed) 2 ?b"
  have "health_reachable plain_health ?a" by (rule health_reachable.step [OF health_reachable.new health_step.add])
  then have "health_reachable plain_health ?b" by (rule health_reachable.step [OF _ health_step.run_now])
  then have "health_reachable plain_health ?c"
    by (rule health_reachable.step [OF _ health_step.check]) (simp_all add: health_defs)
  then have "health_reachable plain_health (run_decided 0 ?c)"
    by (rule health_reachable.step [OF _ health_step.decide]) (simp_all add: health_defs fun_eq_iff)
  then show ?thesis
    unfolding Let_def by (rule health_reachable.step [OF _ health_step.publish]) (simp_all add: health_defs)
qed

theorem published_by_severity_witness:
  "\<exists>r. hk_cachedResult warned_health = Some r \<and> hr_Status r = Degraded \<and> \<not> has_unhealthy ''critical'' r
     \<and> has_unhealthy ''warning'' r"
proof -
  obtain r where r: "hk_cachedResult warned_health = Some r" by (simp add: health_defs)
  have "hr_Status r = Degraded" using r by (simp add: health_defs) auto
  then show ?thesis using r published_by_severity [OF warned_reachable r] by (auto split: if_splits)
qed

text \<open>
  The operational state is a function of the results of the runs so far: running when every result was
  healthy or the last two were, degraded when the last one was not healthy, recovering after a single
  healthy result.
\<close>

theorem state_of_history:
  assumes "hk_state h = StateStarting" "Unknown \<notin> set rs"
  shows "hk_state (fold updateOperationalState rs h) = state_after rs"
  using assms(2)
proof (induction rs rule: rev_induct)
  case Nil
  then show ?case using assms(1) by (simp add: state_after_def)
next
  case (snoc s rs)
  have "hk_state (fold updateOperationalState (rs @ [s]) h) = next_state s (hk_state (fold updateOperationalState rs h))"
    by (simp only: fold_append fold_simps comp_apply) (simp add: updateOperationalState_def)
  also have "hk_state (fold updateOperationalState rs h) = state_after rs" using snoc by simp
  also have "next_state s (state_after rs) = state_after (rs @ [s])"
    using snoc.prems healthy_in_row_le [of rs]
    by (cases s) (auto simp: next_state_def state_after_def healthy_in_row_snoc)
  finally show ?case .
qed

theorem state_of_history_witness:
  "hk_state (fold updateOperationalState [Healthy, Degraded, Healthy, Healthy] (NewChecker plain_health 0)) = StateRunning"
  by (subst state_of_history) (simp_all add: NewChecker_def state_after_def healthy_in_row_def)

text \<open>
  C26: Shutting down is final: once \<open>Stop\<close> has begun, no result of a run still under way brings the service
  back, and the liveness probe fails.
\<close>

theorem shutdown_is_final:
  assumes "health_reachable config h" "hk_stopped h"
  shows "(hk_state h = StateShuttingDown \<or> hk_state h = StateOffline) \<and> fst (LivenessHandler now h) = 503"
  using reachable_health_ok [OF assms(1)] assms(2) by (auto simp: health_ok_def LivenessHandler_def)

text \<open>A service that is stopped while a run has still to be decided.\<close>

theorem shutdown_is_final_witness:
  "\<exists>h. health_reachable plain_health h \<and> hk_stopped h \<and> cr_phase (hk_runs h ! 0) = Decided
     \<and> hk_state h = StateShuttingDown \<and> fst (LivenessHandler 9 h) = 503"
proof -
  let ?a = "NewChecker plain_health 0"
  let ?b = "?a\<lparr>hk_started := True, hk_runs := hk_runs ?a @ [new_run 1 ?a], hk_loop := LoopRun (length (hk_runs ?a))\<rparr>"
  let ?c = "(SetState StateShuttingDown 2 ?b)\<lparr>hk_stopped := True\<rparr>"
  let ?d = "run_decided 0 ?c"
  have "health_reachable plain_health ?b"
    by (rule health_reachable.step [OF health_reachable.new health_step.start]) (simp add: NewChecker_def)
  then have "health_reachable plain_health ?c"
    by (rule health_reachable.step [OF _ health_step.stop_begin]) (simp_all add: NewChecker_def)
  then have r: "health_reachable plain_health ?d"
    by (rule health_reachable.step [OF _ health_step.decide]) (simp_all add: NewChecker_def SetState_def new_run_def)
  have s: "hk_stopped ?d" "cr_phase (hk_runs ?d ! 0) = Decided" "hk_state ?d = StateShuttingDown"
    by (simp_all add: health_defs SetState_def)
  show ?thesis using shutdown_is_final [OF r s(1), of 9] r s by blast
qed

text \<open>
  The transitions that the checks cause are never reported: the callback of \<open>OnStateChange\<close> is called by
  \<open>SetState\<close> only, that is when the service stops.
\<close>

theorem check_transitions_unreported:
  assumes "health_reachable config h" "\<not> hk_stopped h"
  shows "hk_reported h = []"
  using reachable_health_ok [OF assms(1)] assms(2) by (simp add: health_ok_def)

theorem check_transitions_unreported_witness:
  "hk_state warned_health = StateDegraded \<and> hk_reported warned_health = []"
proof
  show "hk_state warned_health = StateDegraded" by (simp add: health_defs)
  show "hk_reported warned_health = []"
    by (rule check_transitions_unreported [OF warned_reachable]) (simp add: health_defs)
qed

text \<open>While the service shuts down, the readiness probe goes on answering from the cached result.\<close>

theorem ready_while_shutting_down:
  assumes "hk_cachedResult h = Some r" "hr_Status r \<noteq> Unhealthy" "hr_State r \<noteq> StateStarting" "hk_state h = StateShuttingDown"
  shows "fst (ReadinessHandler now h) = 200 \<and> fst (LivenessHandler now h) = 503"
  using assms by (simp add: ReadinessHandler_def LivenessHandler_def Check_def)

text \<open>A run that began before a check was removed brings the status of the check back, for good.\<close>

theorem removed_check_returns:
  "\<exists>h. health_reachable plain_health h \<and> hk_checks h = Map.empty \<and> GetStatus ''db'' h \<noteq> None"
proof -
  let ?a = "AddCheckWithSeverity ''db'' SeverityCritical (NewChecker plain_health 0)"
  let ?b = "?a\<lparr>hk_runs := hk_runs ?a @ [new_run 1 ?a]\<rparr>"
  let ?c = "RemoveCheck ''db'' ?b"
  let ?d = "check_answered 0 ''db'' None 2 ?c"
  have "health_reachable plain_health ?a" by (rule health_reachable.step [OF health_reachable.new health_step.add])
  then have "health_reachable plain_health ?b" by (rule health_reachable.step [OF _ health_step.run_now])
  then have "health_reachable plain_health ?c" by (rule health_reachable.step [OF _ health_step.remove])
  then have "health_reachable plain_health ?d"
    by (rule health_reachable.step [OF _ health_step.check]) (simp_all add: health_defs RemoveCheck_def)
  moreover have "hk_checks ?d = Map.empty" "GetStatus ''db'' ?d \<noteq> None"
    by (simp_all add: health_defs RemoveCheck_def GetStatus_def fun_eq_iff)
  ultimately show ?thesis by blast
qed

end
