(* ===== verification/Ntp_Checker.thy ===== *)
theory Ntp_Checker
  imports Go_Float_Exact Retry_Loop Byte_Codec
begin

text \<open>
  \<open>internal/health/ntp_checker.go\<close>: one SNTP exchange, the offset of the clocks, what is remembered of it
  and what the health check says.  A time counts the nanoseconds since the zero time; the
  exchange with the server, the clock and the year of a time in the local time zone are parameters.
\<close>

section \<open>Timestamps\<close>

definition ntpEpochOffset :: int where
  "ntpEpochOffset = 2208988800"

text \<open>\<open>math.Round\<close> of a number that is not negative, as an integer.\<close>

fun fp_round_half :: "fp \<Rightarrow> int" where
  "fp_round_half (FFin s m e) =
     signed_mag s (if 0 \<le> e then m * 2 ^ nat e else (m + 2 ^ (nat (- e) - 1)) div 2 ^ nat (- e))"
| "fp_round_half x = 0"

text \<open>\<open>int64(math.Round(float64(fraction) * 1e9 / (1 << 32)))\<close>.\<close>

definition ntp_nanos :: "u32 \<Rightarrow> int" where
  "ntp_nanos fraction = fp_round_half (f64_dec
     (f64_div (f64_mul (f64_of_int (uint fraction)) 0x41CDCD6500000000) 0x41F0000000000000))"

definition ntpTimestampToTime :: "u32 \<Rightarrow> u32 \<Rightarrow> time" where
  "ntpTimestampToTime seconds fraction = unix_epoch + (uint seconds - ntpEpochOffset) * second + ntp_nanos fraction"

section \<open>State\<close>

record ntp_config =
  nt_Enabled :: bool
  nt_Server :: string
  nt_CheckInterval :: duration
  nt_WarnThreshold :: duration
  nt_CritThreshold :: duration

text \<open>\<open>None\<close> is the zero time: no exchange has succeeded yet.\<close>

record ntp_checker =
  nk_config :: ntp_config
  nk_lastOffset :: duration
  nk_lastCheck :: "time option"
  nk_lastErr :: "err option"

text \<open>
  \<open>ne_has_port\<close> says whether \<open>net.SplitHostPort\<close> accepts an address, \<open>ne_write\<close> sends the request and \<open>ne_read\<close> is what the
  read fills of the 48 bytes.
\<close>

record 'w ntp_env =
  ne_now :: "'w \<Rightarrow> time"
  ne_has_port :: "string \<Rightarrow> bool"
  ne_dial :: "string \<Rightarrow> 'w \<Rightarrow> err option \<times> 'w"
  ne_deadline :: "'w \<Rightarrow> err option \<times> 'w"
  ne_write :: "bytes \<Rightarrow> 'w \<Rightarrow> err option \<times> 'w"
  ne_read :: "'w \<Rightarrow> (err + bytes) \<times> 'w"
  ne_Year :: "time \<Rightarrow> int"

definition NewNTPChecker :: "ntp_config \<Rightarrow> ntp_checker" where
  "NewNTPChecker c = \<lparr>nk_config = c\<lparr>
       nt_Server := (if nt_Server c = [] then ''pool.ntp.org'' else nt_Server c),
       nt_CheckInterval := (if nt_CheckInterval c \<le> 0 then 300 * second else nt_CheckInterval c),
       nt_WarnThreshold := (if nt_WarnThreshold c \<le> 0 then 500 * millisecond else nt_WarnThreshold c),
       nt_CritThreshold := (if nt_CritThreshold c \<le> 0 then 2 * second else nt_CritThreshold c)\<rparr>,
     nk_lastOffset = 0, nk_lastCheck = None, nk_lastErr = None\<rparr>"

section \<open>One exchange\<close>

definition ntp_request :: bytes where
  "ntp_request = 0x23 # replicate 47 0"

text \<open>What the buffer of 48 bytes holds after the read.\<close>

definition filled :: "bytes \<Rightarrow> bytes" where
  "filled bs = take 48 (bs @ replicate 48 0)"

text \<open>Halving truncates towards zero.\<close>

definition half :: "int \<Rightarrow> int" where
  "half d = sgn d * (\<bar>d\<bar> div 2)"

definition ntp_offset :: "time \<Rightarrow> time \<Rightarrow> time \<Rightarrow> time \<Rightarrow> duration" where
  "ntp_offset t0 t1 t2 t3 = half (wrap64 (time_sub t1 t0 + time_sub t2 t3))"

text \<open>\<open>net.JoinHostPort\<close> puts a host with a colon into brackets.\<close>

definition ntp_address :: "'w ntp_env \<Rightarrow> string \<Rightarrow> string" where
  "ntp_address env server =
     (if ne_has_port env server then server
      else if CHR '':'' \<in> set server then ''['' @ server @ '']:123'' else server @ '':123'')"

definition queryNTP :: "'w ntp_env \<Rightarrow> ntp_checker \<Rightarrow> 'w \<Rightarrow> (err + duration) \<times> 'w" where
  "queryNTP env n w = (case ne_dial env (ntp_address env (nt_Server (nk_config n))) w of
       (Some e, w1) \<Rightarrow> (Inl (WrapPre (''dial ntp server '' @ nt_Server (nk_config n) @ '': '') e), w1)
     | (None, w1) \<Rightarrow>
         (case ne_deadline env w1 of
            (Some e, w2) \<Rightarrow> (Inl (WrapPre ''set deadline: '' e), w2)
          | (None, w2) \<Rightarrow>
              (let t0 = ne_now env w2 in
               case ne_write env ntp_request w2 of
                 (Some e, w3) \<Rightarrow> (Inl (WrapPre ''send ntp request: '' e), w3)
               | (None, w3) \<Rightarrow> (case ne_read env w3 of
                     (Inl e, w4) \<Rightarrow> (Inl (WrapPre ''read ntp response: '' e), w4)
                   | (Inr bs, w4) \<Rightarrow>
                       (let t3 = ne_now env w4; r = filled bs;
                            u = (\<lambda>i. word_of_nat (be_val (take 4 (drop i r))) :: u32);
                            t1 = ntpTimestampToTime (u 32) (u 36);
                            t2 = ntpTimestampToTime (u 40) (u 44)
                        in if t2 = 0 \<or> ne_Year env t2 < 2000
                           then (Inl (Plain ''invalid ntp response: zero transmit timestamp''), w4)
                           else (Inr (ntp_offset t0 t1 t2 t3), w4))))))"

section \<open>What is remembered\<close>

definition recordResult :: "time \<Rightarrow> err + duration \<Rightarrow> ntp_checker \<Rightarrow> ntp_checker" where
  "recordResult now r n = (case r of
       Inl e \<Rightarrow> n\<lparr>nk_lastErr := Some e\<rparr>
     | Inr offset \<Rightarrow> n\<lparr>nk_lastOffset := offset, nk_lastCheck := Some now, nk_lastErr := None\<rparr>)"

definition runCheck :: "'w ntp_env \<Rightarrow> ntp_checker \<times> 'w \<Rightarrow> ntp_checker \<times> 'w" where
  "runCheck env st = (case st of (n, w) \<Rightarrow> (case queryNTP env n w of (r, w1) \<Rightarrow> (recordResult (ne_now env w1) r n, w1)))"

text \<open>The number in the text of the error is left out.\<close>

definition drift_error :: err where
  "drift_error = Plain ''clock drift exceeds critical threshold''"

definition ntp_verdict :: "ntp_checker \<Rightarrow> err option" where
  "ntp_verdict n = (case nk_lastErr n of
       Some e \<Rightarrow> Some (Plain (''last ntp check failed: '' @ err_text e))
     | None \<Rightarrow> if nt_CritThreshold (nk_config n) < \<bar>nk_lastOffset n\<bar> then Some drift_error else None)"

definition ntp_HealthCheck :: "'w ntp_env \<Rightarrow> ntp_checker \<times> 'w \<Rightarrow> err option \<times> ntp_checker \<times> 'w" where
  "ntp_HealthCheck env st = (case st of (n, w) \<Rightarrow>
     (case nk_lastCheck n of
        Some t \<Rightarrow> (ntp_verdict n, (n, w))
      | None \<Rightarrow> (case queryNTP env n w of
            (Inl e, w1) \<Rightarrow> (Some (WrapPre ''ntp check failed: '' e), (n, w1))
          | (Inr d, w1) \<Rightarrow> (let n1 = recordResult (ne_now env w1) (Inr d) n in (ntp_verdict n1, (n1, w1))))))"

definition GetOffset :: "ntp_checker \<Rightarrow> duration" where
  "GetOffset n = nk_lastOffset n"

definition GetLastCheck :: "ntp_checker \<Rightarrow> time option" where
  "GetLastCheck n = nk_lastCheck n"

section \<open>Exact fractions\<close>

lemma f64_consts:
  "f64_dec 0x41CDCD6500000000 = FFin False (1953125 * 2 ^ 32) (- 23)"
  "f64_dec 0x41F0000000000000 = FFin False (2 ^ 52) (- 20)"
  by (simp_all add: f64_dec_def fp_decode_def decode_mag_def float_consts)

lemma half_up:
  fixes n j :: nat
  shows "(n * 2 ^ j + 2 ^ (22 + j)) div 2 ^ (23 + j) = (n + 2 ^ 22) div 2 ^ 23"
proof -
  have "(n * 2 ^ j + 2 ^ (22 + j)) div 2 ^ (23 + j) = (2 ^ j * (n + 2 ^ 22)) div (2 ^ j * 2 ^ 23)"
    by (simp add: power_add algebra_simps)
  then show ?thesis by (simp only: div_mult_mult1 power_not_zero zero_neq_numeral not_False_eq_True)
qed

lemma nanos_nat:
  assumes "0 < F" "F < 2 ^ 32"
  shows "fp_round_half (f64_dec (f64_div (f64_mul (f64_of_int (int F)) 0x41CDCD6500000000) 0x41F0000000000000))
    = int ((F * 1953125 + 2 ^ 22) div 2 ^ 23)"
proof -
  define n where "n = F * 1953125"
  have n: "0 < n" "n < 2 ^ 53" using assms by (simp_all add: n_def)
  define a where "a = 53 - bitlen F"
  have F53: "F < 2 ^ 53" using assms(2) by simp
  have F: "f64_dec (f64_of_int (int F)) = FFin False (F * 2 ^ a) (- int a)"
    unfolding a_def by (rule f64_of_nat_dec(1) [OF assms(1) F53])
  have bF: "bitlen F \<le> 32" by (rule bitlen_le [OF assms(2)])
  have bn: "bitlen n \<noteq> 0" using bitlen_upper [of n] n(1) by (metis less_one not_gr_zero power_0)
  have k: "53 \<le> a + 32 + bitlen n" using bF bn by (simp add: a_def)
  have nn: "- 1000 \<le> (9::int)" "(9::int) \<le> 900" by simp_all
  obtain j where jv: "j = 53 - bitlen n" and j2: "canonical f64 (n * 2 ^ j) (9 - int j)"
    and j3: "f64_dec (f64_enc (FFin False (n * 2 ^ (a + 32)) (9 - int (a + 32)))) = FFin False (n * 2 ^ j) (9 - int j)"
    by (rule f64_enc_scaled [OF n nn k])
  have j1: "j \<le> 53" by (simp add: jv)
  note j = j1 j2 j3
  have p: "f64_dec (f64_mul (f64_of_int (int F)) 0x41CDCD6500000000) = FFin False (n * 2 ^ j) (9 - int j)"
    unfolding f64_mul_def F f64_consts using j(3) by (simp add: n_def power_add algebra_simps)
  have b: "bitlen (2 ^ 52) = 53" using bitlen_mult_pow2 [of 1 52] by (simp add: bitlen_numeral)
  have q: "fp_div f64 (FFin False (n * 2 ^ j) (9 - int j)) (FFin False (2 ^ 52) (- 20))
      = FFin False ((n * 2 ^ j) * 2 ^ 57) ((- 23 - int j) - int 57)"
  proof -
    have d: "(n * 2 ^ j * 2 ^ 108) div 2 ^ 52 = n * 2 ^ j * 2 ^ 56" "(n * 2 ^ j * 2 ^ 108) mod 2 ^ 52 = 0" by simp_all
    show ?thesis unfolding fp_div.simps Let_def b using d by (simp add: f64_def)
  qed
  have c2: "canonical f64 (n * 2 ^ j) (- 23 - int j)" using j(1,2) n by (auto simp: canonical_def float_consts)
  have "f64_dec (f64_div (f64_mul (f64_of_int (int F)) 0x41CDCD6500000000) 0x41F0000000000000)
      = FFin False (n * 2 ^ j) (- 23 - int j)"
    unfolding f64_div_def p f64_consts q by (rule f64_dec_enc_FFin [OF c2 fp_round_scaled [OF c2]])
  moreover have "fp_round_half (FFin False (n * 2 ^ j) (- 23 - int j)) = int ((n * 2 ^ j + 2 ^ (22 + j)) div 2 ^ (23 + j))"
  proof -
    have e: "nat (- (- 23 - int j)) = 23 + j" "23 + j - 1 = 22 + j" by simp_all
    show ?thesis unfolding fp_round_half.simps e signed_mag_def by simp
  qed
  ultimately show ?thesis by (simp only: half_up n_def)
qed

lemma ntp_nanos_nat: "ntp_nanos fraction = (uint fraction * 10 ^ 9 + 2 ^ 31) div 2 ^ 32"
proof (cases "fraction = 0")
  case True
  then show ?thesis
    by (simp add: ntp_nanos_def f64_of_int_def fp_of_int_def f64_mul_def f64_div_def f64_consts f64_enc_def fp_encode_def
        fp_round_def f64_dec_def fp_decode_def decode_mag_def float_consts signed_mag_def)
next
  case False
  have F: "0 < unat fraction" "unat fraction < 2 ^ 32"
    using False unsigned_less [where ?'a = nat, of fraction] by (simp_all add: unat_gt_0)
  have u: "uint fraction = int (unat fraction)" by simp
  have "ntp_nanos fraction = int ((unat fraction * 1953125 + 2 ^ 22) div 2 ^ 23)"
    unfolding ntp_nanos_def u by (rule nanos_nat [OF F])
  also have "\<dots> = (int (unat fraction) * 1953125 + 2 ^ 22) div 2 ^ 23" by (simp add: zdiv_int)
  also have "\<dots> = (512 * (int (unat fraction) * 1953125 + 2 ^ 22)) div (512 * 2 ^ 23)" by (rule div_mult_mult1 [symmetric]) simp
  finally show ?thesis unfolding u by (simp add: algebra_simps)
qed

lemma offset_accuracy:
  assumes "0 \<le> d1" "0 \<le> d2" "\<bar>\<delta>\<bar> + d1 + d2 < 2 ^ 61" "t1 = t0 + d1 + \<delta>" "t3 = t2 - \<delta> + d2"
  shows "2 * \<bar>ntp_offset t0 t1 t2 t3 - \<delta>\<bar> \<le> \<bar>d1 - d2\<bar> + 1"
proof -
  have s: "time_sub t1 t0 = d1 + \<delta>" "time_sub t2 t3 = \<delta> - d2" using assms by (auto simp: time_sub_def)
  have "wrap64 (d1 + \<delta> + (\<delta> - d2)) = d1 - d2 + 2 * \<delta>" using assms by (subst wrap64_id) auto
  then have o: "ntp_offset t0 t1 t2 t3 = half (d1 - d2 + 2 * \<delta>)" by (simp add: ntp_offset_def s)
  have "\<bar>2 * half x - x\<bar> \<le> 1" for x :: int by (cases "x < 0") (auto simp: half_def sgn_if)
  from this [of "d1 - d2 + 2 * \<delta>"] show ?thesis unfolding o by arith
qed

section \<open>Properties\<close>

text \<open>
  The fraction of an NTP timestamp is converted exactly: the floating-point computation gives the
  nearest number of nanoseconds, halves rounded up, for each of the 2^32 fractions; the result may be a
  full second.
\<close>

theorem ntp_fraction_exact:
  "ntp_nanos fraction = (uint fraction * 10 ^ 9 + 2 ^ 31) div 2 ^ 32"
  by (rule ntp_nanos_nat)

text \<open>
  C27: The measured offset is that of the server's clock, up to half the difference of the two network
  delays (and the half nanosecond lost by halving): when the server's clock is ahead of ours by \<open>\<delta>\<close> and the
  request and the response are \<open>d1\<close> and \<open>d2\<close> on their way, the query returns \<open>\<delta>\<close> with an error of at most
  \<open>(|d1 - d2| + 1) / 2\<close>.  So a positive offset means that the gateway is behind.
\<close>

theorem ntp_offset_accurate:
  assumes "ne_dial env (ntp_address env (nt_Server (nk_config n))) w = (None, w0)" "ne_deadline env w0 = (None, w1)"
    and "ne_write env ntp_request w1 = (None, w2)"
    and "ne_read env w2 = (Inr (pre @ PutUint32 s1 @ PutUint32 f1 @ PutUint32 s2 @ PutUint32 f2), w3)" "length pre = 32"
    and "ntpTimestampToTime s1 f1 = ne_now env w1 + d1 + \<delta>" "ne_now env w3 = ntpTimestampToTime s2 f2 - \<delta> + d2"
    and "0 \<le> d1" "0 \<le> d2" "\<bar>\<delta>\<bar> + d1 + d2 < 2 ^ 61" "0 < ntpTimestampToTime s2 f2" "2000 \<le> ne_Year env (ntpTimestampToTime s2 f2)"
  shows "\<exists>offset. queryNTP env n w = (Inr offset, w3) \<and> 2 * \<bar>offset - \<delta>\<bar> \<le> \<bar>d1 - d2\<bar> + 1"
proof -
  have f: "filled (pre @ PutUint32 s1 @ PutUint32 f1 @ PutUint32 s2 @ PutUint32 f2)
      = pre @ PutUint32 s1 @ PutUint32 f1 @ PutUint32 s2 @ PutUint32 f2" using assms(5) by (simp add: filled_def)
  have v: "word_of_nat (be_val (PutUint32 x)) = x" for x :: u32
    using u32c.roundtrip [of x] by (simp add: Uint32_def)
  have q: "queryNTP env n w = (Inr (ntp_offset (ne_now env w1) (ntpTimestampToTime s1 f1) (ntpTimestampToTime s2 f2) (ne_now env w3)), w3)"
    using assms(1-5,11,12) by (simp add: queryNTP_def Let_def f v)
  show ?thesis unfolding q using offset_accuracy [OF assms(8-10,6,7)] by blast
qed

text \<open>A world is what the clock shows; the way to the server takes 5 ns, the way back 3 ns.\<close>

definition sample_ntp :: "time ntp_env" where
  "sample_ntp = \<lparr>ne_now = (\<lambda>w. w), ne_has_port = (\<lambda>a. False), ne_dial = (\<lambda>a w. (None, w)),
     ne_deadline = (\<lambda>w. (None, w)), ne_write = (\<lambda>bs w. (None, w)),
     ne_read = (\<lambda>w. (Inr (replicate 32 0 @ PutUint32 3900000000 @ PutUint32 0 @ PutUint32 3900000000 @ PutUint32 0), w + 8)),
     ne_Year = (\<lambda>t. 2023)\<rparr>"

theorem ntp_offset_accurate_witness:
  "\<exists>offset. queryNTP sample_ntp (NewNTPChecker \<lparr>nt_Enabled = True, nt_Server = [], nt_CheckInterval = 0, nt_WarnThreshold = 0,
       nt_CritThreshold = 0\<rparr>) 63826607999999999000 = (Inr offset, 63826607999999999008) \<and> 2 * \<bar>offset - 995\<bar> \<le> 3"
proof -
  let ?n = "NewNTPChecker \<lparr>nt_Enabled = True, nt_Server = [], nt_CheckInterval = 0, nt_WarnThreshold = 0, nt_CritThreshold = 0\<rparr>"
  have t: "ntpTimestampToTime 3900000000 0 = 63826608000000000000"
    by (simp add: ntpTimestampToTime_def ntp_nanos_nat ntpEpochOffset_def unix_epoch_def)
  show ?thesis
    using ntp_offset_accurate [of sample_ntp ?n 63826607999999999000 63826607999999999000 63826607999999999000 63826607999999999000 "replicate 32 0"
        3900000000 0 3900000000 0 63826607999999999008 5 995 3] t
    by (simp add: sample_ntp_def)
qed

text \<open>
  The health check speaks of the last exchange: after a successful one it fails exactly when the offset is
  beyond the critical threshold, and a failed exchange makes it fail until the next success, with the
  offset kept.
\<close>

theorem ntp_check_of_last_exchange:
  assumes "runCheck env (n, w) = (n1, w1)" "fst (queryNTP env n w) = r" "nk_lastCheck n \<noteq> None"
  shows "fst (ntp_HealthCheck env (n1, w1)) = (case r of
      Inl e \<Rightarrow> Some (Plain (''last ntp check failed: '' @ err_text e))
    | Inr d \<Rightarrow> if nt_CritThreshold (nk_config n) < \<bar>d\<bar> then Some drift_error else None)"
  using assms by (auto simp: runCheck_def recordResult_def ntp_HealthCheck_def ntp_verdict_def split: prod.splits sum.splits)

end
