(* ===== verification/Gateway.thy ===== *)
theory Gateway
  imports Gateway_Web Modbus_Pool S7_Pool Health_Checker Ntp_Checker
begin

text \<open>
  \<open>cmd/gateway/main.go\<close>: what of the configuration reaches the components, the callbacks that keep the
  polling service in step with the device manager, the start and the running gateway.

  The gateway is a record of the device manager, its world and the command handler.  The world of the
  device manager is the polling service with the files; its callbacks call the service.  The
  part of \<open>ReplaceDevice\<close> that waits for a goroutine is a later step of the service; a call of the service
  that never returns leaves the manager locked, and the world is marked as stuck.
\<close>

section \<open>What the components are given\<close>

definition mqtt_settings :: "gw_mqtt_config \<Rightarrow> mqtt_config" where
  "mqtt_settings c = \<lparr>mq_QoS = gm_QoS c, mq_KeepAlive = gm_KeepAlive c, mq_ConnectTimeout = gm_ConnectTimeout c,
     mq_ReconnectDelay = gm_ReconnectDelay c, mq_BufferSize = 0, mq_PublishTimeout = 0, mq_RetainMessages = False,
     mq_TLSEnabled = gm_TLSEnabled c\<rparr>"

definition modbus_settings :: "gw_modbus_config \<Rightarrow> mb_pool_config" where
  "modbus_settings c = \<lparr>pc_MaxConnections = gb_MaxConnections c, pc_IdleTimeout = gb_IdleTimeout c,
     pc_HealthCheckPeriod = gb_HealthCheckPeriod c, pc_ConnectionTimeout = gb_ConnectionTimeout c,
     pc_RetryAttempts = gb_RetryAttempts c, pc_RetryDelay = gb_RetryDelay c, pc_CircuitBreakerName = ''modbus-pool'',
     pc_MaxTTL = 0\<rparr>"

definition opcua_settings :: "gw_opcua_config \<Rightarrow> opc_pool_config" where
  "opcua_settings c = \<lparr>op_MaxConnections = go_MaxConnections c, op_IdleTimeout = go_IdleTimeout c,
     op_HealthCheckPeriod = go_HealthCheckPeriod c, op_ConnectionTimeout = go_ConnectionTimeout c,
     op_RetryAttempts = go_RetryAttempts c, op_RetryDelay = go_RetryDelay c, op_SecurityPolicy = go_DefaultSecurityPolicy c,
     op_SecurityMode = go_DefaultSecurityMode c, op_AuthMode = go_DefaultAuthMode c, op_MaxNodesPerRead = 0,
     op_MaxNodesPerWrite = 0, op_MaxGlobalInFlight = 0, op_BrownoutThreshold = f64_zero, op_PriorityQueueSize = 0,
     op_NumWorkers = 0, op_MaxInFlightPerEndpoint = 0, op_MaxTTL = 0\<rparr>"

definition s7_settings :: "gw_s7_config \<Rightarrow> s7_pool_config" where
  "s7_settings c = \<lparr>spc_MaxConnections = gs_MaxConnections c, spc_IdleTimeout = gs_IdleTimeout c,
     spc_HealthCheckInterval = gs_HealthCheckPeriod c, spc_RetryDelay = gs_RetryDelay c, spc_MaxTTL = 0\<rparr>"

definition polling_settings :: "gw_polling_config \<Rightarrow> polling_config" where
  "polling_settings c = \<lparr>WorkerCount = gp_WorkerCount c, BatchSize = gp_BatchSize c,
     DefaultInterval = gp_DefaultInterval c, pcf_MaxRetries = gp_MaxRetries c, ShutdownTimeout = gp_ShutdownTimeout c\<rparr>"

definition health_settings :: health_config where
  "health_settings = \<lparr>hc_ServiceName = serviceName, hc_ServiceVersion = serviceVersion, hc_CheckTimeout = 0,
     hc_CheckInterval = 0, hc_FailureThreshold = 0, hc_RecoveryThreshold = 0\<rparr>"

definition ntp_settings :: "gw_ntp_config \<Rightarrow> ntp_config" where
  "ntp_settings c = \<lparr>nt_Enabled = gn_Enabled c, nt_Server = gn_Server c, nt_CheckInterval = gn_CheckInterval c,
     nt_WarnThreshold = gn_WarnThreshold c, nt_CritThreshold = gn_CritThreshold c\<rparr>"

text \<open>The checks that are registered.\<close>

definition health_setup :: "gw_ntp_config \<Rightarrow> time \<Rightarrow> health_checker" where
  "health_setup c now =
     (let h = AddCheck ''s7_pool'' (AddCheck ''opcua_pool'' (AddCheck ''modbus_pool'' (AddCheck ''mqtt''
        (NewChecker health_settings now))))
      in if gn_Enabled c then AddCheckWithSeverity ''ntp_sync'' SeverityWarning h else h)"

text \<open>The trust store is used when its directories could be made.\<close>

definition opcua_setup :: "trust_env \<Rightarrow> gw_opcua_config \<Rightarrow> int \<Rightarrow> trust_store \<Rightarrow> ('w, 'n, 'b) opc_pool res \<times> trust_store" where
  "opcua_setup te c cpus ts = (case opc_NewConnectionPool cpus (opcua_settings c) of
       Ok p \<Rightarrow> if go_TrustStorePath c = [] then (Ok p, ts)
         else (case NewTrustStore te ts of
             (Some e, ts1) \<Rightarrow> (Ok p, ts1)
           | (None, ts1) \<Rightarrow> (Ok (SetTrustStore (go_AutoTrust c) p), ts1))
     | Err e \<Rightarrow> (Err e, ts)
     | Panic \<Rightarrow> (Panic, ts))"

text \<open>The pools by protocol.\<close>

definition protocol_pools :: "'w pool \<Rightarrow> 'w pool \<Rightarrow> 'w pool \<Rightarrow> 'w manager" where
  "protocol_pools modbus opcua s7 = RegisterPool ProtocolS7 s7 (RegisterPool ProtocolOPCUA opcua
     (RegisterPool ProtocolModbusRTU modbus (RegisterPool ProtocolModbusTCP modbus NewProtocolManager)))"

section \<open>The callbacks\<close>

record ('v, 'f) gw_world =
  gw_polling :: "'v polling"
  gw_stuck :: bool
  gw_files :: 'f

definition call_service ::
  "('v polling \<Rightarrow> (err option \<times> 'v polling) option) \<Rightarrow> ('v, 'f) gw_world \<Rightarrow> err option \<times> ('v, 'f) gw_world" where
  "call_service f w = (case f (gw_polling w) of
       None \<Rightarrow> (None, w\<lparr>gw_stuck := True\<rparr>)
     | Some (e, s) \<Rightarrow> (e, w\<lparr>gw_polling := s\<rparr>))"

definition on_device_add :: "'v manager \<Rightarrow> device \<Rightarrow> ('v, 'f) gw_world \<Rightarrow> err option \<times> ('v, 'f) gw_world" where
  "on_device_add pm d w = (case GetPool pm (dev_Protocol d) of
       None \<Rightarrow> (Some ErrProtocolNotSupported, w)
     | Some pool \<Rightarrow> call_service (RegisterDevice d) w)"

definition on_device_edit :: "'v manager \<Rightarrow> device \<Rightarrow> ('v, 'f) gw_world \<Rightarrow> err option \<times> ('v, 'f) gw_world" where
  "on_device_edit pm d w = (case GetPool pm (dev_Protocol d) of
       None \<Rightarrow> (Some ErrProtocolNotSupported, w)
     | Some pool \<Rightarrow> call_service (replace_begin d) w)"

definition on_device_delete :: "string \<Rightarrow> ('v, 'f) gw_world \<Rightarrow> err option \<times> ('v, 'f) gw_world" where
  "on_device_delete i w = (None, w\<lparr>gw_polling := snd (UnregisterDevice i (gw_polling w))\<rparr>)"

definition gateway_manager :: "'v manager \<Rightarrow> string \<Rightarrow> ('v, 'f) gw_world device_manager" where
  "gateway_manager pm path = SetCallbacks (Some (on_device_add pm)) (Some (on_device_edit pm)) (Some on_device_delete)
     (NewDeviceManager path)"

text \<open>The files are a part of the manager's world.\<close>

definition gateway_env :: "'f manager_env \<Rightarrow> ('v, 'f) gw_world manager_env" where
  "gateway_env env = \<lparr>fe_ReadFile = (\<lambda>path w. fe_ReadFile env path (gw_files w)),
     fe_WriteFile = (\<lambda>path data mode w. case fe_WriteFile env path data mode (gw_files w) of (e, f) \<Rightarrow> (e, w\<lparr>gw_files := f\<rparr>)),
     fe_Unmarshal = fe_Unmarshal env, fe_Marshal = fe_Marshal env,
     me_range = (\<lambda>m w. me_range env m (gw_files w))\<rparr>"

section \<open>The start\<close>

definition supported :: "'v manager \<Rightarrow> device \<Rightarrow> bool" where
  "supported pm d \<longleftrightarrow> GetPool pm (dev_Protocol d) \<noteq> None"

fun count_devices :: "'v manager \<Rightarrow> device list \<Rightarrow> (protocol \<Rightarrow> nat) \<times> nat \<Rightarrow> (protocol \<Rightarrow> nat) \<times> nat" where
  "count_devices pm [] c = c"
| "count_devices pm (d # ds) (m, n) =
     (if GetPool pm (dev_Protocol d) = None then count_devices pm ds (m, n + 1)
      else count_devices pm ds (m(dev_Protocol d := m (dev_Protocol d) + 1), n))"

text \<open>The registered and the failed devices are counted.\<close>

fun register_devices :: "'v manager \<Rightarrow> device list \<Rightarrow> nat \<times> nat \<Rightarrow> 'v polling \<Rightarrow> ((nat \<times> nat) \<times> 'v polling) option" where
  "register_devices pm [] c s = Some (c, s)"
| "register_devices pm (d # ds) (ok, failed) s =
     (if GetPool pm (dev_Protocol d) = None then register_devices pm ds (ok, failed) s
      else case RegisterDevice d s of
        None \<Rightarrow> None
      | Some (Some e, s1) \<Rightarrow> register_devices pm ds (ok, failed + 1) s1
      | Some (None, s1) \<Rightarrow> register_devices pm ds (ok + 1, failed) s1)"

record ('v, 'f) gateway =
  ga_manager :: "('v, 'f) gw_world device_manager"
  ga_world :: "('v, 'f) gw_world"
  ga_commands :: "'v cmd_handler"

text \<open>
  From the device manager to the command handler; that the devices cannot be loaded is fatal.  The world \<open>v\<close>
  is that of the pools.
\<close>

definition gateway_start ::
  "'f manager_env \<Rightarrow> 'v manager \<Rightarrow> (nat \<Rightarrow> time) \<Rightarrow> gateway_config \<Rightarrow> 'v publisher_ops \<Rightarrow> ('v \<Rightarrow> time)
    \<Rightarrow> 'v subscription_handler \<Rightarrow> 'v \<Rightarrow> 'f \<Rightarrow> (err + ('v, 'f) gateway) option" where
  "gateway_start env pm clock cfg pub now sub v files =
     (let polling = SetSubscriptionHandler sub (NewPollingService (polling_settings (gc_Polling cfg)) pm pub now v);
          w = \<lparr>gw_polling = polling, gw_stuck = False, gw_files = files\<rparr>
      in case manager_LoadDevices (gateway_env env) clock (gateway_manager pm (gc_DevicesConfigPath cfg), w) of
        None \<Rightarrow> None
      | Some (Some e, dm, w1) \<Rightarrow> Some (Inl e)
      | Some (None, dm, w1) \<Rightarrow>
          (let devices = GetDevices (gateway_env env) (dm, w1) in
           case register_devices pm devices (0, 0) (gw_polling w1) of
             None \<Rightarrow> None
           | Some (c, s) \<Rightarrow> Some (Inr \<lparr>ga_manager = dm, ga_world = w1\<lparr>gw_polling := s\<rparr>,
               ga_commands = NewCommandHandler pm devices DefaultCommandConfig v\<rparr>)))"

section \<open>The running gateway\<close>

text \<open>
  The API edits devices, which waits for the lock of the polling service; the polling service goes on
  (nobody else calls its registry), and so does the command handler (nobody tells it of other
  devices).  The start of the services is a step of theirs.
\<close>

definition registered :: "'v polling \<Rightarrow> string \<rightharpoonup> device" where
  "registered s i = map_option (\<lambda>a. dv_device (poller s a)) (po_devices s i)"

inductive gateway_step :: "'f manager_env \<Rightarrow> 'v cmd_env \<Rightarrow> ('v, 'f) gateway \<Rightarrow> ('v, 'f) gateway \<Rightarrow> bool" for env cenv where
  edited: "po_lock (gw_polling (ga_world g)) = None \<Longrightarrow> \<not> gw_stuck (ga_world g) \<Longrightarrow>
    run_edit (gateway_env env) e (ga_manager g, ga_world g) = Some (r, dm, w) \<Longrightarrow>
    gateway_step env cenv g (g\<lparr>ga_manager := dm, ga_world := w\<rparr>)"
| polling: "polling_step l (gw_polling (ga_world g)) s \<Longrightarrow> po_devices s = po_devices (gw_polling (ga_world g)) \<Longrightarrow>
    map dv_device (po_pollers s) = map dv_device (po_pollers (gw_polling (ga_world g))) \<Longrightarrow>
    gateway_step env cenv g (g\<lparr>ga_world := (ga_world g)\<lparr>gw_polling := s\<rparr>\<rparr>)"
| commands: "cmd_step cenv (ga_commands g) h \<Longrightarrow> ch_devices h = ch_devices (ga_commands g) \<Longrightarrow>
    ch_tagByID h = ch_tagByID (ga_commands g) \<Longrightarrow> gateway_step env cenv g (g\<lparr>ga_commands := h\<rparr>)"
| files: "gateway_step env cenv g (g\<lparr>ga_world := (ga_world g)\<lparr>gw_files := f\<rparr>\<rparr>)"

inductive gateway_reachable :: "'f manager_env \<Rightarrow> 'v cmd_env \<Rightarrow> 'v manager \<Rightarrow> ('v, 'f) gateway \<Rightarrow> bool" for env cenv pm where
  started: "gateway_start env pm clock cfg pub now sub v files = Some (Inr g) \<Longrightarrow>
    set (me_range env (dm_devices (ga_manager g)) files) = ran (dm_devices (ga_manager g)) \<Longrightarrow> gateway_reachable env cenv pm g"
| step: "gateway_reachable env cenv pm g \<Longrightarrow> gateway_step env cenv g g' \<Longrightarrow> gateway_reachable env cenv pm g'"
section \<open>The registered devices\<close>

lemma registered_same:
  assumes "po_devices s' = po_devices s" "map dv_device (po_pollers s') = map dv_device (po_pollers s)" "registry_inv s"
  shows "registered s' = registered s"
proof
  fix i
  have "dv_device (poller s' a) = dv_device (poller s a)" if "a < length (po_pollers s)" for a
    using assms(2) that by (metis length_map nth_map)
  then show "registered s' i = registered s i" using assms(1,3) by (cases "po_devices s i") (auto simp: registered_def registry_inv_def)
qed

lemma starts_registered: "starts_only a s s' \<Longrightarrow> registry_inv s \<Longrightarrow> registered s' = registered s"
  by (rule registered_same) (simp_all add: starts_only_def start_frame_def same_pollers_def)

lemma registered_none: "registered s i = None \<longleftrightarrow> po_devices s i = None"
  by (simp add: registered_def)

lemma RegisterDevice_registered:
  assumes "RegisterDevice d s = Some (e, s')" "registry_inv s"
  shows "registered s' = (if registered s (dev_ID d) = None \<and> dev_Enabled d then (registered s)(dev_ID d \<mapsto> d) else registered s)"
proof (cases "po_devices s (dev_ID d) \<noteq> None \<or> \<not> dev_Enabled d")
  case True
  then show ?thesis using assms by (auto simp: RegisterDevice_def registered_none split: if_splits)
next
  case False
  let ?s1 = "s\<lparr>po_pollers := po_pollers s @ [new_poller d (po_next s)], po_next := po_next s + 1,
    po_devices := (po_devices s)(dev_ID d \<mapsto> length (po_pollers s))\<rparr>"
  have inv: "registry_inv ?s1" using assms(2) False
    by (auto simp: registry_inv_def nth_append new_poller_def less_SucI)
  have r: "registered ?s1 = (registered s)(dev_ID d \<mapsto> d)"
  proof
    fix i
    show "registered ?s1 i = ((registered s)(dev_ID d \<mapsto> d)) i"
      using assms(2) by (cases "po_devices s i") (auto simp: registered_def registry_inv_def nth_append new_poller_def)
  qed
  have "(po_started s \<longrightarrow> startDevicePoller (length (po_pollers s)) ?s1 = Some s') \<and> (\<not> po_started s \<longrightarrow> s' = ?s1)"
    using assms(1) False by (auto simp: RegisterDevice_def Let_def split: if_splits)
  then have "registered s' = registered ?s1" using starts_registered [OF startDevicePoller_starts inv] by metis
  then show ?thesis using False r by (simp add: registered_none)
qed

lemma drop_frame:
  "po_devices (drop_device a i s) = (po_devices s)(i := None)"
  "map dv_device (po_pollers (drop_device a i s)) = map dv_device (po_pollers s)"
  by (auto simp: drop_device_def signal_stop_def unsubscribe_def set_subscribed_def upd_poller_def Let_def
      map_update_same split: option.splits)

lemma drop_registered:
  assumes "registry_inv s" shows "registered (drop_device a i s) = (registered s)(i := None)"
proof
  fix j
  have "dv_device (poller (drop_device a i s) b) = dv_device (poller s b)" if "b < length (po_pollers s)" for b
    using drop_frame(2) [of a i s] that by (metis length_map nth_map)
  then show "registered (drop_device a i s) j = ((registered s)(i := None)) j"
    using assms by (cases "po_devices s j") (auto simp: registered_def registry_inv_def drop_frame(1))
qed

lemma UnregisterDevice_registered:
  assumes "registry_inv s" shows "registered (snd (UnregisterDevice i s)) = (registered s)(i := None)"
proof (cases "po_devices s i")
  case None
  then show ?thesis using registered_none [of s i] by (simp add: UnregisterDevice_def fun_upd_idem)
next
  case (Some a)
  then show ?thesis using drop_registered [OF assms] by (simp add: UnregisterDevice_def)
qed

lemma replaced_registered:
  assumes "po_devices s (dev_ID d) = Some a" "registry_inv s"
  shows "registered (upd_poller a (\<lambda>p. p\<lparr>dv_device := d\<rparr>) s) = (registered s)(dev_ID d \<mapsto> d)"
proof
  fix i
  have ids: "po_devices s j = Some b \<Longrightarrow> b < length (po_pollers s) \<and> dev_ID (dv_device (poller s b)) = j" for j b
    using assms(2) by (simp add: registry_inv_def)
  have "po_devices s i = Some a \<Longrightarrow> i = dev_ID d" using ids [OF assms(1)] ids [of i a] by simp
  then show "registered (upd_poller a (\<lambda>p. p\<lparr>dv_device := d\<rparr>) s) i = ((registered s)(dev_ID d \<mapsto> d)) i"
    using ids [OF assms(1)] assms(1) by (cases "po_devices s i") (auto simp: registered_def upd_poller_def nth_list_update)
qed

text \<open>What follows the replacement of the device in \<open>ReplaceDevice\<close> changes flags and channels only.\<close>

lemma signal_frame:
  "po_devices (signal_stop a s) = po_devices s" "map dv_device (po_pollers (signal_stop a s)) = map dv_device (po_pollers s)"
  "po_devices (set_subscribed b a s) = po_devices s" "map dv_device (po_pollers (set_subscribed b a s)) = map dv_device (po_pollers s)"
  "po_devices (unsubscribe a i s) = po_devices s" "map dv_device (po_pollers (unsubscribe a i s)) = map dv_device (po_pollers s)"
  by (auto simp: signal_stop_def unsubscribe_def set_subscribed_def upd_poller_def map_update_same split: option.splits)

lemma replace_begin_registered:
  assumes "replace_begin d s = Some (e, s')" "registry_inv s"
  shows "registered s' = (if dev_Enabled d then (registered s)(dev_ID d \<mapsto> d) else (registered s)(dev_ID d := None))"
proof (cases "po_devices s (dev_ID d)")
  case None
  then have r: "registered s (dev_ID d) = None" by (simp add: registered_none)
  have "registered s' = (if registered s (dev_ID d) = None \<and> dev_Enabled d then (registered s)(dev_ID d \<mapsto> d) else registered s)"
    by (rule RegisterDevice_registered [OF _ assms(2)]) (use assms(1) None in \<open>simp add: replace_begin_def\<close>)
  then show ?thesis using r by (auto simp: fun_upd_idem)
next
  case (Some a)
  show ?thesis
  proof (cases "dev_Enabled d")
    case False
    then show ?thesis using assms(1) Some drop_registered [OF assms(2)] by (auto simp: replace_begin_def)
  next
    case True
    let ?s1 = "upd_poller a (\<lambda>p. p\<lparr>dv_device := d\<rparr>) s"
    have inv: "registry_inv ?s1" using replace_device_registry [OF Some True assms(2)] .
    have "po_devices s' = po_devices ?s1 \<and> map dv_device (po_pollers s') = map dv_device (po_pollers ?s1)"
      using assms(1) Some True by (auto simp: replace_begin_def Let_def signal_frame split: if_splits)
    then have "registered s' = registered ?s1" using registered_same inv by blast
    then show ?thesis using True replaced_registered [OF Some assms(2)] by simp
  qed
qed

section \<open>The polling service in step with the device manager\<close>

definition in_sync :: "'v manager \<Rightarrow> (string \<rightharpoonup> device) \<Rightarrow> 'v polling \<Rightarrow> bool" where
  "in_sync pm m s \<longleftrightarrow> (\<forall>i. (\<forall>d. m i = Some d \<longrightarrow> supported pm d) \<longrightarrow>
     registered s i = (case m i of None \<Rightarrow> None | Some d \<Rightarrow> if dev_Enabled d then Some d else None))"

definition has_callbacks :: "'v manager \<Rightarrow> ('v, 'f) gw_world device_manager \<Rightarrow> bool" where
  "has_callbacks pm dm \<longleftrightarrow> dm_onDeviceAdd dm = Some (on_device_add pm) \<and> dm_onDeviceEdit dm = Some (on_device_edit pm)
     \<and> dm_onDeviceDel dm = Some on_device_delete"

text \<open>Writing the file leaves the polling service alone.\<close>

definition same_service :: "('v, 'f) gw_world \<Rightarrow> ('v, 'f) gw_world \<Rightarrow> bool" where
  "same_service w w1 \<longleftrightarrow> gw_polling w1 = gw_polling w \<and> gw_stuck w1 = gw_stuck w"

lemma write_same: "fe_WriteFile (gateway_env env) path data mode w = (e, w1) \<Longrightarrow> same_service w w1"
  by (auto simp: gateway_env_def same_service_def split: prod.split_asm)

lemma save_same: "saveDevicesUnlocked (gateway_env env) (dm, w) = (e, w1) \<Longrightarrow> same_service w w1"
  by (auto simp: saveDevicesUnlocked_def SaveDevices_def split: sum.split_asm prod.split_asm option.split_asm dest: write_same)
    (auto simp: same_service_def)

lemma written_same: "file_written (gateway_env env) dm w w1 \<Longrightarrow> same_service w w1"
  using write_same by (fastforce simp: file_written_def)

lemma refused_edit:
  assumes "run_edit (gateway_env env) e (dm, w) = Some (Some x, dm', w')"
  shows "same_service w w'"
proof -
  have refl: "same_service w w" by (simp add: same_service_def)
  show ?thesis
  proof (cases e)
    case (Adding t1 t2 d)
    then show ?thesis using assms refl
      by (auto simp: manager_AddDevice_def Let_def split: if_split_asm option.split_asm prod.split_asm dest: save_same)
  next
    case (Updating t d)
    then show ?thesis using assms refl
      by (auto simp: manager_UpdateDevice_def Let_def split: if_split_asm option.split_asm prod.split_asm dest: save_same)
  next
    case (Deleting i)
    then show ?thesis using assms refl
      by (auto simp: manager_DeleteDevice_def Let_def split: if_split_asm option.split_asm prod.split_asm dest: save_same)
  qed
qed

lemma sync_put:
  assumes "in_sync pm m s" "registered s' = (registered s)(i := (if dev_Enabled d then Some d else None))"
  shows "in_sync pm (m(i \<mapsto> d)) s'"
  using assms by (auto simp: in_sync_def)

lemma sync_ignored:
  assumes "in_sync pm m s" "\<not> supported pm d" shows "in_sync pm (m(i \<mapsto> d)) s"
  using assms by (auto simp: in_sync_def)

lemma sync_drop:
  assumes "in_sync pm m s" "registered s' = (registered s)(i := None)" shows "in_sync pm (m(i := None)) s'"
  using assms by (auto simp: in_sync_def)

text \<open>What a call of the service does to the world, when it returns.\<close>

lemma call_world:
  assumes "w' = snd (call_service f w)" "\<not> gw_stuck w'"
  obtains e where "f (gw_polling w) = Some (e, gw_polling w')"
  using assms by (auto simp: call_service_def split: option.splits prod.splits)

lemma edit_in_sync:
  assumes run: "run_edit (gateway_env env) e (dm, w) = Some (r, dm', w')" and cb: "has_callbacks pm dm"
    and inv: "registry_inv (gw_polling w)" and sync: "in_sync pm (dm_devices dm) (gw_polling w)"
    and returns: "\<not> gw_stuck w'"
  shows "in_sync pm (dm_devices dm') (gw_polling w') \<and> registry_inv (gw_polling w')"
proof (cases "r = None")
  case False
  then obtain x where x: "r = Some x" by blast
  have "dm' = dm"
  proof (cases e)
    case (Adding t1 t2 d)
    then show ?thesis using add_outcome [of "gateway_env env" t1 t2 d dm w r dm' w'] run False by auto
  next
    case (Updating t d)
    then show ?thesis using update_outcome [of "gateway_env env" t d dm w r dm' w'] run False by auto
  next
    case (Deleting i)
    then show ?thesis using delete_outcome [of "gateway_env env" i dm w r dm' w'] run False by auto
  qed
  moreover have "gw_polling w' = gw_polling w" using refused_edit run x by (simp add: same_service_def) blast
  ultimately show ?thesis using sync inv by simp
next
  case True
  show ?thesis
  proof (cases e)
    case (Adding t1 t2 d)
    obtain d' w1 where none: "dm_devices dm (dev_ID d) = None" and acc: "accepted d d'"
      and dm': "dm' = dm\<lparr>dm_devices := (dm_devices dm)(dev_ID d \<mapsto> d')\<rparr>" and fw: "file_written (gateway_env env) dm' w w1"
      and w': "w' = run_callback (dm_onDeviceAdd dm) d' w1"
      using add_outcome [of "gateway_env env" t1 t2 d dm w r dm' w'] run True Adding by auto
    have i: "dev_ID d' = dev_ID d" using acc by (simp add: accepted_def)
    have p1: "gw_polling w1 = gw_polling w" using written_same [OF fw] by (simp add: same_service_def)
    have free: "registered (gw_polling w) (dev_ID d) = None" using sync none by (simp add: in_sync_def)
    have w'': "w' = snd (on_device_add pm d' w1)" using cb by (simp add: w' run_callback_def has_callbacks_def)
    show ?thesis
    proof (cases "supported pm d'")
      case False
      then have "w' = w1" using w'' by (simp add: on_device_add_def supported_def)
      then show ?thesis using sync_ignored [OF sync False] inv by (simp add: dm' p1)
    next
      case True
      then have "w' = snd (call_service (RegisterDevice d') w1)" using w'' by (auto simp: on_device_add_def supported_def)
      from call_world [OF this returns] obtain x where x: "RegisterDevice d' (gw_polling w1) = Some (x, gw_polling w')" .
      note r1 = RegisterDevice_registered [OF x] RegisterDevice_registry [OF x]
      have "registered (gw_polling w') = (registered (gw_polling w))(dev_ID d := (if dev_Enabled d' then Some d' else None))"
        using r1(1) inv free by (auto simp: p1 i fun_upd_idem)
      then show ?thesis using sync_put [OF sync] r1(2) inv by (simp add: dm' p1)
    qed
  next
    case (Updating t d)
    obtain d' w1 where acc: "accepted d d'"
      and dm': "dm' = dm\<lparr>dm_devices := (dm_devices dm)(dev_ID d \<mapsto> d')\<rparr>" and fw: "file_written (gateway_env env) dm' w w1"
      and w': "w' = run_callback (dm_onDeviceEdit dm) d' w1"
      using update_outcome [of "gateway_env env" t d dm w r dm' w'] run True Updating by auto
    have i: "dev_ID d' = dev_ID d" using acc by (simp add: accepted_def)
    have p1: "gw_polling w1 = gw_polling w" using written_same [OF fw] by (simp add: same_service_def)
    have w'': "w' = snd (on_device_edit pm d' w1)" using cb by (simp add: w' run_callback_def has_callbacks_def)
    show ?thesis
    proof (cases "supported pm d'")
      case False
      then have "w' = w1" using w'' by (simp add: on_device_edit_def supported_def)
      then show ?thesis using sync_ignored [OF sync False] inv by (simp add: dm' p1)
    next
      case True
      then have "w' = snd (call_service (replace_begin d') w1)" using w'' by (auto simp: on_device_edit_def supported_def)
      from call_world [OF this returns] obtain x where x: "replace_begin d' (gw_polling w1) = Some (x, gw_polling w')" .
      note r1 = replace_begin_registered [OF x] replace_begin_registry [OF x]
      have "registered (gw_polling w') = (registered (gw_polling w))(dev_ID d := (if dev_Enabled d' then Some d' else None))"
        using r1(1) inv by (auto simp: p1 i)
      then show ?thesis using sync_put [OF sync] r1(2) inv by (simp add: dm' p1)
    qed
  next
    case (Deleting i)
    obtain w1 where dm': "dm' = dm\<lparr>dm_devices := (dm_devices dm)(i := None)\<rparr>" and fw: "file_written (gateway_env env) dm' w w1"
      and w': "w' = run_callback (dm_onDeviceDel dm) i w1"
      using delete_outcome [of "gateway_env env" i dm w r dm' w'] run True Deleting by auto
    have p1: "gw_polling w1 = gw_polling w" using written_same [OF fw] by (simp add: same_service_def)
    have p2: "gw_polling w' = snd (UnregisterDevice i (gw_polling w))"
      using cb by (simp add: w' run_callback_def has_callbacks_def on_device_delete_def p1)
    show ?thesis using sync_drop [OF sync UnregisterDevice_registered [OF inv]] keeps_devices_inv [OF operation_keeps(8) inv]
      by (simp add: dm' p2)
  qed
qed

lemma edit_keeps_callbacks:
  assumes "run_edit (gateway_env env) e (dm, w) = Some (r, dm', w')" "has_callbacks pm dm" shows "has_callbacks pm dm'"
proof -
  have "dm' = dm\<lparr>dm_devices := dm_devices dm'\<rparr>" by (rule edit_refines(2) [OF assms(1)])
  moreover have "has_callbacks pm (dm\<lparr>dm_devices := m\<rparr>)" for m using assms(2) by (simp add: has_callbacks_def)
  ultimately show ?thesis by metis
qed

lemma registered_devices:
  assumes "register_devices pm ds c s = Some (c', s')" "registry_inv s" "\<forall>d\<in>set ds. m (dev_ID d) = Some d"
    and "\<forall>i d. registered s i = Some d \<longrightarrow> m i = Some d"
  shows "registry_inv s' \<and> registered s' = (\<lambda>i. if \<exists>d\<in>set ds. dev_ID d = i \<and> supported pm d \<and> dev_Enabled d then m i else registered s i)"
  using assms
proof (induction ds arbitrary: c s)
  case (Cons d ds)
  obtain ok failed where c: "c = (ok, failed)" by (cases c)
  show ?case
  proof (cases "supported pm d")
    case False
    then have "register_devices pm ds c s = Some (c', s')" using Cons.prems(1) by (simp add: supported_def c)
    from Cons.IH [OF this Cons.prems(2)] Cons.prems(3,4) False show ?thesis by (auto simp: fun_eq_iff)
  next
    case True
    then have g: "GetPool pm (dev_Protocol d) \<noteq> None" by (simp add: supported_def)
    then obtain e s1 where r: "RegisterDevice d s = Some (e, s1)" using Cons.prems(1) by (auto simp: c split: option.splits)
    have "\<exists>c1. register_devices pm ds c1 s1 = Some (c', s')" using Cons.prems(1) g r by (cases e) (auto simp: c)
    then obtain c1 where c1: "register_devices pm ds c1 s1 = Some (c', s')" by blast
    have r1: "registered s1 = (if registered s (dev_ID d) = None \<and> dev_Enabled d then (registered s)(dev_ID d \<mapsto> d) else registered s)"
      by (rule RegisterDevice_registered [OF r Cons.prems(2)])
    have m1: "\<forall>i x. registered s1 i = Some x \<longrightarrow> m i = Some x" using Cons.prems(3,4) by (auto simp: r1)
    have "registry_inv s' \<and> registered s' = (\<lambda>i. if \<exists>d\<in>set ds. dev_ID d = i \<and> supported pm d \<and> dev_Enabled d then m i else registered s1 i)"
      by (rule Cons.IH [OF c1 RegisterDevice_registry [OF r Cons.prems(2)] _ m1]) (use Cons.prems(3) in simp)
    moreover have "registered s1 i = (if dev_ID d = i \<and> dev_Enabled d then m i else registered s i)" for i
    proof (cases "dev_ID d = i \<and> dev_Enabled d")
      case True
      then have "m i = Some d" using Cons.prems(3) by auto
      then show ?thesis using True Cons.prems(4) by (cases "registered s i") (auto simp: r1)
    qed (auto simp: r1)
    ultimately show ?thesis using True by (auto simp: fun_eq_iff)
  qed
qed simp

lemma start_in_sync:
  assumes start: "gateway_start env pm clock cfg pub now sub v files = Some (Inr g)"
    and range_law: "set (me_range env (dm_devices (ga_manager g)) files) = ran (dm_devices (ga_manager g))"
  shows "has_callbacks pm (ga_manager g) \<and> registry_inv (gw_polling (ga_world g)) \<and> in_sync pm (dm_devices (ga_manager g)) (gw_polling (ga_world g))"
proof -
  define s0 where "s0 = SetSubscriptionHandler sub (NewPollingService (polling_settings (gc_Polling cfg)) pm pub now v)"
  define w :: "('a, 'b) gw_world" where "w = \<lparr>gw_polling = s0, gw_stuck = False, gw_files = files\<rparr>"
  obtain dm w1 where load: "manager_LoadDevices (gateway_env env) clock (gateway_manager pm (gc_DevicesConfigPath cfg), w) = Some (None, dm, w1)"
    and reg: "\<exists>c s. register_devices pm (GetDevices (gateway_env env) (dm, w1)) (0, 0) (gw_polling w1) = Some (c, s)
      \<and> g = \<lparr>ga_manager = dm, ga_world = w1\<lparr>gw_polling := s\<rparr>,
          ga_commands = NewCommandHandler pm (GetDevices (gateway_env env) (dm, w1)) DefaultCommandConfig v\<rparr>"
    using start unfolding gateway_start_def Let_def s0_def [symmetric] w_def [symmetric]
    by (auto split: option.split_asm prod.split_asm)
  obtain c s where r: "register_devices pm (GetDevices (gateway_env env) (dm, w1)) (0, 0) (gw_polling w1) = Some (c, s)"
    and g: "g = \<lparr>ga_manager = dm, ga_world = w1\<lparr>gw_polling := s\<rparr>,
          ga_commands = NewCommandHandler pm (GetDevices (gateway_env env) (dm, w1)) DefaultCommandConfig v\<rparr>"
    using reg by blast
  obtain ds m where m: "put_devices Map.empty ds = Some m" "dm = (gateway_manager pm (gc_DevicesConfigPath cfg))\<lparr>dm_devices := m\<rparr>" "w1 = w"
    using load by (auto simp: manager_LoadDevices_def split: sum.splits option.splits)
  have cb: "has_callbacks pm dm" by (simp add: m(2) has_callbacks_def gateway_manager_def SetCallbacks_def)
  have ids: "m i = Some d \<Longrightarrow> dev_ID d = i" for i d using put_devices_ok [OF m(1) store_ok_empty] by (simp add: store_ok_def)
  let ?ds = "GetDevices (gateway_env env) (dm, w1)"
  have set_ds: "set ?ds = ran m" using range_law by (simp add: g GetDevices_def gateway_env_def m(2,3) w_def)
  have inv0: "registry_inv s0" by (simp add: s0_def registry_inv_def NewPollingService_def SetSubscriptionHandler_def)
  have empty: "registered s0 = Map.empty" by (auto simp: s0_def registered_def NewPollingService_def SetSubscriptionHandler_def)
  have in_m: "\<forall>d\<in>set ?ds. m (dev_ID d) = Some d" using ids by (auto simp: set_ds ran_def)
  have p: "gw_polling w1 = s0" by (simp add: m(3) w_def)
  have res: "registry_inv s \<and> registered s = (\<lambda>i. if \<exists>d\<in>set ?ds. dev_ID d = i \<and> supported pm d \<and> dev_Enabled d then m i else registered s0 i)"
    using registered_devices [OF r, unfolded p, OF inv0 in_m] by (simp add: empty)
  have "registered s i = (case m i of None \<Rightarrow> None | Some d \<Rightarrow> if dev_Enabled d then Some d else None)"
    if sup: "\<forall>d. m i = Some d \<longrightarrow> supported pm d" for i
  proof (cases "m i")
    case None
    then show ?thesis using res in_m by (auto simp: empty)
  next
    case (Some d)
    have "(\<exists>x\<in>set ?ds. dev_ID x = i \<and> supported pm x \<and> dev_Enabled x) \<longleftrightarrow> dev_Enabled d"
      using Some sup ids in_m by (auto simp: set_ds ran_def)
    then show ?thesis using res Some by (simp add: empty)
  qed
  then have "in_sync pm m s" by (simp add: in_sync_def)
  then show ?thesis using cb res by (simp add: g m(2))
qed

definition gateway_inv :: "'v manager \<Rightarrow> ('v, 'f) gateway \<Rightarrow> bool" where
  "gateway_inv pm g \<longleftrightarrow> has_callbacks pm (ga_manager g)
     \<and> (\<not> gw_stuck (ga_world g) \<longrightarrow> registry_inv (gw_polling (ga_world g))
          \<and> in_sync pm (dm_devices (ga_manager g)) (gw_polling (ga_world g)))"

lemma step_in_sync: "gateway_step env cenv g g' \<Longrightarrow> gateway_inv pm g \<Longrightarrow> gateway_inv pm g'"
proof (induction rule: gateway_step.induct)
  case (edited g e r dm w)
  then show ?case using edit_in_sync edit_keeps_callbacks [OF edited(3)] by (simp add: gateway_inv_def) blast
next
  case (polling l g s)
  have "registered s = registered (gw_polling (ga_world g))" if "registry_inv (gw_polling (ga_world g))"
    using registered_same [OF polling(2,3) that] .
  then show ?case using polling polling_step_registry [OF polling(1)] by (auto simp: gateway_inv_def in_sync_def)
qed (simp_all add: gateway_inv_def)

lemma reachable_in_sync: "gateway_reachable env cenv pm g \<Longrightarrow> gateway_inv pm g"
proof (induction rule: gateway_reachable.induct)
  case (started clock cfg pub now sub v files g)
  then show ?case using start_in_sync [OF started] by (simp add: gateway_inv_def)
next
  case (step g g')
  from step_in_sync [OF step(2,3)] show ?case .
qed

section \<open>Counting\<close>

lemma pool_missing: "GetPool pm (dev_Protocol d) = None \<longleftrightarrow> \<not> supported pm d"
  by (simp add: supported_def)

lemma count_devices_all:
  "count_devices pm ds (m, n) = (\<lambda>p. m p + length (filter (\<lambda>d. supported pm d \<and> dev_Protocol d = p) ds),
     n + length (filter (\<lambda>d. \<not> supported pm d) ds))"
  by (induction ds arbitrary: m n) (auto simp: pool_missing fun_eq_iff)

lemma register_devices_all:
  "register_devices pm ds (ok, failed) s = Some ((ok', failed'), s')
    \<Longrightarrow> ok' + failed' = ok + failed + length (filter (supported pm) ds)"
  by (induction ds arbitrary: ok failed s) (auto simp: supported_def split: if_splits option.splits)

lemma unstarted_registers:
  assumes "\<not> po_started s" shows "\<exists>e s'. RegisterDevice d s = Some (e, s') \<and> \<not> po_started s'
    \<and> (po_devices s (dev_ID d) = None \<longrightarrow> e = None) \<and> (\<forall>i. i \<noteq> dev_ID d \<longrightarrow> po_devices s' i = po_devices s i)"
  using assms by (auto simp: RegisterDevice_def Let_def)

lemma unstarted_all_registered:
  "\<not> po_started s \<Longrightarrow> distinct (map dev_ID ds) \<Longrightarrow> \<forall>d\<in>set ds. po_devices s (dev_ID d) = None
    \<Longrightarrow> \<exists>s'. register_devices pm ds (ok, failed) s = Some ((ok + length (filter (supported pm) ds), failed), s')"
proof (induction ds arbitrary: ok s)
  case (Cons d ds)
  show ?case
  proof (cases "supported pm d")
    case False
    then show ?thesis using Cons by (simp add: supported_def)
  next
    case True
    obtain s1 where s1: "RegisterDevice d s = Some (None, s1)" "\<not> po_started s1" "\<forall>i. i \<noteq> dev_ID d \<longrightarrow> po_devices s1 i = po_devices s i"
      using unstarted_registers [OF Cons.prems(1), of d] Cons.prems(3) by auto
    have free: "\<forall>x\<in>set ds. po_devices s1 (dev_ID x) = None" 
    proof
      fix x assume x: "x \<in> set ds"
      then have "dev_ID x \<noteq> dev_ID d" using Cons.prems(2) by (auto simp: image_iff)
      then show "po_devices s1 (dev_ID x) = None" using s1(3) Cons.prems(3) x by simp
    qed
    show ?thesis using Cons.IH [OF s1(2) _ free, of "ok + 1"] Cons.prems(2) True by (simp add: s1(1) pool_missing)
  qed
qed simp

section \<open>Examples\<close>

text \<open>The configuration of the defaults.\<close>

definition default_config :: gateway_config where
  "default_config = \<lparr>gc_Environment = ''development'', gc_DevicesConfigPath = ''a'',
     gc_HTTP = \<lparr>hc_Port = 8080, hc_ReadTimeout = 10 * second, hc_WriteTimeout = 10 * second, hc_IdleTimeout = 60 * second\<rparr>,
     gc_API = \<lparr>ac_AuthEnabled = False, ac_APIKey = [], ac_MaxRequestBodySize = 1048576, ac_AllowedOrigins = []\<rparr>,
     gc_MQTT = \<lparr>gm_BrokerURL = ''tcp://localhost:1883'', gm_ClientID = ''protocol-gateway'', gm_Username = [], gm_Password = [],
       gm_CleanSession = True, gm_QoS = 1, gm_KeepAlive = 30 * second, gm_ConnectTimeout = 10 * second,
       gm_ReconnectDelay = 5 * second, gm_MaxReconnect = - 1, gm_TLSEnabled = False, gm_TLSCertFile = [], gm_TLSKeyFile = [],
       gm_TLSCAFile = [], gm_BufferSize = 500\<rparr>,
     gc_Modbus = \<lparr>gb_MaxConnections = 100, gb_IdleTimeout = 300 * second, gb_HealthCheckPeriod = 30 * second,
       gb_ConnectionTimeout = 10 * second, gb_RetryAttempts = 3, gb_RetryDelay = 100 * millisecond\<rparr>,
     gc_OPCUA = \<lparr>go_MaxConnections = 50, go_IdleTimeout = 300 * second, go_HealthCheckPeriod = 30 * second,
       go_ConnectionTimeout = 15 * second, go_RetryAttempts = 3, go_RetryDelay = 500 * millisecond,
       go_DefaultSecurityPolicy = ''None'', go_DefaultSecurityMode = ''None'', go_DefaultAuthMode = ''Anonymous'',
       go_TrustStorePath = [], go_AutoTrust = False, go_CertCheckInterval = 3600 * second\<rparr>,
     gc_S7 = \<lparr>gs_MaxConnections = 100, gs_IdleTimeout = 300 * second, gs_HealthCheckPeriod = 30 * second,
       gs_ConnectionTimeout = 10 * second, gs_RetryAttempts = 3, gs_RetryDelay = 5 * second, gs_CBMaxRequests = 3,
       gs_CBInterval = 10 * second, gs_CBTimeout = 30 * second, gs_CBFailureThreshold = 5\<rparr>,
     gc_Polling = \<lparr>gp_WorkerCount = 10, gp_BatchSize = 50, gp_DefaultInterval = second, gp_MaxRetries = 3,
       gp_ShutdownTimeout = 30 * second\<rparr>,
     gc_Logging = \<lparr>gl_Level = ''info'', gl_Format = ''json'', gl_Output = ''stdout'', gl_TimeFormat = []\<rparr>,
     gc_NTP = \<lparr>gn_Enabled = False, gn_Server = [], gn_CheckInterval = 0, gn_WarnThreshold = 0, gn_CritThreshold = 0\<rparr>\<rparr>"

definition demo_pools :: "unit manager" where
  "demo_pools = RegisterPool ProtocolModbusTCP one_point_pool NewProtocolManager"

definition no_subscriptions :: "unit subscription_handler" where
  "no_subscriptions = \<lparr>sb_Subscribe = (\<lambda>d ts w. (None, w)), sb_Unsubscribe = (\<lambda>i w. (None, w))\<rparr>"

definition idle_commands :: "unit cmd_env" where
  "idle_commands = \<lparr>ce_now = (\<lambda>w. 0), ce_command = (\<lambda>s. None), ce_value = (\<lambda>s. None)\<rparr>"

definition mqtt_device :: device where
  "mqtt_device = demo_loaded\<lparr>dev_Protocol := ProtocolMQTT\<rparr>"

lemma demo_supported: "supported demo_pools demo_loaded" "\<not> supported demo_pools mqtt_device"
  by (simp_all add: supported_def demo_pools_def RegisterPool_def GetPool_def NewProtocolManager_def mqtt_device_def
      demo_loaded_def build_device_def demo_yaml_def protocol_of_text_def)

lemma gateway_loads:
  "LoadDevices (file_env.truncate (gateway_env env)) clock path w = LoadDevices (file_env.truncate env) clock path (gw_files w)"
  by (simp add: LoadDevices_def gateway_env_def cong: sum.case_cong)

lemma demo_loads: "LoadDevices (file_env.truncate demo_manager_env) (\<lambda>_. 5) ''a'' [''a'' \<mapsto> [0]] = Inr [demo_loaded]"
proof -
  have "LoadDevices (file_env.truncate demo_manager_env) clock path w = LoadDevices demo_env clock path w" for clock path w
    by (simp add: LoadDevices_def demo_manager_env_def file_env.defs cong: sum.case_cong)
  then show ?thesis using demo_load by simp
qed

lemma demo_gateway:
  "\<exists>g. gateway_start demo_manager_env demo_pools (\<lambda>_. 5) default_config quiet_publisher (\<lambda>w. 0) no_subscriptions () [''a'' \<mapsto> [0]] = Some (Inr g)
     \<and> dm_devices (ga_manager g) = [''d1'' \<mapsto> demo_loaded] \<and> \<not> gw_stuck (ga_world g)"
proof -
  define s where "s = SetSubscriptionHandler no_subscriptions
    (NewPollingService (polling_settings (gc_Polling default_config)) demo_pools quiet_publisher (\<lambda>w. 0) ())"
  define w :: "(unit, string \<rightharpoonup> bytes) gw_world" where "w = \<lparr>gw_polling = s, gw_stuck = False, gw_files = [''a'' \<mapsto> [0]]\<rparr>"
  define dm :: "(unit, string \<rightharpoonup> bytes) gw_world device_manager" where "dm = (gateway_manager demo_pools ''a'')\<lparr>dm_devices := [''d1'' \<mapsto> demo_loaded]\<rparr>"
  have path: "dm_devicesPath (gateway_manager demo_pools ''a'') = ''a''"
    by (simp add: gateway_manager_def SetCallbacks_def NewDeviceManager_def)
  have "LoadDevices (file_env.truncate (gateway_env demo_manager_env)) (\<lambda>_. 5) ''a'' w = Inr [demo_loaded]"
    by (simp add: gateway_loads w_def demo_loads)
  then have load: "manager_LoadDevices (gateway_env demo_manager_env) (\<lambda>_. 5) (gateway_manager demo_pools ''a'', w) = Some (None, dm, w)"
    by (simp add: manager_LoadDevices_def path demo_normalized demo_id dm_def)
  have range1: "GetDevices (gateway_env demo_manager_env) (dm, w) = [demo_loaded]"
    by (simp add: GetDevices_def gateway_env_def dm_def demo_range)
  have "\<not> po_started s" "po_devices s = Map.empty" by (simp_all add: s_def NewPollingService_def SetSubscriptionHandler_def)
  then obtain s' where r: "register_devices demo_pools [demo_loaded] (0, 0) s = Some ((1, 0), s')"
    using unstarted_all_registered [of s "[demo_loaded]" demo_pools 0 0] demo_supported(1) by auto
  have cfg: "gc_DevicesConfigPath default_config = ''a''" by (simp add: default_config_def)
  show ?thesis unfolding gateway_start_def Let_def s_def [symmetric] cfg w_def [symmetric]
    by (simp add: load range1 del: register_devices.simps) (simp add: w_def r dm_def del: register_devices.simps)
qed

lemma mqtt_edit:
  "normalizeDeviceTopics mqtt_device = Some mqtt_device"
  "ValidateDevice (mqtt_device\<lparr>UpdatedAt := 9\<rparr>) = (mqtt_device\<lparr>UpdatedAt := 9\<rparr>, None)"
  "dev_ID mqtt_device = ''d1''" "dev_Protocol mqtt_device = ProtocolMQTT"
proof -
  show "normalizeDeviceTopics mqtt_device = Some mqtt_device"
    using demo_tags by (simp add: normalizeDeviceTopics_def mqtt_device_def same_tags)
  have "ValidateForProtocol demo_tag (ProtocolMQTT) = (demo_tag, None)"
    using f64_one_not_zero by (simp add: ValidateForProtocol_def default_scale_def) (simp add: demo_tag_def zero_tag_def)
  then show "ValidateDevice (mqtt_device\<lparr>UpdatedAt := 9\<rparr>) = (mqtt_device\<lparr>UpdatedAt := 9\<rparr>, None)"
    by (simp add: ValidateDevice_def mqtt_device_def demo_loaded_def build_device_def demo_yaml_def)
  show "dev_ID mqtt_device = ''d1''" "dev_Protocol mqtt_device = ProtocolMQTT" by (simp_all add: mqtt_device_def demo_id)
qed

lemma demo_writes:
  "fe_Marshal demo_manager_env f = Inr [1]" "fe_WriteFile demo_manager_env path data mode files = (None, files(path \<mapsto> data))"
  by (simp_all add: demo_manager_env_def demo_env_def file_env.defs)

section \<open>Properties\<close>

text \<open>
  C10: What is polled is what is configured.  In every state of the running gateway, whatever was edited
  and in whatever order the services made their steps, the polling service has for the ID of a device exactly
  the device that the API shows when it is enabled, and none when it is disabled or was deleted.  Excepted are
  devices of a protocol without a pool, and a gateway in which a call of the service never returned.
\<close>

theorem polled_is_configured:
  assumes "gateway_reachable env cenv pm g" and "\<not> gw_stuck (ga_world g)"
    and "\<And>d. GetDevice i (ga_manager g) = Some d \<Longrightarrow> supported pm d"
  shows "registered (gw_polling (ga_world g)) i =
    (case GetDevice i (ga_manager g) of None \<Rightarrow> None | Some d \<Rightarrow> if dev_Enabled d then Some d else None)"
  using reachable_in_sync [OF assms(1)] assms(2,3) by (simp add: gateway_inv_def in_sync_def GetDevice_def)

theorem polled_is_configured_witness:
  "\<exists>g :: (unit, string \<rightharpoonup> bytes) gateway. gateway_reachable demo_manager_env idle_commands demo_pools g
     \<and> registered (gw_polling (ga_world g)) ''d1'' = Some demo_loaded \<and> registered (gw_polling (ga_world g)) ''d2'' = None"
proof -
  obtain g where g: "gateway_start demo_manager_env demo_pools (\<lambda>_. 5) default_config quiet_publisher (\<lambda>w. 0) no_subscriptions () [''a'' \<mapsto> [0]]
      = Some (Inr g)" "dm_devices (ga_manager g) = [''d1'' \<mapsto> demo_loaded]" "\<not> gw_stuck (ga_world g)"
    using demo_gateway by blast
  have r: "gateway_reachable demo_manager_env idle_commands demo_pools g"
    by (rule gateway_reachable.started [OF g(1)]) (simp add: g(2) demo_range ran_def)
  have "dev_Enabled demo_loaded" by (simp add: demo_loaded_def build_device_def demo_yaml_def)
  then show ?thesis using r polled_is_configured [OF r g(3), of "''d1''"] polled_is_configured [OF r g(3), of "''d2''"] demo_supported(1)
    by (intro exI [of _ g]) (simp add: GetDevice_def g(2))
qed

text \<open>
  C15: The exception is one.  An edit, in a manager with the gateway's callbacks, of an existing device, whose
  topics can be normalised, that passes validation, gives the device a protocol without a pool and whose device
  file can be written is accepted: the manager has the new device and the file
  is written, and that is all that changes - the polling service goes on with the device as it was.
\<close>

theorem unsupported_edit_keeps_polling:
  assumes "has_callbacks pm dm" and "\<not> supported pm d" and "GetDevice (dev_ID d) dm \<noteq> None"
    and "normalizeDeviceTopics d = Some d1" and "ValidateDevice (d1\<lparr>UpdatedAt := t\<rparr>) = (d2, None)"
    and "fe_Marshal env (file_of_devices (me_range env ((dm_devices dm)(dev_ID d \<mapsto> d2)) (gw_files w))) = Inr data"
    and "fe_WriteFile env (dm_devicesPath dm) data 384 (gw_files w) = (None, files)"
  shows "run_edit (gateway_env env) (Updating t d) (dm, w)
      = Some (None, dm\<lparr>dm_devices := (dm_devices dm)(dev_ID d \<mapsto> d2)\<rparr>, w\<lparr>gw_files := files\<rparr>)
    \<and> dev_Protocol d2 = dev_Protocol d"
proof -
  have "accepted d d2"
    using accepted_by [OF assms(4), where ?t1.0 = "CreatedAt d1" and ?t2.0 = t] assms(5) by simp
  then have d2: "dev_ID d2 = dev_ID d" "dev_Protocol d2 = dev_Protocol d" by (simp_all add: accepted_def)
  let ?dm1 = "dm\<lparr>dm_devices := (dm_devices dm)(dev_ID d \<mapsto> d2)\<rparr>"
  have save: "saveDevicesUnlocked (gateway_env env) (?dm1, w) = (None, w\<lparr>gw_files := files\<rparr>)"
    using assms(6,7) by (simp add: saveDevicesUnlocked_def SaveDevices_def gateway_env_def file_env.defs)
  show ?thesis using assms(1-5) d2 save
    by (simp add: manager_UpdateDevice_def GetDevice_def Let_def run_callback_def has_callbacks_def on_device_edit_def
        supported_def)
qed

theorem unsupported_edit_keeps_polling_witness:
  "\<exists>(dm :: (unit, string \<rightharpoonup> bytes) gw_world device_manager) w.
     GetDevice ''d1'' dm = Some demo_loaded \<and> registered (gw_polling w) ''d1'' = Some demo_loaded
     \<and> run_edit (gateway_env demo_manager_env) (Updating 9 mqtt_device) (dm, w)
       = Some (None, dm\<lparr>dm_devices := (dm_devices dm)(''d1'' \<mapsto> mqtt_device\<lparr>UpdatedAt := 9\<rparr>)\<rparr>,
           w\<lparr>gw_files := (gw_files w)(dm_devicesPath dm \<mapsto> [1])\<rparr>)"
proof -
  obtain g where g: "gateway_start demo_manager_env demo_pools (\<lambda>_. 5) default_config quiet_publisher (\<lambda>w. 0) no_subscriptions () [''a'' \<mapsto> [0]]
      = Some (Inr g)" "dm_devices (ga_manager g) = [''d1'' \<mapsto> demo_loaded]" "\<not> gw_stuck (ga_world g)"
    using demo_gateway by blast
  have inv: "has_callbacks demo_pools (ga_manager g) \<and> registry_inv (gw_polling (ga_world g))
      \<and> in_sync demo_pools (dm_devices (ga_manager g)) (gw_polling (ga_world g))"
    by (rule start_in_sync [OF g(1)]) (simp add: g(2) demo_range ran_def)
  have "dev_Enabled demo_loaded" by (simp add: demo_loaded_def build_device_def demo_yaml_def)
  then have reg: "registered (gw_polling (ga_world g)) ''d1'' = Some demo_loaded"
    using inv demo_supported(1) by (simp add: in_sync_def g(2))
  have dev: "GetDevice ''d1'' (ga_manager g) = Some demo_loaded" by (simp add: GetDevice_def g(2))
  have "run_edit (gateway_env demo_manager_env) (Updating 9 mqtt_device) (ga_manager g, ga_world g)
      = Some (None, (ga_manager g)\<lparr>dm_devices := (dm_devices (ga_manager g))(''d1'' \<mapsto> mqtt_device\<lparr>UpdatedAt := 9\<rparr>)\<rparr>,
          (ga_world g)\<lparr>gw_files := (gw_files (ga_world g))(dm_devicesPath (ga_manager g) \<mapsto> [1])\<rparr>)"
    using unsupported_edit_keeps_polling [OF conjunct1 [OF inv] demo_supported(2) _ mqtt_edit(1,2) demo_writes] dev
    by (simp add: mqtt_edit(3))
  then show ?thesis using dev reg by blast
qed

text \<open>
  The summary that the start logs adds up: every device is registered, failed or unsupported, and when the
  IDs are distinct, as the loader makes sure, none fails.
\<close>

theorem startup_accounts:
  assumes "register_devices pm ds (0, 0) s = Some ((ok, failed), s')"
    and "count_devices pm ds (\<lambda>p. 0, 0) = (counts, unsupported)"
  shows "ok + failed + unsupported = length ds
    \<and> (\<forall>p. counts p = length (filter (\<lambda>d. supported pm d \<and> dev_Protocol d = p) ds))
    \<and> (\<not> po_started s \<and> po_devices s = Map.empty \<and> distinct (map dev_ID ds) \<longrightarrow> failed = 0)"
proof (intro conjI allI impI)
  note a = register_devices_all [OF assms(1)] and c = assms(2) [unfolded count_devices_all]
  show "ok + failed + unsupported = length ds" using a c sum_length_filter_compl [of "supported pm" ds] by auto
  show "counts p = length (filter (\<lambda>d. supported pm d \<and> dev_Protocol d = p) ds)" for p using c by auto
next
  assume "\<not> po_started s \<and> po_devices s = Map.empty \<and> distinct (map dev_ID ds)"
  then show "failed = 0" using unstarted_all_registered [of s ds pm 0 0] assms(1) by auto
qed

theorem startup_accounts_witness:
  "\<exists>s' :: unit polling. register_devices demo_pools [demo_loaded, mqtt_device] (0, 0)
       (NewPollingService demo_config demo_pools quiet_publisher (\<lambda>w. 0) ()) = Some ((1, 0), s')
     \<and> snd (count_devices demo_pools [demo_loaded, mqtt_device] (\<lambda>p. 0, 0)) = 1"
proof -
  let ?s = "NewPollingService demo_config demo_pools quiet_publisher (\<lambda>w. 0) ()" and ?ds = "[demo_loaded, mqtt_device]"
  have e: "\<not> po_started ?s" "po_devices ?s = Map.empty" by (simp_all add: NewPollingService_def)
  obtain s' where r: "register_devices demo_pools [demo_loaded] (0, 0) ?s = Some ((1, 0), s')"
    using unstarted_all_registered [of ?s "[demo_loaded]" demo_pools 0 0] e demo_supported(1) by auto
  then have r2: "register_devices demo_pools ?ds (0, 0) ?s = Some ((1, 0), s')"
    using demo_supported by (auto simp: pool_missing split: option.splits)
  obtain counts n where c: "count_devices demo_pools ?ds (\<lambda>p. 0, 0) = (counts, n)" by force
  from startup_accounts [OF r2 c] have "n = 1" by simp
  then show ?thesis using r2 c by auto
qed

text \<open>
  A configuration that passed the validation starts: neither the MQTT publisher nor the OPC UA pool panics
  when it is made, and the number of workers and the limit of the Modbus pool are those configured, not defaults.  But
  the size of the MQTT buffer is always 10000, whatever \<open>mqtt.buffer_size\<close> says.
\<close>

theorem loaded_config_starts:
  assumes "LoadConfig v = Inr cfg" and "0 \<le> cpus"
  shows "(\<exists>p. NewPublisher (mqtt_settings (gc_MQTT cfg)) w = Ok p \<and> mq_BufferSize (pb_config p) = 10000)
    \<and> (\<exists>p. fst (opcua_setup te (gc_OPCUA cfg) cpus ts) = (Ok p :: ('a, 'n, 'b) opc_pool res))
    \<and> WorkerCount (po_config (NewPollingService (polling_settings (gc_Polling cfg)) pm pub clock x)) = gp_WorkerCount (gc_Polling cfg)
    \<and> 1 \<le> gp_WorkerCount (gc_Polling cfg)
    \<and> pc_MaxConnections (mp_config (NewConnectionPool (modbus_settings (gc_Modbus cfg)) :: 'c mb_pool)) = gb_MaxConnections (gc_Modbus cfg)"
proof -
  note v = LoadConfig_valid [OF assms(1), unfolded ValidateConfig_ok]
  have "\<exists>p. NewPublisher (mqtt_settings (gc_MQTT cfg)) w = Ok p \<and> mq_BufferSize (pb_config p) = 10000"
    by (simp add: NewPublisher_def mqtt_settings_def Let_def or_default_def)
  moreover have "\<exists>p. opc_NewConnectionPool cpus (opcua_settings (gc_OPCUA cfg)) = (Ok p :: ('a, 'n, 'b) opc_pool res)"
    using assms(2) by (simp add: opc_NewConnectionPool_def opc_pool_defaults_def opcua_settings_def default_if_def Let_def)
  then have "\<exists>p. fst (opcua_setup te (gc_OPCUA cfg) cpus ts) = (Ok p :: ('a, 'n, 'b) opc_pool res)"
    by (auto simp: opcua_setup_def split: prod.split option.split)
  ultimately show ?thesis using v
    by (simp add: NewPollingService_def polling_settings_def default_pos_def NewConnectionPool_def modbus_settings_def default_if_def)
qed

theorem loaded_config_starts_witness:
  "\<exists>p. NewPublisher (mqtt_settings (gc_MQTT default_config)) () = Ok p \<and> mq_BufferSize (pb_config p) = 10000
     \<and> gm_BufferSize (gc_MQTT default_config) = 500"
proof -
  let ?v = "\<lparr>vp_ReadInConfig = (\<lambda>s. ReadNotFound), vp_Unmarshal = (\<lambda>s. Inr default_config)\<rparr>"
  have "ValidateConfig default_config = None" by (simp add: ValidateConfig_def default_config_def)
  then have l: "LoadConfig ?v = Inr default_config" by (simp add: LoadConfig_def)
  have b: "gm_BufferSize (gc_MQTT default_config) = 500" by (simp add: default_config_def)
  have c: "(0 :: int) \<le> 4" by simp
  from conjunct1 [OF loaded_config_starts [OF l c, where w = "()"]]
  obtain p where p: "NewPublisher (mqtt_settings (gc_MQTT default_config)) () = Ok p" "mq_BufferSize (pb_config p) = 10000"
    by (elim exE conjE)
  show ?thesis by (rule exI [of _ p]) (simp only: p b)
qed

text \<open>
  The command handler is given the devices of the start and never told of an edit: however the gateway
  goes on, it finds a device and a tag as they were then, also after the device was changed or deleted.
\<close>

theorem commands_use_devices_of_start:
  assumes "(gateway_step env cenv)\<^sup>*\<^sup>* g g'"
  shows "lookup_tag (ga_commands g') cmd = lookup_tag (ga_commands g) cmd"
  using assms
proof (induction rule: rtranclp_induct)
  case (step g1 g2)
  from step(2) have "ch_devices (ga_commands g2) = ch_devices (ga_commands g1) \<and> ch_tagByID (ga_commands g2) = ch_tagByID (ga_commands g1)"
    by (cases rule: gateway_step.cases) simp_all
  then have "lookup_tag (ga_commands g2) cmd = lookup_tag (ga_commands g1) cmd" unfolding lookup_tag_def by (elim conjE) (simp only:)
  then show ?case using step(3) by simp
qed simp

end
