(* ===== verification/Spec2Isabelle.thy ===== *)
theory Spec2Isabelle
  imports Modbus_Pool S7_Pool Command_Handler Mqtt_Publisher Polling_Service Opcua_Sessions
    Gateway
begin

text \<open>
  Verification of the protocol gateway.

  The program reads tags from industrial devices (Modbus, S7, OPC UA) at fixed intervals, publishes
  the values over MQTT under a unified namespace, and accepts write commands over MQTT.  A value
  goes from a device through a protocol client (\<open>internal/adapter/modbus\<close>, \<open>internal/adapter/s7\<close>),
  the client's connection pool with its circuit breaker (\<open>pool.go\<close>), the protocol manager
  (\<open>internal/domain/protocol.go\<close>), the polling service (\<open>internal/service/polling.go\<close>) and the MQTT
  publisher (\<open>internal/adapter/mqtt\<close>); a command goes the other way through the command handler
  (\<open>internal/service/command_handler.go\<close>).  The devices come from a YAML file
  (\<open>internal/adapter/config\<close>) and are edited through the device manager (\<open>internal/api/handlers.go\<close>),
  which writes them back and keeps the polling service in step; \<open>internal/health\<close> watches over the
  whole, and \<open>cmd/gateway/main.go\<close> puts it together behind an HTTP server.

  How the code is rendered.  A Go function is a HOL function; an error result is a value (\<open>err\<close>, with
  the sentinels of \<open>internal/domain/errors.go\<close> and the wrapping of \<open>fmt.Errorf\<close>), a panic is \<open>Panic\<close>;
  a struct that is mutated is a record that is passed on.  Go integers are words of their width where
  the width matters, floats are IEEE bit patterns that are computed with.  Goroutines, callbacks and
  locks are step relations (\<open>cmd_step\<close>, \<open>mqtt_step\<close>, \<open>polling_step\<close>, \<open>load_step\<close>,
  \<open>health_step\<close>, \<open>gateway_step\<close>) whose rules are the atomic actions;
  the theorems about them hold in every reachable state.  What is not in the repository is a
  parameter: the Modbus, S7, OPC UA and MQTT libraries, the JSON, YAML and
  viper decoders, the circuit breaker, certificates and hashes, files, the docker command, the clock.  They
  act on a world of any type, and a theorem that relies on them has their documented behaviour as
  its hypotheses, which its witness discharges for a concrete instance.

  Shared vocabulary.
  \<^item> \<open>Prelude\<close>, \<open>Go_Float\<close>, \<open>Go_Error\<close>, \<open>Go_Value\<close>, \<open>Byte_Codec\<close>: machine types and outcomes, IEEE
    arithmetic, errors, dynamic values and Go's numeric conversions, big-endian encodings (a locale
    for fixed-width codecs, interpreted at 2, 4 and 8 bytes).
  \<^item> \<open>Go_Float_Exact\<close>, \<open>Go_Duration\<close>: arithmetic that does not round, and durations as text, which are
    read back as they were.
  \<^item> \<open>Domain\<close>: \<open>device.go\<close>, \<open>tag.go\<close>, \<open>datapoint.go\<close>: records, validation, recycled data points.
  \<^item> \<open>Retry_Loop\<close>, \<open>Range_Merge\<close>, \<open>Go_Channel\<close>, \<open>Circuit_Breaker\<close>: the retry loop, the merging of sorted
    tags into ranges, bounded channels, and the contract of a pool of bounded size, each once, with a
    locale for its contract that the components interpret.

  Components.
  \<^item> \<open>Modbus_Conversion\<close>, \<open>Modbus_Client\<close>, \<open>Modbus_Batch\<close>, \<open>Modbus_Pool\<close>: \<open>conversion.go\<close>, \<open>client.go\<close>, \<open>pool.go\<close>.
    Decoding never panics, what is written is read back, byte orders, merged reads answer every tag
    and read the same as single reads, retries are bounded, the pool keeps its limit and isolates devices.
  \<^item> \<open>S7_Address\<close>, \<open>S7_Conversion\<close>, \<open>S7_Batch\<close>, \<open>S7_Client\<close>, \<open>S7_Memory\<close>, \<open>S7_Pool\<close>: the S7 counterpart; the address
    parser accepts what it prints, a write of a bit changes that bit, every write of a batch is answered.
  \<^item> \<open>Protocol_Manager\<close>: routing by protocol.
  \<^item> \<open>Command_Handler\<close>: every command received is accounted for, one response each, only known and
    writable tags are written.
  \<^item> \<open>Mqtt_Publisher\<close>: the buffer is bounded whatever other goroutines do between the channel operations
    of a call, and keeps the newest messages when none does.
  \<^item> \<open>Opcua_Conversion\<close>, \<open>Opcua_Security\<close>, \<open>Opcua_Trust\<close>, \<open>Opcua_Client\<close>, \<open>Opcua_Nodes\<close>, \<open>Opcua_Browse\<close>
    (\<open>internal/adapter/opcua\<close>): conversion, security settings and endpoint selection, the store of
    certificates, the client with its node IDs, reads and writes, and browsing.  A node reads back what
    was written, a discovered server whose certificate the store does not accept is not dialled (a server
    whose discovery fails is), browsing ends within its depth.
  \<^item> \<open>Opcua_Load\<close>: the load control as a step relation: what is in flight is accounted for, up to the
    calls that panicked, and a waiting call is in somebody's hands.
  \<^item> \<open>Opcua_Subscription\<close>, \<open>Opcua_Pool\<close>, \<open>Opcua_Sharing\<close>, \<open>Opcua_Sessions\<close>: subscriptions and the pool
    of sessions shared by the devices of an endpoint.  What is kept for a tag came from an item delivered
    for its place in the list, and a handler runs unless the manager's context is cancelled; the pool
    refines a registry of endpoints and bindings, keeps its limit, and what sharing means for names,
    breakers and reaping is stated.
  \<^item> \<open>Health_Checker\<close>, \<open>Ntp_Checker\<close>: the status of a check as a function of its history, the published
    status and operational state in every reachable state, the accuracy of the measured clock offset.
  \<^item> \<open>Device_Config\<close>, \<open>Gateway_Config\<close>: the device file, which reloads what was saved up to the fields
    it has no place for, and the gateway's configuration with its defaults and validation.
  \<^item> \<open>Device_Manager\<close>: loading, adding, updating, deleting and saving devices as a refinement of a store
    with roll-back, the normalisation of topic suffixes and when it does not return, restarts.
  \<^item> \<open>Http_Api\<close>, \<open>Http_Runtime\<close> (\<open>internal/api\<close>): the middleware and the handlers over a request and the
    response that is written; what a request without the key can reach, that the answer tells what happened to the
    devices, that the overview shows the polled topics, which commands are ever run.
  \<^item> \<open>Gateway_Web\<close>, \<open>Gateway\<close> (\<open>cmd/gateway/main.go\<close>): the endpoints and routes, the settings that reach
    the components, the callbacks, the start and the running gateway, in which what is polled is what
    is configured.
  \<^item> \<open>Polling\<close>, \<open>Polling_Service\<close>: topics and points of a poll; workers, goroutines and the registry.

  Bounds and fuel.  No operation of the model runs on fuel: loops are structural or have a measure, the retry loop runs
  over the number of attempts left, and what need not return (\<open>startDevicePoller\<close>, \<open>collect_pages\<close>,
  \<open>unique_suffix\<close>) is a partial function whose value is \<open>None\<close> when it does not.  Counters of events are natural numbers and do not wrap.

  Not modelled: log messages and Prometheus metrics (\<open>internal/metrics\<close>, \<open>pkg/logging\<close>), which are
  calls of libraries whose state nothing reads back; of \<open>main\<close>, waiting for the signal and the calls that stop
  the components, each of which is modelled with its component; the mocks and helpers of the tests.
\<close>

end
